(* ===== verification/PyFloat.thy ===== *)
theory PyFloat imports Complex_Main "HOL-Library.Log_Nat" begin

text \<open>
  Python's \<^verbatim>\<open>float\<close>: an IEEE-754 binary64 number.  Every price, quantity ratio and
  P\&L figure of the platform is one.  A finite float is carried by its exact rational
  value; the infinities and the NaN are values of their own, because the platform's guards
  (\<open>price <= 0.05\<close>, \<open>margin < notional\<close>) behave differently on them.
  Every arithmetic operation rounds the exact result to 53 significant bits (ties to even,
  gradual underflow at $2^{-1074}$, overflow to an infinity at $2^{1024}$), so the
  statements proved over this type include the rounding errors of the code.  The sign of
  zero is not represented: no operation of the modelled code observes it.

  The theory holds the rounding functions (binary \<open>fl\<close> and decimal \<open>dec_round\<close>, the
  kernel of Python's \<open>round\<close>), the contract they share (locale \<open>rounding\<close>), the
  float operations and the laws of Python's \<open>max\<close> and \<open>min\<close>.
\<close>

section \<open>Round half to even\<close>

definition rhe :: "rat \<Rightarrow> int" where
  "rhe x = (let f = \<lfloor>x\<rfloor>; d = x - of_int f in
     if d < 1 / 2 \<or> (d = 1 / 2 \<and> even f) then f else f + 1)"

lemma rhe_of_int [simp]: "rhe (of_int n) = n"
  by (simp add: rhe_def)

lemma rhe_0 [simp]: "rhe 0 = 0"
  by (simp add: rhe_def)

lemma rhe_error: "\<bar>of_int (rhe x) - x\<bar> \<le> 1 / 2"
proof -
  have "of_int \<lfloor>x\<rfloor> \<le> x" and "x < of_int \<lfloor>x\<rfloor> + 1" by linarith+
  then show ?thesis unfolding rhe_def Let_def abs_le_iff
    by (simp split: if_split) linarith?
qed

lemma rhe_mono:
  assumes "x \<le> y" shows "rhe x \<le> rhe y"
proof (cases "\<lfloor>x\<rfloor> = \<lfloor>y\<rfloor>")
  case True
  with assms show ?thesis by (auto simp: rhe_def Let_def)
next
  case False
  with assms have "\<lfloor>x\<rfloor> + 1 \<le> \<lfloor>y\<rfloor>" using floor_mono[OF assms] by linarith
  then show ?thesis by (auto simp: rhe_def Let_def)
qed

lemma rhe_minus: "rhe (- x) = - rhe x"
proof (cases "x = of_int \<lfloor>x\<rfloor>")
  case True
  then have "rhe x = \<lfloor>x\<rfloor>" "rhe (- x) = - \<lfloor>x\<rfloor>"
    by (metis rhe_of_int) (metis True of_int_minus rhe_of_int)
  then show ?thesis by simp
next
  case False
  have fl: "of_int \<lfloor>x\<rfloor> < x" "x < of_int \<lfloor>x\<rfloor> + 1"
    using False of_int_floor_le[of x] floor_correct[of x] by linarith+
  have "\<lfloor>- x\<rfloor> = - \<lfloor>x\<rfloor> - 1"
    using fl by (intro floor_unique) auto
  then show ?thesis
    using fl by (auto simp: rhe_def Let_def)
qed

lemma rhe_nearest:
  assumes "\<bar>of_int n - x\<bar> < 1 / 2" shows "rhe x = n"
  using rhe_error[of x] assms by linarith

section \<open>Binary rounding\<close>

text \<open>The binary exponent of a nonzero rational: the \<open>e\<close> with \<open>2 ^ e \<le> \<bar>x\<bar> < 2 ^ (e + 1)\<close>.\<close>

definition expo :: "rat \<Rightarrow> int" where
  "expo x = (let (p, q) = quotient_of \<bar>x\<bar>; k = bitlen p - bitlen q in
     if 2 powi k \<le> \<bar>x\<bar> then k else k - 1)"

lemma pow2_pos [simp]: "0 < (2::rat) powi k"
  by (rule zero_less_power_int) simp

lemma pow2_Suc: "(2::rat) powi (k + 1) = 2 * 2 powi k"
  by (simp add: power_int_add)

lemma pow2_mono: "k \<le> l \<Longrightarrow> (2::rat) powi k \<le> 2 powi l"
  by (rule power_int_increasing) auto

lemma pow2_less_iff: "(2::rat) powi k < 2 powi l \<longleftrightarrow> k < l"
proof -
  have "(2::rat) powi k < 2 powi l" if "k < l" for k l :: int
  proof -
    have "(2::rat) powi k < 2 powi (k + 1)" by (simp add: pow2_Suc)
    also have "\<dots> \<le> 2 powi l" using that by (intro pow2_mono) simp
    finally show ?thesis .
  qed
  then show ?thesis by (metis less_asym linorder_neqE less_irrefl)
qed

lemma pow2_le_iff: "(2::rat) powi k \<le> 2 powi l \<longleftrightarrow> k \<le> l"
  using pow2_less_iff[of l k] by (auto simp: not_less[symmetric])

lemma bitlen_pow2_bounds:
  assumes "0 < p"
  shows "(2::rat) powi (bitlen p - 1) \<le> of_int p" "of_int p < (2::rat) powi (bitlen p)"
proof -
  have b: "2 ^ nat (bitlen p - 1) \<le> p" "p < 2 ^ nat (bitlen p)"
    using bitlen_bounds[OF assms] by auto
  have n: "0 \<le> bitlen p - 1" "0 \<le> bitlen p"
    using assms bitlen_nonneg[of p] bitlen_eq_zero_iff[of p] by linarith+
  have "rat_of_int (2 ^ nat (bitlen p - 1)) \<le> of_int p" using b(1) by (simp only: of_int_le_iff)
  then show "(2::rat) powi (bitlen p - 1) \<le> of_int p"
    using n by (simp add: power_int_def)
  have "rat_of_int p < of_int (2 ^ nat (bitlen p))" using b(2) by (simp only: of_int_less_iff)
  then show "of_int p < (2::rat) powi (bitlen p)"
    using n by (simp add: power_int_def)
qed

lemma expo_bounds:
  assumes "x \<noteq> 0"
  shows "2 powi expo x \<le> \<bar>x\<bar>" "\<bar>x\<bar> < 2 powi (expo x + 1)"
proof -
  obtain p q where pq: "quotient_of \<bar>x\<bar> = (p, q)" by force
  have x: "\<bar>x\<bar> = of_int p / of_int q" and q: "0 < q"
    using quotient_of_div[OF pq] quotient_of_denom_pos[OF pq] by auto
  have p: "0 < p"
  proof -
    have "0 < \<bar>x\<bar>" using assms by simp
    then show ?thesis using x q by (simp add: zero_less_divide_iff)
  qed
  let ?k = "bitlen p - bitlen q"
  note P = bitlen_pow2_bounds[OF p] and Q = bitlen_pow2_bounds[OF q]
  have "(2::rat) powi (bitlen p - 1) = 2 powi (?k - 1) * 2 powi (bitlen q)"
    by (simp add: power_int_add[symmetric])
  with P(1) have "(2::rat) powi (?k - 1) * 2 powi (bitlen q) \<le> of_int p" by simp
  moreover have "(2::rat) powi (?k - 1) * of_int q \<le> 2 powi (?k - 1) * 2 powi (bitlen q)"
    using Q(2) by (intro mult_left_mono) auto
  ultimately have "(2::rat) powi (?k - 1) * of_int q \<le> of_int p" by linarith
  then have lo: "2 powi (?k - 1) \<le> \<bar>x\<bar>"
    using q x by (simp add: pos_le_divide_eq)
  have "(2::rat) powi (bitlen p) = 2 powi (?k + 1) * 2 powi (bitlen q - 1)"
    by (simp add: power_int_add[symmetric])
  with P(2) have "of_int p < (2::rat) powi (?k + 1) * 2 powi (bitlen q - 1)" by simp
  moreover have "(2::rat) powi (?k + 1) * 2 powi (bitlen q - 1) \<le> 2 powi (?k + 1) * of_int q"
    using Q(1) by (intro mult_left_mono) auto
  ultimately have "of_int p < (2::rat) powi (?k + 1) * of_int q" by linarith
  then have hi: "\<bar>x\<bar> < 2 powi (?k + 1)"
    using q x by (simp add: pos_divide_less_eq)
  show "2 powi expo x \<le> \<bar>x\<bar>" "\<bar>x\<bar> < 2 powi (expo x + 1)"
    using lo hi by (auto simp: expo_def pq Let_def)
qed

lemma expo_unique:
  assumes "2 powi e \<le> \<bar>x\<bar>" "\<bar>x\<bar> < 2 powi (e + 1)" shows "expo x = e"
proof -
  have "x \<noteq> 0" using assms(1) pow2_pos[of e] by (metis abs_zero not_le)
  note b = expo_bounds[OF this]
  have "2 powi e < (2::rat) powi (expo x + 1)" "2 powi expo x < (2::rat) powi (e + 1)"
    using assms b by linarith+
  then show ?thesis by (simp add: pow2_less_iff)
qed

lemma expo_minus [simp]: "expo (- x) = expo x"
  by (simp add: expo_def)

lemma expo_mono: "x \<noteq> 0 \<Longrightarrow> \<bar>x\<bar> \<le> \<bar>y\<bar> \<Longrightarrow> expo x \<le> expo y"
proof -
  assume a: "x \<noteq> 0" "\<bar>x\<bar> \<le> \<bar>y\<bar>"
  then have "y \<noteq> 0" by auto
  with a have "(2::rat) powi expo x < 2 powi (expo y + 1)"
    using expo_bounds[of x] expo_bounds[of y] by linarith
  then show ?thesis by (simp add: pow2_less_iff)
qed

text \<open>The spacing of the doubles around \<open>x\<close>, and the nearest double.\<close>

definition quantum :: "rat \<Rightarrow> rat" where
  "quantum x = 2 powi max (expo x - 52) (- 1074)"

definition fl :: "rat \<Rightarrow> rat" where
  "fl x = (if x = 0 then 0 else of_int (rhe (x / quantum x)) * quantum x)"

lemma quantum_pos [simp]: "0 < quantum x"
  by (simp add: quantum_def)

lemma quantum_nonneg [simp]: "0 \<le> quantum x"
  using quantum_pos[of x] by linarith

lemma quantum_neq0 [simp]: "quantum x \<noteq> 0"
  using quantum_pos[of x] by linarith

lemma fl_0 [simp]: "fl 0 = 0"
  by (simp add: fl_def)

lemma fl_minus: "fl (- x) = - fl x"
  by (simp add: fl_def quantum_def rhe_minus)

lemma fl_error: "\<bar>fl x - x\<bar> \<le> quantum x / 2"
proof (cases "x = 0")
  case True
  then show ?thesis using quantum_pos[of 0] by (simp add: less_imp_le del: quantum_pos)
next
  case False
  have "fl x - x = (of_int (rhe (x / quantum x)) - x / quantum x) * quantum x"
    using False quantum_pos[of x] by (simp add: fl_def left_diff_distrib less_imp_neq[symmetric] del: quantum_pos)
  then have "\<bar>fl x - x\<bar> = \<bar>of_int (rhe (x / quantum x)) - x / quantum x\<bar> * quantum x"
    using quantum_pos[of x] by (simp only: abs_mult abs_of_pos)
  also have "\<dots> \<le> 1 / 2 * quantum x"
    using rhe_error[of "x / quantum x"] by (intro mult_right_mono) auto
  finally show ?thesis by simp
qed

text \<open>Doubles are the multiples of a power of two with at most 53 significant bits.\<close>

lemma fl_representable:
  assumes m: "\<bar>m\<bar> \<le> 2 ^ 53" and e: "- 1074 \<le> e"
  shows "fl (of_int m * 2 powi e) = of_int m * 2 powi e"
proof (cases "m = 0")
  case False
  let ?x = "of_int m * (2::rat) powi e"
  have "\<exists>n. ?x / quantum ?x = of_int n"
  proof (cases "\<bar>m\<bar> = 2 ^ 53")
    case True
    then have "\<bar>?x\<bar> = 2 powi (e + 53)"
      by (simp add: abs_mult power_int_add of_int_abs[symmetric] del: of_int_abs)
    then have "expo ?x = e + 53" by (intro expo_unique) (simp_all add: pow2_less_iff del: abs_mult)
    then have "quantum ?x = 2 powi (e + 1)" using e by (simp add: quantum_def add.commute)
    moreover have "?x = of_int (m div 2) * 2 powi (e + 1)"
    proof -
      have "2 dvd m" using True by (metis dvd_abs_iff dvd_power zero_less_numeral)
      then have "m = 2 * (m div 2)" by simp
      then have "of_int m = 2 * rat_of_int (m div 2)" by (metis of_int_mult of_int_numeral)
      then show ?thesis by (simp add: pow2_Suc)
    qed
    ultimately show ?thesis by (intro exI[of _ "m div 2"]) (simp add: divide_simps)
  next
    case neq: False
    have "rat_of_int \<bar>m\<bar> < of_int (2 ^ 53)" using m neq by (simp only: of_int_less_iff)
    then have "\<bar>?x\<bar> < 2 powi (e + 53)"
      by (simp add: abs_mult power_int_add of_int_abs)
    moreover have "?x \<noteq> 0" using False pow2_pos[of e] by (simp del: pow2_pos)
    ultimately have "(2::rat) powi expo ?x < 2 powi (e + 53)"
      using expo_bounds(1)[of ?x] by linarith
    then have ex: "expo ?x \<le> e + 52" by (simp add: pow2_less_iff)
    let ?k = "max (expo ?x - 52) (- 1074)"
    have k: "?k \<le> e" using ex e by simp
    then have "(2::rat) powi e = 2 powi ?k * 2 ^ nat (e - ?k)"
      by (subst power_int_of_nat[symmetric]) (simp add: power_int_add[symmetric])
    moreover have "quantum ?x = 2 powi ?k" by (simp only: quantum_def)
    ultimately have "?x = of_int (m * 2 ^ nat (e - ?k)) * quantum ?x"
      by (simp only: of_int_mult of_int_power of_int_numeral mult_ac)
    then have "?x / quantum ?x = of_int (m * 2 ^ nat (e - ?k))"
      by (metis nonzero_mult_div_cancel_right quantum_neq0)
    then show ?thesis by blast
  qed
  then obtain n where n: "?x / quantum ?x = of_int n" ..
  then have "?x = of_int n * quantum ?x" using quantum_pos[of ?x] by (simp add: field_simps)
  then show ?thesis using n False by (simp add: fl_def)
qed simp


lemma fl_of_int [simp]: "\<bar>n\<bar> \<le> 2 ^ 53 \<Longrightarrow> fl (of_int n) = of_int n"
  using fl_representable[of n 0] by simp

text \<open>The grid: \<open>fl x\<close> is a multiple of its quantum with at most 53 bits.\<close>

lemma fl_grid:
  obtains m e where "fl x = of_int m * 2 powi e" "\<bar>m\<bar> \<le> 2 ^ 53" "- 1074 \<le> e"
proof (cases "x = 0")
  case True
  then show ?thesis using that[of 0 0] by simp
next
  case False
  let ?e = "max (expo x - 52) (- 1074)" and ?m = "rhe (x / quantum x)"
  have "\<bar>x\<bar> < 2 powi (expo x + 1)" using expo_bounds[OF False] by simp
  also have "\<dots> \<le> 2 powi (?e + 53)" by (intro pow2_mono) simp
  also have "\<dots> = 2 ^ 53 * quantum x" by (simp add: quantum_def power_int_add)
  finally have b: "\<bar>x / quantum x\<bar> \<le> 2 ^ 53" by (simp add: divide_simps abs_mult)
  have "rhe (x / quantum x) \<le> rhe (of_int (2 ^ 53))" "rhe (of_int (- (2 ^ 53))) \<le> rhe (x / quantum x)"
    using b unfolding abs_le_iff by (auto intro!: rhe_mono simp: minus_le_iff)
  then have "\<bar>?m\<bar> \<le> 2 ^ 53" by (simp only: rhe_of_int abs_le_iff) simp
  moreover have "fl x = of_int ?m * 2 powi ?e" using False by (simp add: fl_def quantum_def)
  ultimately show ?thesis using that by simp
qed

lemma fl_idem: "fl (fl x) = fl x"
  by (rule fl_grid[of x]) (simp add: fl_representable)

lemma fl_fixed_pow2: "- 1074 \<le> k \<Longrightarrow> fl (2 powi k) = 2 powi k"
  using fl_representable[of 1 k] by simp

text \<open>Monotonicity: inside one binade by \<open>rhe_mono\<close>, across binades through the power of two between.\<close>

lemma fl_mono_same: "x \<le> y \<Longrightarrow> quantum x = quantum y \<Longrightarrow> x \<noteq> 0 \<Longrightarrow> y \<noteq> 0 \<Longrightarrow> fl x \<le> fl y"
  by (auto simp: fl_def intro!: mult_right_mono rhe_mono divide_right_mono)

lemma fl_nonneg: "0 \<le> x \<Longrightarrow> 0 \<le> fl x"
  using rhe_mono[of 0 "x / quantum x"] by (auto simp: fl_def)

lemma fl_le_pow2:
  assumes "0 < x" "x \<le> 2 powi k" "- 1074 \<le> k" shows "fl x \<le> 2 powi k"
proof -
  have q: "expo x \<le> k"
  proof -
    have "(2::rat) powi expo x \<le> 2 powi k" using expo_bounds[of x] assms by simp
    then show ?thesis by (simp add: pow2_le_iff)
  qed
  then have "max (expo x - 52) (- 1074) \<le> k" using assms(3) by simp
  then have "(2::rat) powi k = 2 ^ nat (k - max (expo x - 52) (- 1074)) * quantum x"
    unfolding quantum_def by (subst power_int_of_nat[symmetric]) (simp add: power_int_add[symmetric])
  then obtain n :: int where n: "2 powi k = of_int n * quantum x"
    by (metis of_int_numeral of_int_power)
  then have "x / quantum x \<le> of_int n" using assms(2) by (simp add: divide_simps)
  then have "rhe (x / quantum x) \<le> n" using rhe_mono by (metis rhe_of_int)
  then show ?thesis using assms(1) n by (simp add: fl_def mult_right_mono)
qed

lemma fl_ge_pow2:
  assumes "2 powi k \<le> x" "- 1074 \<le> k" "k \<le> expo x" "max (expo x - 52) (- 1074) \<le> k"
  shows "2 powi k \<le> fl x"
proof -
  have x: "0 < x" using assms(1) pow2_pos[of k] by linarith
  have "(2::rat) powi k = 2 ^ nat (k - max (expo x - 52) (- 1074)) * quantum x"
    unfolding quantum_def using assms(4)
    by (subst power_int_of_nat[symmetric]) (simp add: power_int_add[symmetric])
  then obtain n :: int where n: "2 powi k = of_int n * quantum x"
    by (metis of_int_numeral of_int_power)
  then have "of_int n \<le> x / quantum x" using assms(1) by (simp add: divide_simps)
  then have "n \<le> rhe (x / quantum x)" using rhe_mono by (metis rhe_of_int)
  then show ?thesis using x n by (simp add: fl_def mult_right_mono)
qed

lemma fl_mono_pos:
  assumes "0 < x" "x \<le> y" shows "fl x \<le> fl y"
proof (cases "quantum x = quantum y")
  case True
  with assms show ?thesis by (intro fl_mono_same) auto
next
  case False
  have le: "expo x \<le> expo y" using assms by (intro expo_mono) auto
  have ne: "max (expo x - 52) (- 1074) \<noteq> max (expo y - 52) (- 1074)"
    using False by (auto simp: quantum_def)
  with le have lt: "expo x < expo y" "- 1074 < expo y - 52" by auto
  have "fl x \<le> 2 powi (expo y)"
  proof (rule fl_le_pow2)
    have "x < 2 powi (expo x + 1)" using expo_bounds[of x] assms by simp
    also have "\<dots> \<le> 2 powi (expo y)" using lt by (intro pow2_mono) simp
    finally show "x \<le> 2 powi (expo y)" by simp
  qed (use assms lt in auto)
  also have "\<dots> \<le> fl y"
    using expo_bounds[of y] assms lt by (intro fl_ge_pow2) auto
  finally show ?thesis .
qed

lemma fl_mono: assumes "x \<le> y" shows "fl x \<le> fl y"
proof -
  consider "0 < x" | "x \<le> 0" "0 \<le> y" | "y < 0" by linarith
  then show ?thesis
  proof cases
    case 1
    then show ?thesis using assms by (rule fl_mono_pos)
  next
    case 2
    then have "0 \<le> fl y" "0 \<le> fl (- x)" by (auto intro: fl_nonneg)
    then show ?thesis by (simp add: fl_minus)
  next
    case 3
    then have "fl (- y) \<le> fl (- x)" using assms by (intro fl_mono_pos) auto
    then show ?thesis by (simp add: fl_minus)
  qed
qed


text \<open>Relative error: half a unit in the last place, for every number of normal size.\<close>

lemma fl_rel_error:
  assumes "2 powi (- 1022) \<le> \<bar>x\<bar>" shows "\<bar>fl x - x\<bar> \<le> \<bar>x\<bar> / 2 ^ 53"
proof -
  have x: "x \<noteq> 0" using assms pow2_pos[of "- 1022"] by (metis abs_zero not_le)
  have "(2::rat) powi (- 1022) < 2 powi (expo x + 1)"
    using assms expo_bounds(2)[OF x] by (rule order_le_less_trans)
  then have "- 1022 < expo x + 1" by (rule pow2_less_iff[THEN iffD1])
  then have "- 1022 \<le> expo x" by simp
  then have "quantum x = 2 powi (expo x - 52)" by (simp add: quantum_def)
  then have "quantum x = 2 powi expo x / 2 ^ 52" by (simp add: power_int_diff)
  then have "quantum x / 2 \<le> \<bar>x\<bar> / 2 ^ 53" using expo_bounds(1)[OF x] by simp
  then show ?thesis using fl_error[of x] by linarith
qed

section \<open>The contract of a rounding function\<close>

text \<open>
  What the risk code relies on when it rounds: order is kept, a rounded number is not moved
  again, and rounding is odd.  Both the binary rounding of every operation and the decimal
  kernel of Python's \<open>round(x, n)\<close> satisfy it.
\<close>

locale rounding =
  fixes rd :: "rat \<Rightarrow> rat"
  assumes rd_mono: "x \<le> y \<Longrightarrow> rd x \<le> rd y"
    and rd_idem: "rd (rd x) = rd x"
    and rd_minus: "rd (- x) = - rd x"
begin

lemma rd_0: "rd 0 = 0"
  using rd_minus[of 0] by simp

lemma rd_nonneg: "0 \<le> x \<Longrightarrow> 0 \<le> rd x"
  using rd_mono[of 0 x] by (simp add: rd_0)

lemma rd_nonpos: "x \<le> 0 \<Longrightarrow> rd x \<le> 0"
  using rd_mono[of x 0] by (simp add: rd_0)

lemma rd_upper: "rd y = y \<Longrightarrow> x \<le> y \<Longrightarrow> rd x \<le> y"
  using rd_mono[of x y] by simp

lemma rd_lower: "rd y = y \<Longrightarrow> y \<le> x \<Longrightarrow> y \<le> rd x"
  using rd_mono[of y x] by simp

lemma rd_abs: "rd \<bar>x\<bar> = \<bar>rd x\<bar>"
proof (cases "0 \<le> x")
  case True
  then show ?thesis using rd_nonneg[OF True] by simp
next
  case False
  then have "rd x \<le> 0" by (intro rd_nonpos) simp
  then show ?thesis using False by (simp add: abs_if rd_minus)
qed

end

interpretation dbl: rounding fl
  by unfold_locales (simp_all add: fl_mono fl_idem fl_minus)

definition dec_round :: "nat \<Rightarrow> rat \<Rightarrow> rat" where
  "dec_round n x = of_int (rhe (x * 10 ^ n)) / 10 ^ n"

interpretation dec: rounding "dec_round n" for n
  by unfold_locales
    (auto simp: dec_round_def rhe_minus intro!: divide_right_mono rhe_mono)

lemma dec_round_error: "\<bar>dec_round n x - x\<bar> \<le> 1 / (2 * 10 ^ n)"
proof -
  have "dec_round n x - x = (of_int (rhe (x * 10 ^ n)) - x * 10 ^ n) / 10 ^ n"
    by (simp add: dec_round_def diff_divide_distrib)
  then have "\<bar>dec_round n x - x\<bar> = \<bar>of_int (rhe (x * 10 ^ n)) - x * 10 ^ n\<bar> / 10 ^ n"
    by (simp add: abs_divide)
  also have "\<dots> \<le> (1 / 2) / 10 ^ n"
    using rhe_error by (intro divide_right_mono) auto
  finally show ?thesis by (simp add: mult.commute)
qed


section \<open>Floats\<close>

datatype pyfloat = Fin rat | PInf | NInf | NaN

definition dbl_max :: rat where "dbl_max = 2 ^ 1024"

text \<open>Round an exact result: overflow goes to an infinity.\<close>

definition rnd :: "rat \<Rightarrow> pyfloat" where
  "rnd x = (let y = fl x in
     if \<bar>y\<bar> < dbl_max then Fin y else if 0 < y then PInf else NInf)"

text \<open>An \<^verbatim>\<open>int\<close> operand of a mixed expression, and a decimal literal.\<close>

definition fint :: "int \<Rightarrow> pyfloat" where "fint n = rnd (of_int n)"

definition flit :: "rat \<Rightarrow> pyfloat" where "flit x = rnd x"

subsection \<open>Comparisons: every comparison with a NaN is false\<close>

fun flt :: "pyfloat \<Rightarrow> pyfloat \<Rightarrow> bool" where
  "flt (Fin a) (Fin b) = (a < b)"
| "flt (Fin _) PInf = True"
| "flt NInf (Fin _) = True"
| "flt NInf PInf = True"
| "flt _ _ = False"

definition feq :: "pyfloat \<Rightarrow> pyfloat \<Rightarrow> bool" where
  "feq x y = (x = y \<and> x \<noteq> NaN)"

definition fle :: "pyfloat \<Rightarrow> pyfloat \<Rightarrow> bool" where
  "fle x y = (flt x y \<or> feq x y)"

text \<open>Truth value: only zero is false (a NaN is true).  \<open>x or y\<close> on floats.\<close>

definition ftrue :: "pyfloat \<Rightarrow> bool" where "ftrue x = (x \<noteq> Fin 0)"

definition f_or :: "pyfloat \<Rightarrow> pyfloat \<Rightarrow> pyfloat" where
  "f_or x y = (if ftrue x then x else y)"

text \<open>\<open>x or 0.0\<close> and \<open>x or y\<close> on an optional float.\<close>

definition opt_or :: "pyfloat option \<Rightarrow> pyfloat \<Rightarrow> pyfloat" where
  "opt_or x y = (case x of None \<Rightarrow> y | Some v \<Rightarrow> f_or v y)"

subsection \<open>Arithmetic\<close>

fun fneg :: "pyfloat \<Rightarrow> pyfloat" where
  "fneg (Fin a) = Fin (- a)"
| "fneg PInf = NInf"
| "fneg NInf = PInf"
| "fneg NaN = NaN"

fun fadd :: "pyfloat \<Rightarrow> pyfloat \<Rightarrow> pyfloat" where
  "fadd (Fin a) (Fin b) = rnd (a + b)"
| "fadd NaN _ = NaN"
| "fadd _ NaN = NaN"
| "fadd PInf NInf = NaN"
| "fadd NInf PInf = NaN"
| "fadd PInf _ = PInf"
| "fadd _ PInf = PInf"
| "fadd NInf _ = NInf"
| "fadd _ NInf = NInf"

definition fsub :: "pyfloat \<Rightarrow> pyfloat \<Rightarrow> pyfloat" where
  "fsub x y = fadd x (fneg y)"

text \<open>The sign of a float that is not a NaN, and the infinity of a sign.\<close>

fun fsgn :: "pyfloat \<Rightarrow> rat" where
  "fsgn (Fin a) = sgn a"
| "fsgn PInf = 1"
| "fsgn NInf = - 1"
| "fsgn NaN = 0"

definition finf :: "rat \<Rightarrow> pyfloat" where
  "finf s = (if 0 < s then PInf else if s < 0 then NInf else NaN)"

fun fmul :: "pyfloat \<Rightarrow> pyfloat \<Rightarrow> pyfloat" where
  "fmul (Fin a) (Fin b) = rnd (a * b)"
| "fmul NaN _ = NaN"
| "fmul _ NaN = NaN"
| "fmul x y = finf (fsgn x * fsgn y)"

text \<open>
  Division.  Python raises \<^verbatim>\<open>ZeroDivisionError\<close> for a zero divisor: \<open>fdiv\<close> returns
  \<open>None\<close> there.
\<close>

fun fdiv :: "pyfloat \<Rightarrow> pyfloat \<Rightarrow> pyfloat option" where
  "fdiv x (Fin b) = (if b = 0 then None else Some (case x of
     Fin a \<Rightarrow> rnd (a / b) | NaN \<Rightarrow> NaN | _ \<Rightarrow> finf (fsgn x * sgn b)))"
| "fdiv x NaN = Some NaN"
| "fdiv (Fin _) _ = Some (Fin 0)"
| "fdiv _ _ = Some NaN"

fun fabs :: "pyfloat \<Rightarrow> pyfloat" where
  "fabs (Fin a) = Fin \<bar>a\<bar>"
| "fabs NInf = PInf"
| "fabs x = x"

text \<open>
  \<open>round(x, n)\<close>: the exact decimal rounding of the double, converted back to a double.
  \<open>math.floor\<close> raises on an infinity or a NaN: \<open>None\<close>.
\<close>

fun fround :: "nat \<Rightarrow> pyfloat \<Rightarrow> pyfloat" where
  "fround n (Fin a) = rnd (dec_round n a)"
| "fround n x = x"

fun ffloor :: "pyfloat \<Rightarrow> int option" where
  "ffloor (Fin a) = Some \<lfloor>a\<rfloor>"
| "ffloor _ = None"

fun fceil :: "pyfloat \<Rightarrow> int option" where
  "fceil (Fin a) = Some \<lceil>a\<rceil>"
| "fceil _ = None"

subsection \<open>\<open>max\<close>, \<open>min\<close>: a later operand replaces the current one when it compares strictly better\<close>

definition pmax :: "pyfloat \<Rightarrow> pyfloat \<Rightarrow> pyfloat" where
  "pmax x y = (if flt x y then y else x)"

definition pmin :: "pyfloat \<Rightarrow> pyfloat \<Rightarrow> pyfloat" where
  "pmin x y = (if flt y x then y else x)"


subsection \<open>\<open>sum\<close> of floats\<close>

text \<open>
  The compensated summation of CPython (3.12 and later): the running sum \<open>hi\<close> and the rounding
  errors it lost, \<open>lo\<close>, which are added at the end when they are finite.
\<close>

fun sum_loop :: "pyfloat \<Rightarrow> pyfloat \<Rightarrow> pyfloat list \<Rightarrow> pyfloat" where
  "sum_loop hi lo [] = (case lo of Fin e \<Rightarrow> if e = 0 then hi else fadd hi lo | _ \<Rightarrow> hi)"
| "sum_loop hi lo (x # xs) =
     (let t = fadd hi x in
      sum_loop t (fadd lo (if fle (fabs x) (fabs hi) then fadd (fsub hi t) x else fadd (fsub x t) hi)) xs)"

fun py_sum :: "pyfloat list \<Rightarrow> pyfloat" where
  "py_sum [] = Fin 0"
| "py_sum (x # xs) = sum_loop (fadd (Fin 0) x) (Fin 0) xs"

section \<open>Laws\<close>

lemma flt_irrefl [simp]: "\<not> flt x x"
  by (cases x) auto

lemma flt_NaN [simp]: "\<not> flt x NaN" "\<not> flt NaN x"
  by (cases x; simp)+

lemma flt_trans: "flt x y \<Longrightarrow> flt y z \<Longrightarrow> flt x z"
  by (cases x; cases y; cases z) auto

lemma flt_asym: "flt x y \<Longrightarrow> \<not> flt y x"
  using flt_trans flt_irrefl by blast

lemma feq_refl [simp]: "feq x x \<longleftrightarrow> x \<noteq> NaN"
  by (simp add: feq_def)

lemma fle_simps [simp]:
  "fle (Fin a) (Fin b) \<longleftrightarrow> a \<le> b"
  "fle x x \<longleftrightarrow> x \<noteq> NaN"
  "\<not> fle x NaN" "\<not> fle NaN x"
  "fle NInf x \<longleftrightarrow> x \<noteq> NaN" "fle x PInf \<longleftrightarrow> x \<noteq> NaN"
  "\<not> fle PInf (Fin a)" "\<not> fle (Fin a) NInf" "\<not> fle PInf NInf"
  by (auto simp: fle_def feq_def, (cases x; simp)+)

lemma fle_trans: "fle x y \<Longrightarrow> fle y z \<Longrightarrow> fle x z"
  by (auto simp: fle_def feq_def intro: flt_trans)

lemma flt_imp_fle: "flt x y \<Longrightarrow> fle x y"
  by (simp add: fle_def)

lemma fle_flt_trans: "fle x y \<Longrightarrow> flt y z \<Longrightarrow> flt x z"
  by (auto simp: fle_def feq_def intro: flt_trans)

lemma flt_fle_trans: "flt x y \<Longrightarrow> fle y z \<Longrightarrow> flt x z"
  by (auto simp: fle_def feq_def intro: flt_trans)

lemma not_flt_iff: "x \<noteq> NaN \<Longrightarrow> y \<noteq> NaN \<Longrightarrow> \<not> flt x y \<longleftrightarrow> fle y x"
  by (cases x; cases y) auto

lemma not_fle_iff: "x \<noteq> NaN \<Longrightarrow> y \<noteq> NaN \<Longrightarrow> \<not> fle x y \<longleftrightarrow> flt y x"
  by (cases x; cases y) auto

lemma fle_antisym: "fle x y \<Longrightarrow> fle y x \<Longrightarrow> x = y"
  by (auto simp: fle_def feq_def dest: flt_asym)

lemma fle_not_NaN: "fle x y \<Longrightarrow> x \<noteq> NaN \<and> y \<noteq> NaN"
  by auto

lemma flt_not_NaN: "flt x y \<Longrightarrow> x \<noteq> NaN \<and> y \<noteq> NaN"
  by auto

lemma Fin_between: "fle (Fin a) x \<Longrightarrow> fle x (Fin b) \<Longrightarrow> \<exists>c. x = Fin c \<and> a \<le> c \<and> c \<le> b"
  by (cases x) auto

subsection \<open>Rounding to a float keeps the order\<close>

lemma dbl_max_pos [simp]: "0 < dbl_max"
  by (simp add: dbl_max_def)

lemma rnd_not_NaN [simp]: "rnd x \<noteq> NaN"
  by (simp add: rnd_def Let_def)

lemma rnd_0 [simp]: "rnd 0 = Fin 0"
  by (simp add: rnd_def)

lemma rnd_mono: "x \<le> y \<Longrightarrow> fle (rnd x) (rnd y)"
  using fl_mono[of x y] by (auto simp: rnd_def Let_def abs_less_iff)

lemma rnd_fl: "\<bar>fl x\<bar> < dbl_max \<Longrightarrow> rnd x = Fin (fl x)"
  by (simp add: rnd_def)

lemma rnd_Fin_iff: "rnd x = Fin y \<longleftrightarrow> y = fl x \<and> \<bar>fl x\<bar> < dbl_max"
  by (auto simp: rnd_def Let_def)

lemma rnd_nonneg: "0 \<le> x \<Longrightarrow> fle (Fin 0) (rnd x)"
  using rnd_mono[of 0 x] by simp

lemma small_lt_dbl_max: "\<bar>x\<bar> \<le> 2 ^ 1000 \<Longrightarrow> \<bar>x\<bar> < dbl_max"
proof -
  assume "\<bar>x\<bar> \<le> 2 ^ 1000"
  also have "(2::rat) ^ 1000 < 2 ^ 1024" by (rule power_strict_increasing) auto
  finally show ?thesis by (simp only: dbl_max_def)
qed

lemma fl_small: assumes "\<bar>x\<bar> \<le> 2 ^ 1000" shows "\<bar>fl x\<bar> \<le> 2 ^ 1000"
proof -
  have f: "fl (2 ^ 1000) = 2 ^ 1000"
    using fl_fixed_pow2[of 1000] by (simp add: power_int_def)
  then have "fl (- (2 ^ 1000)) = - (2 ^ 1000)" by (simp only: fl_minus)
  with f assms show ?thesis
    using dbl.rd_upper[of "2 ^ 1000" x] dbl.rd_lower[of "- (2 ^ 1000)" x]
    unfolding abs_le_iff by auto
qed

lemma rnd_small: "\<bar>x\<bar> \<le> 2 ^ 1000 \<Longrightarrow> rnd x = Fin (fl x)"
  by (intro rnd_fl small_lt_dbl_max fl_small)

text \<open>Integers of at most 53 bits are exact.\<close>

lemma int_le_1000: "\<bar>n\<bar> \<le> 2 ^ 53 \<Longrightarrow> \<bar>rat_of_int n\<bar> \<le> 2 ^ 1000"
proof -
  assume "\<bar>n\<bar> \<le> 2 ^ 53"
  then have "rat_of_int \<bar>n\<bar> \<le> of_int (2 ^ 53)" by (simp only: of_int_le_iff)
  also have "\<dots> \<le> (2::rat) ^ 1000" by (simp add: power_increasing)
  finally show ?thesis by simp
qed

lemma rnd_of_int: "\<bar>n\<bar> \<le> 2 ^ 53 \<Longrightarrow> rnd (of_int n) = Fin (of_int n)"
  using rnd_small[OF int_le_1000] by simp

lemma fint_exact: "\<bar>n\<bar> \<le> 2 ^ 53 \<Longrightarrow> fint n = Fin (of_int n)"
  by (simp add: fint_def rnd_of_int)

lemma fint_0 [simp]: "fint 0 = Fin 0"
  by (simp add: fint_def)

lemma fint_not_NaN [simp]: "fint n \<noteq> NaN" "flit r \<noteq> NaN"
  by (simp_all add: fint_def flit_def)

lemma fint_mono: "m \<le> n \<Longrightarrow> fle (fint m) (fint n)"
  by (simp add: fint_def rnd_mono)

lemma fround_mono: "fle x y \<Longrightarrow> fle (fround n x) (fround n y)"
  by (cases x; cases y) (auto intro: rnd_mono dec.rd_mono)

lemma fround_NaN [simp]: "fround n x = NaN \<longleftrightarrow> x = NaN"
  by (cases x) auto

lemma fround_0 [simp]: "fround n (Fin 0) = Fin 0"
  by (simp add: dec.rd_0)

subsection \<open>\<open>max\<close> and \<open>min\<close> as one contract\<close>

text \<open>
  A trailing stop only moves in the protective direction.  The code writes the rule twice,
  with \<open>max\<close> for a long thesis and \<open>min\<close> for a short one.  The contract of the two: an
  order \<open>ge\<close> (at least as protective), a choice \<open>pick\<close> of the more protective of two
  levels, and a rounding that keeps the order.
\<close>

locale ratchet =
  fixes ge :: "pyfloat \<Rightarrow> pyfloat \<Rightarrow> bool"
    and pick :: "pyfloat \<Rightarrow> pyfloat \<Rightarrow> pyfloat"
    and snap :: "pyfloat \<Rightarrow> pyfloat"
  assumes ge_refl: "x \<noteq> NaN \<Longrightarrow> ge x x"
    and ge_trans: "ge x y \<Longrightarrow> ge y z \<Longrightarrow> ge x z"
    and pick_ge: "x \<noteq> NaN \<Longrightarrow> ge (pick x y) x"
    and pick_ge2: "x \<noteq> NaN \<Longrightarrow> y \<noteq> NaN \<Longrightarrow> ge (pick x y) y"
    and pick_in: "pick x y = x \<or> pick x y = y"
    and pick_num: "x \<noteq> NaN \<Longrightarrow> pick x y \<noteq> NaN"
    and snap_ge: "ge x y \<Longrightarrow> ge (snap x) (snap y)"
begin

text \<open>A level on the price grid is never loosened by picking a candidate and snapping.\<close>

lemma snap_pick_ge: "snap s = s \<Longrightarrow> s \<noteq> NaN \<Longrightarrow> ge (snap (pick s c)) s"
  using snap_ge[OF pick_ge, of s c] by simp

lemma pick_pick_ge: "s \<noteq> NaN \<Longrightarrow> ge (pick (pick s a) b) s"
  using pick_ge pick_num ge_trans by blast

lemma foldl_pick_num: "s \<noteq> NaN \<Longrightarrow> foldl pick s cs \<noteq> NaN"
  by (induction cs arbitrary: s) (auto simp: pick_num)

lemma foldl_pick_ge: "s \<noteq> NaN \<Longrightarrow> ge (foldl pick s cs) s"
proof (induction cs arbitrary: s)
  case (Cons c cs)
  then have "ge (foldl pick (pick s c) cs) (pick s c)" by (simp add: pick_num)
  moreover have "ge (pick s c) s" using Cons.prems by (rule pick_ge)
  ultimately show ?case by (auto intro: ge_trans)
qed (simp add: ge_refl)

end

lemma pmax_in: "pmax x y = x \<or> pmax x y = y"
  by (simp add: pmax_def)

lemma pmin_in: "pmin x y = x \<or> pmin x y = y"
  by (simp add: pmin_def)

lemma pmax_ge1: "x \<noteq> NaN \<Longrightarrow> fle x (pmax x y)"
  by (auto simp: pmax_def flt_imp_fle)

lemma pmax_ge2: "x \<noteq> NaN \<Longrightarrow> y \<noteq> NaN \<Longrightarrow> fle y (pmax x y)"
  by (auto simp: pmax_def not_flt_iff)

lemma pmin_le1: "x \<noteq> NaN \<Longrightarrow> fle (pmin x y) x"
  by (auto simp: pmin_def flt_imp_fle)

lemma pmin_le2: "x \<noteq> NaN \<Longrightarrow> y \<noteq> NaN \<Longrightarrow> fle (pmin x y) y"
  by (auto simp: pmin_def not_flt_iff)

lemma pmax_num [simp]: "x \<noteq> NaN \<Longrightarrow> pmax x y \<noteq> NaN"
  by (auto simp: pmax_def)

lemma pmin_num [simp]: "x \<noteq> NaN \<Longrightarrow> pmin x y \<noteq> NaN"
  by (auto simp: pmin_def)

interpretation long_stop: ratchet "\<lambda>x y. fle y x" pmax "fround n" for n
  by unfold_locales (auto simp: pmax_ge1 pmax_ge2 pmax_in intro: fle_trans fround_mono)

interpretation short_stop: ratchet "\<lambda>x y. fle x y" pmin "fround n" for n
  by unfold_locales (auto simp: pmin_le1 pmin_le2 pmin_in intro: fle_trans fround_mono)

subsection \<open>Decimal rounding is idempotent on price-sized numbers\<close>

lemma ten_pow_le: "n \<le> 300 \<Longrightarrow> (10::rat) ^ n \<le> 2 ^ 1000"
proof -
  assume "n \<le> 300"
  then have "(10::rat) ^ n \<le> 10 ^ 300" by (intro power_increasing) auto
  also have "\<dots> = (10 ^ 3) ^ 100" by (simp only: power_mult[symmetric]) simp
  also have "\<dots> \<le> (2 ^ 10) ^ 100" by (intro power_mono) auto
  also have "\<dots> = (2::rat) ^ 1000" by (simp only: power_mult[symmetric]) simp
  finally show ?thesis .
qed

lemma dec_round_fl:
  assumes k: "\<bar>k\<bar> \<le> 2 ^ 51" and n: "n \<le> 300"
  shows "dec_round n (fl (of_int k / 10 ^ n)) = of_int k / 10 ^ n"
proof (cases "k = 0")
  case True
  then show ?thesis by (simp add: dec.rd_0)
next
  case False
  let ?d = "rat_of_int k / 10 ^ n"
  have "2 powi (- 1022) \<le> (2::rat) powi (- 1000)" by (rule pow2_mono) simp
  also have "\<dots> = 1 / 2 ^ 1000" by (simp add: power_int_def inverse_eq_divide power_one_over)
  also have "\<dots> \<le> 1 / 10 ^ n" using ten_pow_le[OF n] by (intro divide_left_mono) auto
  also have "\<dots> \<le> \<bar>?d\<bar>"
  proof -
    have "1 \<le> rat_of_int \<bar>k\<bar>" using False by simp
    then show ?thesis by (simp add: abs_divide divide_right_mono)
  qed
  finally have "\<bar>fl ?d - ?d\<bar> \<le> \<bar>?d\<bar> / 2 ^ 53" by (rule fl_rel_error)
  then have "\<bar>fl ?d - ?d\<bar> * 10 ^ n \<le> \<bar>?d\<bar> / 2 ^ 53 * 10 ^ n" by (intro mult_right_mono) auto
  also have "\<dots> = rat_of_int \<bar>k\<bar> / 2 ^ 53" by (simp add: abs_divide)
  also have "\<dots> \<le> of_int (2 ^ 51) / 2 ^ 53"
    using k by (intro divide_right_mono) (simp_all only: of_int_le_iff, simp)
  also have "\<dots> < 1 / 2" by simp
  finally have e: "\<bar>fl ?d - ?d\<bar> * 10 ^ n < 1 / 2" .
  have "fl ?d * 10 ^ n - of_int k = (fl ?d - ?d) * 10 ^ n" by (simp add: left_diff_distrib)
  then have "\<bar>fl ?d * 10 ^ n - of_int k\<bar> = \<bar>fl ?d - ?d\<bar> * 10 ^ n" by (simp add: abs_mult)
  with e have "\<bar>fl ?d * 10 ^ n - of_int k\<bar> < 1 / 2" by linarith
  then have "rhe (fl ?d * 10 ^ n) = k"
    by (intro rhe_nearest) (simp add: abs_minus_commute)
  then show ?thesis by (simp add: dec_round_def)
qed

lemma rhe_bounded: "\<bar>x\<bar> \<le> of_int b \<Longrightarrow> \<bar>rhe x\<bar> \<le> b"
  using rhe_mono[of x "of_int b"] rhe_mono[of "- of_int b" x] rhe_minus[of "of_int b"]
  unfolding abs_le_iff by simp

lemma fround_idem:
  assumes x: "\<bar>x\<bar> * 10 ^ n \<le> 2 ^ 51" and n: "n \<le> 300"
  shows "fround n (fround n (Fin x)) = fround n (Fin x)"
proof -
  let ?k = "rhe (x * 10 ^ n)"
  have "\<bar>x * 10 ^ n\<bar> \<le> of_int (2 ^ 51)" using x by (simp add: abs_mult)
  then have k: "\<bar>?k\<bar> \<le> 2 ^ 51" by (rule rhe_bounded)
  have d: "dec_round n x = of_int ?k / 10 ^ n" by (simp add: dec_round_def)
  have "\<bar>dec_round n x\<bar> \<le> rat_of_int \<bar>?k\<bar>"
    unfolding d abs_divide by (simp add: divide_le_eq mult_le_cancel_left1)
  also have "\<dots> \<le> of_int (2 ^ 51)" using k by (simp only: of_int_le_iff)
  also have "\<dots> \<le> (2::rat) ^ 1000" by (simp add: power_increasing)
  finally have "rnd (dec_round n x) = Fin (fl (dec_round n x))" by (rule rnd_small)
  moreover have "dec_round n (fl (dec_round n x)) = dec_round n x"
    unfolding d by (rule dec_round_fl[OF k n])
  ultimately show ?thesis by simp
qed

text \<open>A price level on the grid of \<open>n\<close> decimals.\<close>

definition on_grid :: "nat \<Rightarrow> pyfloat \<Rightarrow> bool" where
  "on_grid n x = (fround n x = x)"

lemma on_grid_fround: "\<bar>x\<bar> * 10 ^ n \<le> 2 ^ 51 \<Longrightarrow> n \<le> 300 \<Longrightarrow> on_grid n (fround n (Fin x))"
  by (simp only: on_grid_def fround_idem)

lemma on_grid_0 [simp]: "on_grid n (Fin 0)"
  by (simp add: on_grid_def dec.rd_0)

text \<open>Float arithmetic on small integers is exact; these rules evaluate it.\<close>

lemma rnd_numeral: "(numeral n :: int) \<le> 2 ^ 53 \<Longrightarrow> rnd (numeral n) = Fin (numeral n)"
  "(numeral n :: int) \<le> 2 ^ 53 \<Longrightarrow> rnd (- numeral n) = Fin (- numeral n)" "rnd 1 = Fin 1" "rnd (- 1) = Fin (- 1)"
  using rnd_of_int[of "numeral n"] rnd_of_int[of "- numeral n"] rnd_of_int[of 1] rnd_of_int[of "- 1"] by simp_all

lemma rhe_numeral: "rhe (numeral n) = numeral n" "rhe (- numeral n) = - numeral n" "rhe 1 = 1" "rhe (- 1) = - 1"
  using rhe_of_int[of "numeral n"] rhe_of_int[of "- numeral n"] rhe_of_int[of 1] rhe_of_int[of "- 1"] by simp_all

lemmas float_eval = rnd_numeral rhe_numeral dec_round_def fint_exact fsub_def

end
