(* ===== verification/Prelude.thy ===== *)
theory Prelude imports Main "HOL-Library.Sublist" PyFloat begin

text \<open>
  What every component uses: the environment of one handler call (clock readings and
  generated identifiers), decimal formatting of integers, and tables of rows with a primary
  key (the SQLite tables and the dictionaries keyed by an identifier), with the contract
  their look-ups satisfy (locale \<open>keyed_table\<close>).
\<close>

named_theorems table_simps \<open>look-up laws of keyed tables\<close>
named_theorems outcome_simps \<open>unfolding rules for handler outcomes\<close>

section \<open>The environment of a call\<close>

text \<open>
  Times are microseconds since the epoch, as an aware \<^verbatim>\<open>datetime\<close> holds them.  A handler
  reads the clock and draws fresh identifiers; the \<open>i\<close>-th reading of a call is
  \<open>clock env i\<close> and the \<open>i\<close>-th \<^verbatim>\<open>generate_id()\<close> is \<open>uuid env i\<close>.
\<close>

type_synonym timestamp = int

record env =
  clock :: "nat \<Rightarrow> timestamp"
  uuid :: "nat \<Rightarrow> string"

abbreviation seconds :: "int \<Rightarrow> int" where "seconds n \<equiv> n * 1000000"
abbreviation minutes :: "int \<Rightarrow> int" where "minutes n \<equiv> n * 60000000"

section \<open>Decimal numerals\<close>

fun show_nat :: "nat \<Rightarrow> string" where
  "show_nat n = (if n < 10 then [char_of (48 + n)]
     else show_nat (n div 10) @ [char_of (48 + n mod 10)])"

declare show_nat.simps [simp del]

definition show_int :: "int \<Rightarrow> string" where
  "show_int n = (if n < 0 then CHR ''-'' # show_nat (nat (- n)) else show_nat (nat n))"

text \<open>The value of a string of digits; formatting is injective because reading it back gives the number.\<close>

definition read_nat :: "string \<Rightarrow> nat" where
  "read_nat s = foldl (\<lambda>a c. 10 * a + (of_char c - 48)) 0 s"

lemma read_nat_snoc: "read_nat (s @ [c]) = 10 * read_nat s + (of_char c - 48)"
  by (simp add: read_nat_def)

lemma read_show_nat [simp]: "read_nat (show_nat n) = n"
proof (induction n rule: show_nat.induct)
  case (1 n)
  show ?case
  proof (cases "n < 10")
    case True
    then show ?thesis by (simp add: show_nat.simps [of n] read_nat_def)
  next
    case False
    with 1 show ?thesis by (simp add: show_nat.simps [of n] read_nat_snoc)
  qed
qed

lemma show_nat_inj: "show_nat m = show_nat n \<longleftrightarrow> m = n"
  by (metis read_show_nat)

lemma show_nat_digit: "c \<in> set (show_nat n) \<Longrightarrow> \<exists>d < 10. c = char_of (48 + d :: nat)"
proof (induction n rule: show_nat.induct)
  case (1 n)
  then show ?case
    by (cases "n < 10") (auto simp: show_nat.simps [of n] intro: exI [of _ "n mod 10"])
qed

lemma dash_not_digit: "CHR ''-'' \<notin> set (show_nat n)"
proof
  assume "CHR ''-'' \<in> set (show_nat n)"
  then obtain d :: nat where d: "d < 10" "CHR ''-'' = char_of (48 + d)"
    using show_nat_digit by blast
  then have "of_char (CHR ''-'') = (48 + d) mod 256" by simp
  then show False using d(1) by simp
qed

lemma show_int_inj: "show_int m = show_int n \<longleftrightarrow> m = n"
proof -
  have "show_nat k \<noteq> CHR ''-'' # s" for k s
    using dash_not_digit [of k] by (metis list.set_intros(1))
  then show ?thesis
    by (auto simp: show_int_def show_nat_inj nat_eq_iff dest: sym split: if_splits)
qed

section \<open>Strings\<close>

text \<open>\<^verbatim>\<open>str.upper\<close>, \<^verbatim>\<open>str.lower\<close> and \<^verbatim>\<open>str.replace\<close> of one character, on ASCII text.\<close>

definition to_upper :: "string \<Rightarrow> string" where
  "to_upper s = map (\<lambda>c. if 97 \<le> (of_char c :: nat) \<and> (of_char c :: nat) \<le> 122
     then char_of ((of_char c :: nat) - 32) else c) s"

definition to_lower :: "string \<Rightarrow> string" where
  "to_lower s = map (\<lambda>c. if 65 \<le> (of_char c :: nat) \<and> (of_char c :: nat) \<le> 90
     then char_of ((of_char c :: nat) + 32) else c) s"

definition replace_char :: "char \<Rightarrow> char \<Rightarrow> string \<Rightarrow> string" where
  "replace_char a b s = map (\<lambda>c. if c = a then b else c) s"

text \<open>\<^verbatim>\<open>str.strip()\<close>: drops the characters \<^verbatim>\<open>str.isspace\<close> accepts from both ends.\<close>

definition is_space :: "char \<Rightarrow> bool" where
  "is_space c = (let n = of_char c :: nat in 9 \<le> n \<and> n \<le> 13 \<or> 28 \<le> n \<and> n \<le> 32 \<or> n = 133 \<or> n = 160)"

definition strip :: "string \<Rightarrow> string" where
  "strip s = rev (dropWhile is_space (rev (dropWhile is_space s)))"

text \<open>\<^verbatim>\<open>s[-n:]\<close>, and \<^verbatim>\<open>x or y\<close> on an optional string: the empty string is false.\<close>

definition last_chars :: "nat \<Rightarrow> 'a list \<Rightarrow> 'a list" where
  "last_chars n s = drop (length s - n) s"

definition str_or :: "string option \<Rightarrow> string option \<Rightarrow> string option" where
  "str_or x y = (case x of None \<Rightarrow> y | Some s \<Rightarrow> if s = [] then y else x)"

section \<open>Keyed tables\<close>

text \<open>
  A table is the list of its rows in insertion order.  \<open>row_get\<close> is
  \<^verbatim>\<open>SELECT * WHERE key = ?\<close> with \<^verbatim>\<open>fetchone\<close>, \<open>row_insert\<close> an \<^verbatim>\<open>INSERT\<close> under a primary
  key (\<open>None\<close> is the integrity error), \<open>row_update\<close> an \<^verbatim>\<open>UPDATE \<dots> WHERE key = ?\<close>,
  \<open>row_upsert\<close> an \<^verbatim>\<open>INSERT \<dots> ON CONFLICT(key) DO UPDATE\<close> whose \<open>SET\<close> clause is
  \<open>merge old new\<close>, and \<open>row_delete\<close> a \<^verbatim>\<open>DELETE \<dots> WHERE key = ?\<close>.
\<close>

definition row_get :: "('r \<Rightarrow> 'k) \<Rightarrow> 'k \<Rightarrow> 'r list \<Rightarrow> 'r option" where
  "row_get keyof k rows = find (\<lambda>r. keyof r = k) rows"

definition row_insert :: "('r \<Rightarrow> 'k) \<Rightarrow> 'r \<Rightarrow> 'r list \<Rightarrow> 'r list option" where
  "row_insert keyof r rows =
     (if row_get keyof (keyof r) rows = None then Some (rows @ [r]) else None)"

definition row_update :: "('r \<Rightarrow> 'k) \<Rightarrow> 'k \<Rightarrow> ('r \<Rightarrow> 'r) \<Rightarrow> 'r list \<Rightarrow> 'r list" where
  "row_update keyof k f rows = map (\<lambda>r. if keyof r = k then f r else r) rows"

definition row_upsert :: "('r \<Rightarrow> 'k) \<Rightarrow> ('r \<Rightarrow> 'r \<Rightarrow> 'r) \<Rightarrow> 'r \<Rightarrow> 'r list \<Rightarrow> 'r list" where
  "row_upsert keyof merge r rows =
     (if row_get keyof (keyof r) rows = None then rows @ [r]
      else row_update keyof (keyof r) (\<lambda>old. merge old r) rows)"

definition row_delete :: "('r \<Rightarrow> 'k) \<Rightarrow> 'k \<Rightarrow> 'r list \<Rightarrow> 'r list" where
  "row_delete keyof k rows = filter (\<lambda>r. keyof r \<noteq> k) rows"

text \<open>\<^verbatim>\<open>ORDER BY created DESC LIMIT n\<close>; rows with one timestamp keep their insertion order.\<close>

definition newest :: "('r \<Rightarrow> timestamp) \<Rightarrow> nat \<Rightarrow> 'r list \<Rightarrow> 'r list" where
  "newest t n rows = take n (sort_key (\<lambda>r. - t r) rows)"

definition keys_distinct :: "('r \<Rightarrow> 'k) \<Rightarrow> 'r list \<Rightarrow> bool" where
  "keys_distinct keyof rows = distinct (map keyof rows)"

lemma row_get_Nil [simp]: "row_get keyof k [] = None"
  by (simp add: row_get_def)

lemma row_get_Cons [simp]:
  "row_get keyof k (r # rows) = (if keyof r = k then Some r else row_get keyof k rows)"
  by (simp add: row_get_def)

lemma row_get_append [simp]:
  "row_get keyof k (xs @ ys) = (case row_get keyof k xs of None \<Rightarrow> row_get keyof k ys | Some r \<Rightarrow> Some r)"
  by (induction xs) auto

lemma row_get_None_iff: "row_get keyof k rows = None \<longleftrightarrow> k \<notin> keyof ` set rows"
  by (induction rows) auto

lemma row_get_Some: "row_get keyof k rows = Some r \<Longrightarrow> r \<in> set rows \<and> keyof r = k"
  by (induction rows) (auto split: if_splits)

lemma row_get_SomeD: "row_get keyof k rows = Some r \<Longrightarrow> keyof r = k"
  by (drule row_get_Some) simp

lemma row_get_in: "keys_distinct keyof rows \<Longrightarrow> r \<in> set rows \<Longrightarrow> row_get keyof (keyof r) rows = Some r"
  by (induction rows) (auto simp: keys_distinct_def)

lemma newest_subset: "set (newest t n rows) \<subseteq> set rows"
  by (auto simp: newest_def dest: in_set_takeD)

lemma sort_key_map_same: "(\<And>x. k (g x) = k x) \<Longrightarrow> sort_key k (map g xs) = map g (sort_key k xs)"
proof (induction xs)
  case (Cons x xs)
  have "insort_key k (g x) (map g ys) = map g (insort_key k x ys)" for ys
    by (induction ys) (simp_all add: Cons.prems)
  with Cons show ?case by simp
qed simp

lemma newest_row_update:
  "(\<And>r. t (f r) = t r) \<Longrightarrow> newest t n (row_update keyof k f rows) = row_update keyof k f (newest t n rows)"
  by (simp add: newest_def row_update_def sort_key_map_same take_map)

lemma newest_all: "length rows \<le> n \<Longrightarrow> set (newest t n rows) = set rows"
  by (simp add: newest_def)

lemma sort_key_snoc_minus:
  "(\<And>r. r \<in> set rows \<Longrightarrow> t r < t x) \<Longrightarrow> sort_key (\<lambda>r. - t r) (rows @ [x]) = x # sort_key (\<lambda>r. - (t r :: int)) rows"
proof (induction rows)
  case (Cons y ys)
  then have "sort_key (\<lambda>r. - t r) (ys @ [x]) = x # sort_key (\<lambda>r. - t r) ys" by simp
  moreover have "- t x < - t y" using Cons.prems by simp
  ultimately show ?case by simp
qed simp

text \<open>The contract of a keyed table: an upsert does not change the key of the stored row.\<close>

locale keyed_table =
  fixes keyof :: "'r \<Rightarrow> 'k" and merge :: "'r \<Rightarrow> 'r \<Rightarrow> 'r"
  assumes merge_key: "keyof (merge old new) = keyof old"
begin

lemma get_update_same:
  "(\<And>r. keyof r = k \<Longrightarrow> keyof (f r) = k) \<Longrightarrow>
   row_get keyof k (row_update keyof k f rows) = map_option f (row_get keyof k rows)"
  by (induction rows) (auto simp: row_update_def)

lemma get_update_other:
  "(\<And>r. keyof r = k \<Longrightarrow> keyof (f r) = k) \<Longrightarrow> k' \<noteq> k \<Longrightarrow>
   row_get keyof k' (row_update keyof k f rows) = row_get keyof k' rows"
  by (induction rows) (auto simp: row_update_def)

lemma get_upsert_same:
  "row_get keyof (keyof r) (row_upsert keyof merge r rows) =
   Some (case row_get keyof (keyof r) rows of None \<Rightarrow> r | Some old \<Rightarrow> merge old r)"
  using get_update_same [of "keyof r" "\<lambda>old. merge old r" rows]
  by (auto simp: row_upsert_def merge_key split: option.splits)

lemma get_upsert_other:
  "k \<noteq> keyof r \<Longrightarrow> row_get keyof k (row_upsert keyof merge r rows) = row_get keyof k rows"
  using get_update_other [of "keyof r" "\<lambda>old. merge old r" k rows]
  by (auto simp: row_upsert_def merge_key split: option.splits)

lemma keys_update:
  "(\<And>r. keyof r = k \<Longrightarrow> keyof (f r) = k) \<Longrightarrow> map keyof (row_update keyof k f rows) = map keyof rows"
  by (induction rows) (auto simp: row_update_def)

lemma keys_upsert:
  "map keyof (row_upsert keyof merge r rows) =
   (if keyof r \<in> keyof ` set rows then map keyof rows else map keyof rows @ [keyof r])"
proof (cases "row_get keyof (keyof r) rows")
  case None
  then show ?thesis by (auto simp: row_upsert_def row_get_None_iff)
next
  case (Some old)
  then have "keyof r \<in> keyof ` set rows" using row_get_None_iff by (metis option.distinct(1))
  then show ?thesis using Some by (simp add: row_upsert_def keys_update merge_key)
qed

lemma distinct_upsert: "keys_distinct keyof rows \<Longrightarrow> keys_distinct keyof (row_upsert keyof merge r rows)"
  by (auto simp: keys_distinct_def keys_upsert)

lemma distinct_insert: "keys_distinct keyof rows \<Longrightarrow> row_insert keyof r rows = Some rows' \<Longrightarrow> keys_distinct keyof rows'"
  by (auto simp: keys_distinct_def row_insert_def row_get_None_iff split: if_splits)

lemma get_insert:
  "row_insert keyof r rows = Some rows' \<Longrightarrow>
   row_get keyof k rows' = (if k = keyof r then Some r else row_get keyof k rows)"
  by (auto simp: row_insert_def split: if_splits option.splits)

lemma distinct_delete: "keys_distinct keyof rows \<Longrightarrow> keys_distinct keyof (row_delete keyof k rows)"
  by (simp add: keys_distinct_def row_delete_def distinct_map_filter)

lemma get_delete: "row_get keyof k (row_delete keyof k' rows) = (if k = k' then None else row_get keyof k rows)"
  by (induction rows) (auto simp: row_delete_def)

lemma upsert_in:
  "r' \<in> set (row_upsert keyof merge r rows) \<Longrightarrow>
   r' \<in> set rows \<and> keyof r' \<noteq> keyof r \<or> r' = r \<and> keyof r \<notin> keyof ` set rows
   \<or> (\<exists>old \<in> set rows. keyof old = keyof r \<and> r' = merge old r)"
  by (auto simp: row_upsert_def row_update_def row_get_None_iff merge_key split: if_splits
      intro: image_eqI dest: sym)

end

end
