(* ===== verification/Contracts.thy ===== *)
theory Contracts imports Prelude begin

text \<open>
  The shared vocabulary of the services: the enumerations and value objects of
  \<^verbatim>\<open>libs/contracts/models.py\<close>, the normalised broker messages of
  \<^verbatim>\<open>libs/broker_models/adapter.py\<close>, the exceptions as values, and the event topics,
  payloads and envelopes of \<^verbatim>\<open>libs/events/bus.py\<close>.  A field keeps its Python name behind
  a two or three letter prefix of its class, because record fields share one name space.
\<close>

section \<open>Enumerations\<close>

datatype system_mode = NORMAL | ENTRY_BLOCKED | EXIT_ONLY | HALTED

datatype user_role = ADMIN | OPERATOR | TRADER | READ_ONLY

datatype trading_mode = SHADOW | PAPER | LIVE

datatype order_side = BUY | SELL

datatype order_type = MARKET | LIMIT | STOP_LIMIT

datatype product_type = CASH | MARGIN | OPTIONS | FUTURES

datatype option_right = CALL | PUT

datatype source_type = MANUAL | STRATEGY

datatype time_in_force = DAY | IOC

datatype order_state =
  CREATED | VALIDATING | RISK_REJECTED | APPROVED | SUBMITTING | SUBMISSION_UNKNOWN
| ACKNOWLEDGED | OPEN | PARTIALLY_FILLED | FILLED | CANCELLED | REJECTED | EXPIRED | FAILED_SAFE

text \<open>The states are finite, so quantifiers over them are executable.\<close>

definition all_order_states :: "order_state list" where
  "all_order_states = [CREATED, VALIDATING, RISK_REJECTED, APPROVED, SUBMITTING,
     SUBMISSION_UNKNOWN, ACKNOWLEDGED, OPEN, PARTIALLY_FILLED, FILLED, CANCELLED, REJECTED,
     EXPIRED, FAILED_SAFE]"

lemma in_all_order_states: "s \<in> set all_order_states"
  by (cases s) (simp_all add: all_order_states_def)

lemma UNIV_order_state: "UNIV = set all_order_states"
  using in_all_order_states by auto

instantiation order_state :: enum
begin

definition enum_order_state_def: "enum_class.enum = all_order_states"

definition enum_all_order_state_def: "enum_class.enum_all P = list_all P all_order_states"

definition enum_ex_order_state_def: "enum_class.enum_ex P = list_ex P all_order_states"

instance
  by standard
    (simp_all only: enum_order_state_def enum_all_order_state_def enum_ex_order_state_def
      UNIV_order_state list_all_iff list_ex_iff, simp_all add: all_order_states_def)

end

text \<open>\<^verbatim>\<open>.value\<close> of the string enumerations.\<close>

fun side_value :: "order_side \<Rightarrow> string" where
  "side_value BUY = ''BUY''"
| "side_value SELL = ''SELL''"

fun order_type_value :: "order_type \<Rightarrow> string" where
  "order_type_value MARKET = ''MARKET''"
| "order_type_value LIMIT = ''LIMIT''"
| "order_type_value STOP_LIMIT = ''STOP_LIMIT''"

fun system_mode_value :: "system_mode \<Rightarrow> string" where
  "system_mode_value NORMAL = ''NORMAL''"
| "system_mode_value ENTRY_BLOCKED = ''ENTRY_BLOCKED''"
| "system_mode_value EXIT_ONLY = ''EXIT_ONLY''"
| "system_mode_value HALTED = ''HALTED''"

section \<open>Formatted text\<close>

text \<open>
  An f-string is kept as its pieces: literal text, integers and strings are rendered, a float
  stays a value (its decimal rendering is never parsed back by the modelled code).
\<close>

datatype piece = Txt string | Num pyfloat | Num2 pyfloat

type_synonym message = "piece list"

section \<open>Value objects\<close>

record order_intent =
  oi_intent_id :: string
  oi_correlation_id :: string
  oi_strategy_instance_id :: "string option"
  oi_source :: source_type
  oi_instrument_id :: string
  oi_symbol :: string
  oi_side :: order_side
  oi_order_type :: order_type
  oi_quantity :: int
  oi_price :: pyfloat
  oi_trigger_price :: "pyfloat option"
  oi_product :: product_type
  oi_time_in_force :: time_in_force
  oi_trading_mode :: trading_mode
  oi_reduce_only :: bool
  oi_created_at :: timestamp

record risk_decision =
  rd_decision_id :: string
  rd_intent_id :: string
  rd_approved :: bool
  rd_rule_name :: "string option"
  rd_reason :: "message option"
  rd_system_mode :: system_mode
  rd_evaluated_at :: timestamp

record broker_order =
  bo_order_id :: string
  bo_intent_id :: string
  bo_client_order_id :: string
  bo_broker_order_id :: "string option"
  bo_instrument_id :: string
  bo_symbol :: string
  bo_side :: order_side
  bo_order_type :: order_type
  bo_quantity :: int
  bo_filled_quantity :: int
  bo_remaining_quantity :: int
  bo_price :: pyfloat
  bo_trigger_price :: "pyfloat option"
  bo_average_price :: pyfloat
  bo_status :: order_state
  bo_status_message :: "message option"
  bo_trading_mode :: trading_mode
  bo_reduce_only :: bool
  bo_created_at :: timestamp
  bo_updated_at :: timestamp

record order_event =
  oe_event_id :: string
  oe_order_id :: string
  oe_from_state :: "order_state option"
  oe_to_state :: order_state
  oe_reason :: "message option"
  oe_payload :: broker_order
  oe_occurred_at :: timestamp

record execution =
  ex_execution_id :: string
  ex_order_id :: string
  ex_broker_execution_id :: "string option"
  ex_instrument_id :: string
  ex_symbol :: string
  ex_side :: order_side
  ex_quantity :: int
  ex_price :: pyfloat
  ex_fee :: pyfloat
  ex_execution_time :: timestamp

record position =
  po_position_id :: string
  po_instrument_id :: string
  po_symbol :: string
  po_quantity :: int
  po_buy_quantity :: int
  po_sell_quantity :: int
  po_buy_value :: pyfloat
  po_sell_value :: pyfloat
  po_average_price :: pyfloat
  po_current_price :: pyfloat
  po_realized_pnl :: pyfloat
  po_unrealized_pnl :: pyfloat
  po_total_pnl :: pyfloat
  po_trading_mode :: trading_mode
  po_updated_at :: timestamp

record pnl_snapshot =
  ps_snapshot_id :: string
  ps_realized_pnl :: pyfloat
  ps_unrealized_pnl :: pyfloat
  ps_total_pnl :: pyfloat
  ps_day_pnl :: pyfloat
  ps_open_positions_count :: nat
  ps_timestamp :: timestamp

record quote =
  qt_source :: string
  qt_instrument_id :: string
  qt_symbol :: string
  qt_last_price :: pyfloat
  qt_open :: pyfloat
  qt_high :: pyfloat
  qt_low :: pyfloat
  qt_close :: pyfloat
  qt_volume :: int
  qt_open_interest :: int
  qt_best_bid :: pyfloat
  qt_best_bid_qty :: int
  qt_best_ask :: pyfloat
  qt_best_ask_qty :: int
  qt_change_pct :: pyfloat
  qt_timestamp :: timestamp

record candle =
  ca_instrument_id :: string
  ca_interval :: string
  ca_start_time :: timestamp
  ca_end_time :: timestamp
  ca_open :: pyfloat
  ca_high :: pyfloat
  ca_low :: pyfloat
  ca_close :: pyfloat
  ca_volume :: int
  ca_open_interest :: int
  ca_source :: string

section \<open>Normalised broker messages\<close>

record broker_funds =
  bf_available_margin :: pyfloat
  bf_total_cash :: pyfloat
  bf_used_margin :: pyfloat
  bf_unrealized_m2m :: pyfloat

record broker_order_request =
  rq_client_order_id :: string
  rq_stock_code :: string
  rq_exchange_code :: string
  rq_action :: string
  rq_order_type :: string
  rq_quantity :: int
  rq_price :: pyfloat
  rq_trigger_price :: "pyfloat option"
  rq_strike_price :: "pyfloat option"
  rq_right :: "string option"
  rq_expiry_date :: "string option"
  rq_user_remark :: "string option"

record broker_order_response =
  rs_success :: bool
  rs_broker_order_id :: "string option"
  rs_client_order_id :: string
  rs_status :: string
  rs_message :: "message option"
  rs_filled_quantity :: int
  rs_average_price :: pyfloat

record broker_position_response =
  bp_stock_code :: string
  bp_exchange_code :: string
  bp_product_type :: string
  bp_quantity :: int
  bp_average_price :: pyfloat
  bp_ltp :: pyfloat
  bp_pnl :: pyfloat
  bp_strike_price :: "pyfloat option"
  bp_right :: "string option"
  bp_expiry_date :: "string option"

record broker_trade_response =
  bt_trade_id :: string
  bt_broker_order_id :: string
  bt_client_order_id :: "string option"
  bt_stock_code :: string
  bt_exchange_code :: string
  bt_action :: string
  bt_quantity :: int
  bt_price :: pyfloat
  bt_trade_time :: timestamp

section \<open>Exceptions\<close>

datatype exn =
  IntegrityError string
| InvalidOrderStateTransitionError order_state order_state message
| RuntimeError string
| ValueError string
| KeyError string
| PermissionError string
| ZeroDivisionError
| OverflowError
| BrokerError string

section \<open>Events\<close>

datatype topic =
  MARKET_QUOTE | MARKET_CANDLE | STRATEGY_SIGNAL | ORDER_INTENT | RISK_DECISION
| EXECUTION_COMMAND | EXECUTION_RESULT | BROKER_ORDER_EVENT | BROKER_TRADE_EVENT
| ORDER_STATE | PORTFOLIO_POSITION | PORTFOLIO_PNL | SYSTEM_STATE | AUDIT_EVENT
| NOTIFICATION_EVENT

record order_status_update =
  su_client_order_id :: string
  su_broker_order_id :: "string option"
  su_status :: string
  su_filled_quantity :: int
  su_average_price :: pyfloat
  su_message :: "message option"

record trade_fill =
  tf_execution_id :: "string option"
  tf_broker_execution_id :: "string option"
  tf_order_id :: string
  tf_instrument_id :: string
  tf_symbol :: string
  tf_side :: order_side
  tf_quantity :: int
  tf_price :: pyfloat
  tf_trading_mode :: trading_mode

text \<open>A field of an audit record; a time is kept as the value its ISO text renders.\<close>

datatype audit_value = AStr string | AInt int | ATime timestamp | ABool bool

text \<open>The payload of an envelope, one constructor per kind of dictionary that is published.\<close>

datatype payload =
  IntentPayload order_intent
| DecisionPayload risk_decision
| CommandPayload string string
| StatusPayload order_status_update
| FillPayload trade_fill
| OrderPayload broker_order
| PositionPayload position
| PnlPayload pnl_snapshot
| QuotePayload quote
| AuditPayload string "(string \<times> audit_value) list"

record envelope =
  ev_event_id :: string
  ev_topic :: topic
  ev_correlation_id :: string
  ev_payload :: payload

text \<open>
  A handler works on the state of its service, may publish envelopes and may raise.  What it
  committed before raising stays: the outcome carries the state in both cases.
\<close>

record 's outcome =
  oc_state :: 's
  oc_published :: "envelope list"
  oc_raised :: "exn option"

definition ok :: "'s \<Rightarrow> envelope list \<Rightarrow> 's outcome" where
  "ok s evs = \<lparr>oc_state = s, oc_published = evs, oc_raised = None\<rparr>"

definition raised :: "'s \<Rightarrow> envelope list \<Rightarrow> exn \<Rightarrow> 's outcome" where
  "raised s evs e = \<lparr>oc_state = s, oc_published = evs, oc_raised = Some e\<rparr>"

lemma ok_simps [simp, outcome_simps]:
  "oc_state (ok s evs) = s" "oc_published (ok s evs) = evs" "oc_raised (ok s evs) = None"
  by (simp_all add: ok_def)

lemma raised_simps [simp, outcome_simps]:
  "oc_state (raised s evs e) = s" "oc_published (raised s evs e) = evs"
  "oc_raised (raised s evs e) = Some e"
  by (simp_all add: raised_def)

end
