(* ===== verification/Bus.thy ===== *)
theory Bus imports Contracts begin

text \<open>
  The in-process event bus of \<^verbatim>\<open>libs/events/bus.py\<close> (class \<^verbatim>\<open>InMemoryEventBus\<close>): a FIFO queue
  and, per topic, the handlers in subscription order.  A handler is named by a value \<open>'h\<close>
  and run by \<open>run h envelope state\<close>; the world it works on is the type \<open>'s\<close>.  One round of
  the dispatcher takes the oldest envelope and awaits each handler of its topic in turn; an
  exception is logged and the next handler runs.
\<close>

record 'h bus =
  bus_subscribers :: "topic \<Rightarrow> 'h list"
  bus_queue :: "envelope list"
  bus_running :: bool

definition bus_init :: "'h bus" where
  "bus_init = \<lparr>bus_subscribers = (\<lambda>_. []), bus_queue = [], bus_running = False\<rparr>"

text \<open>\<^verbatim>\<open>start\<close> does nothing when the worker is alive, else it begins with a new, empty queue.\<close>

definition bus_start :: "'h bus \<Rightarrow> 'h bus" where
  "bus_start b = (if bus_running b then b else b\<lparr>bus_queue := [], bus_running := True\<rparr>)"

definition bus_stop :: "'h bus \<Rightarrow> 'h bus" where
  "bus_stop b = (if \<not> bus_running b then b else b\<lparr>bus_running := False\<rparr>)"

definition bus_publish :: "envelope \<Rightarrow> 'h bus \<Rightarrow> 'h bus" where
  "bus_publish ev b = b\<lparr>bus_queue := bus_queue b @ [ev]\<rparr>"

definition bus_subscribe :: "topic \<Rightarrow> 'h \<Rightarrow> 'h bus \<Rightarrow> 'h bus" where
  "bus_subscribe tp h b =
     b\<lparr>bus_subscribers := (bus_subscribers b)(tp := bus_subscribers b tp @ [h])\<rparr>"

text \<open>The handlers of one envelope, in order; their publications are queued as they run.\<close>

fun run_handlers ::
  "('h \<Rightarrow> envelope \<Rightarrow> 's \<Rightarrow> 's outcome) \<Rightarrow> envelope \<Rightarrow> 'h list \<Rightarrow> 's \<Rightarrow> 's \<times> envelope list \<times> exn list" where
  "run_handlers run ev [] s = (s, [], [])"
| "run_handlers run ev (h # hs) s =
     (let oc = run h ev s;
          (s', out, errs) = run_handlers run ev hs (oc_state oc)
      in (s', oc_published oc @ out, (case oc_raised oc of None \<Rightarrow> [] | Some e \<Rightarrow> [e]) @ errs))"

text \<open>One round of \<^verbatim>\<open>_dispatcher_loop\<close>: \<open>None\<close> while the queue is empty or the worker is stopped.\<close>

definition dispatch_one ::
  "('h \<Rightarrow> envelope \<Rightarrow> 's \<Rightarrow> 's outcome) \<Rightarrow> 'h bus \<Rightarrow> 's \<Rightarrow> ('h bus \<times> 's) option" where
  "dispatch_one run b s =
     (if \<not> bus_running b then None else
      case bus_queue b of [] \<Rightarrow> None
      | ev # q \<Rightarrow>
          (let (s', out, _) = run_handlers run ev (bus_subscribers b (ev_topic ev)) s
           in Some (b\<lparr>bus_queue := q @ out\<rparr>, s')))"

fun dispatch_many ::
  "('h \<Rightarrow> envelope \<Rightarrow> 's \<Rightarrow> 's outcome) \<Rightarrow> nat \<Rightarrow> 'h bus \<Rightarrow> 's \<Rightarrow> 'h bus \<times> 's" where
  "dispatch_many run 0 b s = (b, s)"
| "dispatch_many run (Suc n) b s =
     (case dispatch_one run b s of None \<Rightarrow> (b, s) | Some (b', s') \<Rightarrow> dispatch_many run n b' s')"

text \<open>
  An invariant of the world that every handler keeps, raising or not, is kept by every
  number of dispatcher rounds.
\<close>

lemma run_handlers_inv:
  assumes "\<And>h ev s. I s \<Longrightarrow> I (oc_state (run h ev s))"
  shows "I s \<Longrightarrow> I (fst (run_handlers run ev hs s))"
proof (induction hs arbitrary: s)
  case (Cons h hs)
  then have "I (fst (run_handlers run ev hs (oc_state (run h ev s))))" using assms by blast
  then show ?case by (simp add: case_prod_beta Let_def)
qed simp

lemma dispatch_one_inv:
  assumes "\<And>h ev s. I s \<Longrightarrow> I (oc_state (run h ev s))" "I s"
    and "dispatch_one run b s = Some (b', s')"
  shows "I s'"
  using assms run_handlers_inv[of I run s]
  by (auto simp: dispatch_one_def case_prod_beta Let_def split: if_splits list.splits)

lemma dispatch_many_inv:
  assumes "\<And>h ev s. I s \<Longrightarrow> I (oc_state (run h ev s))"
  shows "I s \<Longrightarrow> I (snd (dispatch_many run n b s))"
proof (induction n arbitrary: b s)
  case (Suc n)
  then show ?case
    using dispatch_one_inv[of I run s b, OF assms]
    by (auto split: option.splits prod.splits)
qed simp

text \<open>A handler that raises does not keep the later ones from running.\<close>

lemma run_handlers_state:
  "fst (run_handlers run ev hs s) = foldl (\<lambda>s h. oc_state (run h ev s)) s hs"
  by (induction hs arbitrary: s) (simp_all add: case_prod_beta Let_def)

text \<open>Envelopes are taken in the order they were published.\<close>

lemma dispatch_one_queue:
  assumes "bus_running b" "bus_queue b = ev # q"
  shows "\<exists>out s'. dispatch_one run b s = Some (b\<lparr>bus_queue := q @ out\<rparr>, s')"
  using assms by (auto simp: dispatch_one_def case_prod_beta Let_def)

section \<open>Property\<close>

text \<open>
  A running bus takes the oldest envelope, gives it to every handler subscribed to its topic in
  order, each on the state the previous one left even when that one raised, and queues what they
  publish behind the waiting envelopes; nothing is lost or reordered.
\<close>

theorem bus_delivers_to_all:
  "bus_running b \<Longrightarrow> bus_queue b = ev # q \<Longrightarrow>
   \<exists>out. dispatch_one run b s = Some (b\<lparr>bus_queue := q @ out\<rparr>,
     foldl (\<lambda>s h. oc_state (run h ev s)) s (bus_subscribers b (ev_topic ev)))
   \<and> out = fst (snd (run_handlers run ev (bus_subscribers b (ev_topic ev)) s))"
  by (simp add: dispatch_one_def case_prod_beta Let_def run_handlers_state)

definition demo_bus :: "nat bus" where
  "demo_bus = bus_publish \<lparr>ev_event_id = ''e'', ev_topic = AUDIT_EVENT, ev_correlation_id = [], ev_payload = AuditPayload [] []\<rparr>
     (bus_subscribe AUDIT_EVENT 2 (bus_subscribe AUDIT_EVENT 1 (bus_start bus_init)))"

theorem bus_delivers_to_all_witness:
  "map_option snd (dispatch_one (\<lambda>h ev s. if h = 1 then raised (s @ [h]) [] (RuntimeError ''x'') else ok (s @ [h]) []) demo_bus [])
   = Some [1, 2]"
proof -
  have r: "bus_running demo_bus" and q: "bus_queue demo_bus =
      \<lparr>ev_event_id = ''e'', ev_topic = AUDIT_EVENT, ev_correlation_id = [], ev_payload = AuditPayload [] []\<rparr> # []"
    and h: "bus_subscribers demo_bus AUDIT_EVENT = [1, 2]"
    by (simp_all add: demo_bus_def bus_publish_def bus_subscribe_def bus_start_def bus_init_def)
  show ?thesis
    using bus_delivers_to_all[OF r q, of "\<lambda>h ev s. if h = 1 then raised (s @ [h]) [] (RuntimeError ''x'') else ok (s @ [h]) []" "[]"] h
    by auto
qed

text \<open>
  Stopping a bus does not drain it, and starting it again begins with an empty queue: what was
  published and not dispatched is lost.
\<close>

lemma bus_restart_drops: "bus_queue (bus_start (bus_stop (bus_publish ev (bus_start bus_init)))) = []"
  by (simp add: bus_start_def bus_stop_def bus_publish_def bus_init_def)

end
