(* ===== verification/OrderStateMachine.thy ===== *)
theory OrderStateMachine imports Contracts "HOL-Library.Transitive_Closure_Table" begin

text \<open>
  The order state machine of \<^verbatim>\<open>services/oms/state_machine.py\<close>, and the contract
  \<open>ranked_machine\<close> of a state machine whose moves climb a rank: it never returns to a lower
  state.  The order machine and the broker request ledger are both instances.
\<close>

section \<open>Machines that climb\<close>

locale ranked_machine =
  fixes can :: "'s \<Rightarrow> 's \<Rightarrow> bool" and rank :: "'s \<Rightarrow> nat" and loops :: "'s \<Rightarrow> bool"
  assumes climb: "can s t \<Longrightarrow> rank s < rank t \<or> (s = t \<and> loops s)"
begin

lemma reach_rank: "can\<^sup>*\<^sup>* s t \<Longrightarrow> s = t \<or> rank s < rank t"
  by (induction rule: rtranclp_induct) (auto dest: climb)

lemma reach_rank_le: "can\<^sup>*\<^sup>* s t \<Longrightarrow> rank s \<le> rank t"
  using reach_rank by fastforce

text \<open>After a move that left a state, the state is never entered again.\<close>

lemma no_return: "can s t \<Longrightarrow> s \<noteq> t \<Longrightarrow> can\<^sup>*\<^sup>* t u \<Longrightarrow> u \<noteq> s"
  using climb[of s t] reach_rank_le[of t u] by auto

text \<open>The length of a run without self loops is bounded by the rank.\<close>

lemma run_length:
  "successively (\<lambda>s t. can s t \<and> s \<noteq> t) (s # ss) \<Longrightarrow> rank s + length ss \<le> rank (last (s # ss))"
proof (induction ss arbitrary: s)
  case (Cons t ss)
  then have "rank s < rank t" using climb by auto
  moreover have "rank t + length ss \<le> rank (last (t # ss))" using Cons by simp
  ultimately show ?case by simp
qed simp

end

section \<open>The order machine\<close>

fun VALID_TRANSITIONS :: "order_state \<Rightarrow> order_state list" where
  "VALID_TRANSITIONS CREATED = [VALIDATING, REJECTED, FAILED_SAFE]"
| "VALID_TRANSITIONS VALIDATING = [APPROVED, RISK_REJECTED, FAILED_SAFE]"
| "VALID_TRANSITIONS RISK_REJECTED = []"
| "VALID_TRANSITIONS APPROVED =
     [SUBMITTING, ACKNOWLEDGED, OPEN, FILLED, SUBMISSION_UNKNOWN, CANCELLED, FAILED_SAFE]"
| "VALID_TRANSITIONS SUBMITTING =
     [ACKNOWLEDGED, OPEN, FILLED, PARTIALLY_FILLED, REJECTED, SUBMISSION_UNKNOWN, FAILED_SAFE]"
| "VALID_TRANSITIONS SUBMISSION_UNKNOWN =
     [ACKNOWLEDGED, OPEN, FILLED, PARTIALLY_FILLED, REJECTED, CANCELLED, FAILED_SAFE]"
| "VALID_TRANSITIONS ACKNOWLEDGED =
     [OPEN, PARTIALLY_FILLED, FILLED, CANCELLED, REJECTED, EXPIRED, FAILED_SAFE]"
| "VALID_TRANSITIONS OPEN = [PARTIALLY_FILLED, FILLED, CANCELLED, EXPIRED, FAILED_SAFE]"
| "VALID_TRANSITIONS PARTIALLY_FILLED =
     [PARTIALLY_FILLED, FILLED, CANCELLED, EXPIRED, FAILED_SAFE]"
| "VALID_TRANSITIONS FILLED = []"
| "VALID_TRANSITIONS CANCELLED = []"
| "VALID_TRANSITIONS REJECTED = []"
| "VALID_TRANSITIONS EXPIRED = []"
| "VALID_TRANSITIONS FAILED_SAFE = []"

definition can_transition :: "order_state \<Rightarrow> order_state \<Rightarrow> bool" where
  "can_transition from_state to_state = (to_state \<in> set (VALID_TRANSITIONS from_state))"

definition validate_transition :: "order_state \<Rightarrow> order_state \<Rightarrow> message \<Rightarrow> exn option" where
  "validate_transition from_state to_state reason =
     (if can_transition from_state to_state then None
      else Some (InvalidOrderStateTransitionError from_state to_state reason))"

lemma validate_transition_None [simp]:
  "validate_transition s t r = None \<longleftrightarrow> can_transition s t"
  by (simp add: validate_transition_def)

text \<open>How far an order has come; every permitted move but the repeated partial fill climbs.\<close>

fun order_rank :: "order_state \<Rightarrow> nat" where
  "order_rank CREATED = 0"
| "order_rank VALIDATING = 1"
| "order_rank APPROVED = 2"
| "order_rank SUBMITTING = 3"
| "order_rank SUBMISSION_UNKNOWN = 4"
| "order_rank ACKNOWLEDGED = 5"
| "order_rank OPEN = 6"
| "order_rank PARTIALLY_FILLED = 7"
| "order_rank _ = 8"

definition terminal :: "order_state \<Rightarrow> bool" where
  "terminal s = (VALID_TRANSITIONS s = [])"

interpretation order_machine: ranked_machine can_transition order_rank "\<lambda>s. s = PARTIALLY_FILLED"
proof unfold_locales
  show "order_rank s < order_rank t \<or> s = t \<and> s = PARTIALLY_FILLED"
    if "can_transition s t" for s t
    using that by (cases s) (auto simp: can_transition_def)
qed

lemma terminal_stuck: "terminal s \<Longrightarrow> \<not> can_transition s t"
  by (simp add: terminal_def can_transition_def)

lemma terminal_reach: "can_transition\<^sup>*\<^sup>* s t \<Longrightarrow> terminal s \<Longrightarrow> t = s"
  by (induction rule: converse_rtranclp_induct) (auto simp: terminal_stuck)

lemma terminal_iff_rank: "terminal s \<longleftrightarrow> s \<in> {RISK_REJECTED, FILLED, CANCELLED, REJECTED, EXPIRED, FAILED_SAFE}"
  by (cases s) (simp_all add: terminal_def)

section \<open>Property\<close>

text \<open>
  C20. The order machine never returns: two states that reach each other are the same; and it never
  gets stuck short of the end: from every state a terminal one is reachable.
\<close>

theorem order_machine_progress:
  "(can_transition\<^sup>*\<^sup>* s t \<and> can_transition\<^sup>*\<^sup>* t s \<longrightarrow> s = t) \<and> (\<exists>u. can_transition\<^sup>*\<^sup>* s u \<and> terminal u)"
proof -
  have "can_transition s FAILED_SAFE \<or> terminal s"
    by (cases s) (simp_all add: can_transition_def terminal_def)
  moreover have "terminal FAILED_SAFE" by (simp add: terminal_def)
  moreover have "s = t" if "can_transition\<^sup>*\<^sup>* s t" "can_transition\<^sup>*\<^sup>* t s"
    using order_machine.reach_rank[OF that(1)] order_machine.reach_rank[OF that(2)] by auto
  ultimately show ?thesis by blast
qed

theorem order_machine_progress_witness: "\<not> can_transition\<^sup>*\<^sup>* OPEN SUBMITTING"
proof
  assume ret: "can_transition\<^sup>*\<^sup>* OPEN SUBMITTING"
  have "can_transition SUBMITTING OPEN" by (simp add: can_transition_def)
  then have "can_transition\<^sup>*\<^sup>* SUBMITTING OPEN" by blast
  with order_machine_progress[of SUBMITTING OPEN] ret show False by simp
qed

end
