(* ===== verification/Sqlite.thy ===== *)
theory Sqlite imports Contracts begin

text \<open>
  The transactional outbox and the idempotent inbox of \<^verbatim>\<open>libs/database/sqlite.py\<close>, as tables.
  The locale \<open>outbox\<close> is what a publisher loop relies on; its lemmas say that repeated
  cycles deliver every pending event, in order and once.  The SQL engine is the list
  semantics of \<open>Prelude\<close>; JSON serialisation of a payload and back is the identity.
\<close>

section \<open>Outbox\<close>

record outbox_row =
  ob_event_id :: string
  ob_topic :: topic
  ob_payload :: payload
  ob_created_at :: timestamp
  ob_published :: bool
  ob_published_at :: "timestamp option"

definition add_outbox_event ::
  "string \<Rightarrow> topic \<Rightarrow> payload \<Rightarrow> timestamp \<Rightarrow> outbox_row list \<Rightarrow> outbox_row list option" where
  "add_outbox_event event_id tp pl created rows = row_insert ob_event_id
     \<lparr>ob_event_id = event_id, ob_topic = tp, ob_payload = pl, ob_created_at = created,
      ob_published = False, ob_published_at = None\<rparr> rows"

definition pending_rows :: "outbox_row list \<Rightarrow> outbox_row list" where
  "pending_rows rows = sort_key ob_created_at (filter (\<lambda>r. \<not> ob_published r) rows)"

definition get_pending_outbox_events :: "nat \<Rightarrow> outbox_row list \<Rightarrow> outbox_row list" where
  "get_pending_outbox_events limit rows = take limit (pending_rows rows)"

definition mark_outbox_event_published :: "string \<Rightarrow> timestamp \<Rightarrow> outbox_row list \<Rightarrow> outbox_row list" where
  "mark_outbox_event_published event_id t rows = row_update ob_event_id event_id
     (\<lambda>r. r\<lparr>ob_published := True, ob_published_at := Some t\<rparr>) rows"

text \<open>
  One pass of the publisher loop (\<^verbatim>\<open>_outbox_loop\<close> of the OMS and of the risk service): fetch at
  most 20 rows, and for each publish the envelope, then mark the row.
\<close>

definition outbox_envelope :: "string \<Rightarrow> outbox_row \<Rightarrow> envelope" where
  "outbox_envelope corr r = \<lparr>ev_event_id = ob_event_id r, ev_topic = ob_topic r,
     ev_correlation_id = corr, ev_payload = ob_payload r\<rparr>"

fun publish_batch :: "env \<Rightarrow> nat \<Rightarrow> outbox_row list \<Rightarrow> outbox_row list \<Rightarrow> envelope list \<times> outbox_row list" where
  "publish_batch env i [] rows = ([], rows)"
| "publish_batch env i (r # rs) rows =
     (let (out, rows') = publish_batch env (Suc i) rs
            (mark_outbox_event_published (ob_event_id r) (clock env i) rows)
      in (outbox_envelope (uuid env i) r # out, rows'))"

definition outbox_cycle :: "env \<Rightarrow> outbox_row list \<Rightarrow> envelope list \<times> outbox_row list" where
  "outbox_cycle env rows = publish_batch env 0 (get_pending_outbox_events 20 rows) rows"

fun outbox_cycles :: "env list \<Rightarrow> outbox_row list \<Rightarrow> envelope list \<times> outbox_row list" where
  "outbox_cycles [] rows = ([], rows)"
| "outbox_cycles (env # envs) rows =
     (let (out1, rows1) = outbox_cycle env rows; (out2, rows2) = outbox_cycles envs rows1
      in (out1 @ out2, rows2))"

section \<open>Inbox\<close>

type_synonym inbox = "(string \<times> string) list"

definition is_event_processed :: "string \<Rightarrow> string \<Rightarrow> inbox \<Rightarrow> bool" where
  "is_event_processed event_id consumer_name rows = ((event_id, consumer_name) \<in> set rows)"

definition record_processed_event :: "string \<Rightarrow> string \<Rightarrow> inbox \<Rightarrow> inbox" where
  "record_processed_event event_id consumer_name rows =
     (if (event_id, consumer_name) \<in> set rows then rows else rows @ [(event_id, consumer_name)])"

lemma processed_record:
  "is_event_processed e c (record_processed_event e' c' rows) \<longleftrightarrow>
   (e = e' \<and> c = c') \<or> is_event_processed e c rows"
  by (auto simp: is_event_processed_def record_processed_event_def)

lemma record_idem: "record_processed_event e c (record_processed_event e c rows) = record_processed_event e c rows"
  by (simp add: record_processed_event_def)

section \<open>The contract of an outbox\<close>

locale outbox =
  fixes backlog :: "'db \<Rightarrow> 'ev list"
    and fetch :: "nat \<Rightarrow> 'db \<Rightarrow> 'ev list"
    and mark :: "timestamp \<Rightarrow> 'ev \<Rightarrow> 'db \<Rightarrow> 'db"
    and inv :: "'db \<Rightarrow> bool"
  assumes fetch_take: "fetch n db = take n (backlog db)"
    and backlog_distinct: "inv db \<Longrightarrow> distinct (backlog db)"
    and mark_backlog: "inv db \<Longrightarrow> e \<in> set (backlog db) \<Longrightarrow> backlog (mark t e db) = remove1 e (backlog db)"
    and mark_inv: "inv db \<Longrightarrow> inv (mark t e db)"
begin

definition mark_all :: "(timestamp \<times> 'ev) list \<Rightarrow> 'db \<Rightarrow> 'db" where
  "mark_all es db = foldl (\<lambda>d (t, e). mark t e d) db es"

lemma mark_all_prefix:
  "inv db \<Longrightarrow> backlog db = map snd es @ rest \<Longrightarrow>
   inv (mark_all es db) \<and> backlog (mark_all es db) = rest"
proof (induction es arbitrary: db)
  case (Cons x es)
  obtain t e where x: "x = (t, e)" by force
  have "backlog (mark t e db) = map snd es @ rest"
    using Cons.prems x mark_backlog[of db e t] by simp
  moreover have "inv (mark t e db)" using Cons.prems(1) by (rule mark_inv)
  ultimately show ?case using Cons.IH[of "mark t e db"] x by (simp add: mark_all_def)
qed (simp add: mark_all_def)

text \<open>Marking a fetched batch removes exactly that batch from the backlog.\<close>

lemma mark_all_fetch:
  assumes "inv db" "map snd es = fetch n db"
  shows "inv (mark_all es db)" "backlog (mark_all es db) = drop n (backlog db)"
  using mark_all_prefix[of db es "drop n (backlog db)"] assms by (simp_all add: fetch_take)

end

definition outbox_inv :: "outbox_row list \<Rightarrow> bool" where
  "outbox_inv rows = keys_distinct ob_event_id rows"

lemma pending_rows_mark:
  assumes inv: "outbox_inv rows" and e: "e \<in> set (pending_rows rows)"
  shows "pending_rows (mark_outbox_event_published (ob_event_id e) t rows) = remove1 e (pending_rows rows)"
proof -
  have ein: "e \<in> set rows" using e by (auto simp: pending_rows_def)
  have d: "distinct (map ob_event_id rows)" using inv by (simp add: outbox_inv_def keys_distinct_def)
  have same: "r = e" if "r \<in> set rows" "ob_event_id r = ob_event_id e" for r
    using d that ein by (auto simp: distinct_map dest: inj_onD)
  have "filter (\<lambda>r. \<not> ob_published r) (mark_outbox_event_published (ob_event_id e) t rows)
      = filter (\<lambda>r. r \<noteq> e) (filter (\<lambda>r. \<not> ob_published r) rows)"
    using same unfolding mark_outbox_event_published_def row_update_def
    by (induction rows) auto
  then have "pending_rows (mark_outbox_event_published (ob_event_id e) t rows)
      = filter (\<lambda>r. r \<noteq> e) (pending_rows rows)"
    by (simp add: pending_rows_def filter_sort)
  moreover have "distinct (pending_rows rows)"
    using d by (auto simp: pending_rows_def distinct_map intro: distinct_filter)
  ultimately show ?thesis by (simp add: distinct_remove1_removeAll removeAll_filter_not_eq eq_commute[of e])
qed

interpretation sqlite_outbox: outbox pending_rows get_pending_outbox_events
  "\<lambda>t e. mark_outbox_event_published (ob_event_id e) t" outbox_inv
proof unfold_locales
  show "get_pending_outbox_events n db = take n (pending_rows db)" for n db
    by (simp add: get_pending_outbox_events_def)
  show "distinct (pending_rows db)" if "outbox_inv db" for db
    using that by (auto simp: outbox_inv_def keys_distinct_def pending_rows_def distinct_map
        intro: distinct_filter)
  show "pending_rows (mark_outbox_event_published (ob_event_id e) t db) = remove1 e (pending_rows db)"
    if "outbox_inv db" "e \<in> set (pending_rows db)" for db e t
    using that by (rule pending_rows_mark)
  show "outbox_inv (mark_outbox_event_published (ob_event_id e) t db)" if "outbox_inv db" for db e t
  proof -
    have "map ob_event_id (mark_outbox_event_published (ob_event_id e) t db) = map ob_event_id db"
      by (induction db) (auto simp: mark_outbox_event_published_def row_update_def)
    with that show ?thesis by (simp add: outbox_inv_def keys_distinct_def)
  qed
qed

section \<open>Publisher cycles\<close>

lemma publish_batch_ids: "map ev_event_id (fst (publish_batch env i rs rows)) = map ob_event_id rs"
  by (induction rs arbitrary: i rows) (auto simp: outbox_envelope_def split: prod.splits,
      (metis fst_conv)+)

lemma publish_batch_mark:
  "\<exists>ts. length ts = length rs \<and> snd (publish_batch env i rs rows) = sqlite_outbox.mark_all (zip ts rs) rows"
proof (induction rs arbitrary: i rows)
  case (Cons r rs)
  obtain ts where ts: "length ts = length rs"
    "snd (publish_batch env (Suc i) rs (mark_outbox_event_published (ob_event_id r) (clock env i) rows))
      = sqlite_outbox.mark_all (zip ts rs) (mark_outbox_event_published (ob_event_id r) (clock env i) rows)"
    using Cons.IH by blast
  then show ?case
    by (intro exI[of _ "clock env i # ts"]) (simp add: sqlite_outbox.mark_all_def case_prod_beta)
qed (simp add: sqlite_outbox.mark_all_def)

lemma outbox_cycle_step:
  assumes "outbox_inv rows" "outbox_cycle env rows = (out, rows')"
  shows "outbox_inv rows'" "pending_rows rows' = drop 20 (pending_rows rows)"
    "map ev_event_id out = map ob_event_id (take 20 (pending_rows rows))"
proof -
  let ?b = "get_pending_outbox_events 20 rows"
  obtain ts where ts: "length ts = length ?b" "rows' = sqlite_outbox.mark_all (zip ts ?b) rows"
    using publish_batch_mark[of ?b env 0 rows] assms(2) by (auto simp: outbox_cycle_def)
  have z: "map snd (zip ts ?b) = ?b" using ts(1) by simp
  show "outbox_inv rows'" "pending_rows rows' = drop 20 (pending_rows rows)"
    unfolding ts(2) using sqlite_outbox.mark_all_fetch[OF assms(1) z] by auto
  show "map ev_event_id out = map ob_event_id (take 20 (pending_rows rows))"
    using publish_batch_ids[of env 0 ?b rows] assms(2)
    by (simp add: outbox_cycle_def get_pending_outbox_events_def)
qed

lemma outbox_cycles_run:
  "outbox_inv rows \<Longrightarrow> outbox_cycles envs rows = (out, rows') \<Longrightarrow>
   outbox_inv rows' \<and> pending_rows rows' = drop (20 * length envs) (pending_rows rows)
   \<and> map ev_event_id out = map ob_event_id (take (20 * length envs) (pending_rows rows))"
proof (induction envs arbitrary: rows out rows')
  case (Cons env envs)
  obtain out1 rows1 where 1: "outbox_cycle env rows = (out1, rows1)" by force
  obtain out2 rows2 where 2: "outbox_cycles envs rows1 = (out2, rows2)" by force
  note s = outbox_cycle_step[OF Cons.prems(1) 1]
  have ih: "outbox_inv rows2" "pending_rows rows2 = drop (20 * length envs) (pending_rows rows1)"
    "map ev_event_id out2 = map ob_event_id (take (20 * length envs) (pending_rows rows1))"
    using Cons.IH[OF s(1) 2] by auto
  have "out = out1 @ out2" "rows' = rows2" using Cons.prems(2) 1 2 by auto
  with ih s show ?case
    by (simp add: add.commute take_add)
qed simp

section \<open>Property\<close>

text \<open>
  C19. Enough passes of the outbox publisher (20 rows each) publish every pending event exactly
  once, in the order of creation, and leave nothing pending.
\<close>

theorem outbox_drains:
  "outbox_inv rows \<Longrightarrow> length (pending_rows rows) \<le> 20 * length envs \<Longrightarrow> outbox_cycles envs rows = (out, rows') \<Longrightarrow>
   map ev_event_id out = map ob_event_id (pending_rows rows) \<and> distinct (map ev_event_id out) \<and> pending_rows rows' = []"
proof -
  assume inv: "outbox_inv rows" and n: "length (pending_rows rows) \<le> 20 * length envs"
    and c: "outbox_cycles envs rows = (out, rows')"
  have "distinct (map ob_event_id (pending_rows rows))"
    using inv by (auto simp: outbox_inv_def keys_distinct_def pending_rows_def distinct_map intro: distinct_filter inj_on_subset)
  then show ?thesis using outbox_cycles_run[OF inv c] n by simp
qed

definition demo_outbox :: "outbox_row list" where
  "demo_outbox = map (\<lambda>(i, t). \<lparr>ob_event_id = i, ob_topic = ORDER_STATE, ob_payload = AuditPayload i [], ob_created_at = t,
     ob_published = False, ob_published_at = None\<rparr>) [(''late'', 9), (''early'', 2)]"

theorem outbox_drains_witness:
  "let env = \<lparr>clock = (\<lambda>i. 10), uuid = (\<lambda>i. ''c'')\<rparr>
   in map ev_event_id (fst (outbox_cycles [env] demo_outbox)) = [''early'', ''late'']"
proof -
  let ?env = "\<lparr>clock = (\<lambda>i. 10), uuid = (\<lambda>i. ''c'')\<rparr> :: env"
  have inv: "outbox_inv demo_outbox" by code_simp
  have p: "map ob_event_id (pending_rows demo_outbox) = [''early'', ''late'']" by code_simp
  have n: "length (pending_rows demo_outbox) \<le> 20 * length [?env]"
    using arg_cong[OF p, of length] by (simp only: length_map) simp
  show ?thesis
    using outbox_drains[OF inv n, of "fst (outbox_cycles [?env] demo_outbox)" "snd (outbox_cycles [?env] demo_outbox)"] p
    by (simp add: Let_def)
qed

end
