(* ===== verification/Oms.thy ===== *)
theory Oms imports OrderStateMachine Sqlite begin

text \<open>
  The order management service: \<^verbatim>\<open>services/oms/repository.py\<close> (the database
  \<^verbatim>\<open>oms.db\<close>) and \<^verbatim>\<open>services/oms/service.py\<close> (the handlers).  A database call is one
  transaction: it commits as a whole or leaves the database as it was.  A handler runs to
  its end before the next one starts; interleavings are studied in \<open>Execution\<close>.
\<close>

section \<open>The database\<close>

record oms_db =
  od_intents :: "order_intent list"
  od_orders :: "broker_order list"
  od_events :: "order_event list"
  od_outbox :: "outbox_row list"

definition oms_empty :: oms_db where
  "oms_empty = \<lparr>od_intents = [], od_orders = [], od_events = [], od_outbox = []\<rparr>"

text \<open>SQLite stores a NaN as NULL: it violates NOT NULL, and reads back as \<open>None\<close> elsewhere.\<close>

definition sql_real_opt :: "pyfloat option \<Rightarrow> pyfloat option" where
  "sql_real_opt x = (if x = Some NaN then None else x)"

definition save_order_intent :: "env \<Rightarrow> nat \<Rightarrow> order_intent \<Rightarrow> topic \<Rightarrow> oms_db \<Rightarrow> exn + oms_db" where
  "save_order_intent env i intent tp db =
     (if oi_price intent = NaN then Inl (IntegrityError ''order_intents.price'') else
      case row_insert oi_intent_id
             (intent\<lparr>oi_trigger_price := sql_real_opt (oi_trigger_price intent)\<rparr>) (od_intents db) of
        None \<Rightarrow> Inl (IntegrityError ''order_intents.intent_id'')
      | Some intents \<Rightarrow>
          (case add_outbox_event (uuid env i) tp (IntentPayload intent) (oi_created_at intent) (od_outbox db) of
             None \<Rightarrow> Inl (IntegrityError ''outbox_events.event_id'')
           | Some ob \<Rightarrow> Inr (db\<lparr>od_intents := intents, od_outbox := ob\<rparr>)))"

text \<open>The \<^verbatim>\<open>SET\<close> clause of the upsert of \<^verbatim>\<open>broker_orders\<close>.\<close>

definition merge_order :: "broker_order \<Rightarrow> broker_order \<Rightarrow> broker_order" where
  "merge_order old new = old\<lparr>
     bo_broker_order_id := bo_broker_order_id new,
     bo_filled_quantity := bo_filled_quantity new,
     bo_remaining_quantity := bo_remaining_quantity new,
     bo_trigger_price := bo_trigger_price new,
     bo_average_price := bo_average_price new,
     bo_status := bo_status new,
     bo_status_message := bo_status_message new,
     bo_reduce_only := bo_reduce_only new,
     bo_updated_at := bo_updated_at new\<rparr>"

text \<open>
  \<^verbatim>\<open>save_broker_order_with_transition\<close>: reads the clock once (\<open>clock env i\<close>) and draws one
  event id (\<open>uuid env j\<close>), shared by the journal row and the outbox row.  A new row must
  have a fresh client order id and an existing intent (foreign key).
\<close>

definition order_row :: "env \<Rightarrow> nat \<Rightarrow> order_state \<Rightarrow> broker_order \<Rightarrow> broker_order" where
  "order_row env i to_state order = order\<lparr>
     bo_trigger_price := sql_real_opt (bo_trigger_price order),
     bo_status := to_state, bo_updated_at := clock env i\<rparr>"

definition transition_event ::
  "env \<Rightarrow> nat \<Rightarrow> nat \<Rightarrow> order_state option \<Rightarrow> order_state \<Rightarrow> message option \<Rightarrow> broker_order \<Rightarrow> order_event" where
  "transition_event env i j from_state to_state reason order =
     \<lparr>oe_event_id = uuid env j, oe_order_id = bo_order_id order, oe_from_state = from_state,
      oe_to_state = to_state, oe_reason = reason, oe_payload = order, oe_occurred_at = clock env i\<rparr>"

text \<open>The constraints an inserted row must satisfy.\<close>

definition order_constraints :: "broker_order \<Rightarrow> oms_db \<Rightarrow> exn option" where
  "order_constraints order db =
     (let new = (row_get bo_order_id (bo_order_id order) (od_orders db) = None) in
      if bo_price order = NaN \<or> bo_average_price order = NaN
      then Some (IntegrityError ''broker_orders'')
      else if new \<and> row_get bo_client_order_id (bo_client_order_id order) (od_orders db) \<noteq> None
      then Some (IntegrityError ''broker_orders.client_order_id'')
      else if new \<and> row_get oi_intent_id (bo_intent_id order) (od_intents db) = None
      then Some (IntegrityError ''FOREIGN KEY'')
      else None)"

definition save_broker_order_with_transition ::
  "env \<Rightarrow> nat \<Rightarrow> nat \<Rightarrow> broker_order \<Rightarrow> order_state option \<Rightarrow> order_state \<Rightarrow> message option \<Rightarrow>
   topic option \<Rightarrow> oms_db \<Rightarrow> exn + oms_db" where
  "save_broker_order_with_transition env i j order from_state to_state reason outbox_topic db =
     (case order_constraints order db of
        Some e \<Rightarrow> Inl e
      | None \<Rightarrow>
         (case row_insert oe_event_id (transition_event env i j from_state to_state reason order) (od_events db) of
            None \<Rightarrow> Inl (IntegrityError ''order_events.event_id'')
          | Some events \<Rightarrow>
             (let db' = db\<lparr>od_orders := row_upsert bo_order_id merge_order (order_row env i to_state order) (od_orders db),
                           od_events := events\<rparr>
              in case outbox_topic of
                   None \<Rightarrow> Inr db'
                 | Some tp \<Rightarrow>
                     (case add_outbox_event (uuid env j) tp (OrderPayload order) (clock env i) (od_outbox db) of
                        None \<Rightarrow> Inl (IntegrityError ''outbox_events.event_id'')
                      | Some ob \<Rightarrow> Inr (db'\<lparr>od_outbox := ob\<rparr>)))))"

definition get_order_by_id :: "string \<Rightarrow> oms_db \<Rightarrow> broker_order option" where
  "get_order_by_id order_id db = row_get bo_order_id order_id (od_orders db)"

definition get_order_by_client_id :: "string \<Rightarrow> oms_db \<Rightarrow> broker_order option" where
  "get_order_by_client_id client_order_id db = row_get bo_client_order_id client_order_id (od_orders db)"

definition list_orders :: "nat \<Rightarrow> oms_db \<Rightarrow> broker_order list" where
  "list_orders limit db = newest bo_created_at limit (od_orders db)"

section \<open>The service\<close>

definition new_client_order_id :: "string \<Rightarrow> string" where
  "new_client_order_id u = ''CL-'' @ to_upper (last_chars 12 (filter (\<lambda>c. c \<noteq> CHR ''-'') u))"

definition initial_order :: "env \<Rightarrow> order_intent \<Rightarrow> broker_order" where
  "initial_order env intent =
     \<lparr>bo_order_id = uuid env 1, bo_intent_id = oi_intent_id intent,
      bo_client_order_id = new_client_order_id (uuid env 0), bo_broker_order_id = None,
      bo_instrument_id = oi_instrument_id intent, bo_symbol = oi_symbol intent,
      bo_side = oi_side intent, bo_order_type = oi_order_type intent,
      bo_quantity = oi_quantity intent, bo_filled_quantity = 0,
      bo_remaining_quantity = oi_quantity intent, bo_price = oi_price intent,
      bo_trigger_price = oi_trigger_price intent, bo_average_price = Fin 0,
      bo_status = CREATED, bo_status_message = None,
      bo_trading_mode = oi_trading_mode intent, bo_reduce_only = oi_reduce_only intent,
      bo_created_at = clock env 0, bo_updated_at = clock env 0\<rparr>"

text \<open>
  \<^verbatim>\<open>create_order_intent\<close>: three transactions (intent, CREATED, VALIDATING), then the fast-path
  publication.  The order is returned when all three commit.
\<close>

definition create_order_intent :: "env \<Rightarrow> order_intent \<Rightarrow> oms_db \<Rightarrow> broker_order option \<times> oms_db outcome" where
  "create_order_intent env intent db =
     (let order = initial_order env intent in
      case save_order_intent env 2 intent ORDER_INTENT db of
        Inl e \<Rightarrow> (None, raised db [] e)
      | Inr db1 \<Rightarrow>
         (case save_broker_order_with_transition env 1 3 order None CREATED
                 (Some [Txt ''Order intent created'']) (Some ORDER_STATE) db1 of
            Inl e \<Rightarrow> (None, raised db1 [] e)
          | Inr db2 \<Rightarrow>
             (case validate_transition CREATED VALIDATING [] of
                Some e \<Rightarrow> (None, raised db2 [] e)
              | None \<Rightarrow>
                 (let order' = order\<lparr>bo_status := VALIDATING\<rparr> in
                  case save_broker_order_with_transition env 2 4 order' (Some CREATED) VALIDATING
                         (Some [Txt ''Dispatched to Risk Service for evaluation'']) (Some ORDER_STATE) db2 of
                    Inl e \<Rightarrow> (None, raised db2 [] e)
                  | Inr db3 \<Rightarrow>
                      (Some order', ok db3
                        [\<lparr>ev_event_id = uuid env 5, ev_topic = ORDER_INTENT,
                          ev_correlation_id = oi_correlation_id intent,
                          ev_payload = IntentPayload intent\<rparr>])))))"

text \<open>
  \<^verbatim>\<open>_handle_risk_decision_event\<close>: looks for the order among the 50 newest, ignores a decision
  for an order that is past VALIDATING, else moves it and, when approved, commands the execution.
\<close>

definition handle_risk_decision_event :: "env \<Rightarrow> envelope \<Rightarrow> oms_db \<Rightarrow> oms_db outcome" where
  "handle_risk_decision_event env ev db =
     (case ev_payload ev of
        DecisionPayload d \<Rightarrow>
          (case filter (\<lambda>o'. bo_intent_id o' = rd_intent_id d) (list_orders 50 db) of
             [] \<Rightarrow> ok db []
           | order # _ \<Rightarrow>
               if bo_status order \<noteq> VALIDATING then ok db [] else
               (let to_state = (if rd_approved d then APPROVED else RISK_REJECTED);
                    reason = rd_reason d in
                case validate_transition (bo_status order) to_state (case reason of None \<Rightarrow> [] | Some m \<Rightarrow> m) of
                  Some e \<Rightarrow> raised db [] e
                | None \<Rightarrow>
                   (case save_broker_order_with_transition env 0 0
                           (order\<lparr>bo_status := to_state, bo_status_message := reason\<rparr>)
                           (Some (bo_status order)) to_state reason (Some ORDER_STATE) db of
                      Inl e \<Rightarrow> raised db [] e
                    | Inr db' \<Rightarrow> ok db' (if rd_approved d then
                        [\<lparr>ev_event_id = uuid env 1, ev_topic = EXECUTION_COMMAND,
                          ev_correlation_id = ev_correlation_id ev,
                          ev_payload = CommandPayload (bo_order_id order) (bo_client_order_id order)\<rparr>]
                        else []))))
      | _ \<Rightarrow> raised db [] (KeyError ''intent_id''))"

text \<open>The state a broker status asks for; an unknown word keeps the current state.\<close>

definition broker_target_state :: "string \<Rightarrow> int \<Rightarrow> order_state \<Rightarrow> order_state" where
  "broker_target_state broker_status filled_qty current =
     (if broker_status = ''FILLED'' then FILLED
      else if broker_status \<in> {''PARTIAL'', ''PARTIALLY_FILLED'', ''PARTIALLY FILLED''} then PARTIALLY_FILLED
      else if broker_status \<in> {''OPEN'', ''PLACED''} then (if filled_qty > 0 then PARTIALLY_FILLED else OPEN)
      else if broker_status = ''CANCELLED'' then CANCELLED
      else if broker_status = ''REJECTED'' then REJECTED
      else if broker_status = ''EXPIRED'' then EXPIRED
      else if broker_status = ''FAILED_SAFE'' then FAILED_SAFE
      else if broker_status = ''UNKNOWN'' then SUBMISSION_UNKNOWN
      else current)"

definition fill_changed :: "order_status_update \<Rightarrow> broker_order \<Rightarrow> bool" where
  "fill_changed u order =
     (su_filled_quantity u \<noteq> bo_filled_quantity order
      \<or> \<not> feq (f_or (su_average_price u) (Fin 0)) (f_or (bo_average_price order) (Fin 0))
      \<or> (case su_broker_order_id u of None \<Rightarrow> False
         | Some b \<Rightarrow> b \<noteq> [] \<and> Some b \<noteq> bo_broker_order_id order))"

definition reconciled_order :: "order_status_update \<Rightarrow> order_state \<Rightarrow> broker_order \<Rightarrow> broker_order" where
  "reconciled_order u to_state order = order\<lparr>
     bo_broker_order_id := str_or (su_broker_order_id u) (bo_broker_order_id order),
     bo_status := to_state,
     bo_filled_quantity := su_filled_quantity u,
     bo_remaining_quantity := max 0 (bo_quantity order - su_filled_quantity u),
     bo_average_price := f_or (su_average_price u) (bo_average_price order),
     bo_status_message := su_message u\<rparr>"

definition handle_broker_order_event :: "env \<Rightarrow> envelope \<Rightarrow> oms_db \<Rightarrow> oms_db outcome" where
  "handle_broker_order_event env ev db =
     (case ev_payload ev of
        StatusPayload u \<Rightarrow>
          (case get_order_by_client_id (su_client_order_id u) db of
             None \<Rightarrow> ok db []
           | Some order \<Rightarrow>
               (let broker_status = to_upper (su_status u);
                    to_state = broker_target_state broker_status (su_filled_quantity u) (bo_status order);
                    state_changed = (to_state \<noteq> bo_status order)
                in if state_changed \<or> fill_changed u order then
                     if state_changed \<and> \<not> can_transition (bo_status order) to_state
                     then raised db [] (InvalidOrderStateTransitionError (bo_status order) to_state [Txt broker_status])
                     else
                       (case save_broker_order_with_transition env 0 0 (reconciled_order u to_state order)
                               (Some (bo_status order)) to_state
                               (Some [Txt (''Broker reconciliation: '' @ broker_status)]) (Some ORDER_STATE) db of
                          Inl e \<Rightarrow> raised db [] e
                        | Inr db' \<Rightarrow> ok db' [])
                   else ok db []))
      | _ \<Rightarrow> raised db [] (KeyError ''client_order_id''))"

text \<open>
  \<^verbatim>\<open>mark_order_submitting\<close>: the reservation of an approved order; returns the order as it is
  when it is not (or no longer) APPROVED.
\<close>

definition mark_order_submitting :: "env \<Rightarrow> string \<Rightarrow> oms_db \<Rightarrow> exn + (broker_order option \<times> oms_db)" where
  "mark_order_submitting env order_id db =
     (case get_order_by_id order_id db of
        None \<Rightarrow> Inr (None, db)
      | Some order \<Rightarrow>
          if bo_status order = SUBMITTING then Inr (Some order, db)
          else if bo_status order \<noteq> APPROVED then Inr (Some order, db)
          else case validate_transition (bo_status order) SUBMITTING [Txt ''Execution reserved''] of
                 Some e \<Rightarrow> Inl e
               | None \<Rightarrow>
                  (let updated = order\<lparr>bo_status := SUBMITTING, bo_updated_at := clock env 0\<rparr> in
                   case save_broker_order_with_transition env 1 0 updated (Some (bo_status order)) SUBMITTING
                          (Some [Txt ''Execution service reserved broker submission'']) (Some ORDER_STATE) db of
                     Inl e \<Rightarrow> Inl e
                   | Inr db' \<Rightarrow> Inr (Some updated, db')))"

text \<open>One pass of the outbox publisher over \<^verbatim>\<open>oms.db\<close>.\<close>

definition oms_outbox_pass :: "env \<Rightarrow> oms_db \<Rightarrow> oms_db outcome" where
  "oms_outbox_pass env db =
     (let (out, rows) = outbox_cycle env (od_outbox db) in ok (db\<lparr>od_outbox := rows\<rparr>) out)"

section \<open>Runs of the service\<close>

datatype oms_op =
  CreateOrder order_intent
| RiskEvent envelope
| BrokerEvent envelope
| ReserveOrder string
| OutboxPass

fun oms_step :: "env \<Rightarrow> oms_op \<Rightarrow> oms_db \<Rightarrow> oms_db" where
  "oms_step env (CreateOrder intent) db = oc_state (snd (create_order_intent env intent db))"
| "oms_step env (RiskEvent ev) db = oc_state (handle_risk_decision_event env ev db)"
| "oms_step env (BrokerEvent ev) db = oc_state (handle_broker_order_event env ev db)"
| "oms_step env (ReserveOrder oid) db =
     (case mark_order_submitting env oid db of Inl _ \<Rightarrow> db | Inr (_, db') \<Rightarrow> db')"
| "oms_step env OutboxPass db = oc_state (oms_outbox_pass env db)"

text \<open>\<^verbatim>\<open>generate_id\<close> is a UUID: the identifier drawn for a new order is not one already stored.\<close>

definition op_fresh :: "env \<Rightarrow> oms_op \<Rightarrow> oms_db \<Rightarrow> bool" where
  "op_fresh env op db = (case op of
     CreateOrder _ \<Rightarrow> get_order_by_id (uuid env 1) db = None | _ \<Rightarrow> True)"

inductive oms_reachable :: "oms_db \<Rightarrow> bool" where
  start: "oms_reachable oms_empty"
| step: "oms_reachable db \<Longrightarrow> op_fresh env op db \<Longrightarrow> oms_reachable (oms_step env op db)"

section \<open>The invariant\<close>

text \<open>
  The journal of an order is a path of the state machine from nothing through CREATED to the
  stored status.  A fill update inside one state is journalled as a self step.
\<close>

fun journal_step :: "order_state option \<Rightarrow> order_state \<Rightarrow> bool" where
  "journal_step None t = (t = CREATED)"
| "journal_step (Some s) t = (t = s \<or> can_transition s t)"

fun journal_path :: "order_state option \<Rightarrow> order_event list \<Rightarrow> order_state option \<Rightarrow> bool" where
  "journal_path s [] t = (s = t)"
| "journal_path s (e # es) t =
     (oe_from_state e = s \<and> journal_step s (oe_to_state e) \<and> journal_path (Some (oe_to_state e)) es t)"

definition order_journal :: "string \<Rightarrow> oms_db \<Rightarrow> order_event list" where
  "order_journal oid db = filter (\<lambda>e. oe_order_id e = oid) (od_events db)"

text \<open>The open quantity of an order agrees with its fills.\<close>

definition remaining_ok :: "broker_order \<Rightarrow> bool" where
  "remaining_ok ord = (bo_remaining_quantity ord = max 0 (bo_quantity ord - bo_filled_quantity ord)
     \<or> (bo_filled_quantity ord = 0 \<and> bo_remaining_quantity ord = bo_quantity ord))"

definition order_status :: "string \<Rightarrow> oms_db \<Rightarrow> order_state option" where
  "order_status oid db = map_option bo_status (get_order_by_id oid db)"

definition oms_inv :: "oms_db \<Rightarrow> bool" where
  "oms_inv db \<longleftrightarrow>
     keys_distinct bo_order_id (od_orders db) \<and> keys_distinct bo_client_order_id (od_orders db)
   \<and> keys_distinct oe_event_id (od_events db) \<and> outbox_inv (od_outbox db)
   \<and> keys_distinct oi_intent_id (od_intents db)
   \<and> (\<forall>ord \<in> set (od_orders db). bo_intent_id ord \<in> oi_intent_id ` set (od_intents db) \<and> remaining_ok ord)
   \<and> (\<forall>oid. journal_path None (order_journal oid db) (order_status oid db))"

text \<open>What never changes about an order, and that its status only moves along the machine.\<close>

definition order_succ :: "broker_order \<Rightarrow> broker_order \<Rightarrow> bool" where
  "order_succ a b \<longleftrightarrow>
     bo_order_id b = bo_order_id a \<and> bo_intent_id b = bo_intent_id a
   \<and> bo_client_order_id b = bo_client_order_id a \<and> bo_instrument_id b = bo_instrument_id a
   \<and> bo_symbol b = bo_symbol a \<and> bo_side b = bo_side a \<and> bo_order_type b = bo_order_type a
   \<and> bo_quantity b = bo_quantity a \<and> bo_price b = bo_price a
   \<and> bo_trading_mode b = bo_trading_mode a \<and> bo_created_at b = bo_created_at a
   \<and> can_transition\<^sup>*\<^sup>* (bo_status a) (bo_status b)"

definition oms_le :: "oms_db \<Rightarrow> oms_db \<Rightarrow> bool" where
  "oms_le db db' \<longleftrightarrow> (\<forall>oid a. get_order_by_id oid db = Some a \<longrightarrow>
     (\<exists>b. get_order_by_id oid db' = Some b \<and> order_succ a b))"

lemma order_succ_refl [simp]: "order_succ a a"
  by (simp add: order_succ_def)

lemma order_succ_trans: "order_succ a b \<Longrightarrow> order_succ b c \<Longrightarrow> order_succ a c"
  by (auto simp: order_succ_def)

lemma oms_le_refl [simp]: "oms_le db db"
  by (simp add: oms_le_def)

lemma oms_le_trans: "oms_le a b \<Longrightarrow> oms_le b c \<Longrightarrow> oms_le a c"
  by (meson oms_le_def order_succ_trans)

lemma journal_path_snoc:
  "journal_path s es t \<Longrightarrow> oe_from_state e = t \<Longrightarrow> journal_step t (oe_to_state e) \<Longrightarrow>
   journal_path s (es @ [e]) (Some (oe_to_state e))"
  by (induction es arbitrary: s) auto

section \<open>The tables\<close>

interpretation order_table: keyed_table bo_order_id merge_order
  by unfold_locales (simp add: merge_order_def)

interpretation intent_table: keyed_table oi_intent_id "\<lambda>old new. old"
  by unfold_locales simp

interpretation journal_table: keyed_table oe_event_id "\<lambda>old new. old"
  by unfold_locales simp

interpretation outbox_table: keyed_table ob_event_id "\<lambda>old new. old"
  by unfold_locales simp

lemma add_outbox_inv:
  "outbox_inv rows \<Longrightarrow> add_outbox_event i tp pl t rows = Some rows' \<Longrightarrow> outbox_inv rows'"
  unfolding add_outbox_event_def outbox_inv_def by (rule outbox_table.distinct_insert)

lemma upsert_client_ids:
  "map bo_client_order_id (row_upsert bo_order_id merge_order r rows) =
   (if bo_order_id r \<in> bo_order_id ` set rows then map bo_client_order_id rows
    else map bo_client_order_id rows @ [bo_client_order_id r])"
proof (cases "row_get bo_order_id (bo_order_id r) rows")
  case None
  then show ?thesis by (auto simp: row_upsert_def row_get_None_iff)
next
  case (Some old)
  then have "bo_order_id r \<in> bo_order_id ` set rows" using row_get_None_iff by (metis option.distinct(1))
  moreover have "map bo_client_order_id (row_update bo_order_id k (\<lambda>old. merge_order old r) rows)
      = map bo_client_order_id rows" for k
    by (induction rows) (auto simp: row_update_def merge_order_def)
  ultimately show ?thesis using Some by (simp add: row_upsert_def)
qed

section \<open>One transaction\<close>

text \<open>Everything a committed \<open>save_broker_order_with_transition\<close> did.\<close>

lemma save_orderD:
  assumes "save_broker_order_with_transition env i j order f t r tp db = Inr db'"
  shows "order_constraints order db = None"
    and "od_orders db' = row_upsert bo_order_id merge_order (order_row env i t order) (od_orders db)"
    and "row_insert oe_event_id (transition_event env i j f t r order) (od_events db) = Some (od_events db')"
    and "od_intents db' = od_intents db"
    and "outbox_inv (od_outbox db) \<Longrightarrow> outbox_inv (od_outbox db')"
  using assms
  by (auto simp: save_broker_order_with_transition_def Let_def
      split: option.splits intro: add_outbox_inv)

lemma order_row_simps [simp]:
  "bo_order_id (order_row env i t ord) = bo_order_id ord"
  "bo_status (order_row env i t ord) = t"
  "bo_client_order_id (order_row env i t ord) = bo_client_order_id ord"
  "bo_intent_id (order_row env i t ord) = bo_intent_id ord"
  "bo_quantity (order_row env i t ord) = bo_quantity ord"
  "remaining_ok (order_row env i t ord) = remaining_ok ord"
  by (simp_all add: order_row_def remaining_ok_def)

lemma merge_order_simps [simp]:
  "bo_order_id (merge_order a b) = bo_order_id a"
  "bo_status (merge_order a b) = bo_status b"
  "bo_client_order_id (merge_order a b) = bo_client_order_id a"
  "bo_intent_id (merge_order a b) = bo_intent_id a"
  "bo_quantity (merge_order a b) = bo_quantity a"
  by (simp_all add: merge_order_def)

lemma save_order_get:
  assumes "save_broker_order_with_transition env i j order f t r tp db = Inr db'"
  shows "get_order_by_id oid db' =
    (if oid = bo_order_id order
     then Some (case get_order_by_id oid db of None \<Rightarrow> order_row env i t order
                | Some old \<Rightarrow> merge_order old (order_row env i t order))
     else get_order_by_id oid db)"
  using order_table.get_upsert_same[of "order_row env i t order" "od_orders db"]
    order_table.get_upsert_other[of oid "order_row env i t order" "od_orders db"]
  by (simp add: get_order_by_id_def save_orderD(2)[OF assms])

lemma save_order_status:
  assumes "save_broker_order_with_transition env i j order f t r tp db = Inr db'"
  shows "order_status oid db' = (if oid = bo_order_id order then Some t else order_status oid db)"
  by (simp add: order_status_def save_order_get[OF assms] split: option.splits)

lemma save_order_journal:
  assumes "save_broker_order_with_transition env i j order f t r tp db = Inr db'"
  shows "order_journal oid db' =
    (if oid = bo_order_id order then order_journal oid db @ [transition_event env i j f t r order]
     else order_journal oid db)"
proof -
  have "od_events db' = od_events db @ [transition_event env i j f t r order]"
    using save_orderD(3)[OF assms] by (simp add: row_insert_def split: if_splits)
  then show ?thesis by (simp add: order_journal_def transition_event_def)
qed

text \<open>
  The transaction keeps the invariant when the caller passes the stored status as
  \<open>from_state\<close>, a permitted target, and an order that agrees with the stored one.
\<close>

lemma save_order_inv:
  assumes inv: "oms_inv db"
    and save: "save_broker_order_with_transition env i j order f t r tp db = Inr db'"
    and f: "order_status (bo_order_id order) db = f" and step: "journal_step f t"
    and rem: "remaining_ok order"
    and qty: "\<And>old. get_order_by_id (bo_order_id order) db = Some old \<Longrightarrow> bo_quantity old = bo_quantity order"
  shows "oms_inv db'"
proof -
  note d = save_orderD[OF save]
  have orders: "keys_distinct bo_order_id (od_orders db')"
    unfolding d(2) using inv by (intro order_table.distinct_upsert) (simp add: oms_inv_def)
  have events: "keys_distinct oe_event_id (od_events db')"
    using journal_table.distinct_insert[OF _ d(3)] inv by (simp add: oms_inv_def)
  have clients: "keys_distinct bo_client_order_id (od_orders db')"
    using inv d(1) unfolding keys_distinct_def d(2) upsert_client_ids
    by (auto simp: oms_inv_def keys_distinct_def order_constraints_def Let_def row_get_None_iff split: if_splits)
  have rows: "bo_intent_id ord \<in> oi_intent_id ` set (od_intents db') \<and> remaining_ok ord"
    if "ord \<in> set (od_orders db')" for ord
  proof -
    from that[unfolded d(2)] consider "ord \<in> set (od_orders db)"
      | "ord = order_row env i t order" "bo_order_id order \<notin> bo_order_id ` set (od_orders db)"
      | old where "old \<in> set (od_orders db)" "bo_order_id old = bo_order_id order"
          "ord = merge_order old (order_row env i t order)"
      using order_table.upsert_in by fastforce
    then show ?thesis
    proof cases
      case 1
      then show ?thesis using inv by (simp add: oms_inv_def d(4))
    next
      case 2
      then have "bo_intent_id order \<in> oi_intent_id ` set (od_intents db)"
        using d(1) by (auto simp: order_constraints_def Let_def row_get_None_iff split: if_splits)
      then show ?thesis using 2 rem by (simp add: d(4))
    next
      case 3
      have "get_order_by_id (bo_order_id order) db = Some old"
        using 3 inv row_get_in[of bo_order_id "od_orders db" old]
        by (simp add: get_order_by_id_def oms_inv_def)
      then have "bo_quantity old = bo_quantity order" by (rule qty)
      then have "remaining_ok ord"
        using 3 rem by (simp add: remaining_ok_def merge_order_def order_row_def)
      then show ?thesis using 3 inv by (simp add: oms_inv_def d(4))
    qed
  qed
  have "journal_path None (order_journal oid db') (order_status oid db')" for oid
    using inv f step journal_path_snoc[of None "order_journal oid db" f "transition_event env i j f t r order"]
    by (auto simp: save_order_journal[OF save] save_order_status[OF save] oms_inv_def transition_event_def)
  with orders clients events rows d(4,5) inv show ?thesis
    by (simp add: oms_inv_def)
qed

lemma save_order_le:
  assumes save: "save_broker_order_with_transition env i j order f t r tp db = Inr db'"
    and reach: "\<And>s. order_status (bo_order_id order) db = Some s \<Longrightarrow> can_transition\<^sup>*\<^sup>* s t"
  shows "oms_le db db'"
  using reach
  by (auto simp: oms_le_def save_order_get[OF save] order_status_def order_succ_def merge_order_def
      order_row_def split: option.splits)

lemma journal_step_reach: "journal_step (Some s) t \<Longrightarrow> can_transition\<^sup>*\<^sup>* s t"
  by auto

text \<open>A handler that reads an order and saves an update of it keeps the invariant.\<close>

lemma save_update_inv:
  assumes inv: "oms_inv db" and get: "get_order_by_id (bo_order_id ord) db = Some ord"
    and save: "save_broker_order_with_transition env i j ord' (Some (bo_status ord)) t r tp db = Inr db'"
    and id: "bo_order_id ord' = bo_order_id ord" "bo_quantity ord' = bo_quantity ord" "remaining_ok ord'"
    and step: "t = bo_status ord \<or> can_transition (bo_status ord) t"
  shows "oms_inv db'" "oms_le db db'"
proof -
  have st: "order_status (bo_order_id ord') db = Some (bo_status ord)"
    by (simp add: order_status_def id get)
  have "bo_quantity old = bo_quantity ord'" if "get_order_by_id (bo_order_id ord') db = Some old" for old
    using that get unfolding id by simp
  moreover have "journal_step (Some (bo_status ord)) t" using step by auto
  ultimately show "oms_inv db'"
    using save_order_inv[OF inv save st] id(3) by blast
  have r: "can_transition\<^sup>*\<^sup>* (bo_status ord) t" using step by auto
  show "oms_le db db'"
    by (rule save_order_le[OF save]) (simp add: st r)
qed

lemma oms_inv_get: "oms_inv db \<Longrightarrow> ord \<in> set (od_orders db) \<Longrightarrow> get_order_by_id (bo_order_id ord) db = Some ord"
  by (simp add: oms_inv_def get_order_by_id_def row_get_in)

lemma oms_inv_remaining: "oms_inv db \<Longrightarrow> ord \<in> set (od_orders db) \<Longrightarrow> remaining_ok ord"
  by (simp add: oms_inv_def)

lemma list_orders_subset: "set (list_orders n db) \<subseteq> set (od_orders db)"
  by (simp add: list_orders_def newest_subset)

lemma get_order_client_in: "get_order_by_client_id c db = Some ord \<Longrightarrow> ord \<in> set (od_orders db) \<and> bo_client_order_id ord = c"
  unfolding get_order_by_client_id_def by (drule row_get_Some) simp

lemma remaining_ok_status [simp]:
  "remaining_ok (ord\<lparr>bo_status := t, bo_status_message := m\<rparr>) = remaining_ok ord"
  "remaining_ok (ord\<lparr>bo_status := t, bo_updated_at := u\<rparr>) = remaining_ok ord"
  "remaining_ok (ord\<lparr>bo_status := t\<rparr>) = remaining_ok ord"
  by (simp_all add: remaining_ok_def)

lemma reconciled_order_simps [simp]:
  "bo_order_id (reconciled_order u t ord) = bo_order_id ord"
  "bo_quantity (reconciled_order u t ord) = bo_quantity ord"
  "remaining_ok (reconciled_order u t ord)"
  by (simp_all add: reconciled_order_def remaining_ok_def)

lemma initial_order_simps [simp]:
  "bo_order_id (initial_order env intent) = uuid env 1"
  "remaining_ok (initial_order env intent)"
  by (simp_all add: initial_order_def remaining_ok_def)

lemma save_intent_cases:
  assumes "oms_inv db" "save_order_intent env i intent tp db = Inr db'"
  shows "oms_inv db'" "oms_le db db'" "od_orders db' = od_orders db"
proof -
  obtain intents ob where ins: "row_insert oi_intent_id
        (intent\<lparr>oi_trigger_price := sql_real_opt (oi_trigger_price intent)\<rparr>) (od_intents db) = Some intents"
    and ob: "add_outbox_event (uuid env i) tp (IntentPayload intent) (oi_created_at intent) (od_outbox db) = Some ob"
    and db': "db' = db\<lparr>od_intents := intents, od_outbox := ob\<rparr>"
    using assms(2) by (auto simp: save_order_intent_def split: if_splits option.splits)
  have "set (od_intents db) \<subseteq> set intents" using ins by (auto simp: row_insert_def split: if_splits)
  moreover have "keys_distinct oi_intent_id intents"
    using intent_table.distinct_insert[OF _ ins] assms(1) by (simp add: oms_inv_def)
  moreover have "outbox_inv ob" using add_outbox_inv[OF _ ob] assms(1) by (simp add: oms_inv_def)
  ultimately show "oms_inv db'"
    using assms(1) unfolding oms_inv_def
    by (simp add: db' order_journal_def order_status_def get_order_by_id_def) blast
  show "oms_le db db'" "od_orders db' = od_orders db"
    by (simp_all add: db' oms_le_def get_order_by_id_def)
qed

lemma create_order_intent_inv:
  assumes inv: "oms_inv db" and fresh: "get_order_by_id (uuid env 1) db = None"
  shows "oms_inv (oc_state (snd (create_order_intent env intent db)))"
    and "oms_le db (oc_state (snd (create_order_intent env intent db)))"
proof -
  let ?o = "initial_order env intent"
  have "oms_inv (oc_state (snd (create_order_intent env intent db)))
      \<and> oms_le db (oc_state (snd (create_order_intent env intent db)))"
  proof (cases "save_order_intent env 2 intent ORDER_INTENT db")
    case (Inl e)
    then show ?thesis using inv by (simp add: create_order_intent_def Let_def)
  next
    case (Inr db1)
    note s1 = save_intent_cases[OF inv Inr]
    have f1: "get_order_by_id (uuid env 1) db1 = None" using fresh s1(3) by (simp add: get_order_by_id_def)
    show ?thesis
    proof (cases "save_broker_order_with_transition env 1 3 ?o None CREATED
        (Some [Txt ''Order intent created'']) (Some ORDER_STATE) db1")
      case (Inl e)
      then show ?thesis using s1 Inr by (simp add: create_order_intent_def Let_def)
    next
      case I2: (Inr db2)
      have s2: "oms_inv db2" "oms_le db1 db2"
        using save_order_inv[OF s1(1) I2] save_order_le[OF I2] f1 by (simp_all add: order_status_def)
      have st2: "order_status (uuid env 1) db2 = Some CREATED"
        using save_order_status[OF I2] by simp
      show ?thesis
      proof (cases "save_broker_order_with_transition env 2 4 (?o\<lparr>bo_status := VALIDATING\<rparr>) (Some CREATED)
          VALIDATING (Some [Txt ''Dispatched to Risk Service for evaluation'']) (Some ORDER_STATE) db2")
        case (Inl e)
        then have "oc_state (snd (create_order_intent env intent db)) = db2"
          using Inr I2 by (simp add: create_order_intent_def Let_def validate_transition_def can_transition_def)
        then show ?thesis using s2 oms_le_trans[OF s1(2) s2(2)] by simp
      next
        case I3: (Inr db3)
        have q: "bo_quantity old = bo_quantity ?o" if "get_order_by_id (uuid env 1) db2 = Some old" for old
          using that save_order_get[OF I2, of "uuid env 1"] f1 by auto
        have cv: "can_transition CREATED VALIDATING" by (simp add: can_transition_def)
        have "oms_inv db3"
          using save_order_inv[OF s2(1) I3] st2 q cv by simp
        moreover have "oms_le db2 db3"
          by (rule save_order_le[OF I3]) (use st2 r_into_rtranclp[of can_transition, OF cv] in simp)
        ultimately have goal: "oms_inv db3" "oms_le db db3"
          using s1(2) s2(2) oms_le_trans by blast+
        have "oc_state (snd (create_order_intent env intent db)) = db3"
          using Inr I2 I3 cv by (simp add: create_order_intent_def Let_def validate_transition_def)
        then show ?thesis using goal by simp
      qed
    qed
  qed
  then show "oms_inv (oc_state (snd (create_order_intent env intent db)))"
    "oms_le db (oc_state (snd (create_order_intent env intent db)))" by auto
qed

text \<open>An event handler changes nothing, or commits one save of an order it read.\<close>

lemma risk_event_cases:
  obtains "oc_state (handle_risk_decision_event env ev db) = db"
  | ord d where "ev_payload ev = DecisionPayload d" "ord \<in> set (od_orders db)" "bo_status ord = VALIDATING"
      "bo_intent_id ord = rd_intent_id d"
      "save_broker_order_with_transition env 0 0
         (ord\<lparr>bo_status := if rd_approved d then APPROVED else RISK_REJECTED, bo_status_message := rd_reason d\<rparr>)
         (Some (bo_status ord)) (if rd_approved d then APPROVED else RISK_REJECTED) (rd_reason d) (Some ORDER_STATE) db
       = Inr (oc_state (handle_risk_decision_event env ev db))"
proof (cases "\<exists>d. ev_payload ev = DecisionPayload d")
  case False
  then have "oc_state (handle_risk_decision_event env ev db) = db"
    by (cases "ev_payload ev") (simp_all add: handle_risk_decision_event_def)
  then show ?thesis by (rule that(1))
next
  case True
  then obtain d where d: "ev_payload ev = DecisionPayload d" ..
  let ?t = "if rd_approved d then APPROVED else RISK_REJECTED"
  show ?thesis
  proof (cases "filter (\<lambda>o'. bo_intent_id o' = rd_intent_id d) (list_orders 50 db)")
    case Nil
    then show ?thesis using that(1) d by (simp add: handle_risk_decision_event_def)
  next
    case (Cons ord rest)
    then have "ord \<in> set (filter (\<lambda>o'. bo_intent_id o' = rd_intent_id d) (list_orders 50 db))" by simp
    then have ord: "ord \<in> set (od_orders db)" "bo_intent_id ord = rd_intent_id d"
      using list_orders_subset by auto
    show ?thesis
    proof (cases "bo_status ord = VALIDATING")
      case False
      then show ?thesis using that(1) d Cons by (simp add: handle_risk_decision_event_def)
    next
      case v: True
      have c: "can_transition VALIDATING ?t" by (simp add: can_transition_def)
      show ?thesis
      proof (cases "save_broker_order_with_transition env 0 0
          (ord\<lparr>bo_status := ?t, bo_status_message := rd_reason d\<rparr>) (Some (bo_status ord)) ?t (rd_reason d) (Some ORDER_STATE) db")
        case (Inl e)
        then show ?thesis using that(1) d Cons v c
          by (simp add: handle_risk_decision_event_def Let_def validate_transition_def)
      next
        case (Inr db')
        then show ?thesis using that(2)[OF d ord(1) v ord(2)] d Cons v c
          by (simp add: handle_risk_decision_event_def Let_def validate_transition_def)
      qed
    qed
  qed
qed

lemma broker_event_cases:
  obtains "oc_state (handle_broker_order_event env ev db) = db"
  | ord u t where "ev_payload ev = StatusPayload u" "get_order_by_client_id (su_client_order_id u) db = Some ord"
      "t = broker_target_state (to_upper (su_status u)) (su_filled_quantity u) (bo_status ord)"
      "t = bo_status ord \<or> can_transition (bo_status ord) t"
      "save_broker_order_with_transition env 0 0 (reconciled_order u t ord) (Some (bo_status ord)) t
         (Some [Txt (''Broker reconciliation: '' @ to_upper (su_status u))]) (Some ORDER_STATE) db
       = Inr (oc_state (handle_broker_order_event env ev db))"
proof (cases "\<exists>u. ev_payload ev = StatusPayload u")
  case False
  then have "oc_state (handle_broker_order_event env ev db) = db"
    by (cases "ev_payload ev") (simp_all add: handle_broker_order_event_def)
  then show ?thesis by (rule that(1))
next
  case True
  then obtain u where u: "ev_payload ev = StatusPayload u" ..
  show ?thesis
  proof (cases "get_order_by_client_id (su_client_order_id u) db")
    case None
    then show ?thesis using that(1) u by (simp add: handle_broker_order_event_def)
  next
    case (Some ord)
    define t where "t = broker_target_state (to_upper (su_status u)) (su_filled_quantity u) (bo_status ord)"
    show ?thesis
    proof (cases "(t = bo_status ord \<or> can_transition (bo_status ord) t) \<and> (t \<noteq> bo_status ord \<or> fill_changed u ord)")
      case False
      then have "oc_state (handle_broker_order_event env ev db) = db"
        using u Some by (auto simp: handle_broker_order_event_def Let_def t_def)
      then show ?thesis by (rule that(1))
    next
      case act: True
      show ?thesis
      proof (cases "save_broker_order_with_transition env 0 0 (reconciled_order u t ord) (Some (bo_status ord)) t
         (Some [Txt (''Broker reconciliation: '' @ to_upper (su_status u))]) (Some ORDER_STATE) db")
        case (Inl e)
        then have "oc_state (handle_broker_order_event env ev db) = db"
          using u Some act by (auto simp: handle_broker_order_event_def Let_def t_def)
        then show ?thesis by (rule that(1))
      next
        case (Inr db')
        moreover have "oc_state (handle_broker_order_event env ev db) = db'"
          using u Some act Inr by (auto simp: handle_broker_order_event_def Let_def t_def)
        ultimately show ?thesis using that(2)[OF u Some t_def] act by simp
      qed
    qed
  qed
qed

lemma reserve_cases:
  assumes "mark_order_submitting env oid db = Inr (r, db')"
  obtains "db' = db" "r = get_order_by_id oid db" "\<And>ord. r = Some ord \<Longrightarrow> bo_status ord \<noteq> APPROVED"
  | ord where "get_order_by_id oid db = Some ord" "bo_status ord = APPROVED"
      "r = Some (ord\<lparr>bo_status := SUBMITTING, bo_updated_at := clock env 0\<rparr>)"
      "save_broker_order_with_transition env 1 0 (ord\<lparr>bo_status := SUBMITTING, bo_updated_at := clock env 0\<rparr>)
         (Some (bo_status ord)) SUBMITTING (Some [Txt ''Execution service reserved broker submission'']) (Some ORDER_STATE) db
       = Inr db'"
  using assms
  by (auto simp: mark_order_submitting_def Let_def validate_transition_def split: option.splits if_splits sum.splits)

section \<open>Every operation keeps the invariant\<close>

lemma risk_event_inv:
  assumes inv: "oms_inv db"
  shows "oms_inv (oc_state (handle_risk_decision_event env ev db))"
    "oms_le db (oc_state (handle_risk_decision_event env ev db))"
proof -
  have "oms_inv (oc_state (handle_risk_decision_event env ev db))
      \<and> oms_le db (oc_state (handle_risk_decision_event env ev db))"
  proof (cases rule: risk_event_cases[of env ev db])
    case 1
    then show ?thesis using inv by simp
  next
    case (2 ord d)
    then show ?thesis
      using save_update_inv[OF inv oms_inv_get[OF inv 2(2)] 2(5)] oms_inv_remaining[OF inv 2(2)]
      by (auto simp: can_transition_def)
  qed
  then show "oms_inv (oc_state (handle_risk_decision_event env ev db))"
    "oms_le db (oc_state (handle_risk_decision_event env ev db))" by auto
qed

lemma broker_event_inv:
  assumes inv: "oms_inv db"
  shows "oms_inv (oc_state (handle_broker_order_event env ev db))"
    "oms_le db (oc_state (handle_broker_order_event env ev db))"
proof -
  have "oms_inv (oc_state (handle_broker_order_event env ev db))
      \<and> oms_le db (oc_state (handle_broker_order_event env ev db))"
  proof (cases rule: broker_event_cases[of env ev db])
    case 1
    then show ?thesis using inv by simp
  next
    case (2 ord u t)
    then have "ord \<in> set (od_orders db)" using get_order_client_in by blast
    then show ?thesis
      using save_update_inv[OF inv oms_inv_get[OF inv] 2(5)] 2(4) by auto
  qed
  then show "oms_inv (oc_state (handle_broker_order_event env ev db))"
    "oms_le db (oc_state (handle_broker_order_event env ev db))" by auto
qed

lemma reserve_inv:
  assumes inv: "oms_inv db" and r: "mark_order_submitting env oid db = Inr (r, db')"
  shows "oms_inv db' \<and> oms_le db db'"
  using r
proof (cases rule: reserve_cases)
  case 1
  then show ?thesis using inv by simp
next
  case (2 ord)
  then have "ord \<in> set (od_orders db)" "bo_order_id ord = oid"
    by (auto simp: get_order_by_id_def dest: row_get_Some)
  then show ?thesis
    using save_update_inv[OF inv oms_inv_get[OF inv] 2(4)] 2(2) oms_inv_remaining[OF inv]
    by (auto simp: can_transition_def)
qed

lemma outbox_pass_inv:
  assumes "oms_inv db"
  shows "oms_inv (oc_state (oms_outbox_pass env db)) \<and> oms_le db (oc_state (oms_outbox_pass env db))"
proof -
  obtain out rows where c: "outbox_cycle env (od_outbox db) = (out, rows)" by force
  then have "outbox_inv rows" using outbox_cycle_step(1)[OF _ c] assms by (simp add: oms_inv_def)
  then show ?thesis using assms c
    by (simp add: oms_outbox_pass_def oms_inv_def oms_le_def order_journal_def order_status_def get_order_by_id_def)
qed

lemma oms_step_inv:
  assumes "oms_inv db" "op_fresh env op db"
  shows "oms_inv (oms_step env op db) \<and> oms_le db (oms_step env op db)"
proof (cases op)
  case (CreateOrder intent)
  then show ?thesis using assms create_order_intent_inv[OF assms(1)] by (simp add: op_fresh_def)
next
  case (ReserveOrder oid)
  then show ?thesis using reserve_inv[OF assms(1)] assms(1)
    by (auto split: sum.split)
qed (use assms risk_event_inv broker_event_inv outbox_pass_inv in auto)

lemma oms_inv_empty: "oms_inv oms_empty"
  by (simp add: oms_inv_def oms_empty_def keys_distinct_def outbox_inv_def order_journal_def
      order_status_def get_order_by_id_def)

lemma oms_reachable_inv: "oms_reachable db \<Longrightarrow> oms_inv db"
  by (induction rule: oms_reachable.induct) (auto simp: oms_inv_empty oms_step_inv)


section \<open>Runs\<close>

fun oms_run :: "(env \<times> oms_op) list \<Rightarrow> oms_db \<Rightarrow> oms_db" where
  "oms_run [] db = db"
| "oms_run ((env, op) # ops) db = oms_run ops (oms_step env op db)"

fun run_fresh :: "(env \<times> oms_op) list \<Rightarrow> oms_db \<Rightarrow> bool" where
  "run_fresh [] db = True"
| "run_fresh ((env, op) # ops) db = (op_fresh env op db \<and> run_fresh ops (oms_step env op db))"

lemma oms_run_le:
  "oms_inv db \<Longrightarrow> run_fresh ops db \<Longrightarrow> oms_inv (oms_run ops db) \<and> oms_le db (oms_run ops db)"
proof (induction ops db rule: oms_run.induct)
  case (2 env op ops db)
  then have "oms_inv (oms_step env op db)" "oms_le db (oms_step env op db)"
    using oms_step_inv[of db env op] by auto
  then show ?case using 2 oms_le_trans by auto
qed simp

lemma oms_run_reachable: "oms_reachable db \<Longrightarrow> run_fresh ops db \<Longrightarrow> oms_reachable (oms_run ops db)"
  by (induction ops db rule: oms_run.induct) (auto intro: oms_reachable.step)

text \<open>The events of a journal that enter a state from another one: at most one per state, but partial fills.\<close>

definition entries :: "order_state \<Rightarrow> order_event list \<Rightarrow> order_event list" where
  "entries t es = filter (\<lambda>e. oe_to_state e = t \<and> oe_from_state e \<noteq> Some t) es"

lemma journal_path_reach:
  "journal_path (Some s) es (Some t) \<Longrightarrow> can_transition\<^sup>*\<^sup>* s t"
proof (induction es arbitrary: s)
  case (Cons e es)
  then have "can_transition\<^sup>*\<^sup>* s (oe_to_state e)" by auto
  with Cons show ?case by (meson journal_path.simps(2) rtranclp_trans)
qed simp

lemma journal_path_none_entry:
  "journal_path (Some s) es t \<Longrightarrow> order_rank u \<le> order_rank s \<Longrightarrow> entries u es = []"
proof (induction es arbitrary: s)
  case (Cons e es)
  then have st: "journal_step (Some s) (oe_to_state e)" "oe_from_state e = Some s" by auto
  then have "order_rank s < order_rank (oe_to_state e) \<or> oe_to_state e = s"
    using order_machine.climb by auto
  then have "\<not> (oe_to_state e = u \<and> oe_from_state e \<noteq> Some u)" "order_rank u \<le> order_rank (oe_to_state e)"
    using Cons.prems(2) st(2) by auto
  moreover have "entries u es = []"
    using Cons.IH[of "oe_to_state e"] Cons.prems(1) calculation(2) by simp
  ultimately show ?case by (simp add: entries_def)
qed (simp add: entries_def)

lemma journal_path_entry_once: "journal_path s es t \<Longrightarrow> length (entries u es) \<le> 1"
proof (induction es arbitrary: s)
  case (Cons e es)
  show ?case
  proof (cases "oe_to_state e = u")
    case True
    then have "entries u es = []" using Cons.prems journal_path_none_entry[of u es t u] by simp
    then show ?thesis by (simp add: entries_def)
  next
    case False
    then show ?thesis using Cons by (auto simp: entries_def)
  qed
qed (simp add: entries_def)

text \<open>An update of one stored order, seen through \<open>list_orders\<close>.\<close>

lemma save_list_orders:
  assumes "save_broker_order_with_transition env i j ord' f t r tp db = Inr db'"
    and "get_order_by_id (bo_order_id ord') db \<noteq> None"
  shows "list_orders n db' = row_update bo_order_id (bo_order_id ord')
    (\<lambda>old. merge_order old (order_row env i t ord')) (list_orders n db)"
  using assms(2) save_orderD(2)[OF assms(1)]
  by (auto simp: list_orders_def row_upsert_def get_order_by_id_def newest_row_update merge_order_def
      split: option.splits)


section \<open>A concrete run\<close>

text \<open>One order through creation, approval, reservation and two broker reports; the witnesses evaluate it.\<close>

definition demo_env :: "string \<Rightarrow> timestamp \<Rightarrow> env" where
  "demo_env tag t = \<lparr>clock = (\<lambda>i. t + int i), uuid = (\<lambda>i. tag @ show_nat i)\<rparr>"

definition demo_intent :: order_intent where
  "demo_intent = \<lparr>oi_intent_id = ''i1'', oi_correlation_id = ''c1'', oi_strategy_instance_id = None,
     oi_source = MANUAL, oi_instrument_id = ''NFO:NIFTY'', oi_symbol = ''NIFTY'', oi_side = BUY,
     oi_order_type = LIMIT, oi_quantity = 75, oi_price = Fin 100, oi_trigger_price = None,
     oi_product = OPTIONS, oi_time_in_force = DAY, oi_trading_mode = PAPER, oi_reduce_only = False,
     oi_created_at = 0\<rparr>"

definition demo_decision :: "bool \<Rightarrow> envelope" where
  "demo_decision b = \<lparr>ev_event_id = ''e1'', ev_topic = RISK_DECISION, ev_correlation_id = ''c1'',
     ev_payload = DecisionPayload \<lparr>rd_decision_id = ''d1'', rd_intent_id = ''i1'', rd_approved = b,
       rd_rule_name = None, rd_reason = None, rd_system_mode = NORMAL, rd_evaluated_at = 5\<rparr>\<rparr>"

definition demo_status :: "string \<Rightarrow> string \<Rightarrow> int \<Rightarrow> envelope" where
  "demo_status coid st qty = \<lparr>ev_event_id = ''e2'', ev_topic = BROKER_ORDER_EVENT, ev_correlation_id = ''c1'',
     ev_payload = StatusPayload \<lparr>su_client_order_id = coid, su_broker_order_id = Some ''B1'',
       su_status = st, su_filled_quantity = qty, su_average_price = Fin 100, su_message = None\<rparr>\<rparr>"

definition demo_ops :: "(env \<times> oms_op) list" where
  "demo_ops = [(demo_env ''a'' 10, CreateOrder demo_intent), (demo_env ''b'' 20, RiskEvent (demo_decision True)),
     (demo_env ''c'' 30, ReserveOrder ''a1''), (demo_env ''d'' 40, BrokerEvent (demo_status ''CL-A0'' ''open'' 25)),
     (demo_env ''e'' 50, BrokerEvent (demo_status ''CL-A0'' ''FILLED'' 75)), (demo_env ''f'' 60, OutboxPass)]"

definition demo_db :: "nat \<Rightarrow> oms_db" where
  "demo_db n = oms_run (take n demo_ops) oms_empty"

lemma demo_reachable:
  "oms_reachable (demo_db 1)" "oms_reachable (demo_db 2)" "oms_reachable (demo_db 3)" "oms_reachable (demo_db 5)"
  unfolding demo_db_def by (rule oms_run_reachable[OF oms_reachable.start]; code_simp)+

section \<open>Properties\<close>

text \<open>
  C11. In every reachable database the journal of an order is a path of the order machine from
  CREATED to the stored status: nothing reaches a status without a recorded, permitted step.
\<close>

theorem oms_status_is_journalled:
  "oms_reachable db \<Longrightarrow> get_order_by_id oid db = Some ord \<Longrightarrow>
   journal_path None (order_journal oid db) (Some (bo_status ord)) \<and>
   can_transition\<^sup>*\<^sup>* CREATED (bo_status ord)"
proof -
  assume r: "oms_reachable db" and g: "get_order_by_id oid db = Some ord"
  have p: "journal_path None (order_journal oid db) (Some (bo_status ord))"
    using oms_reachable_inv[OF r] g by (auto simp: oms_inv_def order_status_def dest: spec[of _ oid])
  then obtain e es where es: "order_journal oid db = e # es" by (cases "order_journal oid db") auto
  with p have "oe_to_state e = CREATED" "journal_path (Some CREATED) es (Some (bo_status ord))" by auto
  with p show ?thesis using journal_path_reach by blast
qed

theorem oms_status_is_journalled_witness:
  "\<exists>ord. get_order_by_id ''a1'' (demo_db 5) = Some ord \<and> bo_status ord = FILLED \<and>
     journal_path None (order_journal ''a1'' (demo_db 5)) (Some FILLED)"
proof -
  have "map_option bo_status (get_order_by_id ''a1'' (demo_db 5)) = Some FILLED" by code_simp
  then obtain ord where "get_order_by_id ''a1'' (demo_db 5) = Some ord" "bo_status ord = FILLED" by auto
  then show ?thesis using oms_status_is_journalled[OF demo_reachable(4), of "''a1''" ord] by auto
qed

text \<open>
  An order enters each status at most once in its whole history; in particular at most one
  recorded step reserves it for submission.
\<close>

theorem oms_reserved_once:
  "oms_reachable db \<Longrightarrow> length (entries t (order_journal oid db)) \<le> 1"
  using oms_reachable_inv[of db] journal_path_entry_once unfolding oms_inv_def by blast

theorem oms_reserved_once_witness:
  "length (entries SUBMITTING (order_journal ''a1'' (demo_db 5))) \<le> 1
   \<and> entries SUBMITTING (order_journal ''a1'' (demo_db 5)) \<noteq> []"
proof
  show "length (entries SUBMITTING (order_journal ''a1'' (demo_db 5))) \<le> 1"
    by (rule oms_reserved_once[OF demo_reachable(4)])
  show "entries SUBMITTING (order_journal ''a1'' (demo_db 5)) \<noteq> []" by code_simp
qed

text \<open>
  C12. However the service runs on, an order that reached a final status keeps it, and no order
  ever loses its identity, client order id, instrument, side, quantity or limit price.
\<close>

theorem oms_terminal_final:
  "oms_reachable db \<Longrightarrow> run_fresh ops db \<Longrightarrow> get_order_by_id oid db = Some a \<Longrightarrow>
   \<exists>b. get_order_by_id oid (oms_run ops db) = Some b \<and> order_succ a b
     \<and> (terminal (bo_status a) \<longrightarrow> bo_status b = bo_status a)"
proof -
  assume r: "oms_reachable db" "run_fresh ops db" and g: "get_order_by_id oid db = Some a"
  have "oms_le db (oms_run ops db)" using oms_run_le[OF oms_reachable_inv[OF r(1)] r(2)] ..
  then obtain b where b: "get_order_by_id oid (oms_run ops db) = Some b" "order_succ a b"
    using g by (auto simp: oms_le_def)
  moreover have "bo_status b = bo_status a" if "terminal (bo_status a)"
    using terminal_reach[OF _ that] b(2) by (simp add: order_succ_def)
  ultimately show ?thesis by blast
qed

theorem oms_terminal_final_witness:
  "\<exists>a b. get_order_by_id ''a1'' (demo_db 5) = Some a
     \<and> get_order_by_id ''a1'' (oms_run [(demo_env ''g'' 70, BrokerEvent (demo_status ''CL-A0'' ''CANCELLED'' 0))] (demo_db 5)) = Some b
     \<and> bo_status a = FILLED \<and> bo_status b = FILLED"
proof -
  let ?ops = "[(demo_env ''g'' 70, BrokerEvent (demo_status ''CL-A0'' ''CANCELLED'' 0))]"
  have "map_option bo_status (get_order_by_id ''a1'' (demo_db 5)) = Some FILLED" by code_simp
  then obtain a where a: "get_order_by_id ''a1'' (demo_db 5) = Some a" "bo_status a = FILLED" by auto
  have f: "run_fresh ?ops (demo_db 5)" by (simp add: op_fresh_def)
  show ?thesis using oms_terminal_final[OF demo_reachable(4) f a(1)] a by (auto simp: terminal_def)
qed

text \<open>
  Delivering a risk decision twice is delivering it once: after a delivery that did not raise,
  a second one changes nothing and commands nothing.
\<close>

theorem oms_decision_idempotent:
  "oc_raised (handle_risk_decision_event env ev db) = None \<Longrightarrow>
   handle_risk_decision_event env' ev (oc_state (handle_risk_decision_event env ev db))
     = ok (oc_state (handle_risk_decision_event env ev db)) []"
proof (cases "ev_payload ev")
  case (DecisionPayload d)
  assume nr: "oc_raised (handle_risk_decision_event env ev db) = None"
  let ?hits = "\<lambda>db. filter (\<lambda>o'. bo_intent_id o' = rd_intent_id d) (list_orders 50 db)"
  let ?t = "if rd_approved d then APPROVED else RISK_REJECTED"
  show ?thesis
  proof (cases "?hits db")
    case Nil
    then show ?thesis using DecisionPayload by (simp add: handle_risk_decision_event_def)
  next
    case (Cons ord rest)
    show ?thesis
    proof (cases "bo_status ord = VALIDATING")
      case False
      then show ?thesis using DecisionPayload Cons by (simp add: handle_risk_decision_event_def)
    next
      case v: True
      let ?u = "ord\<lparr>bo_status := ?t, bo_status_message := rd_reason d\<rparr>"
      have c: "can_transition VALIDATING ?t" by (simp add: can_transition_def)
      obtain db' where save: "save_broker_order_with_transition env 0 0 ?u (Some (bo_status ord)) ?t
          (rd_reason d) (Some ORDER_STATE) db = Inr db'" and st: "oc_state (handle_risk_decision_event env ev db) = db'"
        using nr DecisionPayload Cons v c
        by (auto simp: handle_risk_decision_event_def Let_def validate_transition_def split: sum.splits if_splits)
      have "ord \<in> set (?hits db)" using Cons by simp
      then have ex: "get_order_by_id (bo_order_id ord) db \<noteq> None"
        using list_orders_subset by (auto simp: get_order_by_id_def row_get_None_iff)
      let ?f = "\<lambda>x. if bo_order_id x = bo_order_id ord then merge_order x (order_row env 0 ?t ?u) else x"
      have "list_orders 50 db' = map ?f (list_orders 50 db)"
        using save_list_orders[OF save] ex by (simp add: row_update_def)
      then have "?hits db' = map ?f (?hits db)"
        by (simp add: filter_map o_def if_distrib cong: if_cong)
      then have "?hits db' = merge_order ord (order_row env 0 ?t ?u) # map ?f rest" using Cons by simp
      then show ?thesis using DecisionPayload st by (simp add: handle_risk_decision_event_def)
    qed
  qed
qed (simp_all add: handle_risk_decision_event_def)

theorem oms_decision_idempotent_witness:
  "oc_published (handle_risk_decision_event (demo_env ''b'' 20) (demo_decision True) (demo_db 1)) \<noteq> []
   \<and> oc_published (handle_risk_decision_event (demo_env ''x'' 90) (demo_decision True)
       (oc_state (handle_risk_decision_event (demo_env ''b'' 20) (demo_decision True) (demo_db 1)))) = []"
proof
  show "oc_published (handle_risk_decision_event (demo_env ''b'' 20) (demo_decision True) (demo_db 1)) \<noteq> []"
    by code_simp
  have "oc_raised (handle_risk_decision_event (demo_env ''b'' 20) (demo_decision True) (demo_db 1)) = None"
    by code_simp
  from oms_decision_idempotent[OF this, of "demo_env ''x'' 90"]
  show "oc_published (handle_risk_decision_event (demo_env ''x'' 90) (demo_decision True)
       (oc_state (handle_risk_decision_event (demo_env ''b'' 20) (demo_decision True) (demo_db 1)))) = []"
    by simp
qed

text \<open>
  C17. The OMS commands an execution only on an approving decision, for an order that was waiting
  for it and that the same handler moved to APPROVED.
\<close>

theorem oms_commands_only_approved:
  "oms_inv db \<Longrightarrow> env_out \<in> set (oc_published (handle_risk_decision_event env ev db)) \<Longrightarrow>
   \<exists>d (ord :: broker_order). ev_payload ev = DecisionPayload d \<and> rd_approved d
     \<and> env_out = \<lparr>ev_event_id = uuid env 1, ev_topic = EXECUTION_COMMAND,
          ev_correlation_id = ev_correlation_id ev,
          ev_payload = CommandPayload (bo_order_id ord) (bo_client_order_id ord)\<rparr>
     \<and> bo_intent_id ord = rd_intent_id d
     \<and> order_status (bo_order_id ord) db = Some VALIDATING
     \<and> order_status (bo_order_id ord) (oc_state (handle_risk_decision_event env ev db)) = Some APPROVED"
proof -
  assume inv: "oms_inv db" and pub: "env_out \<in> set (oc_published (handle_risk_decision_event env ev db))"
  obtain d where d: "ev_payload ev = DecisionPayload d"
    using pub by (cases "ev_payload ev") (auto simp: handle_risk_decision_event_def)
  let ?hits = "filter (\<lambda>o'. bo_intent_id o' = rd_intent_id d) (list_orders 50 db)"
  obtain ord rest where c: "?hits = ord # rest"
    using pub d by (cases ?hits) (auto simp: handle_risk_decision_event_def)
  then have "ord \<in> set ?hits" by simp
  then have ord: "ord \<in> set (od_orders db)" "bo_intent_id ord = rd_intent_id d"
    using list_orders_subset by auto
  have v: "bo_status ord = VALIDATING"
    using pub d c by (auto simp: handle_risk_decision_event_def split: if_splits)
  have ap: "rd_approved d" and out: "env_out = \<lparr>ev_event_id = uuid env 1, ev_topic = EXECUTION_COMMAND,
          ev_correlation_id = ev_correlation_id ev,
          ev_payload = CommandPayload (bo_order_id ord) (bo_client_order_id ord)\<rparr>"
    using pub d c v by (auto simp: handle_risk_decision_event_def Let_def split: option.splits sum.splits if_splits)
  obtain db' where save: "save_broker_order_with_transition env 0 0
      (ord\<lparr>bo_status := APPROVED, bo_status_message := rd_reason d\<rparr>) (Some (bo_status ord)) APPROVED
      (rd_reason d) (Some ORDER_STATE) db = Inr db'" and st: "oc_state (handle_risk_decision_event env ev db) = db'"
    using pub d c v ap by (auto simp: handle_risk_decision_event_def Let_def split: option.splits sum.splits if_splits)
  have "order_status (bo_order_id ord) db = Some VALIDATING"
    using oms_inv_get[OF inv ord(1)] v by (simp add: order_status_def)
  moreover have "order_status (bo_order_id ord) db' = Some APPROVED"
    by (simp add: save_order_status[OF save])
  ultimately show ?thesis
    using d ap out ord(2) st by (intro exI[of _ d] exI[of _ ord]) simp
qed

theorem oms_commands_only_approved_witness:
  "\<exists>d (ord :: broker_order). rd_approved d \<and> bo_intent_id ord = rd_intent_id d
     \<and> order_status (bo_order_id ord) (demo_db 1) = Some VALIDATING
     \<and> ev_payload (demo_decision True) = DecisionPayload d"
proof -
  let ?oc = "handle_risk_decision_event (demo_env ''b'' 20) (demo_decision True) (demo_db 1)"
  have "oc_published ?oc \<noteq> []" by code_simp
  then have "hd (oc_published ?oc) \<in> set (oc_published ?oc)" by simp
  from oms_commands_only_approved[OF oms_reachable_inv[OF demo_reachable(1)] this] show ?thesis by blast
qed

text \<open>
  A broker report about a known order, handled without an exception, leaves the order in the
  status the report asks for with the reported fill and the matching open quantity, or leaves the
  database as it was because the report brings nothing new; an illegal move raises and changes nothing.
\<close>

theorem oms_broker_report_effect:
  "ev_payload ev = StatusPayload u \<Longrightarrow> get_order_by_client_id (su_client_order_id u) db = Some ord \<Longrightarrow>
   oms_inv db \<Longrightarrow>
   (let t = broker_target_state (to_upper (su_status u)) (su_filled_quantity u) (bo_status ord);
        oc = handle_broker_order_event env ev db
    in if t \<noteq> bo_status ord \<and> \<not> can_transition (bo_status ord) t
       then oc = raised db [] (InvalidOrderStateTransitionError (bo_status ord) t [Txt (to_upper (su_status u))])
       else if t = bo_status ord \<and> \<not> fill_changed u ord then oc = ok db []
       else oc_raised oc = None \<longrightarrow> (\<exists>new. get_order_by_id (bo_order_id ord) (oc_state oc) = Some new
              \<and> bo_status new = t \<and> bo_filled_quantity new = su_filled_quantity u
              \<and> bo_remaining_quantity new = max 0 (bo_quantity ord - su_filled_quantity u)
              \<and> bo_quantity new = bo_quantity ord))"
proof -
  assume u: "ev_payload ev = StatusPayload u" and g: "get_order_by_client_id (su_client_order_id u) db = Some ord"
    and inv: "oms_inv db"
  let ?t = "broker_target_state (to_upper (su_status u)) (su_filled_quantity u) (bo_status ord)"
  have get: "get_order_by_id (bo_order_id ord) db = Some ord"
    using oms_inv_get[OF inv] get_order_client_in[OF g] by blast
  have stored: "\<exists>new. get_order_by_id (bo_order_id ord) db' = Some new
      \<and> bo_status new = ?t \<and> bo_filled_quantity new = su_filled_quantity u
      \<and> bo_remaining_quantity new = max 0 (bo_quantity ord - su_filled_quantity u) \<and> bo_quantity new = bo_quantity ord"
    if "save_broker_order_with_transition env 0 0 (reconciled_order u ?t ord) f ?t r tp db = Inr db'" for f r tp db'
    using save_order_get[OF that] get by (simp add: merge_order_def order_row_def reconciled_order_def)
  show ?thesis
    using u g stored
    by (auto simp: handle_broker_order_event_def Let_def split: sum.splits)
qed

theorem oms_broker_report_effect_witness:
  "\<exists>ord new. get_order_by_client_id ''CL-A0'' (demo_db 3) = Some ord
     \<and> get_order_by_id (bo_order_id ord) (oc_state (handle_broker_order_event (demo_env ''d'' 40)
          (demo_status ''CL-A0'' ''open'' 25) (demo_db 3))) = Some new
     \<and> bo_status new = PARTIALLY_FILLED \<and> bo_filled_quantity new = 25"
proof -
  let ?ev = "demo_status ''CL-A0'' ''open'' 25"
  have "map_option bo_status (get_order_by_client_id ''CL-A0'' (demo_db 3)) = Some SUBMITTING" by code_simp
  then obtain ord where ord: "get_order_by_client_id ''CL-A0'' (demo_db 3) = Some ord" "bo_status ord = SUBMITTING"
    by auto
  have nr: "oc_raised (handle_broker_order_event (demo_env ''d'' 40) ?ev (demo_db 3)) = None" by code_simp
  have p: "ev_payload ?ev = StatusPayload \<lparr>su_client_order_id = ''CL-A0'', su_broker_order_id = Some ''B1'',
       su_status = ''open'', su_filled_quantity = 25, su_average_price = Fin 100, su_message = None\<rparr>"
    by (simp add: demo_status_def)
  have t: "broker_target_state (to_upper ''open'') 25 SUBMITTING = PARTIALLY_FILLED"
    and c: "can_transition SUBMITTING PARTIALLY_FILLED" by code_simp+
  from oms_broker_report_effect[OF p _ oms_reachable_inv[OF demo_reachable(3)], of ord "demo_env ''d'' 40"] ord nr t c
  show ?thesis by (auto simp: Let_def)
qed

text \<open>
  Creating an order either commits everything and returns it VALIDATING, stored under its new
  identifier with the intent's terms and announced with one ORDER_INTENT envelope, or raises and
  announces nothing; a repeated intent id raises and leaves the database as it was.
\<close>

theorem oms_create_effect:
  "get_order_by_id (uuid env 1) db = None \<Longrightarrow>
   (case create_order_intent env intent db of
      (Some ord, oc) \<Rightarrow> oc_raised oc = None \<and> bo_status ord = VALIDATING
        \<and> bo_quantity ord = oi_quantity intent \<and> bo_remaining_quantity ord = oi_quantity intent
        \<and> bo_side ord = oi_side intent \<and> bo_trading_mode ord = oi_trading_mode intent
        \<and> order_status (uuid env 1) (oc_state oc) = Some VALIDATING
        \<and> map ev_payload (oc_published oc) = [IntentPayload intent]
    | (None, oc) \<Rightarrow> oc_raised oc \<noteq> None \<and> oc_published oc = [])
   \<and> (row_get oi_intent_id (oi_intent_id intent) (od_intents db) \<noteq> None \<longrightarrow>
      (\<exists>e. create_order_intent env intent db = (None, raised db [] (IntegrityError e))))"
proof -
  have c: "can_transition CREATED VALIDATING" by (simp add: can_transition_def)
  have "row_get oi_intent_id (oi_intent_id intent) (od_intents db) \<noteq> None \<Longrightarrow>
      \<exists>e. create_order_intent env intent db = (None, raised db [] (IntegrityError e))"
    by (auto simp: create_order_intent_def save_order_intent_def row_insert_def Let_def)
  moreover have "case create_order_intent env intent db of
      (Some ord, oc) \<Rightarrow> oc_raised oc = None \<and> bo_status ord = VALIDATING
        \<and> bo_quantity ord = oi_quantity intent \<and> bo_remaining_quantity ord = oi_quantity intent
        \<and> bo_side ord = oi_side intent \<and> bo_trading_mode ord = oi_trading_mode intent
        \<and> order_status (uuid env 1) (oc_state oc) = Some VALIDATING
        \<and> map ev_payload (oc_published oc) = [IntentPayload intent]
    | (None, oc) \<Rightarrow> oc_raised oc \<noteq> None \<and> oc_published oc = []"
    using c
    by (auto simp: create_order_intent_def Let_def validate_transition_def save_order_status initial_order_def
        split: sum.splits)
  ultimately show ?thesis by simp
qed

theorem oms_create_effect_witness:
  "\<exists>ord. fst (create_order_intent (demo_env ''a'' 10) demo_intent oms_empty) = Some ord
     \<and> bo_status ord = VALIDATING \<and> bo_quantity ord = 75"
proof -
  have f: "get_order_by_id (uuid (demo_env ''a'' 10) 1) oms_empty = None" by code_simp
  have "oc_raised (snd (create_order_intent (demo_env ''a'' 10) demo_intent oms_empty)) = None" by code_simp
  with oms_create_effect[OF f, of demo_intent] show ?thesis
    by (auto simp: demo_intent_def split: prod.splits option.splits)
qed

text \<open>
  The fill of an order is what the last report says, not the largest one seen: after a report of
  50 a late report of 25 lowers the stored fill and raises the open quantity.
\<close>

lemma oms_fill_can_shrink:
  "map_option (\<lambda>ord. (bo_status ord, bo_filled_quantity ord, bo_remaining_quantity ord))
     (get_order_by_id ''a1'' (oms_run
        (take 3 demo_ops @ [(demo_env ''d'' 40, BrokerEvent (demo_status ''CL-A0'' ''OPEN'' 50)),
           (demo_env ''e'' 50, BrokerEvent (demo_status ''CL-A0'' ''OPEN'' 25))]) oms_empty))
   = Some (PARTIALLY_FILLED, 25, 50)"
  by code_simp

end
