(* ===== verification/LiveGate.thy ===== *)
theory LiveGate imports Contracts begin

text \<open>
  The server-side gate of LIVE trading, \<^verbatim>\<open>services/risk/live_gate.py\<close>: the capability the
  settings configure, the authorization window a two-step confirmation opens, and the pending
  challenges.  \<open>uuid env i\<close> is the text of the \<open>i\<close>-th \<^verbatim>\<open>uuid.uuid4()\<close> of a call; the clock of a
  check is an argument.  The log lines are not modelled.
\<close>

section \<open>State and operations\<close>

record challenge =
  ch_challenge_token :: string
  ch_operator_id :: string
  ch_account_id :: string
  ch_duration_minutes :: int
  ch_expires_at :: timestamp

record live_gate =
  lg_configured_enabled :: bool
  lg_local_single_user_mode :: bool
  lg_authorized :: bool
  lg_expires_at :: "timestamp option"
  lg_allowed_accounts :: "string list"
  lg_pending_challenges :: "string \<rightharpoonup> challenge"

definition gate_init :: "bool \<Rightarrow> bool \<Rightarrow> string list \<Rightarrow> live_gate" where
  "gate_init live_trading_enabled local_single_user_mode live_allowed_accounts =
     \<lparr>lg_configured_enabled = live_trading_enabled, lg_local_single_user_mode = local_single_user_mode,
      lg_authorized = False, lg_expires_at = None, lg_allowed_accounts = live_allowed_accounts,
      lg_pending_challenges = Map.empty\<rparr>"

definition is_live_active :: "timestamp \<Rightarrow> live_gate \<Rightarrow> bool" where
  "is_live_active now g =
     (if lg_local_single_user_mode g then lg_configured_enabled g
      else if \<not> lg_configured_enabled g \<or> \<not> lg_authorized g then False
      else case lg_expires_at g of None \<Rightarrow> False | Some t \<Rightarrow> now < t)"

record live_status =
  ls_live_authorized :: bool
  ls_system_setting_enabled :: bool
  ls_local_single_user_mode :: bool
  ls_authorization_required :: bool
  ls_expires_at :: "timestamp option"
  ls_allowed_account_count :: nat
  ls_time_remaining_sec :: int

definition get_status :: "env \<Rightarrow> live_gate \<Rightarrow> live_status" where
  "get_status env g =
     (let active = is_live_active (clock env 0) g in
      \<lparr>ls_live_authorized = active, ls_system_setting_enabled = lg_configured_enabled g,
       ls_local_single_user_mode = lg_local_single_user_mode g,
       ls_authorization_required = (\<not> lg_local_single_user_mode g),
       ls_expires_at = lg_expires_at g,
       ls_allowed_account_count = card (set (lg_allowed_accounts g)),
       ls_time_remaining_sec = (case lg_expires_at g of
          Some t \<Rightarrow> if active then max 0 ((t - clock env 1) div seconds 1) else 0 | None \<Rightarrow> 0)\<rparr>)"

definition validate_live_order :: "timestamp \<Rightarrow> string \<Rightarrow> live_gate \<Rightarrow> bool \<times> string" where
  "validate_live_order now account_id g =
     (if \<not> is_live_active now g
      then (False, ''LIVE trading is not authorized or active window has expired.'')
      else if lg_allowed_accounts g \<noteq> [] \<and> account_id \<notin> set (lg_allowed_accounts g)
      then (False, ''Account '' @ [CHR 0x27] @ account_id @ [CHR 0x27] @ '' is not in the approved LIVE allowlist.'')
      else (True, if lg_local_single_user_mode g then ''Local single-user LIVE capability enabled'' else ''Authorized''))"

definition uuid_hex :: "nat \<Rightarrow> string \<Rightarrow> string" where
  "uuid_hex n u = to_upper (take n (filter (\<lambda>c. c \<noteq> CHR ''-'') u))"

definition challenge_id_of :: "env \<Rightarrow> string" where
  "challenge_id_of env = ''CHAL-'' @ uuid_hex 8 (uuid env 0)"

definition new_challenge :: "env \<Rightarrow> string \<Rightarrow> string \<Rightarrow> int \<Rightarrow> challenge" where
  "new_challenge env operator_id account_id duration_minutes =
     \<lparr>ch_challenge_token = ''CONFIRM-'' @ uuid_hex 6 (uuid env 1), ch_operator_id = operator_id,
      ch_account_id = account_id, ch_duration_minutes = min duration_minutes 480,
      ch_expires_at = clock env 0 + minutes 5\<rparr>"

definition request_activation_challenge ::
  "env \<Rightarrow> string \<Rightarrow> string \<Rightarrow> int \<Rightarrow> live_gate \<Rightarrow> (string \<times> string) option \<times> live_gate outcome" where
  "request_activation_challenge env operator_id account_id duration_minutes g =
     (if \<not> lg_configured_enabled g
      then (None, raised g [] (PermissionError ''LIVE_TRADING_ENABLED is false; server LIVE capability is disabled.''))
      else if account_id \<notin> set (lg_allowed_accounts g)
      then (None, raised g [] (PermissionError (''Account '' @ [CHR 0x27] @ account_id @ [CHR 0x27] @ '' is not in LIVE_ALLOWED_ACCOUNTS.'')))
      else (let cid = challenge_id_of env;
                c = new_challenge env operator_id account_id duration_minutes
            in (Some (cid, ch_challenge_token c),
                ok (g\<lparr>lg_pending_challenges := (lg_pending_challenges g)(cid \<mapsto> c)\<rparr>)
                   [\<lparr>ev_event_id = uuid env 2, ev_topic = AUDIT_EVENT, ev_correlation_id = uuid env 3,
                     ev_payload = AuditPayload ''LIVE_ACTIVATION_CHALLENGE_ISSUED''
                       [(''challenge_id'', AStr cid), (''operator_id'', AStr operator_id),
                        (''account_id'', AStr account_id), (''duration_minutes'', AInt duration_minutes)]\<rparr>])))"

definition drop_challenge :: "string \<Rightarrow> live_gate \<Rightarrow> live_gate" where
  "drop_challenge cid g = g\<lparr>lg_pending_challenges := (lg_pending_challenges g)(cid := None)\<rparr>"

definition confirm_activation ::
  "env \<Rightarrow> string \<Rightarrow> string \<Rightarrow> string \<Rightarrow> live_gate \<Rightarrow> bool \<times> live_gate outcome" where
  "confirm_activation env cid challenge_token operator_id g =
     (case lg_pending_challenges g cid of
        None \<Rightarrow> (False, ok g [])
      | Some c \<Rightarrow>
          if clock env 0 > ch_expires_at c then (False, ok (drop_challenge cid g) [])
          else if ch_challenge_token c \<noteq> strip challenge_token then (False, ok g [])
          else if ch_operator_id c \<noteq> operator_id then (False, ok g [])
          else if \<not> lg_configured_enabled g then (False, ok g [])
          else if ch_account_id c \<notin> set (lg_allowed_accounts g) then (False, ok g [])
          else (let until = clock env 1 + minutes (ch_duration_minutes c) in
            (True, ok (drop_challenge cid (g\<lparr>lg_authorized := True, lg_expires_at := Some until\<rparr>))
               [\<lparr>ev_event_id = uuid env 0, ev_topic = AUDIT_EVENT, ev_correlation_id = uuid env 1,
                 ev_payload = AuditPayload ''LIVE_MODE_ACTIVATED''
                   [(''operator_id'', AStr operator_id), (''account_id'', AStr (ch_account_id c)),
                    (''expires_at'', ATime until), (''duration_minutes'', AInt (ch_duration_minutes c))]\<rparr>])))"

definition revoke_live_mode :: "env \<Rightarrow> string \<Rightarrow> string \<Rightarrow> live_gate \<Rightarrow> live_gate outcome" where
  "revoke_live_mode env operator_id reason g =
     ok (g\<lparr>lg_authorized := False, lg_expires_at := None, lg_pending_challenges := Map.empty\<rparr>)
        [\<lparr>ev_event_id = uuid env 0, ev_topic = AUDIT_EVENT, ev_correlation_id = uuid env 1,
          ev_payload = AuditPayload ''LIVE_MODE_REVOKED''
            [(''operator_id'', AStr operator_id), (''reason'', AStr reason),
             (''revoked_at'', ATime (clock env 0))]\<rparr>]"

section \<open>Runs\<close>

datatype gate_op =
  RequestChallenge string string int
| ConfirmActivation string string string
| RevokeLive string string

fun gate_step :: "env \<Rightarrow> gate_op \<Rightarrow> live_gate \<Rightarrow> live_gate" where
  "gate_step env (RequestChallenge oper acc dur) g = oc_state (snd (request_activation_challenge env oper acc dur g))"
| "gate_step env (ConfirmActivation cid tok oper) g = oc_state (snd (confirm_activation env cid tok oper g))"
| "gate_step env (RevokeLive oper why) g = oc_state (revoke_live_mode env oper why g)"

definition gate_run :: "(env \<times> gate_op) list \<Rightarrow> live_gate \<Rightarrow> live_gate" where
  "gate_run ops g = foldl (\<lambda>g (env, op). gate_step env op g) g ops"

lemma gate_run_snoc [simp]: "gate_run (ops @ [(env, op)]) g = gate_step env op (gate_run ops g)"
  by (simp add: gate_run_def)

lemma gate_run_Nil [simp]: "gate_run [] g = g"
  by (simp add: gate_run_def)

lemma gate_step_config [simp]:
  "lg_configured_enabled (gate_step env op g) = lg_configured_enabled g"
  "lg_local_single_user_mode (gate_step env op g) = lg_local_single_user_mode g"
  "lg_allowed_accounts (gate_step env op g) = lg_allowed_accounts g"
  by (cases op; auto simp: request_activation_challenge_def confirm_activation_def revoke_live_mode_def
      drop_challenge_def Let_def split: option.splits)+

lemma gate_run_config [simp]:
  "lg_configured_enabled (gate_run ops g) = lg_configured_enabled g"
  "lg_local_single_user_mode (gate_run ops g) = lg_local_single_user_mode g"
  "lg_allowed_accounts (gate_run ops g) = lg_allowed_accounts g"
  by (induction ops rule: rev_induct) auto

text \<open>Where a pending challenge and an open window come from, in the history of a run.\<close>

definition requested :: "(env \<times> gate_op) list \<Rightarrow> string list \<Rightarrow> string \<Rightarrow> challenge \<Rightarrow> bool" where
  "requested ops allowed cid c \<longleftrightarrow>
     (\<exists>env oper acc dur. (env, RequestChallenge oper acc dur) \<in> set ops \<and> acc \<in> set allowed
        \<and> cid = challenge_id_of env \<and> c = new_challenge env oper acc dur)"

definition opened_by ::
  "(env \<times> gate_op) list \<Rightarrow> string list \<Rightarrow> timestamp \<Rightarrow> bool" where
  "opened_by ops allowed until \<longleftrightarrow>
     (\<exists>pre env cid tok oper post c. ops = pre @ (env, ConfirmActivation cid tok oper) # post
        \<and> (\<forall>(_, op) \<in> set post. \<forall>x y. op \<noteq> RevokeLive x y)
        \<and> requested pre allowed cid c \<and> strip tok = ch_challenge_token c \<and> oper = ch_operator_id c
        \<and> clock env 0 \<le> ch_expires_at c \<and> until = clock env 1 + minutes (ch_duration_minutes c))"

lemma requested_mono: "requested ops allowed cid c \<Longrightarrow> requested (ops @ ops') allowed cid c"
  by (auto simp: requested_def)

lemma opened_by_snoc:
  assumes "opened_by ops allowed t" "\<And>x y. op \<noteq> RevokeLive x y"
  shows "opened_by (ops @ [(env, op)]) allowed t"
proof -
  obtain pre env' cid tok oper post c where o: "ops = pre @ (env', ConfirmActivation cid tok oper) # post"
    "\<forall>(_, op) \<in> set post. \<forall>x y. op \<noteq> RevokeLive x y"
    "requested pre allowed cid c" "strip tok = ch_challenge_token c" "oper = ch_operator_id c"
    "clock env' 0 \<le> ch_expires_at c" "t = clock env' 1 + minutes (ch_duration_minutes c)"
    using assms(1) unfolding opened_by_def by blast
  moreover have "\<forall>(_, op') \<in> set (post @ [(env, op)]). \<forall>x y. op' \<noteq> RevokeLive x y"
    using o(2) assms(2) by auto
  ultimately show ?thesis unfolding opened_by_def
    by (intro exI[of _ pre] exI[of _ env'] exI[of _ cid] exI[of _ tok] exI[of _ oper]
        exI[of _ "post @ [(env, op)]"] exI[of _ c]) simp
qed

lemma gate_history:
  fixes en loc al defines "g0 \<equiv> gate_init en loc al"
  shows "(\<forall>cid c. lg_pending_challenges (gate_run ops g0) cid = Some c \<longrightarrow> requested ops al cid c)
    \<and> (lg_authorized (gate_run ops g0) \<longrightarrow>
         (\<exists>t. lg_expires_at (gate_run ops g0) = Some t \<and> opened_by ops al t))"
proof (induction ops rule: rev_induct)
  case Nil
  then show ?case by (simp add: g0_def gate_init_def)
next
  case (snoc x ops)
  obtain env op where x: "x = (env, op)" by force
  let ?g = "gate_run ops g0"
  have al: "lg_allowed_accounts ?g = al" by (simp add: g0_def gate_init_def)
  note IH1 = snoc.IH[THEN conjunct1, rule_format] and IH2 = snoc.IH[THEN conjunct2, rule_format]
  show ?case
  proof (cases op)
    case (RequestChallenge oper acc dur)
    have "requested (ops @ [(env, op)]) al (challenge_id_of env) (new_challenge env oper acc dur)" if "acc \<in> set al"
      using that unfolding requested_def RequestChallenge by auto
    then show ?thesis
      using x RequestChallenge IH1 IH2 al opened_by_snoc[of ops al _ op env] requested_mono
      by (fastforce simp: request_activation_challenge_def Let_def split: if_splits)
  next
    case (RevokeLive a b)
    then show ?thesis by (simp add: x revoke_live_mode_def)
  next
    case (ConfirmActivation cid tok oper)
    have opens: "opened_by (ops @ [(env, op)]) al (clock env 1 + minutes (ch_duration_minutes c))"
      if "lg_pending_challenges ?g cid = Some c" "strip tok = ch_challenge_token c" "oper = ch_operator_id c"
        "\<not> clock env 0 > ch_expires_at c" for c
      unfolding opened_by_def ConfirmActivation
      by (rule exI[of _ ops], rule exI[of _ env], rule exI[of _ cid], rule exI[of _ tok],
          rule exI[of _ oper], rule exI[of _ "[]"], rule exI[of _ c])
        (use that IH1 in auto)
    have keep: "opened_by (ops @ [(env, op)]) al t" if "opened_by ops al t" for t
      using opened_by_snoc[OF that] by (simp add: ConfirmActivation)
    show ?thesis
    proof (cases "lg_pending_challenges ?g cid")
      case None
      then show ?thesis using x ConfirmActivation IH1 IH2 keep requested_mono
        by (fastforce simp: confirm_activation_def)
    next
      case (Some c)
      have req: "requested (ops @ [(env, op)]) al cid' c'"
        if "lg_pending_challenges (gate_step env op ?g) cid' = Some c'" for cid' c'
        using that ConfirmActivation Some IH1 requested_mono
        by (auto simp: confirm_activation_def drop_challenge_def Let_def split: if_splits)
      have "\<exists>t. lg_expires_at (gate_step env op ?g) = Some t \<and> opened_by (ops @ [(env, op)]) al t"
        if "lg_authorized (gate_step env op ?g)"
        using that ConfirmActivation Some IH2 keep opens[OF Some]
        by (auto simp: confirm_activation_def drop_challenge_def Let_def split: if_splits)
      with req show ?thesis by (simp add: x)
    qed
  qed
qed

section \<open>Properties\<close>

definition demo_gate_env :: "timestamp \<Rightarrow> env" where
  "demo_gate_env t = \<lparr>clock = (\<lambda>i. t + int i), uuid = (\<lambda>i. ''abcd-'' @ replicate 8 (CHR ''7''))\<rparr>"

definition demo_gate_ops :: "(env \<times> gate_op) list" where
  "demo_gate_ops = [(demo_gate_env 0, RequestChallenge ''op'' ''ICICI_PRIMARY'' 900),
     (demo_gate_env (minutes 4), ConfirmActivation ''CHAL-ABCD7777'' '' CONFIRM-ABCD77 '' ''op'')]"

lemma demo_gate_active: "is_live_active (minutes 483) (gate_run demo_gate_ops (gate_init True False [''ICICI_PRIMARY'']))"
  by code_simp

text \<open>
  C9. Outside the local single-user mode LIVE is active only inside the window of a confirmation
  that was not revoked since: it quoted the token and the operator of a challenge requested
  earlier for an allowlisted account, within its five minutes, and the window lasts at most eight hours.
\<close>

theorem live_needs_two_steps:
  "is_live_active now (gate_run ops (gate_init en False al)) \<Longrightarrow>
   en \<and> (\<exists>pre env cid tok oper post c. ops = pre @ (env, ConfirmActivation cid tok oper) # post
        \<and> (\<forall>(_, op) \<in> set post. \<forall>x y. op \<noteq> RevokeLive x y)
        \<and> requested pre al cid c \<and> strip tok = ch_challenge_token c \<and> oper = ch_operator_id c
        \<and> clock env 0 \<le> ch_expires_at c
        \<and> now < clock env 1 + minutes (ch_duration_minutes c) \<and> ch_duration_minutes c \<le> 480)"
proof -
  assume act: "is_live_active now (gate_run ops (gate_init en False al))"
  let ?g = "gate_run ops (gate_init en False al)"
  have "lg_local_single_user_mode ?g = False" "lg_configured_enabled ?g = en" by (simp_all add: gate_init_def)
  with act obtain t where en: en and "lg_authorized ?g" "lg_expires_at ?g = Some t" and now: "now < t"
    by (auto simp: is_live_active_def split: option.splits if_splits)
  then have "opened_by ops al t" using gate_history[of ops en False al] by auto
  moreover have "ch_duration_minutes c \<le> 480" if "requested pre al cid c" for pre cid c
    using that by (auto simp: requested_def new_challenge_def)
  ultimately show ?thesis using en now unfolding opened_by_def by blast
qed

theorem live_needs_two_steps_witness:
  "\<exists>pre x post. demo_gate_ops = pre @ x # post \<and> (\<exists>cid c. requested pre [''ICICI_PRIMARY''] cid c)"
  using live_needs_two_steps[OF demo_gate_active] by blast

text \<open>
  A revocation is final until a new challenge is requested: from whatever state it is made,
  no later operation but a request-and-confirm makes LIVE active again.
\<close>

theorem live_revocation_sticks:
  "\<not> lg_local_single_user_mode g \<Longrightarrow> \<forall>(_, op) \<in> set ops. \<forall>a b c. op \<noteq> RequestChallenge a b c \<Longrightarrow>
   \<not> is_live_active now (gate_run ops (oc_state (revoke_live_mode env oper why g)))"
proof -
  assume l: "\<not> lg_local_single_user_mode g" and ops: "\<forall>(_, op) \<in> set ops. \<forall>a b c. op \<noteq> RequestChallenge a b c"
  let ?g = "oc_state (revoke_live_mode env oper why g)"
  have "\<not> lg_authorized (gate_run ops ?g) \<and> lg_pending_challenges (gate_run ops ?g) = Map.empty"
    using ops
  proof (induction ops rule: rev_induct)
    case (snoc x ops)
    obtain e op where x: "x = (e, op)" by force
    with snoc show ?case
      by (cases op) (auto simp: confirm_activation_def revoke_live_mode_def)
  qed (simp add: revoke_live_mode_def)
  moreover have "\<not> lg_local_single_user_mode (gate_run ops ?g)" using l by (simp add: revoke_live_mode_def)
  ultimately show ?thesis by (simp add: is_live_active_def)
qed

theorem live_revocation_sticks_witness:
  "\<not> is_live_active (minutes 6) (gate_run [(demo_gate_env (minutes 5), ConfirmActivation ''CHAL-ABCD7777'' ''CONFIRM-ABCD77'' ''op'')]
     (oc_state (revoke_live_mode (demo_gate_env (minutes 5)) ''op'' ''stop''
        (gate_run demo_gate_ops (gate_init True False [''ICICI_PRIMARY''])))))"
  by (rule live_revocation_sticks) (simp_all add: gate_init_def)

text \<open>
  A LIVE order passes the gate only with the capability configured, and, outside the local
  single-user mode, only for an account of the allowlist.
\<close>

theorem live_order_allowlisted:
  "fst (validate_live_order now acc (gate_run ops (gate_init en loc al))) \<Longrightarrow>
   en \<and> (loc \<or> acc \<in> set al) \<and> (al \<noteq> [] \<longrightarrow> acc \<in> set al)"
proof -
  assume v: "fst (validate_live_order now acc (gate_run ops (gate_init en loc al)))"
  let ?g = "gate_run ops (gate_init en loc al)"
  have c: "lg_local_single_user_mode ?g = loc" "lg_configured_enabled ?g = en" "lg_allowed_accounts ?g = al"
    by (simp_all add: gate_init_def)
  have act: "is_live_active now ?g" and a: "al = [] \<or> acc \<in> set al"
    using v c by (auto simp: validate_live_order_def split: if_splits)
  then have en using c by (auto simp: is_live_active_def split: if_splits)
  moreover have "al \<noteq> []" if "\<not> loc"
  proof -
    have "lg_authorized ?g" using act that c by (auto simp: is_live_active_def split: if_splits)
    then show ?thesis using gate_history[of ops en loc al] by (auto simp: opened_by_def requested_def)
  qed
  ultimately show ?thesis using a by auto
qed

theorem live_order_allowlisted_witness:
  "''ICICI_PRIMARY'' \<in> set [''ICICI_PRIMARY''] \<and>
   fst (validate_live_order (minutes 100) ''ICICI_PRIMARY'' (gate_run demo_gate_ops (gate_init True False [''ICICI_PRIMARY''])))"
proof -
  have v: "fst (validate_live_order (minutes 100) ''ICICI_PRIMARY'' (gate_run demo_gate_ops (gate_init True False [''ICICI_PRIMARY''])))"
    by code_simp
  show ?thesis using live_order_allowlisted[OF v] v by simp
qed

text \<open>In the local mode with an empty allowlist every account passes, whatever the module header says.\<close>

lemma live_local_mode_any_account:
  "fst (validate_live_order now acc (gate_run ops (gate_init True True [])))"
  by (simp add: validate_live_order_def is_live_active_def) (simp add: gate_init_def)

end
