(* ===== verification/Risk.thy ===== *)
theory Risk imports LiveGate Sqlite begin

text \<open>
  The pre-trade risk service: \<^verbatim>\<open>services/risk/repository.py\<close> (\<^verbatim>\<open>risk.db\<close>) and
  \<^verbatim>\<open>services/risk/service.py\<close>.  The replies of the collaborators a check consults (broker
  gateway, portfolio, broker session, execution feed, LIVE gate) are the record \<open>risk_world\<close>;
  the sequence of early returns of \<^verbatim>\<open>evaluate_intent\<close> is a chain of checks, each of which
  yields the rule and reason of its rejection.
\<close>

section \<open>The database and the service state\<close>

record kill_switch_event =
  kse_event_id :: string
  kse_action :: string
  kse_reason :: string
  kse_activated_by :: string
  kse_activated_at :: timestamp

record risk_state =
  rk_mode :: system_mode
  rk_kill_switch_events :: "kill_switch_event list"
  rk_decisions :: "risk_decision list"
  rk_outbox :: "outbox_row list"
  rk_recent_orders :: "message \<rightharpoonup> timestamp"

definition risk_init :: risk_state where
  "risk_init = \<lparr>rk_mode = NORMAL, rk_kill_switch_events = [], rk_decisions = [], rk_outbox = [],
     rk_recent_orders = Map.empty\<rparr>"

definition save_decision :: "risk_decision \<Rightarrow> topic option \<Rightarrow> risk_state \<Rightarrow> exn + risk_state" where
  "save_decision d outbox_topic s =
     (case row_insert rd_decision_id d (rk_decisions s) of
        None \<Rightarrow> Inl (IntegrityError ''risk_decisions.decision_id'')
      | Some ds \<Rightarrow>
          (case outbox_topic of
             None \<Rightarrow> Inr (s\<lparr>rk_decisions := ds\<rparr>)
           | Some tp \<Rightarrow>
               (case add_outbox_event (rd_decision_id d) tp (DecisionPayload d) (rd_evaluated_at d) (rk_outbox s) of
                  None \<Rightarrow> Inl (IntegrityError ''outbox_events.event_id'')
                | Some ob \<Rightarrow> Inr (s\<lparr>rk_decisions := ds, rk_outbox := ob\<rparr>))))"

definition get_decision_by_intent :: "string \<Rightarrow> risk_state \<Rightarrow> risk_decision option" where
  "get_decision_by_intent intent_id s =
     (case newest rd_evaluated_at 1 (filter (\<lambda>d. rd_intent_id d = intent_id) (rk_decisions s)) of
        [] \<Rightarrow> None | d # _ \<Rightarrow> Some d)"

definition record_kill_switch :: "env \<Rightarrow> string \<Rightarrow> string \<Rightarrow> string \<Rightarrow> risk_state \<Rightarrow> exn + risk_state" where
  "record_kill_switch env action reason activated_by s =
     (case row_insert kse_event_id
             \<lparr>kse_event_id = uuid env 0, kse_action = action, kse_reason = reason,
              kse_activated_by = activated_by, kse_activated_at = clock env 0\<rparr> (rk_kill_switch_events s) of
        None \<Rightarrow> Inl (IntegrityError ''kill_switch_events.event_id'')
      | Some es \<Rightarrow> Inr (s\<lparr>rk_kill_switch_events := es\<rparr>))"

section \<open>What an evaluation consults\<close>

text \<open>
  \<open>None\<close> is a collaborator that was not configured; a broker call that raises is the name of
  the exception's type (\<open>Inl\<close>).
\<close>

record broker_view =
  bv_active_broker_name :: string
  bv_positions :: "string + broker_position_response list"
  bv_funds :: "string + broker_funds"

record risk_world =
  rw_broker_gateway :: "broker_view option"
  rw_portfolio :: "(string \<Rightarrow> position option) option"
  rw_session :: "(bool \<times> string) option"
  rw_feed :: "(bool \<times> string list) option"
  rw_gate :: live_gate

record risk_config =
  rc_max_order_qty :: int
  rc_live_account_id :: string
  rc_live_max_order_notional :: pyfloat
  rc_live_max_open_positions :: int

definition risk_defaults :: risk_config where
  "risk_defaults = \<lparr>rc_max_order_qty = 1800, rc_live_account_id = ''ICICI_PRIMARY'',
     rc_live_max_order_notional = Fin 50000, rc_live_max_open_positions = 1\<rparr>"

section \<open>Contract identity\<close>

text \<open>
  The regular expression \<^verbatim>\<open>INST-(NIFTY|BANKNIFTY)-(\d{4}-\d{2}-\d{2})-(\d+(?:\.\d+)?)-(CE|PE)\<close>
  as a left to right matcher; on ASCII text it needs no backtracking.
\<close>

definition is_digit :: "char \<Rightarrow> bool" where
  "is_digit c = (48 \<le> (of_char c :: nat) \<and> (of_char c :: nat) \<le> 57)"

fun strip_prefix :: "string \<Rightarrow> string \<Rightarrow> string option" where
  "strip_prefix [] s = Some s"
| "strip_prefix (_ # _) [] = None"
| "strip_prefix (p # ps) (c # cs) = (if p = c then strip_prefix ps cs else None)"

fun match_shape :: "string \<Rightarrow> string \<Rightarrow> (string \<times> string) option" where
  "match_shape [] s = Some ([], s)"
| "match_shape (_ # _) [] = None"
| "match_shape (p # ps) (c # cs) =
     (if (if p = CHR ''d'' then is_digit c else c = p)
      then map_option (\<lambda>(m, r). (c # m, r)) (match_shape ps cs) else None)"

definition match_number :: "string \<Rightarrow> ((string \<times> string) \<times> string) option" where
  "match_number s =
     (let whole = takeWhile is_digit s; r = dropWhile is_digit s in
      if whole = [] then None else
      case r of
        CHR ''.'' # r' \<Rightarrow> if takeWhile is_digit r' = [] then None
                          else Some ((whole, takeWhile is_digit r'), dropWhile is_digit r')
      | _ \<Rightarrow> Some ((whole, []), r))"

definition decimal_value :: "string \<times> string \<Rightarrow> rat" where
  "decimal_value n = of_nat (read_nat (fst n)) + of_nat (read_nat (snd n)) / 10 ^ length (snd n)"

definition canonical_option_identity :: "string \<Rightarrow> (string \<times> string \<times> pyfloat \<times> string) option" where
  "canonical_option_identity instrument_id =
     (case strip_prefix ''INST-'' (to_upper instrument_id) of
        None \<Rightarrow> None
      | Some s \<Rightarrow>
          (case (case strip_prefix ''NIFTY-'' s of
                   Some r \<Rightarrow> Some (''NIFTY'', r)
                 | None \<Rightarrow> map_option (Pair ''BANKNIFTY'') (strip_prefix ''BANKNIFTY-'' s)) of
             None \<Rightarrow> None
           | Some (underlying, r) \<Rightarrow>
               (case match_shape ''dddd-dd-dd'' r of
                  None \<Rightarrow> None
                | Some (expiry, r) \<Rightarrow>
                    (case (case r of CHR ''-'' # r' \<Rightarrow> match_number r' | _ \<Rightarrow> None) of
                       None \<Rightarrow> None
                     | Some (n, r) \<Rightarrow>
                         if r = ''-CE'' then Some (underlying, expiry, flit (decimal_value n), ''CE'')
                         else if r = ''-PE'' then Some (underlying, expiry, flit (decimal_value n), ''PE'')
                         else None))))"

definition same_contract :: "string \<times> string \<times> pyfloat \<times> string \<Rightarrow> broker_position_response \<Rightarrow> bool" where
  "same_contract ident p =
     (case ident of (underlying, expiry, strike, right) \<Rightarrow>
        to_upper (bp_stock_code p) = underlying
      \<and> (case bp_strike_price p of None \<Rightarrow> False | Some k \<Rightarrow> flt (fabs (fsub k strike)) (flit (1 / 10 ^ 9)))
      \<and> to_upper (case bp_right p of None \<Rightarrow> [] | Some r \<Rightarrow> r)
          \<in> (if right = ''CE'' then {''CE'', ''CALL''} else {''PE'', ''PUT''})
      \<and> take 10 (case bp_expiry_date p of None \<Rightarrow> [] | Some e \<Rightarrow> e) = expiry)"

definition broker_held_quantity ::
  "string \<Rightarrow> order_intent \<Rightarrow> broker_position_response list \<Rightarrow> int option" where
  "broker_held_quantity active_broker_name intent positions =
     (if to_lower active_broker_name = ''breeze'' then
        (case canonical_option_identity (oi_instrument_id intent) of
           None \<Rightarrow> None
         | Some ident \<Rightarrow> Some (sum_list (map (\<lambda>p. max 0 (bp_quantity p)) (filter (same_contract ident) positions))))
      else Some (sum_list (map (\<lambda>p. max 0 (bp_quantity p))
             (filter (\<lambda>p. to_upper (bp_stock_code p) = to_upper (oi_symbol intent)) positions))))"

section \<open>The checks\<close>

type_synonym verdict = "(string \<times> message) option"

fun first_some :: "'a option list \<Rightarrow> 'a option" where
  "first_some [] = None"
| "first_some (None # xs) = first_some xs"
| "first_some (Some x # _) = Some x"

text \<open>\<^verbatim>\<open>sep.join(parts)\<close>.\<close>

fun str_join :: "string \<Rightarrow> string list \<Rightarrow> string" where
  "str_join sep [] = []"
| "str_join sep [p] = p"
| "str_join sep (p # ps) = p @ sep @ str_join sep ps"

definition is_reduce_only_exit :: "order_intent \<Rightarrow> bool" where
  "is_reduce_only_exit intent = (oi_reduce_only intent \<and> oi_side intent = SELL)"

definition check_side :: "order_intent \<Rightarrow> verdict" where
  "check_side intent =
     (if oi_reduce_only intent \<and> oi_side intent \<noteq> SELL
      then Some (''INVALID_REDUCE_ONLY'', [Txt ''Reduce-only orders must be SELL orders in the long-options execution model''])
      else if oi_trading_mode intent = LIVE \<and> oi_side intent = SELL \<and> \<not> is_reduce_only_exit intent
      then Some (''LIVE_NAKED_SELL_DISABLED'',
        [Txt ''LIVE SELL orders must be explicit reduce-only exits in the long-options execution model''])
      else None)"

text \<open>The quantity a reduce-only exit may close, or why it cannot be told.\<close>

definition held_quantity :: "risk_world \<Rightarrow> order_intent \<Rightarrow> message + int" where
  "held_quantity w intent =
     (if oi_trading_mode intent = LIVE then
        (case rw_broker_gateway w of
           None \<Rightarrow> Inl [Txt ''LIVE reduce-only exit rejected because broker position verification is unavailable'']
         | Some b \<Rightarrow>
             (case bv_positions b of
                Inl exc \<Rightarrow> Inl [Txt (''LIVE reduce-only exit rejected because broker positions could not be verified: '' @ exc)]
              | Inr ps \<Rightarrow>
                  (case broker_held_quantity (bv_active_broker_name b) intent ps of
                     None \<Rightarrow> Inl [Txt ''LIVE reduce-only exit rejected because exact broker contract identity could not be resolved'']
                   | Some q \<Rightarrow> Inr q)))
      else
        (case rw_portfolio w of
           None \<Rightarrow> Inl [Txt ''Reduce-only exit rejected because position service is unavailable'']
         | Some get_position \<Rightarrow>
             Inr (case get_position (oi_instrument_id intent) of None \<Rightarrow> 0 | Some p \<Rightarrow> po_quantity p)))"

definition check_reduce_only :: "risk_world \<Rightarrow> order_intent \<Rightarrow> verdict" where
  "check_reduce_only w intent =
     (if \<not> is_reduce_only_exit intent then None else
      case held_quantity w intent of
        Inl reason \<Rightarrow> Some (''REDUCE_ONLY_POSITION_UNVERIFIED'', reason)
      | Inr held \<Rightarrow>
          if held \<le> 0 \<or> oi_quantity intent > held
          then Some (''REDUCE_ONLY_QUANTITY_EXCEEDED'',
            [Txt (''Reduce-only exit quantity '' @ show_int (oi_quantity intent) @
                  '' exceeds verified long position '' @ show_int (max 0 held))])
          else None)"

definition live_entry :: "order_intent \<Rightarrow> bool" where
  "live_entry intent = (oi_trading_mode intent = LIVE \<and> \<not> is_reduce_only_exit intent)"

definition check_live_health :: "risk_world \<Rightarrow> order_intent \<Rightarrow> verdict" where
  "check_live_health w intent =
     (if \<not> live_entry intent then None else
      case rw_session w of
        None \<Rightarrow> Some (''LIVE_BROKER_SESSION_UNVERIFIED'',
          [Txt ''LIVE entry rejected because broker session health cannot be verified''])
      | Some (is_up, st) \<Rightarrow>
          if \<not> is_up then Some (''LIVE_BROKER_SESSION_DISCONNECTED'',
            [Txt (''LIVE entry rejected because broker session is not connected: '' @ st)])
          else
            (case rw_feed w of
               None \<Rightarrow> Some (''LIVE_MARKET_DATA_UNVERIFIED'',
                 [Txt ''LIVE entry rejected because execution feed health cannot be verified''])
             | Some (healthy, reasons) \<Rightarrow>
                 if \<not> healthy then Some (''LIVE_MARKET_DATA_STALE_OR_DOWN'',
                   [Txt (''LIVE entry rejected because execution feed is not healthy: '' @
                      str_join '';''  (if reasons = [] then [''UNKNOWN''] else reasons))])
                 else None))"

definition check_live_gate :: "risk_config \<Rightarrow> risk_world \<Rightarrow> timestamp \<Rightarrow> order_intent \<Rightarrow> verdict" where
  "check_live_gate c w now intent =
     (if \<not> live_entry intent then None else
      (case validate_live_order now (rc_live_account_id c) (rw_gate w) of (authorized, reason) \<Rightarrow>
         if \<not> authorized then Some (''LIVE_TRADING_NOT_AUTHORIZED'', [Txt (''LIVE order rejected: '' @ reason)])
         else None))"

definition check_system_mode :: "system_mode \<Rightarrow> order_intent \<Rightarrow> verdict" where
  "check_system_mode mode intent =
     (if mode \<in> {HALTED, EXIT_ONLY, ENTRY_BLOCKED} \<and> \<not> is_reduce_only_exit intent
      then Some (if mode = HALTED then ''SYSTEM_HALTED'' else if mode = EXIT_ONLY then ''EXIT_ONLY'' else ''ENTRY_BLOCKED'',
        [Txt (''System mode '' @ system_mode_value mode @ '' permits only explicit reduce-only exits'')])
      else None)"

definition check_terms :: "risk_config \<Rightarrow> order_intent \<Rightarrow> verdict" where
  "check_terms c intent =
     (let trigger = opt_or (oi_trigger_price intent) (Fin 0) in
      if oi_quantity intent \<le> 0 \<or> oi_quantity intent > rc_max_order_qty c
      then Some (''MAX_ORDER_QUANTITY'',
        [Txt (''Order quantity '' @ show_int (oi_quantity intent) @ '' violates limits (1 - '' @
              show_int (rc_max_order_qty c) @ '')'')])
      else if oi_trading_mode intent = LIVE \<and> oi_order_type intent = MARKET
      then Some (''LIVE_MARKET_ORDER_DISABLED'',
        [Txt ''LIVE market orders are disabled; use bounded LIMIT or STOP_LIMIT orders''])
      else if oi_order_type intent = STOP_LIMIT \<and> fle trigger (flit (5 / 100))
      then Some (''STOP_TRIGGER_INVALID'', [Txt ''STOP_LIMIT requires a positive trigger price''])
      else if oi_order_type intent = STOP_LIMIT
        \<and> ((oi_side intent = SELL \<and> flt trigger (oi_price intent))
           \<or> (oi_side intent = BUY \<and> flt (oi_price intent) trigger))
      then Some (''STOP_LIMIT_PRICE_INVALID'',
        [Txt ''SELL stop-limit requires limit <= trigger and BUY stop-limit requires limit >= trigger''])
      else if fle (oi_price intent) (flit (5 / 100))
      then Some (''PRICE_SANITY'',
        [Txt ''Order price '', Num (oi_price intent), Txt '' is invalid or below tick size''])
      else None)"

definition order_notional :: "order_intent \<Rightarrow> pyfloat" where
  "order_notional intent = fmul (oi_price intent) (fint (oi_quantity intent))"

definition check_live_exposure :: "risk_config \<Rightarrow> risk_world \<Rightarrow> order_intent \<Rightarrow> verdict" where
  "check_live_exposure c w intent =
     (if \<not> (live_entry intent \<and> oi_side intent = BUY) then None else
      case rw_broker_gateway w of
        None \<Rightarrow> Some (''LIVE_RISK_DEPENDENCY_UNAVAILABLE'',
          [Txt ''LIVE entry rejected because broker exposure/funds verification is unavailable''])
      | Some b \<Rightarrow>
          if flt (rc_live_max_order_notional c) (order_notional intent)
          then Some (''LIVE_ORDER_NOTIONAL_LIMIT'',
            [Txt ''LIVE order notional '', Num2 (order_notional intent), Txt '' exceeds limit '',
             Num2 (rc_live_max_order_notional c)])
          else
            (case bv_positions b of
               Inl exc \<Rightarrow> Some (''LIVE_POSITIONS_UNAVAILABLE'',
                 [Txt (''LIVE entry rejected because broker positions could not be verified: '' @ exc)])
             | Inr ps \<Rightarrow>
                 (let open_positions = int (length (filter (\<lambda>p. bp_quantity p > 0) ps)) in
                  if open_positions \<ge> rc_live_max_open_positions c
                  then Some (''LIVE_OPEN_POSITION_LIMIT'',
                    [Txt (''Open broker positions '' @ show_int open_positions @ '' reached LIVE limit '' @
                          show_int (rc_live_max_open_positions c))])
                  else
                    (case bv_funds b of
                       Inl exc \<Rightarrow> Some (''LIVE_FUNDS_UNAVAILABLE'',
                         [Txt (''LIVE entry rejected because broker funds could not be verified: '' @ exc)])
                     | Inr funds \<Rightarrow>
                         if flt (bf_available_margin funds) (order_notional intent)
                         then Some (''LIVE_INSUFFICIENT_MARGIN'',
                           [Txt ''Available broker margin '', Num2 (bf_available_margin funds),
                            Txt '' is below order notional '', Num2 (order_notional intent)])
                         else None))))"

definition dup_key :: "order_intent \<Rightarrow> message" where
  "dup_key intent = [Txt (oi_symbol intent @ '':'' @ side_value (oi_side intent) @ '':'' @
     show_int (oi_quantity intent) @ '':''), Num (oi_price intent)]"

definition check_duplicate :: "timestamp \<Rightarrow> risk_state \<Rightarrow> order_intent \<Rightarrow> verdict" where
  "check_duplicate now s intent =
     (case rk_recent_orders s (dup_key intent) of
        None \<Rightarrow> None
      | Some last_seen \<Rightarrow>
          if now - last_seen < seconds 1
          then Some (''DUPLICATE_ORDER_THROTTLE'', [Txt ''Identical order submitted within 1 second throttle window''])
          else None)"

text \<open>All but the last check, in the order of the code.\<close>

definition pre_checks :: "risk_config \<Rightarrow> risk_world \<Rightarrow> timestamp \<Rightarrow> system_mode \<Rightarrow> order_intent \<Rightarrow> verdict" where
  "pre_checks c w now mode intent = first_some
     [check_side intent, check_reduce_only w intent, check_live_health w intent,
      check_live_gate c w now intent, check_system_mode mode intent, check_terms c intent,
      check_live_exposure c w intent]"

section \<open>Operations\<close>

definition record_and_publish ::
  "env \<Rightarrow> order_intent \<Rightarrow> bool \<Rightarrow> string \<Rightarrow> message \<Rightarrow> system_mode \<Rightarrow> risk_state \<Rightarrow> risk_decision option \<times> risk_state outcome" where
  "record_and_publish env intent approved rule reason mode s =
     (let d = \<lparr>rd_decision_id = uuid env 0, rd_intent_id = oi_intent_id intent, rd_approved = approved,
               rd_rule_name = Some rule, rd_reason = Some reason, rd_system_mode = mode,
               rd_evaluated_at = clock env 2\<rparr>
      in case save_decision d (Some RISK_DECISION) s of
           Inl e \<Rightarrow> (None, raised s [] e)
         | Inr s' \<Rightarrow> (Some d, ok s'
             [\<lparr>ev_event_id = uuid env 1, ev_topic = RISK_DECISION,
               ev_correlation_id = oi_correlation_id intent, ev_payload = DecisionPayload d\<rparr>]))"

text \<open>\<open>clock env 0\<close> is the reading of the LIVE gate, \<open>clock env 1\<close> that of the throttle.\<close>

definition evaluate_intent ::
  "risk_config \<Rightarrow> risk_world \<Rightarrow> env \<Rightarrow> order_intent \<Rightarrow> risk_state \<Rightarrow> risk_decision option \<times> risk_state outcome" where
  "evaluate_intent c w env intent s =
     (case pre_checks c w (clock env 0) (rk_mode s) intent of
        Some (rule, reason) \<Rightarrow> record_and_publish env intent False rule reason (rk_mode s) s
      | None \<Rightarrow>
          (case check_duplicate (clock env 1) s intent of
             Some (rule, reason) \<Rightarrow> record_and_publish env intent False rule reason (rk_mode s) s
           | None \<Rightarrow>
               record_and_publish env intent True ''ALL_CHECKS_PASSED'' [Txt ''Pre-trade risk criteria satisfied'']
                 (rk_mode s) (s\<lparr>rk_recent_orders := (rk_recent_orders s)(dup_key intent \<mapsto> clock env 1)\<rparr>)))"

definition handle_order_intent_event ::
  "risk_config \<Rightarrow> risk_world \<Rightarrow> env \<Rightarrow> envelope \<Rightarrow> risk_state \<Rightarrow> risk_state outcome" where
  "handle_order_intent_event c w env ev s =
     (case ev_payload ev of
        IntentPayload intent \<Rightarrow>
          (case get_decision_by_intent (oi_intent_id intent) s of
             Some d \<Rightarrow> ok s [\<lparr>ev_event_id = uuid env 0, ev_topic = RISK_DECISION,
                               ev_correlation_id = oi_correlation_id intent, ev_payload = DecisionPayload d\<rparr>]
           | None \<Rightarrow> snd (evaluate_intent c w env intent s))
      | _ \<Rightarrow> raised s [] (ValueError ''OrderIntent''))"

definition kill_switch_mode :: "string \<Rightarrow> system_mode \<Rightarrow> system_mode" where
  "kill_switch_mode action mode =
     (if action = ''BLOCK_ENTRIES'' then ENTRY_BLOCKED else if action = ''HALT'' then HALTED
      else if action = ''EXIT_ONLY'' then EXIT_ONLY else mode)"

definition trigger_kill_switch :: "env \<Rightarrow> string \<Rightarrow> string \<Rightarrow> string \<Rightarrow> risk_state \<Rightarrow> risk_state outcome" where
  "trigger_kill_switch env action reason activated_by s =
     (let s1 = s\<lparr>rk_mode := kill_switch_mode action (rk_mode s)\<rparr> in
      case record_kill_switch env action reason activated_by s1 of
        Inl e \<Rightarrow> raised s1 [] e
      | Inr s2 \<Rightarrow> ok s2
          [\<lparr>ev_event_id = uuid env 1, ev_topic = AUDIT_EVENT, ev_correlation_id = uuid env 2,
            ev_payload = AuditPayload ''KILL_SWITCH_ENABLED''
              [(''action'', AStr action), (''reason'', AStr reason), (''activated_by'', AStr activated_by)]\<rparr>])"

definition risk_set_system_mode :: "env \<Rightarrow> system_mode \<Rightarrow> risk_state \<Rightarrow> risk_state outcome" where
  "risk_set_system_mode env mode s = ok (s\<lparr>rk_mode := mode\<rparr>)
     [\<lparr>ev_event_id = uuid env 0, ev_topic = AUDIT_EVENT, ev_correlation_id = uuid env 1,
       ev_payload = AuditPayload ''SYSTEM_MODE_CHANGED'' [(''new_mode'', AStr (system_mode_value mode))]\<rparr>]"

definition risk_outbox_pass :: "env \<Rightarrow> risk_state \<Rightarrow> risk_state outcome" where
  "risk_outbox_pass env s =
     (let (out, rows) = outbox_cycle env (rk_outbox s) in ok (s\<lparr>rk_outbox := rows\<rparr>) out)"

section \<open>Runs\<close>

datatype risk_op =
  IntentEvent risk_world envelope
| KillSwitch string string string
| SetMode system_mode
| RiskOutboxPass

fun risk_step :: "risk_config \<Rightarrow> env \<Rightarrow> risk_op \<Rightarrow> risk_state \<Rightarrow> risk_state outcome" where
  "risk_step c env (IntentEvent w ev) s = handle_order_intent_event c w env ev s"
| "risk_step c env (KillSwitch a r b) s = trigger_kill_switch env a r b s"
| "risk_step c env (SetMode m) s = risk_set_system_mode env m s"
| "risk_step c env RiskOutboxPass s = risk_outbox_pass env s"

fun risk_run :: "risk_config \<Rightarrow> (env \<times> risk_op) list \<Rightarrow> risk_state \<Rightarrow> risk_state" where
  "risk_run c [] s = s"
| "risk_run c ((env, op) # ops) s = risk_run c ops (oc_state (risk_step c env op s))"

section \<open>Lemmas\<close>

lemma first_some_None [simp]: "first_some xs = None \<longleftrightarrow> (\<forall>x \<in> set xs. x = None)"
  by (induction xs rule: first_some.induct) auto

lemma save_decision_effect:
  "save_decision d tp s = Inr s' \<Longrightarrow> rk_decisions s' = rk_decisions s @ [d] \<and> rk_mode s' = rk_mode s
     \<and> rk_recent_orders s' = rk_recent_orders s"
  by (auto simp: save_decision_def row_insert_def split: option.splits if_splits)

text \<open>What an evaluation leaves behind.\<close>

lemma record_effect:
  assumes "record_and_publish env intent a rule reason mode s = (Some d, oc)"
  shows "rk_decisions (oc_state oc) = rk_decisions s @ [d]" "rk_mode (oc_state oc) = rk_mode s"
    "rk_recent_orders (oc_state oc) = rk_recent_orders s"
    "rd_approved d = a" "rd_intent_id d = oi_intent_id intent" "map ev_payload (oc_published oc) = [DecisionPayload d]"
    "oc_raised oc = None"
  using assms by (auto simp: record_and_publish_def Let_def split: sum.splits dest: save_decision_effect)

lemma record_failed:
  assumes "record_and_publish env intent a rule reason mode s = (None, oc)"
  shows "oc_state oc = s" "oc_published oc = []" "oc_raised oc \<noteq> None"
  using assms by (auto simp: record_and_publish_def Let_def split: sum.splits)

lemma evaluate_cases:
  obtains (rejected) rule reason where
      "pre_checks c w (clock env 0) (rk_mode s) intent = Some (rule, reason)
       \<or> pre_checks c w (clock env 0) (rk_mode s) intent = None \<and> check_duplicate (clock env 1) s intent = Some (rule, reason)"
      "evaluate_intent c w env intent s = record_and_publish env intent False rule reason (rk_mode s) s"
  | (approved) "pre_checks c w (clock env 0) (rk_mode s) intent = None" "check_duplicate (clock env 1) s intent = None"
      "evaluate_intent c w env intent s = record_and_publish env intent True ''ALL_CHECKS_PASSED''
         [Txt ''Pre-trade risk criteria satisfied''] (rk_mode s)
         (s\<lparr>rk_recent_orders := (rk_recent_orders s)(dup_key intent \<mapsto> clock env 1)\<rparr>)"
proof (cases "pre_checks c w (clock env 0) (rk_mode s) intent")
  case (Some v)
  then show ?thesis using rejected[of "fst v" "snd v"] by (cases v) (simp add: evaluate_intent_def)
next
  case None
  then show ?thesis using rejected approved
    by (cases "check_duplicate (clock env 1) s intent") (auto simp: evaluate_intent_def)
qed

lemma evaluate_effect:
  assumes "evaluate_intent c w env intent s = (Some d, oc)"
  shows "rk_decisions (oc_state oc) = rk_decisions s @ [d]" "rk_mode (oc_state oc) = rk_mode s"
    "rd_intent_id d = oi_intent_id intent" "map ev_payload (oc_published oc) = [DecisionPayload d]"
    "oc_raised oc = None"
    "rd_approved d \<longleftrightarrow> pre_checks c w (clock env 0) (rk_mode s) intent = None
        \<and> check_duplicate (clock env 1) s intent = None"
    "rd_approved d \<Longrightarrow> rk_recent_orders (oc_state oc) (dup_key intent) = Some (clock env 1)"
  using assms
  by (cases rule: evaluate_cases[of c w env s intent]; auto dest: record_effect)+

lemma evaluate_failed:
  assumes "evaluate_intent c w env intent s = (None, oc)"
  shows "rk_decisions (oc_state oc) = rk_decisions s" "rk_mode (oc_state oc) = rk_mode s"
    "oc_published oc = []" "oc_raised oc \<noteq> None"
  using assms
  by (cases rule: evaluate_cases[of c w env s intent]; auto dest: record_failed)+

lemma get_decision_None_iff:
  "get_decision_by_intent i s = None \<longleftrightarrow> (\<forall>d \<in> set (rk_decisions s). rd_intent_id d \<noteq> i)"
proof -
  have "sort_key f xs = [] \<longleftrightarrow> xs = []" for f :: "risk_decision \<Rightarrow> int" and xs
    by (metis set_empty set_sort)
  then have "newest rd_evaluated_at 1 xs = [] \<longleftrightarrow> xs = []" for xs :: "risk_decision list"
    by (simp add: newest_def)
  from this[of "filter (\<lambda>d. rd_intent_id d = i) (rk_decisions s)"] show ?thesis
    by (auto simp: get_decision_by_intent_def filter_empty_conv split: list.splits)
qed

lemma get_decision_snoc:
  assumes "get_decision_by_intent (rd_intent_id d) s = None" "rk_decisions s' = rk_decisions s @ [d]"
  shows "get_decision_by_intent (rd_intent_id d) s' = Some d"
proof -
  have "filter (\<lambda>x. rd_intent_id x = rd_intent_id d) (rk_decisions s) = []"
    using assms(1) by (simp add: get_decision_None_iff filter_empty_conv)
  then show ?thesis by (simp add: get_decision_by_intent_def assms(2) newest_def)
qed

text \<open>The effect of every operation on the decisions and on the mode.\<close>

lemma risk_step_decisions:
  "(\<exists>d. get_decision_by_intent (rd_intent_id d) s = None
      \<and> rk_decisions (oc_state (risk_step c env op s)) = rk_decisions s @ [d])
   \<or> rk_decisions (oc_state (risk_step c env op s)) = rk_decisions s"
proof (cases op)
  case (IntentEvent w ev)
  show ?thesis
  proof (cases "\<exists>i. ev_payload ev = IntentPayload i \<and> get_decision_by_intent (oi_intent_id i) s = None")
    case True
    then obtain i where i: "ev_payload ev = IntentPayload i" "get_decision_by_intent (oi_intent_id i) s = None" by blast
    then have st: "oc_state (risk_step c env op s) = oc_state (snd (evaluate_intent c w env i s))"
      by (simp add: IntentEvent handle_order_intent_event_def)
    obtain r oc where e: "evaluate_intent c w env i s = (r, oc)" by force
    show ?thesis
    proof (cases r)
      case None
      then show ?thesis using e st evaluate_failed(1) by auto
    next
      case (Some d)
      with e have "evaluate_intent c w env i s = (Some d, oc)" by simp
      from evaluate_effect(1,3)[OF this] i(2) e st show ?thesis by auto
    qed
  next
    case False
    then have "oc_state (risk_step c env op s) = s"
      by (auto simp: IntentEvent handle_order_intent_event_def split: payload.splits option.splits)
    then show ?thesis by simp
  qed
qed (auto simp: trigger_kill_switch_def record_kill_switch_def risk_set_system_mode_def risk_outbox_pass_def
    Let_def split: sum.splits option.splits prod.splits)

lemma kill_mode: "rk_mode (oc_state (trigger_kill_switch env a r b s)) = kill_switch_mode a (rk_mode s)"
  by (auto simp: trigger_kill_switch_def record_kill_switch_def Let_def split: sum.splits option.splits)

lemma risk_step_mode:
  assumes "rk_mode s \<noteq> NORMAL" "\<And>m. op \<noteq> SetMode m"
  shows "rk_mode (oc_state (risk_step c env op s)) \<noteq> NORMAL"
proof (cases op)
  case (IntentEvent w ev)
  have "rk_mode (oc_state (snd (evaluate_intent c w env i s))) = rk_mode s" for i
    using evaluate_effect(2) evaluate_failed(2) by (metis option.exhaust prod.collapse)
  then show ?thesis using assms(1)
    by (auto simp: IntentEvent handle_order_intent_event_def split: payload.splits option.splits)
next
  case (KillSwitch a r b)
  then show ?thesis using assms(1)
    by (simp add: kill_mode kill_switch_mode_def)
qed (use assms in \<open>auto simp: risk_outbox_pass_def split: prod.splits\<close>)

lemma risk_run_mode:
  "rk_mode s \<noteq> NORMAL \<Longrightarrow> (\<forall>(_, op) \<in> set ops. \<forall>m. op \<noteq> SetMode m) \<Longrightarrow> rk_mode (risk_run c ops s) \<noteq> NORMAL"
proof (induction c ops s rule: risk_run.induct)
  case (2 c env op ops s)
  from 2(3) have op: "\<And>m. op \<noteq> SetMode m" and ops: "\<forall>(_, op) \<in> set ops. \<forall>m. op \<noteq> SetMode m" by auto
  show ?case using 2(1)[OF risk_step_mode[OF 2(2) op] ops] by simp
qed simp

text \<open>What passing all checks means.\<close>

definition intent_admissible :: "risk_config \<Rightarrow> risk_world \<Rightarrow> timestamp \<Rightarrow> system_mode \<Rightarrow> order_intent \<Rightarrow> bool" where
  "intent_admissible c w now mode intent \<longleftrightarrow>
     1 \<le> oi_quantity intent \<and> oi_quantity intent \<le> rc_max_order_qty c
   \<and> \<not> fle (oi_price intent) (flit (5 / 100))
   \<and> (oi_reduce_only intent \<longrightarrow> oi_side intent = SELL
        \<and> (\<exists>h. held_quantity w intent = Inr h \<and> oi_quantity intent \<le> h))
   \<and> (mode \<noteq> NORMAL \<longrightarrow> is_reduce_only_exit intent)
   \<and> (oi_trading_mode intent = LIVE \<longrightarrow> oi_order_type intent \<noteq> MARKET
        \<and> (oi_side intent = SELL \<longrightarrow> oi_reduce_only intent))
   \<and> (oi_order_type intent = STOP_LIMIT \<longrightarrow>
        (let trigger = opt_or (oi_trigger_price intent) (Fin 0) in
           \<not> fle trigger (flit (5 / 100))
         \<and> (if oi_side intent = SELL then \<not> flt trigger (oi_price intent) else \<not> flt (oi_price intent) trigger)))
   \<and> (live_entry intent \<longrightarrow> oi_side intent = BUY \<and> fst (validate_live_order now (rc_live_account_id c) (rw_gate w))
        \<and> (\<exists>st why b ps f. rw_session w = Some (True, st) \<and> rw_feed w = Some (True, why)
             \<and> rw_broker_gateway w = Some b \<and> bv_positions b = Inr ps \<and> bv_funds b = Inr f
             \<and> \<not> flt (rc_live_max_order_notional c) (order_notional intent)
             \<and> int (length (filter (\<lambda>p. bp_quantity p > 0) ps)) < rc_live_max_open_positions c
             \<and> \<not> flt (bf_available_margin f) (order_notional intent)))"

lemma pre_checks_admissible:
  assumes "pre_checks c w now mode intent = None"
  shows "intent_admissible c w now mode intent"
proof -
  have c: "check_side intent = None" "check_reduce_only w intent = None" "check_live_health w intent = None"
    "check_live_gate c w now intent = None" "check_system_mode mode intent = None"
    "check_terms c intent = None" "check_live_exposure c w intent = None"
    using assms by (simp_all add: pre_checks_def)
  have side: "oi_reduce_only intent \<longrightarrow> oi_side intent = SELL"
    "oi_trading_mode intent = LIVE \<longrightarrow> oi_side intent = SELL \<longrightarrow> oi_reduce_only intent"
    using c(1) by (auto simp: check_side_def is_reduce_only_exit_def split: if_splits)
  have terms: "1 \<le> oi_quantity intent" "oi_quantity intent \<le> rc_max_order_qty c"
    "\<not> fle (oi_price intent) (flit (5 / 100))" "oi_trading_mode intent = LIVE \<longrightarrow> oi_order_type intent \<noteq> MARKET"
    using c(6) by (auto simp: check_terms_def Let_def split: if_splits)
  have stop: "oi_order_type intent = STOP_LIMIT \<longrightarrow> (let trigger = opt_or (oi_trigger_price intent) (Fin 0) in
      \<not> fle trigger (flit (5 / 100))
      \<and> (if oi_side intent = SELL then \<not> flt trigger (oi_price intent) else \<not> flt (oi_price intent) trigger))"
    using c(6) by (cases "oi_side intent") (auto simp: check_terms_def Let_def split: if_splits)
  have held: "oi_reduce_only intent \<longrightarrow> (\<exists>h. held_quantity w intent = Inr h \<and> oi_quantity intent \<le> h)"
    using c(2) side(1) by (auto simp: check_reduce_only_def is_reduce_only_exit_def split: sum.splits if_splits)
  have mode: "mode \<noteq> NORMAL \<longrightarrow> is_reduce_only_exit intent"
    using c(5) by (cases mode) (auto simp: check_system_mode_def split: if_splits)
  have buy: "live_entry intent \<longrightarrow> oi_side intent = BUY"
    using side by (cases "oi_side intent") (auto simp: live_entry_def is_reduce_only_exit_def)
  have gate: "live_entry intent \<longrightarrow> fst (validate_live_order now (rc_live_account_id c) (rw_gate w))"
    using c(4) by (auto simp: check_live_gate_def split: prod.splits if_splits)
  have health: "live_entry intent \<longrightarrow> (\<exists>st why. rw_session w = Some (True, st) \<and> rw_feed w = Some (True, why))"
    using c(3) by (auto simp: check_live_health_def split: option.splits prod.splits if_splits)
  have exposure: "live_entry intent \<longrightarrow> (\<exists>b ps f. rw_broker_gateway w = Some b \<and> bv_positions b = Inr ps \<and> bv_funds b = Inr f
      \<and> \<not> flt (rc_live_max_order_notional c) (order_notional intent)
      \<and> int (length (filter (\<lambda>p. bp_quantity p > 0) ps)) < rc_live_max_open_positions c
      \<and> \<not> flt (bf_available_margin f) (order_notional intent))"
    using c(7) buy by (auto simp: check_live_exposure_def Let_def split: option.splits sum.splits if_splits)
  show ?thesis unfolding intent_admissible_def
    using side terms held mode stop buy gate health exposure by blast
qed

section \<open>Properties\<close>

definition demo_limit_buy :: "trading_mode \<Rightarrow> pyfloat \<Rightarrow> order_intent" where
  "demo_limit_buy m price = \<lparr>oi_intent_id = ''i1'', oi_correlation_id = ''c1'', oi_strategy_instance_id = None,
     oi_source = MANUAL, oi_instrument_id = ''INST-NIFTY-2026-01-29-25000-CE'', oi_symbol = ''NIFTY'', oi_side = BUY,
     oi_order_type = LIMIT, oi_quantity = 75, oi_price = price, oi_trigger_price = None,
     oi_product = OPTIONS, oi_time_in_force = DAY, oi_trading_mode = m, oi_reduce_only = False,
     oi_created_at = 0\<rparr>"

definition demo_exit :: order_intent where
  "demo_exit = (demo_limit_buy LIVE (Fin 100))\<lparr>oi_side := SELL, oi_reduce_only := True\<rparr>"

definition demo_holding :: broker_position_response where
  "demo_holding = \<lparr>bp_stock_code = ''nifty'', bp_exchange_code = ''NFO'', bp_product_type = ''options'',
     bp_quantity = 75, bp_average_price = Fin 90, bp_ltp = Fin 100, bp_pnl = Fin 0,
     bp_strike_price = Some (Fin 25000), bp_right = Some ''call'', bp_expiry_date = Some ''2026-01-29T00:00:00''\<rparr>"

text \<open>A Breeze gateway holding the contract, a closed gate, a dead session and a dead feed.\<close>

definition demo_dark_world :: risk_world where
  "demo_dark_world = \<lparr>rw_broker_gateway = Some \<lparr>bv_active_broker_name = ''Breeze'',
       bv_positions = Inr [demo_holding], bv_funds = Inl ''ConnectionError''\<rparr>,
     rw_portfolio = None, rw_session = Some (False, ''EXPIRED''), rw_feed = None, rw_gate = gate_init False False []\<rparr>"

definition demo_risk_env :: "timestamp \<Rightarrow> string \<Rightarrow> env" where
  "demo_risk_env t tag = \<lparr>clock = (\<lambda>i. t + int i), uuid = (\<lambda>i. tag @ show_nat i)\<rparr>"

lemma tick_not_le [simp]: "\<not> fle (Fin 100) (flit (1 / 20))"
proof
  assume "fle (Fin 100) (flit (1 / 20))"
  moreover have "fle (flit (1 / 20)) (rnd 1)" unfolding flit_def by (rule rnd_mono) simp
  moreover have "rnd 1 = Fin 1" using rnd_of_int[of 1] by simp
  ultimately have "fle (Fin 100) (Fin 1)" using fle_trans by metis
  then show False by simp
qed

lemma strike_tolerance: "flt (fabs (fsub (Fin a) (Fin a))) (flit (1 / 10 ^ 9))"
proof -
  have "(2::rat) powi (- 30) \<le> 1 / 10 ^ 9" by (simp add: power_int_minus)
  then have "2 powi (- 30) \<le> fl (1 / 10 ^ 9)" using fl_mono[of "2 powi (- 30)" "1 / 10 ^ 9"] fl_fixed_pow2[of "- 30"] by simp
  moreover have "(0::rat) < 2 powi (- 30)" by simp
  ultimately have "0 < fl (1 / 10 ^ 9)" by linarith
  then show ?thesis using rnd_small[of "1 / 10 ^ 9"] by (simp add: fsub_def flit_def power_le_one)
qed

text \<open>The checks a reduce-only exit meets, and what happens when every check passes.\<close>

lemma pre_checks_exit:
  "is_reduce_only_exit intent \<Longrightarrow> held_quantity w intent = Inr h \<Longrightarrow> oi_quantity intent \<le> h \<Longrightarrow>
   check_terms c intent = None \<Longrightarrow> pre_checks c w now mode intent = None"
proof -
  assume a: "is_reduce_only_exit intent" "held_quantity w intent = Inr h" "oi_quantity intent \<le> h"
    and t: "check_terms c intent = None"
  have "0 < oi_quantity intent" using t by (auto simp: check_terms_def Let_def split: if_splits)
  then show ?thesis
    using a t by (auto simp: pre_checks_def check_side_def check_reduce_only_def is_reduce_only_exit_def
        check_live_health_def live_entry_def check_live_gate_def check_system_mode_def check_live_exposure_def)
qed

lemma evaluate_approved:
  assumes "pre_checks c w (clock env 0) (rk_mode s) intent = None" "check_duplicate (clock env 1) s intent = None"
    and "row_get rd_decision_id (uuid env 0) (rk_decisions s) = None" "row_get ob_event_id (uuid env 0) (rk_outbox s) = None"
  obtains d oc where "evaluate_intent c w env intent s = (Some d, oc)" "rd_approved d"
proof -
  have "fst (evaluate_intent c w env intent s) \<noteq> None"
    using assms by (simp add: evaluate_intent_def record_and_publish_def save_decision_def row_insert_def
        add_outbox_event_def Let_def)
  then obtain d oc where e: "evaluate_intent c w env intent s = (Some d, oc)"
    by (metis not_Some_eq prod.collapse)
  then show ?thesis using that evaluate_effect(6)[OF e] assms by blast
qed

text \<open>
  C3. An approved intent satisfies every limit: quantity and price bounds (for a STOP_LIMIT the tick
  bound of its trigger and the side of its limit price too), the reduce-only and
  long-only rules with the verified holding, the emergency mode, and for a LIVE entry the open
  gate, the connected session, the healthy feed, the notional, open-position and margin limits.
\<close>

theorem risk_approval_sound:
  "evaluate_intent c w env intent s = (Some d, oc) \<Longrightarrow> rd_approved d \<Longrightarrow>
   intent_admissible c w (clock env 0) (rk_mode s) intent
   \<and> (\<forall>t. rk_recent_orders s (dup_key intent) = Some t \<longrightarrow> seconds 1 \<le> clock env 1 - t)"
  using pre_checks_admissible evaluate_effect(6)[of c w env intent s d oc]
  by (auto simp: check_duplicate_def split: option.splits if_splits)

theorem risk_approval_sound_witness:
  "intent_admissible risk_defaults demo_dark_world 0 NORMAL (demo_limit_buy PAPER (Fin 100))"
proof -
  let ?i = "demo_limit_buy PAPER (Fin 100)"
  have pre: "pre_checks risk_defaults demo_dark_world (clock (demo_risk_env 0 ''a'') 0) (rk_mode risk_init) ?i = None"
    by (simp add: pre_checks_def demo_limit_buy_def check_side_def check_reduce_only_def is_reduce_only_exit_def
        check_live_health_def live_entry_def check_live_gate_def check_system_mode_def risk_init_def
        check_terms_def risk_defaults_def check_live_exposure_def)
  obtain d oc where e: "evaluate_intent risk_defaults demo_dark_world (demo_risk_env 0 ''a'') ?i risk_init = (Some d, oc)"
    and a: "rd_approved d"
    by (rule evaluate_approved[OF pre]) (simp_all add: check_duplicate_def risk_init_def)
  show ?thesis
    using risk_approval_sound[OF e a] by (simp add: demo_risk_env_def risk_init_def)
qed

text \<open>
  C13. After a kill switch (BLOCK_ENTRIES, HALT or EXIT_ONLY), whatever happens next short of an
  explicit mode change, the service approves nothing but explicit reduce-only SELL exits.
\<close>

theorem risk_kill_switch_blocks_entries:
  "action \<in> {''BLOCK_ENTRIES'', ''HALT'', ''EXIT_ONLY''} \<Longrightarrow> \<forall>(_, op) \<in> set ops. \<forall>m. op \<noteq> SetMode m \<Longrightarrow>
   evaluate_intent c w env intent (risk_run c ops (oc_state (trigger_kill_switch env0 action reason who s))) = (Some d, oc) \<Longrightarrow>
   rd_approved d \<Longrightarrow> is_reduce_only_exit intent"
proof -
  assume a: "action \<in> {''BLOCK_ENTRIES'', ''HALT'', ''EXIT_ONLY''}" and ops: "\<forall>(_, op) \<in> set ops. \<forall>m. op \<noteq> SetMode m"
  let ?s = "risk_run c ops (oc_state (trigger_kill_switch env0 action reason who s))"
  assume e: "evaluate_intent c w env intent ?s = (Some d, oc)" and d: "rd_approved d"
  have "rk_mode (oc_state (trigger_kill_switch env0 action reason who s)) \<noteq> NORMAL"
    using a by (auto simp: kill_mode kill_switch_mode_def)
  then have "rk_mode ?s \<noteq> NORMAL" using ops by (rule risk_run_mode)
  moreover have "pre_checks c w (clock env 0) (rk_mode ?s) intent = None" using evaluate_effect(6)[OF e] d by simp
  ultimately show ?thesis using pre_checks_admissible by (auto simp: intent_admissible_def)
qed

definition demo_halted :: risk_state where
  "demo_halted = oc_state (trigger_kill_switch (demo_risk_env 0 ''k'') ''HALT'' ''panic'' ''OPERATOR'' risk_init)"

lemma demo_exit_held: "held_quantity demo_dark_world demo_exit = Inr 75"
proof -
  have "canonical_option_identity ''INST-NIFTY-2026-01-29-25000-CE''
      = Some (''NIFTY'', ''2026-01-29'', flit (decimal_value (''25000'', [])), ''CE'')"
    by (simp add: canonical_option_identity_def to_upper_def match_number_def is_digit_def)
  moreover have "decimal_value (''25000'', []) = 25000" by (simp add: decimal_value_def read_nat_def)
  moreover have "flit 25000 = Fin 25000" using rnd_of_int[of 25000] by (simp add: flit_def)
  ultimately have ident: "canonical_option_identity ''INST-NIFTY-2026-01-29-25000-CE''
      = Some (''NIFTY'', ''2026-01-29'', Fin 25000, ''CE'')" by simp
  have up: "to_upper ''nifty'' = ''NIFTY''" "to_upper ''call'' = ''CALL''" "to_lower ''Breeze'' = ''breeze''"
    by code_simp+
  have "same_contract (''NIFTY'', ''2026-01-29'', Fin 25000, ''CE'') demo_holding"
    using strike_tolerance[of 25000] by (simp add: same_contract_def demo_holding_def up)
  then show ?thesis
    by (simp add: held_quantity_def demo_exit_def demo_limit_buy_def demo_dark_world_def broker_held_quantity_def
        ident up) (simp add: demo_holding_def)
qed

lemma demo_exit_terms: "check_terms risk_defaults demo_exit = None" "is_reduce_only_exit demo_exit" "oi_quantity demo_exit = 75"
  by (simp_all add: check_terms_def risk_defaults_def demo_exit_def demo_limit_buy_def is_reduce_only_exit_def)

lemma demo_halted_simps: "rk_decisions demo_halted = []" "rk_outbox demo_halted = []"
  "rk_recent_orders demo_halted = Map.empty" "rk_mode demo_halted = HALTED"
  by (simp_all add: demo_halted_def trigger_kill_switch_def record_kill_switch_def risk_init_def row_insert_def
      Let_def kill_switch_mode_def)

lemma demo_exit_approved:
  obtains d oc where "evaluate_intent risk_defaults demo_dark_world (demo_risk_env 9 ''a'') demo_exit demo_halted = (Some d, oc)"
    "rd_approved d"
proof (rule evaluate_approved[where c = risk_defaults and w = demo_dark_world and env = "demo_risk_env 9 ''a''"
      and intent = demo_exit and s = demo_halted])
  show "pre_checks risk_defaults demo_dark_world (clock (demo_risk_env 9 ''a'') 0) (rk_mode demo_halted) demo_exit = None"
    by (rule pre_checks_exit[OF demo_exit_terms(2) demo_exit_held _ demo_exit_terms(1)]) (simp add: demo_exit_terms)
qed (simp_all add: demo_halted_simps check_duplicate_def)

theorem risk_kill_switch_blocks_entries_witness: "is_reduce_only_exit demo_exit"
proof -
  obtain d oc where e: "evaluate_intent risk_defaults demo_dark_world (demo_risk_env 9 ''a'') demo_exit demo_halted = (Some d, oc)"
    "rd_approved d" by (rule demo_exit_approved)
  show ?thesis
    by (rule risk_kill_switch_blocks_entries[where action = "''HALT''" and ops = "[]" and c = risk_defaults
          and w = demo_dark_world and env = "demo_risk_env 9 ''a''" and d = d and oc = oc])
      (use e in \<open>simp_all add: demo_halted_def\<close>)
qed

text \<open>
  C14. A dead session, a dead feed, a closed gate, missing funds or an emergency mode never traps a
  position: in all of them a reduce-only exit within the verified holding is approved, provided it meets
  the order terms every intent must meet (order quantity, order type, price and stop rules), repeats no
  intent of the same second, and the identifier drawn for the decision is new.
\<close>

theorem risk_exit_not_trapped:
  "is_reduce_only_exit intent \<Longrightarrow> held_quantity w intent = Inr h \<Longrightarrow> oi_quantity intent \<le> h \<Longrightarrow>
   check_terms c intent = None \<Longrightarrow> check_duplicate (clock env 1) s intent = None \<Longrightarrow>
   row_get rd_decision_id (uuid env 0) (rk_decisions s) = None \<Longrightarrow> row_get ob_event_id (uuid env 0) (rk_outbox s) = None \<Longrightarrow>
   \<exists>d oc. evaluate_intent c w env intent s = (Some d, oc) \<and> rd_approved d
     \<and> map ev_payload (oc_published oc) = [DecisionPayload d]"
proof -
  assume a: "is_reduce_only_exit intent" "held_quantity w intent = Inr h" "oi_quantity intent \<le> h" "check_terms c intent = None"
    and f: "check_duplicate (clock env 1) s intent = None"
    "row_get rd_decision_id (uuid env 0) (rk_decisions s) = None" "row_get ob_event_id (uuid env 0) (rk_outbox s) = None"
  obtain d oc where "evaluate_intent c w env intent s = (Some d, oc)" "rd_approved d"
    using evaluate_approved[OF pre_checks_exit[OF a] f] by blast
  then show ?thesis using evaluate_effect(4) by blast
qed

theorem risk_exit_not_trapped_witness:
  "\<exists>d oc. evaluate_intent risk_defaults demo_dark_world (demo_risk_env 9 ''a'') demo_exit demo_halted = (Some d, oc)
     \<and> rd_approved d \<and> map ev_payload (oc_published oc) = [DecisionPayload d]"
  by (rule risk_exit_not_trapped[OF demo_exit_terms(2) demo_exit_held _ demo_exit_terms(1)])
    (simp_all add: demo_exit_terms demo_halted_simps check_duplicate_def)

text \<open>
  An order intent gets one decision: along any run from an empty database no two stored
  decisions are about the same intent, however often its event is delivered.
\<close>

theorem risk_one_decision_per_intent:
  "keys_distinct rd_intent_id (rk_decisions (risk_run c ops risk_init))"
proof -
  have "keys_distinct rd_intent_id (rk_decisions s) \<Longrightarrow> keys_distinct rd_intent_id (rk_decisions (risk_run c ops s))" for s
  proof (induction c ops s rule: risk_run.induct)
    case (2 c env op ops s)
    have "keys_distinct rd_intent_id (rk_decisions (oc_state (risk_step c env op s)))"
      using risk_step_decisions[of s c env op]
    proof (elim disjE exE conjE)
      fix d assume "get_decision_by_intent (rd_intent_id d) s = None"
        and "rk_decisions (oc_state (risk_step c env op s)) = rk_decisions s @ [d]"
      then show ?thesis using 2(2) by (force simp: keys_distinct_def get_decision_None_iff)
    qed (use 2(2) in simp)
    then show ?case using 2(1) by simp
  qed simp
  then show ?thesis by (simp add: risk_init_def keys_distinct_def)
qed

text \<open>
  A redelivered intent is answered with the stored decision and changes nothing, even when the
  rules, the collaborators' replies or the mode would now decide otherwise.
\<close>

theorem risk_redelivery_replays:
  "ev_payload ev = IntentPayload intent \<Longrightarrow> oc_raised (handle_order_intent_event c w env ev s) = None \<Longrightarrow>
   (let s1 = oc_state (handle_order_intent_event c w env ev s); again = handle_order_intent_event c' w' env' ev' s1
    in ev_payload ev' = IntentPayload intent \<longrightarrow>
       oc_state again = s1 \<and> oc_raised again = None
       \<and> map ev_payload (oc_published again) = map ev_payload (oc_published (handle_order_intent_event c w env ev s)))"
proof -
  assume p: "ev_payload ev = IntentPayload intent" and nr: "oc_raised (handle_order_intent_event c w env ev s) = None"
  show ?thesis
  proof (cases "get_decision_by_intent (oi_intent_id intent) s")
    case (Some d)
    then show ?thesis using p by (simp add: handle_order_intent_event_def Let_def)
  next
    case None
    obtain r oc where e: "evaluate_intent c w env intent s = (r, oc)" by force
    have h: "handle_order_intent_event c w env ev s = oc" using p None e by (simp add: handle_order_intent_event_def)
    obtain d where "r = Some d" using e nr h evaluate_failed(4) by (cases r) auto
    with e have e: "evaluate_intent c w env intent s = (Some d, oc)" by simp
    have i: "rd_intent_id d = oi_intent_id intent" by (rule evaluate_effect(3)[OF e])
    have "get_decision_by_intent (oi_intent_id intent) (oc_state oc) = Some d"
      using get_decision_snoc[of d s "oc_state oc"] None evaluate_effect(1)[OF e] i by simp
    then show ?thesis using h evaluate_effect(4)[OF e] by (simp add: handle_order_intent_event_def Let_def)
  qed
qed

definition demo_intent_event :: envelope where
  "demo_intent_event = \<lparr>ev_event_id = ''e'', ev_topic = ORDER_INTENT, ev_correlation_id = ''c1'',
     ev_payload = IntentPayload (demo_limit_buy LIVE (Fin 100))\<rparr>"

theorem risk_redelivery_replays_witness:
  "let s1 = oc_state (handle_order_intent_event risk_defaults demo_dark_world (demo_risk_env 0 ''a'') demo_intent_event demo_halted);
       again = handle_order_intent_event (risk_defaults\<lparr>rc_max_order_qty := 1\<rparr>) demo_dark_world (demo_risk_env 5 ''b'') demo_intent_event s1
   in oc_state again = s1"
proof -
  have p: "ev_payload demo_intent_event = IntentPayload (demo_limit_buy LIVE (Fin 100))" by (simp add: demo_intent_event_def)
  have "oc_raised (handle_order_intent_event risk_defaults demo_dark_world (demo_risk_env 0 ''a'') demo_intent_event demo_halted) = None"
    using get_decision_None_iff[of "''i1''" demo_halted]
    by (simp add: handle_order_intent_event_def demo_intent_event_def demo_halted_simps
        evaluate_intent_def pre_checks_def check_side_def demo_limit_buy_def check_reduce_only_def is_reduce_only_exit_def
        check_live_health_def live_entry_def demo_dark_world_def record_and_publish_def Let_def save_decision_def
        row_insert_def add_outbox_event_def)
  from risk_redelivery_replays[OF p this, of "risk_defaults\<lparr>rc_max_order_qty := 1\<rparr>" demo_dark_world
      "demo_risk_env 5 ''b''" demo_intent_event] p show ?thesis by (simp add: Let_def)
qed

text \<open>
  Within one second of an approval, an intent with the same symbol, side, quantity and price is
  never approved again.
\<close>

theorem risk_duplicate_throttled:
  "evaluate_intent c w env intent s = (Some d, oc) \<Longrightarrow> rd_approved d \<Longrightarrow> dup_key intent' = dup_key intent \<Longrightarrow>
   clock env' 1 - clock env 1 < seconds 1 \<Longrightarrow>
   evaluate_intent c' w' env' intent' (oc_state oc) = (Some d', oc') \<Longrightarrow> \<not> rd_approved d'"
  using evaluate_effect(6)[of c' w' env' intent' "oc_state oc" d' oc'] evaluate_effect(7)[of c w env intent s d oc]
  by (auto simp: check_duplicate_def)

theorem risk_duplicate_throttled_witness:
  "\<exists>d oc. evaluate_intent risk_defaults demo_dark_world (demo_risk_env 9 ''a'') demo_exit demo_halted = (Some d, oc)
     \<and> rd_approved d
     \<and> \<not> (\<exists>d' oc'. evaluate_intent risk_defaults demo_dark_world (demo_risk_env 999999 ''b'') demo_exit (oc_state oc) = (Some d', oc')
            \<and> rd_approved d')"
proof -
  obtain d oc where e: "evaluate_intent risk_defaults demo_dark_world (demo_risk_env 9 ''a'') demo_exit demo_halted = (Some d, oc)"
    "rd_approved d" by (rule demo_exit_approved)
  have t: "clock (demo_risk_env 999999 ''b'') 1 - clock (demo_risk_env 9 ''a'') 1 < seconds 1" by (simp add: demo_risk_env_def)
  show ?thesis using risk_duplicate_throttled[OF e refl t] e by blast
qed

text \<open>
  A NaN price passes every comparison: the PAPER order is approved although its price is no number
  (the OMS database refuses such an intent before it gets here).
\<close>

lemma risk_nan_price_passes: "pre_checks risk_defaults w now NORMAL (demo_limit_buy PAPER NaN) = None"
  by (simp add: pre_checks_def demo_limit_buy_def check_side_def check_reduce_only_def is_reduce_only_exit_def
      check_live_health_def live_entry_def check_live_gate_def check_system_mode_def
      check_terms_def risk_defaults_def check_live_exposure_def)

end
