(* ===== verification/Portfolio.thy ===== *)
theory Portfolio imports Contracts "HOL-Library.List_Lexorder" "HOL-Library.Char_ord" begin

text \<open>
  The portfolio: \<^verbatim>\<open>services/portfolio/repository.py\<close> (\<^verbatim>\<open>portfolio.db\<close>) and
  \<^verbatim>\<open>services/portfolio/service.py\<close>.  The locale \<open>fill_store\<close> is what the execution service
  relies on when it reports fills: an execution counts once, by its identifier.  Integer columns
  hold 64 bits; the quantities modelled are assumed to stay inside.
\<close>

section \<open>The database\<close>

record portfolio_db =
  pf_executions :: "execution list"
  pf_positions :: "position list"
  pf_snapshots :: "pnl_snapshot list"

definition portfolio_empty :: portfolio_db where
  "portfolio_empty = \<lparr>pf_executions = [], pf_positions = [], pf_snapshots = []\<rparr>"

definition get_position :: "string \<Rightarrow> portfolio_db \<Rightarrow> position option" where
  "get_position instrument_id db = row_get po_instrument_id instrument_id (pf_positions db)"

text \<open>\<^verbatim>\<open>REAL NOT NULL\<close> columns refuse a NaN.\<close>

definition position_reals :: "position \<Rightarrow> pyfloat list" where
  "position_reals p = [po_buy_value p, po_sell_value p, po_average_price p, po_current_price p,
     po_realized_pnl p, po_unrealized_pnl p, po_total_pnl p]"

definition merge_position :: "position \<Rightarrow> position \<Rightarrow> position" where
  "merge_position old new = new\<lparr>po_position_id := po_position_id old, po_instrument_id := po_instrument_id old\<rparr>"

text \<open>A quotient guarded by a positive divisor, as in \<^verbatim>\<open>buy_value / buy_quantity if buy_quantity > 0 else 0.0\<close>.\<close>

definition average :: "pyfloat \<Rightarrow> int \<Rightarrow> pyfloat" where
  "average value quantity =
     (if quantity > 0 then (case fdiv value (fint quantity) of None \<Rightarrow> NaN | Some a \<Rightarrow> a) else Fin 0)"

text \<open>The position after one fill; \<open>old\<close> is the stored row, if any.\<close>

definition filled_position ::
  "string \<Rightarrow> timestamp \<Rightarrow> execution \<Rightarrow> trading_mode \<Rightarrow> pyfloat \<Rightarrow> position option \<Rightarrow> position" where
  "filled_position new_id now e mode current_price old =
     (let value = fmul (fint (ex_quantity e)) (ex_price e);
          old_buy = (case old of None \<Rightarrow> (0, Fin 0) | Some p \<Rightarrow> (po_buy_quantity p, po_buy_value p));
          old_sell = (case old of None \<Rightarrow> (0, Fin 0) | Some p \<Rightarrow> (po_sell_quantity p, po_sell_value p));
          (buy_quantity, buy_value) = (if ex_side e = BUY
             then (fst old_buy + ex_quantity e, fadd (snd old_buy) value) else old_buy);
          (sell_quantity, sell_value) = (if ex_side e = BUY
             then old_sell else (fst old_sell + ex_quantity e, fadd (snd old_sell) value));
          net = buy_quantity - sell_quantity;
          average_price = average buy_value buy_quantity;
          closed = min buy_quantity sell_quantity;
          average_sell = average sell_value sell_quantity;
          realized = (if closed > 0 then fmul (fsub average_sell average_price) (fint closed) else Fin 0);
          unrealized = (if net \<noteq> 0 then fmul (fsub current_price average_price) (fint net) else Fin 0)
      in \<lparr>po_position_id = (case old of None \<Rightarrow> new_id | Some p \<Rightarrow> po_position_id p),
          po_instrument_id = ex_instrument_id e, po_symbol = ex_symbol e, po_quantity = net,
          po_buy_quantity = buy_quantity, po_sell_quantity = sell_quantity,
          po_buy_value = buy_value, po_sell_value = sell_value,
          po_average_price = fround 2 average_price, po_current_price = fround 2 current_price,
          po_realized_pnl = fround 2 realized, po_unrealized_pnl = fround 2 unrealized,
          po_total_pnl = fround 2 (fadd realized unrealized),
          po_trading_mode = mode, po_updated_at = now\<rparr>)"

definition apply_execution_atomic ::
  "string \<Rightarrow> timestamp \<Rightarrow> execution \<Rightarrow> trading_mode \<Rightarrow> pyfloat \<Rightarrow> portfolio_db \<Rightarrow> exn + ((position \<times> bool) \<times> portfolio_db)" where
  "apply_execution_atomic new_id now e mode current_price db =
     (let old = get_position (ex_instrument_id e) db in
      case row_insert ex_execution_id e (pf_executions db) of
        None \<Rightarrow> (case old of
             None \<Rightarrow> Inl (RuntimeError ''Execution exists but portfolio position is missing'')
           | Some p \<Rightarrow> Inr ((p, False), db))
      | Some executions \<Rightarrow>
          (let p = filled_position new_id now e mode current_price old in
           if NaN \<in> set (ex_price e # ex_fee e # position_reals p) then Inl (IntegrityError ''NOT NULL'')
           else if old = None \<and> row_get po_position_id new_id (pf_positions db) \<noteq> None
           then Inl (IntegrityError ''positions.position_id'')
           else Inr ((p, True), db\<lparr>pf_executions := executions,
                   pf_positions := row_upsert po_instrument_id merge_position p (pf_positions db)\<rparr>)))"

definition get_executed_quantity_for_order :: "string \<Rightarrow> portfolio_db \<Rightarrow> int" where
  "get_executed_quantity_for_order order_id db =
     sum_list (map ex_quantity (filter (\<lambda>e. ex_order_id e = order_id) (pf_executions db)))"

definition list_positions :: "portfolio_db \<Rightarrow> position list" where
  "list_positions db = sort_key po_symbol (pf_positions db)"

text \<open>
  \<^verbatim>\<open>save_position\<close>: \<^verbatim>\<open>INSERT OR REPLACE\<close> deletes every row with the same position or
  instrument id and appends the new one.
\<close>

definition save_position :: "position \<Rightarrow> portfolio_db \<Rightarrow> exn + portfolio_db" where
  "save_position p db =
     (if NaN \<in> set (position_reals p) then Inl (IntegrityError ''NOT NULL'')
      else Inr (db\<lparr>pf_positions :=
        row_delete po_instrument_id (po_instrument_id p)
          (row_delete po_position_id (po_position_id p) (pf_positions db)) @ [p]\<rparr>))"

definition save_pnl_snapshot :: "pnl_snapshot \<Rightarrow> portfolio_db \<Rightarrow> exn + portfolio_db" where
  "save_pnl_snapshot sn db =
     (if NaN \<in> {ps_realized_pnl sn, ps_unrealized_pnl sn, ps_total_pnl sn, ps_day_pnl sn}
      then Inl (IntegrityError ''NOT NULL'')
      else case row_insert ps_snapshot_id sn (pf_snapshots db) of
        None \<Rightarrow> Inl (IntegrityError ''pnl_snapshots.snapshot_id'')
      | Some sns \<Rightarrow> Inr (db\<lparr>pf_snapshots := sns\<rparr>))"

section \<open>The service\<close>

definition pnl_summary :: "string \<Rightarrow> timestamp \<Rightarrow> position list \<Rightarrow> pnl_snapshot" where
  "pnl_summary snapshot_id now positions =
     (let realized = py_sum (map po_realized_pnl positions);
          unrealized = py_sum (map po_unrealized_pnl (filter (\<lambda>p. po_quantity p \<noteq> 0) positions));
          total = fround 2 (fadd realized unrealized)
      in \<lparr>ps_snapshot_id = snapshot_id, ps_realized_pnl = fround 2 realized,
          ps_unrealized_pnl = fround 2 unrealized, ps_total_pnl = total, ps_day_pnl = total,
          ps_open_positions_count = length (filter (\<lambda>p. po_quantity p \<noteq> 0) positions),
          ps_timestamp = now\<rparr>)"

definition publish_pnl_snapshot :: "env \<Rightarrow> portfolio_db \<Rightarrow> portfolio_db outcome" where
  "publish_pnl_snapshot env db =
     (let sn = pnl_summary (uuid env 4) (clock env 2) (list_positions db) in
      case save_pnl_snapshot sn db of
        Inl e \<Rightarrow> raised db [] e
      | Inr db' \<Rightarrow> ok db' [\<lparr>ev_event_id = uuid env 5, ev_topic = PORTFOLIO_PNL,
          ev_correlation_id = uuid env 6, ev_payload = PnlPayload sn\<rparr>])"

definition fill_execution :: "env \<Rightarrow> trade_fill \<Rightarrow> execution" where
  "fill_execution env t =
     \<lparr>ex_execution_id = (case str_or (tf_execution_id t) (tf_broker_execution_id t) of
         None \<Rightarrow> uuid env 0 | Some i \<Rightarrow> if i = [] then uuid env 0 else i),
      ex_order_id = tf_order_id t, ex_broker_execution_id = tf_broker_execution_id t,
      ex_instrument_id = tf_instrument_id t, ex_symbol = tf_symbol t, ex_side = tf_side t,
      ex_quantity = tf_quantity t, ex_price = tf_price t, ex_fee = Fin 0, ex_execution_time = clock env 0\<rparr>"

text \<open>\<open>latest\<close> is \<^verbatim>\<open>market_data_service.get_latest_quote\<close>, \<open>None\<close> when no service is configured.\<close>

definition handle_trade_event ::
  "(string \<Rightarrow> quote option) option \<Rightarrow> env \<Rightarrow> envelope \<Rightarrow> portfolio_db \<Rightarrow> portfolio_db outcome" where
  "handle_trade_event latest env ev db =
     (case ev_payload ev of
        FillPayload t \<Rightarrow>
          (let current_price = (case latest of None \<Rightarrow> tf_price t | Some f \<Rightarrow>
                 (case f (tf_instrument_id t) of None \<Rightarrow> tf_price t | Some q \<Rightarrow> qt_last_price q))
           in case apply_execution_atomic (uuid env 1) (clock env 1) (fill_execution env t) (tf_trading_mode t) current_price db of
                Inl e \<Rightarrow> raised db [] e
              | Inr ((p, applied), db1) \<Rightarrow>
                  if \<not> applied then ok db1 [] else
                  (let posted = [\<lparr>ev_event_id = uuid env 2, ev_topic = PORTFOLIO_POSITION,
                         ev_correlation_id = uuid env 3, ev_payload = PositionPayload p\<rparr>];
                       snap = publish_pnl_snapshot env db1
                   in \<lparr>oc_state = oc_state snap, oc_published = posted @ oc_published snap, oc_raised = oc_raised snap\<rparr>))
      | _ \<Rightarrow> raised db [] (KeyError ''side''))"

definition marked_position :: "timestamp \<Rightarrow> pyfloat \<Rightarrow> position \<Rightarrow> position" where
  "marked_position now ltp p =
     (let unrealized = fmul (fsub ltp (po_average_price p)) (fint (po_quantity p)) in
      p\<lparr>po_current_price := ltp, po_unrealized_pnl := fround 2 unrealized,
        po_total_pnl := fround 2 (fadd (po_realized_pnl p) unrealized), po_updated_at := now\<rparr>)"

definition handle_market_quote :: "env \<Rightarrow> envelope \<Rightarrow> portfolio_db \<Rightarrow> portfolio_db outcome" where
  "handle_market_quote env ev db =
     (case ev_payload ev of
        QuotePayload q \<Rightarrow>
          (case get_position (qt_instrument_id q) db of
             None \<Rightarrow> ok db []
           | Some p \<Rightarrow>
               if po_quantity p = 0 then ok db []
               else case save_position (marked_position (clock env 0) (qt_last_price q) p) db of
                      Inl e \<Rightarrow> raised db [] e | Inr db' \<Rightarrow> ok db' [])
      | _ \<Rightarrow> raised db [] (KeyError ''instrument_id''))"

section \<open>Runs\<close>

datatype portfolio_op = TradeEvent "(string \<Rightarrow> quote option) option" envelope | QuoteEvent envelope

fun portfolio_step :: "env \<Rightarrow> portfolio_op \<Rightarrow> portfolio_db \<Rightarrow> portfolio_db outcome" where
  "portfolio_step env (TradeEvent latest ev) db = handle_trade_event latest env ev db"
| "portfolio_step env (QuoteEvent ev) db = handle_market_quote env ev db"

fun portfolio_run :: "(env \<times> portfolio_op) list \<Rightarrow> portfolio_db \<Rightarrow> portfolio_db" where
  "portfolio_run [] db = db"
| "portfolio_run ((env, op) # ops) db = portfolio_run ops (oc_state (portfolio_step env op db))"

section \<open>What a consumer of the ledger relies on\<close>

text \<open>
  A store of executions: putting one with a known identifier changes nothing, putting a new one
  adds its quantity to its order.
\<close>

locale fill_store =
  fixes eid :: "'e \<Rightarrow> string" and eord :: "'e \<Rightarrow> 'o" and eqty :: "'e \<Rightarrow> int"
    and ids :: "'db \<Rightarrow> string set" and executed :: "'o \<Rightarrow> 'db \<Rightarrow> int"
    and put :: "'e \<Rightarrow> 'db \<Rightarrow> 'db option"
  assumes put_known: "eid e \<in> ids db \<Longrightarrow> put e db = Some db' \<Longrightarrow> ids db' = ids db \<and> (\<forall>x. executed x db' = executed x db)"
    and put_new: "eid e \<notin> ids db \<Longrightarrow> put e db = Some db' \<Longrightarrow> ids db' = insert (eid e) (ids db)
       \<and> (\<forall>x. executed x db' = executed x db + (if x = eord e then eqty e else 0))"
begin

text \<open>A delivery that is repeated changes nothing.\<close>

lemma redeliver:
  assumes "put e db = Some db'" "eid e' = eid e" "put e' db' = Some db''"
  shows "executed x db'' = executed x db'"
proof -
  have "eid e \<in> ids db'"
  proof (cases "eid e \<in> ids db")
    case True
    then show ?thesis using put_known[OF True assms(1)] by blast
  next
    case False
    then show ?thesis using put_new[OF False assms(1)] by blast
  qed
  then have "eid e' \<in> ids db'" unfolding assms(2) .
  from put_known[OF this assms(3)] show ?thesis by blast
qed

end

text \<open>
  A reporter that labels the fill of an order by the cumulative quantity and sends the missing
  difference makes the store agree with the broker.
\<close>

locale cumulative_reporter = fill_store eid eord eqty ids executed put
  for eid :: "'e \<Rightarrow> string" and eord :: "'e \<Rightarrow> 'o" and eqty :: "'e \<Rightarrow> int"
    and ids :: "'db \<Rightarrow> string set" and executed :: "'o \<Rightarrow> 'db \<Rightarrow> int"
    and put :: "'e \<Rightarrow> 'db \<Rightarrow> 'db option" +
  fixes label :: "'o \<Rightarrow> int \<Rightarrow> string"
  assumes label_inj: "0 \<le> c \<Longrightarrow> 0 \<le> d \<Longrightarrow> label x c = label y d \<longleftrightarrow> x = y \<and> c = d"
begin

definition labelled :: "'o \<Rightarrow> 'db \<Rightarrow> bool" where
  "labelled x db \<longleftrightarrow> (\<forall>c \<ge> 0. label x c \<in> ids db \<longrightarrow> c \<le> executed x db)"

lemma deliver_delta:
  assumes "labelled x db" "eid e = label x c" "eord e = x" "eqty e = c - executed x db" "executed x db < c"
    and "put e db = Some db'" and c: "0 \<le> c"
  shows "executed x db' = c" "labelled x db'"
    and "y \<noteq> x \<Longrightarrow> executed y db' = executed y db" and "labelled y db \<Longrightarrow> labelled y db'"
proof -
  have "eid e \<notin> ids db" using assms(1,2,5) c by (auto simp: labelled_def)
  from put_new[OF this assms(6), unfolded assms(3,4)] have n: "ids db' = insert (eid e) (ids db)"
    "\<And>y. executed y db' = executed y db + (if y = x then c - executed x db else 0)"
    by blast+
  show e: "executed x db' = c" by (simp add: n(2))
  have new: "label z d \<in> ids db' \<longleftrightarrow> (z = x \<and> d = c) \<or> label z d \<in> ids db" if "0 \<le> d" for z d
    unfolding n(1) assms(2) insert_iff using label_inj[OF that c] by blast
  show l: "labelled x db'"
    unfolding labelled_def e
  proof (intro allI impI)
    fix d assume d: "0 \<le> d" "label x d \<in> ids db'"
    show "d \<le> c"
    proof (cases "d = c")
      case False
      then have "label x d \<in> ids db" using d(2) unfolding new[OF d(1)] by simp
      then have "d \<le> executed x db" using assms(1) d(1) unfolding labelled_def by blast
      then show ?thesis using assms(5) by linarith
    qed simp
  qed
  show o: "executed y db' = executed y db" if "y \<noteq> x" for y
    using that by (simp add: n(2))
  show "labelled y db'" if "labelled y db"
  proof (cases "y = x")
    case True
    then show ?thesis using l by simp
  next
    case False
    show ?thesis
      unfolding labelled_def o[OF False]
    proof (intro allI impI)
      fix d assume d: "0 \<le> d" "label y d \<in> ids db'"
      then have "label y d \<in> ids db" using False unfolding new[OF d(1)] by simp
      then show "d \<le> executed y db" using that d(1) unfolding labelled_def by blast
    qed
  qed
qed

end

section \<open>The ledger equation\<close>

definition bought :: "string \<Rightarrow> execution list \<Rightarrow> int" where
  "bought i es = sum_list (map ex_quantity (filter (\<lambda>e. ex_instrument_id e = i \<and> ex_side e = BUY) es))"

definition sold :: "string \<Rightarrow> execution list \<Rightarrow> int" where
  "sold i es = sum_list (map ex_quantity (filter (\<lambda>e. ex_instrument_id e = i \<and> ex_side e \<noteq> BUY) es))"

text \<open>
  A position holds exactly the executed quantities of its instrument; an instrument without a
  position has no execution.
\<close>

definition ledger_agrees :: "string \<Rightarrow> portfolio_db \<Rightarrow> bool" where
  "ledger_agrees i db \<longleftrightarrow>
     (case get_position i db of
        None \<Rightarrow> bought i (pf_executions db) = 0 \<and> sold i (pf_executions db) = 0
      | Some p \<Rightarrow> po_buy_quantity p = bought i (pf_executions db)
          \<and> po_sell_quantity p = sold i (pf_executions db)
          \<and> po_quantity p = bought i (pf_executions db) - sold i (pf_executions db))"

definition portfolio_inv :: "portfolio_db \<Rightarrow> bool" where
  "portfolio_inv db \<longleftrightarrow>
     keys_distinct ex_execution_id (pf_executions db) \<and> keys_distinct po_instrument_id (pf_positions db)
   \<and> keys_distinct po_position_id (pf_positions db) \<and> (\<forall>i. ledger_agrees i db)"

interpretation position_table: keyed_table po_instrument_id merge_position
  by unfold_locales (simp add: merge_position_def)

interpretation execution_table: keyed_table ex_execution_id "\<lambda>old new. old"
  by unfold_locales simp

lemma filled_position_simps [simp]:
  "po_instrument_id (filled_position i t e m c old) = ex_instrument_id e"
  "po_position_id (filled_position i t e m c old) = (case old of None \<Rightarrow> i | Some p \<Rightarrow> po_position_id p)"
  "po_buy_quantity (filled_position i t e m c old) =
     (case old of None \<Rightarrow> 0 | Some p \<Rightarrow> po_buy_quantity p) + (if ex_side e = BUY then ex_quantity e else 0)"
  "po_sell_quantity (filled_position i t e m c old) =
     (case old of None \<Rightarrow> 0 | Some p \<Rightarrow> po_sell_quantity p) + (if ex_side e = BUY then 0 else ex_quantity e)"
  "po_quantity (filled_position i t e m c old) =
     po_buy_quantity (filled_position i t e m c old) - po_sell_quantity (filled_position i t e m c old)"
  by (auto simp: filled_position_def Let_def split: option.splits)

lemma bought_snoc [simp]:
  "bought i (es @ [e]) = bought i es + (if ex_instrument_id e = i \<and> ex_side e = BUY then ex_quantity e else 0)"
  "sold i (es @ [e]) = sold i es + (if ex_instrument_id e = i \<and> ex_side e \<noteq> BUY then ex_quantity e else 0)"
  by (simp_all add: bought_def sold_def)

text \<open>The two outcomes of \<open>apply_execution_atomic\<close> that do not raise.\<close>

lemma apply_cases:
  assumes "apply_execution_atomic nid now e m c db = Inr ((p, applied), db')"
  obtains (known) "\<not> applied" "db' = db" "get_position (ex_instrument_id e) db = Some p"
      "ex_execution_id e \<in> ex_execution_id ` set (pf_executions db)"
  | (fresh) "applied" "p = filled_position nid now e m c (get_position (ex_instrument_id e) db)"
      "pf_executions db' = pf_executions db @ [e]"
      "ex_execution_id e \<notin> ex_execution_id ` set (pf_executions db)"
      "pf_positions db' = row_upsert po_instrument_id merge_position p (pf_positions db)"
      "get_position (ex_instrument_id e) db = None \<Longrightarrow> nid \<notin> po_position_id ` set (pf_positions db)"
      "NaN \<notin> set (position_reals p)"
proof (cases "row_get ex_execution_id (ex_execution_id e) (pf_executions db)")
  case None
  then show ?thesis using assms fresh
    by (auto simp: apply_execution_atomic_def row_insert_def Let_def row_get_None_iff split: if_splits)
next
  case (Some e')
  then have "ex_execution_id e \<in> ex_execution_id ` set (pf_executions db)"
    using row_get_None_iff by (metis option.distinct(1))
  then show ?thesis using assms known Some
    by (auto simp: apply_execution_atomic_def row_insert_def Let_def split: option.splits)
qed

lemma apply_get_position:
  assumes "apply_execution_atomic nid now e m c db = Inr ((p, applied), db')"
  shows "get_position i db' = (if i = ex_instrument_id e then Some p else get_position i db)"
  using assms
proof (cases rule: apply_cases)
  case known
  then show ?thesis by simp
next
  case fresh
  have same: "merge_position old p = p" if "get_position (ex_instrument_id e) db = Some old" for old
  proof -
    have "po_instrument_id old = ex_instrument_id e"
      using that unfolding get_position_def by (rule row_get_SomeD)
    then show ?thesis using that fresh(2) by (simp add: merge_position_def)
  qed
  have k: "po_instrument_id p = ex_instrument_id e" using fresh(2) by simp
  show ?thesis
    using position_table.get_upsert_same[of p "pf_positions db"] position_table.get_upsert_other[of i p "pf_positions db"] k same
    unfolding get_position_def fresh(5) by (auto split: option.splits)
qed

lemma upsert_position_ids:
  "map po_position_id (row_upsert po_instrument_id merge_position r rows) =
   (if po_instrument_id r \<in> po_instrument_id ` set rows then map po_position_id rows
    else map po_position_id rows @ [po_position_id r])"
proof (cases "row_get po_instrument_id (po_instrument_id r) rows")
  case None
  then show ?thesis by (auto simp: row_upsert_def row_get_None_iff)
next
  case (Some old)
  then have "po_instrument_id r \<in> po_instrument_id ` set rows" using row_get_None_iff by (metis option.distinct(1))
  moreover have "map po_position_id (row_update po_instrument_id k (\<lambda>old. merge_position old r) rows)
      = map po_position_id rows" for k
    by (induction rows) (auto simp: row_update_def merge_position_def)
  ultimately show ?thesis using Some by (simp add: row_upsert_def)
qed

lemma apply_inv:
  assumes inv: "portfolio_inv db" and a: "apply_execution_atomic nid now e m c db = Inr ((p, applied), db')"
  shows "portfolio_inv db'"
  using a
proof (cases rule: apply_cases)
  case known
  then show ?thesis using inv by simp
next
  case fresh
  have "keys_distinct ex_execution_id (pf_executions db')"
    using inv fresh(3,4) by (auto simp: portfolio_inv_def keys_distinct_def)
  moreover have "keys_distinct po_instrument_id (pf_positions db')"
    unfolding fresh(5) using inv by (intro position_table.distinct_upsert) (simp add: portfolio_inv_def)
  moreover have "keys_distinct po_position_id (pf_positions db')"
  proof (cases "get_position (ex_instrument_id e) db")
    case None
    then show ?thesis using inv fresh(2,6) unfolding keys_distinct_def fresh(5) upsert_position_ids
      by (auto simp: portfolio_inv_def keys_distinct_def)
  next
    case (Some old)
    then have "po_instrument_id p \<in> po_instrument_id ` set (pf_positions db)"
      using row_get_Some[of po_instrument_id "ex_instrument_id e" "pf_positions db" old] fresh(2)
      by (force simp: get_position_def)
    then show ?thesis using inv unfolding keys_distinct_def fresh(5) upsert_position_ids
      by (simp add: portfolio_inv_def keys_distinct_def)
  qed
  moreover have "ledger_agrees i db'" for i
  proof -
    have "ledger_agrees i db" "ledger_agrees (ex_instrument_id e) db" using inv by (simp_all add: portfolio_inv_def)
    then show ?thesis
      unfolding ledger_agrees_def apply_get_position[OF a] fresh(3)
      by (auto simp: fresh(2) split: option.splits)
  qed
  ultimately show ?thesis by (simp add: portfolio_inv_def)
qed

lemma marked_position_simps [simp]:
  "po_instrument_id (marked_position t l p) = po_instrument_id p"
  "po_position_id (marked_position t l p) = po_position_id p"
  "po_quantity (marked_position t l p) = po_quantity p"
  "po_buy_quantity (marked_position t l p) = po_buy_quantity p"
  "po_sell_quantity (marked_position t l p) = po_sell_quantity p"
  by (simp_all add: marked_position_def Let_def)

text \<open>Replacing a stored position by one with the same two identifiers.\<close>

lemma replace_position:
  assumes inv: "portfolio_inv db" and g: "get_position i db = Some old" and save: "save_position p db = Inr db'"
    and same: "po_instrument_id p = po_instrument_id old" "po_position_id p = po_position_id old"
  shows "get_position j db' = (if j = i then Some p else get_position j db)"
    and "keys_distinct po_instrument_id (pf_positions db')" "keys_distinct po_position_id (pf_positions db')"
    and "pf_executions db' = pf_executions db" "pf_snapshots db' = pf_snapshots db"
proof -
  have old: "old \<in> set (pf_positions db)" "po_instrument_id old = i"
    using row_get_Some[OF g[unfolded get_position_def]] by auto
  have di: "inj_on po_instrument_id (set (pf_positions db))" "distinct (pf_positions db)"
    and dp: "inj_on po_position_id (set (pf_positions db))"
    using inv by (simp_all add: portfolio_inv_def keys_distinct_def distinct_map)
  have rows: "pf_positions db' = filter (\<lambda>r. r \<noteq> old) (pf_positions db) @ [p]"
  proof -
    have "filter (\<lambda>r. po_position_id r \<noteq> po_position_id old \<and> po_instrument_id r \<noteq> i) (pf_positions db)
        = filter (\<lambda>r. r \<noteq> old) (pf_positions db)"
      using old di(1) dp by (intro filter_cong refl) (auto dest: inj_onD)
    then show ?thesis using save same old(2)
      by (auto simp: save_position_def row_delete_def conj_commute split: if_splits)
  qed
  have nid: "po_instrument_id p \<notin> po_instrument_id ` set (filter (\<lambda>r. r \<noteq> old) (pf_positions db))"
    "po_position_id p \<notin> po_position_id ` set (filter (\<lambda>r. r \<noteq> old) (pf_positions db))"
    using old(1) same di(1) dp by (auto dest: inj_onD)
  show "keys_distinct po_instrument_id (pf_positions db')" "keys_distinct po_position_id (pf_positions db')"
    using inv nid by (auto simp: rows keys_distinct_def portfolio_inv_def distinct_map_filter)
  show "pf_executions db' = pf_executions db" "pf_snapshots db' = pf_snapshots db"
    using save by (auto simp: save_position_def split: if_splits)
  have find_filter: "row_get po_instrument_id j (filter (\<lambda>r. r \<noteq> old) rows @ [p]) =
      (if j = i then (if \<exists>r \<in> set rows. r \<noteq> old \<and> po_instrument_id r = i
         then row_get po_instrument_id j (filter (\<lambda>r. r \<noteq> old) rows) else Some p)
       else row_get po_instrument_id j rows)" for rows
    using same(1) old(2) by (induction rows) auto
  have one: "(\<exists>r \<in> set (pf_positions db). r \<noteq> old \<and> po_instrument_id r = i) = False"
    using old di(1) by (auto dest: inj_onD)
  show "get_position j db' = (if j = i then Some p else get_position j db)"
    unfolding get_position_def rows find_filter one by simp
qed

lemma mark_inv:
  assumes inv: "portfolio_inv db"
  shows "portfolio_inv (oc_state (handle_market_quote env ev db))"
    "pf_executions (oc_state (handle_market_quote env ev db)) = pf_executions db"
proof -
  have "portfolio_inv (oc_state (handle_market_quote env ev db))
      \<and> pf_executions (oc_state (handle_market_quote env ev db)) = pf_executions db"
  proof (cases "oc_state (handle_market_quote env ev db) = db")
    case True
    then show ?thesis using inv by simp
  next
    case False
    then obtain q p where q: "ev_payload ev = QuotePayload q" and g: "get_position (qt_instrument_id q) db = Some p"
      and s: "save_position (marked_position (clock env 0) (qt_last_price q) p) db
        = Inr (oc_state (handle_market_quote env ev db))"
      by (auto simp: handle_market_quote_def split: payload.splits option.splits sum.splits if_splits)
    note r = replace_position[OF inv g s marked_position_simps(1,2)]
    have "ledger_agrees i (oc_state (handle_market_quote env ev db))" for i
    proof -
      have "ledger_agrees i db" "ledger_agrees (qt_instrument_id q) db" using inv by (simp_all add: portfolio_inv_def)
      then show ?thesis
        using g unfolding ledger_agrees_def r(1) r(4) by (auto split: option.splits)
    qed
    then show ?thesis using inv r(2-4) by (simp add: portfolio_inv_def)
  qed
  then show "portfolio_inv (oc_state (handle_market_quote env ev db))"
    "pf_executions (oc_state (handle_market_quote env ev db)) = pf_executions db" by auto
qed

lemma snapshot_keeps:
  "pf_executions (oc_state (publish_pnl_snapshot env db)) = pf_executions db"
  "pf_positions (oc_state (publish_pnl_snapshot env db)) = pf_positions db"
  by (auto simp: publish_pnl_snapshot_def save_pnl_snapshot_def Let_def split: sum.splits option.splits if_splits)

lemma inv_cong:
  assumes "pf_executions db' = pf_executions db" "pf_positions db' = pf_positions db"
  shows "portfolio_inv db' = portfolio_inv db"
  unfolding portfolio_inv_def ledger_agrees_def get_position_def assms ..

text \<open>The trade handler changes nothing, or applies one execution and takes a snapshot.\<close>

lemma trade_cases:
  obtains (same) "oc_state (handle_trade_event latest env ev db) = db" "oc_published (handle_trade_event latest env ev db) = []"
  | (applied) t c p db1 where "ev_payload ev = FillPayload t"
      "apply_execution_atomic (uuid env 1) (clock env 1) (fill_execution env t) (tf_trading_mode t) c db = Inr ((p, True), db1)"
      "oc_state (handle_trade_event latest env ev db) = oc_state (publish_pnl_snapshot env db1)"
proof (cases "ev_payload ev")
  case (FillPayload t)
  let ?c = "case latest of None \<Rightarrow> tf_price t | Some f \<Rightarrow>
     (case f (tf_instrument_id t) of None \<Rightarrow> tf_price t | Some q \<Rightarrow> qt_last_price q)"
  show ?thesis
  proof (cases "apply_execution_atomic (uuid env 1) (clock env 1) (fill_execution env t) (tf_trading_mode t) ?c db")
    case (Inl e)
    then show ?thesis using same FillPayload by (simp add: handle_trade_event_def Let_def)
  next
    case (Inr r)
    then obtain p ap db1 where r: "r = ((p, ap), db1)" by (metis prod.collapse)
    show ?thesis
    proof (cases ap)
      case True
      then show ?thesis using applied[OF FillPayload] Inr r FillPayload by (simp add: handle_trade_event_def Let_def)
    next
      case False
      then have "db1 = db" using Inr r by (auto elim: apply_cases)
      then show ?thesis using same FillPayload Inr r False by (simp add: handle_trade_event_def Let_def)
    qed
  qed
qed (use same in \<open>simp_all add: handle_trade_event_def\<close>)

lemma trade_inv:
  assumes "portfolio_inv db"
  shows "portfolio_inv (oc_state (handle_trade_event latest env ev db))"
proof (cases rule: trade_cases[of latest env ev db])
  case same
  then show ?thesis using assms by simp
next
  case (applied t c p db1)
  have "portfolio_inv db1" by (rule apply_inv[OF assms applied(2)])
  then show ?thesis unfolding applied(3) using inv_cong[OF snapshot_keeps] by blast
qed

lemma portfolio_run_inv: "portfolio_inv db \<Longrightarrow> portfolio_inv (portfolio_run ops db)"
proof (induction ops db rule: portfolio_run.induct)
  case (2 env op ops db)
  have "portfolio_inv (oc_state (portfolio_step env op db))"
    using 2(2) trade_inv mark_inv(1) by (cases op) auto
  then show ?case using 2(1) by simp
qed simp

lemma portfolio_inv_empty: "portfolio_inv portfolio_empty"
  by (simp add: portfolio_inv_def portfolio_empty_def keys_distinct_def ledger_agrees_def get_position_def bought_def sold_def)

section \<open>The portfolio as a store of executions\<close>

definition put_execution ::
  "string \<Rightarrow> timestamp \<Rightarrow> trading_mode \<Rightarrow> pyfloat \<Rightarrow> execution \<Rightarrow> portfolio_db \<Rightarrow> portfolio_db option" where
  "put_execution nid now mode price e db =
     (case apply_execution_atomic nid now e mode price db of Inl _ \<Rightarrow> None | Inr (_, db') \<Rightarrow> Some db')"

definition execution_ids :: "portfolio_db \<Rightarrow> string set" where
  "execution_ids db = ex_execution_id ` set (pf_executions db)"

lemma executed_snoc:
  "pf_executions db' = pf_executions db @ [e] \<Longrightarrow>
   get_executed_quantity_for_order x db' = get_executed_quantity_for_order x db + (if x = ex_order_id e then ex_quantity e else 0)"
  by (simp add: get_executed_quantity_for_order_def)

interpretation portfolio_fills:
  fill_store ex_execution_id ex_order_id ex_quantity execution_ids get_executed_quantity_for_order "put_execution nid now mode price"
  for nid now mode price
proof unfold_locales
  fix e db db' assume p: "put_execution nid now mode price e db = Some db'"
  then obtain q ap where a: "apply_execution_atomic nid now e mode price db = Inr ((q, ap), db')"
    by (auto simp: put_execution_def split: sum.splits)
  show "execution_ids db' = execution_ids db \<and> (\<forall>x. get_executed_quantity_for_order x db' = get_executed_quantity_for_order x db)"
    if "ex_execution_id e \<in> execution_ids db"
    using a that by (cases rule: apply_cases) (simp_all add: execution_ids_def)
  show "execution_ids db' = insert (ex_execution_id e) (execution_ids db) \<and>
      (\<forall>x. get_executed_quantity_for_order x db' =
           get_executed_quantity_for_order x db + (if x = ex_order_id e then ex_quantity e else 0))"
    if "ex_execution_id e \<notin> execution_ids db"
    using a that by (cases rule: apply_cases) (simp_all add: execution_ids_def executed_snoc)
qed

section \<open>Properties\<close>

definition demo_fill :: "string \<Rightarrow> order_side \<Rightarrow> int \<Rightarrow> rat \<Rightarrow> envelope" where
  "demo_fill i side qty price = \<lparr>ev_event_id = ''e'', ev_topic = BROKER_TRADE_EVENT, ev_correlation_id = ''c'',
     ev_payload = FillPayload \<lparr>tf_execution_id = Some i, tf_broker_execution_id = None, tf_order_id = ''o1'',
       tf_instrument_id = ''INST'', tf_symbol = ''NIFTY'', tf_side = side, tf_quantity = qty, tf_price = Fin price,
       tf_trading_mode = PAPER\<rparr>\<rparr>"

definition demo_pf_env :: "string \<Rightarrow> env" where
  "demo_pf_env tag = \<lparr>clock = (\<lambda>i. int i), uuid = (\<lambda>i. tag @ show_nat i)\<rparr>"

lemmas exact_eval = float_eval average_def

text \<open>
  C15. Along any run of fills, replays and quotes from an empty database, a position holds exactly
  the executed quantities of its instrument: its net quantity is the executions bought minus the
  executions sold, each execution identifier counted once.
\<close>

theorem portfolio_ledger_equation:
  "let db = portfolio_run ops portfolio_empty
   in keys_distinct ex_execution_id (pf_executions db)
    \<and> (case get_position i db of
         None \<Rightarrow> bought i (pf_executions db) = 0 \<and> sold i (pf_executions db) = 0
       | Some p \<Rightarrow> po_quantity p = bought i (pf_executions db) - sold i (pf_executions db)
           \<and> po_buy_quantity p = bought i (pf_executions db) \<and> po_sell_quantity p = sold i (pf_executions db))"
proof -
  have "portfolio_inv (portfolio_run ops portfolio_empty)" by (rule portfolio_run_inv[OF portfolio_inv_empty])
  then have "keys_distinct ex_execution_id (pf_executions (portfolio_run ops portfolio_empty))"
    "ledger_agrees i (portfolio_run ops portfolio_empty)" by (simp_all add: portfolio_inv_def)
  then show ?thesis by (auto simp: Let_def ledger_agrees_def split: option.splits)
qed

text \<open>
  A fill delivered again under its execution identifier is ignored: the database is unchanged,
  nothing is published and nothing is raised.
\<close>

theorem portfolio_replay_ignored:
  "ev_payload ev = FillPayload t \<Longrightarrow> tf_execution_id t = Some i \<Longrightarrow> i \<noteq> [] \<Longrightarrow>
   oc_raised (handle_trade_event latest env ev db) = None \<Longrightarrow>
   handle_trade_event latest' env' ev (oc_state (handle_trade_event latest env ev db))
     = ok (oc_state (handle_trade_event latest env ev db)) []"
proof -
  assume t: "ev_payload ev = FillPayload t" and i: "tf_execution_id t = Some i" "i \<noteq> []"
    and nr: "oc_raised (handle_trade_event latest env ev db) = None"
  let ?s = "oc_state (handle_trade_event latest env ev db)"
  let ?c = "case latest of None \<Rightarrow> tf_price t | Some f \<Rightarrow>
     (case f (tf_instrument_id t) of None \<Rightarrow> tf_price t | Some q \<Rightarrow> qt_last_price q)"
  have ids: "ex_execution_id (fill_execution e t) = i" "ex_instrument_id (fill_execution e t) = tf_instrument_id t" for e
    using i by (simp_all add: fill_execution_def str_or_def)
  obtain p ap db1 where a: "apply_execution_atomic (uuid env 1) (clock env 1) (fill_execution env t)
      (tf_trading_mode t) ?c db = Inr ((p, ap), db1)"
    using nr t by (auto simp: handle_trade_event_def Let_def split: sum.splits)
  have known: "i \<in> ex_execution_id ` set (pf_executions db1)" "get_position (tf_instrument_id t) db1 = Some p"
    using a apply_get_position[OF a, of "tf_instrument_id t"] ids by (auto elim!: apply_cases)
  have pos: "pf_executions ?s = pf_executions db1" "pf_positions ?s = pf_positions db1"
    using t a snapshot_keeps by (auto simp: handle_trade_event_def Let_def elim: apply_cases)
  have "row_insert ex_execution_id (fill_execution env' t) (pf_executions ?s) = None"
    using known(1) ids by (simp add: row_insert_def pos row_get_None_iff)
  moreover have "get_position (tf_instrument_id t) ?s = Some p"
    using known(2) by (simp add: get_position_def pos)
  ultimately have "apply_execution_atomic n w (fill_execution env' t) m c ?s = Inr ((p, False), ?s)" for n w m c
    by (simp add: apply_execution_atomic_def ids)
  then show ?thesis using t by (simp add: handle_trade_event_def Let_def)
qed

lemma demo_fill_ok: "oc_raised (handle_trade_event None (demo_pf_env ''a'') (demo_fill ''f1'' BUY 75 100) portfolio_empty) = None"
  by (simp add: handle_trade_event_def demo_fill_def apply_execution_atomic_def portfolio_empty_def row_insert_def
      get_position_def filled_position_def fill_execution_def str_or_def exact_eval position_reals_def
      publish_pnl_snapshot_def pnl_summary_def save_pnl_snapshot_def list_positions_def row_upsert_def Let_def)

theorem portfolio_replay_ignored_witness:
  "let s = oc_state (handle_trade_event None (demo_pf_env ''a'') (demo_fill ''f1'' BUY 75 100) portfolio_empty)
   in oc_state (handle_trade_event None (demo_pf_env ''b'') (demo_fill ''f1'' BUY 75 100) s) = s"
proof -
  obtain t where "ev_payload (demo_fill ''f1'' BUY 75 100) = FillPayload t" "tf_execution_id t = Some ''f1''"
    by (simp add: demo_fill_def)
  from portfolio_replay_ignored[OF this _ demo_fill_ok] show ?thesis by (simp add: Let_def)
qed

text \<open>Monotonicity of the float operations a mark-to-market uses.\<close>

lemma fsub_mono: "fle x y \<Longrightarrow> fle (fsub x (Fin a)) (fsub y (Fin a))"
  by (cases x; cases y) (auto simp: fsub_def intro: rnd_mono)

lemma fmul_mono: "fle x y \<Longrightarrow> 0 < n \<Longrightarrow> fle (fmul x (Fin n)) (fmul y (Fin n))"
  by (cases x; cases y) (auto simp: finf_def intro!: rnd_mono mult_right_mono)

lemma fadd_mono: "fle x y \<Longrightarrow> fle (fadd (Fin a) x) (fadd (Fin a) y)"
  by (cases x; cases y) (auto intro: rnd_mono)

text \<open>
  Marking a long position to a higher price never lowers its unrealized or its total P\&L,
  rounding of every step included.
\<close>

theorem portfolio_mark_monotone:
  "0 < po_quantity p \<Longrightarrow> po_quantity p \<le> 2 ^ 53 \<Longrightarrow> po_average_price p = Fin a \<Longrightarrow> po_realized_pnl p = Fin r \<Longrightarrow>
   fle l1 l2 \<Longrightarrow>
   fle (po_unrealized_pnl (marked_position t l1 p)) (po_unrealized_pnl (marked_position t' l2 p))
   \<and> fle (po_total_pnl (marked_position t l1 p)) (po_total_pnl (marked_position t' l2 p))"
  using fint_exact[of "po_quantity p"]
  by (simp add: marked_position_def Let_def fround_mono fadd_mono fmul_mono fsub_mono)

definition demo_position :: position where
  "demo_position = \<lparr>po_position_id = ''p'', po_instrument_id = ''INST'', po_symbol = ''NIFTY'', po_quantity = 75,
     po_buy_quantity = 75, po_sell_quantity = 0, po_buy_value = Fin 7500, po_sell_value = Fin 0,
     po_average_price = Fin 100, po_current_price = Fin 100, po_realized_pnl = Fin 0, po_unrealized_pnl = Fin 0,
     po_total_pnl = Fin 0, po_trading_mode = PAPER, po_updated_at = 0\<rparr>"

theorem portfolio_mark_monotone_witness:
  "fle (po_total_pnl (marked_position 0 (Fin 101) demo_position)) (po_total_pnl (marked_position 0 (Fin 105) demo_position))"
  using portfolio_mark_monotone[of demo_position 100 0 "Fin 101" "Fin 105" 0 0] by (simp add: demo_position_def)

text \<open>
  A short position is marked against the average \<^emph>\<open>buy\<close> price, which is zero: selling one at 100
  with the market at 100 shows a loss of 100 where nothing was lost.
\<close>

lemma portfolio_short_mark:
  "map_option (\<lambda>p. (po_quantity p, po_unrealized_pnl p))
     (get_position ''INST'' (portfolio_run [(demo_pf_env ''a'', TradeEvent None (demo_fill ''f1'' SELL 1 100))] portfolio_empty))
   = Some (- 1, Fin (- 100))"
  by (simp add: handle_trade_event_def demo_fill_def apply_execution_atomic_def portfolio_empty_def row_insert_def
      get_position_def filled_position_def fill_execution_def str_or_def exact_eval position_reals_def
      publish_pnl_snapshot_def pnl_summary_def save_pnl_snapshot_def list_positions_def row_upsert_def Let_def)

end
