(* ===== verification/Execution.thy ===== *)
theory Execution imports Oms Risk Portfolio begin

text \<open>
  The execution service, \<^verbatim>\<open>services/execution/service.py\<close>: the final checks, the reservation of
  an approved order, its single submission to the broker, and the reconciliation of LIVE orders.
  The replies of the broker and of the health services are arguments.  \<open>execute_order\<close> is the
  composition of three phases, separated where the code awaits, so that interleavings of two
  calls can be stated.
\<close>

section \<open>Requests and statuses\<close>

definition build_broker_request :: "string \<Rightarrow> broker_order \<Rightarrow> broker_order_request option" where
  "build_broker_request active_broker_name ord =
     (let request = \<lparr>rq_client_order_id = bo_client_order_id ord, rq_stock_code = bo_symbol ord,
            rq_exchange_code = ''NFO'', rq_action = to_lower (side_value (bo_side ord)),
            rq_order_type = to_lower (order_type_value (bo_order_type ord)), rq_quantity = bo_quantity ord,
            rq_price = bo_price ord, rq_trigger_price = bo_trigger_price ord, rq_strike_price = None,
            rq_right = None, rq_expiry_date = None, rq_user_remark = Some (bo_client_order_id ord)\<rparr>
      in if bo_trading_mode ord = LIVE \<and> to_lower active_broker_name = ''breeze'' then
           (case canonical_option_identity (bo_instrument_id ord) of
              None \<Rightarrow> None
            | Some (underlying, expiry, strike, right) \<Rightarrow> Some (request\<lparr>rq_stock_code := underlying,
                rq_expiry_date := Some expiry, rq_strike_price := Some strike,
                rq_right := Some (if right = ''CE'' then ''call'' else ''put'')\<rparr>))
         else Some request)"

definition normalize_broker_status :: "string \<Rightarrow> string" where
  "normalize_broker_status status =
     (let normalized = replace_char CHR ''-'' CHR ''_'' (to_upper (if status = [] then ''UNKNOWN'' else status)) in
      if normalized \<in> {''COMPLETE'', ''COMPLETED''} then ''FILLED''
      else if normalized \<in> {''PARTIAL'', ''PARTIALLY FILLED''} then ''PARTIALLY_FILLED''
      else normalized)"

section \<open>Events\<close>

definition status_event ::
  "env \<Rightarrow> nat \<Rightarrow> broker_order \<Rightarrow> string option \<Rightarrow> string \<Rightarrow> int \<Rightarrow> pyfloat \<Rightarrow> message option \<Rightarrow> envelope" where
  "status_event env i ord broker_id st filled avg msg =
     \<lparr>ev_event_id = uuid env i, ev_topic = BROKER_ORDER_EVENT, ev_correlation_id = uuid env (Suc i),
      ev_payload = StatusPayload \<lparr>su_client_order_id = bo_client_order_id ord, su_broker_order_id = broker_id,
        su_status = st, su_filled_quantity = filled, su_average_price = avg, su_message = msg\<rparr>\<rparr>"

definition fill_label :: "string \<Rightarrow> int \<Rightarrow> string" where
  "fill_label order_id cumulative = ''FILL-'' @ order_id @ ''-'' @ show_int cumulative"

definition fill_event :: "env \<Rightarrow> nat \<Rightarrow> broker_order \<Rightarrow> int \<Rightarrow> int \<Rightarrow> pyfloat \<Rightarrow> envelope" where
  "fill_event env i ord quantity cumulative price =
     \<lparr>ev_event_id = uuid env i, ev_topic = BROKER_TRADE_EVENT, ev_correlation_id = uuid env (Suc i),
      ev_payload = FillPayload \<lparr>tf_execution_id = Some (fill_label (bo_order_id ord) cumulative),
        tf_broker_execution_id = None, tf_order_id = bo_order_id ord, tf_instrument_id = bo_instrument_id ord,
        tf_symbol = bo_symbol ord, tf_side = bo_side ord, tf_quantity = quantity, tf_price = price,
        tf_trading_mode = bo_trading_mode ord\<rparr>\<rparr>"

section \<open>Submission\<close>

record exec_world =
  ew_active_broker_name :: string
  ew_session :: "(bool \<times> string) option"
  ew_feed :: "(bool \<times> string list) option"
  ew_gate :: live_gate
  ew_live_account_id :: string

definition health_reason :: "exec_world \<Rightarrow> string option" where
  "health_reason w =
     (case ew_session w of
        None \<Rightarrow> Some ''BROKER_SESSION_HEALTH_UNAVAILABLE''
      | Some (is_up, st) \<Rightarrow>
          if \<not> is_up then Some (''BROKER_SESSION_DISCONNECTED:'' @ (if st = [] then ''UNKNOWN'' else st)) else
          (case ew_feed w of
             None \<Rightarrow> Some ''MARKET_DATA_HEALTH_UNAVAILABLE''
           | Some (healthy, reasons) \<Rightarrow>
               if \<not> healthy
               then Some (''MARKET_DATA_STALE_OR_DOWN:'' @ str_join '';'' (if reasons = [] then [''UNKNOWN''] else reasons))
               else None))"

definition failed_safe :: "env \<Rightarrow> broker_order \<Rightarrow> string \<Rightarrow> envelope" where
  "failed_safe env ord msg =
     status_event env 5 ord None ''FAILED_SAFE'' (bo_filled_quantity ord) (bo_average_price ord) (Some [Txt msg])"

text \<open>First phase: the order must be APPROVED and, for a LIVE entry, health and gate must hold.\<close>

definition exec_check :: "exec_world \<Rightarrow> env \<Rightarrow> string \<Rightarrow> oms_db \<Rightarrow> broker_order option \<times> envelope list" where
  "exec_check w env order_id db =
     (case get_order_by_id order_id db of
        None \<Rightarrow> (None, [])
      | Some ord \<Rightarrow>
          if bo_status ord \<noteq> APPROVED then (None, [])
          else if bo_trading_mode ord = LIVE \<and> \<not> bo_reduce_only ord then
            (case health_reason w of
               Some r \<Rightarrow> (None, [failed_safe env ord (''Execution blocked at final runtime health boundary: '' @ r)])
             | None \<Rightarrow>
                 (case validate_live_order (clock env 5) (ew_live_account_id w) (ew_gate w) of (authorized, reason) \<Rightarrow>
                    if authorized then (Some ord, [])
                    else (None, [failed_safe env ord (''Execution blocked at final LIVE boundary: '' @ reason)])))
          else (Some ord, []))"

text \<open>Second phase: the reservation, APPROVED to SUBMITTING.\<close>

definition exec_reserve :: "env \<Rightarrow> string \<Rightarrow> oms_db \<Rightarrow> exn + (broker_order option \<times> oms_db)" where
  "exec_reserve env order_id db =
     (case mark_order_submitting env order_id db of
        Inl e \<Rightarrow> Inl e
      | Inr (None, db') \<Rightarrow> Inr (None, db')
      | Inr (Some ord, db') \<Rightarrow> Inr (if bo_status ord = SUBMITTING then Some ord else None, db'))"

text \<open>Third phase: the broker call; the flag tells whether it was made.\<close>

definition exec_submit ::
  "exec_world \<Rightarrow> env \<Rightarrow> (broker_order_request \<Rightarrow> string + broker_order_response) \<Rightarrow> broker_order \<Rightarrow> bool \<times> envelope list" where
  "exec_submit w env place ord =
     (case build_broker_request (ew_active_broker_name w) ord of
        None \<Rightarrow> (False, [failed_safe env ord
           ''Breeze option contract identity could not be resolved from the canonical instrument id''])
      | Some rq \<Rightarrow> (True,
          (case place rq of
             Inr resp \<Rightarrow>
               (let st = normalize_broker_status (rs_status resp) in
                status_event env 7 ord (rs_broker_order_id resp) st (rs_filled_quantity resp)
                  (rs_average_price resp) (rs_message resp)
                # (if st = ''FILLED'' \<and> rs_filled_quantity resp > 0
                   then [fill_event env 9 ord (rs_filled_quantity resp) (rs_filled_quantity resp)
                           (f_or (rs_average_price resp) (bo_price ord))]
                   else []))
           | Inl exc \<Rightarrow> [status_event env 7 ord None ''UNKNOWN'' (bo_filled_quantity ord) (bo_average_price ord)
               (Some [Txt (''Execution failed: '' @ exc @ ''. Marked for reconciliation.'')])])))"

text \<open>The state: the processed client order ids, the orders, and the orders submitted (newest first).\<close>

record exec_state =
  xs_processed :: "string list"
  xs_oms :: oms_db
  xs_sent :: "string list"

definition execute_order ::
  "exec_world \<Rightarrow> env \<Rightarrow> (broker_order_request \<Rightarrow> string + broker_order_response) \<Rightarrow> string \<Rightarrow> exec_state \<Rightarrow> exec_state outcome" where
  "execute_order w env place order_id s =
     (case exec_check w env order_id (xs_oms s) of
        (None, evs) \<Rightarrow> ok s evs
      | (Some _, _) \<Rightarrow>
          (case exec_reserve env order_id (xs_oms s) of
             Inl e \<Rightarrow> raised s [] e
           | Inr (None, db) \<Rightarrow> ok (s\<lparr>xs_oms := db\<rparr>) []
           | Inr (Some ord, db) \<Rightarrow>
               (let (sent, evs) = exec_submit w env place ord in
                ok (s\<lparr>xs_oms := db, xs_sent := (if sent then bo_order_id ord # xs_sent s else xs_sent s)\<rparr>) evs)))"

definition handle_execution_command ::
  "exec_world \<Rightarrow> env \<Rightarrow> (broker_order_request \<Rightarrow> string + broker_order_response) \<Rightarrow> envelope \<Rightarrow> exec_state \<Rightarrow> exec_state outcome" where
  "handle_execution_command w env place ev s =
     (case ev_payload ev of
        CommandPayload order_id client_order_id \<Rightarrow>
          if client_order_id \<in> set (xs_processed s) then ok s []
          else execute_order w env place order_id (s\<lparr>xs_processed := client_order_id # xs_processed s\<rparr>)
      | _ \<Rightarrow> raised s [] (KeyError ''order_id''))"

text \<open>\<^verbatim>\<open>_recover_approved_orders\<close>: every APPROVED order of the 500 newest is executed after a restart.\<close>

fun recover_orders ::
  "exec_world \<Rightarrow> (nat \<Rightarrow> env) \<Rightarrow> (broker_order_request \<Rightarrow> string + broker_order_response) \<Rightarrow> broker_order list \<Rightarrow> exec_state \<Rightarrow> exec_state outcome" where
  "recover_orders w envs place [] s = ok s []"
| "recover_orders w envs place (ord # ords) s =
     (if bo_status ord \<noteq> APPROVED then recover_orders w envs place ords s else
      let oc = execute_order w (envs (length ords)) place (bo_order_id ord) s in
      case oc_raised oc of
        Some e \<Rightarrow> oc
      | None \<Rightarrow> (let rest = recover_orders w envs place ords (oc_state oc)
                 in rest\<lparr>oc_published := oc_published oc @ oc_published rest\<rparr>))"

definition recover_approved_orders where
  "recover_approved_orders w envs place s = recover_orders w envs place (list_orders 500 (xs_oms s)) s"

section \<open>Reconciliation\<close>

record recon_world =
  rn_order_status :: "string \<Rightarrow> string + broker_order_response option"
  rn_find :: "string \<Rightarrow> string + broker_order_response option"
  rn_trades :: "string + broker_trade_response list"
  rn_executed :: "string \<Rightarrow> int"

text \<open>The response reconstructed from trade evidence; \<open>None\<close> without evidence.\<close>

definition response_from_trades :: "broker_order \<Rightarrow> broker_trade_response list \<Rightarrow> broker_order_response option" where
  "response_from_trades ord trades =
     (let matches = filter (\<lambda>t. bt_client_order_id t = Some (bo_client_order_id ord)) trades;
          filled = sum_list (map (\<lambda>t. max 0 (bt_quantity t)) matches);
          notional = py_sum (map (\<lambda>t. fmul (fint (max 0 (bt_quantity t))) (bt_price t)) matches)
      in case matches of
           [] \<Rightarrow> None
         | m # _ \<Rightarrow> Some \<lparr>rs_success = True, rs_broker_order_id = Some (bt_broker_order_id m),
             rs_client_order_id = bo_client_order_id ord,
             rs_status = (if filled \<ge> bo_quantity ord then ''FILLED'' else ''PARTIALLY_FILLED''),
             rs_message = Some [Txt ''Recovered from broker trade reconciliation''],
             rs_filled_quantity = min filled (bo_quantity ord),
             rs_average_price = (if filled \<noteq> 0 then average notional filled else Fin 0)\<rparr>)"

text \<open>Without a broker id an order that may have been submitted is looked up by its client id, then among the trades.\<close>

definition recovered_evidence :: "recon_world \<Rightarrow> broker_order \<Rightarrow> string + broker_order_response option" where
  "recovered_evidence w ord =
     (case rn_find w (bo_client_order_id ord) of
        Inl e \<Rightarrow> Inl e
      | Inr (Some resp) \<Rightarrow> Inr (Some resp)
      | Inr None \<Rightarrow> (case rn_trades w of Inl e \<Rightarrow> Inl e | Inr ts \<Rightarrow> Inr (response_from_trades ord ts)))"

definition broker_evidence :: "recon_world \<Rightarrow> broker_order \<Rightarrow> string + broker_order_response option" where
  "broker_evidence w ord =
     (case str_or (bo_broker_order_id ord) (Some []) of
        Some (c # cs) \<Rightarrow> rn_order_status w (c # cs)
      | _ \<Rightarrow> if bo_status ord \<in> {SUBMITTING, SUBMISSION_UNKNOWN} then recovered_evidence w ord else Inr None)"

definition message_or :: "message option \<Rightarrow> string \<Rightarrow> message" where
  "message_or m d = (case m of None \<Rightarrow> [Txt d] | Some ps \<Rightarrow> if ps = [] \<or> ps = [Txt []] then [Txt d] else ps)"

definition reconcile_order :: "recon_world \<Rightarrow> env \<Rightarrow> broker_order \<Rightarrow> envelope list" where
  "reconcile_order w env ord =
     (let executed = rn_executed w (bo_order_id ord) in
      if bo_status ord = FILLED then
        (let missing = max 0 (bo_filled_quantity ord - executed) in
         if missing > 0 then [fill_event env 0 ord missing (bo_filled_quantity ord)
            (f_or (bo_average_price ord) (bo_price ord))] else [])
      else
        (case broker_evidence w ord of
           Inl _ \<Rightarrow> []
         | Inr None \<Rightarrow> []
         | Inr (Some resp) \<Rightarrow>
             (let delta = max 0 (rs_filled_quantity resp - executed) in
              status_event env 0 ord (str_or (rs_broker_order_id resp) (bo_broker_order_id ord))
                (normalize_broker_status (rs_status resp)) (rs_filled_quantity resp) (rs_average_price resp)
                (Some (message_or (rs_message resp) ''Broker reconciliation''))
              # (if delta > 0 then [fill_event env 2 ord delta (rs_filled_quantity resp)
                   (f_or (rs_average_price resp) (f_or (bo_average_price ord) (bo_price ord)))] else []))))"

definition pending_live :: "broker_order \<Rightarrow> bool" where
  "pending_live ord \<longleftrightarrow> bo_trading_mode ord = LIVE \<and>
     bo_status ord \<in> {SUBMITTING, SUBMISSION_UNKNOWN, ACKNOWLEDGED, OPEN, PARTIALLY_FILLED, FILLED}"

definition reconcile_live_orders :: "recon_world \<Rightarrow> (nat \<Rightarrow> env) \<Rightarrow> oms_db \<Rightarrow> envelope list" where
  "reconcile_live_orders w envs db =
     (let ords = filter pending_live (list_orders 500 db)
      in concat (map (\<lambda>(i, ord). reconcile_order w (envs i) ord) (List.enumerate 0 ords)))"

section \<open>Fill labels\<close>

lemma show_int_nonneg: "0 \<le> c \<Longrightarrow> show_int c = show_nat (nat c)"
  by (simp add: show_int_def)

lemma fill_label_inj:
  assumes "0 \<le> c" "0 \<le> d"
  shows "fill_label x c = fill_label y d \<longleftrightarrow> x = y \<and> c = d"
proof
  assume "fill_label x c = fill_label y d"
  then have e: "x @ CHR ''-'' # show_nat (nat c) = y @ CHR ''-'' # show_nat (nat d)"
    using assms by (simp add: fill_label_def show_int_nonneg)
  have tail: "takeWhile (\<lambda>z. z \<noteq> CHR ''-'') (rev (z @ CHR ''-'' # show_nat n)) = rev (show_nat n)" for z n
  proof -
    have "\<forall>q \<in> set (rev (show_nat n)). q \<noteq> CHR ''-''" using dash_not_digit[of n] by auto
    then have "takeWhile (\<lambda>z. z \<noteq> CHR ''-'') (rev (show_nat n) @ CHR ''-'' # rev z)
        = rev (show_nat n) @ takeWhile (\<lambda>z. z \<noteq> CHR ''-'') (CHR ''-'' # rev z)"
      by (intro takeWhile_append2) blast
    then show ?thesis by simp
  qed
  have "rev (show_nat (nat c)) = rev (show_nat (nat d))"
    using tail[of x "nat c"] tail[of y "nat d"] e by simp
  then have "show_nat (nat c) = show_nat (nat d)" by simp
  with e show "x = y \<and> c = d" using assms by (simp add: show_nat_inj)
qed simp

interpretation portfolio_reporter:
  cumulative_reporter ex_execution_id ex_order_id ex_quantity execution_ids get_executed_quantity_for_order
    "put_execution nid now mode price" fill_label
  for nid now mode price
  by unfold_locales (rule fill_label_inj)

section \<open>The submission counted against the journal\<close>

lemma save_order_events:
  "save_broker_order_with_transition env i j ord f t r tp db = Inr db' \<Longrightarrow>
   od_events db' = od_events db @ [transition_event env i j f t r ord]"
  by (drule save_orderD(3)) (simp add: row_insert_def split: if_splits)

definition events_grow :: "oms_db \<Rightarrow> oms_db \<Rightarrow> bool" where
  "events_grow db db' \<longleftrightarrow> (\<exists>es. od_events db' = od_events db @ es)"

lemma events_grow_refl [simp]: "events_grow db db"
  by (simp add: events_grow_def)

lemma events_grow_trans: "events_grow a b \<Longrightarrow> events_grow b c \<Longrightarrow> events_grow a c"
  by (auto simp: events_grow_def)

lemma events_grow_save:
  "save_broker_order_with_transition env i j ord f t r tp db = Inr db' \<Longrightarrow> events_grow db db'"
  by (auto simp: events_grow_def dest: save_order_events)

lemma events_grow_entries:
  "events_grow db db' \<Longrightarrow> length (entries t (order_journal oid db)) \<le> length (entries t (order_journal oid db'))"
  by (auto simp: events_grow_def order_journal_def entries_def)

lemma create_events_grow: "events_grow db (oc_state (snd (create_order_intent env intent db)))"
proof (cases "save_order_intent env 2 intent ORDER_INTENT db")
  case (Inl e)
  then show ?thesis by (simp add: create_order_intent_def Let_def)
next
  case (Inr db1)
  have "od_events db1 = od_events db"
    using Inr by (auto simp: save_order_intent_def split: if_splits option.splits)
  then have g1: "events_grow db db1" by (simp add: events_grow_def)
  show ?thesis
    using Inr g1
    by (auto simp: create_order_intent_def Let_def split: sum.splits option.splits
        dest!: events_grow_save intro: events_grow_trans)
qed

lemma oms_step_events_grow: "events_grow db (oms_step env op db)"
proof (cases op)
  case (CreateOrder intent)
  then show ?thesis by (simp add: create_events_grow)
next
  case (RiskEvent ev)
  have "events_grow db (oc_state (handle_risk_decision_event env ev db))"
    by (cases rule: risk_event_cases[of env ev db]) (simp, erule events_grow_save)
  then show ?thesis by (simp add: RiskEvent)
next
  case (BrokerEvent ev)
  have "events_grow db (oc_state (handle_broker_order_event env ev db))"
    by (cases rule: broker_event_cases[of env ev db]) (simp, erule events_grow_save)
  then show ?thesis by (simp add: BrokerEvent)
next
  case (ReserveOrder oid)
  show ?thesis
  proof (cases "mark_order_submitting env oid db")
    case (Inr x)
    obtain r db' where x: "x = (r, db')" by force
    show ?thesis
      using Inr events_grow_save unfolding x
      by (cases rule: reserve_cases[OF Inr[unfolded x]]) (simp_all add: ReserveOrder)
  qed (simp add: ReserveOrder)
next
  case OutboxPass
  then show ?thesis by (simp add: oms_outbox_pass_def events_grow_def split: prod.split)
qed

text \<open>A successful reservation after a passed check is an APPROVED to SUBMITTING entry of the journal.\<close>

lemma check_passed:
  assumes "exec_check w env oid db = (Some ord, evs)"
  shows "get_order_by_id oid db = Some ord" "bo_status ord = APPROVED"
    and "bo_trading_mode ord = LIVE \<Longrightarrow> \<not> bo_reduce_only ord \<Longrightarrow> health_reason w = None
         \<and> fst (validate_live_order (clock env 5) (ew_live_account_id w) (ew_gate w))"
  using assms by (auto simp: exec_check_def split: option.splits if_splits prod.splits)

lemma reserve_passed:
  assumes "get_order_by_id oid db = Some ord" "bo_status ord = APPROVED"
    and "exec_reserve env oid db = Inr (Some ord', db')"
  shows "save_broker_order_with_transition env 1 0 (ord\<lparr>bo_status := SUBMITTING, bo_updated_at := clock env 0\<rparr>)
         (Some APPROVED) SUBMITTING (Some [Txt ''Execution service reserved broker submission'']) (Some ORDER_STATE) db = Inr db'"
    and "ord' = ord\<lparr>bo_status := SUBMITTING, bo_updated_at := clock env 0\<rparr>" "bo_order_id ord = oid"
proof -
  obtain r where m: "mark_order_submitting env oid db = Inr (r, db')" "r = Some ord'"
    using assms(3) by (auto simp: exec_reserve_def split: sum.splits option.splits if_splits)
  have id: "bo_order_id ord = oid" using assms(1) unfolding get_order_by_id_def by (rule row_get_SomeD)
  from m(1) have "save_broker_order_with_transition env 1 0 (ord\<lparr>bo_status := SUBMITTING, bo_updated_at := clock env 0\<rparr>)
         (Some APPROVED) SUBMITTING (Some [Txt ''Execution service reserved broker submission'']) (Some ORDER_STATE) db = Inr db'
      \<and> ord' = ord\<lparr>bo_status := SUBMITTING, bo_updated_at := clock env 0\<rparr>"
    using assms(1,2) m(2) by (cases rule: reserve_cases) auto
  with id show "save_broker_order_with_transition env 1 0 (ord\<lparr>bo_status := SUBMITTING, bo_updated_at := clock env 0\<rparr>)
         (Some APPROVED) SUBMITTING (Some [Txt ''Execution service reserved broker submission'']) (Some ORDER_STATE) db = Inr db'"
    "ord' = ord\<lparr>bo_status := SUBMITTING, bo_updated_at := clock env 0\<rparr>" "bo_order_id ord = oid" by auto
qed

lemma save_submitting_entry:
  assumes "save_broker_order_with_transition env i j ord (Some APPROVED) SUBMITTING r tp db = Inr db'"
  shows "length (entries SUBMITTING (order_journal (bo_order_id ord) db'))
    = Suc (length (entries SUBMITTING (order_journal (bo_order_id ord) db)))"
  by (simp add: save_order_journal[OF assms] entries_def transition_event_def)

section \<open>Runs\<close>

datatype exec_op =
  OmsOp oms_op
| ExecuteOrder exec_world "broker_order_request \<Rightarrow> string + broker_order_response" string
| CommandEvent exec_world "broker_order_request \<Rightarrow> string + broker_order_response" envelope
| ForgetCommands

text \<open>\<open>ForgetCommands\<close> is a restart: the set of processed commands is in memory only.\<close>

fun exec_step :: "env \<Rightarrow> exec_op \<Rightarrow> exec_state \<Rightarrow> exec_state" where
  "exec_step env (OmsOp op) s = s\<lparr>xs_oms := oms_step env op (xs_oms s)\<rparr>"
| "exec_step env (ExecuteOrder w place oid) s = oc_state (execute_order w env place oid s)"
| "exec_step env (CommandEvent w place ev) s = oc_state (handle_execution_command w env place ev s)"
| "exec_step env ForgetCommands s = s\<lparr>xs_processed := []\<rparr>"

definition exec_fresh :: "env \<Rightarrow> exec_op \<Rightarrow> exec_state \<Rightarrow> bool" where
  "exec_fresh env op s = (case op of OmsOp o' \<Rightarrow> op_fresh env o' (xs_oms s) | _ \<Rightarrow> True)"

inductive exec_reachable :: "exec_state \<Rightarrow> bool" where
  start: "exec_reachable \<lparr>xs_processed = [], xs_oms = oms_empty, xs_sent = []\<rparr>"
| step: "exec_reachable s \<Longrightarrow> exec_fresh env op s \<Longrightarrow> exec_reachable (exec_step env op s)"

definition exec_inv :: "exec_state \<Rightarrow> bool" where
  "exec_inv s \<longleftrightarrow> oms_inv (xs_oms s)
     \<and> (\<forall>oid. count_list (xs_sent s) oid \<le> length (entries SUBMITTING (order_journal oid (xs_oms s))))"

text \<open>What \<open>execute_order\<close> does: nothing to the orders, or one reservation with at most one submission.\<close>

lemma execute_cases:
  obtains (idle) "xs_oms (oc_state (execute_order w env place oid s)) = xs_oms s"
      "xs_sent (oc_state (execute_order w env place oid s)) = xs_sent s"
  | (reserved) ord evs ord' db where "exec_check w env oid (xs_oms s) = (Some ord, evs)"
      "exec_reserve env oid (xs_oms s) = Inr (Some ord', db)"
      "execute_order w env place oid s = ok (s\<lparr>xs_oms := db,
         xs_sent := (if fst (exec_submit w env place ord') then oid # xs_sent s else xs_sent s)\<rparr>)
         (snd (exec_submit w env place ord'))"
proof (cases "exec_check w env oid (xs_oms s)")
  case (Pair r evs)
  show ?thesis
  proof (cases r)
    case None
    then show ?thesis using idle Pair by (simp add: execute_order_def)
  next
    case (Some ord)
    have c: "get_order_by_id oid (xs_oms s) = Some ord" "bo_status ord = APPROVED"
      using check_passed[OF Pair[unfolded Some]] by auto
    show ?thesis
    proof (cases "exec_reserve env oid (xs_oms s)")
      case (Inl e)
      then show ?thesis using idle Pair Some by (simp add: execute_order_def)
    next
      case (Inr x)
      obtain r' db where x: "x = (r', db)" by force
      show ?thesis
      proof (cases r')
        case None
        then show ?thesis using c Inr x None
          by (auto simp: exec_reserve_def mark_order_submitting_def Let_def validate_transition_def can_transition_def
              split: sum.splits option.splits if_splits)
      next
        case S: (Some ord')
        then have r: "exec_reserve env oid (xs_oms s) = Inr (Some ord', db)" using Inr x by simp
        have "bo_order_id ord' = oid" using reserve_passed[OF c r] by simp
        then show ?thesis using reserved[OF Pair[unfolded Some] r] Pair Some r
          by (simp add: execute_order_def case_prod_beta Let_def)
      qed
    qed
  qed
qed

lemma execute_inv:
  assumes "exec_inv s"
  shows "exec_inv (oc_state (execute_order w env place oid s))"
proof (cases rule: execute_cases[of w env place oid s])
  case idle
  then show ?thesis using assms by (simp add: exec_inv_def)
next
  case (reserved ord evs ord' db)
  note c = check_passed[OF reserved(1)]
  note r = reserve_passed[OF c(1,2) reserved(2)]
  obtain x where m: "mark_order_submitting env oid (xs_oms s) = Inr (x, db)"
    using reserved(2) by (auto simp: exec_reserve_def split: sum.splits option.splits if_splits)
  have inv: "oms_inv db" using reserve_inv[OF _ m] assms by (simp add: exec_inv_def)
  have same: "length (entries SUBMITTING (order_journal i (xs_oms s))) \<le> length (entries SUBMITTING (order_journal i db))" for i
    using events_grow_entries[OF events_grow_save[OF r(1)]] .
  have up: "length (entries SUBMITTING (order_journal oid db)) = Suc (length (entries SUBMITTING (order_journal oid (xs_oms s))))"
    using save_submitting_entry[OF r(1)] r(3) by simp
  have old: "count_list (xs_sent s) i \<le> length (entries SUBMITTING (order_journal i (xs_oms s)))" for i
    using assms by (simp add: exec_inv_def)
  have keep: "count_list (xs_sent s) i \<le> length (entries SUBMITTING (order_journal i db))" for i
    by (rule order_trans[OF old same])
  have new: "count_list (oid # xs_sent s) i \<le> length (entries SUBMITTING (order_journal i db))" for i
    using up old[of i] keep[of i] by (cases "i = oid") simp_all
  show ?thesis using inv keep new by (simp add: reserved(3) exec_inv_def)
qed

lemma exec_step_inv: "exec_inv s \<Longrightarrow> exec_fresh env op s \<Longrightarrow> exec_inv (exec_step env op s)"
proof (cases op)
  case (OmsOp o')
  assume i: "exec_inv s" and f: "exec_fresh env op s"
  have "oms_inv (oms_step env o' (xs_oms s))"
    using oms_step_inv[of "xs_oms s" env o'] i f by (simp add: exec_inv_def exec_fresh_def OmsOp)
  moreover have "count_list (xs_sent s) oid \<le> length (entries SUBMITTING (order_journal oid (oms_step env o' (xs_oms s))))" for oid
    using events_grow_entries[OF oms_step_events_grow] i by (meson exec_inv_def order_trans)
  ultimately show ?thesis by (simp add: OmsOp exec_inv_def)
next
  case (CommandEvent w place ev)
  assume "exec_inv s"
  then have "exec_inv (s\<lparr>xs_processed := p\<rparr>)" for p by (simp add: exec_inv_def)
  then show ?thesis using \<open>exec_inv s\<close> execute_inv
    by (cases "ev_payload ev") (auto simp: CommandEvent handle_execution_command_def)
next
  case (ExecuteOrder w place oid)
  assume "exec_inv s"
  then show ?thesis using execute_inv by (simp add: ExecuteOrder)
next
  case ForgetCommands
  assume "exec_inv s"
  then show ?thesis by (simp add: ForgetCommands exec_inv_def)
qed

lemma exec_reachable_inv: "exec_reachable s \<Longrightarrow> exec_inv s"
  by (induction rule: exec_reachable.induct) (auto simp: exec_step_inv, simp add: exec_inv_def oms_inv_empty)

section \<open>Properties\<close>

definition demo_exec_world :: exec_world where
  "demo_exec_world = \<lparr>ew_active_broker_name = ''kite'', ew_session = None, ew_feed = None,
     ew_gate = gate_init False False [], ew_live_account_id = ''ICICI_PRIMARY''\<rparr>"

definition demo_place :: "broker_order_request \<Rightarrow> string + broker_order_response" where
  "demo_place rq = Inl ''socket closed''"

definition demo_approved :: exec_state where
  "demo_approved = \<lparr>xs_processed = [], xs_oms = demo_db 2, xs_sent = []\<rparr>"

definition demo_executed :: "exec_state outcome" where
  "demo_executed = execute_order demo_exec_world (demo_env ''x'' 30) demo_place ''a1'' demo_approved"

text \<open>
  C1. Every order is submitted to the broker at most once, through any sequence of commands,
  direct executions, restarts and OMS events, as long as one execution finishes before the next
  begins; and an order that was submitted has the reservation in its journal.
\<close>

theorem exec_submits_once:
  "exec_reachable s \<Longrightarrow> count_list (xs_sent s) oid \<le> 1
   \<and> (oid \<in> set (xs_sent s) \<longrightarrow> entries SUBMITTING (order_journal oid (xs_oms s)) \<noteq> [])"
proof -
  assume r: "exec_reachable s"
  have i: "count_list (xs_sent s) oid \<le> length (entries SUBMITTING (order_journal oid (xs_oms s)))"
    and p: "journal_path None (order_journal oid (xs_oms s)) (order_status oid (xs_oms s))"
    using exec_reachable_inv[OF r] by (simp_all add: exec_inv_def oms_inv_def)
  have "length (entries SUBMITTING (order_journal oid (xs_oms s))) \<le> 1" by (rule journal_path_entry_once[OF p])
  moreover have "0 < count_list (xs_sent s) oid" if "oid \<in> set (xs_sent s)"
    using that by (metis count_list_0_iff neq0_conv)
  ultimately show ?thesis using i by fastforce
qed

definition demo_exec_run :: exec_state where
  "demo_exec_run = exec_step (demo_env ''x'' 30) (ExecuteOrder demo_exec_world demo_place ''a1'')
     (exec_step (demo_env ''b'' 20) (OmsOp (RiskEvent (demo_decision True)))
       (exec_step (demo_env ''a'' 10) (OmsOp (CreateOrder demo_intent)) \<lparr>xs_processed = [], xs_oms = oms_empty, xs_sent = []\<rparr>))"

theorem exec_submits_once_witness:
  "count_list (xs_sent demo_exec_run) ''a1'' = 1 \<and> entries SUBMITTING (order_journal ''a1'' (xs_oms demo_exec_run)) \<noteq> []"
proof -
  have r: "exec_reachable demo_exec_run"
    unfolding demo_exec_run_def
    by (intro exec_reachable.intros) (simp_all add: exec_fresh_def op_fresh_def get_order_by_id_def oms_empty_def)
  have "xs_sent demo_exec_run = [''a1'']" by code_simp
  with exec_submits_once[OF r, of "''a1''"] show ?thesis by simp
qed

text \<open>
  C4. Nothing is submitted for a LIVE entry unless the broker session is connected, the execution
  feed is healthy and the LIVE gate authorizes the account at that moment; and only an APPROVED
  order is submitted.
\<close>

theorem exec_live_boundary:
  "xs_sent (oc_state (execute_order w env place oid s)) \<noteq> xs_sent s \<Longrightarrow>
   \<exists>ord. get_order_by_id oid (xs_oms s) = Some ord \<and> bo_status ord = APPROVED
     \<and> order_status oid (xs_oms (oc_state (execute_order w env place oid s))) = Some SUBMITTING
     \<and> (bo_trading_mode ord = LIVE \<and> \<not> bo_reduce_only ord \<longrightarrow>
          (\<exists>st why. ew_session w = Some (True, st) \<and> ew_feed w = Some (True, why))
          \<and> fst (validate_live_order (clock env 5) (ew_live_account_id w) (ew_gate w)))"
proof -
  assume n: "xs_sent (oc_state (execute_order w env place oid s)) \<noteq> xs_sent s"
  show ?thesis
  proof (cases rule: execute_cases[of w env place oid s])
    case idle
    then show ?thesis using n by simp
  next
    case (reserved ord evs ord' db)
    note c = check_passed[OF reserved(1)]
    note r = reserve_passed[OF c(1,2) reserved(2)]
    have "order_status oid db = Some SUBMITTING" using save_order_status[OF r(1)] r(3) by simp
    then show ?thesis using c reserved(3)
      by (auto simp: health_reason_def split: option.splits prod.splits if_splits)
  qed
qed

theorem exec_live_boundary_witness:
  "\<exists>ord. get_order_by_id ''a1'' (xs_oms demo_approved) = Some ord \<and> bo_status ord = APPROVED"
proof -
  have "xs_sent (oc_state (execute_order demo_exec_world (demo_env ''x'' 30) demo_place ''a1'' demo_approved)) \<noteq> xs_sent demo_approved"
    by code_simp
  from exec_live_boundary[OF this] show ?thesis by blast
qed

text \<open>What the OMS makes of the UNKNOWN report about an order in SUBMITTING.\<close>

lemma unknown_report_effect:
  fixes env env' :: env and filled :: int and avg :: pyfloat and msg :: "message option"
  assumes inv: "oms_inv db" and row: "get_order_by_id oid db = Some row" "bo_status row = SUBMITTING"
    and cid: "bo_client_order_id row = bo_client_order_id ord'"
  defines "ev \<equiv> status_event env 7 ord' None ''UNKNOWN'' filled avg msg"
  shows "oc_raised (handle_broker_order_event env' ev db) = None \<Longrightarrow>
      order_status oid (oc_state (handle_broker_order_event env' ev db)) = Some SUBMISSION_UNKNOWN"
    and "order_status oid (oc_state (handle_broker_order_event env' ev db)) \<in> {Some SUBMITTING, Some SUBMISSION_UNKNOWN}"
proof -
  have rin: "row \<in> set (od_orders db)" "bo_order_id row = oid" using row_get_Some[OF row(1)[unfolded get_order_by_id_def]] by auto
  have get: "get_order_by_client_id (bo_client_order_id ord') db = Some row"
    using rin(1) inv cid row_get_in[of bo_client_order_id "od_orders db" row]
    by (simp add: get_order_by_client_id_def oms_inv_def)
  have up: "to_upper ''UNKNOWN'' = ''UNKNOWN''" by code_simp
  have can: "can_transition SUBMITTING SUBMISSION_UNKNOWN" by (simp add: can_transition_def)
  have st: "order_status oid db = Some SUBMITTING" using row by (simp add: order_status_def)
  show "oc_raised (handle_broker_order_event env' ev db) = None \<Longrightarrow>
      order_status oid (oc_state (handle_broker_order_event env' ev db)) = Some SUBMISSION_UNKNOWN"
    "order_status oid (oc_state (handle_broker_order_event env' ev db)) \<in> {Some SUBMITTING, Some SUBMISSION_UNKNOWN}"
    using get up can row rin st
    by (auto simp: ev_def handle_broker_order_event_def status_event_def broker_target_state_def Let_def
        save_order_status reconciled_order_def split: sum.splits)
qed

text \<open>The stored order after a reservation is the reserved one, under the same client order id.\<close>

lemma reserved_row:
  assumes "get_order_by_id oid db = Some ord" "bo_status ord = APPROVED" "exec_reserve env oid db = Inr (Some ord', db')"
  obtains row where "get_order_by_id oid db' = Some row" "bo_status row = SUBMITTING"
    "bo_client_order_id row = bo_client_order_id ord'"
proof -
  note r = reserve_passed[OF assms]
  show ?thesis
    using that save_order_get[OF r(1), of oid] assms(1) r(2,3)
    by (simp add: merge_order_def order_row_def)
qed

text \<open>What a run can do after a state: any sequential steps, with fresh identifiers.\<close>

inductive exec_continues :: "exec_state \<Rightarrow> exec_state \<Rightarrow> bool" for s where
  here: "exec_continues s s"
| step: "exec_continues s s' \<Longrightarrow> exec_fresh env op s' \<Longrightarrow> exec_continues s (exec_step env op s')"

lemma exec_continues_reachable: "exec_continues s s' \<Longrightarrow> exec_reachable s \<Longrightarrow> exec_reachable s'"
  by (induction rule: exec_continues.induct) (auto intro: exec_reachable.step)

lemma execute_sent: "set (xs_sent s) \<subseteq> set (xs_sent (oc_state (execute_order w env place oid s)))"
  by (cases rule: execute_cases[of w env place oid s]) auto

lemma exec_step_sent: "set (xs_sent s) \<subseteq> set (xs_sent (exec_step env op s))"
proof (cases op)
  case (CommandEvent w place ev)
  show ?thesis
    using execute_sent[of "s\<lparr>xs_processed := p\<rparr>" for p]
    by (cases "ev_payload ev") (auto simp: CommandEvent handle_execution_command_def)
qed (use execute_sent in auto)

lemma exec_continues_sent: "exec_continues s s' \<Longrightarrow> set (xs_sent s) \<subseteq> set (xs_sent s')"
  by (induction rule: exec_continues.induct) (use exec_step_sent in blast)+

lemma sent_once: "exec_reachable s \<Longrightarrow> oid \<in> set (xs_sent s) \<Longrightarrow> count_list (xs_sent s) oid = 1"
proof -
  assume r: "exec_reachable s" and m: "oid \<in> set (xs_sent s)"
  have "count_list (xs_sent s) oid \<le> length (entries SUBMITTING (order_journal oid (xs_oms s)))"
    and "journal_path None (order_journal oid (xs_oms s)) (order_status oid (xs_oms s))"
    using exec_reachable_inv[OF r] by (simp_all add: exec_inv_def oms_inv_def)
  then have "count_list (xs_sent s) oid \<le> 1" using journal_path_entry_once by (meson order_trans)
  moreover have "count_list (xs_sent s) oid \<noteq> 0" using m by (simp add: count_list_0_iff)
  ultimately show ?thesis by linarith
qed

text \<open>
  C2. When the broker call of an execution fails for whatever reason, the execution publishes exactly
  one report: UNKNOWN, for that order.  The OMS handler leaves the order in SUBMITTING or
  SUBMISSION_UNKNOWN, and in SUBMISSION_UNKNOWN whenever it does not raise.  Through any later
  sequence of commands, executions, restarts and OMS events, each finished before the next begins,
  the order stays submitted exactly once.
\<close>

theorem exec_failure_never_retried:
  assumes "exec_reachable s" "\<And>rq. \<exists>e. place rq = Inl e"
    "xs_sent (oc_state (execute_order w env place oid s)) \<noteq> xs_sent s"
  shows "\<exists>ev up ord. oc_published (execute_order w env place oid s) = [ev] \<and> ev_payload ev = StatusPayload up
     \<and> su_status up = ''UNKNOWN'' \<and> get_order_by_id oid (xs_oms s) = Some ord \<and> su_client_order_id up = bo_client_order_id ord
     \<and> (let s1 = oc_state (execute_order w env place oid s); oc = handle_broker_order_event env' ev (xs_oms s1)
        in order_status oid (oc_state oc) \<in> {Some SUBMITTING, Some SUBMISSION_UNKNOWN}
         \<and> (oc_raised oc = None \<longrightarrow> order_status oid (oc_state oc) = Some SUBMISSION_UNKNOWN)
         \<and> (\<forall>s'. exec_continues s1 s' \<longrightarrow> count_list (xs_sent s') oid = 1))"
proof (cases rule: execute_cases[of w env place oid s])
  case idle
  then show ?thesis using assms(3) by simp
next
  case (reserved ord evs ord' db)
  note c = check_passed[OF reserved(1)]
  note r = reserve_passed[OF c(1,2) reserved(2)]
  let ?s1 = "oc_state (execute_order w env place oid s)"
  have sent: "fst (exec_submit w env place ord')" using assms(3) reserved(3) by (auto split: if_splits)
  then obtain rq exc where rq: "build_broker_request (ew_active_broker_name w) ord' = Some rq" "place rq = Inl exc"
    using assms(2) by (fastforce simp: exec_submit_def split: option.splits)
  let ?ev = "status_event env 7 ord' None ''UNKNOWN'' (bo_filled_quantity ord') (bo_average_price ord')
      (Some [Txt (''Execution failed: '' @ exc @ ''. Marked for reconciliation.'')])"
  have pub: "oc_published (execute_order w env place oid s) = [?ev]" using rq reserved(3) by (simp add: exec_submit_def)
  obtain up where up: "ev_payload ?ev = StatusPayload up" "su_status up = ''UNKNOWN''" "su_client_order_id up = bo_client_order_id ord"
    by (simp add: status_event_def r(2))
  obtain x where m: "mark_order_submitting env oid (xs_oms s) = Inr (x, db)"
    using reserved(2) by (auto simp: exec_reserve_def split: sum.splits option.splits if_splits)
  have invd: "oms_inv db" using reserve_inv[OF _ m] exec_reachable_inv[OF assms(1)] by (simp add: exec_inv_def)
  obtain row where row: "get_order_by_id oid db = Some row" "bo_status row = SUBMITTING"
    "bo_client_order_id row = bo_client_order_id ord'" by (rule reserved_row[OF c(1,2) reserved(2)])
  note h = unknown_report_effect[OF invd row, of env' env]
  have r1: "exec_reachable ?s1" using exec_reachable.step[OF assms(1), of env "ExecuteOrder w place oid"] by (simp add: exec_fresh_def)
  have "oid \<in> set (xs_sent ?s1)" using sent reserved(3) by simp
  then have "count_list (xs_sent s') oid = 1" if "exec_continues ?s1 s'" for s'
    using sent_once exec_continues_reachable[OF that r1] exec_continues_sent[OF that] by blast
  then show ?thesis using pub up c(1) h reserved(3)
    by (intro exI[of _ ?ev] exI[of _ up] exI[of _ ord]) (simp add: Let_def)
qed

text \<open>OMS steps alone reach the state of the example.\<close>

lemma oms_only_reachable:
  "oms_reachable db \<Longrightarrow> exec_reachable \<lparr>xs_processed = [], xs_oms = db, xs_sent = []\<rparr>"
proof (induction rule: oms_reachable.induct)
  case start
  then show ?case by (rule exec_reachable.start)
next
  case (step db env op)
  then show ?case using exec_reachable.step[OF step.IH, of env "OmsOp op"] by (simp add: exec_fresh_def)
qed

theorem exec_failure_never_retried_witness:
  "\<exists>ev up. oc_published demo_executed = [ev] \<and> ev_payload ev = StatusPayload up \<and> su_status up = ''UNKNOWN''"
proof -
  have r: "exec_reachable demo_approved" using oms_only_reachable[OF demo_reachable(2)] by (simp add: demo_approved_def)
  have f: "\<And>rq. \<exists>e. demo_place rq = Inl e" by (simp add: demo_place_def)
  have n: "xs_sent (oc_state (execute_order demo_exec_world (demo_env ''x'' 30) demo_place ''a1'' demo_approved)) \<noteq> xs_sent demo_approved"
    by code_simp
  from exec_failure_never_retried[OF r f n] show ?thesis unfolding demo_executed_def by blast
qed

text \<open>
  The broker's cumulative fill of an order, as a pass sees it: the stored one of an order the broker has
  reported FILLED, otherwise the one of the broker's evidence.
\<close>

definition broker_cumulative :: "recon_world \<Rightarrow> broker_order \<Rightarrow> int" where
  "broker_cumulative w ord = (if bo_status ord = FILLED then bo_filled_quantity ord
     else case broker_evidence w ord of Inr (Some resp) \<Rightarrow> rs_filled_quantity resp | _ \<Rightarrow> 0)"

text \<open>A fill report of the reconciliation carries the missing difference under the cumulative label.\<close>

lemma reconcile_fill:
  assumes "ev \<in> set (reconcile_order w env ord)" "ev_payload ev = FillPayload t"
  defines "c \<equiv> broker_cumulative w ord"
  shows "tf_execution_id t = Some (fill_label (bo_order_id ord) c)" "tf_order_id t = bo_order_id ord"
    "tf_quantity t = c - rn_executed w (bo_order_id ord)" "rn_executed w (bo_order_id ord) < c"
  using assms
  by (auto simp: reconcile_order_def fill_event_def status_event_def broker_cumulative_def Let_def
      split: if_splits sum.splits option.splits)

text \<open>
  Every stored execution that carries a cumulative label of the order is within what the order
  has executed: true of an empty portfolio and kept by every reconciled fill.
\<close>

definition fills_labelled :: "string \<Rightarrow> portfolio_db \<Rightarrow> bool" where
  "fills_labelled oid db \<longleftrightarrow>
     (\<forall>c \<ge> 0. fill_label oid c \<in> execution_ids db \<longrightarrow> c \<le> get_executed_quantity_for_order oid db)"

lemma fills_labelled_eq: "fills_labelled oid db = portfolio_reporter.labelled oid db"
  by (simp add: fills_labelled_def portfolio_reporter.labelled_def)

text \<open>
  C16. A reconciled fill that the portfolio consumes before the next reconciliation brings the
  executed quantity of the order exactly to the broker's cumulative fill (\<open>broker_cumulative\<close>: the
  filled quantity of an order that is FILLED, else that of the broker's reply), carries it in its
  label, touches no other order, and can be redelivered without effect.
\<close>

theorem reconcile_settles_fill:
  "ev \<in> set (reconcile_order w env ord) \<Longrightarrow> ev_payload ev = FillPayload t \<Longrightarrow>
   rn_executed w = (\<lambda>x. get_executed_quantity_for_order x db) \<Longrightarrow> fills_labelled (bo_order_id ord) db \<Longrightarrow>
   0 \<le> get_executed_quantity_for_order (bo_order_id ord) db \<Longrightarrow>
   put_execution nid now mode price (fill_execution env' t) db = Some db' \<Longrightarrow>
   let c = broker_cumulative w ord in tf_execution_id t = Some (fill_label (bo_order_id ord) c)
     \<and> get_executed_quantity_for_order (bo_order_id ord) db' = c \<and> fills_labelled (bo_order_id ord) db'
     \<and> (\<forall>x. x \<noteq> bo_order_id ord \<longrightarrow> get_executed_quantity_for_order x db' = get_executed_quantity_for_order x db)
     \<and> (\<forall>nid' now' mode' price' env'' db''. put_execution nid' now' mode' price' (fill_execution env'' t) db' = Some db'' \<longrightarrow>
          get_executed_quantity_for_order (bo_order_id ord) db'' = c)"
proof -
  assume e: "ev \<in> set (reconcile_order w env ord)" "ev_payload ev = FillPayload t"
    and w: "rn_executed w = (\<lambda>x. get_executed_quantity_for_order x db)"
    and l: "fills_labelled (bo_order_id ord) db" and pos: "0 \<le> get_executed_quantity_for_order (bo_order_id ord) db"
    and put: "put_execution nid now mode price (fill_execution env' t) db = Some db'"
  let ?o = "bo_order_id ord"
  let ?c = "broker_cumulative w ord"
  note c = reconcile_fill[OF e, unfolded w]
  have x: "ex_execution_id (fill_execution env t) = fill_label ?o ?c" "ex_order_id (fill_execution env t) = ?o"
    "ex_quantity (fill_execution env t) = ?c - get_executed_quantity_for_order ?o db" for env
    using c(1-3) by (auto simp: fill_execution_def str_or_def fill_label_def)
  have lab: "portfolio_reporter.labelled ?o db" using l by (simp add: fills_labelled_eq)
  have c0: "0 \<le> ?c" using pos c(4) by simp
  note d = portfolio_reporter.deliver_delta[OF lab x(1) x(2) x(3) c(4) put c0]
  have "get_executed_quantity_for_order ?o db'' = ?c"
    if "put_execution nid' now' mode' price' (fill_execution env'' t) db' = Some db''" for nid' now' mode' price' env'' db''
  proof -
    have known: "ex_execution_id (fill_execution env'' t) \<in> execution_ids db'"
    proof (cases "ex_execution_id (fill_execution env' t) \<in> execution_ids db")
      case True
      then show ?thesis using portfolio_fills.put_known[OF True put] x(1) by simp
    next
      case False
      then show ?thesis using portfolio_fills.put_new[OF False put] x(1) by simp
    qed
    show ?thesis using portfolio_fills.put_known[OF known that] d(1) by simp
  qed
  then show ?thesis using c(1) d(1-3) by (auto simp: fills_labelled_eq Let_def)
qed

definition demo_filled_order :: broker_order where
  "demo_filled_order = (initial_order (demo_env ''a'' 0) demo_intent)\<lparr>bo_status := FILLED, bo_filled_quantity := 75,
     bo_trading_mode := LIVE\<rparr>"

definition demo_recon :: "portfolio_db \<Rightarrow> recon_world" where
  "demo_recon db = \<lparr>rn_order_status = (\<lambda>_. Inr None), rn_find = (\<lambda>_. Inr None), rn_trades = Inr [],
     rn_executed = (\<lambda>x. get_executed_quantity_for_order x db)\<rparr>"

definition demo_report :: trade_fill where
  "demo_report = \<lparr>tf_execution_id = Some (fill_label ''a1'' 75), tf_broker_execution_id = None, tf_order_id = ''a1'',
     tf_instrument_id = ''NFO:NIFTY'', tf_symbol = ''NIFTY'', tf_side = BUY, tf_quantity = 75, tf_price = Fin 100,
     tf_trading_mode = LIVE\<rparr>"

lemma demo_order_id: "bo_order_id demo_filled_order = ''a1''"
  by code_simp

lemma demo_report_published:
  "\<exists>ev \<in> set (reconcile_order (demo_recon portfolio_empty) env demo_filled_order). ev_payload ev = FillPayload demo_report"
  using demo_order_id
  by (simp add: reconcile_order_def demo_filled_order_def demo_recon_def fill_event_def demo_report_def
      get_executed_quantity_for_order_def portfolio_empty_def initial_order_def demo_intent_def f_or_def ftrue_def Let_def)

lemma demo_report_applied:
  "\<exists>db'. put_execution ''n'' 0 LIVE (Fin 100) (fill_execution env demo_report) portfolio_empty = Some db'"
  by (simp add: put_execution_def apply_execution_atomic_def portfolio_empty_def row_insert_def demo_report_def
      get_position_def filled_position_def fill_execution_def str_or_def exact_eval position_reals_def Let_def)

theorem reconcile_settles_fill_witness:
  "\<exists>db'. put_execution ''n'' 0 LIVE (Fin 100) (fill_execution (demo_env ''z'' 0) demo_report) portfolio_empty = Some db'
     \<and> get_executed_quantity_for_order ''a1'' db' = 75 \<and> fills_labelled ''a1'' db'"
proof -
  obtain ev where ev: "ev \<in> set (reconcile_order (demo_recon portfolio_empty) (demo_env ''z'' 0) demo_filled_order)"
    "ev_payload ev = FillPayload demo_report" using demo_report_published by blast
  obtain db' where put: "put_execution ''n'' 0 LIVE (Fin 100) (fill_execution (demo_env ''z'' 0) demo_report) portfolio_empty = Some db'"
    using demo_report_applied by blast
  have w: "rn_executed (demo_recon portfolio_empty) = (\<lambda>x. get_executed_quantity_for_order x portfolio_empty)"
    by (simp add: demo_recon_def)
  have l: "fills_labelled (bo_order_id demo_filled_order) portfolio_empty"
    by (simp add: fills_labelled_def execution_ids_def portfolio_empty_def)
  have z: "0 \<le> get_executed_quantity_for_order (bo_order_id demo_filled_order) portfolio_empty"
    by (simp add: get_executed_quantity_for_order_def portfolio_empty_def)
  have "broker_cumulative (demo_recon portfolio_empty) demo_filled_order = 75" by (simp add: broker_cumulative_def demo_filled_order_def)
  with reconcile_settles_fill[OF ev w l z put, unfolded demo_order_id] put show ?thesis by (auto simp: Let_def)
qed

text \<open>
  The difference is computed against what the portfolio has consumed when the report is published:
  two reconciliations before the first fill is consumed count 25 of a total of 50 twice.
\<close>

definition open_order :: broker_order where
  "open_order = demo_filled_order\<lparr>bo_status := OPEN, bo_broker_order_id := Some ''B1'', bo_filled_quantity := 0\<rparr>"

definition partial_view :: "int \<Rightarrow> recon_world" where
  "partial_view cum = (demo_recon portfolio_empty)\<lparr>rn_order_status := (\<lambda>_. Inr (Some
     \<lparr>rs_success = True, rs_broker_order_id = Some ''B1'', rs_client_order_id = ''CL'', rs_status = ''PARTIALLY_FILLED'',
      rs_message = None, rs_filled_quantity = cum, rs_average_price = Fin 100\<rparr>))\<rparr>"

definition fills_of :: "envelope list \<Rightarrow> trade_fill list" where
  "fills_of evs = concat (map (\<lambda>e. case ev_payload e of FillPayload t \<Rightarrow> [t] | _ \<Rightarrow> []) evs)"

lemma reconcile_lag_overcounts:
  "map (\<lambda>t. (tf_execution_id t, tf_quantity t))
     (fills_of (reconcile_order (partial_view 25) env open_order @ reconcile_order (partial_view 50) env open_order))
   = [(Some (fill_label ''a1'' 25), 25), (Some (fill_label ''a1'' 50), 50)]"
  using demo_order_id
  by (simp add: fills_of_def reconcile_order_def partial_view_def open_order_def demo_recon_def
      broker_evidence_def str_or_def fill_event_def status_event_def get_executed_quantity_for_order_def
      portfolio_empty_def Let_def)

text \<open>
  The check and the reservation are separate transactions and \<^verbatim>\<open>mark_order_submitting\<close> returns an
  order that is already SUBMITTING: when two executions of one order have both passed the check,
  both reservations succeed and both go on to the broker.
\<close>

lemma exec_interleaving_submits_twice:
  assumes "exec_check w env oid db = (Some ord, evs)" "exec_reserve env oid db = Inr (Some ord1, db1)"
  shows "\<exists>ord2. exec_reserve env' oid db1 = Inr (Some ord2, db1) \<and> bo_client_order_id ord2 = bo_client_order_id ord1"
proof -
  note c = check_passed[OF assms(1)]
  note r = reserve_passed[OF c(1,2) assms(2)]
  have "get_order_by_id oid db1 = Some (merge_order ord (order_row env 1 SUBMITTING (ord\<lparr>bo_status := SUBMITTING, bo_updated_at := clock env 0\<rparr>)))"
    using save_order_get[OF r(1), of oid] r(3) c(1) by simp
  then show ?thesis by (simp add: exec_reserve_def mark_order_submitting_def r(2) merge_order_def order_row_def)
qed

end
