(* ===== verification/PaperBroker.thy ===== *)
theory PaperBroker imports Contracts begin

text \<open>
  The simulated broker, \<^verbatim>\<open>services/broker_gateway/paper_adapter.py\<close>, and the routing of
  \<^verbatim>\<open>services/broker_gateway/service.py\<close>.  A Python dictionary keyed by an identifier is a table
  in insertion order.  \<^verbatim>\<open>generate_id()[:8].upper()\<close> is drawn from \<open>uuid\<close>, and two identifiers may
  collide: an assignment to a present key then replaces the row.  Quantities are within the range
  a float can hold, so that mixed arithmetic does not raise \<^verbatim>\<open>OverflowError\<close>.
\<close>

section \<open>State\<close>

record paper_order =
  pd_broker_order_id :: string
  pd_client_order_id :: string
  pd_stock_code :: string
  pd_action :: string
  pd_quantity :: int
  pd_price :: pyfloat
  pd_trigger_price :: "pyfloat option"
  pd_status :: string
  pd_filled_quantity :: int
  pd_average_price :: pyfloat

record paper_position =
  pp_quantity :: int
  pp_buy_qty :: int
  pp_sell_qty :: int
  pp_buy_val :: pyfloat
  pp_sell_val :: pyfloat
  pp_avg_price :: pyfloat

record paper_broker =
  pa_initial_cash :: pyfloat
  pa_total_cash :: pyfloat
  pa_used_margin :: pyfloat
  pa_orders :: "paper_order list"
  pa_positions :: "(string \<times> paper_position) list"
  pa_trades :: "broker_trade_response list"
  pa_market_prices :: "(string \<times> pyfloat) list"

definition paper_init :: "pyfloat \<Rightarrow> paper_broker" where
  "paper_init initial_cash = \<lparr>pa_initial_cash = initial_cash, pa_total_cash = initial_cash,
     pa_used_margin = Fin 0, pa_orders = [], pa_positions = [], pa_trades = [], pa_market_prices = []\<rparr>"

text \<open>\<^verbatim>\<open>d.get(key, default)\<close> and \<^verbatim>\<open>d[key] = value\<close> of a dictionary in insertion order.\<close>

definition dict_get :: "'k \<Rightarrow> 'v \<Rightarrow> ('k \<times> 'v) list \<Rightarrow> 'v" where
  "dict_get key dflt d = (case row_get fst key d of None \<Rightarrow> dflt | Some kv \<Rightarrow> snd kv)"

definition dict_set :: "'k \<Rightarrow> 'v \<Rightarrow> ('k \<times> 'v) list \<Rightarrow> ('k \<times> 'v) list" where
  "dict_set key v d = row_upsert fst (\<lambda>old new. (fst old, snd new)) (key, v) d"

interpretation dict: keyed_table "fst :: 'k \<times> 'v \<Rightarrow> 'k" "\<lambda>old new. (fst old, snd new)"
  by unfold_locales simp

section \<open>Operations\<close>

definition set_mock_market_price :: "string \<Rightarrow> pyfloat \<Rightarrow> paper_broker \<Rightarrow> paper_broker" where
  "set_mock_market_price symbol price s = s\<lparr>pa_market_prices := dict_set symbol price (pa_market_prices s)\<rparr>"

definition get_funds :: "paper_broker \<Rightarrow> broker_funds" where
  "get_funds s = \<lparr>bf_available_margin = pmax (Fin 0) (fsub (pa_total_cash s) (pa_used_margin s)),
     bf_total_cash = pa_total_cash s, bf_used_margin = pa_used_margin s, bf_unrealized_m2m = Fin 0\<rparr>"

definition paper_id :: "string \<Rightarrow> env \<Rightarrow> nat \<Rightarrow> string" where
  "paper_id tag env i = tag @ to_upper (take 8 (uuid env i))"

definition is_buy :: "string \<Rightarrow> bool" where
  "is_buy action = (to_lower action = ''buy'')"

definition signed_quantity :: "string \<Rightarrow> int \<Rightarrow> int" where
  "signed_quantity action quantity = (if is_buy action then quantity else - quantity)"

text \<open>The price an order fills at, and its cost.\<close>

definition fill_price :: "broker_order_request \<Rightarrow> paper_broker \<Rightarrow> pyfloat" where
  "fill_price request s =
     (if to_lower (rq_order_type request) = ''market''
      then dict_get (rq_stock_code request) (f_or (rq_price request) (Fin 100)) (pa_market_prices s)
      else rq_price request)"

definition order_cost :: "broker_order_request \<Rightarrow> paper_broker \<Rightarrow> pyfloat" where
  "order_cost request s = fmul (fill_price request s) (fint (rq_quantity request))"

definition empty_paper_position :: paper_position where
  "empty_paper_position = \<lparr>pp_quantity = 0, pp_buy_qty = 0, pp_sell_qty = 0,
     pp_buy_val = Fin 0, pp_sell_val = Fin 0, pp_avg_price = Fin 0\<rparr>"

definition moved_position :: "string \<Rightarrow> int \<Rightarrow> pyfloat \<Rightarrow> pyfloat \<Rightarrow> paper_position \<Rightarrow> paper_position" where
  "moved_position action quantity cost price pos =
     (let new_qty = pp_quantity pos + signed_quantity action quantity;
          pos1 = (if is_buy action
             then pos\<lparr>pp_buy_qty := pp_buy_qty pos + quantity, pp_buy_val := fadd (pp_buy_val pos) cost\<rparr>
             else pos\<lparr>pp_sell_qty := pp_sell_qty pos + quantity, pp_sell_val := fadd (pp_sell_val pos) cost\<rparr>)
      in pos1\<lparr>pp_quantity := new_qty,
           pp_avg_price :=
             (if new_qty \<noteq> 0 then
                (if pp_buy_qty pos1 > 0
                 then (case fdiv (pp_buy_val pos1) (fint (pp_buy_qty pos1)) of None \<Rightarrow> NaN | Some a \<Rightarrow> a)
                 else price)
              else Fin 0)\<rparr>)"

text \<open>A response without message fields set elsewhere.\<close>

definition response :: "bool \<Rightarrow> string option \<Rightarrow> string \<Rightarrow> string \<Rightarrow> message option \<Rightarrow> int \<Rightarrow> pyfloat \<Rightarrow> broker_order_response" where
  "response success broker_id client_id st msg filled avg =
     \<lparr>rs_success = success, rs_broker_order_id = broker_id, rs_client_order_id = client_id, rs_status = st,
      rs_message = msg, rs_filled_quantity = filled, rs_average_price = avg\<rparr>"

definition rejected :: "string option \<Rightarrow> string \<Rightarrow> string \<Rightarrow> broker_order_response" where
  "rejected broker_id client_id msg = response False broker_id client_id ''REJECTED'' (Some [Txt msg]) 0 (Fin 0)"

definition is_stop :: "broker_order_request \<Rightarrow> bool" where
  "is_stop request \<longleftrightarrow>
     replace_char CHR ''-'' CHR ''_'' (to_lower (rq_order_type request)) \<in> {''stop_limit'', ''stoploss''}"

definition put_order :: "paper_order \<Rightarrow> paper_broker \<Rightarrow> paper_broker" where
  "put_order row s = s\<lparr>pa_orders := row_upsert pd_broker_order_id (\<lambda>old new. new\<lparr>pd_broker_order_id := pd_broker_order_id old\<rparr>) row (pa_orders s)\<rparr>"

interpretation paper_orders: keyed_table pd_broker_order_id
  "\<lambda>old new. new\<lparr>pd_broker_order_id := pd_broker_order_id old\<rparr>"
  by unfold_locales simp

definition order_entry ::
  "string \<Rightarrow> broker_order_request \<Rightarrow> pyfloat \<Rightarrow> pyfloat option \<Rightarrow> string \<Rightarrow> int \<Rightarrow> pyfloat \<Rightarrow> paper_order" where
  "order_entry bid request price trigger st filled avg =
     \<lparr>pd_broker_order_id = bid, pd_client_order_id = rq_client_order_id request,
      pd_stock_code = rq_stock_code request, pd_action = rq_action request, pd_quantity = rq_quantity request,
      pd_price = price, pd_trigger_price = trigger, pd_status = st, pd_filled_quantity = filled,
      pd_average_price = avg\<rparr>"

text \<open>A stop order is left resting; it is refused without a positive trigger.\<close>

definition rest_stop :: "string \<Rightarrow> broker_order_request \<Rightarrow> paper_broker \<Rightarrow> broker_order_response \<times> paper_broker" where
  "rest_stop bid request s =
     (if (case rq_trigger_price request of None \<Rightarrow> True | Some t \<Rightarrow> fle t (Fin 0))
      then (rejected None (rq_client_order_id request) ''STOP_LIMIT requires positive trigger_price'', s)
      else (response True (Some bid) (rq_client_order_id request) ''OPEN''
              (Some [Txt ''Paper stop-limit accepted and left resting'']) 0 (Fin 0),
            put_order (order_entry bid request (rq_price request) (rq_trigger_price request) ''OPEN'' 0 (Fin 0)) s))"

text \<open>The fill: trade, position, margin, order row.\<close>

definition paper_trade :: "env \<Rightarrow> string \<Rightarrow> broker_order_request \<Rightarrow> paper_broker \<Rightarrow> broker_trade_response" where
  "paper_trade env bid request s =
     \<lparr>bt_trade_id = paper_id ''TRD-'' env 1, bt_broker_order_id = bid,
      bt_client_order_id = Some (rq_client_order_id request), bt_stock_code = rq_stock_code request,
      bt_exchange_code = rq_exchange_code request, bt_action = to_upper (rq_action request),
      bt_quantity = rq_quantity request, bt_price = fill_price request s, bt_trade_time = clock env 0\<rparr>"

definition fill_order :: "env \<Rightarrow> string \<Rightarrow> broker_order_request \<Rightarrow> paper_broker \<Rightarrow> paper_broker" where
  "fill_order env bid request s =
     (let price = fill_price request s; cost = order_cost request s; symbol = rq_stock_code request;
          pos = dict_get symbol empty_paper_position (pa_positions s)
      in put_order (order_entry bid request price None ''FILLED'' (rq_quantity request) price)
          (s\<lparr>pa_trades := pa_trades s @ [paper_trade env bid request s],
             pa_used_margin := (if is_buy (rq_action request) then fadd (pa_used_margin s) cost
               else pmax (Fin 0) (fsub (pa_used_margin s) cost)),
             pa_positions := dict_set symbol
               (moved_position (rq_action request) (rq_quantity request) cost price pos) (pa_positions s)\<rparr>))"

definition place_order :: "env \<Rightarrow> broker_order_request \<Rightarrow> paper_broker \<Rightarrow> broker_order_response \<times> paper_broker" where
  "place_order env request s =
     (let bid = paper_id ''PAPER-'' env 0 in
      if is_stop request then rest_stop bid request s
      else if is_buy (rq_action request) \<and>
          flt (fsub (pa_total_cash s) (pa_used_margin s)) (order_cost request s)
      then (rejected None (rq_client_order_id request) ''Insufficient paper margin available'', s)
      else (response True (Some bid) (rq_client_order_id request) ''FILLED''
              (Some [Txt ''Paper order filled successfully'']) (rq_quantity request) (fill_price request s),
            fill_order env bid request s))"

text \<open>An order dictionary is never empty, so \<^verbatim>\<open>if not order\<close> is the test for absence.\<close>

definition modify_order ::
  "string \<Rightarrow> int option \<Rightarrow> pyfloat option \<Rightarrow> paper_broker \<Rightarrow> broker_order_response \<times> paper_broker" where
  "modify_order bid quantity price s =
     (case row_get pd_broker_order_id bid (pa_orders s) of
        None \<Rightarrow> (rejected (Some bid) [] ''Order not found'', s)
      | Some ord \<Rightarrow>
          if pd_status ord = ''FILLED''
          then (rejected (Some bid) (pd_client_order_id ord) ''Cannot modify already filled order'', s)
          else (response True (Some bid) (pd_client_order_id ord) ''MODIFIED'' (Some [Txt ''Order modified'']) 0 (Fin 0),
            s\<lparr>pa_orders := row_update pd_broker_order_id bid
               (\<lambda>r. r\<lparr>pd_quantity := (case quantity of None \<Rightarrow> pd_quantity r | Some q \<Rightarrow> q),
                      pd_price := (case price of None \<Rightarrow> pd_price r | Some p \<Rightarrow> p)\<rparr>) (pa_orders s)\<rparr>))"

definition cancel_order :: "string \<Rightarrow> paper_broker \<Rightarrow> broker_order_response \<times> paper_broker" where
  "cancel_order bid s =
     (case row_get pd_broker_order_id bid (pa_orders s) of
        None \<Rightarrow> (rejected (Some bid) [] ''Order not found'', s)
      | Some ord \<Rightarrow>
          (response True (Some bid) (pd_client_order_id ord) ''CANCELLED'' (Some [Txt ''Order cancelled'']) 0 (Fin 0),
           s\<lparr>pa_orders := row_update pd_broker_order_id bid (\<lambda>r. r\<lparr>pd_status := ''CANCELLED''\<rparr>) (pa_orders s)\<rparr>))"

definition get_order_status :: "string \<Rightarrow> paper_broker \<Rightarrow> broker_order_response option" where
  "get_order_status bid s =
     map_option (\<lambda>ord. response True (Some (pd_broker_order_id ord)) (pd_client_order_id ord) (pd_status ord) None
         (pd_filled_quantity ord) (pd_average_price ord))
       (row_get pd_broker_order_id bid (pa_orders s))"

definition find_order_by_client_id :: "string \<Rightarrow> paper_broker \<Rightarrow> broker_order_response option" where
  "find_order_by_client_id client_id s =
     map_option (\<lambda>ord. response (pd_status ord \<notin> {''REJECTED'', ''CANCELLED''}) (Some (pd_broker_order_id ord)) client_id
         (if pd_status ord = [] then ''UNKNOWN'' else pd_status ord) None
         (pd_filled_quantity ord) (f_or (pd_average_price ord) (Fin 0)))
       (row_get pd_client_order_id client_id (pa_orders s))"

definition position_report :: "paper_broker \<Rightarrow> string \<times> paper_position \<Rightarrow> broker_position_response" where
  "position_report s kv =
     (let symbol = fst kv; pos = snd kv; ltp = dict_get symbol (pp_avg_price pos) (pa_market_prices s)
      in \<lparr>bp_stock_code = symbol, bp_exchange_code = ''NFO'', bp_product_type = ''options'',
          bp_quantity = pp_quantity pos, bp_average_price = pp_avg_price pos, bp_ltp = ltp,
          bp_pnl = fmul (fsub ltp (pp_avg_price pos)) (fint (pp_quantity pos)),
          bp_strike_price = None, bp_right = None, bp_expiry_date = None\<rparr>)"

definition get_positions :: "paper_broker \<Rightarrow> broker_position_response list" where
  "get_positions s = map (position_report s) (filter (\<lambda>kv. pp_quantity (snd kv) \<noteq> 0) (pa_positions s))"

definition get_trades :: "paper_broker \<Rightarrow> broker_trade_response list" where
  "get_trades s = pa_trades s"

section \<open>The book: positions against trades\<close>

definition bought_of :: "string \<Rightarrow> broker_trade_response list \<Rightarrow> int" where
  "bought_of stk ts = sum_list (map bt_quantity (filter (\<lambda>t. bt_stock_code t = stk \<and> is_buy (bt_action t)) ts))"

definition sold_of :: "string \<Rightarrow> broker_trade_response list \<Rightarrow> int" where
  "sold_of stk ts = sum_list (map bt_quantity (filter (\<lambda>t. bt_stock_code t = stk \<and> \<not> is_buy (bt_action t)) ts))"

definition book_agrees :: "string \<Rightarrow> paper_broker \<Rightarrow> bool" where
  "book_agrees stk s \<longleftrightarrow>
     (let pos = dict_get stk empty_paper_position (pa_positions s)
      in pp_quantity pos = bought_of stk (pa_trades s) - sold_of stk (pa_trades s)
       \<and> pp_buy_qty pos = bought_of stk (pa_trades s) \<and> pp_sell_qty pos = sold_of stk (pa_trades s))"

definition backed :: "paper_broker \<Rightarrow> paper_order \<Rightarrow> bool" where
  "backed s r \<longleftrightarrow> pd_filled_quantity r = pd_quantity r \<and>
     (\<exists>t \<in> set (pa_trades s). bt_broker_order_id t = pd_broker_order_id r \<and> bt_client_order_id t = Some (pd_client_order_id r)
        \<and> bt_quantity t = pd_filled_quantity r \<and> bt_price t = pd_average_price r)"

definition paper_inv :: "paper_broker \<Rightarrow> bool" where
  "paper_inv s \<longleftrightarrow> (\<forall>stk. book_agrees stk s) \<and> keys_distinct pd_broker_order_id (pa_orders s)
     \<and> (\<forall>r \<in> set (pa_orders s). pd_status r = ''FILLED'' \<longrightarrow> backed s r)"

datatype paper_op =
  PlaceOp env broker_order_request
| ModifyOp string "int option" "pyfloat option"
| CancelOp string
| PriceOp string pyfloat

fun paper_step :: "paper_op \<Rightarrow> paper_broker \<Rightarrow> paper_broker" where
  "paper_step (PlaceOp env request) s = snd (place_order env request s)"
| "paper_step (ModifyOp bid quantity price) s = snd (modify_order bid quantity price s)"
| "paper_step (CancelOp bid) s = snd (cancel_order bid s)"
| "paper_step (PriceOp symbol price) s = set_mock_market_price symbol price s"

definition paper_run :: "paper_op list \<Rightarrow> paper_broker \<Rightarrow> paper_broker" where
  "paper_run ops s = fold paper_step ops s"

text \<open>Dictionary laws.\<close>

lemma dict_get_set: "dict_get k d (dict_set k' v kvs) = (if k = k' then v else dict_get k d kvs)"
proof -
  have other: "k \<noteq> k' \<Longrightarrow> row_get fst k (dict_set k' v kvs) = row_get fst k kvs"
    unfolding dict_set_def by (rule dict.get_upsert_other) simp
  have same: "row_get fst k' (dict_set k' v kvs) = Some (k', v)"
    using dict.get_upsert_same[of "(k', v)" kvs]
    by (auto simp: dict_set_def dest!: row_get_SomeD split: option.splits)
  show ?thesis using other same by (auto simp: dict_get_def)
qed

lemma put_order_fields [simp]:
  "pa_trades (put_order r s) = pa_trades s" "pa_positions (put_order r s) = pa_positions s"
  "pa_used_margin (put_order r s) = pa_used_margin s" "pa_total_cash (put_order r s) = pa_total_cash s"
  "pa_market_prices (put_order r s) = pa_market_prices s"
  by (simp_all add: put_order_def)

lemma get_put_order:
  "row_get pd_broker_order_id bid (pa_orders (put_order r s)) =
   (if bid = pd_broker_order_id r then Some r else row_get pd_broker_order_id bid (pa_orders s))"
proof -
  have "row_get pd_broker_order_id (pd_broker_order_id r) (pa_orders (put_order r s)) = Some r"
    using paper_orders.get_upsert_same[of r "pa_orders s"]
    by (auto simp: put_order_def dest!: row_get_SomeD split: option.splits)
  moreover have "bid \<noteq> pd_broker_order_id r \<Longrightarrow>
      row_get pd_broker_order_id bid (pa_orders (put_order r s)) = row_get pd_broker_order_id bid (pa_orders s)"
    unfolding put_order_def by (simp add: paper_orders.get_upsert_other)
  ultimately show ?thesis by simp
qed

lemma put_order_in: "r' \<in> set (pa_orders (put_order r s)) \<Longrightarrow> r' = r \<or> r' \<in> set (pa_orders s)"
  by (auto simp: put_order_def dest!: paper_orders.upsert_in)

lemma put_order_distinct:
  "keys_distinct pd_broker_order_id (pa_orders s) \<Longrightarrow> keys_distinct pd_broker_order_id (pa_orders (put_order r s))"
  by (simp add: put_order_def paper_orders.distinct_upsert)

text \<open>Case of letters: lowering undoes raising.\<close>

lemma to_lower_upper: "to_lower (to_upper a) = to_lower a"
proof -
  have "(if 65 \<le> (of_char c' :: nat) \<and> (of_char c' :: nat) \<le> 90 then char_of ((of_char c' :: nat) + 32) else c')
      = (if 65 \<le> (of_char c :: nat) \<and> (of_char c :: nat) \<le> 90 then char_of ((of_char c :: nat) + 32) else c)"
    if "c' = (if 97 \<le> (of_char c :: nat) \<and> (of_char c :: nat) \<le> 122 then char_of ((of_char c :: nat) - 32) else c)"
    for c c' :: char
    using that by (cases "97 \<le> (of_char c :: nat) \<and> (of_char c :: nat) \<le> 122") auto
  then show ?thesis by (auto simp: to_lower_def to_upper_def)
qed

lemma is_buy_upper [simp]: "is_buy (to_upper a) = is_buy a"
  by (simp add: is_buy_def to_lower_upper)

text \<open>The branches of a placement.\<close>

definition missing_trigger :: "broker_order_request \<Rightarrow> bool" where
  "missing_trigger rq \<longleftrightarrow> (case rq_trigger_price rq of None \<Rightarrow> True | Some t \<Rightarrow> fle t (Fin 0))"

definition short_of_margin :: "broker_order_request \<Rightarrow> paper_broker \<Rightarrow> bool" where
  "short_of_margin rq s \<longleftrightarrow> is_buy (rq_action rq) \<and> flt (fsub (pa_total_cash s) (pa_used_margin s)) (order_cost rq s)"

abbreviation new_id :: "env \<Rightarrow> string" where "new_id env \<equiv> paper_id ''PAPER-'' env 0"

definition resting_order :: "env \<Rightarrow> broker_order_request \<Rightarrow> paper_order" where
  "resting_order env rq = order_entry (new_id env) rq (rq_price rq) (rq_trigger_price rq) ''OPEN'' 0 (Fin 0)"

lemma place_refused:
  "(if is_stop rq then missing_trigger rq else short_of_margin rq s) \<Longrightarrow>
   \<exists>msg. place_order env rq s = (rejected None (rq_client_order_id rq) msg, s)"
  by (auto simp: place_order_def rest_stop_def Let_def missing_trigger_def short_of_margin_def split: if_splits)

lemma place_rests:
  "is_stop rq \<Longrightarrow> \<not> missing_trigger rq \<Longrightarrow> place_order env rq s =
     (response True (Some (new_id env)) (rq_client_order_id rq) ''OPEN''
        (Some [Txt ''Paper stop-limit accepted and left resting'']) 0 (Fin 0), put_order (resting_order env rq) s)"
  by (simp add: place_order_def rest_stop_def Let_def missing_trigger_def resting_order_def)

lemma place_fills:
  "\<not> is_stop rq \<Longrightarrow> \<not> short_of_margin rq s \<Longrightarrow> place_order env rq s =
     (response True (Some (new_id env)) (rq_client_order_id rq) ''FILLED''
        (Some [Txt ''Paper order filled successfully'']) (rq_quantity rq) (fill_price rq s),
      fill_order env (new_id env) rq s)"
  by (auto simp add: place_order_def Let_def short_of_margin_def)

lemma place_cases:
  obtains (refused) msg where "if is_stop rq then missing_trigger rq else short_of_margin rq s"
      "place_order env rq s = (rejected None (rq_client_order_id rq) msg, s)"
  | (rests) "is_stop rq" "\<not> missing_trigger rq" "snd (place_order env rq s) = put_order (resting_order env rq) s"
      "rs_status (fst (place_order env rq s)) = ''OPEN''"
  | (fills) "\<not> is_stop rq" "\<not> short_of_margin rq s" "snd (place_order env rq s) = fill_order env (new_id env) rq s"
      "rs_status (fst (place_order env rq s)) = ''FILLED''"
proof (cases "if is_stop rq then missing_trigger rq else short_of_margin rq s")
  case True
  then show thesis using place_refused refused by blast
next
  case no: False
  show thesis
  proof (cases "is_stop rq")
    case True
    with no place_rests[of rq env s] show thesis by (intro rests) (simp_all add: response_def)
  next
    case False
    with no place_fills[of rq s env] show thesis by (intro fills) (simp_all add: response_def)
  qed
qed

lemma fill_order_fields:
  "pa_trades (fill_order env bid rq s) = pa_trades s @ [paper_trade env bid rq s]"
  "pa_total_cash (fill_order env bid rq s) = pa_total_cash s"
  "pa_market_prices (fill_order env bid rq s) = pa_market_prices s"
  "pa_used_margin (fill_order env bid rq s) =
     (if is_buy (rq_action rq) then fadd (pa_used_margin s) (order_cost rq s)
      else pmax (Fin 0) (fsub (pa_used_margin s) (order_cost rq s)))"
  "dict_get stk empty_paper_position (pa_positions (fill_order env bid rq s)) =
     (if stk = rq_stock_code rq
      then moved_position (rq_action rq) (rq_quantity rq) (order_cost rq s) (fill_price rq s)
        (dict_get stk empty_paper_position (pa_positions s))
      else dict_get stk empty_paper_position (pa_positions s))"
  by (simp_all add: fill_order_def Let_def dict_get_set)

lemma moved_quantities:
  "pp_quantity (moved_position a q c p pos) = pp_quantity pos + signed_quantity a q"
  "pp_buy_qty (moved_position a q c p pos) = pp_buy_qty pos + (if is_buy a then q else 0)"
  "pp_sell_qty (moved_position a q c p pos) = pp_sell_qty pos + (if is_buy a then 0 else q)"
  by (simp_all add: moved_position_def Let_def)

lemma book_fill:
  assumes "book_agrees stk s"
  shows "book_agrees stk (fill_order env bid rq s)"
  using assms
  by (auto simp: book_agrees_def Let_def fill_order_fields moved_quantities bought_of_def sold_of_def
      paper_trade_def signed_quantity_def)

lemma inv_init: "paper_inv (paper_init cash)"
  by (simp add: paper_inv_def paper_init_def book_agrees_def dict_get_def empty_paper_position_def
      bought_of_def sold_of_def keys_distinct_def)

lemma backed_put: "backed (put_order r s) r' = backed s r'"
  by (simp add: backed_def)

lemma inv_put_resting:
  assumes "paper_inv s" "pd_status r \<noteq> ''FILLED''"
  shows "paper_inv (put_order r s)"
  using assms
  by (auto simp: paper_inv_def book_agrees_def put_order_distinct backed_put dest!: put_order_in)

lemma inv_fill:
  assumes inv: "paper_inv s"
  shows "paper_inv (fill_order env bid rq s)"
proof -
  let ?s = "fill_order env bid rq s" and ?r = "order_entry bid rq (fill_price rq s) None ''FILLED'' (rq_quantity rq) (fill_price rq s)"
  obtain s0 where s0: "?s = put_order ?r s0" "pa_orders s0 = pa_orders s"
    by (auto simp: fill_order_def Let_def)
  have "backed ?s ?r"
    by (auto simp: backed_def fill_order_fields order_entry_def paper_trade_def)
  moreover have "\<forall>r \<in> set (pa_orders s). pd_status r = ''FILLED'' \<longrightarrow> backed ?s r"
    using inv by (auto simp: paper_inv_def backed_def fill_order_fields)
  moreover have "r \<in> set (pa_orders ?s) \<Longrightarrow> r = ?r \<or> r \<in> set (pa_orders s)" for r
    using put_order_in[of r ?r s0] s0 by simp
  ultimately have "\<forall>r \<in> set (pa_orders ?s). pd_status r = ''FILLED'' \<longrightarrow> backed ?s r" by blast
  moreover have "keys_distinct pd_broker_order_id (pa_orders ?s)"
    using inv s0 by (simp add: paper_inv_def put_order_distinct)
  ultimately show ?thesis using inv book_fill by (simp add: paper_inv_def)
qed

lemma inv_update:
  assumes inv: "paper_inv s" and key: "\<And>r. pd_broker_order_id (f r) = pd_broker_order_id r"
    and rows: "\<And>r. r \<in> set (pa_orders s) \<Longrightarrow> pd_broker_order_id r = bid \<Longrightarrow> pd_status (f r) \<noteq> ''FILLED''"
  shows "paper_inv (s\<lparr>pa_orders := row_update pd_broker_order_id bid f (pa_orders s)\<rparr>)"
proof -
  have "keys_distinct pd_broker_order_id (row_update pd_broker_order_id bid f (pa_orders s))"
    using inv paper_orders.keys_update[of bid f "pa_orders s"] by (simp add: paper_inv_def keys_distinct_def key)
  moreover have "r \<in> set (row_update pd_broker_order_id bid f (pa_orders s)) \<Longrightarrow> pd_status r = ''FILLED'' \<Longrightarrow> r \<in> set (pa_orders s)" for r
    using rows by (auto simp: row_update_def split: if_splits)
  moreover have "backed (s\<lparr>pa_orders := rows\<rparr>) r = backed s r" for rows r by (simp add: backed_def)
  ultimately show ?thesis using inv by (auto simp: paper_inv_def book_agrees_def)
qed

lemma inv_place: "paper_inv s \<Longrightarrow> paper_inv (snd (place_order env rq s))"
  by (cases rule: place_cases[of rq s env])
    (simp_all add: inv_fill inv_put_resting resting_order_def order_entry_def)

lemma inv_modify: "paper_inv s \<Longrightarrow> paper_inv (snd (modify_order bid q p s))"
proof (cases "row_get pd_broker_order_id bid (pa_orders s)")
  case (Some ord)
  assume inv: "paper_inv s"
  have only: "r = ord" if "r \<in> set (pa_orders s)" "pd_broker_order_id r = bid" for r
    using row_get_in[of pd_broker_order_id "pa_orders s" r] inv that Some by (simp add: paper_inv_def)
  show ?thesis using inv Some by (auto simp: modify_order_def intro!: inv_update dest: only)
qed (simp add: modify_order_def)

lemma inv_cancel: "paper_inv s \<Longrightarrow> paper_inv (snd (cancel_order bid s))"
  by (auto simp: cancel_order_def intro!: inv_update split: option.splits)

lemma inv_run: "paper_inv s \<Longrightarrow> paper_inv (paper_run ops s)"
proof (induction ops arbitrary: s)
  case (Cons op ops)
  have "backed (set_mock_market_price k p s) r = backed s r" for k p r
    by (simp add: backed_def set_mock_market_price_def)
  then have "paper_inv (set_mock_market_price k p s)" for k p
    using Cons.prems by (simp add: paper_inv_def book_agrees_def) (simp add: set_mock_market_price_def)
  then have "paper_inv (paper_step op s)"
    using Cons.prems by (cases op) (simp_all add: inv_place inv_modify inv_cancel)
  then show ?case using Cons.IH by (simp add: paper_run_def)
qed (simp add: paper_run_def)

section \<open>Properties\<close>

text \<open>
  Along any run of placements, modifications, cancellations and price updates from a fresh
  paper account, the position of every symbol is exactly the trades of that symbol: its quantity
  is the quantity bought minus the quantity sold; and every order reported FILLED is backed by a
  trade with its ids, quantity and price.
\<close>

theorem paper_book_is_trades:
  "let s = paper_run ops (paper_init cash); pos = dict_get stk empty_paper_position (pa_positions s)
   in pp_quantity pos = bought_of stk (get_trades s) - sold_of stk (get_trades s)
    \<and> pp_buy_qty pos = bought_of stk (get_trades s) \<and> pp_sell_qty pos = sold_of stk (get_trades s)
    \<and> list_all (backed s) (filter (\<lambda>r. pd_status r = ''FILLED'') (pa_orders s))"
proof -
  have "paper_inv (paper_run ops (paper_init cash))" by (rule inv_run[OF inv_init])
  then show ?thesis by (auto simp: Let_def get_trades_def book_agrees_def paper_inv_def list_all_iff)
qed

text \<open>
  A placement has one of three effects. Refused (a stop order without a positive trigger, or a
  purchase whose cost exceeds the free cash): nothing changes. Resting (any other stop order): an
  OPEN order row and nothing else. Filled: one trade at the fill price, the position of that symbol
  moved by the signed quantity, every other symbol and the cash unchanged, and the margin raised by
  the cost of a purchase or lowered by that of a sale, never below zero.
\<close>

theorem paper_place_effect:
  "let (r, s') = place_order env rq s;
       held = (\<lambda>s. pp_quantity (dict_get stk empty_paper_position (pa_positions s)))
   in rs_success r = (rs_status r \<noteq> ''REJECTED'')
    \<and> (if (if is_stop rq then missing_trigger rq else short_of_margin rq s)
       then rs_status r = ''REJECTED'' \<and> s' = s
       else if is_stop rq then rs_status r = ''OPEN'' \<and> s' = put_order (resting_order env rq) s
       else rs_status r = ''FILLED'' \<and> rs_filled_quantity r = rq_quantity rq
         \<and> rs_average_price r = fill_price rq s \<and> pa_total_cash s' = pa_total_cash s
         \<and> get_trades s' = get_trades s @ [paper_trade env (new_id env) rq s]
         \<and> held s' = held s + (if stk = rq_stock_code rq then signed_quantity (rq_action rq) (rq_quantity rq) else 0)
         \<and> pa_used_margin s' = (if is_buy (rq_action rq) then fadd (pa_used_margin s) (order_cost rq s)
             else pmax (Fin 0) (fsub (pa_used_margin s) (order_cost rq s))))"
proof (cases "if is_stop rq then missing_trigger rq else short_of_margin rq s")
  case True
  from place_refused[OF this, of env] show ?thesis using True by (auto simp: rejected_def response_def)
next
  case no: False
  show ?thesis
  proof (cases "is_stop rq")
    case True
    with no show ?thesis by (simp add: place_rests response_def)
  next
    case False
    with no show ?thesis
      by (simp add: place_fills response_def get_trades_def fill_order_fields moved_quantities)
  qed
qed

text \<open>The row a successful placement stores, and the response that reports it.\<close>

definition row_response :: "paper_order \<Rightarrow> broker_order_response" where
  "row_response row = response True (Some (pd_broker_order_id row)) (pd_client_order_id row) (pd_status row) None
     (pd_filled_quantity row) (pd_average_price row)"

lemma place_success:
  assumes "place_order env rq s = (r, s')" "rs_success r"
  obtains row s0 where "s' = put_order row s0" "pa_orders s0 = pa_orders s" "pd_broker_order_id row = new_id env"
    "pd_client_order_id row = rq_client_order_id rq" "pd_status row \<in> {''OPEN'', ''FILLED''}"
    "r\<lparr>rs_message := None\<rparr> = row_response row"
proof (cases rule: place_cases[of rq s env])
  case (refused msg)
  then show ?thesis using assms by (auto simp: rejected_def response_def)
next
  case rests
  then show ?thesis using assms place_rests[of rq env s]
    by (intro that[of "resting_order env rq" s])
      (auto simp: resting_order_def order_entry_def row_response_def response_def)
next
  case fills
  let ?row = "order_entry (new_id env) rq (fill_price rq s) None ''FILLED'' (rq_quantity rq) (fill_price rq s)"
  obtain s0 where "s' = put_order ?row s0" "pa_orders s0 = pa_orders s"
    using fills(3) assms(1) by (auto simp: fill_order_def Let_def)
  then show ?thesis using assms fills place_fills[of rq s env]
    by (intro that[of ?row s0]) (auto simp: order_entry_def row_response_def response_def)
qed

text \<open>
  A placed order is found again: when neither the broker id nor the client id was in use, both
  look-ups return the response the placement gave, with its status, filled quantity and price.
\<close>

theorem paper_find_placed:
  assumes "row_get pd_broker_order_id (new_id env) (pa_orders s) = None"
    and "row_get pd_client_order_id (rq_client_order_id rq) (pa_orders s) = None"
    and "place_order env rq s = (r, s')" "rs_success r"
  shows "find_order_by_client_id (rq_client_order_id rq) s' = Some (r\<lparr>rs_message := None\<rparr>)
    \<and> get_order_status (new_id env) s' = Some (r\<lparr>rs_message := None\<rparr>)"
proof -
  obtain row s0 where row: "s' = put_order row s0" "pa_orders s0 = pa_orders s" "pd_broker_order_id row = new_id env"
    "pd_client_order_id row = rq_client_order_id rq" "pd_status row \<in> {''OPEN'', ''FILLED''}"
    and r: "r\<lparr>rs_message := None\<rparr> = row_response row"
    by (rule place_success[OF assms(3,4)])
  have "row_get pd_client_order_id (rq_client_order_id rq) (pa_orders s') = Some row"
    using row assms(1,2) by (simp add: put_order_def row_upsert_def)
  moreover have "row_get pd_broker_order_id (new_id env) (pa_orders s') = Some row"
    using row by (simp add: get_put_order)
  ultimately show ?thesis using row r
    by (auto simp: find_order_by_client_id_def get_order_status_def row_response_def f_or_def ftrue_def)
qed

definition demo_paper_request :: broker_order_request where
  "demo_paper_request = \<lparr>rq_client_order_id = ''c1'', rq_stock_code = ''NIFTY'', rq_exchange_code = ''NFO'',
     rq_action = ''buy'', rq_order_type = ''limit'', rq_quantity = 50, rq_price = Fin 100, rq_trigger_price = None,
     rq_strike_price = None, rq_right = None, rq_expiry_date = None, rq_user_remark = None\<rparr>"

definition demo_paper_env :: env where
  "demo_paper_env = \<lparr>clock = (\<lambda>i. 0), uuid = (\<lambda>i. ''deadbeef'' @ show_nat i)\<rparr>"

lemma demo_paper_place:
  "\<not> is_stop demo_paper_request" "\<not> short_of_margin demo_paper_request (paper_init (Fin 500000))"
  "fill_price demo_paper_request (paper_init (Fin 500000)) = Fin 100"
proof -
  have l: "to_lower ''limit'' = ''limit''" "to_lower ''buy'' = ''buy''" "replace_char CHR ''-'' CHR ''_'' ''limit'' = ''limit''"
    by code_simp+
  show "\<not> is_stop demo_paper_request" by (simp add: is_stop_def demo_paper_request_def l)
  show fp: "fill_price demo_paper_request (paper_init (Fin 500000)) = Fin 100"
    by (simp add: fill_price_def demo_paper_request_def l)
  show "\<not> short_of_margin demo_paper_request (paper_init (Fin 500000))"
    unfolding short_of_margin_def order_cost_def fp
    by (simp add: demo_paper_request_def paper_init_def float_eval)
qed

theorem paper_find_placed_witness:
  "\<exists>s'. get_order_status ''PAPER-DEADBEEF'' s'
     = Some (response True (Some ''PAPER-DEADBEEF'') ''c1'' ''FILLED'' None 50 (Fin 100))"
proof -
  let ?s = "paper_init (Fin 500000)" and ?rq = demo_paper_request and ?e = demo_paper_env
  obtain r s' where p: "place_order ?e ?rq ?s = (r, s')" by fastforce
  have id: "new_id ?e = ''PAPER-DEADBEEF''" by code_simp
  have e: "pa_orders ?s = []" by (simp add: paper_init_def)
  have r: "r = response True (Some (new_id ?e)) (rq_client_order_id ?rq) ''FILLED''
      (Some [Txt ''Paper order filled successfully'']) (rq_quantity ?rq) (Fin 100)"
    using p place_fills[OF demo_paper_place(1,2), of ?e] by (simp add: demo_paper_place(3))
  then have "rs_success r" by (simp add: response_def)
  from paper_find_placed[OF _ _ p this] e have "get_order_status (new_id ?e) s' = Some (r\<lparr>rs_message := None\<rparr>)" by simp
  then show ?thesis using r id by (auto simp: response_def demo_paper_request_def)
qed

text \<open>A filled order can be cancelled: the row says CANCELLED while its trade and position stay.\<close>

lemma paper_cancel_of_filled:
  assumes "row_get pd_broker_order_id bid (pa_orders s) = Some r" "pd_status r = ''FILLED''"
  shows "rs_success (fst (cancel_order bid s))"
    and "map_option rs_status (get_order_status bid (snd (cancel_order bid s))) = Some ''CANCELLED''"
    and "pa_trades (snd (cancel_order bid s)) = pa_trades s" "pa_positions (snd (cancel_order bid s)) = pa_positions s"
  using assms paper_orders.get_update_same[of bid "\<lambda>r. r\<lparr>pd_status := ''CANCELLED''\<rparr>" "pa_orders s"]
  by (simp_all add: cancel_order_def get_order_status_def response_def)

end
