(* ===== verification/BrokerGateway.thy ===== *)
theory BrokerGateway imports PaperBroker begin

text \<open>
  The gateway, \<^verbatim>\<open>services/broker_gateway/service.py\<close>: which adapter owns a call.  The paper adapter
  is the model of \<open>PaperBroker\<close>; the two LIVE adapters wrap third-party broker SDKs, so their
  joint state \<open>'l\<close> and their replies are parameters.
\<close>

datatype broker_backend = BREEZE | KITE

datatype market_data_backend = SIMULATED | BREEZE_DATA | KITE_DATA | HYBRID

datatype adapter = PaperAdapter | BreezeAdapter | KiteAdapter

record gateway_settings =
  gs_broker_backend :: broker_backend
  gs_market_data_backend :: market_data_backend
  gs_frequent_data_broker :: broker_backend
  gs_reference_data_broker :: broker_backend

fun backend_value :: "broker_backend \<Rightarrow> string" where
  "backend_value BREEZE = ''breeze''"
| "backend_value KITE = ''kite''"

text \<open>\<^verbatim>\<open>BrokerBackend(str(broker).lower())\<close>\<close>

definition parse_backend :: "string \<Rightarrow> exn + broker_backend" where
  "parse_backend broker =
     (if to_lower broker = ''kite'' then Inr KITE
      else if to_lower broker = ''breeze'' then Inr BREEZE
      else Inl (ValueError (to_lower broker)))"

definition adapter_for_broker :: "broker_backend \<Rightarrow> adapter" where
  "adapter_for_broker broker = (if broker = KITE then KiteAdapter else BreezeAdapter)"

definition adapter_for_name :: "string \<Rightarrow> exn + adapter" where
  "adapter_for_name broker = (case parse_backend broker of Inl e \<Rightarrow> Inl e | Inr b \<Rightarrow> Inr (adapter_for_broker b))"

definition execution_adapter :: "gateway_settings \<Rightarrow> adapter" where
  "execution_adapter st = adapter_for_broker (gs_broker_backend st)"

definition execution_broker_name :: "gateway_settings \<Rightarrow> string" where
  "execution_broker_name st = backend_value (gs_broker_backend st)"

definition configured_data_broker :: "bool \<Rightarrow> gateway_settings \<Rightarrow> broker_backend" where
  "configured_data_broker frequent st =
     (case gs_market_data_backend st of
        KITE_DATA \<Rightarrow> KITE
      | BREEZE_DATA \<Rightarrow> BREEZE
      | HYBRID \<Rightarrow> if frequent then gs_frequent_data_broker st else gs_reference_data_broker st
      | SIMULATED \<Rightarrow> gs_broker_backend st)"

definition frequent_data_adapter :: "gateway_settings \<Rightarrow> adapter" where
  "frequent_data_adapter st = adapter_for_broker (configured_data_broker True st)"

definition reference_data_adapter :: "gateway_settings \<Rightarrow> adapter" where
  "reference_data_adapter st = adapter_for_broker (configured_data_broker False st)"

definition get_adapter :: "gateway_settings \<Rightarrow> trading_mode \<Rightarrow> adapter" where
  "get_adapter st mode = (if mode = LIVE then execution_adapter st else PaperAdapter)"

section \<open>Delegated operations\<close>

record 'l gateway =
  gw_settings :: gateway_settings
  gw_paper :: paper_broker
  gw_live :: 'l

text \<open>The interface of the LIVE adapters: per operation, the reply and the new state, or an exception.\<close>

record 'l live_adapters =
  la_place :: "adapter \<Rightarrow> broker_order_request \<Rightarrow> 'l \<Rightarrow> (string + broker_order_response) \<times> 'l"
  la_modify :: "adapter \<Rightarrow> string \<Rightarrow> int option \<Rightarrow> pyfloat option \<Rightarrow> 'l \<Rightarrow> (string + broker_order_response) \<times> 'l"
  la_cancel :: "adapter \<Rightarrow> string \<Rightarrow> 'l \<Rightarrow> (string + broker_order_response) \<times> 'l"
  la_status :: "adapter \<Rightarrow> string \<Rightarrow> 'l \<Rightarrow> (string + broker_order_response option) \<times> 'l"
  la_find :: "adapter \<Rightarrow> string \<Rightarrow> 'l \<Rightarrow> (string + broker_order_response option) \<times> 'l"
  la_funds :: "adapter \<Rightarrow> 'l \<Rightarrow> (string + broker_funds) \<times> 'l"
  la_positions :: "adapter \<Rightarrow> 'l \<Rightarrow> (string + broker_position_response list) \<times> 'l"
  la_trades :: "adapter \<Rightarrow> 'l \<Rightarrow> (string + broker_trade_response list) \<times> 'l"

text \<open>A call reaches the paper account or one LIVE adapter, never both.\<close>

definition delegate ::
  "trading_mode \<Rightarrow> (paper_broker \<Rightarrow> 'r \<times> paper_broker) \<Rightarrow> (adapter \<Rightarrow> 'l \<Rightarrow> (string + 'r) \<times> 'l) \<Rightarrow>
   'l gateway \<Rightarrow> (string + 'r) \<times> 'l gateway" where
  "delegate mode paper live g =
     (case get_adapter (gw_settings g) mode of
        PaperAdapter \<Rightarrow> (let (r, p) = paper (gw_paper g) in (Inr r, g\<lparr>gw_paper := p\<rparr>))
      | a \<Rightarrow> (let (r, l) = live a (gw_live g) in (r, g\<lparr>gw_live := l\<rparr>)))"

definition gateway_place_order where
  "gateway_place_order la env request mode = delegate mode (place_order env request) (\<lambda>a. la_place la a request)"

definition gateway_modify_order where
  "gateway_modify_order la bid quantity price mode =
     delegate mode (modify_order bid quantity price) (\<lambda>a. la_modify la a bid quantity price)"

definition gateway_cancel_order where
  "gateway_cancel_order la bid mode = delegate mode (cancel_order bid) (\<lambda>a. la_cancel la a bid)"

definition gateway_get_order_status where
  "gateway_get_order_status la bid mode =
     delegate mode (\<lambda>p. (get_order_status bid p, p)) (\<lambda>a. la_status la a bid)"

definition gateway_find_order where
  "gateway_find_order la client_id mode =
     delegate mode (\<lambda>p. (find_order_by_client_id client_id p, p)) (\<lambda>a. la_find la a client_id)"

definition gateway_get_funds where
  "gateway_get_funds la mode = delegate mode (\<lambda>p. (get_funds p, p)) (la_funds la)"

definition gateway_get_positions where
  "gateway_get_positions la mode = delegate mode (\<lambda>p. (get_positions p, p)) (la_positions la)"

definition gateway_get_trades where
  "gateway_get_trades la mode = delegate mode (\<lambda>p. (get_trades p, p)) (la_trades la)"

section \<open>Routing\<close>

lemma get_adapter_paper: "get_adapter st mode = PaperAdapter \<longleftrightarrow> mode \<noteq> LIVE"
  by (simp add: get_adapter_def execution_adapter_def adapter_for_broker_def)

lemma delegate_paper: "mode \<noteq> LIVE \<Longrightarrow>
  delegate mode paper live g = (Inr (fst (paper (gw_paper g))), g\<lparr>gw_paper := snd (paper (gw_paper g))\<rparr>)"
  by (simp add: delegate_def get_adapter_paper[THEN iffD2] split_def Let_def)

lemma delegate_live:
  "delegate LIVE paper live g = (fst (live (execution_adapter (gw_settings g)) (gw_live g)),
     g\<lparr>gw_live := snd (live (execution_adapter (gw_settings g)) (gw_live g))\<rparr>)"
  by (simp add: delegate_def get_adapter_def execution_adapter_def adapter_for_broker_def split_def Let_def)

text \<open>The adapter found under the configured broker's name is the execution adapter.\<close>

lemma adapter_for_own_name: "adapter_for_name (execution_broker_name st) = Inr (execution_adapter st)"
proof -
  have "to_lower ''breeze'' = ''breeze''" "to_lower ''kite'' = ''kite''" by code_simp+
  then show ?thesis
    by (cases "gs_broker_backend st")
      (simp_all add: adapter_for_name_def parse_backend_def execution_broker_name_def execution_adapter_def)
qed

end
