(* ===== verification/PaperTrading.thy ===== *)
theory PaperTrading imports Execution BrokerGateway begin

text \<open>
  The paper trading path from end to end: an approved order is submitted by the execution service
  through the gateway to the paper broker, the two reports it publishes are consumed by the OMS and
  by the portfolio.
\<close>

definition place_via ::
  "'l live_adapters \<Rightarrow> env \<Rightarrow> trading_mode \<Rightarrow> 'l gateway \<Rightarrow> broker_order_request \<Rightarrow> string + broker_order_response" where
  "place_via la env mode g request = fst (gateway_place_order la env request mode g)"

definition paper_held :: "string \<Rightarrow> 'l gateway \<Rightarrow> int" where
  "paper_held stk g = pp_quantity (dict_get stk empty_paper_position (pa_positions (gw_paper g)))"

definition book_held :: "string \<Rightarrow> portfolio_db \<Rightarrow> int" where
  "book_held i db = (case get_position i db of None \<Rightarrow> 0 | Some p \<Rightarrow> po_quantity p)"

lemma simple_request:
  assumes "bo_trading_mode ord \<noteq> LIVE"
  shows "\<exists>rq. build_broker_request b ord = Some rq \<and> rq_client_order_id rq = bo_client_order_id ord
    \<and> rq_stock_code rq = bo_symbol ord \<and> rq_quantity rq = bo_quantity ord
    \<and> rq_action rq = to_lower (side_value (bo_side ord)) \<and> rq_order_type rq = to_lower (order_type_value (bo_order_type ord))"
  using assms by (simp add: build_broker_request_def Let_def)

lemma action_of_side: "is_buy (to_lower (side_value sd)) = (sd = BUY)"
proof -
  have "is_buy (to_lower ''BUY'')" "\<not> is_buy (to_lower ''SELL'')" by code_simp+
  then show ?thesis by (cases sd) simp_all
qed

lemma plain_type: "ty \<noteq> STOP_LIMIT \<Longrightarrow> rq_order_type rq = to_lower (order_type_value ty) \<Longrightarrow> \<not> is_stop rq"
proof -
  assume t: "ty \<noteq> STOP_LIMIT" "rq_order_type rq = to_lower (order_type_value ty)"
  have "replace_char CHR ''-'' CHR ''_'' (to_lower (to_lower ''MARKET'')) \<notin> {''stop_limit'', ''stoploss''}"
    "replace_char CHR ''-'' CHR ''_'' (to_lower (to_lower ''LIMIT'')) \<notin> {''stop_limit'', ''stoploss''}" by code_simp+
  then show ?thesis using t by (cases ty) (simp_all add: is_stop_def)
qed

text \<open>The paper gateway's answer to an order that is neither a stop nor short of margin.\<close>

lemma gateway_fills:
  assumes "mode \<noteq> LIVE" "\<not> is_stop rq" "\<not> short_of_margin rq (gw_paper g)"
  shows "place_via la env mode g rq = Inr (response True (Some (new_id env)) (rq_client_order_id rq) ''FILLED''
      (Some [Txt ''Paper order filled successfully'']) (rq_quantity rq) (fill_price rq (gw_paper g)))"
    and "paper_held (rq_stock_code rq) (snd (gateway_place_order la env rq mode g))
      = paper_held (rq_stock_code rq) g + signed_quantity (rq_action rq) (rq_quantity rq)"
  using place_fills[OF assms(2,3), of env]
  by (simp_all add: place_via_def gateway_place_order_def delegate_paper[OF assms(1)] paper_held_def
      fill_order_fields moved_quantities)

lemma status_filled: "normalize_broker_status ''FILLED'' = ''FILLED''"
  by code_simp

text \<open>A FILLED report about an order in SUBMITTING.\<close>

lemma filled_report_effect:
  fixes env env' :: env and avg :: pyfloat and msg :: "message option" and bid :: "string option"
  assumes inv: "oms_inv db" and row: "get_order_by_id oid db = Some row" "bo_status row = SUBMITTING"
    and cid: "bo_client_order_id row = bo_client_order_id ord'"
    and nr: "oc_raised (handle_broker_order_event env' (status_event env 7 ord' bid ''FILLED'' q avg msg) db) = None"
  shows "\<exists>new. get_order_by_id oid (oc_state (handle_broker_order_event env' (status_event env 7 ord' bid ''FILLED'' q avg msg) db)) = Some new
     \<and> bo_status new = FILLED \<and> bo_filled_quantity new = q \<and> bo_remaining_quantity new = max 0 (bo_quantity row - q)"
proof -
  have rin: "row \<in> set (od_orders db)" "bo_order_id row = oid" using row_get_Some[OF row(1)[unfolded get_order_by_id_def]] by auto
  have get: "get_order_by_client_id (bo_client_order_id ord') db = Some row"
    using rin(1) inv cid row_get_in[of bo_client_order_id "od_orders db" row]
    by (simp add: get_order_by_client_id_def oms_inv_def)
  have up: "to_upper ''FILLED'' = ''FILLED''" and can: "can_transition SUBMITTING FILLED" by code_simp+
  let ?ev = "status_event env 7 ord' bid ''FILLED'' q avg msg"
  have p: "ev_payload ?ev = StatusPayload \<lparr>su_client_order_id = bo_client_order_id ord', su_broker_order_id = bid,
        su_status = ''FILLED'', su_filled_quantity = q, su_average_price = avg, su_message = msg\<rparr>"
    by (simp add: status_event_def)
  have t: "broker_target_state ''FILLED'' q SUBMITTING = FILLED" by (simp add: broker_target_state_def)
  obtain db' where sv: "oc_state (handle_broker_order_event env' ?ev db) = db'"
    "save_broker_order_with_transition env' 0 0
      (reconciled_order \<lparr>su_client_order_id = bo_client_order_id ord', su_broker_order_id = bid,
        su_status = ''FILLED'', su_filled_quantity = q, su_average_price = avg, su_message = msg\<rparr> FILLED row)
      (Some SUBMITTING) FILLED (Some [Txt (''Broker reconciliation: '' @ ''FILLED'')]) (Some ORDER_STATE) db = Inr db'"
    using nr p get up can t row(2)
    by (auto simp: handle_broker_order_event_def Let_def split: sum.splits)
  show ?thesis unfolding sv(1) using save_order_get[OF sv(2), of oid] rin(2) row(1)
    by (simp add: merge_order_def order_row_def reconciled_order_def)
qed

lemma trade_moves_book:
  assumes inv: "portfolio_inv pf" and p: "ev_payload ev = FillPayload t" "tf_execution_id t = Some l" "l \<noteq> []"
    and new: "row_get ex_execution_id l (pf_executions pf) = None"
    and nr: "oc_raised (handle_trade_event latest env ev pf) = None"
  shows "book_held (tf_instrument_id t) (oc_state (handle_trade_event latest env ev pf))
    = book_held (tf_instrument_id t) pf + (if tf_side t = BUY then tf_quantity t else - tf_quantity t)"
proof (cases rule: trade_cases[of latest env ev pf])
  case same
  have "ex_execution_id (fill_execution env t) = l" using p(2,3) by (cases l) (simp_all add: fill_execution_def str_or_def)
  then show ?thesis using same p nr new
    by (auto simp: handle_trade_event_def Let_def apply_execution_atomic_def row_insert_def split: sum.splits option.splits if_splits prod.splits)
next
  case (applied t' c pos pf1)
  have t': "t' = t" using applied(1) p(1) by simp
  have i: "ex_instrument_id (fill_execution env t) = tf_instrument_id t" "ex_side (fill_execution env t) = tf_side t"
    "ex_quantity (fill_execution env t) = tf_quantity t" by (simp_all add: fill_execution_def)
  have get: "get_position (tf_instrument_id t) (oc_state (handle_trade_event latest env ev pf)) = Some pos"
    using apply_get_position[OF applied(2), of "tf_instrument_id t"] applied(3) t' i
    by (simp add: get_position_def snapshot_keeps)
  have pos: "pos = filled_position (uuid env 1) (clock env 1) (fill_execution env t) (tf_trading_mode t) c
      (get_position (tf_instrument_id t) pf)"
    using applied(2) t' i by (auto elim: apply_cases)
  have "ledger_agrees (tf_instrument_id t) pf" using inv by (simp add: portfolio_inv_def)
  then show ?thesis unfolding book_held_def get
    by (auto simp: pos i ledger_agrees_def split: option.splits)
qed

text \<open>The reports of a submission the paper gateway fills.\<close>

lemma paper_reports:
  assumes "bo_trading_mode ord \<noteq> LIVE" "bo_order_type ord \<noteq> STOP_LIMIT" "0 < bo_quantity ord"
    and "build_broker_request b ord = Some rq" "\<not> short_of_margin rq (gw_paper g)" "ew_active_broker_name w = b"
  shows "exec_submit w env (place_via la penv (bo_trading_mode ord) g) ord =
    (True, [status_event env 7 ord (Some (new_id penv)) ''FILLED'' (bo_quantity ord) (fill_price rq (gw_paper g))
              (Some [Txt ''Paper order filled successfully'']),
            fill_event env 9 ord (bo_quantity ord) (bo_quantity ord) (f_or (fill_price rq (gw_paper g)) (bo_price ord))])"
    and "paper_held (bo_symbol ord) (snd (gateway_place_order la penv rq (bo_trading_mode ord) g))
      = paper_held (bo_symbol ord) g + (if bo_side ord = BUY then bo_quantity ord else - bo_quantity ord)"
proof -
  have rq: "rq_client_order_id rq = bo_client_order_id ord" "rq_stock_code rq = bo_symbol ord"
    "rq_quantity rq = bo_quantity ord" "rq_action rq = to_lower (side_value (bo_side ord))"
    "rq_order_type rq = to_lower (order_type_value (bo_order_type ord))"
    using simple_request[OF assms(1), of b] assms(4) by auto
  note g = gateway_fills[OF assms(1) plain_type[OF assms(2) rq(5)] assms(5), of la penv]
  show "exec_submit w env (place_via la penv (bo_trading_mode ord) g) ord =
    (True, [status_event env 7 ord (Some (new_id penv)) ''FILLED'' (bo_quantity ord) (fill_price rq (gw_paper g))
              (Some [Txt ''Paper order filled successfully'']),
            fill_event env 9 ord (bo_quantity ord) (bo_quantity ord) (f_or (fill_price rq (gw_paper g)) (bo_price ord))])"
    using assms(3,4,6) g(1) status_filled by (simp add: exec_submit_def response_def Let_def rq)
  show "paper_held (bo_symbol ord) (snd (gateway_place_order la penv rq (bo_trading_mode ord) g))
      = paper_held (bo_symbol ord) g + (if bo_side ord = BUY then bo_quantity ord else - bo_quantity ord)"
    using g(2) by (simp add: rq signed_quantity_def action_of_side)
qed

text \<open>
  C21. An approved paper order that is not a stop and is covered by free cash settles in all three
  books: submitting it through the gateway publishes exactly a FILLED report and one fill; the
  OMS, handling the report, stores the order FILLED with its whole quantity and nothing open; and
  the portfolio, handling the fill once, moves its position by exactly what the paper broker's
  position moved.
\<close>

theorem paper_order_settles:
  assumes "oms_inv (xs_oms s)" and "get_order_by_id oid (xs_oms s) = Some ord"
    and "bo_trading_mode ord \<noteq> LIVE" "bo_order_type ord \<noteq> STOP_LIMIT" "0 < bo_quantity ord"
    and "build_broker_request (ew_active_broker_name w) ord = Some rq" "\<not> short_of_margin rq (gw_paper g)"
    and "xs_sent (oc_state (execute_order w env (place_via la penv (bo_trading_mode ord) g) oid s)) \<noteq> xs_sent s"
    and "portfolio_inv pf" "row_get ex_execution_id (fill_label oid (bo_quantity ord)) (pf_executions pf) = None"
  shows "\<exists>report fill. oc_published (execute_order w env (place_via la penv (bo_trading_mode ord) g) oid s) = [report, fill]
    \<and> (let db = xs_oms (oc_state (execute_order w env (place_via la penv (bo_trading_mode ord) g) oid s));
           oc = handle_broker_order_event oenv report db
       in oc_raised oc = None \<longrightarrow> (\<exists>new. get_order_by_id oid (oc_state oc) = Some new \<and> bo_status new = FILLED
            \<and> bo_filled_quantity new = bo_quantity ord \<and> bo_remaining_quantity new = 0))
    \<and> (let po = handle_trade_event latest penv2 fill pf
       in oc_raised po = None \<longrightarrow>
          book_held (bo_instrument_id ord) (oc_state po) - book_held (bo_instrument_id ord) pf
          = paper_held (bo_symbol ord) (snd (gateway_place_order la penv rq (bo_trading_mode ord) g)) - paper_held (bo_symbol ord) g)"
proof (cases rule: execute_cases[of w env "place_via la penv (bo_trading_mode ord) g" oid s])
  case idle
  then show ?thesis using assms(8) by simp
next
  case (reserved ord0 evs ord' db)
  have o0: "ord0 = ord" using check_passed(1)[OF reserved(1)] assms(2) by simp
  note c = check_passed(1,2)[OF reserved(1), unfolded o0]
  note r = reserve_passed[OF c reserved(2)]
  have same: "bo_trading_mode ord' = bo_trading_mode ord" "bo_order_type ord' = bo_order_type ord"
    "bo_quantity ord' = bo_quantity ord" "bo_symbol ord' = bo_symbol ord" "bo_side ord' = bo_side ord"
    "bo_order_id ord' = oid" "bo_instrument_id ord' = bo_instrument_id ord"
    "build_broker_request b ord' = build_broker_request b ord" for b
    using r(2,3) assms(3) by (simp_all add: build_broker_request_def)
  note rep = paper_reports[of ord' "ew_active_broker_name w" rq g w, unfolded same, OF assms(3-7) refl]
  let ?report = "status_event env 7 ord' (Some (new_id penv)) ''FILLED'' (bo_quantity ord) (fill_price rq (gw_paper g))
      (Some [Txt ''Paper order filled successfully''])"
  let ?fill = "fill_event env 9 ord' (bo_quantity ord) (bo_quantity ord) (f_or (fill_price rq (gw_paper g)) (bo_price ord'))"
  have pub: "oc_published (execute_order w env (place_via la penv (bo_trading_mode ord) g) oid s) = [?report, ?fill]"
    and db: "xs_oms (oc_state (execute_order w env (place_via la penv (bo_trading_mode ord) g) oid s)) = db"
    using reserved(3) rep(1) by simp_all
  obtain x where m: "mark_order_submitting env oid (xs_oms s) = Inr (x, db)"
    using reserved(2) by (auto simp: exec_reserve_def split: sum.splits option.splits if_splits)
  obtain row where row: "get_order_by_id oid db = Some row" "bo_status row = SUBMITTING"
      "bo_client_order_id row = bo_client_order_id ord'" "bo_quantity row = bo_quantity ord"
    using save_order_get[OF r(1), of oid] c(1) r(2,3) by (auto simp: merge_order_def order_row_def)
  note oms = filled_report_effect[OF conjunct1[OF reserve_inv[OF assms(1) m]] row(1-3), of oenv env "Some (new_id penv)" "bo_quantity ord"]
  have "book_held (bo_instrument_id ord) (oc_state (handle_trade_event latest penv2 ?fill pf))
      = book_held (bo_instrument_id ord) pf + (if bo_side ord = BUY then bo_quantity ord else - bo_quantity ord)"
    if "oc_raised (handle_trade_event latest penv2 ?fill pf) = None"
    using trade_moves_book[OF assms(9) _ _ _ assms(10) that] same
    by (simp add: fill_event_def fill_label_def)
  then show ?thesis using pub db oms row(4) rep(2) by (auto simp: Let_def)
qed

definition demo_live :: "unit live_adapters" where
  "demo_live = \<lparr>la_place = (\<lambda>a rq l. (Inl ''no session'', l)), la_modify = (\<lambda>a b q p l. (Inl ''no session'', l)),
     la_cancel = (\<lambda>a b l. (Inl ''no session'', l)), la_status = (\<lambda>a b l. (Inl ''no session'', l)),
     la_find = (\<lambda>a c l. (Inl ''no session'', l)), la_funds = (\<lambda>a l. (Inl ''no session'', l)),
     la_positions = (\<lambda>a l. (Inl ''no session'', l)), la_trades = (\<lambda>a l. (Inl ''no session'', l))\<rparr>"

definition demo_gateway :: "unit gateway" where
  "demo_gateway = \<lparr>gw_settings = \<lparr>gs_broker_backend = KITE, gs_market_data_backend = SIMULATED,
       gs_frequent_data_broker = KITE, gs_reference_data_broker = BREEZE\<rparr>,
     gw_paper = paper_init (Fin 500000), gw_live = ()\<rparr>"

definition demo_paper_run :: "exec_state outcome" where
  "demo_paper_run = execute_order demo_exec_world (demo_env ''x'' 30)
     (place_via demo_live demo_paper_env PAPER demo_gateway) ''a1'' demo_approved"

lemma demo_paper_order:
  obtains ord rq where "get_order_by_id ''a1'' (xs_oms demo_approved) = Some ord" "bo_trading_mode ord = PAPER"
    "bo_order_type ord = LIMIT" "bo_quantity ord = 75" "bo_side ord = BUY" "bo_price ord = Fin 100" "bo_client_order_id ord = ''CL-A0''"
    "build_broker_request (ew_active_broker_name demo_exec_world) ord = Some rq"
    "\<not> short_of_margin rq (gw_paper demo_gateway)" "rq_price rq = Fin 100" "rq_order_type rq = to_lower ''LIMIT''"
proof -
  have "map_option (\<lambda>ord. (bo_trading_mode ord, bo_order_type ord, bo_quantity ord, bo_side ord, bo_price ord, bo_client_order_id ord))
      (get_order_by_id ''a1'' (xs_oms demo_approved)) = Some (PAPER, LIMIT, 75, BUY, Fin 100, ''CL-A0'')" by code_simp
  then obtain ord :: broker_order where ord: "get_order_by_id ''a1'' (xs_oms demo_approved) = Some ord" "bo_trading_mode ord = PAPER"
      "bo_order_type ord = LIMIT" "bo_quantity ord = 75" "bo_side ord = BUY" "bo_price ord = Fin 100" "bo_client_order_id ord = ''CL-A0''" by auto
  have l: "to_lower (to_lower ''LIMIT'') = ''limit''" by code_simp
  obtain rq where rq: "build_broker_request (ew_active_broker_name demo_exec_world) ord = Some rq"
      "rq_quantity rq = 75" "rq_price rq = Fin 100" "rq_order_type rq = to_lower ''LIMIT''"
    using ord by (simp add: build_broker_request_def Let_def)
  have "\<not> short_of_margin rq (gw_paper demo_gateway)"
    by (simp add: short_of_margin_def order_cost_def fill_price_def rq l demo_gateway_def paper_init_def float_eval)
  then show thesis using that ord rq by blast
qed

text \<open>An execution depends on the broker only through its answer to the one request of the order.\<close>

lemma execute_same_reply:
  assumes "get_order_by_id oid (xs_oms s) = Some ord" "bo_trading_mode ord \<noteq> LIVE"
    and "build_broker_request (ew_active_broker_name w) ord = Some rq" "place rq = place' rq"
  shows "execute_order w env place oid s = execute_order w env place' oid s"
proof -
  have "exec_submit w env place ord' = exec_submit w env place' ord'"
    if c: "exec_check w env oid (xs_oms s) = (Some ord0, evs)" and r: "exec_reserve env oid (xs_oms s) = Inr (Some ord', db)"
    for ord0 evs ord' db
  proof -
    have "ord0 = ord" using check_passed(1)[OF c] assms(1) by simp
    then have "ord' = ord\<lparr>bo_status := SUBMITTING, bo_updated_at := clock env 0\<rparr>"
      using reserve_passed(2)[OF check_passed(1,2)[OF c] r] by simp
    then have "build_broker_request (ew_active_broker_name w) ord' = Some rq"
      using assms(2,3) by (simp add: build_broker_request_def)
    then show ?thesis using assms(4) by (simp add: exec_submit_def)
  qed
  then show ?thesis
    by (auto simp: execute_order_def split: prod.splits option.splits sum.splits)
qed

definition demo_reply :: broker_order_response where
  "demo_reply = response True (Some ''PAPER-DEADBEEF'') ''CL-A0'' ''FILLED''
     (Some [Txt ''Paper order filled successfully'']) 75 (Fin 100)"

lemma demo_paper_run_eq:
  "demo_paper_run = execute_order demo_exec_world (demo_env ''x'' 30) (\<lambda>rq. Inr demo_reply) ''a1'' demo_approved"
proof -
  obtain ord rq where o: "get_order_by_id ''a1'' (xs_oms demo_approved) = Some ord" "bo_trading_mode ord = PAPER"
    "bo_order_type ord = LIMIT" "bo_quantity ord = 75" "bo_side ord = BUY" "bo_price ord = Fin 100" "bo_client_order_id ord = ''CL-A0''"
    "build_broker_request (ew_active_broker_name demo_exec_world) ord = Some rq"
    "\<not> short_of_margin rq (gw_paper demo_gateway)" "rq_price rq = Fin 100" "rq_order_type rq = to_lower ''LIMIT''"
    by (rule demo_paper_order)
  have l: "to_lower (to_lower ''LIMIT'') = ''limit''" and id: "new_id demo_paper_env = ''PAPER-DEADBEEF''" by code_simp+
  have rq: "rq_client_order_id rq = ''CL-A0''" "rq_quantity rq = 75"
    using simple_request[of ord "ew_active_broker_name demo_exec_world"] o(2,4,7,8) by auto
  have "\<not> is_stop rq" using plain_type[of "bo_order_type ord" rq] o by simp
  then have "place_via demo_live demo_paper_env PAPER demo_gateway rq = Inr demo_reply"
    using gateway_fills(1)[of PAPER rq demo_gateway demo_live demo_paper_env] o rq l id
    by (simp add: demo_reply_def fill_price_def)
  moreover have "bo_trading_mode ord \<noteq> LIVE" using o(2) by simp
  ultimately show ?thesis unfolding demo_paper_run_def by (intro execute_same_reply[OF o(1) _ o(8)])
qed

theorem paper_order_settles_witness:
  "\<exists>report fill. oc_published demo_paper_run = [report, fill]
    \<and> (\<exists>new. get_order_by_id ''a1'' (oc_state (handle_broker_order_event (demo_env ''y'' 40) report (xs_oms (oc_state demo_paper_run))))
        = Some new \<and> bo_status new = FILLED \<and> bo_filled_quantity new = 75)"
proof -
  obtain ord rq where o: "get_order_by_id ''a1'' (xs_oms demo_approved) = Some ord" "bo_trading_mode ord = PAPER"
    "bo_order_type ord = LIMIT" "bo_quantity ord = 75" "bo_side ord = BUY"
    "build_broker_request (ew_active_broker_name demo_exec_world) ord = Some rq"
    "\<not> short_of_margin rq (gw_paper demo_gateway)" by (rule demo_paper_order)
  have inv: "oms_inv (xs_oms demo_approved)" using oms_reachable_inv[OF demo_reachable(2)] by (simp add: demo_approved_def)
  have sent: "xs_sent (oc_state demo_paper_run) \<noteq> xs_sent demo_approved" unfolding demo_paper_run_eq by code_simp
  have nr: "oc_raised (handle_broker_order_event (demo_env ''y'' 40) (hd (oc_published demo_paper_run)) (xs_oms (oc_state demo_paper_run))) = None"
    unfolding demo_paper_run_eq by code_simp
  have pf: "portfolio_inv portfolio_empty" "row_get ex_execution_id l (pf_executions portfolio_empty) = None" for l
    by (rule portfolio_inv_empty, simp add: portfolio_empty_def)
  note t = paper_order_settles[OF inv o(1) _ _ _ o(6,7), of "demo_env ''x'' 30" demo_live demo_paper_env portfolio_empty
      "demo_env ''y'' 40", unfolded o(2-4), folded demo_paper_run_def]
  from t[OF _ _ _ sent pf] nr show ?thesis by (fastforce simp: Let_def)
qed

end
