(* ===== verification/BrokerLedger.thy ===== *)
theory BrokerLedger imports OrderStateMachine begin

text \<open>
  The idempotent write ledger of the broker gateway:
  \<^verbatim>\<open>services/broker_gateway/infrastructure/persistence/request_ledger_repository.py\<close> and the
  guard that uses it, \<^verbatim>\<open>services/broker_gateway/application/execution_guard.py\<close>.  The port
  between them (\<^verbatim>\<open>BrokerRequestLedgerPort\<close>) is the locale \<open>request_ledger\<close>.  The payload is its
  JSON text, \<^verbatim>\<open>hashlib.sha256\<close> the parameter \<open>sha\<close>, and the broker call one reply.
\<close>

section \<open>Vocabulary\<close>

datatype write_status = W_RECEIVED | W_SUBMITTING | W_ACKNOWLEDGED | W_SUBMISSION_UNKNOWN | W_REJECTED | W_FAILED_SAFE

datatype write_action = PLACE | MODIFY | CANCEL | SQUARE_OFF

datatype session_status = UNCONFIGURED | NEEDS_SESSION | ACTIVATING | ACTIVE | DEGRADED | SESSION_EXPIRED
  | INVALID_SESSION | DISCONNECTED

fun action_value :: "write_action \<Rightarrow> string" where
  "action_value PLACE = ''PLACE''"
| "action_value MODIFY = ''MODIFY''"
| "action_value CANCEL = ''CANCEL''"
| "action_value SQUARE_OFF = ''SQUARE_OFF''"

text \<open>The exceptions of \<^verbatim>\<open>domain/errors.py\<close> the guard tells apart, and any other one.\<close>

datatype broker_error =
  BrokerBaseError string
| BrokerSessionExpiredError string
| BrokerValidationError string
| BrokerTimeoutError string
| PyTimeoutError string
| BrokerUnavailableError string
| BrokerOrderRejectedError string
| BrokerSubmissionUnknownError string
| OtherError string

fun error_text :: "broker_error \<Rightarrow> string" where
  "error_text (BrokerBaseError s) = s"
| "error_text (BrokerSessionExpiredError s) = s"
| "error_text (BrokerValidationError s) = s"
| "error_text (BrokerTimeoutError s) = s"
| "error_text (PyTimeoutError s) = s"
| "error_text (BrokerUnavailableError s) = s"
| "error_text (BrokerOrderRejectedError s) = s"
| "error_text (BrokerSubmissionUnknownError s) = s"
| "error_text (OtherError s) = s"

record broker_ack =
  ak_request_id :: string
  ak_client_reference :: string
  ak_broker_order_id :: "string option"
  ak_status :: write_status
  ak_message :: "string option"
  ak_acknowledged_at :: timestamp

text \<open>A row of \<^verbatim>\<open>broker_write_requests\<close>; the result keeps the message and the time of the acknowledgement.\<close>

record write_request =
  wr_request_id :: string
  wr_account_id :: string
  wr_client_reference :: string
  wr_request_hash :: string
  wr_action :: write_action
  wr_state :: write_status
  wr_broker_order_id :: "string option"
  wr_payload :: string
  wr_result :: "(string option \<times> timestamp) option"
  wr_error_message :: "string option"
  wr_created_at :: timestamp
  wr_updated_at :: timestamp

type_synonym ledger = "write_request list"

section \<open>The repository\<close>

definition new_request :: "env \<Rightarrow> string \<Rightarrow> string \<Rightarrow> string \<Rightarrow> write_action \<Rightarrow> string \<Rightarrow> string \<Rightarrow> write_request" where
  "new_request env request_id account_id client_reference action request_hash payload =
     \<lparr>wr_request_id = request_id, wr_account_id = account_id, wr_client_reference = client_reference,
      wr_request_hash = request_hash, wr_action = action, wr_state = W_RECEIVED, wr_broker_order_id = None,
      wr_payload = payload, wr_result = None, wr_error_message = None,
      wr_created_at = clock env 0, wr_updated_at = clock env 0\<rparr>"

definition cached_ack :: "env \<Rightarrow> write_request \<Rightarrow> broker_ack" where
  "cached_ack env row =
     \<lparr>ak_request_id = wr_request_id row, ak_client_reference = wr_client_reference row,
      ak_broker_order_id = wr_broker_order_id row, ak_status = W_ACKNOWLEDGED,
      ak_message = (case wr_result row of None \<Rightarrow> Some ''Order acknowledged (cached replay)'' | Some (m, _) \<Rightarrow> m),
      ak_acknowledged_at = (case wr_result row of None \<Rightarrow> clock env 0 | Some (_, t) \<Rightarrow> t)\<rparr>"

definition or_none :: "string option \<Rightarrow> string" where
  "or_none s = (case s of None \<Rightarrow> ''None'' | Some t \<Rightarrow> t)"

definition record_intent ::
  "env \<Rightarrow> string \<Rightarrow> string \<Rightarrow> string \<Rightarrow> write_action \<Rightarrow> string \<Rightarrow> string \<Rightarrow> ledger \<Rightarrow>
   broker_error + ((bool \<times> broker_ack option) \<times> ledger)" where
  "record_intent env request_id account_id client_reference action request_hash payload db =
     (let fresh = (case row_insert wr_request_id
            (new_request env request_id account_id client_reference action request_hash payload) db of
            None \<Rightarrow> Inl (OtherError ''UNIQUE constraint failed: broker_write_requests.request_id'')
          | Some db' \<Rightarrow> Inr ((True, None), db'))
      in case row_get wr_request_id request_id db of
           None \<Rightarrow> fresh
         | Some row \<Rightarrow>
             if wr_request_hash row \<noteq> request_hash
             then Inl (BrokerValidationError (''Idempotency key collision: request_id '' @ [CHR 0x27] @ request_id @ [CHR 0x27] @
                    '' already exists with differing payload hash.''))
             else (case wr_state row of
                 W_ACKNOWLEDGED \<Rightarrow> Inr ((False, Some (cached_ack env row)), db)
               | W_SUBMISSION_UNKNOWN \<Rightarrow> Inl (BrokerSubmissionUnknownError (''Request '' @ [CHR 0x27] @ request_id @ [CHR 0x27] @
                    '' previously ended in SUBMISSION_UNKNOWN: '' @ or_none (wr_error_message row) @
                    ''. Reconciliation required before retry.''))
               | W_SUBMITTING \<Rightarrow> Inl (BrokerBaseError (''Request '' @ [CHR 0x27] @ request_id @ [CHR 0x27] @
                    '' is currently in-flight to broker. Cannot retry.''))
               | W_REJECTED \<Rightarrow> Inl (BrokerOrderRejectedError (''Request '' @ [CHR 0x27] @ request_id @ [CHR 0x27] @
                    '' was rejected by broker: '' @ or_none (wr_error_message row)))
               | W_RECEIVED \<Rightarrow> Inr ((True, None), db)
               | W_FAILED_SAFE \<Rightarrow> fresh))"

definition mark_submitting :: "timestamp \<Rightarrow> string \<Rightarrow> ledger \<Rightarrow> ledger" where
  "mark_submitting t request_id db = row_update wr_request_id request_id
     (\<lambda>r. r\<lparr>wr_state := W_SUBMITTING, wr_updated_at := t\<rparr>) db"

definition mark_acknowledged :: "timestamp \<Rightarrow> string \<Rightarrow> broker_ack \<Rightarrow> ledger \<Rightarrow> ledger" where
  "mark_acknowledged t request_id ack db = row_update wr_request_id request_id
     (\<lambda>r. r\<lparr>wr_state := W_ACKNOWLEDGED, wr_broker_order_id := ak_broker_order_id ack,
            wr_result := Some (ak_message ack, ak_acknowledged_at ack), wr_updated_at := t\<rparr>) db"

definition mark_unknown :: "timestamp \<Rightarrow> string \<Rightarrow> string \<Rightarrow> ledger \<Rightarrow> ledger" where
  "mark_unknown t request_id error_message db = row_update wr_request_id request_id
     (\<lambda>r. r\<lparr>wr_state := W_SUBMISSION_UNKNOWN, wr_error_message := Some error_message, wr_updated_at := t\<rparr>) db"

definition mark_rejected :: "timestamp \<Rightarrow> string \<Rightarrow> string \<Rightarrow> ledger \<Rightarrow> ledger" where
  "mark_rejected t request_id reason db = row_update wr_request_id request_id
     (\<lambda>r. r\<lparr>wr_state := W_REJECTED, wr_error_message := Some reason, wr_updated_at := t\<rparr>) db"

definition ledger_state :: "ledger \<Rightarrow> string \<Rightarrow> write_status option" where
  "ledger_state db i = map_option wr_state (row_get wr_request_id i db)"

section \<open>The guard\<close>

record write_call =
  wc_request_id :: string
  wc_account_id :: string
  wc_client_reference :: string
  wc_action :: write_action
  wc_payload :: string

text \<open>The ledger, and the requests whose broker call was made, newest first.\<close>

record guard_state =
  gs_ledger :: ledger
  gs_sent :: "string list"

text \<open>Steps 1 and 2: the session check, then the reservation; \<open>Inr None\<close> means: go on and write.\<close>

definition guard_reserve ::
  "(string \<Rightarrow> string) \<Rightarrow> env \<Rightarrow> session_status \<Rightarrow> write_call \<Rightarrow> ledger \<Rightarrow>
   broker_error + (broker_ack option \<times> ledger)" where
  "guard_reserve sha env session c db =
     (if session \<noteq> ACTIVE
      then Inl (BrokerSessionExpiredError (''Cannot execute '' @ action_value (wc_action c) @ '' write''))
      else case record_intent env (wc_request_id c) (wc_account_id c) (wc_client_reference c) (wc_action c)
                  (sha (wc_payload c)) (wc_payload c) db of
             Inl e \<Rightarrow> Inl e
           | Inr ((is_new, ack), db') \<Rightarrow> Inr (if is_new then None else ack, db'))"

text \<open>Step 4: what the reply of the broker does to the ledger, and what the caller gets.\<close>

definition settle_reply :: "env \<Rightarrow> write_call \<Rightarrow> broker_error + broker_ack \<Rightarrow> ledger \<Rightarrow> ledger" where
  "settle_reply env c reply db =
     (case reply of
        Inr ack \<Rightarrow> mark_acknowledged (clock env 2) (wc_request_id c) ack db
      | Inl (BrokerTimeoutError s) \<Rightarrow> mark_unknown (clock env 2) (wc_request_id c)
          (''Transport timeout during '' @ action_value (wc_action c) @ '': '' @ s) db
      | Inl (PyTimeoutError s) \<Rightarrow> mark_unknown (clock env 2) (wc_request_id c)
          (''Transport timeout during '' @ action_value (wc_action c) @ '': '' @ s) db
      | Inl e \<Rightarrow> mark_rejected (clock env 2) (wc_request_id c) (error_text e) db)"

definition reply_result :: "write_call \<Rightarrow> broker_error + broker_ack \<Rightarrow> broker_error + broker_ack" where
  "reply_result c reply =
     (let unknown = Inl (BrokerSubmissionUnknownError (''Broker order submission outcome is unknown due to timeout for request '' @
            wc_request_id c @ ''. Blind retries are prohibited; reconciliation with broker order book required.''))
      in case reply of Inl (BrokerTimeoutError _) \<Rightarrow> unknown | Inl (PyTimeoutError _) \<Rightarrow> unknown | r \<Rightarrow> r)"

definition execute_guarded_write ::
  "(string \<Rightarrow> string) \<Rightarrow> env \<Rightarrow> session_status \<Rightarrow> write_call \<Rightarrow> broker_error + broker_ack \<Rightarrow> guard_state \<Rightarrow>
   (broker_error + broker_ack) \<times> guard_state" where
  "execute_guarded_write sha env session c reply s =
     (case guard_reserve sha env session c (gs_ledger s) of
        Inl e \<Rightarrow> (Inl e, s)
      | Inr (Some ack, db) \<Rightarrow> (Inr ack, s\<lparr>gs_ledger := db\<rparr>)
      | Inr (None, db) \<Rightarrow>
          (reply_result c reply,
           \<lparr>gs_ledger = settle_reply env c reply (mark_submitting (clock env 1) (wc_request_id c) db),
            gs_sent = wc_request_id c # gs_sent s\<rparr>))"

text \<open>
  A process that dies: after the reservation, after marking the request in flight, or during the
  broker call.
\<close>

datatype guard_op =
  GuardedWrite session_status write_call "broker_error + broker_ack"
| CrashReserved session_status write_call
| CrashSubmitting session_status write_call
| CrashSent session_status write_call

definition crash_submitting ::
  "(string \<Rightarrow> string) \<Rightarrow> env \<Rightarrow> session_status \<Rightarrow> write_call \<Rightarrow> bool \<Rightarrow> guard_state \<Rightarrow> guard_state" where
  "crash_submitting sha env session c sent s =
     (case guard_reserve sha env session c (gs_ledger s) of
        Inr (None, db) \<Rightarrow>
          \<lparr>gs_ledger = mark_submitting (clock env 1) (wc_request_id c) db,
           gs_sent = (if sent then wc_request_id c # gs_sent s else gs_sent s)\<rparr>
      | _ \<Rightarrow> s)"

fun guard_step :: "(string \<Rightarrow> string) \<Rightarrow> env \<Rightarrow> guard_op \<Rightarrow> guard_state \<Rightarrow> guard_state" where
  "guard_step sha env (GuardedWrite session c reply) s = snd (execute_guarded_write sha env session c reply s)"
| "guard_step sha env (CrashReserved session c) s =
     (case guard_reserve sha env session c (gs_ledger s) of Inl _ \<Rightarrow> s | Inr (_, db) \<Rightarrow> s\<lparr>gs_ledger := db\<rparr>)"
| "guard_step sha env (CrashSubmitting session c) s = crash_submitting sha env session c False s"
| "guard_step sha env (CrashSent session c) s = crash_submitting sha env session c True s"

definition guard_run :: "(string \<Rightarrow> string) \<Rightarrow> (env \<times> guard_op) list \<Rightarrow> guard_state \<Rightarrow> guard_state" where
  "guard_run sha ops s = foldl (\<lambda>s (env, op). guard_step sha env op s) s ops"

section \<open>The port\<close>

text \<open>
  What the guard relies on: a reservation succeeds only for a request that was never in flight,
  marking moves it in flight, settling ends it.  The lemmas count the broker calls.
\<close>

locale request_ledger =
  fixes state_of :: "'db \<Rightarrow> string \<Rightarrow> write_status option"
    and reserve :: "'c \<Rightarrow> 'db \<Rightarrow> ('ack option \<times> 'db) option"
    and rid :: "'c \<Rightarrow> string"
    and submit :: "string \<Rightarrow> 'db \<Rightarrow> 'db"
    and settle :: "'c \<Rightarrow> 'reply \<Rightarrow> 'db \<Rightarrow> 'db"
  assumes reserve_go: "reserve c db = Some (None, db') \<Longrightarrow> state_of db (rid c) \<in> {None, Some W_RECEIVED}
       \<and> state_of db' = (state_of db)(rid c := Some W_RECEIVED)"
    and reserve_cached: "reserve c db = Some (Some a, db') \<Longrightarrow> state_of db' = state_of db"
    and submit_state: "state_of db i \<noteq> None \<Longrightarrow> state_of (submit i db) = (state_of db)(i := Some W_SUBMITTING)"
    and settle_state: "state_of db (rid c) \<noteq> None \<Longrightarrow>
       \<exists>t \<in> {W_ACKNOWLEDGED, W_SUBMISSION_UNKNOWN, W_REJECTED}. state_of (settle c r db) = (state_of db)(rid c := Some t)"
begin

text \<open>At most one broker call per request, and none before it was in flight.\<close>

definition sent_ok :: "'db \<Rightarrow> string list \<Rightarrow> bool" where
  "sent_ok db sent \<longleftrightarrow>
     (\<forall>i. count_list sent i \<le> (if state_of db i \<in> {None, Some W_RECEIVED} then 0 else 1))"

lemma sent_ok_upd:
  assumes "sent_ok db sent" "state_of db' = (state_of db)(i := Some t)"
    and "count_list sent' i \<le> (if t = W_RECEIVED then 0 else 1)"
    and "\<And>j. j \<noteq> i \<Longrightarrow> count_list sent' j = count_list sent j"
  shows "sent_ok db' sent'"
  unfolding sent_ok_def
proof
  fix j
  have "count_list sent j \<le> (if state_of db j \<in> {None, Some W_RECEIVED} then 0 else 1)"
    using assms(1) unfolding sent_ok_def by blast
  then show "count_list sent' j \<le> (if state_of db' j \<in> {None, Some W_RECEIVED} then 0 else 1)"
    using assms(3) assms(4)[of j] by (cases "j = i") (simp_all add: assms(2))
qed

lemma sent_ok_go:
  assumes ok: "sent_ok db sent" and go: "reserve c db = Some (None, db')"
  shows "sent_ok db' sent" "sent_ok (submit (rid c) db') sent" "sent_ok (submit (rid c) db') (rid c # sent)"
    "sent_ok (settle c r (submit (rid c) db')) (rid c # sent)"
proof -
  note g = reserve_go[OF go]
  have zero: "count_list sent (rid c) = 0" using ok g unfolding sent_ok_def by (metis le_zero_eq)
  have s0: "state_of db' = (state_of db)(rid c := Some W_RECEIVED)" using g by blast
  have s1: "state_of (submit (rid c) db') = (state_of db)(rid c := Some W_SUBMITTING)"
    using submit_state[of db' "rid c"] s0 by simp
  then obtain t where t: "t \<in> {W_ACKNOWLEDGED, W_SUBMISSION_UNKNOWN, W_REJECTED}"
    "state_of (settle c r (submit (rid c) db')) = (state_of db)(rid c := Some t)"
    using settle_state[of "submit (rid c) db'" c r] by fastforce
  show "sent_ok db' sent" "sent_ok (submit (rid c) db') sent" "sent_ok (submit (rid c) db') (rid c # sent)"
    using zero by (auto intro: sent_ok_upd[OF ok s0] sent_ok_upd[OF ok s1])
  show "sent_ok (settle c r (submit (rid c) db')) (rid c # sent)"
    by (rule sent_ok_upd[OF ok t(2)]) (use zero t(1) in auto)
qed

lemma sent_ok_cached: "sent_ok db sent \<Longrightarrow> reserve c db = Some (Some a, db') \<Longrightarrow> sent_ok db' sent"
  by (simp add: sent_ok_def reserve_cached)

end

section \<open>The repository implements the port\<close>

interpretation request_table: keyed_table wr_request_id "\<lambda>old new. old"
  by unfold_locales simp

lemma ledger_update:
  assumes "\<And>r. wr_request_id (f r) = wr_request_id r" "\<And>r. wr_state (f r) = t"
  shows "ledger_state (row_update wr_request_id i f db) =
    (if ledger_state db i = None then ledger_state db else (ledger_state db)(i := Some t))"
proof
  fix j
  show "ledger_state (row_update wr_request_id i f db) j =
    (if ledger_state db i = None then ledger_state db else (ledger_state db)(i := Some t)) j"
  proof (cases "j = i")
    case True
    then show ?thesis
      using request_table.get_update_same[of i f db] assms
      by (cases "row_get wr_request_id i db") (simp_all add: ledger_state_def)
  next
    case False
    then show ?thesis
      using request_table.get_update_other[of i f j db] assms by (simp add: ledger_state_def)
  qed
qed

lemma ledger_update_known:
  assumes "ledger_state db i \<noteq> None" "\<And>r. wr_request_id (f r) = wr_request_id r" "\<And>r. wr_state (f r) = t"
  shows "ledger_state (row_update wr_request_id i f db) = (ledger_state db)(i := Some t)"
  using ledger_update[of f t i db] assms by (simp only: if_False simp_thms)

lemma ledger_marks:
  "ledger_state db i \<noteq> None \<Longrightarrow> ledger_state (mark_submitting t i db) = (ledger_state db)(i := Some W_SUBMITTING)"
  "ledger_state db i \<noteq> None \<Longrightarrow> ledger_state (mark_acknowledged t i a db) = (ledger_state db)(i := Some W_ACKNOWLEDGED)"
  "ledger_state db i \<noteq> None \<Longrightarrow> ledger_state (mark_unknown t i m db) = (ledger_state db)(i := Some W_SUBMISSION_UNKNOWN)"
  "ledger_state db i \<noteq> None \<Longrightarrow> ledger_state (mark_rejected t i m db) = (ledger_state db)(i := Some W_REJECTED)"
  unfolding mark_submitting_def mark_acknowledged_def mark_unknown_def mark_rejected_def
  by (rule ledger_update_known; simp)+

lemma ledger_append:
  "row_insert wr_request_id r db = Some db' \<Longrightarrow>
   ledger_state db (wr_request_id r) = None \<and> ledger_state db' = (ledger_state db)(wr_request_id r := Some (wr_state r))"
  by (rule conjI, simp add: row_insert_def ledger_state_def split: if_splits, rule ext)
    (auto simp: row_insert_def ledger_state_def split: if_splits option.splits)

lemma record_intent_go:
  "record_intent env i a r act h p db = Inr ((True, x), db') \<Longrightarrow>
   x = None \<and> ledger_state db i \<in> {None, Some W_RECEIVED} \<and> ledger_state db' = (ledger_state db)(i := Some W_RECEIVED)"
proof -
  assume g: "record_intent env i a r act h p db = Inr ((True, x), db')"
  let ?n = "new_request env i a r act h p"
  have n: "wr_request_id ?n = i" "wr_state ?n = W_RECEIVED" by (simp_all add: new_request_def)
  show ?thesis
  proof (cases "row_get wr_request_id i db")
    case None
    then have "row_insert wr_request_id ?n db = Some db'" "x = None"
      using g by (auto simp: record_intent_def Let_def split: option.splits)
    then show ?thesis using ledger_append[of ?n db db'] n by simp
  next
    case (Some row)
    then have "wr_state row = W_RECEIVED" "db' = db" "x = None"
      using g n by (auto simp: record_intent_def Let_def row_insert_def split: if_splits write_status.splits)
    then show ?thesis using Some by (auto simp: ledger_state_def)
  qed
qed

lemma record_intent_row:
  assumes "record_intent env i a r act h p db = Inr ((True, x), db')"
  shows "\<exists>row. row_get wr_request_id i db' = Some row \<and> wr_request_hash row = h \<and> wr_state row = W_RECEIVED"
proof (cases "row_get wr_request_id i db")
  case None
  let ?n = "new_request env i a r act h p"
  have "row_insert wr_request_id ?n db = Some db'"
    using assms None by (simp add: record_intent_def Let_def split: option.splits)
  then have "db' = db @ [?n]" by (simp add: row_insert_def split: if_splits)
  then show ?thesis using None by (simp add: new_request_def)
next
  case (Some row)
  have "row_insert wr_request_id (new_request env i a r act h p) db = None"
    using Some by (simp add: row_insert_def new_request_def)
  then have "wr_request_hash row = h" "wr_state row = W_RECEIVED" "db' = db"
    using assms Some by (simp_all add: record_intent_def Let_def split: if_splits write_status.splits)
  then show ?thesis using Some by blast
qed

lemma record_intent_again:
  "row_get wr_request_id i db = Some row \<Longrightarrow> wr_request_hash row = h \<Longrightarrow> wr_state row = W_RECEIVED \<Longrightarrow>
   record_intent env i a r act h p db = Inr ((True, None), db)"
  by (simp add: record_intent_def Let_def)

lemma record_intent_cached:
  "record_intent env i a r act h p db = Inr ((False, x), db') \<Longrightarrow>
   db' = db \<and> (\<exists>row. row_get wr_request_id i db = Some row \<and> wr_state row = W_ACKNOWLEDGED \<and> x = Some (cached_ack env row))"
  by (auto simp: record_intent_def Let_def row_insert_def new_request_def
      split: option.splits if_splits write_status.splits)

text \<open>The three answers of the reservation.\<close>

lemma guard_reserve_go:
  "guard_reserve sha env ss c db = Inr (None, db') \<Longrightarrow>
   ss = ACTIVE \<and> record_intent env (wc_request_id c) (wc_account_id c) (wc_client_reference c) (wc_action c)
     (sha (wc_payload c)) (wc_payload c) db = Inr ((True, None), db')"
  using record_intent_go record_intent_cached
  by (fastforce simp: guard_reserve_def split: sum.splits if_splits prod.splits)

lemma guard_reserve_cached:
  "guard_reserve sha env ss c db = Inr (Some a, db') \<Longrightarrow>
   db' = db \<and> (\<exists>row. row_get wr_request_id (wc_request_id c) db = Some row \<and> wr_state row = W_ACKNOWLEDGED \<and> a = cached_ack env row)"
  using record_intent_go record_intent_cached
  by (fastforce simp: guard_reserve_def split: sum.splits if_splits prod.splits)

text \<open>A write of one request leaves the others alone.\<close>

lemma ledger_frame:
  assumes "wc_request_id c \<noteq> i"
  shows "ledger_state (mark_submitting t (wc_request_id c) db) i = ledger_state db i"
    and "ledger_state (settle_reply env c r db) i = ledger_state db i"
proof -
  have other: "ledger_state (row_update wr_request_id (wc_request_id c) f db) i = ledger_state db i"
    if "\<And>x. wr_request_id (f x) = wr_request_id x" for f
    using request_table.get_update_other[of "wc_request_id c" f i db] that assms by (simp add: ledger_state_def)
  show "ledger_state (mark_submitting t (wc_request_id c) db) i = ledger_state db i"
    unfolding mark_submitting_def by (rule other) simp
  have m: "ledger_state (mark_acknowledged t (wc_request_id c) ack db) i = ledger_state db i"
    "ledger_state (mark_unknown t (wc_request_id c) m db) i = ledger_state db i"
    "ledger_state (mark_rejected t (wc_request_id c) m db) i = ledger_state db i" for t m ack
    unfolding mark_acknowledged_def mark_unknown_def mark_rejected_def by (rule other; simp)+
  show "ledger_state (settle_reply env c r db) i = ledger_state db i"
    unfolding settle_reply_def by (simp add: m split: sum.split broker_error.split)
qed

definition reserve_call ::
  "(string \<Rightarrow> string) \<Rightarrow> env \<Rightarrow> session_status \<Rightarrow> write_call \<Rightarrow> ledger \<Rightarrow> (broker_ack option \<times> ledger) option" where
  "reserve_call sha env session c db =
     (case guard_reserve sha env session c db of Inl _ \<Rightarrow> None | Inr r \<Rightarrow> Some r)"

interpretation sqlite_ledger:
  request_ledger ledger_state "reserve_call sha env session" wc_request_id "mark_submitting t" "settle_reply env"
  for sha env session t
proof unfold_locales
  fix c db db'
  show "ledger_state db (wc_request_id c) \<in> {None, Some W_RECEIVED} \<and>
      ledger_state db' = (ledger_state db)(wc_request_id c := Some W_RECEIVED)"
    if "reserve_call sha env session c db = Some (None, db')"
  proof -
    have "guard_reserve sha env session c db = Inr (None, db')"
      using that by (simp add: reserve_call_def split: sum.splits)
    from record_intent_go[OF conjunct2[OF guard_reserve_go[OF this]]] show ?thesis by blast
  qed
  show "ledger_state db' = ledger_state db" if "reserve_call sha env session c db = Some (Some a, db')" for a
    using guard_reserve_cached[of sha env session c db a db'] that
    by (auto simp: reserve_call_def split: sum.splits)
  show "\<exists>t \<in> {W_ACKNOWLEDGED, W_SUBMISSION_UNKNOWN, W_REJECTED}.
      ledger_state (settle_reply env c r db) = (ledger_state db)(wc_request_id c := Some t)"
    if "ledger_state db (wc_request_id c) \<noteq> None" for r :: "broker_error + broker_ack"
    using ledger_marks[OF that] by (auto simp: settle_reply_def split: sum.split broker_error.split)
qed (simp add: ledger_marks)

lemma guard_step_sent:
  "sqlite_ledger.sent_ok (gs_ledger s) (gs_sent s) \<Longrightarrow>
   sqlite_ledger.sent_ok (gs_ledger (guard_step sha env op s)) (gs_sent (guard_step sha env op s))"
proof -
  assume ok: "sqlite_ledger.sent_ok (gs_ledger s) (gs_sent s)"
  have go: "guard_reserve sha env ss c db = Inr x \<longleftrightarrow> reserve_call sha env ss c db = Some x" for ss c db x
    by (simp add: reserve_call_def split: sum.split)
  show ?thesis
  proof (cases op)
    case (GuardedWrite ss c reply)
    then show ?thesis
      using ok sqlite_ledger.sent_ok_go(4)[OF ok, where sha = sha and env = env and session = ss and c = c and r = reply and t = "clock env 1"]
        sqlite_ledger.sent_ok_cached[OF ok, where sha = sha and env = env and session = ss and c = c] go[of ss c "gs_ledger s"]
      by (auto simp: execute_guarded_write_def split: sum.splits prod.splits option.splits)
  next
    case (CrashReserved ss c)
    then show ?thesis
      using ok sqlite_ledger.sent_ok_go(1)[OF ok, where sha = sha and env = env and session = ss and c = c]
        sqlite_ledger.sent_ok_cached[OF ok, where sha = sha and env = env and session = ss and c = c] go[of ss c "gs_ledger s"]
      by (auto split: sum.splits prod.splits) (metis option.exhaust)
  next
    case (CrashSubmitting ss c)
    then show ?thesis
      using ok sqlite_ledger.sent_ok_go(2)[OF ok, where sha = sha and env = env and session = ss and c = c and t = "clock env 1"] go[of ss c "gs_ledger s"]
      by (auto simp: crash_submitting_def split: sum.splits prod.splits option.splits)
  next
    case (CrashSent ss c)
    then show ?thesis
      using ok sqlite_ledger.sent_ok_go(3)[OF ok, where sha = sha and env = env and session = ss and c = c and t = "clock env 1"] go[of ss c "gs_ledger s"]
      by (auto simp: crash_submitting_def split: sum.splits prod.splits option.splits)
  qed
qed

lemma guard_run_sent:
  "sqlite_ledger.sent_ok (gs_ledger (guard_run sha ops \<lparr>gs_ledger = [], gs_sent = []\<rparr>))
     (gs_sent (guard_run sha ops \<lparr>gs_ledger = [], gs_sent = []\<rparr>))"
proof (induction ops rule: rev_induct)
  case Nil
  then show ?case by (simp add: guard_run_def sqlite_ledger.sent_ok_def)
next
  case (snoc x ops)
  then show ?case using guard_step_sent by (cases x) (simp add: guard_run_def)
qed

section \<open>The life of a request\<close>

fun write_rank :: "write_status \<Rightarrow> nat" where
  "write_rank W_RECEIVED = 0"
| "write_rank W_SUBMITTING = 1"
| "write_rank _ = 2"

definition can_write :: "write_status \<Rightarrow> write_status \<Rightarrow> bool" where
  "can_write s t \<longleftrightarrow> (s = W_RECEIVED \<and> t = W_SUBMITTING)
     \<or> (s = W_SUBMITTING \<and> t \<in> {W_ACKNOWLEDGED, W_SUBMISSION_UNKNOWN, W_REJECTED})"

interpretation write_machine: ranked_machine can_write write_rank "\<lambda>_. False"
  by unfold_locales (auto simp: can_write_def)

lemma write_final: "can_write\<^sup>*\<^sup>* s t \<Longrightarrow> s \<notin> {W_RECEIVED, W_SUBMITTING} \<Longrightarrow> t = s"
  by (induction rule: converse_rtranclp_induct) (auto simp: can_write_def)

text \<open>What a guarded write does to the ledger.\<close>

lemma guard_cases:
  obtains (refused) e where "execute_guarded_write sha env ss c reply s = (Inl e, s)"
  | (cached) row where "row_get wr_request_id (wc_request_id c) (gs_ledger s) = Some row" "wr_state row = W_ACKNOWLEDGED"
      "execute_guarded_write sha env ss c reply s = (Inr (cached_ack env row), s)"
  | (sent) db where "guard_reserve sha env ss c (gs_ledger s) = Inr (None, db)"
      "ledger_state (gs_ledger s) (wc_request_id c) \<in> {None, Some W_RECEIVED}"
      "ledger_state db = (ledger_state (gs_ledger s))(wc_request_id c := Some W_RECEIVED)"
      "execute_guarded_write sha env ss c reply s = (reply_result c reply,
         \<lparr>gs_ledger = settle_reply env c reply (mark_submitting (clock env 1) (wc_request_id c) db),
          gs_sent = wc_request_id c # gs_sent s\<rparr>)"
proof (cases "guard_reserve sha env ss c (gs_ledger s)")
  case (Inl e)
  then show ?thesis using refused by (simp add: execute_guarded_write_def)
next
  case (Inr r)
  obtain a db where r: "r = (a, db)" by force
  show ?thesis
  proof (cases a)
    case None
    then have go: "guard_reserve sha env ss c (gs_ledger s) = Inr (None, db)" using Inr r by simp
    then have "reserve_call sha env ss c (gs_ledger s) = Some (None, db)" by (simp add: reserve_call_def)
    then show ?thesis using sent[OF go] sqlite_ledger.reserve_go go by (auto simp: execute_guarded_write_def)
  next
    case (Some ack)
    then obtain row where "db = gs_ledger s" "row_get wr_request_id (wc_request_id c) (gs_ledger s) = Some row"
      "wr_state row = W_ACKNOWLEDGED" "ack = cached_ack env row"
      using Inr r guard_reserve_cached[of sha env ss c "gs_ledger s" ack db] by auto
    then show ?thesis using cached Inr r Some by (simp add: execute_guarded_write_def)
  qed
qed

text \<open>A request in SUBMISSION_UNKNOWN is never reserved again, so no step touches it.\<close>

lemma guard_step_unknown:
  assumes u: "ledger_state (gs_ledger s) i = Some W_SUBMISSION_UNKNOWN"
  shows "ledger_state (gs_ledger (guard_step sha env op s)) i = Some W_SUBMISSION_UNKNOWN
    \<and> count_list (gs_sent (guard_step sha env op s)) i = count_list (gs_sent s) i"
proof -
  have other: "wc_request_id c \<noteq> i \<and> ledger_state db i = Some W_SUBMISSION_UNKNOWN"
    if "guard_reserve sha env ss c (gs_ledger s) = Inr (None, db)" for ss c db
  proof -
    have "reserve_call sha env ss c (gs_ledger s) = Some (None, db)" using that by (simp add: reserve_call_def)
    from sqlite_ledger.reserve_go[OF this] u show ?thesis by auto
  qed
  have cached: "ledger_state db i = Some W_SUBMISSION_UNKNOWN"
    if "guard_reserve sha env ss c (gs_ledger s) = Inr (Some a, db)" for ss c db a
  proof -
    have "reserve_call sha env ss c (gs_ledger s) = Some (Some a, db)" using that by (simp add: reserve_call_def)
    from sqlite_ledger.reserve_cached[OF this] u show ?thesis by simp
  qed
  show "ledger_state (gs_ledger (guard_step sha env op s)) i = Some W_SUBMISSION_UNKNOWN
      \<and> count_list (gs_sent (guard_step sha env op s)) i = count_list (gs_sent s) i"
  proof (cases op)
    case (GuardedWrite ss c reply)
    then show ?thesis using u other[of ss c] cached[of ss c]
      by (auto simp: execute_guarded_write_def ledger_frame split: sum.splits prod.splits option.splits)
  next
    case (CrashReserved ss c)
    show ?thesis
    proof (cases "guard_reserve sha env ss c (gs_ledger s)")
      case (Inr r)
      obtain a db where "r = (a, db)" by force
      then show ?thesis using Inr other[of ss c db] cached[of ss c _ db] by (cases a) (simp_all add: CrashReserved)
    qed (simp add: CrashReserved u)
  next
    case (CrashSubmitting ss c)
    then show ?thesis using u other[of ss c]
      by (auto simp: crash_submitting_def ledger_frame split: sum.splits prod.splits option.splits)
  next
    case (CrashSent ss c)
    then show ?thesis using u other[of ss c]
      by (auto simp: crash_submitting_def ledger_frame split: sum.splits prod.splits option.splits)
  qed
qed

section \<open>Properties\<close>

definition demo_call :: "string \<Rightarrow> write_call" where
  "demo_call payload = \<lparr>wc_request_id = ''r1'', wc_account_id = ''a'', wc_client_reference = ''CL-1'',
     wc_action = PLACE, wc_payload = payload\<rparr>"

definition demo_ack :: broker_ack where
  "demo_ack = \<lparr>ak_request_id = ''r1'', ak_client_reference = ''CL-1'', ak_broker_order_id = Some ''B7'',
     ak_status = W_ACKNOWLEDGED, ak_message = None, ak_acknowledged_at = 42\<rparr>"

definition demo_clock :: env where "demo_clock = \<lparr>clock = (\<lambda>i. int i), uuid = (\<lambda>i. [])\<rparr>"

definition guard_empty :: guard_state where "guard_empty = \<lparr>gs_ledger = [], gs_sent = []\<rparr>"

text \<open>
  C10. However often a request is submitted, one call after the other and across crashes at any
  point, the broker is called at most once for it, and never before the ledger says it is in flight.
\<close>

theorem ledger_at_most_once:
  "count_list (gs_sent (guard_run sha ops guard_empty)) i
     \<le> (if ledger_state (gs_ledger (guard_run sha ops guard_empty)) i \<in> {None, Some W_RECEIVED} then 0 else 1)"
  using guard_run_sent[of sha ops] unfolding sqlite_ledger.sent_ok_def guard_empty_def by blast

text \<open>The client reference a request is recorded under: that of the first call, kept by a later one.\<close>

definition recorded_reference :: "write_call \<Rightarrow> ledger \<Rightarrow> string" where
  "recorded_reference c db = (case row_get wr_request_id (wc_request_id c) db of
     None \<Rightarrow> wc_client_reference c | Some row \<Rightarrow> wr_client_reference row)"

lemma record_intent_reference:
  assumes "record_intent env (wc_request_id c) a (wc_client_reference c) act h p db = Inr ((True, x), db')"
    "row_get wr_request_id (wc_request_id c) db' = Some row"
  shows "wr_client_reference row = recorded_reference c db"
proof (cases "row_get wr_request_id (wc_request_id c) db")
  case None
  let ?n = "new_request env (wc_request_id c) a (wc_client_reference c) act h p"
  have "row_insert wr_request_id ?n db = Some db'"
    using assms(1) None by (simp add: record_intent_def Let_def split: option.splits)
  then have "db' = db @ [?n]" by (simp add: row_insert_def split: if_splits)
  then have "row = ?n" using assms(2) None by (simp add: new_request_def row_get_append)
  then show ?thesis using None by (simp add: new_request_def recorded_reference_def)
next
  case (Some old)
  have "row_insert wr_request_id (new_request env (wc_request_id c) a (wc_client_reference c) act h p) db = None"
    using Some by (simp add: row_insert_def new_request_def)
  then have "db' = db"
    using assms(1) Some by (simp add: record_intent_def Let_def split: if_splits write_status.splits)
  then show ?thesis using Some assms(2) by (simp add: recorded_reference_def)
qed

text \<open>
  C18. An acknowledged request is answered from the ledger: repeating it with the same payload gives
  ACKNOWLEDGED with the same broker order id, message and time, under the request id and the client
  reference the request was recorded with (that of the call itself when the request is new), without a
  broker call; with another payload hash it is refused as a collision without a broker call.
\<close>

theorem ledger_replays_ack:
  "execute_guarded_write sha env ACTIVE c (Inr ack) s = (Inr ack, s1) \<Longrightarrow> gs_sent s1 \<noteq> gs_sent s \<Longrightarrow>
   (\<exists>again. execute_guarded_write sha env' ACTIVE c reply s1 = (Inr again, s1)
      \<and> ak_broker_order_id again = ak_broker_order_id ack \<and> ak_acknowledged_at again = ak_acknowledged_at ack
      \<and> ak_message again = ak_message ack \<and> ak_request_id again = wc_request_id c \<and> ak_status again = W_ACKNOWLEDGED
      \<and> ak_client_reference again = recorded_reference c (gs_ledger s))
   \<and> (sha p \<noteq> sha (wc_payload c) \<longrightarrow>
      (\<exists>m. execute_guarded_write sha env' ACTIVE (c\<lparr>wc_payload := p\<rparr>) reply s1 = (Inl (BrokerValidationError m), s1)))"
proof -
  assume e: "execute_guarded_write sha env ACTIVE c (Inr ack) s = (Inr ack, s1)" and n: "gs_sent s1 \<noteq> gs_sent s"
  let ?i = "wc_request_id c"
  obtain db where g: "guard_reserve sha env ACTIVE c (gs_ledger s) = Inr (None, db)"
    and s1: "gs_ledger s1 = mark_acknowledged (clock env 2) ?i ack (mark_submitting (clock env 1) ?i db)"
    using e n by (cases rule: guard_cases[of sha env ACTIVE c "Inr ack" s]) (auto simp: settle_reply_def)
  obtain row where row: "row_get wr_request_id ?i db = Some row" "wr_request_hash row = sha (wc_payload c)"
    using record_intent_row guard_reserve_go[OF g] by blast
  have ref: "wr_client_reference row = recorded_reference c (gs_ledger s)"
    using guard_reserve_go[OF g] record_intent_reference row(1) by blast
  have "row_get wr_request_id ?i (gs_ledger s1) = Some (row\<lparr>wr_state := W_ACKNOWLEDGED,
      wr_broker_order_id := ak_broker_order_id ack, wr_result := Some (ak_message ack, ak_acknowledged_at ack),
      wr_updated_at := clock env 2\<rparr>)"
    unfolding s1 mark_acknowledged_def mark_submitting_def
    by (simp add: request_table.get_update_same row(1))
  moreover have "wr_request_id row = ?i" using row(1) by (rule row_get_SomeD)
  ultimately show ?thesis
    using row(2) ref by (simp add: execute_guarded_write_def guard_reserve_def record_intent_def Let_def cached_ack_def)
qed

theorem ledger_replays_ack_witness:
  "let s1 = snd (execute_guarded_write (\<lambda>p. p) demo_clock ACTIVE (demo_call ''p'') (Inr demo_ack) guard_empty)
   in \<exists>again. execute_guarded_write (\<lambda>p. p) demo_clock ACTIVE (demo_call ''p'') (Inl (OtherError ''x'')) s1 = (Inr again, s1)
        \<and> ak_broker_order_id again = Some ''B7'' \<and> ak_client_reference again = wc_client_reference (demo_call ''p'')"
proof -
  let ?r = "execute_guarded_write (\<lambda>p. p) demo_clock ACTIVE (demo_call ''p'') (Inr demo_ack) guard_empty"
  have e: "?r = (Inr demo_ack, snd ?r)" and n: "gs_sent (snd ?r) \<noteq> gs_sent guard_empty"
    by (simp_all add: execute_guarded_write_def guard_reserve_def record_intent_def guard_empty_def row_insert_def
        reply_result_def)
  from ledger_replays_ack[OF e n, of demo_clock "Inl (OtherError ''x'')" "[]"]
  show ?thesis by (auto simp: Let_def demo_ack_def recorded_reference_def guard_empty_def)
qed

text \<open>
  A timeout leaves the request SUBMISSION_UNKNOWN and tells the caller so; after it no sequence
  of calls reaches the broker for this request again, and it stays SUBMISSION_UNKNOWN.
\<close>

theorem ledger_unknown_is_final:
  "ledger_state (gs_ledger s) i = Some W_SUBMISSION_UNKNOWN \<Longrightarrow>
   ledger_state (gs_ledger (guard_run sha ops s)) i = Some W_SUBMISSION_UNKNOWN
   \<and> count_list (gs_sent (guard_run sha ops s)) i = count_list (gs_sent s) i"
proof (induction ops rule: rev_induct)
  case Nil
  then show ?case by (simp add: guard_run_def)
next
  case (snoc x ops)
  obtain env op where "x = (env, op)" by force
  then show ?case using snoc guard_step_unknown[of "guard_run sha ops s" i sha env op] by (simp add: guard_run_def)
qed

theorem ledger_unknown_is_final_witness:
  "let s = snd (execute_guarded_write (\<lambda>p. p) demo_clock ACTIVE (demo_call ''p'') (Inl (PyTimeoutError ''t'')) guard_empty)
   in ledger_state (gs_ledger (guard_run (\<lambda>p. p) [(demo_clock, GuardedWrite ACTIVE (demo_call ''p'') (Inr demo_ack))] s)) ''r1''
      = Some W_SUBMISSION_UNKNOWN"
proof -
  let ?s = "snd (execute_guarded_write (\<lambda>p. p) demo_clock ACTIVE (demo_call ''p'') (Inl (PyTimeoutError ''t'')) guard_empty)"
  have "ledger_state (gs_ledger ?s) ''r1'' = Some W_SUBMISSION_UNKNOWN" by code_simp
  from ledger_unknown_is_final[OF this, of "\<lambda>p. p" "[(demo_clock, GuardedWrite ACTIVE (demo_call ''p'') (Inr demo_ack))]"]
  show ?thesis by (simp add: Let_def)
qed

text \<open>
  A lost connection that is not a timeout is recorded as a definite rejection, although the
  broker may have taken the order.
\<close>

lemma ledger_disconnect_is_rejected:
  "ledger_state (gs_ledger (snd (execute_guarded_write (\<lambda>p. p) demo_clock ACTIVE (demo_call ''p'')
     (Inl (BrokerUnavailableError ''connection reset'')) guard_empty))) ''r1'' = Some W_REJECTED"
  by code_simp

text \<open>
  The reservation is not exclusive until the request is marked in flight: a second caller that
  reserves in between is told to write as well.
\<close>

lemma reservation_not_exclusive:
  assumes "guard_reserve sha env ss c db = Inr (None, db1)"
  shows "guard_reserve sha env' ss c db1 = Inr (None, db1)"
proof -
  note g = guard_reserve_go[OF assms]
  obtain row where "row_get wr_request_id (wc_request_id c) db1 = Some row" "wr_request_hash row = sha (wc_payload c)"
    "wr_state row = W_RECEIVED"
    using record_intent_row g by blast
  then show ?thesis using g by (simp add: guard_reserve_def record_intent_again)
qed

end
