(* ===== verification/StrategyState.thy ===== *)
theory StrategyState imports Contracts begin

text \<open>
  The lifecycle of a trading setup, \<^verbatim>\<open>StrategySetup\<close> and \<^verbatim>\<open>StrategyStateSnapshot\<close> of
  \<^verbatim>\<open>services/strategy/models.py\<close>.  Both are frozen pydantic models: constructing one runs the
  field constraints and the validators, and a failure is a \<^verbatim>\<open>ValidationError\<close>, here \<open>ValueError\<close> with
  the message of the validator.  Times are aware, so \<^verbatim>\<open>_require_aware\<close> never fails.
\<close>

section \<open>Enumerations\<close>

datatype strategy_state = FLAT | SETUP | ARMED | ENTERED | COOLDOWN

datatype trade_direction = BULLISH | BEARISH

datatype strategy_direction = CALL_SIDE | PUT_SIDE

datatype invalidation_state = ACTIVE | INVALIDATED | EXPIRED_SETUP | CONSUMED

fun state_value :: "strategy_state \<Rightarrow> string" where
  "state_value FLAT = ''FLAT''"
| "state_value SETUP = ''SETUP''"
| "state_value ARMED = ''ARMED''"
| "state_value ENTERED = ''ENTERED''"
| "state_value COOLDOWN = ''COOLDOWN''"

text \<open>\<^verbatim>\<open>StrategyState(value)\<close> with the legacy aliases of \<^verbatim>\<open>_missing_\<close>.\<close>

definition parse_state :: "string \<Rightarrow> exn + strategy_state" where
  "parse_state value =
     (case filter (\<lambda>st. state_value st = value) [FLAT, SETUP, ARMED, ENTERED, COOLDOWN] of
        st # _ \<Rightarrow> Inr st
      | [] \<Rightarrow>
          if value = ''SEARCHING'' \<or> value = ''PAUSED'' then Inr FLAT
          else if value = ''TRIGGERED'' then Inr ARMED
          else Inl (ValueError value))"

definition from_trade_direction :: "trade_direction \<Rightarrow> strategy_direction" where
  "from_trade_direction d = (if d = BULLISH then CALL_SIDE else PUT_SIDE)"

definition to_trade_direction :: "strategy_direction \<Rightarrow> trade_direction" where
  "to_trade_direction d = (if d = CALL_SIDE then BULLISH else BEARISH)"

section \<open>Setups\<close>

record strategy_setup =
  se_direction :: strategy_direction
  se_setup_timestamp :: timestamp
  se_confirmation_bar_timestamp :: timestamp
  se_confirmation_high :: pyfloat
  se_confirmation_low :: pyfloat
  se_trigger_price :: pyfloat
  se_structural_stop :: pyfloat
  se_initial_underlying_r :: pyfloat
  se_relevant_level :: pyfloat
  se_confluence_references :: "string list"
  se_setup_expiry_timestamp :: timestamp
  se_setup_expiry_bar_index :: int
  se_invalidation_state :: invalidation_state
  se_invalidation_reason :: "string option"

text \<open>\<^verbatim>\<open>math.isclose(a, b, rel_tol=1e-6, abs_tol=1e-6)\<close>\<close>

definition tolerance :: pyfloat where "tolerance = flit (1 / 1000000)"

definition isclose :: "pyfloat \<Rightarrow> pyfloat \<Rightarrow> bool" where
  "isclose a b \<longleftrightarrow> feq a b \<or> a \<notin> {PInf, NInf} \<and> b \<notin> {PInf, NInf} \<and>
     (let diff = fabs (fsub b a) in
      fle diff (fabs (fmul tolerance b)) \<or> fle diff (fabs (fmul tolerance a)) \<or> fle diff tolerance)"

definition positive :: "pyfloat \<Rightarrow> bool" where "positive x = flt (Fin 0) x"

text \<open>Field constraints, checked before the validator.\<close>

definition setup_fields_ok :: "strategy_setup \<Rightarrow> bool" where
  "setup_fields_ok s \<longleftrightarrow> list_all positive [se_confirmation_high s, se_confirmation_low s, se_trigger_price s,
       se_structural_stop s, se_initial_underlying_r s, se_relevant_level s]
     \<and> se_confluence_references s \<noteq> [] \<and> 0 \<le> se_setup_expiry_bar_index s"

text \<open>A validator: the first violated condition gives the message.\<close>

fun first_violation :: "(bool \<times> string) list \<Rightarrow> string option" where
  "first_violation [] = None"
| "first_violation ((bad, msg) # cs) = (if bad then Some msg else first_violation cs)"

definition no_text :: "string option \<Rightarrow> bool" where
  "no_text r = (r = None \<or> r = Some [])"

definition setup_checks :: "strategy_setup \<Rightarrow> (bool \<times> string) list" where
  "setup_checks s =
    [(\<not> setup_fields_ok s, ''field constraint''),
     (fle (se_confirmation_high s) (se_confirmation_low s), ''confirmation_high must be greater than confirmation_low''),
     (list_ex (\<lambda>r. r = [] \<or> strip r = []) (se_confluence_references s),
        ''confluence_references must contain non-empty values''),
     (se_setup_timestamp s < se_confirmation_bar_timestamp s, ''setup_timestamp cannot precede confirmation_bar_timestamp''),
     (se_setup_expiry_timestamp s < se_setup_timestamp s, ''setup_expiry_timestamp cannot precede setup_timestamp''),
     (\<not> isclose (se_initial_underlying_r s) (fabs (fsub (se_trigger_price s) (se_structural_stop s))),
        ''initial_underlying_r must equal trigger/structural-stop distance''),
     (se_direction s = CALL_SIDE \<and> fle (se_trigger_price s) (se_structural_stop s),
        ''CALL structural_stop must be below trigger_price''),
     (se_direction s = PUT_SIDE \<and> fle (se_structural_stop s) (se_trigger_price s),
        ''PUT structural_stop must be above trigger_price''),
     (se_invalidation_state s = ACTIVE \<and> se_invalidation_reason s \<noteq> None,
        ''active setup cannot have an invalidation_reason''),
     (se_invalidation_state s \<noteq> ACTIVE \<and> no_text (se_invalidation_reason s),
        ''invalidated, expired, or consumed setup requires invalidation_reason'')]"

definition make_setup :: "strategy_setup \<Rightarrow> exn + strategy_setup" where
  "make_setup s = (case first_violation (setup_checks s) of None \<Rightarrow> Inr s | Some m \<Rightarrow> Inl (ValueError m))"

section \<open>Snapshots\<close>

record state_snapshot =
  ss_state :: strategy_state
  ss_direction :: "strategy_direction option"
  ss_setup :: "strategy_setup option"
  ss_entry_timestamp :: "timestamp option"
  ss_cooldown_until :: "timestamp option"

definition flat_snapshot :: state_snapshot where
  "flat_snapshot = \<lparr>ss_state = FLAT, ss_direction = None, ss_setup = None, ss_entry_timestamp = None,
     ss_cooldown_until = None\<rparr>"

text \<open>Conditions on the setup of a snapshot; with no setup they hold vacuously, the first check has failed then.\<close>

definition setup_is :: "(strategy_setup \<Rightarrow> bool) \<Rightarrow> state_snapshot \<Rightarrow> bool" where
  "setup_is P s = (case ss_setup s of None \<Rightarrow> False | Some se \<Rightarrow> P se)"

definition pending_checks :: "state_snapshot \<Rightarrow> (bool \<times> string) list" where
  "pending_checks s =
    [(ss_setup s = None \<or> ss_direction s = None, state_value (ss_state s) @ '' state requires direction and setup''),
     (setup_is (\<lambda>se. ss_direction s \<noteq> Some (se_direction se)) s, ''state direction must match setup direction''),
     (setup_is (\<lambda>se. se_invalidation_state se \<noteq> ACTIVE) s, state_value (ss_state s) @ '' state requires an active setup''),
     (ss_entry_timestamp s \<noteq> None \<or> ss_cooldown_until s \<noteq> None,
        state_value (ss_state s) @ '' state cannot carry entry or cooldown data'')]"

definition entered_checks :: "state_snapshot \<Rightarrow> (bool \<times> string) list" where
  "entered_checks s =
    [(ss_setup s = None \<or> ss_direction s = None \<or> ss_entry_timestamp s = None,
        ''ENTERED state requires direction, setup, and entry_timestamp''),
     (setup_is (\<lambda>se. ss_direction s \<noteq> Some (se_direction se)) s, ''state direction must match setup direction''),
     (ss_cooldown_until s \<noteq> None, ''ENTERED state cannot carry cooldown data''),
     (setup_is (\<lambda>se. case ss_entry_timestamp s of None \<Rightarrow> False | Some t \<Rightarrow> t < se_setup_timestamp se) s,
        ''entry_timestamp cannot precede setup_timestamp''),
     (setup_is (\<lambda>se. case ss_entry_timestamp s of None \<Rightarrow> False | Some t \<Rightarrow> se_setup_expiry_timestamp se < t) s,
        ''entry_timestamp cannot exceed setup expiry''),
     (setup_is (\<lambda>se. se_invalidation_state se \<in> {INVALIDATED, EXPIRED_SETUP}) s,
        ''ENTERED state cannot use invalidated or expired setup'')]"

definition snapshot_checks :: "state_snapshot \<Rightarrow> (bool \<times> string) list" where
  "snapshot_checks s =
     (case ss_state s of
        FLAT \<Rightarrow> [(ss_direction s \<noteq> None \<or> ss_setup s \<noteq> None \<or> ss_entry_timestamp s \<noteq> None \<or> ss_cooldown_until s \<noteq> None,
                  ''FLAT state cannot carry setup, direction, entry, or cooldown data'')]
      | SETUP \<Rightarrow> pending_checks s
      | ARMED \<Rightarrow> pending_checks s
      | ENTERED \<Rightarrow> entered_checks s
      | COOLDOWN \<Rightarrow> [(ss_direction s \<noteq> None \<or> ss_setup s \<noteq> None \<or> ss_entry_timestamp s \<noteq> None,
                      ''COOLDOWN state cannot carry direction, setup, or entry data''),
                     (ss_cooldown_until s = None, ''COOLDOWN state requires cooldown_until'')])"

definition make_snapshot :: "state_snapshot \<Rightarrow> exn + state_snapshot" where
  "make_snapshot s = (case first_violation (snapshot_checks s) of None \<Rightarrow> Inr s | Some m \<Rightarrow> Inl (ValueError m))"

fun allowed_targets :: "strategy_state \<Rightarrow> strategy_state list" where
  "allowed_targets FLAT = [SETUP, COOLDOWN]"
| "allowed_targets SETUP = [ARMED, FLAT, COOLDOWN]"
| "allowed_targets ARMED = [ENTERED, FLAT, COOLDOWN]"
| "allowed_targets ENTERED = [FLAT, COOLDOWN]"
| "allowed_targets COOLDOWN = [FLAT]"

definition consumed :: "strategy_setup \<Rightarrow> strategy_setup" where
  "consumed se = se\<lparr>se_invalidation_state := CONSUMED, se_invalidation_reason := Some ''ENTRY_CONSUMED''\<rparr>"

definition transition ::
  "strategy_state \<Rightarrow> strategy_setup option \<Rightarrow> timestamp option \<Rightarrow> timestamp option \<Rightarrow> state_snapshot \<Rightarrow> exn + state_snapshot" where
  "transition target setup entry_timestamp cooldown_until s =
     (if target \<notin> set (allowed_targets (ss_state s))
      then Inl (ValueError (''invalid strategy state transition: '' @ state_value (ss_state s) @ '' -> '' @ state_value target))
      else if target = FLAT then make_snapshot flat_snapshot
      else if target = COOLDOWN then make_snapshot (flat_snapshot\<lparr>ss_state := COOLDOWN, ss_cooldown_until := cooldown_until\<rparr>)
      else
        (let next_setup = (case setup of Some se \<Rightarrow> Some se | None \<Rightarrow> ss_setup s);
             next_direction = (case next_setup of Some se \<Rightarrow> Some (se_direction se) | None \<Rightarrow> ss_direction s);
             build = (\<lambda>su. make_snapshot \<lparr>ss_state = target, ss_direction = next_direction, ss_setup = su,
               ss_entry_timestamp = (if target = ENTERED then entry_timestamp else None), ss_cooldown_until = None\<rparr>)
         in if target = ENTERED then
              (case next_setup of
                 None \<Rightarrow> Inl (ValueError ''ENTERED transition requires a setup'')
               | Some se \<Rightarrow> (case make_setup (consumed se) of Inl e \<Rightarrow> Inl e | Inr se' \<Rightarrow> build (Some se')))
            else build next_setup))"

section \<open>Runs\<close>

text \<open>
  The snapshots visited, newest first.  A setup handed in by the caller is an instance of
  \<^verbatim>\<open>StrategySetup\<close>, so its construction succeeded.
\<close>

inductive visited :: "state_snapshot list \<Rightarrow> bool" where
  start: "visited [flat_snapshot]"
| step: "visited (s # ss) \<Longrightarrow> pred_option (\<lambda>se. make_setup se = Inr se) setup \<Longrightarrow>
     transition target setup entry cooldown s = Inr s' \<Longrightarrow> visited (s' # s # ss)"

inductive_cases visited_consE: "visited (s # ss)"

lemma first_violation_None: "first_violation cs = None \<longleftrightarrow> (\<forall>c \<in> set cs. \<not> fst c)"
  by (induction cs rule: first_violation.induct) auto

lemma make_snapshot_Inr: "make_snapshot s = Inr s' \<longleftrightarrow> s' = s \<and> first_violation (snapshot_checks s) = None"
  by (auto simp: make_snapshot_def split: option.splits)

lemma make_setup_Inr: "make_setup s = Inr s' \<longleftrightarrow> s' = s \<and> first_violation (setup_checks s) = None"
  by (auto simp: make_setup_def split: option.splits)

lemma transition_state:
  "transition target setup entry cooldown s = Inr s' \<Longrightarrow> ss_state s' = target \<and> target \<in> set (allowed_targets (ss_state s))"
  by (auto simp: transition_def Let_def make_snapshot_Inr flat_snapshot_def split: if_splits option.splits sum.splits)

text \<open>What a validated setup says of its prices.\<close>

definition protective :: "strategy_setup \<Rightarrow> bool" where
  "protective se \<longleftrightarrow> (if se_direction se = CALL_SIDE then flt (se_structural_stop se) (se_trigger_price se)
      else flt (se_trigger_price se) (se_structural_stop se))
     \<and> flt (se_confirmation_low se) (se_confirmation_high se) \<and> se_setup_timestamp se \<le> se_setup_expiry_timestamp se
     \<and> isclose (se_initial_underlying_r se) (fabs (fsub (se_trigger_price se) (se_structural_stop se)))"

lemma setup_protective:
  assumes "make_setup se = Inr se"
  shows "protective se"
proof -
  have v: "\<forall>c \<in> set (setup_checks se). \<not> fst c" using assms by (simp add: make_setup_Inr first_violation_None)
  have f: "setup_fields_ok se" using v by (auto simp: setup_checks_def)
  then have "se_trigger_price se \<noteq> NaN" "se_structural_stop se \<noteq> NaN" "se_confirmation_high se \<noteq> NaN"
    "se_confirmation_low se \<noteq> NaN" by (auto simp: setup_fields_ok_def positive_def)
  then show ?thesis using v
    by (cases "se_direction se") (simp_all add: setup_checks_def protective_def not_fle_iff)
qed

definition setup_valid :: "state_snapshot \<Rightarrow> bool" where
  "setup_valid s \<longleftrightarrow> pred_option (\<lambda>se. make_setup se = Inr se) (ss_setup s)"

definition snapshot_ok :: "state_snapshot \<Rightarrow> bool" where
  "snapshot_ok s \<longleftrightarrow> first_violation (snapshot_checks s) = None \<and> setup_valid s
     \<and> (ss_state s = ENTERED \<longrightarrow> setup_is (\<lambda>se. se_invalidation_state se = CONSUMED) s)"

lemma transition_ok:
  assumes "snapshot_ok s" "pred_option (\<lambda>se. make_setup se = Inr se) setup" "transition target setup entry cooldown s = Inr s'"
  shows "snapshot_ok s'"
  using assms
  by (auto simp: transition_def snapshot_ok_def setup_valid_def Let_def make_snapshot_Inr flat_snapshot_def
      setup_is_def make_setup_Inr consumed_def split: if_splits option.splits sum.splits)

lemma visited_ok: "visited ss \<Longrightarrow> list_all snapshot_ok ss"
proof (induction rule: visited.induct)
  case start
  then show ?case by (simp add: snapshot_ok_def setup_valid_def snapshot_checks_def flat_snapshot_def)
next
  case (step s ss su target en cd s')
  then show ?case using transition_ok[OF _ step(2,3)] by simp
qed

lemma visited_before:
  assumes "visited (s # ss)" "ss_state s = target" "target \<in> {SETUP, ARMED, ENTERED}"
  shows "\<exists>a r. ss = a # r \<and> visited (a # r) \<and> target \<in> set (allowed_targets (ss_state a))"
proof (cases rule: visited_consE[OF assms(1)])
  case 1
  then show ?thesis using assms by (simp add: flat_snapshot_def)
next
  case (2 a r su t en cd)
  then show ?thesis using transition_state[OF 2(4)] assms(2) by simp
qed

section \<open>Properties\<close>

text \<open>
  C34. In every run of the setup lifecycle a snapshot in ENTERED was reached through SETUP and then
  ARMED; it carries a consumed setup whose direction it has, the entry lies between the setup's
  timestamp and its expiry, and the setup's structural stop is on the protective side of its trigger.
\<close>

theorem strategy_entry_sound:
  assumes "visited (s # ss)" "ss_state s = ENTERED"
  shows "\<exists>armed pending rest se t. ss = armed # pending # rest \<and> ss_state armed = ARMED \<and> ss_state pending = SETUP
    \<and> ss_setup s = Some se \<and> ss_direction s = Some (se_direction se) \<and> ss_entry_timestamp s = Some t
    \<and> se_setup_timestamp se \<le> t \<and> t \<le> se_setup_expiry_timestamp se
    \<and> se_invalidation_state se = CONSUMED \<and> protective se"
proof -
  have al: "ENTERED \<in> set (allowed_targets st) \<longleftrightarrow> st = ARMED" "ARMED \<in> set (allowed_targets st) \<longleftrightarrow> st = SETUP" for st
    by (cases st; simp)+
  obtain armed r where a: "ss = armed # r" "visited (armed # r)" "ss_state armed = ARMED"
    using visited_before[OF assms] al by auto
  obtain pending rest where b: "r = pending # rest" "ss_state pending = SETUP"
    using visited_before[OF a(2,3)] al by auto
  have ok: "snapshot_ok s" using visited_ok[OF assms(1)] by simp
  then have v: "\<forall>c \<in> set (entered_checks s). \<not> fst c"
    using assms(2) by (simp add: snapshot_ok_def snapshot_checks_def first_violation_None)
  obtain se t where se: "ss_setup s = Some se" "ss_direction s = Some (se_direction se)" "ss_entry_timestamp s = Some t"
      "\<not> t < se_setup_timestamp se" "\<not> se_setup_expiry_timestamp se < t" "se_invalidation_state se = CONSUMED"
    using v ok assms(2) by (auto simp: snapshot_ok_def entered_checks_def setup_is_def split: option.splits)
  have "make_setup se = Inr se" using ok se(1) by (simp add: snapshot_ok_def setup_valid_def)
  from setup_protective[OF this] show ?thesis using a b se by auto
qed

definition demo_setup :: strategy_setup where
  "demo_setup = \<lparr>se_direction = CALL_SIDE, se_setup_timestamp = 10, se_confirmation_bar_timestamp = 5,
     se_confirmation_high = Fin 101, se_confirmation_low = Fin 95, se_trigger_price = Fin 100,
     se_structural_stop = Fin 90, se_initial_underlying_r = Fin 10, se_relevant_level = Fin 95,
     se_confluence_references = [''EMA20''], se_setup_expiry_timestamp = 100, se_setup_expiry_bar_index = 2,
     se_invalidation_state = ACTIVE, se_invalidation_reason = None\<rparr>"

lemma demo_setup_valid: "make_setup demo_setup = Inr demo_setup" "make_setup (consumed demo_setup) = Inr (consumed demo_setup)"
proof -
  have "strip ''EMA20'' \<noteq> []" by code_simp
  moreover have "isclose (Fin 10) (fabs (fsub (Fin 100) (Fin 90)))" by (simp add: isclose_def feq_def float_eval)
  ultimately show "make_setup demo_setup = Inr demo_setup" "make_setup (consumed demo_setup) = Inr (consumed demo_setup)"
    by (simp_all add: make_setup_def setup_checks_def setup_fields_ok_def positive_def demo_setup_def consumed_def no_text_def)
qed

definition demo_pending :: "strategy_state \<Rightarrow> state_snapshot" where
  "demo_pending st = \<lparr>ss_state = st, ss_direction = Some CALL_SIDE, ss_setup = Some demo_setup,
     ss_entry_timestamp = None, ss_cooldown_until = None\<rparr>"

definition demo_entered :: state_snapshot where
  "demo_entered = \<lparr>ss_state = ENTERED, ss_direction = Some CALL_SIDE, ss_setup = Some (consumed demo_setup),
     ss_entry_timestamp = Some 50, ss_cooldown_until = None\<rparr>"

lemma demo_visited: "visited [demo_entered, demo_pending ARMED, demo_pending SETUP, flat_snapshot]"
proof -
  have d: "se_direction demo_setup = CALL_SIDE" "se_invalidation_state demo_setup = ACTIVE"
    "se_setup_timestamp demo_setup = 10" "se_setup_expiry_timestamp demo_setup = 100" by (simp_all add: demo_setup_def)
  note t = transition_def make_snapshot_def snapshot_checks_def pending_checks_def entered_checks_def setup_is_def
    demo_setup_valid d Let_def demo_pending_def demo_entered_def
  have t1: "transition SETUP (Some demo_setup) None None flat_snapshot = Inr (demo_pending SETUP)"
    by (simp add: t flat_snapshot_def)
  have t2: "transition ARMED None None None (demo_pending SETUP) = Inr (demo_pending ARMED)" by (simp add: t)
  have t3: "transition ENTERED None (Some 50) None (demo_pending ARMED) = Inr demo_entered"
    by (simp add: t) (simp add: consumed_def d)
  show ?thesis
    by (rule visited.step[OF visited.step[OF visited.step[OF visited.start _ t1] _ t2] _ t3])
      (simp_all add: demo_setup_valid)
qed

theorem strategy_entry_sound_witness:
  "protective (consumed demo_setup) \<and> se_setup_timestamp demo_setup \<le> 50 \<and> 50 \<le> se_setup_expiry_timestamp demo_setup"
  using strategy_entry_sound[OF demo_visited] by (simp add: demo_entered_def consumed_def)

text \<open>The legacy aliases and the values of the enumeration parse to states; the values round-trip.\<close>

lemma parse_state_value: "parse_state (state_value st) = Inr st"
  by (cases st) (simp_all add: parse_state_def)

end
