(* ===== verification/StrategyModels.thy ===== *)
theory StrategyModels imports StrategyState begin

text \<open>
  The data of the strategy services, \<^verbatim>\<open>services/strategy/models.py\<close>: the configuration records
  with the fields the modelled code reads, the feature vector and the tracked trade.  Pydantic does
  not validate assignments to a field of a trade, so a field keeps whatever the code assigns.
\<close>

datatype strategy_name =
  TREND_PULLBACK | VOLATILITY_BREAKOUT | DI_CONTINUATION | SR_MOMENTUM_BREAKOUT | PIVOT_VWAP_SCALP

datatype trade_state =
  ENTRY_PENDING | EXIT_PENDING | OPEN_INITIAL_RISK | PROTECTED_BREAKEVEN | PROFIT_LOCKED | RUNNER_MODE | CLOSED

text \<open>A time of day is the pair \<^verbatim>\<open>map(int, "HH:MM".split(":"))\<close>.\<close>

type_synonym time_of_day = "int \<times> int"

record risk_limits =
  rk_max_lots_per_trade :: int
  rk_breakeven_buffer_points :: pyfloat
  rk_max_trade_capital :: pyfloat
  rk_risk_per_trade_pct :: pyfloat
  rk_option_hard_stop_pct :: pyfloat
  rk_account_equity :: pyfloat
  rk_entry_order_timeout_sec :: int
  rk_max_trades_per_strategy_per_day :: int
  rk_max_daily_loss_r :: pyfloat
  rk_max_daily_loss_pct :: pyfloat
  rk_max_failed_trades_per_strategy :: int
  rk_max_trades_per_day :: int
  rk_max_concurrent_positions :: int
  rk_cooldown_after_loss_min :: int
  rk_protective_stop_limit_buffer_pct :: pyfloat
  rk_protective_stop_max_failures :: int
  rk_protective_stop_cancel_timeout_sec :: pyfloat
  rk_protective_stop_cancel_max_attempts :: int
  rk_paper_slippage_points :: pyfloat
  rk_paper_brokerage_per_order :: pyfloat
  rk_paper_exchange_charge_rate :: pyfloat
  rk_paper_stt_sell_rate :: pyfloat
  rk_paper_gst_rate :: pyfloat
  rk_paper_sebi_charge_rate :: pyfloat
  rk_paper_stamp_buy_rate :: pyfloat

definition default_risk_limits :: risk_limits where
  "default_risk_limits = \<lparr>rk_max_lots_per_trade = 100, rk_breakeven_buffer_points = Fin 2,
     rk_max_trade_capital = Fin 50000, rk_risk_per_trade_pct = Fin (1 / 2),
     rk_option_hard_stop_pct = Fin 25, rk_account_equity = Fin 500000, rk_entry_order_timeout_sec = 10,
     rk_max_trades_per_strategy_per_day = 5, rk_max_daily_loss_r = Fin 2, rk_max_daily_loss_pct = Fin (3 / 2),
     rk_max_failed_trades_per_strategy = 2, rk_max_trades_per_day = 5, rk_max_concurrent_positions = 1,
     rk_cooldown_after_loss_min = 10, rk_protective_stop_limit_buffer_pct = Fin 10,
     rk_protective_stop_max_failures = 2, rk_protective_stop_cancel_timeout_sec = Fin 5,
     rk_protective_stop_cancel_max_attempts = 3, rk_paper_slippage_points = Fin 0,
     rk_paper_brokerage_per_order = Fin 20, rk_paper_exchange_charge_rate = flit (3503 / 10000000),
     rk_paper_stt_sell_rate = flit (1 / 1000), rk_paper_gst_rate = flit (18 / 100),
     rk_paper_sebi_charge_rate = flit (1 / 1000000), rk_paper_stamp_buy_rate = flit (3 / 100000)\<rparr>"

record session_timers =
  st_no_new_trade_before :: time_of_day
  st_no_new_trade_after :: time_of_day
  st_force_exit_time :: time_of_day

definition default_session :: session_timers where
  "default_session = \<lparr>st_no_new_trade_before = (9, 20), st_no_new_trade_after = (14, 45), st_force_exit_time = (15, 20)\<rparr>"

record tunables =
  tn_t1_r :: pyfloat
  tn_runner_target_reference_r :: pyfloat
  tn_trailing_activation_r :: pyfloat
  tn_entry_session_start :: time_of_day
  tn_entry_session_end :: time_of_day
  tn_forced_exit_time :: time_of_day

definition default_tunables :: tunables where
  "default_tunables = \<lparr>tn_t1_r = Fin (3 / 2), tn_runner_target_reference_r = Fin (5 / 2),
     tn_trailing_activation_r = Fin 1, tn_entry_session_start = (9, 45), tn_entry_session_end = (14, 45),
     tn_forced_exit_time = (15, 15)\<rparr>"

record market_features =
  mf_breakout_bull_derivatives_score :: pyfloat
  mf_breakout_bear_derivatives_score :: pyfloat
  mf_timestamp :: timestamp
  mf_spot_price :: pyfloat
  mf_closed_5m_price :: "pyfloat option"
  mf_closed_5m_time :: "timestamp option"
  mf_plus_di_5m :: pyfloat
  mf_minus_di_5m :: pyfloat
  mf_swing_low_5m :: "pyfloat option"
  mf_swing_high_5m :: "pyfloat option"
  mf_ema9_5m :: pyfloat
  mf_ema20_5m :: pyfloat
  mf_rsi_5m :: pyfloat
  mf_atr_5m :: pyfloat
  mf_supertrend_direction :: string
  mf_futures_price :: pyfloat
  mf_futures_vwap :: pyfloat
  mf_futures_buildup :: string
  mf_bull_derivatives_score :: pyfloat
  mf_bear_derivatives_score :: pyfloat

record active_trade =
  tr_strategy :: strategy_name
  tr_direction :: trade_direction
  tr_quantity :: int
  tr_lot_size :: int
  tr_lots :: int
  tr_entry_time :: timestamp
  tr_entry_option_price :: pyfloat
  tr_entry_spot_price :: pyfloat
  tr_initial_structural_stop :: pyfloat
  tr_initial_r_points :: pyfloat
  tr_pullback_swing_low :: "pyfloat option"
  tr_pullback_swing_high :: "pyfloat option"
  tr_box_high :: "pyfloat option"
  tr_box_low :: "pyfloat option"
  tr_atr_at_lock :: "pyfloat option"
  tr_inside_box_closes :: int
  tr_highest_close :: "pyfloat option"
  tr_lowest_close :: "pyfloat option"
  tr_last_managed_bar :: "timestamp option"
  tr_current_option_price :: "pyfloat option"
  tr_current_spot_price :: pyfloat
  tr_trailing_stop :: pyfloat
  tr_hard_stop :: pyfloat
  tr_current_r :: pyfloat
  tr_peak_r :: pyfloat
  tr_mfe_points :: pyfloat
  tr_mae_points :: pyfloat
  tr_reversal_score :: nat
  tr_state :: trade_state
  tr_unrealized_pnl :: pyfloat
  tr_underlying_entry_price :: "pyfloat option"
  tr_underlying_current_price :: "pyfloat option"
  tr_underlying_r :: "pyfloat option"
  tr_initial_quantity :: "int option"
  tr_remaining_quantity :: "int option"
  tr_t1_reached :: bool
  tr_t1_exit_quantity :: int
  tr_t1_exit_pending :: bool
  tr_t1_decision_price :: "pyfloat option"
  tr_t1_decision_r :: "pyfloat option"
  tr_t1_realized_r :: "pyfloat option"
  tr_partial_filled :: int
  tr_partial_price :: "pyfloat option"
  tr_partial_raw_bid :: "pyfloat option"
  tr_partial_slippage :: "pyfloat option"
  tr_partial_time :: "timestamp option"
  tr_partial_reason :: "string option"

section \<open>Indian market time\<close>

text \<open>
  \<^verbatim>\<open>astimezone(IST)\<close>: Asia/Kolkata is five and a half hours ahead of UTC at every instant the
  program sees.  The wall clock minute of the day, and the calendar day as days since the epoch.
\<close>

definition ist_micros :: "timestamp \<Rightarrow> int" where "ist_micros t = t + seconds 19800"

definition ist_minute_of_day :: "timestamp \<Rightarrow> int" where
  "ist_minute_of_day t = (ist_micros t div 60000000) mod 1440"

definition ist_date :: "timestamp \<Rightarrow> int" where "ist_date t = ist_micros t div seconds 86400"

definition minutes_of :: "time_of_day \<Rightarrow> int" where "minutes_of hm = fst hm * 60 + snd hm"

text \<open>\<^verbatim>\<open>now.hour > h or (now.hour == h and now.minute >= m)\<close>\<close>

definition reached_time :: "timestamp \<Rightarrow> time_of_day \<Rightarrow> bool" where
  "reached_time t hm =
     (let hour = ist_minute_of_day t div 60; minute = ist_minute_of_day t mod 60
      in hour > fst hm \<or> hour = fst hm \<and> minute \<ge> snd hm)"

definition in_window :: "timestamp \<Rightarrow> time_of_day \<Rightarrow> time_of_day \<Rightarrow> bool" where
  "in_window t since until \<longleftrightarrow> minutes_of since \<le> ist_minute_of_day t \<and> ist_minute_of_day t \<le> minutes_of until"

lemma ist_minute_range: "0 \<le> ist_minute_of_day t \<and> ist_minute_of_day t < 1440"
  by (simp add: ist_minute_of_day_def)

lemma clock_compare:
  fixes m h k :: int
  assumes "0 \<le> k" "k < 60"
  shows "(m div 60 > h \<or> m div 60 = h \<and> m mod 60 \<ge> k) = (h * 60 + k \<le> m)"
proof -
  have "m = m div 60 * 60 + m mod 60" by simp
  moreover have "0 \<le> m mod 60" "m mod 60 < 60" by simp_all
  ultimately show ?thesis using assms by linarith
qed

lemma reached_time_iff: "0 \<le> snd hm \<Longrightarrow> snd hm < 60 \<Longrightarrow> reached_time t hm \<longleftrightarrow> minutes_of hm \<le> ist_minute_of_day t"
  unfolding reached_time_def minutes_of_def Let_def by (rule clock_compare)

end
