(* ===== verification/PositionManager.thy ===== *)
theory PositionManager imports StrategyModels begin

text \<open>
  Sizing, trailing stops, the reversal score and the exits of one position,
  \<^verbatim>\<open>services/strategy/position_manager.py\<close>.  An update returns the trade with its fields assigned
  so far and a verdict: \<open>Hold\<close> for \<^verbatim>\<open>None\<close>, \<open>Signal\<close> for a reason string, \<open>Raised\<close> for an exception.
\<close>

datatype verdict = Hold | Signal message | Raised exn

text \<open>A quotient whose divisor the code has tested to be positive; NaN for a divisor 0, which does not occur.\<close>

definition quot :: "pyfloat \<Rightarrow> pyfloat \<Rightarrow> pyfloat" where
  "quot a b = (case fdiv a b of None \<Rightarrow> NaN | Some q \<Rightarrow> q)"

definition not_positive :: "pyfloat \<Rightarrow> bool" where "not_positive x = fle x (Fin 0)"

section \<open>R multiples\<close>

definition underlying_r_for_price :: "trade_direction \<Rightarrow> pyfloat \<Rightarrow> pyfloat \<Rightarrow> pyfloat \<Rightarrow> pyfloat" where
  "underlying_r_for_price direction entry_price risk_points exit_price =
     (if not_positive entry_price \<or> not_positive risk_points \<or> not_positive exit_price then Fin 0
      else fround 6 (quot (if direction = BULLISH then fsub exit_price entry_price else fsub entry_price exit_price) risk_points))"

definition calculate_realized_trade_r ::
  "trade_direction \<Rightarrow> pyfloat \<Rightarrow> pyfloat \<Rightarrow> int \<Rightarrow> (int \<times> pyfloat) list \<Rightarrow> pyfloat" where
  "calculate_realized_trade_r direction entry_price risk_points original_quantity exits =
     (if original_quantity \<le> 0 then Fin 0
      else fround 4 (quot (py_sum (map (\<lambda>(quantity, price).
          fmul (fint quantity) (underlying_r_for_price direction entry_price risk_points price))
          (filter (\<lambda>(quantity, price). quantity > 0) exits))) (fint original_quantity)))"

section \<open>Sizing\<close>

record risk_estimate =
  re_underlying_r :: pyfloat
  re_option_loss_per_lot :: pyfloat
  re_risk_budget :: pyfloat
  re_lots :: int
  re_quantity :: int
  re_method :: string
  re_rejection_reason :: "string option"

definition estimate_option_loss_per_lot ::
  "pyfloat \<Rightarrow> pyfloat \<Rightarrow> pyfloat option \<Rightarrow> int \<Rightarrow> pyfloat \<Rightarrow> pyfloat \<Rightarrow> pyfloat option \<Rightarrow> exn + (pyfloat \<times> string)" where
  "estimate_option_loss_per_lot underlying_entry underlying_stop option_delta lot_size option_entry multiplier fallback =
     (let r = fabs (fsub underlying_entry underlying_stop) in
      if not_positive r \<or> lot_size \<le> 0 \<or> not_positive option_entry
      then Inl (ValueError ''invalid structural-risk sizing inputs'')
      else case option_delta of
        Some d \<Rightarrow>
          if flt (Fin 0) (fabs d) \<and> fle (fabs d) (Fin 1)
          then Inr (fmul (fmul (fmul (fabs d) r) (fint lot_size)) multiplier, ''DELTA_APPROXIMATION'')
          else (case fallback of
             Some f \<Rightarrow> if flt (Fin 0) f then Inr (f, ''CONFIGURED_FALLBACK'') else Inl (ValueError ''OPTION_RISK_UNAVAILABLE'')
           | None \<Rightarrow> Inl (ValueError ''OPTION_RISK_UNAVAILABLE''))
      | None \<Rightarrow> (case fallback of
             Some f \<Rightarrow> if flt (Fin 0) f then Inr (f, ''CONFIGURED_FALLBACK'') else Inl (ValueError ''OPTION_RISK_UNAVAILABLE'')
           | None \<Rightarrow> Inl (ValueError ''OPTION_RISK_UNAVAILABLE'')))"

text \<open>\<^verbatim>\<open>math.floor(a / b)\<close>\<close>

definition floor_quot :: "pyfloat \<Rightarrow> pyfloat \<Rightarrow> exn + int" where
  "floor_quot a b =
     (case fdiv a b of
        None \<Rightarrow> Inl ZeroDivisionError
      | Some q \<Rightarrow> (case ffloor q of Some n \<Rightarrow> Inr n
          | None \<Rightarrow> Inl (if q = NaN then ValueError ''cannot convert float NaN to integer'' else OverflowError)))"

definition size_trade ::
  "risk_limits \<Rightarrow> pyfloat \<Rightarrow> pyfloat \<Rightarrow> pyfloat option \<Rightarrow> int \<Rightarrow> pyfloat \<Rightarrow> pyfloat option \<Rightarrow> pyfloat option \<Rightarrow> exn + risk_estimate" where
  "size_trade cfg underlying_entry underlying_stop option_delta lot_size option_entry account_equity fallback =
     (let equity = opt_or account_equity (rk_account_equity cfg);
          budget = quot (fmul equity (rk_risk_per_trade_pct cfg)) (Fin 100);
          r = fabs (fsub underlying_entry underlying_stop) in
      case estimate_option_loss_per_lot underlying_entry underlying_stop option_delta lot_size option_entry (Fin 1) fallback of
        Inl e \<Rightarrow> Inl e
      | Inr (loss, meth) \<Rightarrow>
          (case floor_quot (rk_max_trade_capital cfg) (fmul option_entry (fint lot_size)) of
             Inl e \<Rightarrow> Inl e
           | Inr capital_lots \<Rightarrow>
               (case (if flt (Fin 0) loss then floor_quot budget loss else Inr 0) of
                  Inl e \<Rightarrow> Inl e
                | Inr risk_lots \<Rightarrow>
                    (let lots = min (min capital_lots risk_lots) (rk_max_lots_per_trade cfg) in
                     Inr (if lots < 1
                       then \<lparr>re_underlying_r = r, re_option_loss_per_lot = loss, re_risk_budget = budget, re_lots = 0,
                          re_quantity = 0, re_method = meth,
                          re_rejection_reason = Some ''INSUFFICIENT_CAPITAL_OR_RISK_BUDGET''\<rparr>
                       else \<lparr>re_underlying_r = r, re_option_loss_per_lot = loss, re_risk_budget = budget, re_lots = lots,
                          re_quantity = lots * lot_size, re_method = meth, re_rejection_reason = None\<rparr>)))))"

definition calculate_position_size :: "risk_limits \<Rightarrow> pyfloat \<Rightarrow> pyfloat \<Rightarrow> int \<Rightarrow> exn + (int \<times> int)" where
  "calculate_position_size cfg entry_premium account_equity lot_size =
     (let capital_per_lot = fmul entry_premium (fint lot_size) in
      if not_positive capital_per_lot then Inr (0, 0) else
      case floor_quot (rk_max_trade_capital cfg) capital_per_lot of
        Inl e \<Rightarrow> Inl e
      | Inr capital_lots \<Rightarrow>
          (let risk_budget = fmul account_equity (quot (rk_risk_per_trade_pct cfg) (Fin 100));
               hard_stop = quot (rk_option_hard_stop_pct cfg) (Fin 100);
               premium_risk = fmul (fmul entry_premium hard_stop) (fint lot_size) in
           case (if flt (Fin 0) premium_risk then floor_quot risk_budget premium_risk else Inr capital_lots) of
             Inl e \<Rightarrow> Inl e
           | Inr risk_lots \<Rightarrow>
               (let lots = min (min capital_lots risk_lots) (rk_max_lots_per_trade cfg)
                in Inr (if lots < 1 then (0, 0) else (lots, lots * lot_size)))))"

section \<open>Strategy A\<close>

record manager =
  pm_risk :: risk_limits
  pm_session :: session_timers
  pm_bull_threshold :: pyfloat
  pm_bear_threshold :: pyfloat
  pm_tunables :: tunables

definition default_manager :: manager where
  "default_manager = \<lparr>pm_risk = default_risk_limits, pm_session = default_session,
     pm_bull_threshold = Fin 2, pm_bear_threshold = Fin 2, pm_tunables = default_tunables\<rparr>"

text \<open>\<^verbatim>\<open>max\<close> for a bullish thesis, \<^verbatim>\<open>min\<close> for a bearish one, and the level \<open>d\<close> points towards it from \<open>p\<close>.\<close>

definition tighter :: "trade_direction \<Rightarrow> pyfloat \<Rightarrow> pyfloat \<Rightarrow> pyfloat" where
  "tighter dir a b = (if dir = BULLISH then pmax a b else pmin a b)"

definition favour :: "trade_direction \<Rightarrow> pyfloat \<Rightarrow> pyfloat \<Rightarrow> pyfloat" where
  "favour dir p d = (if dir = BULLISH then fadd p d else fsub p d)"

definition points_of :: "trade_direction \<Rightarrow> pyfloat \<Rightarrow> pyfloat \<Rightarrow> pyfloat" where
  "points_of dir entry price = (if dir = BULLISH then fsub price entry else fsub entry price)"

definition int_or :: "int option \<Rightarrow> int \<Rightarrow> int" where
  "int_or x y = (case x of None \<Rightarrow> y | Some n \<Rightarrow> if n = 0 then y else n)"

text \<open>The marks: prices, R, peaks.\<close>

definition mark_strategy_a :: "pyfloat \<Rightarrow> pyfloat \<Rightarrow> pyfloat \<Rightarrow> pyfloat \<Rightarrow> active_trade \<Rightarrow> active_trade" where
  "mark_strategy_a entry initial_r price option_price t =
     (let points = points_of (tr_direction t) entry price; r = fround 4 (quot points initial_r) in
      t\<lparr>tr_underlying_entry_price := Some entry, tr_underlying_current_price := Some price, tr_current_spot_price := price,
        tr_current_option_price := (if flt (Fin 0) option_price then Some option_price else tr_current_option_price t),
        tr_current_r := r, tr_peak_r := pmax (tr_peak_r t) r,
        tr_mfe_points := pmax (tr_mfe_points t) points, tr_mae_points := pmin (tr_mae_points t) points,
        tr_unrealized_pnl := (if flt (Fin 0) option_price
          then fround 2 (fmul (fsub option_price (tr_entry_option_price t)) (fint (tr_quantity t)))
          else tr_unrealized_pnl t)\<rparr>)"

text \<open>The protective stop: the structural stop until the activation, breakeven plus the buffer after it.\<close>

definition protect_strategy_a :: "manager \<Rightarrow> pyfloat \<Rightarrow> active_trade \<Rightarrow> active_trade" where
  "protect_strategy_a m entry t =
     (let stop = (if not_positive (tr_trailing_stop t) then tr_initial_structural_stop t else tr_trailing_stop t) in
      if fle (tn_trailing_activation_r (pm_tunables m)) (tr_peak_r t)
      then t\<lparr>tr_state := PROTECTED_BREAKEVEN,
             tr_trailing_stop := fround 2 (tighter (tr_direction t) stop
               (favour (tr_direction t) entry (rk_breakeven_buffer_points (pm_risk m))))\<rparr>
      else t\<lparr>tr_trailing_stop := stop\<rparr>)"

definition stop_hit :: "trade_direction \<Rightarrow> pyfloat \<Rightarrow> pyfloat \<Rightarrow> bool" where
  "stop_hit dir price stop = (if dir = BULLISH then fle price stop else fle stop price)"

text \<open>The first target: lock half an R and ask for the exit of half the lots.\<close>

definition take_t1 :: "pyfloat \<Rightarrow> pyfloat \<Rightarrow> pyfloat \<Rightarrow> active_trade \<Rightarrow> active_trade \<times> verdict" where
  "take_t1 entry initial_r price t =
     (let t1 = t\<lparr>tr_t1_reached := True, tr_state := PROFIT_LOCKED,
             tr_trailing_stop := fround 2 (tighter (tr_direction t) (tr_trailing_stop t)
               (favour (tr_direction t) entry (fmul (Fin (1 / 2)) initial_r)))\<rparr>;
          original = int_or (tr_initial_quantity t) (tr_quantity t) in
      if tr_lot_size t = 0 then (t1, Raised ZeroDivisionError) else
      (let partial_lots = max 1 (original div tr_lot_size t) div 2 in
       if partial_lots < 1
       then (t1\<lparr>tr_remaining_quantity := Some original, tr_partial_reason := Some ''T1_REACHED_NO_PARTIAL_ONE_LOT''\<rparr>,
             Signal [Txt ''T1_REACHED_NO_PARTIAL_ONE_LOT''])
       else (t1\<lparr>tr_t1_exit_quantity := partial_lots * tr_lot_size t,
               tr_remaining_quantity := Some (original - tr_partial_filled t), tr_t1_exit_pending := True,
               tr_t1_decision_price := Some price, tr_t1_decision_r := Some (tr_current_r t),
               tr_partial_reason := Some ''T1_PARTIAL_EXIT''\<rparr>,
             Signal [Txt ''T1_PARTIAL_EXIT''])))"

definition update_strategy_a_position ::
  "manager \<Rightarrow> pyfloat \<Rightarrow> pyfloat option \<Rightarrow> timestamp option \<Rightarrow> active_trade \<Rightarrow> active_trade \<times> verdict" where
  "update_strategy_a_position m price current_option_price as_of t =
     (let entry = opt_or (tr_underlying_entry_price t) (tr_entry_spot_price t);
          initial_r = opt_or (tr_underlying_r t) (tr_initial_r_points t);
          option_price = opt_or current_option_price (Fin 0);
          tn = pm_tunables m in
      if not_positive price \<or> not_positive entry \<or> not_positive initial_r
      then (t, Signal [Txt ''INVALID_INITIAL_UNDERLYING_R'']) else
      let t1 = mark_strategy_a entry initial_r price option_price t in
      if (case as_of of None \<Rightarrow> False | Some now \<Rightarrow> reached_time now (tn_forced_exit_time tn))
      then (t1, Signal [Txt ''SESSION_FORCE_SQUARE_OFF_1515'']) else
      if flt (Fin 0) option_price \<and> fle option_price (tr_hard_stop t1)
      then (t1, Signal [Txt ''OPTION_EMERGENCY_STOP'']) else
      let t2 = protect_strategy_a m entry t1 in
      if stop_hit (tr_direction t2) price (tr_trailing_stop t2)
      then (t2, Signal [Txt (if fle (tn_trailing_activation_r tn) (tr_peak_r t2)
         then ''UNDERLYING_TRAILING_STOP'' else ''UNDERLYING_STRUCTURAL_STOP'')]) else
      if fle (tn_t1_r tn) (tr_peak_r t2) \<and> \<not> tr_t1_reached t2 then take_t1 entry initial_r price t2 else
      if tr_t1_exit_pending t2 \<and> tr_t1_exit_quantity t2 > tr_partial_filled t2
      then (t2, Signal [Txt ''T1_PARTIAL_EXIT'']) else
      if fle (tn_runner_target_reference_r tn) (tr_peak_r t2) then (t2\<lparr>tr_state := RUNNER_MODE\<rparr>, Hold)
      else (t2, Hold))"

definition apply_t1_partial_fill ::
  "pyfloat \<Rightarrow> pyfloat \<Rightarrow> pyfloat \<Rightarrow> timestamp \<Rightarrow> active_trade \<Rightarrow> exn + active_trade" where
  "apply_t1_partial_fill raw_bid executable_price slippage filled_at t =
     (let quantity = tr_t1_exit_quantity t; original = int_or (tr_initial_quantity t) (tr_quantity t) in
      if quantity > 0 \<and> tr_lot_size t = 0 then Inl ZeroDivisionError
      else if quantity \<le> 0 \<or> quantity mod tr_lot_size t \<noteq> 0
      then Inl (ValueError ''Strategy A partial exit quantity must be a positive whole-lot quantity'')
      else if tr_partial_filled t + quantity > original then Inl (ValueError ''Strategy A partial exit exceeds original quantity'')
      else if not_positive raw_bid \<or> not_positive executable_price
      then Inl (ValueError ''Strategy A partial exit requires a valid executable bid'')
      else if tr_partial_filled t > 0 then Inr t
      else Inr (t\<lparr>tr_partial_filled := quantity, tr_partial_raw_bid := Some (fround 2 raw_bid),
         tr_partial_price := Some (fround 2 executable_price), tr_partial_slippage := Some (fround 4 slippage),
         tr_partial_time := Some filled_at, tr_partial_reason := Some ''T1_REACHED_PARTIAL_EXIT'',
         tr_t1_exit_pending := False, tr_remaining_quantity := Some (original - quantity),
         tr_quantity := original - quantity, tr_lots := (original - quantity) div tr_lot_size t,
         tr_t1_realized_r := tr_t1_decision_r t\<rparr>))"

section \<open>The reversal score\<close>

definition points :: "bool list \<Rightarrow> nat" where "points bs = length (filter id bs)"

definition reversal_signs :: "manager \<Rightarrow> active_trade \<Rightarrow> market_features \<Rightarrow> pyfloat \<Rightarrow> bool list" where
  "reversal_signs m t f spot =
     (let breakout = (tr_strategy t = VOLATILITY_BREAKOUT) in
      if tr_direction t = BULLISH then
        [flt spot (mf_ema9_5m f), flt spot (mf_ema20_5m f), flt (mf_futures_price f) (mf_futures_vwap f),
         flt (mf_rsi_5m f) (Fin 48), flt (mf_plus_di_5m f) (mf_minus_di_5m f), mf_supertrend_direction f = ''BEARISH'',
         fle (pm_bear_threshold m) (if breakout then mf_breakout_bear_derivatives_score f else mf_bear_derivatives_score f),
         (if breakout then mf_futures_buildup f \<in> {''SHORT_BUILDUP'', ''LONG_UNWINDING''}
          else case mf_swing_low_5m f of None \<Rightarrow> False | Some l \<Rightarrow> flt spot l)]
      else
        [flt (mf_ema9_5m f) spot, flt (mf_ema20_5m f) spot, flt (mf_futures_vwap f) (mf_futures_price f),
         flt (Fin 52) (mf_rsi_5m f), flt (mf_minus_di_5m f) (mf_plus_di_5m f), mf_supertrend_direction f = ''BULLISH'',
         fle (pm_bull_threshold m) (if breakout then mf_breakout_bull_derivatives_score f else mf_bull_derivatives_score f),
         (if breakout then mf_futures_buildup f \<in> {''LONG_BUILDUP'', ''SHORT_COVERING''}
          else case mf_swing_high_5m f of None \<Rightarrow> False | Some h \<Rightarrow> flt h spot)])"

definition calculate_reversal_score :: "manager \<Rightarrow> active_trade \<Rightarrow> market_features \<Rightarrow> nat" where
  "calculate_reversal_score m t f =
     (case mf_closed_5m_price f of None \<Rightarrow> 0 | Some spot \<Rightarrow> min 8 (points (reversal_signs m t f spot)))"

section \<open>The shared position update\<close>

text \<open>A stage ends the update with a signal or hands the trade to the next stage.\<close>

definition and_then :: "active_trade \<times> verdict \<Rightarrow> (active_trade \<Rightarrow> active_trade \<times> verdict) \<Rightarrow> active_trade \<times> verdict" where
  "and_then tv f = (case tv of (t, Hold) \<Rightarrow> f t | (t, v) \<Rightarrow> (t, v))"

definition mark_position :: "pyfloat option \<Rightarrow> pyfloat \<Rightarrow> active_trade \<Rightarrow> active_trade" where
  "mark_position current_option_price spot t = t\<lparr>tr_current_spot_price := spot, tr_current_option_price := current_option_price,
     tr_unrealized_pnl := fround 2 (fmul (fsub (opt_or current_option_price (Fin 0)) (tr_entry_option_price t)) (fint (tr_quantity t)))\<rparr>"

definition track_r :: "pyfloat \<Rightarrow> active_trade \<Rightarrow> active_trade" where
  "track_r spot t =
     (let gain = points_of (tr_direction t) (tr_entry_spot_price t) spot; r = fround 2 (quot gain (tr_initial_r_points t))
      in t\<lparr>tr_current_r := r, tr_peak_r := pmax (tr_peak_r t) r,
           tr_mfe_points := fround 2 (pmax (tr_mfe_points t) gain), tr_mae_points := fround 2 (pmin (tr_mae_points t) gain)\<rparr>)"

text \<open>The close of a 5 minute bar not managed before, less than 300 seconds old and after the entry.\<close>

definition new_bar :: "active_trade \<Rightarrow> market_features \<Rightarrow> (timestamp \<times> pyfloat) option" where
  "new_bar t f =
     (case (mf_closed_5m_time f, mf_closed_5m_price f) of
        (Some bar, Some close_px) \<Rightarrow>
          if 0 \<le> mf_timestamp f - bar \<and> mf_timestamp f - bar < seconds 300 \<and> bar > tr_entry_time t
            \<and> (case tr_last_managed_bar t of None \<Rightarrow> True | Some b \<Rightarrow> bar > b)
          then Some (bar, close_px) else None
      | _ \<Rightarrow> None)"

definition record_bar :: "timestamp \<times> pyfloat \<Rightarrow> active_trade \<Rightarrow> active_trade" where
  "record_bar b t = t\<lparr>tr_last_managed_bar := Some (fst b),
     tr_highest_close := Some (pmax (opt_or (tr_highest_close t) (tr_entry_spot_price t)) (snd b)),
     tr_lowest_close := Some (pmin (opt_or (tr_lowest_close t) (tr_entry_spot_price t)) (snd b))\<rparr>"

text \<open>A closed bar beyond the pullback level invalidates the thesis.\<close>

definition check_thesis :: "pyfloat \<Rightarrow> pyfloat \<Rightarrow> active_trade \<Rightarrow> active_trade \<times> verdict" where
  "check_thesis spot close_px t =
     (if tr_direction t = BULLISH then
        (case tr_pullback_swing_low t of
           Some low \<Rightarrow> if flt close_px low
             then (t, Signal [Txt ''IMMEDIATE_THESIS_INVALIDATION (Spot '', Num spot, Txt '' < Pullback Low '', Num low, Txt '')''])
             else (t, Hold)
         | None \<Rightarrow> (t, Hold))
      else
        (case tr_pullback_swing_high t of
           Some high \<Rightarrow> if flt high close_px
             then (t, Signal [Txt ''IMMEDIATE_THESIS_INVALIDATION (Spot '', Num spot, Txt '' > Pullback High '', Num high, Txt '')''])
             else (t, Hold)
         | None \<Rightarrow> (t, Hold)))"

definition inside_box :: "bool \<Rightarrow> message \<Rightarrow> active_trade \<Rightarrow> active_trade \<times> verdict" where
  "inside_box inside msg t =
     (if inside then
        (let t1 = t\<lparr>tr_inside_box_closes := tr_inside_box_closes t + 1\<rparr>
         in if tr_inside_box_closes t1 \<ge> 2 then (t1, Signal msg) else (t1, Hold))
      else (t\<lparr>tr_inside_box_closes := 0\<rparr>, Hold))"

definition check_false_breakout :: "market_features \<Rightarrow> pyfloat \<Rightarrow> pyfloat \<Rightarrow> active_trade \<Rightarrow> active_trade \<times> verdict" where
  "check_false_breakout f spot close_px t =
     (if tr_strategy t \<noteq> VOLATILITY_BREAKOUT then (t, Hold) else
      let atr = (case tr_atr_at_lock t of Some a \<Rightarrow> a | None \<Rightarrow> mf_atr_5m f); margin = fmul (flit (1 / 10)) atr in
      if tr_direction t = BULLISH then
        (case tr_box_high t of None \<Rightarrow> (t, Hold) | Some high \<Rightarrow>
           if flt close_px (fsub high margin)
           then (t, Signal [Txt ''FALSE_BREAKOUT_EXIT (Spot '', Num spot, Txt '' < BoxHigh '', Num high, Txt '' - 0.10*ATR '',
                    Num (fround 2 margin), Txt '')''])
           else inside_box (flt close_px high)
             [Txt ''FALSE_BREAKOUT_EXIT (2 consecutive closes inside box < '', Num high, Txt '')''] t)
      else
        (case tr_box_low t of None \<Rightarrow> (t, Hold) | Some low \<Rightarrow>
           if flt (fadd low margin) close_px
           then (t, Signal [Txt ''FALSE_BREAKOUT_EXIT (Spot '', Num spot, Txt '' > BoxLow '', Num low, Txt '' + 0.10*ATR '',
                    Num (fround 2 margin), Txt '')''])
           else inside_box (flt low close_px)
             [Txt ''FALSE_BREAKOUT_EXIT (2 consecutive closes inside box > '', Num low, Txt '')''] t))"

definition check_stops :: "manager \<Rightarrow> pyfloat option \<Rightarrow> pyfloat \<Rightarrow> timestamp \<Rightarrow> active_trade \<Rightarrow> active_trade \<times> verdict" where
  "check_stops m current_option_price spot now t =
     (let option_price = opt_or current_option_price (Fin 0) in
      if flt (Fin 0) option_price \<and> fle option_price (tr_hard_stop t)
      then (t, Signal [Txt ''OPTION_HARD_STOP_HIT (LTP '', Num option_price, Txt '' <= SL '', Num (tr_hard_stop t), Txt '')''])
      else if flt (Fin 0) spot \<and> stop_hit (tr_direction t) spot (tr_trailing_stop t)
      then (t, Signal [Txt ''STRUCTURAL_SPOT_STOP_BREACHED (Spot '', Num spot,
              Txt (if tr_direction t = BULLISH then '' <= SL '' else '' >= SL ''), Num (tr_trailing_stop t), Txt '')''])
      else if reached_time now (st_force_exit_time (pm_session m))
      then (t, Signal [Txt ''SESSION_FORCE_SQUARE_OFF_1520''])
      else (t, Hold))"

text \<open>Levels away from \<open>p\<close>, against the thesis.\<close>

definition against :: "trade_direction \<Rightarrow> pyfloat \<Rightarrow> pyfloat \<Rightarrow> pyfloat" where
  "against dir p d = (if dir = BULLISH then fsub p d else fadd p d)"

definition swing_level :: "trade_direction \<Rightarrow> market_features \<Rightarrow> pyfloat option" where
  "swing_level dir f = (if dir = BULLISH then mf_swing_low_5m f else mf_swing_high_5m f)"

definition ema_level :: "trade_direction \<Rightarrow> market_features \<Rightarrow> pyfloat" where
  "ema_level dir f = against dir (mf_ema9_5m f) (fmul (Fin (1 / 4)) (mf_atr_5m f))"

text \<open>The actions of the reversal score on the stop, and the exits it asks for.\<close>

definition tighten_on_two :: "market_features \<Rightarrow> pyfloat \<Rightarrow> active_trade \<Rightarrow> active_trade" where
  "tighten_on_two f close_px t =
     (let dir = tr_direction t;
          second = against dir close_px (fmul (flit (15 / 100)) (mf_atr_5m f));
          tightened = (if dir = BULLISH then pmin (ema_level dir f) second else pmax (ema_level dir f) second)
      in t\<lparr>tr_trailing_stop := fround 2 (tighter dir (tr_trailing_stop t) tightened)\<rparr>)"

definition on_protective_side :: "trade_direction \<Rightarrow> pyfloat \<Rightarrow> pyfloat \<Rightarrow> bool" where
  "on_protective_side dir close_px x = (if dir = BULLISH then flt x close_px else flt close_px x)"

definition tighten_on_three :: "market_features \<Rightarrow> pyfloat \<Rightarrow> active_trade \<Rightarrow> active_trade" where
  "tighten_on_three f close_px t =
     (let dir = tr_direction t;
          candidates = ema_level dir f # (case swing_level dir f of None \<Rightarrow> [] | Some x \<Rightarrow> [x]);
          valid = filter (on_protective_side dir close_px) candidates
      in t\<lparr>tr_trailing_stop := foldl (tighter dir) (tr_trailing_stop t) valid\<rparr>)"

definition act_on_score :: "market_features \<Rightarrow> pyfloat \<Rightarrow> nat \<Rightarrow> active_trade \<Rightarrow> active_trade \<times> verdict" where
  "act_on_score f close_px score t0 =
     (let t = t0\<lparr>tr_reversal_score := score\<rparr>; r = tr_current_r t in
      if score \<ge> 4 then (t, Signal [Txt (''ADVERSE_HEALTH_SCORE_CRITICAL (Score '' @ show_nat score @ ''/8 >= 4)'')])
      else if score \<ge> 3 \<and> flt r (Fin 1)
      then (t, Signal [Txt (''ADVERSE_HEALTH_SCORE_EARLY_EXIT (Score '' @ show_nat score @ ''/8 with R ''), Num r, Txt '' < 1.0R)''])
      else
        (let t1 = (if score = 2 then tighten_on_two f close_px t else t)
         in (if score = 3 \<and> fle (Fin 1) r then tighten_on_three f close_px t1 else t1, Hold)))"

text \<open>The ladder: runner, half an R locked, breakeven.  The extreme close was recorded with the bar.\<close>

definition extreme_close :: "active_trade \<Rightarrow> pyfloat" where
  "extreme_close t = (case (if tr_direction t = BULLISH then tr_highest_close t else tr_lowest_close t) of
     Some c \<Rightarrow> c | None \<Rightarrow> tr_entry_spot_price t)"

definition runner_stop :: "market_features \<Rightarrow> active_trade \<Rightarrow> pyfloat" where
  "runner_stop f t =
     (let dir = tr_direction t in
      foldl (tighter dir) (tr_trailing_stop t)
        [ema_level dir f, against dir (extreme_close t) (mf_atr_5m f),
         (case swing_level dir f of Some x \<Rightarrow> x | None \<Rightarrow> tr_trailing_stop t)])"

definition ladder :: "manager \<Rightarrow> market_features \<Rightarrow> active_trade \<Rightarrow> active_trade" where
  "ladder m f t =
     (let dir = tr_direction t; entry = tr_entry_spot_price t;
          raise_to = (\<lambda>x. fround 2 (tighter dir (tr_trailing_stop t) x)) in
      if fle (Fin 2) (tr_peak_r t) then t\<lparr>tr_state := RUNNER_MODE, tr_trailing_stop := raise_to (runner_stop f t)\<rparr>
      else if fle (Fin (3 / 2)) (tr_peak_r t)
      then t\<lparr>tr_state := PROFIT_LOCKED,
             tr_trailing_stop := raise_to (favour dir entry (fmul (Fin (1 / 2)) (tr_initial_r_points t)))\<rparr>
      else if fle (Fin 1) (tr_peak_r t)
      then t\<lparr>tr_state := PROTECTED_BREAKEVEN,
             tr_trailing_stop := raise_to (favour dir entry (rk_breakeven_buffer_points (pm_risk m)))\<rparr>
      else t)"

text \<open>\<open>now\<close> is the \<^verbatim>\<open>as_of\<close> argument, or the clock when it is absent.\<close>

definition update_position ::
  "manager \<Rightarrow> pyfloat option \<Rightarrow> market_features \<Rightarrow> timestamp option \<Rightarrow> timestamp \<Rightarrow> active_trade \<Rightarrow> active_trade \<times> verdict" where
  "update_position m current_option_price f as_of now t =
     (if tr_strategy t = TREND_PULLBACK
      then update_strategy_a_position m (mf_futures_price f) current_option_price as_of t else
      let spot = mf_spot_price f; t1 = mark_position current_option_price spot t in
      if not_positive (tr_initial_r_points t1) then (t1, Signal [Txt ''INVALID_INITIAL_R'']) else
      let t2 = track_r spot t1; at_time = (case as_of of Some a \<Rightarrow> a | None \<Rightarrow> now) in
      case new_bar t2 f of
        None \<Rightarrow> check_stops m current_option_price spot at_time t2
      | Some bar \<Rightarrow>
          (let close_px = snd bar in
           and_then (check_thesis spot close_px (record_bar bar t2)) (\<lambda>t3.
           and_then (check_false_breakout f spot close_px t3) (\<lambda>t4.
           and_then (check_stops m current_option_price spot at_time t4) (\<lambda>t5.
           and_then (act_on_score f close_px (calculate_reversal_score m t5 f) t5) (\<lambda>t6.
             (ladder m f t6, Hold)))))))"

section \<open>The stop as a ratchet\<close>

definition at_least :: "trade_direction \<Rightarrow> pyfloat \<Rightarrow> pyfloat \<Rightarrow> bool" where
  "at_least dir x y = (if dir = BULLISH then fle y x else fle x y)"

interpretation stop: ratchet "at_least dir" "tighter dir" "fround n" for dir n
proof
  show "x \<noteq> NaN \<Longrightarrow> at_least dir x x" for x by (simp add: at_least_def)
  show "at_least dir x y \<Longrightarrow> at_least dir y z \<Longrightarrow> at_least dir x z" for x y z
    by (auto simp: at_least_def intro: fle_trans split: if_splits)
  show "x \<noteq> NaN \<Longrightarrow> at_least dir (tighter dir x y) x" for x y
    by (simp add: at_least_def tighter_def pmax_ge1 pmin_le1)
  show "x \<noteq> NaN \<Longrightarrow> y \<noteq> NaN \<Longrightarrow> at_least dir (tighter dir x y) y" for x y
    by (simp add: at_least_def tighter_def pmax_ge2 pmin_le2)
  show "tighter dir x y = x \<or> tighter dir x y = y" for x y by (simp add: tighter_def pmax_in pmin_in)
  show "x \<noteq> NaN \<Longrightarrow> tighter dir x y \<noteq> NaN" for x y by (simp add: tighter_def)
  show "at_least dir x y \<Longrightarrow> at_least dir (fround n x) (fround n y)" for x y
    by (auto simp: at_least_def intro: fround_mono split: if_splits)
qed

text \<open>A stop that the rounding to two decimals does not loosen, for example one on that grid.\<close>

definition snug :: "active_trade \<Rightarrow> bool" where
  "snug t \<longleftrightarrow> at_least (tr_direction t) (fround 2 (tr_trailing_stop t)) (tr_trailing_stop t)"

lemma raise_at_least:
  assumes "at_least dir s s0" "s \<noteq> NaN" "at_least dir (fround 2 s0) s0"
  shows "at_least dir (fround 2 (tighter dir s x)) s0"
  using stop.ge_trans[OF stop.snap_ge[OF stop.ge_trans[OF stop.pick_ge[OF assms(2)] assms(1)], of 2 x] assms(3)] .

text \<open>What an update may do to a trade: never loosen the stop, lower the peak or touch the size.\<close>

definition kept :: "active_trade \<Rightarrow> active_trade \<Rightarrow> bool" where
  "kept t t' \<longleftrightarrow> tr_direction t' = tr_direction t \<and> tr_strategy t' = tr_strategy t \<and> tr_quantity t' = tr_quantity t
     \<and> tr_lot_size t' = tr_lot_size t \<and> tr_entry_spot_price t' = tr_entry_spot_price t
     \<and> tr_hard_stop t' = tr_hard_stop t \<and> tr_initial_quantity t' = tr_initial_quantity t"

definition stop_held :: "active_trade \<Rightarrow> active_trade \<Rightarrow> bool" where
  "stop_held t t' \<longleftrightarrow> kept t t' \<and> at_least (tr_direction t) (tr_trailing_stop t') (tr_trailing_stop t)
     \<and> tr_trailing_stop t' \<noteq> NaN \<and> fle (tr_peak_r t) (tr_peak_r t')"

named_theorems stage_simps \<open>how the stages of an update change a trade\<close>

lemma stop_heldI:
  assumes "stop_held t t1" "kept t t2" "tr_peak_r t2 = tr_peak_r t1" "tr_trailing_stop t2 = tr_trailing_stop t1"
  shows "stop_held t t2"
  using assms by (simp add: stop_held_def)

lemma and_then_held:
  assumes "stop_held t (fst p)" "\<And>t1. stop_held t t1 \<Longrightarrow> snd p = Hold \<Longrightarrow> fst p = t1 \<Longrightarrow> stop_held t (fst (f t1))"
  shows "stop_held t (fst (and_then p f))"
  using assms by (cases p; cases "snd p") (auto simp: and_then_def)

lemma kept_refl [simp]: "kept t t"
  by (simp add: kept_def)

text \<open>The stages that leave the stop and the peak alone.\<close>

lemma same_stop:
  "fst (check_thesis spot c t) = t" "fst (check_stops m op spot now t) = t"
  by (simp_all add: check_thesis_def check_stops_def Let_def split: option.splits)

lemma record_bar_same [simp]:
  "kept t (record_bar b t)" "tr_peak_r (record_bar b t) = tr_peak_r t" "tr_trailing_stop (record_bar b t) = tr_trailing_stop t"
  by (simp_all add: record_bar_def kept_def)

lemma breakout_same:
  "kept t (fst (check_false_breakout f spot c t))" "tr_peak_r (fst (check_false_breakout f spot c t)) = tr_peak_r t"
  "tr_trailing_stop (fst (check_false_breakout f spot c t)) = tr_trailing_stop t"
  by (auto simp: check_false_breakout_def inside_box_def kept_def Let_def split: option.splits)

lemma kept_trans: "kept a b \<Longrightarrow> kept b c \<Longrightarrow> kept a c"
  by (simp add: kept_def)

lemma peak_grows: "fle a b \<Longrightarrow> fle a (pmax b x)"
  by (rule fle_trans[OF _ pmax_ge1]) (auto simp: fle_def feq_def)

lemma marked_held:
  assumes "stop_held t0 t"
  shows "stop_held t0 (mark_position op spot t)" "stop_held t0 (track_r spot (mark_position op spot t))"
proof -
  have "fle (tr_peak_r t0) (pmax (tr_peak_r t) x)" for x using assms by (auto simp: stop_held_def intro: peak_grows)
  then show "stop_held t0 (mark_position op spot t)" "stop_held t0 (track_r spot (mark_position op spot t))"
    using assms by (simp_all add: stop_held_def kept_def mark_position_def track_r_def Let_def)
qed

text \<open>The stages that tighten the stop.\<close>

lemma score_held:
  assumes h: "stop_held t0 t" and g: "snug t0"
  shows "stop_held t0 (fst (act_on_score f c score t))"
proof -
  let ?d = "tr_direction t0"
  have s: "at_least ?d (tr_trailing_stop t) (tr_trailing_stop t0)" "tr_trailing_stop t \<noteq> NaN" and d: "tr_direction t = ?d"
    using h by (simp_all add: stop_held_def kept_def)
  have num: "fround 2 (tighter ?d (tr_trailing_stop t) x) \<noteq> NaN" for x using stop.pick_num[OF s(2)] by simp
  have two: "stop_held t0 (tighten_on_two f c (t\<lparr>tr_reversal_score := score\<rparr>))"
    using h raise_at_least[OF s g[unfolded snug_def]] num d by (simp add: stop_held_def kept_def tighten_on_two_def Let_def)
  have "at_least ?d (foldl (tighter ?d) (tr_trailing_stop t) cs) (tr_trailing_stop t0)" for cs
    using stop.ge_trans[OF stop.foldl_pick_ge[OF s(2)] s(1)] .
  then have three: "stop_held t0 (tighten_on_three f c (t\<lparr>tr_reversal_score := score\<rparr>))"
    using h stop.foldl_pick_num[OF s(2)] d by (simp add: stop_held_def kept_def tighten_on_three_def Let_def)
  have same: "stop_held t0 (t\<lparr>tr_reversal_score := score\<rparr>)" using h by (simp add: stop_held_def kept_def)
  show ?thesis using two three same by (auto simp: act_on_score_def Let_def)
qed

lemma ladder_held:
  assumes h: "stop_held t0 t" and g: "snug t0"
  shows "stop_held t0 (ladder m f t)"
proof -
  have s: "at_least (tr_direction t0) (tr_trailing_stop t) (tr_trailing_stop t0)" "tr_trailing_stop t \<noteq> NaN"
    and d: "tr_direction t = tr_direction t0" using h by (simp_all add: stop_held_def kept_def)
  have "fround 2 (tighter (tr_direction t0) (tr_trailing_stop t) x) \<noteq> NaN" for x using stop.pick_num[OF s(2)] by simp
  then show ?thesis using h raise_at_least[OF s g[unfolded snug_def]] d by (auto simp: ladder_def Let_def stop_held_def kept_def)
qed

lemma update_position_held:
  assumes "tr_strategy t \<noteq> TREND_PULLBACK" "stop_held t0 t" "snug t0"
  shows "stop_held t0 (fst (update_position m op f as_of now t))"
proof -
  note mk = marked_held[OF assms(2)]
  let ?t2 = "track_r (mf_spot_price f) (mark_position op (mf_spot_price f) t)"
  have rec: "stop_held t0 (record_bar b ?t2)" for b
  proof (rule stop_heldI[OF mk(2)])
    show "kept t0 (record_bar b ?t2)" using mk(2) by (intro kept_trans[OF _ record_bar_same(1)]) (simp add: stop_held_def)
  qed simp_all
  have brk: "stop_held t0 (fst (check_false_breakout f sp c t3))" if "stop_held t0 t3" for sp c t3
    using stop_heldI[OF that kept_trans[OF _ breakout_same(1)]] that breakout_same by (simp add: stop_held_def)
  show ?thesis
    using assms(1) mk
    by (auto simp: update_position_def Let_def same_stop rec brk split: option.splits
        intro!: and_then_held score_held ladder_held assms(3))
qed

lemma mark_a_held: "stop_held t0 t \<Longrightarrow> stop_held t0 (mark_strategy_a e r p op t)"
  by (simp add: stop_held_def kept_def mark_strategy_a_def Let_def peak_grows)

lemma protect_held:
  assumes h: "stop_held t0 t" and g: "snug t0" and p: "flt (Fin 0) (tr_trailing_stop t)"
  shows "stop_held t0 (protect_strategy_a m e t)"
proof -
  have s: "at_least (tr_direction t0) (tr_trailing_stop t) (tr_trailing_stop t0)" "tr_trailing_stop t \<noteq> NaN"
    and d: "tr_direction t = tr_direction t0" using h by (simp_all add: stop_held_def kept_def)
  have "\<not> not_positive (tr_trailing_stop t)" using p s(2) by (simp add: not_positive_def not_fle_iff)
  moreover have "fround 2 (tighter (tr_direction t0) (tr_trailing_stop t) x) \<noteq> NaN" for x
    using stop.pick_num[OF s(2)] by simp
  ultimately show ?thesis using h raise_at_least[OF s g[unfolded snug_def]] d
    by (auto simp: protect_strategy_a_def Let_def stop_held_def kept_def)
qed

lemma t1_held:
  assumes h: "stop_held t0 t" and g: "snug t0"
  shows "stop_held t0 (fst (take_t1 e r p t))"
proof -
  have s: "at_least (tr_direction t0) (tr_trailing_stop t) (tr_trailing_stop t0)" "tr_trailing_stop t \<noteq> NaN"
    and d: "tr_direction t = tr_direction t0" using h by (simp_all add: stop_held_def kept_def)
  have "fround 2 (tighter (tr_direction t0) (tr_trailing_stop t) x) \<noteq> NaN" for x using stop.pick_num[OF s(2)] by simp
  then show ?thesis using h raise_at_least[OF s g[unfolded snug_def]] d by (auto simp: take_t1_def Let_def stop_held_def kept_def)
qed

lemma update_a_held:
  assumes "flt (Fin 0) (tr_trailing_stop t)" "stop_held t0 t" "snug t0"
  shows "stop_held t0 (fst (update_strategy_a_position m p op as_of t))"
proof -
  note mk = mark_a_held[OF assms(2)]
  have pr: "stop_held t0 (protect_strategy_a m e (mark_strategy_a e r p q t))" for e r q
    using protect_held[OF mk assms(3)] assms(1) by (simp add: mark_strategy_a_def Let_def)
  have "stop_held t0 (u\<lparr>tr_state := st\<rparr>)" if "stop_held t0 u" for u st
    using that by (simp add: stop_held_def kept_def)
  then show ?thesis
    using assms(2) mk pr t1_held[OF pr assms(3)] by (simp add: update_strategy_a_position_def Let_def)
qed

lemma held_refl: "tr_trailing_stop t \<noteq> NaN \<Longrightarrow> tr_peak_r t \<noteq> NaN \<Longrightarrow> stop_held t t"
  by (simp add: stop_held_def stop.ge_refl)

lemma grid_snug: "on_grid 2 (tr_trailing_stop t) \<Longrightarrow> tr_trailing_stop t \<noteq> NaN \<Longrightarrow> snug t"
  by (simp add: snug_def on_grid_def stop.ge_refl)

section \<open>What holding a position means\<close>

lemma and_then_Hold: "snd (and_then p f) = Hold \<longleftrightarrow> snd p = Hold \<and> snd (f (fst p)) = Hold"
  by (cases p; cases "snd p") (auto simp: and_then_def)

lemma stops_Hold:
  "snd (check_stops m op spot now t) = Hold \<longleftrightarrow>
   \<not> (flt (Fin 0) (opt_or op (Fin 0)) \<and> fle (opt_or op (Fin 0)) (tr_hard_stop t))
   \<and> \<not> (flt (Fin 0) spot \<and> stop_hit (tr_direction t) spot (tr_trailing_stop t))
   \<and> \<not> reached_time now (st_force_exit_time (pm_session m))"
  by (simp add: check_stops_def Let_def)

text \<open>Loosening a stop never hits it first: what does not hit a tighter stop does not hit a looser one.\<close>

lemma stop_hit_mono: "at_least d s' s \<Longrightarrow> stop_hit d p s \<Longrightarrow> stop_hit d p s'"
  by (auto simp: at_least_def stop_hit_def intro: fle_trans split: if_splits)

lemma hold_shared:
  assumes "tr_strategy t \<noteq> TREND_PULLBACK" "snd (update_position m op f as_of now t) = Hold"
  shows "\<not> (flt (Fin 0) (opt_or op (Fin 0)) \<and> fle (opt_or op (Fin 0)) (tr_hard_stop t))"
    and "\<not> (flt (Fin 0) (mf_spot_price f) \<and> stop_hit (tr_direction t) (mf_spot_price f) (tr_trailing_stop t))"
    and "\<not> reached_time (case as_of of Some a \<Rightarrow> a | None \<Rightarrow> now) (st_force_exit_time (pm_session m))"
proof -
  let ?t2 = "track_r (mf_spot_price f) (mark_position op (mf_spot_price f) t)"
  have k: "tr_hard_stop ?t2 = tr_hard_stop t" "tr_direction ?t2 = tr_direction t" "tr_trailing_stop ?t2 = tr_trailing_stop t"
    by (simp_all add: track_r_def mark_position_def Let_def)
  have b: "tr_hard_stop (fst (check_false_breakout f sp c u)) = tr_hard_stop u"
    "tr_direction (fst (check_false_breakout f sp c u)) = tr_direction u" for sp c u
    using breakout_same(1)[of u f sp c] by (simp_all add: kept_def)
  have r: "tr_hard_stop (record_bar x u) = tr_hard_stop u" "tr_direction (record_bar x u) = tr_direction u" for x u
    by (simp_all add: record_bar_def)
  obtain u where u: "snd (check_stops m op (mf_spot_price f) (case as_of of Some a \<Rightarrow> a | None \<Rightarrow> now) u) = Hold"
    "tr_hard_stop u = tr_hard_stop t" "tr_direction u = tr_direction t" "tr_trailing_stop u = tr_trailing_stop t"
    using assms k b r
    by (auto simp: update_position_def Let_def and_then_Hold same_stop breakout_same split: if_splits option.splits)
  from u(1) show "\<not> (flt (Fin 0) (opt_or op (Fin 0)) \<and> fle (opt_or op (Fin 0)) (tr_hard_stop t))"
    "\<not> (flt (Fin 0) (mf_spot_price f) \<and> stop_hit (tr_direction t) (mf_spot_price f) (tr_trailing_stop t))"
    "\<not> reached_time (case as_of of Some a \<Rightarrow> a | None \<Rightarrow> now) (st_force_exit_time (pm_session m))"
    unfolding stops_Hold u(2-4) by blast+
qed

lemma take_t1_signals: "snd (take_t1 e r p t) \<noteq> Hold"
  by (simp add: take_t1_def Let_def)

lemma mark_a_simps:
  "tr_hard_stop (mark_strategy_a e r p q t) = tr_hard_stop t" "tr_direction (protect_strategy_a m e u) = tr_direction u"
  "tr_direction (mark_strategy_a e r p q t) = tr_direction t"
  by (simp_all add: mark_strategy_a_def protect_strategy_a_def Let_def)

lemma hold_strategy_a:
  assumes "snd (update_strategy_a_position m p op (Some now) t) = Hold"
  shows "\<not> (flt (Fin 0) (opt_or op (Fin 0)) \<and> fle (opt_or op (Fin 0)) (tr_hard_stop t))
    \<and> \<not> stop_hit (tr_direction t) p (tr_trailing_stop (fst (update_strategy_a_position m p op (Some now) t)))
    \<and> \<not> reached_time now (tn_forced_exit_time (pm_tunables m))"
  using assms take_t1_signals
  by (auto simp: update_strategy_a_position_def Let_def mark_a_simps split: if_splits)

section \<open>Properties\<close>

definition traded_price :: "active_trade \<Rightarrow> market_features \<Rightarrow> pyfloat" where
  "traded_price t f = (if tr_strategy t = TREND_PULLBACK then mf_futures_price f else mf_spot_price f)"

definition cutoff :: "manager \<Rightarrow> active_trade \<Rightarrow> time_of_day" where
  "cutoff m t = (if tr_strategy t = TREND_PULLBACK then tn_forced_exit_time (pm_tunables m)
     else st_force_exit_time (pm_session m))"

lemma update_held:
  assumes "flt (Fin 0) (tr_trailing_stop t)" "stop_held t0 t" "snug t0"
  shows "stop_held t0 (fst (update_position m op f as_of now t))"
  using assms update_position_held[OF _ assms(2,3), of m op f as_of now] update_a_held[OF assms, of m "mf_futures_price f" op as_of]
  by (cases "tr_strategy t = TREND_PULLBACK") (simp_all add: update_position_def)

text \<open>
  The rounding of a stop to two decimals either does not loosen it, or is a stop on the grid that the
  trade holds: in both cases the update holds the looser of the two.
\<close>

lemma update_ratchets:
  assumes stop: "tr_trailing_stop t = Fin s" "0 < s" "s * 100 \<le> 2 ^ 51" and peak: "tr_peak_r t \<noteq> NaN"
  obtains t0 where "stop_held t0 (fst (update_position m op f as_of now t))" "kept t t0" "tr_peak_r t0 = tr_peak_r t"
    "tr_trailing_stop t0 = Fin s \<or> tr_trailing_stop t0 = fround 2 (Fin s)"
proof (cases "snug t")
  case True
  then show ?thesis using that[of t] update_held[OF _ held_refl True, of m op f as_of now] assms by simp
next
  case False
  let ?t0 = "t\<lparr>tr_trailing_stop := fround 2 (Fin s)\<rparr>"
  have num: "fround 2 (Fin s) \<noteq> NaN" by (simp only: fround_NaN) simp
  have "\<bar>s\<bar> * 10 ^ 2 \<le> 2 ^ 51" using stop by simp
  then have g: "snug ?t0" using on_grid_fround[of s 2] num by (intro grid_snug) simp_all
  have "at_least (tr_direction t) (Fin s) (fround 2 (Fin s))"
    using False stop(1) num by (cases "tr_direction t = BULLISH") (auto simp: snug_def at_least_def not_fle_iff intro: flt_imp_fle)
  then have h: "stop_held ?t0 t" using stop(1) peak by (simp add: stop_held_def kept_def)
  show ?thesis
    by (rule that[of ?t0]) (use update_held[OF _ h g] stop in \<open>simp_all add: kept_def\<close>)
qed

text \<open>
  C26. An update of a position never loosens its trailing stop by more than the rounding of that stop
  to two decimals, whatever the prices and indicators are (NaN included): for a positive stop of at
  most 2 to the 51 over 100 and a peak R that is a number, the new stop of a bullish trade is at least
  the lower of the old stop and its rounding, that of a bearish trade at most the higher of the two.
  So a stop that is on the two-decimal grid is never loosened, and one that is off it loses at most
  that rounding.  Nor does an update lower the peak R or touch the size, the entry or the emergency
  stop.
\<close>

theorem position_stop_ratchets:
  assumes "tr_trailing_stop t = Fin s" "0 < s" "s * 100 \<le> 2 ^ 51" "tr_peak_r t \<noteq> NaN"
  shows "let t' = fst (update_position m op f as_of now t); rounded = fround 2 (Fin s) in
    (if tr_direction t = BULLISH then fle (pmin (Fin s) rounded) (tr_trailing_stop t')
     else fle (tr_trailing_stop t') (pmax (Fin s) rounded))
    \<and> (rounded = Fin s \<longrightarrow> (if tr_direction t = BULLISH then fle (Fin s) (tr_trailing_stop t')
         else fle (tr_trailing_stop t') (Fin s)))
    \<and> fle (tr_peak_r t) (tr_peak_r t') \<and> kept t t'"
proof -
  let ?u = "fst (update_position m op f as_of now t)" and ?r = "fround 2 (Fin s)"
  obtain t0 where h: "stop_held t0 ?u" and k: "kept t t0" "tr_peak_r t0 = tr_peak_r t"
    and s: "tr_trailing_stop t0 = Fin s \<or> tr_trailing_stop t0 = ?r"
    by (rule update_ratchets[OF assms])
  have num: "?r \<noteq> NaN" by (simp only: fround_NaN) simp
  have g: "at_least (tr_direction t) (tr_trailing_stop ?u) (tr_trailing_stop t0)" "fle (tr_peak_r t) (tr_peak_r ?u)" "kept t ?u"
    using h k kept_trans[OF k(1)] by (simp_all add: stop_held_def kept_def)
  have lo: "fle (pmin (Fin s) ?r) (tr_trailing_stop t0)" "fle (tr_trailing_stop t0) (pmax (Fin s) ?r)"
    using s num pmin_le1 pmin_le2 pmax_ge1 pmax_ge2 by (metis pyfloat.distinct(5))+
  show ?thesis unfolding Let_def
    using g lo fle_trans[OF lo(1)] fle_trans[OF _ lo(2)] s by (auto simp: at_least_def)
qed

definition demo_trade :: active_trade where
  "demo_trade = \<lparr>tr_strategy = DI_CONTINUATION, tr_direction = BULLISH, tr_quantity = 150, tr_lot_size = 75, tr_lots = 2,
     tr_entry_time = 0, tr_entry_option_price = Fin 60, tr_entry_spot_price = Fin 100,
     tr_initial_structural_stop = Fin 90, tr_initial_r_points = Fin 10, tr_pullback_swing_low = None,
     tr_pullback_swing_high = None, tr_box_high = None, tr_box_low = None, tr_atr_at_lock = None,
     tr_inside_box_closes = 0, tr_highest_close = None, tr_lowest_close = None, tr_last_managed_bar = None,
     tr_current_option_price = Some (Fin 60), tr_current_spot_price = Fin 100, tr_trailing_stop = Fin 90,
     tr_hard_stop = Fin 45, tr_current_r = Fin 0, tr_peak_r = Fin 0, tr_mfe_points = Fin 0, tr_mae_points = Fin 0,
     tr_reversal_score = 0, tr_state = OPEN_INITIAL_RISK, tr_unrealized_pnl = Fin 0, tr_underlying_entry_price = None,
     tr_underlying_current_price = None, tr_underlying_r = None, tr_initial_quantity = Some 150,
     tr_remaining_quantity = None, tr_t1_reached = False, tr_t1_exit_quantity = 0, tr_t1_exit_pending = False,
     tr_t1_decision_price = None, tr_t1_decision_r = None, tr_t1_realized_r = None, tr_partial_filled = 0,
     tr_partial_price = None, tr_partial_raw_bid = None, tr_partial_slippage = None, tr_partial_time = None,
     tr_partial_reason = None\<rparr>"

definition demo_features :: market_features where
  "demo_features = \<lparr>mf_breakout_bull_derivatives_score = Fin 0, mf_breakout_bear_derivatives_score = Fin 0,
     mf_timestamp = 0, mf_spot_price = Fin 120, mf_closed_5m_price = None, mf_closed_5m_time = None,
     mf_plus_di_5m = Fin 0, mf_minus_di_5m = Fin 0, mf_swing_low_5m = None, mf_swing_high_5m = None,
     mf_ema9_5m = Fin 110, mf_ema20_5m = Fin 105, mf_rsi_5m = Fin 60, mf_atr_5m = Fin 20,
     mf_supertrend_direction = ''BULLISH'', mf_futures_price = Fin 120, mf_futures_vwap = Fin 110,
     mf_futures_buildup = ''NEUTRAL'', mf_bull_derivatives_score = Fin 3, mf_bear_derivatives_score = Fin 0\<rparr>"

lemma demo_trade_stop:
  "on_grid 2 (tr_trailing_stop demo_trade)" "flt (Fin 0) (tr_trailing_stop demo_trade)" "tr_peak_r demo_trade \<noteq> NaN"
  by (simp_all add: demo_trade_def on_grid_def float_eval)

text \<open>A stop off the grid, as the strategies A and D set it with six decimals, and its rounding, which is looser.\<close>

definition off_grid_trade :: active_trade where
  "off_grid_trade = demo_trade\<lparr>tr_trailing_stop := Fin (115 + 1 / 256), tr_peak_r := Fin 1\<rparr>"

lemma off_grid_cents: "rhe (736025 / 64) = 11500"
proof -
  have "\<lfloor>736025 / 64 :: rat\<rfloor> = 11500" by (simp add: floor_eq_iff)
  then show ?thesis by (simp add: rhe_def)
qed

lemma off_grid_rounds: "fround 2 (Fin (115 + 1 / 256)) = Fin 115"
  by (simp add: float_eval off_grid_cents)

lemma off_grid_stop_loosened: "tr_trailing_stop (ladder default_manager demo_features off_grid_trade) = Fin 115"
  by (simp add: ladder_def Let_def off_grid_trade_def demo_trade_def tighter_def favour_def pmax_def default_manager_def
      default_risk_limits_def float_eval off_grid_cents)

theorem position_stop_ratchets_witness:
  "fle (Fin 115) (tr_trailing_stop (fst (update_position default_manager (Some (Fin 70)) demo_features None 0 off_grid_trade)))"
  using position_stop_ratchets[of off_grid_trade "115 + 1 / 256" default_manager "Some (Fin 70)" demo_features None 0]
  unfolding Let_def off_grid_rounds by (simp add: off_grid_trade_def demo_trade_def pmin_def)

text \<open>
  A position is held only when it is safe to: if an update gives no reason to exit, the option is
  not at or below its emergency stop, the traded price has not reached the trailing stop the position
  had, and the forced exit time of its strategy has not come.
\<close>

theorem position_hold_safe:
  assumes "on_grid 2 (tr_trailing_stop t)" "flt (Fin 0) (tr_trailing_stop t)" "tr_peak_r t \<noteq> NaN"
    and "snd (update_position m op f (Some now) at_time t) = Hold"
  shows "\<not> (flt (Fin 0) (opt_or op (Fin 0)) \<and> fle (opt_or op (Fin 0)) (tr_hard_stop t))
    \<and> \<not> (flt (Fin 0) (traded_price t f) \<and> stop_hit (tr_direction t) (traded_price t f) (tr_trailing_stop t))
    \<and> \<not> reached_time now (cutoff m t)"
proof (cases "tr_strategy t = TREND_PULLBACK")
  case False
  then show ?thesis using hold_shared[OF False assms(4)] by (simp add: traded_price_def cutoff_def)
next
  case True
  then have h: "snd (update_strategy_a_position m (mf_futures_price f) op (Some now) t) = Hold"
    using assms(4) by (simp add: update_position_def)
  have "at_least (tr_direction t) (tr_trailing_stop (fst (update_strategy_a_position m (mf_futures_price f) op (Some now) t)))
      (tr_trailing_stop t)"
    using update_a_held[OF assms(2) held_refl grid_snug[OF assms(1)]] assms(3) flt_not_NaN[OF assms(2)] by (simp add: stop_held_def)
  from stop_hit_mono[OF this] hold_strategy_a[OF h] show ?thesis
    using True by (auto simp: traded_price_def cutoff_def)
qed

lemma demo_hold: "snd (update_position default_manager (Some (Fin 70)) demo_features (Some 0) 0 demo_trade) = Hold"
proof -
  have "\<not> reached_time 0 (15, 20)" by code_simp
  then show ?thesis
    by (simp add: update_position_def new_bar_def check_stops_def Let_def demo_trade_def demo_features_def
        mark_position_def track_r_def not_positive_def opt_or_def f_or_def ftrue_def stop_hit_def
        default_manager_def default_session_def)
qed

theorem position_hold_safe_witness:
  "\<not> fle (Fin 70) (tr_hard_stop demo_trade) \<and> \<not> reached_time 0 (15, 20)"
  using position_hold_safe[OF demo_trade_stop demo_hold]
  by (simp add: opt_or_def f_or_def ftrue_def cutoff_def default_manager_def default_session_def demo_trade_def)

text \<open>A floored quotient of floats over-counts by at most the rounding of the division.\<close>

lemma floor_quot_bound:
  assumes "floor_quot (Fin m) (Fin c) = Inr n" "0 < c" "1 \<le> n"
  shows "of_int n * c \<le> m * (1 + 1 / 2 ^ 53)"
proof -
  have nc: "c \<noteq> 0" using assms(2) by simp
  obtain y where y: "rnd (m / c) = Fin y" "n = \<lfloor>y\<rfloor>"
    using assms(1) nc by (cases "rnd (m / c)") (auto simp: floor_quot_def split: if_splits)
  then have n: "n = \<lfloor>fl (m / c)\<rfloor>" by (simp add: rnd_Fin_iff)
  have ge: "of_int n \<le> fl (m / c)" using n by simp
  then have one: "1 \<le> fl (m / c)" using assms(3) by (meson of_int_1_le_iff order_trans)
  have "2 powi (- 1022) \<le> m / c"
  proof (rule ccontr)
    assume "\<not> 2 powi (- 1022) \<le> m / c"
    then have "fl (m / c) \<le> fl (2 powi (- 1022))" by (intro fl_mono) simp
    also have "\<dots> = 2 powi (- 1022)" by (rule fl_fixed_pow2) simp
    also have "\<dots> < 2 powi 0" by (simp only: pow2_less_iff)
    finally show False using one by simp
  qed
  moreover have pos: "0 < m / c" by (rule less_le_trans[OF pow2_pos \<open>2 powi (- 1022) \<le> m / c\<close>])
  ultimately have big: "2 powi (- 1022) \<le> \<bar>m / c\<bar>" by (simp only: abs_of_pos)
  have "fl (m / c) \<le> m / c + m / c / 2 ^ 53" using fl_rel_error[OF big] pos by simp
  then have "of_int n \<le> m / c * (1 + 1 / 2 ^ 53)" using ge by (simp add: distrib_left)
  then have "of_int n * c \<le> m / c * (1 + 1 / 2 ^ 53) * c" using assms(2) by (intro mult_right_mono) simp_all
  then show ?thesis using nc by (simp add: mult.assoc mult.commute)
qed

lemma positive_product:
  assumes "flt (Fin 0) p" "0 < n" "fmul p (fint n) = Fin c"
  shows "0 \<le> c"
proof -
  have "fle (Fin 0) (fint n)" using fint_mono[of 0 n] assms(2) by simp
  then show ?thesis using assms
    by (cases p; cases "fint n") (auto simp: rnd_Fin_iff fl_nonneg finf_def split: if_splits)
qed

text \<open>
  C27. A sized trade respects every limit: between one lot and the maximum, a whole number of lots,
  its premium within the capital limit and its loss at the structural stop within the risk budget,
  both up to the rounding of one float division.
\<close>

theorem sizing_within_limits:
  assumes "size_trade cfg entry stop delta lot_size price equity fallback = Inr e" "re_lots e \<noteq> 0"
    and "fmul price (fint lot_size) = Fin c" "rk_max_trade_capital cfg = Fin m"
    and "re_option_loss_per_lot e = Fin l" "re_risk_budget e = Fin b"
  shows "1 \<le> re_lots e \<and> re_lots e \<le> rk_max_lots_per_trade cfg \<and> re_quantity e = re_lots e * lot_size
    \<and> of_int (re_lots e) * c \<le> m * (1 + 1 / 2 ^ 53) \<and> of_int (re_lots e) * l \<le> b * (1 + 1 / 2 ^ 53)"
proof -
  obtain meth where est: "estimate_option_loss_per_lot entry stop delta lot_size price (Fin 1) fallback = Inr (Fin l, meth)"
    using assms(1,2,5) by (auto simp: size_trade_def Let_def split: sum.splits prod.splits if_splits)
  obtain cl rl where q: "floor_quot (Fin m) (Fin c) = Inr cl" "floor_quot (Fin b) (Fin l) = Inr rl" "0 < l"
      "re_lots e = min (min cl rl) (rk_max_lots_per_trade cfg)" "1 \<le> re_lots e" "re_quantity e = re_lots e * lot_size"
    using assms est by (auto simp: size_trade_def Let_def linorder_not_less split: sum.splits if_splits)
  have "0 < lot_size" "\<not> fle price (Fin 0)"
    using est by (auto simp: estimate_option_loss_per_lot_def Let_def not_positive_def split: if_splits)
  moreover have "price \<noteq> NaN" using assms(3) by (cases "fint lot_size") auto
  ultimately have "0 \<le> c" using positive_product[OF _ _ assms(3)] by (simp add: not_fle_iff)
  moreover have "c \<noteq> 0" using q(1) by (auto simp: floor_quot_def)
  ultimately have "of_int cl * c \<le> m * (1 + 1 / 2 ^ 53)" "of_int rl * l \<le> b * (1 + 1 / 2 ^ 53)" "0 < c"
    using floor_quot_bound[OF q(1)] floor_quot_bound[OF q(2)] q(3-5) by simp_all
  moreover have "of_int (re_lots e) * c \<le> of_int cl * c" "of_int (re_lots e) * l \<le> of_int rl * l"
    using q(3,4) \<open>0 < c\<close> by (auto intro: mult_right_mono)
  ultimately show ?thesis using q(4-6) by linarith
qed

definition demo_estimate :: risk_estimate where
  "demo_estimate = \<lparr>re_underlying_r = Fin 5, re_option_loss_per_lot = Fin 500, re_risk_budget = Fin 2500,
     re_lots = 5, re_quantity = 500, re_method = ''DELTA_APPROXIMATION'', re_rejection_reason = None\<rparr>"

lemma demo_size:
  "size_trade default_risk_limits (Fin 100) (Fin 95) (Some (Fin 1)) 100 (Fin 50) None None = Inr demo_estimate"
  by (simp add: size_trade_def estimate_option_loss_per_lot_def default_risk_limits_def opt_or_def f_or_def ftrue_def
      not_positive_def quot_def float_eval floor_quot_def demo_estimate_def Let_def)

theorem sizing_within_limits_witness:
  "re_lots demo_estimate \<le> 100 \<and> of_int (re_lots demo_estimate) * (5000 :: rat) \<le> 50000 * (1 + 1 / 2 ^ 53)"
  using sizing_within_limits[OF demo_size, of 5000 50000 500 2500]
  by (simp add: demo_estimate_def default_risk_limits_def float_eval)

text \<open>
  The first target closes half of the position in whole lots, once: when the signal asks for the
  partial exit of a position of at least two whole lots and the exit fills, the filled and the remaining
  quantities are positive whole lots that add up to the original, the filled one at most half; filling
  again changes nothing.
\<close>

theorem t1_partial_conserves:
  assumes "0 < tr_lot_size t" "tr_partial_filled t = 0" "int_or (tr_initial_quantity t) (tr_quantity t) = k * tr_lot_size t"
    and "2 \<le> k" "flt (Fin 0) bid" "flt (Fin 0) price"
    and "take_t1 entry r mark t = (t1, v)"
  shows "\<exists>t2. apply_t1_partial_fill bid price slip now t1 = Inr t2
    \<and> tr_quantity t2 + tr_partial_filled t2 = k * tr_lot_size t
    \<and> tr_lot_size t dvd tr_partial_filled t2 \<and> tr_lot_size t dvd tr_quantity t2
    \<and> 0 < tr_partial_filled t2 \<and> 2 * tr_partial_filled t2 \<le> k * tr_lot_size t \<and> tr_lots t2 * tr_lot_size t = tr_quantity t2
    \<and> (tr_initial_quantity t = Some (k * tr_lot_size t) \<longrightarrow> apply_t1_partial_fill bid price slip now t2 = Inr t2)"
proof -
  let ?l = "tr_lot_size t" and ?p = "k div 2"
  have k: "k * ?l div ?l = k" "1 \<le> ?p" "2 * ?p \<le> k" using assms(1,4) by auto
  have t1: "tr_t1_exit_quantity t1 = ?p * ?l" "tr_partial_filled t1 = 0" "tr_lot_size t1 = ?l"
    "tr_initial_quantity t1 = tr_initial_quantity t" "tr_quantity t1 = tr_quantity t"
    using assms k by (auto simp: take_t1_def Let_def split: if_splits)
  have pos: "0 < ?p * ?l" and le: "?p * ?l \<le> k * ?l" using assms(1) k by (auto intro: mult_right_mono)
  have two: "2 * (?p * ?l) \<le> k * ?l" using mult_right_mono[OF k(3), of ?l] assms(1) by simp
  have np: "\<not> not_positive bid" "\<not> not_positive price"
    using assms(5,6) flt_not_NaN[OF assms(5)] flt_not_NaN[OF assms(6)] by (simp_all add: not_positive_def not_fle_iff)
  have cond: "\<not> ?p * ?l \<le> 0" "?p * ?l mod ?l = 0" "?l \<noteq> 0" "\<not> 0 + ?p * ?l > k * ?l"
    "(k - ?p) * ?l div ?l = k - ?p"
    using pos le assms(1) by auto
  have rem: "k * ?l - ?p * ?l = (k - ?p) * ?l" by (simp add: algebra_simps)
  obtain t2 where t2: "apply_t1_partial_fill bid price slip now t1 = Inr t2" "tr_partial_filled t2 = ?p * ?l"
    "tr_quantity t2 = (k - ?p) * ?l" "tr_lots t2 = k - ?p" "tr_t1_exit_quantity t2 = ?p * ?l" "tr_lot_size t2 = ?l"
    "tr_initial_quantity t2 = tr_initial_quantity t"
    using cond np t1 assms(3) rem by (auto simp: apply_t1_partial_fill_def Let_def)
  have "apply_t1_partial_fill bid price slip now t2 = Inr t2" if "tr_initial_quantity t = Some (k * ?l)"
  proof -
    have "k * ?l \<noteq> 0" using pos le by linarith
    then have "int_or (Some (k * ?l)) q = k * ?l" for q by (simp add: int_or_def)
    moreover have "\<not> k * ?l < 2 * (?l * ?p)" using two mult.commute[of ?l ?p] by linarith
    ultimately show ?thesis using that cond np t2(2-7) two pos by (simp add: apply_t1_partial_fill_def Let_def)
  qed
  moreover have "(k - ?p) * ?l + ?p * ?l = k * ?l" using rem by simp
  ultimately show ?thesis using t2 pos two by (intro exI[of _ t2]) simp
qed

theorem t1_partial_conserves_witness:
  "\<exists>t2. tr_quantity t2 + tr_partial_filled t2 = 150 \<and> 0 < tr_partial_filled t2
    \<and> apply_t1_partial_fill (Fin 70) (Fin 69) (Fin 1) 0 (fst (take_t1 (Fin 100) (Fin 10) (Fin 120) demo_trade)) = Inr t2"
proof -
  obtain t1 v where t: "take_t1 (Fin 100) (Fin 10) (Fin 120) demo_trade = (t1, v)" by fastforce
  have d: "0 < tr_lot_size demo_trade" "tr_partial_filled demo_trade = 0"
    "int_or (tr_initial_quantity demo_trade) (tr_quantity demo_trade) = 2 * tr_lot_size demo_trade"
    by (simp_all add: demo_trade_def int_or_def)
  from t1_partial_conserves[OF d _ _ _ t, of "Fin 70" "Fin 69" "Fin 1" 0] show ?thesis
    using t by (auto simp: demo_trade_def)
qed

end
