(* ===== verification/Idempotency.thy ===== *)
theory Idempotency imports Contracts begin

text \<open>
  The idempotency engine of the API gateway, \<^verbatim>\<open>services/api_gateway/idempotency.py\<close>.  A stored JSON
  text is kept as the value it encodes.  The SHA-256 digest, the rendering of the request body and
  the command itself are arguments: \<open>digest\<close> is any function, so nothing below rests on collisions
  being impossible.  A claim is a SELECT in autocommit mode followed by a write transaction; the two
  are separate definitions, so that two requests can be interleaved between them.
\<close>

section \<open>The table\<close>

datatype json = JNull | JBool bool | JInt int | JFloat pyfloat | JString string | JArray "json list"
  | JObject "(string \<times> json) list"

datatype row_status = InProgress | Completed

record idem_row =
  ir_key :: string
  ir_user_id :: string
  ir_request_path :: string
  ir_request_hash :: string
  ir_status :: row_status
  ir_response_code :: "int option"
  ir_response_headers :: "(string \<times> string) list option"
  ir_response_body :: "json option"
  ir_created_at :: timestamp
  ir_expires_at :: timestamp

type_synonym idem_db = "idem_row list"

text \<open>\<^verbatim>\<open>ON CONFLICT \<dots> DO UPDATE\<close> sets every column but the key.\<close>

definition merge_claim :: "idem_row \<Rightarrow> idem_row \<Rightarrow> idem_row" where
  "merge_claim old new = new\<lparr>ir_key := ir_key old\<rparr>"

interpretation idem_table: keyed_table ir_key merge_claim
  by unfold_locales (simp add: merge_claim_def)

record cached_response =
  cr_code :: "int option"
  cr_body :: "json option"
  cr_headers :: "(string \<times> string) list"

datatype claim_result = CLAIMED | COMPLETED_WITH cached_response | IN_PROGRESS | MISMATCH

definition compute_request_hash :: "(string \<Rightarrow> string) \<Rightarrow> string \<Rightarrow> string \<Rightarrow> string \<Rightarrow> string \<Rightarrow> string" where
  "compute_request_hash digest user_id meth path body =
     digest (user_id @ '':'' @ to_upper meth @ '':'' @ path @ '':'' @ body)"

section \<open>Repository operations\<close>

text \<open>What the SELECT decides: an answer, or to go on and claim (deleting an expired row first).\<close>

definition claim_select :: "timestamp \<Rightarrow> string \<Rightarrow> string \<Rightarrow> idem_db \<Rightarrow> claim_result option" where
  "claim_select now key request_hash db =
     (case row_get ir_key key db of
        None \<Rightarrow> None
      | Some row \<Rightarrow>
          if ir_expires_at row < now then None
          else if ir_request_hash row \<noteq> request_hash then Some MISMATCH
          else (case ir_status row of
             Completed \<Rightarrow> Some (COMPLETED_WITH \<lparr>cr_code = ir_response_code row, cr_body = ir_response_body row,
                 cr_headers = (case ir_response_headers row of None \<Rightarrow> [] | Some hs \<Rightarrow> hs)\<rparr>)
           | InProgress \<Rightarrow> Some IN_PROGRESS))"

definition claim_row :: "timestamp \<Rightarrow> string \<Rightarrow> string \<Rightarrow> string \<Rightarrow> string \<Rightarrow> int \<Rightarrow> idem_row" where
  "claim_row now key user_id path request_hash ttl_seconds =
     \<lparr>ir_key = key, ir_user_id = user_id, ir_request_path = path, ir_request_hash = request_hash,
      ir_status = InProgress, ir_response_code = None, ir_response_headers = None, ir_response_body = None,
      ir_created_at = now, ir_expires_at = now + seconds ttl_seconds\<rparr>"

definition is_expired :: "timestamp \<Rightarrow> string \<Rightarrow> idem_db \<Rightarrow> bool" where
  "is_expired now key db = (case row_get ir_key key db of None \<Rightarrow> False | Some row \<Rightarrow> ir_expires_at row < now)"

definition claim_write :: "bool \<Rightarrow> timestamp \<Rightarrow> string \<Rightarrow> string \<Rightarrow> string \<Rightarrow> string \<Rightarrow> int \<Rightarrow> idem_db \<Rightarrow> idem_db" where
  "claim_write expired now key user_id path request_hash ttl_seconds db =
     row_upsert ir_key merge_claim (claim_row now key user_id path request_hash ttl_seconds)
       (if expired then row_delete ir_key key db else db)"

definition claim_or_get ::
  "timestamp \<Rightarrow> string \<Rightarrow> string \<Rightarrow> string \<Rightarrow> string \<Rightarrow> int \<Rightarrow> idem_db \<Rightarrow> claim_result \<times> idem_db" where
  "claim_or_get now key user_id path request_hash ttl_seconds db =
     (case claim_select now key request_hash db of
        Some answer \<Rightarrow> (answer, db)
      | None \<Rightarrow> (CLAIMED, claim_write (is_expired now key db) now key user_id path request_hash ttl_seconds db))"

definition save_completion :: "string \<Rightarrow> int \<Rightarrow> json \<Rightarrow> (string \<times> string) list \<Rightarrow> idem_db \<Rightarrow> idem_db" where
  "save_completion key code body headers db = row_update ir_key key (\<lambda>r. r\<lparr>ir_status := Completed,
     ir_response_code := Some code, ir_response_headers := Some headers, ir_response_body := Some body\<rparr>) db"

definition release_claim :: "string \<Rightarrow> idem_db \<Rightarrow> idem_db" where
  "release_claim key db = row_delete ir_key key db"

definition cleanup_expired :: "timestamp \<Rightarrow> idem_db \<Rightarrow> nat \<times> idem_db" where
  "cleanup_expired now db =
     (length (filter (\<lambda>r. ir_expires_at r < now) db), filter (\<lambda>r. \<not> ir_expires_at r < now) db)"

section \<open>The command wrapper\<close>

text \<open>
  \<^verbatim>\<open>^[a-zA-Z0-9_\-\.]{1,128}$\<close> with \<^verbatim>\<open>match\<close>: the dollar also matches before a final newline.
\<close>

definition key_char :: "char \<Rightarrow> bool" where
  "key_char c = (let n = of_char c :: nat in
     48 \<le> n \<and> n \<le> 57 \<or> 65 \<le> n \<and> n \<le> 90 \<or> 97 \<le> n \<and> n \<le> 122 \<or> c \<in> {CHR ''_'', CHR ''-'', CHR ''.''})"

definition newline :: char where "newline = char_of (10 :: nat)"

definition valid_key :: "string \<Rightarrow> bool" where
  "valid_key key =
     (let k = (if key \<noteq> [] \<and> last key = newline then butlast key else key)
      in k \<noteq> [] \<and> length k \<le> 128 \<and> list_all key_char k)"

datatype reply = JSONResponse int json "(string \<times> string) list" | HTTPError int | CommandFailed string

record command =
  cm_key :: "string option"
  cm_user_id :: string
  cm_method :: string
  cm_path :: string
  cm_body :: string
  cm_ttl_seconds :: int

text \<open>The state: the table, the state \<open>'w\<close> the commands act on, and the audit events published.\<close>

record 'w gateway_state =
  gs_db :: idem_db
  gs_world :: 'w
  gs_audit :: "(string \<times> string \<times> string) list"

definition finish_claimed :: "string \<Rightarrow> string + json \<Rightarrow> idem_db \<Rightarrow> reply \<times> idem_db" where
  "finish_claimed key result db =
     (case result of
        Inr v \<Rightarrow> (JSONResponse 200 v [(''Idempotency-Key'', key)],
                  save_completion key 200 v [(''Content-Type'', ''application/json'')] db)
      | Inl exc \<Rightarrow> (CommandFailed exc, release_claim key db))"

definition replayed :: "string \<Rightarrow> cached_response \<Rightarrow> reply" where
  "replayed key cached = JSONResponse
     (case cr_code cached of None \<Rightarrow> 200 | Some c \<Rightarrow> if c = 0 then 200 else c)
     (case cr_body cached of None \<Rightarrow> JNull | Some b \<Rightarrow> b)
     [(''X-Idempotency-Replay'', ''true''), (''Idempotency-Key'', key)]"

definition execute_idempotent_command ::
  "(string \<Rightarrow> string) \<Rightarrow> timestamp \<Rightarrow> command \<Rightarrow> ('w \<Rightarrow> (string + json) \<times> 'w) \<Rightarrow> 'w gateway_state \<Rightarrow> reply \<times> 'w gateway_state" where
  "execute_idempotent_command digest now c run s =
     (case cm_key c of
        None \<Rightarrow> (let (result, w) = run (gs_world s) in
          ((case result of Inr v \<Rightarrow> JSONResponse 200 v [] | Inl exc \<Rightarrow> CommandFailed exc), s\<lparr>gs_world := w\<rparr>))
      | Some key \<Rightarrow>
          if key = [] then (let (result, w) = run (gs_world s) in
            ((case result of Inr v \<Rightarrow> JSONResponse 200 v [] | Inl exc \<Rightarrow> CommandFailed exc), s\<lparr>gs_world := w\<rparr>))
          else if \<not> valid_key key then (HTTPError 400, s)
          else
            (let request_hash = compute_request_hash digest (cm_user_id c) (cm_method c) (cm_path c) (cm_body c);
                 (claim, db) = claim_or_get now key (cm_user_id c) (cm_path c) request_hash (cm_ttl_seconds c) (gs_db s)
             in case claim of
                  COMPLETED_WITH cached \<Rightarrow> (replayed key cached, s\<lparr>gs_db := db\<rparr>)
                | IN_PROGRESS \<Rightarrow> (HTTPError 409, s\<lparr>gs_db := db\<rparr>)
                | MISMATCH \<Rightarrow> (HTTPError 422, s\<lparr>gs_db := db,
                    gs_audit := gs_audit s @ [(key, cm_user_id c, cm_path c)]\<rparr>)
                | CLAIMED \<Rightarrow>
                    (let (result, w) = run (gs_world s); (rep, db') = finish_claimed key result db
                     in (rep, s\<lparr>gs_db := db', gs_world := w\<rparr>))))"

section \<open>A completed command\<close>

definition holds_answer :: "string \<Rightarrow> string \<Rightarrow> json \<Rightarrow> timestamp \<Rightarrow> idem_db \<Rightarrow> bool" where
  "holds_answer key h v e db \<longleftrightarrow>
     (\<exists>r. row_get ir_key key db = Some r \<and> ir_status r = Completed \<and> ir_request_hash r = h
        \<and> ir_response_body r = Some v \<and> ir_response_code r = Some 200 \<and> ir_expires_at r = e)"

lemma holds_cong: "row_get ir_key key db' = row_get ir_key key db \<Longrightarrow> holds_answer key h v e db' = holds_answer key h v e db"
  by (simp add: holds_answer_def)

lemma claim_other: "key \<noteq> k \<Longrightarrow> row_get ir_key key (snd (claim_or_get now k u p h ttl db)) = row_get ir_key key db"
  by (auto simp: claim_or_get_def claim_write_def claim_row_def idem_table.get_upsert_other idem_table.get_delete split: option.splits)

lemma finish_other: "key \<noteq> k \<Longrightarrow> row_get ir_key key (snd (finish_claimed k res db)) = row_get ir_key key db"
  by (auto simp: finish_claimed_def save_completion_def release_claim_def idem_table.get_delete idem_table.get_update_other
      split: sum.splits)

lemma claim_answered:
  assumes "holds_answer key h v e db" "now \<le> e"
  shows "claim_or_get now key u p h' ttl db =
    (if h' = h then COMPLETED_WITH \<lparr>cr_code = Some 200, cr_body = Some v,
        cr_headers = (case row_get ir_key key db of None \<Rightarrow> [] | Some r \<Rightarrow>
          (case ir_response_headers r of None \<Rightarrow> [] | Some hs \<Rightarrow> hs))\<rparr> else MISMATCH, db)"
  using assms by (auto simp: holds_answer_def claim_or_get_def claim_select_def)

lemma answered_unclaimed: "holds_answer key h v e db \<Longrightarrow> now \<le> e \<Longrightarrow> fst (claim_or_get now key u p h' ttl db) \<noteq> CLAIMED"
  by (simp add: claim_answered)

text \<open>The row a claim leaves behind, and what finishing it with a value makes of it.\<close>

lemma claimed_row:
  assumes "fst (claim_or_get now key u p h ttl db) = CLAIMED"
  shows "row_get ir_key key (snd (claim_or_get now key u p h ttl db)) = Some (claim_row now key u p h ttl)"
proof -
  have none: "claim_select now key h db = None"
    using assms by (auto simp: claim_or_get_def claim_select_def split: option.splits if_splits row_status.splits)
  have k: "ir_key (claim_row now key u p h ttl) = key" by (simp add: claim_row_def)
  have "row_get ir_key key (row_upsert ir_key merge_claim (claim_row now key u p h ttl) d) = Some (claim_row now key u p h ttl)" for d
    using idem_table.get_upsert_same[of "claim_row now key u p h ttl" d] k
    by (auto simp: merge_claim_def claim_row_def dest!: row_get_SomeD split: option.splits)
  then show ?thesis using none by (simp add: claim_or_get_def claim_write_def)
qed

lemma finish_holds:
  assumes "row_get ir_key key db = Some (claim_row now key u p h ttl)"
  shows "holds_answer key h v (now + seconds ttl) (snd (finish_claimed key (Inr v) db))"
  using assms
  by (simp add: finish_claimed_def save_completion_def holds_answer_def idem_table.get_update_same) (simp add: claim_row_def)

section \<open>Runs\<close>

datatype 'w idem_op = RunCommand timestamp command "'w \<Rightarrow> (string + json) \<times> 'w" | Cleanup timestamp

fun op_time :: "'w idem_op \<Rightarrow> timestamp" where
  "op_time (RunCommand t c run) = t"
| "op_time (Cleanup t) = t"

fun idem_step :: "(string \<Rightarrow> string) \<Rightarrow> 'w idem_op \<Rightarrow> 'w gateway_state \<Rightarrow> 'w gateway_state" where
  "idem_step digest (RunCommand t c run) s = snd (execute_idempotent_command digest t c run s)"
| "idem_step digest (Cleanup t) s = s\<lparr>gs_db := snd (cleanup_expired t (gs_db s))\<rparr>"

lemma command_db:
  obtains (same) "gs_db (snd (execute_idempotent_command digest now c run s)) = gs_db s"
  | (claim) key h where "cm_key c = Some key"
      "gs_db (snd (execute_idempotent_command digest now c run s))
        = snd (claim_or_get now key (cm_user_id c) (cm_path c) h (cm_ttl_seconds c) (gs_db s))"
      "fst (claim_or_get now key (cm_user_id c) (cm_path c) h (cm_ttl_seconds c) (gs_db s)) \<noteq> CLAIMED"
  | (run) key h where "cm_key c = Some key"
      "fst (claim_or_get now key (cm_user_id c) (cm_path c) h (cm_ttl_seconds c) (gs_db s)) = CLAIMED"
      "gs_db (snd (execute_idempotent_command digest now c run s))
        = snd (finish_claimed key (fst (run (gs_world s)))
            (snd (claim_or_get now key (cm_user_id c) (cm_path c) h (cm_ttl_seconds c) (gs_db s))))"
proof (cases "\<exists>key. cm_key c = Some key \<and> key \<noteq> [] \<and> valid_key key")
  case False
  then have "gs_db (snd (execute_idempotent_command digest now c run s)) = gs_db s"
    by (auto simp: execute_idempotent_command_def split: option.splits prod.splits)
  then show ?thesis by (rule same)
next
  case True
  then obtain key where k: "cm_key c = Some key" "key \<noteq> []" "valid_key key" by blast
  let ?h = "compute_request_hash digest (cm_user_id c) (cm_method c) (cm_path c) (cm_body c)"
  let ?cl = "claim_or_get now key (cm_user_id c) (cm_path c) ?h (cm_ttl_seconds c) (gs_db s)"
  show ?thesis
  proof (cases "fst ?cl = CLAIMED")
    case True
    obtain db res w rep db' where p: "?cl = (CLAIMED, db)" "run (gs_world s) = (res, w)" "finish_claimed key res db = (rep, db')"
      using True by (metis prod.collapse)
    then show ?thesis using run[OF k(1) True] k by (simp add: execute_idempotent_command_def Let_def)
  next
    case False
    then have "gs_db (snd (execute_idempotent_command digest now c run s)) = snd ?cl"
      using k by (cases "fst ?cl") (auto simp: execute_idempotent_command_def Let_def split: prod.splits)
    then show ?thesis using claim[OF k(1) _ False] by simp
  qed
qed

lemma step_keeps:
  assumes h: "holds_answer key h v e (gs_db s)" and t: "op_time op \<le> e"
  shows "holds_answer key h v e (gs_db (idem_step digest op s))"
proof (cases op)
  case (Cleanup now)
  have "row_get ir_key key (filter (\<lambda>r. \<not> ir_expires_at r < now) rows) = Some r"
    if "row_get ir_key key rows = Some r" "\<not> ir_expires_at r < now" for rows r
    using that by (induction rows) (auto split: if_splits)
  then obtain r where "row_get ir_key key (snd (cleanup_expired now (gs_db s))) = Some r" "row_get ir_key key (gs_db s) = Some r"
    using h t by (auto simp: Cleanup cleanup_expired_def holds_answer_def linorder_not_less)
  then show ?thesis using h by (simp add: Cleanup holds_answer_def)
next
  case (RunCommand now c run)
  show ?thesis
  proof (cases rule: command_db[of digest now c run s])
    case same
    then show ?thesis using h by (simp add: RunCommand)
  next
    case (claim k h')
    then show ?thesis using h t claim_answered[OF h, of now] holds_cong[OF claim_other]
      by (cases "k = key") (auto simp: RunCommand)
  next
    case (run k h')
    have "k \<noteq> key" using run(2) answered_unclaimed[OF h] t by (auto simp: RunCommand)
    then show ?thesis using h holds_cong[OF finish_other] holds_cong[OF claim_other] run(3) by (simp add: RunCommand)
  qed
qed

lemma run_keeps:
  "holds_answer key h v e (gs_db s) \<Longrightarrow> list_all (\<lambda>op. op_time op \<le> e) ops \<Longrightarrow>
   holds_answer key h v e (gs_db (fold (idem_step digest) ops s))"
  by (induction ops arbitrary: s) (simp_all add: step_keeps)

section \<open>Properties\<close>

text \<open>
  C40. A command that succeeded under an idempotency key is executed once: whatever other commands and
  clean-ups run until its record expires, the same request under the key is answered with the same
  value and nothing is executed, and a different request under the key is refused with 422 and not
  executed either.
\<close>

theorem idempotent_replay:
  assumes "cm_key c = Some key" "valid_key key"
    and "execute_idempotent_command digest t0 c run s = (JSONResponse 200 v [(''Idempotency-Key'', key)], s1)"
    and "list_all (\<lambda>op. op_time op \<le> t0 + seconds (cm_ttl_seconds c)) ops" "t \<le> t0 + seconds (cm_ttl_seconds c)"
    and "cm_key c' = Some key"
  shows "let s2 = fold (idem_step digest) ops s1;
      hash = (\<lambda>c. compute_request_hash digest (cm_user_id c) (cm_method c) (cm_path c) (cm_body c));
      (rep, s3) = execute_idempotent_command digest t c' run' s2
    in (if hash c' = hash c then rep = JSONResponse 200 v [(''X-Idempotency-Replay'', ''true''), (''Idempotency-Key'', key)]
        else rep = HTTPError 422) \<and> gs_world s3 = gs_world s2 \<and> gs_db s3 = gs_db s2"
proof -
  let ?hash = "\<lambda>c. compute_request_hash digest (cm_user_id c) (cm_method c) (cm_path c) (cm_body c)"
  let ?cl = "claim_or_get t0 key (cm_user_id c) (cm_path c) (?hash c) (cm_ttl_seconds c) (gs_db s)"
  have ne: "key \<noteq> []" using assms(2) by (auto simp: valid_key_def)
  obtain db res w where p: "?cl = (CLAIMED, db)" "run (gs_world s) = (res, w)" "res = Inr v"
      "gs_db s1 = snd (finish_claimed key res db)"
    using assms(1-3) ne
    by (auto simp: execute_idempotent_command_def Let_def replayed_def finish_claimed_def
        split: prod.splits claim_result.splits sum.splits)
  have "holds_answer key (?hash c) v (t0 + seconds (cm_ttl_seconds c)) (gs_db s1)"
    using finish_holds claimed_row[of t0 key "cm_user_id c" "cm_path c" "?hash c" "cm_ttl_seconds c" "gs_db s"] p by simp
  note h = run_keeps[OF this assms(4), of digest]
  show ?thesis
    using assms(2,6) ne claim_answered[OF h assms(5), of "cm_user_id c'" "cm_path c'" "?hash c'" "cm_ttl_seconds c'"]
    by (simp add: execute_idempotent_command_def replayed_def Let_def)
qed

definition demo_command :: "string \<Rightarrow> command" where
  "demo_command body = \<lparr>cm_key = Some ''k-1'', cm_user_id = ''u'', cm_method = ''post'', cm_path = ''/orders'',
     cm_body = body, cm_ttl_seconds = 60\<rparr>"

definition demo_run :: "nat \<Rightarrow> (string + json) \<times> nat" where
  "demo_run w = (Inr (JInt 7), Suc w)"

definition demo_start :: "nat gateway_state" where
  "demo_start = \<lparr>gs_db = [], gs_world = 0, gs_audit = []\<rparr>"

definition demo_after :: "nat gateway_state" where
  "demo_after = snd (execute_idempotent_command id 0 (demo_command ''a'') demo_run demo_start)"

lemma demo_executed_once:
  "execute_idempotent_command id 0 (demo_command ''a'') demo_run demo_start
   = (JSONResponse 200 (JInt 7) [(''Idempotency-Key'', ''k-1'')], demo_after)"
  "gs_world demo_after = 1" "valid_key ''k-1''"
  unfolding demo_after_def by code_simp+

theorem idempotent_replay_witness:
  "gs_world (snd (execute_idempotent_command id 30000000 (demo_command ''a'') demo_run
     (fold (idem_step id) [Cleanup 20000000] demo_after))) = 1
   \<and> fst (execute_idempotent_command id 30000000 (demo_command ''b'') demo_run
     (fold (idem_step id) [Cleanup 20000000] demo_after)) = HTTPError 422"
proof -
  have k: "cm_key (demo_command b) = Some ''k-1''" "cm_ttl_seconds (demo_command b) = 60" for b
    by (simp_all add: demo_command_def)
  have h: "compute_request_hash id (cm_user_id (demo_command ''b'')) (cm_method (demo_command ''b'')) (cm_path (demo_command ''b''))
      (cm_body (demo_command ''b'')) \<noteq> compute_request_hash id (cm_user_id (demo_command ''a'')) (cm_method (demo_command ''a''))
      (cm_path (demo_command ''a'')) (cm_body (demo_command ''a''))"
    by (simp add: compute_request_hash_def demo_command_def)
  note r = idempotent_replay[OF k(1) demo_executed_once(3,1), of "[Cleanup 20000000]" 30000000, unfolded k, simplified]
  have w: "gs_world (idem_step id (Cleanup 20000000) demo_after) = 1" using demo_executed_once(2) by simp
  show ?thesis using r[OF k(1)[of "''a''"], of demo_run] r[OF k(1)[of "''b''"], of demo_run] w h
    by (simp add: case_prod_beta Let_def)
qed

text \<open>
  The claim is not atomic: when two requests under a fresh key both run their SELECT before either
  writes, both go on to claim, and the second write overwrites the claim of the first.
\<close>

lemma claim_race:
  assumes "row_get ir_key key db = None"
  shows "claim_select t1 key h1 db = None" "claim_select t2 key h2 db = None"
    and "row_get ir_key key (claim_write False t2 key u2 p2 h2 ttl (claim_write False t1 key u1 p1 h1 ttl db))
      = Some (claim_row t2 key u2 p2 h2 ttl)"
proof -
  show "claim_select t1 key h1 db = None" "claim_select t2 key h2 db = None" using assms by (simp_all add: claim_select_def)
  have k: "ir_key (claim_row t key u p h ttl) = key" for t u p h by (simp add: claim_row_def)
  show "row_get ir_key key (claim_write False t2 key u2 p2 h2 ttl (claim_write False t1 key u1 p1 h1 ttl db))
      = Some (claim_row t2 key u2 p2 h2 ttl)"
    using idem_table.get_upsert_same[of "claim_row t2 key u2 p2 h2 ttl"] k
    by (auto simp: claim_write_def merge_claim_def claim_row_def dest!: row_get_SomeD split: option.splits)
qed

text \<open>A key with a final newline passes the format check.\<close>

lemma newline_key_accepted: "valid_key (''k1'' @ [newline])"
  by code_simp

end
