(* ===== verification/Candles.thy ===== *)
theory Candles imports StrategyModels begin

text \<open>
  The candle builder, \<^verbatim>\<open>services/market_data/candle_builder.py\<close>: quotes of many instruments are
  aggregated into bars of a fixed number of minutes.  A quote's \<^verbatim>\<open>datetime\<close> has a UTC offset, which is
  the argument \<open>offset\<close> (in microseconds); the minute of the hour is that of its own wall clock.
\<close>

record bar =
  ba_start_time :: timestamp
  ba_open :: pyfloat
  ba_high :: pyfloat
  ba_low :: pyfloat
  ba_close :: pyfloat
  ba_volume :: int
  ba_open_interest :: int
  ba_source :: string

record candle_builder =
  cb_interval_minutes :: int
  cb_current_candles :: "string \<Rightarrow> bar option"
  cb_last_quotes :: "string \<Rightarrow> quote option"

definition builder_init :: "int \<Rightarrow> candle_builder" where
  "builder_init interval_minutes = \<lparr>cb_interval_minutes = interval_minutes,
     cb_current_candles = (\<lambda>i. None), cb_last_quotes = (\<lambda>i. None)\<rparr>"

text \<open>\<^verbatim>\<open>dt.replace(minute=(dt.minute // n) * n, second=0, microsecond=0)\<close>, for a positive \<open>n\<close>.\<close>

definition get_bar_start :: "int \<Rightarrow> int \<Rightarrow> timestamp \<Rightarrow> timestamp" where
  "get_bar_start offset interval_minutes t =
     (let wall = t + offset; hour = wall div minutes 60; minute = (wall div minutes 1) mod 60
      in minutes (60 * hour + (minute div interval_minutes) * interval_minutes) - offset)"

definition volume_delta :: "quote option \<Rightarrow> quote \<Rightarrow> int" where
  "volume_delta previous q =
     (case previous of None \<Rightarrow> 0 | Some p \<Rightarrow>
        if qt_source p = qt_source q \<and> ist_date (qt_timestamp p) = ist_date (qt_timestamp q)
        then max 0 (qt_volume q - qt_volume p) else 0)"

definition first_bar :: "timestamp \<Rightarrow> int \<Rightarrow> quote \<Rightarrow> bar" where
  "first_bar start delta q = \<lparr>ba_start_time = start, ba_open = qt_last_price q, ba_high = qt_last_price q,
     ba_low = qt_last_price q, ba_close = qt_last_price q, ba_volume = delta,
     ba_open_interest = qt_open_interest q, ba_source = qt_source q\<rparr>"

definition extend_bar :: "int \<Rightarrow> quote \<Rightarrow> bar \<Rightarrow> bar" where
  "extend_bar delta q b = b\<lparr>ba_high := pmax (ba_high b) (qt_last_price q), ba_low := pmin (ba_low b) (qt_last_price q),
     ba_close := qt_last_price q, ba_volume := ba_volume b + delta, ba_open_interest := qt_open_interest q\<rparr>"

definition finished :: "int \<Rightarrow> string \<Rightarrow> bar \<Rightarrow> candle" where
  "finished interval_minutes inst b = \<lparr>ca_instrument_id = inst, ca_interval = show_int interval_minutes @ ''m'',
     ca_start_time = ba_start_time b, ca_end_time = ba_start_time b + minutes interval_minutes,
     ca_open = ba_open b, ca_high = ba_high b, ca_low = ba_low b, ca_close = ba_close b, ca_volume = ba_volume b,
     ca_open_interest = ba_open_interest b, ca_source = ba_source b\<rparr>"

definition process_quote :: "int \<Rightarrow> quote \<Rightarrow> candle_builder \<Rightarrow> candle option \<times> candle_builder" where
  "process_quote offset q s =
     (let start = get_bar_start offset (cb_interval_minutes s) (qt_timestamp q);
          inst = qt_instrument_id q;
          previous = cb_last_quotes s inst in
      if (case previous of None \<Rightarrow> False | Some p \<Rightarrow> qt_timestamp q \<le> qt_timestamp p) then (None, s) else
      (let delta = volume_delta previous q;
           active = (case cb_current_candles s inst of None \<Rightarrow> None
             | Some b \<Rightarrow> if ba_source b \<noteq> qt_source q then None else Some b);
           completed = (case active of None \<Rightarrow> None
             | Some b \<Rightarrow> if ba_start_time b \<noteq> start then Some (finished (cb_interval_minutes s) inst b) else None);
           new = (case active of None \<Rightarrow> first_bar start delta q
             | Some b \<Rightarrow> if ba_start_time b \<noteq> start then first_bar start delta q else extend_bar delta q b)
       in (completed, s\<lparr>cb_last_quotes := (cb_last_quotes s)(inst := Some q),
                         cb_current_candles := (cb_current_candles s)(inst := Some new)\<rparr>)))"

fun feed :: "int \<Rightarrow> quote list \<Rightarrow> candle_builder \<Rightarrow> candle list \<times> candle_builder" where
  "feed offset [] s = ([], s)"
| "feed offset (q # qs) s =
     (let (c, s1) = process_quote offset q s; (cs, s2) = feed offset qs s1
      in ((case c of None \<Rightarrow> cs | Some x \<Rightarrow> x # cs), s2))"

section \<open>The specification: take the new quotes, group them by source and bar, then aggregate each group\<close>

text \<open>A quote is taken when it is later than the last one taken.\<close>

definition take_quote :: "quote list \<Rightarrow> quote \<Rightarrow> quote list" where
  "take_quote taken q = (if taken \<noteq> [] \<and> qt_timestamp q \<le> qt_timestamp (last taken) then taken else taken @ [q])"

definition taken :: "quote list \<Rightarrow> quote list" where
  "taken qs = foldl take_quote [] qs"

text \<open>Maximal runs of neighbours with one key.\<close>

fun runs :: "('a \<Rightarrow> 'k) \<Rightarrow> 'a list \<Rightarrow> 'a list list" where
  "runs k [] = []"
| "runs k (x # xs) = (case runs k xs of
     [] \<Rightarrow> [[x]]
   | g # gs \<Rightarrow> if k (hd g) = k x then (x # g) # gs else [x] # g # gs)"

lemma runs_Nil_iff [simp]: "runs k xs = [] \<longleftrightarrow> xs = []"
  by (cases xs) (auto split: list.splits)

lemma runs_nonempty: "[] \<notin> set (runs k xs)"
  by (induction xs) (auto split: list.splits)

lemma concat_runs: "concat (runs k xs) = xs"
  by (induction xs) (auto split: list.splits)

lemma runs_snoc:
  "runs k (xs @ [x]) = (if xs \<noteq> [] \<and> k (last (last (runs k xs))) = k x
     then butlast (runs k xs) @ [last (runs k xs) @ [x]] else runs k xs @ [[x]])"
proof (induction xs)
  case (Cons y ys)
  show ?case
  proof (cases "runs k ys")
    case Nil
    then show ?thesis by simp
  next
    case (Cons g gs)
    have "g \<noteq> []" using runs_nonempty[of k ys] Cons by auto
    moreover have "ys \<noteq> []" using Cons by auto
    ultimately show ?thesis using Cons.IH Cons by (cases gs) (auto simp: hd_append)
  qed
qed simp

text \<open>Each quote with the volume traded since the one before.\<close>

fun deltas :: "quote option \<Rightarrow> quote list \<Rightarrow> (quote \<times> int) list" where
  "deltas previous [] = []"
| "deltas previous (q # qs) = (q, volume_delta previous q) # deltas (Some q) qs"

definition bar_key :: "int \<Rightarrow> int \<Rightarrow> quote \<times> int \<Rightarrow> string \<times> timestamp" where
  "bar_key offset n qd = (qt_source (fst qd), get_bar_start offset n (qt_timestamp (fst qd)))"

text \<open>Open of the first, close of the last, extremes and volume over all quotes of a bar.\<close>

definition aggregate :: "timestamp \<Rightarrow> (quote \<times> int) list \<Rightarrow> bar" where
  "aggregate start g =
     (let prices = map (qt_last_price \<circ> fst) g in
      \<lparr>ba_start_time = start, ba_open = hd prices, ba_high = foldl pmax (hd prices) (tl prices),
       ba_low = foldl pmin (hd prices) (tl prices), ba_close = last prices, ba_volume = sum_list (map snd g),
       ba_open_interest = qt_open_interest (fst (last g)), ba_source = qt_source (fst (hd g))\<rparr>)"

definition bar_of :: "int \<Rightarrow> int \<Rightarrow> (quote \<times> int) list \<Rightarrow> bar" where
  "bar_of offset n g = aggregate (snd (bar_key offset n (hd g))) g"

section \<open>Correctness\<close>

lemma runs_key: "g \<in> set (runs k xs) \<Longrightarrow> x \<in> set g \<Longrightarrow> k x = k (hd g)"
proof (induction xs arbitrary: g x)
  case (Cons y ys)
  show ?case
  proof (cases "runs k ys")
    case Nil
    then show ?thesis using Cons.prems by simp
  next
    case (Cons h hs)
    have ih: "k z = k (hd f)" if "f \<in> set (h # hs)" "z \<in> set f" for f z
      using Cons.IH[of f z] that Cons by simp
    show ?thesis
    proof (cases "k (hd h) = k y")
      case True
      then have "g = y # h \<or> g \<in> set hs" using Cons.prems Cons by simp
      then show ?thesis using ih[of h x] ih[of g x] Cons.prems(2) True by auto
    next
      case False
      then have "g = [y] \<or> g \<in> set (h # hs)" using Cons.prems Cons by simp
      then show ?thesis using ih[of g x] Cons.prems(2) by auto
    qed
  qed
qed simp

lemma feed_append:
  "feed offset (xs @ ys) s = (let (c1, s1) = feed offset xs s; (c2, s2) = feed offset ys s1 in (c1 @ c2, s2))"
  by (induction xs arbitrary: s) (auto simp: Let_def split: prod.splits option.splits)

lemma deltas_snoc:
  "deltas p (xs @ [q]) = deltas p xs @ [(q, volume_delta (if xs = [] then p else Some (last xs)) q)]"
  by (induction xs arbitrary: p) auto

lemma map_fst_deltas [simp]: "map fst (deltas p xs) = xs"
  by (induction xs arbitrary: p) auto

lemma bar_of_single: "bar_of offset n [(q, d)] = first_bar (get_bar_start offset n (qt_timestamp q)) d q"
  by (simp add: bar_of_def aggregate_def first_bar_def bar_key_def Let_def)

lemma bar_of_snoc: "g \<noteq> [] \<Longrightarrow> bar_of offset n (g @ [(q, d)]) = extend_bar d q (bar_of offset n g)"
  by (cases g) (simp_all add: bar_of_def aggregate_def extend_bar_def Let_def)

lemma bar_of_fields [simp]:
  "ba_start_time (bar_of offset n g) = snd (bar_key offset n (hd g))" "ba_source (bar_of offset n g) = qt_source (fst (hd g))"
  by (simp_all add: bar_of_def aggregate_def Let_def)

definition mine :: "string \<Rightarrow> quote list \<Rightarrow> quote list" where
  "mine i qs = filter (\<lambda>q. qt_instrument_id q = i) qs"

definition groups :: "int \<Rightarrow> int \<Rightarrow> quote list \<Rightarrow> (quote \<times> int) list list" where
  "groups offset n qs = runs (bar_key offset n) (deltas None qs)"

text \<open>A group is a finished candle when the next one is of the same source; a change of source discards it.\<close>

definition completed_groups :: "(quote \<times> int) list list \<Rightarrow> (quote \<times> int) list list" where
  "completed_groups gs = map fst (filter (\<lambda>(g, h). qt_source (fst (hd g)) = qt_source (fst (hd h))) (zip gs (tl gs)))"

lemma completed_snoc:
  "completed_groups (gs @ [h]) = (if gs = [] then []
     else completed_groups gs @ (if qt_source (fst (hd (last gs))) = qt_source (fst (hd h)) then [last gs] else []))"
proof (induction gs)
  case (Cons g gs)
  then show ?case by (cases gs) (simp_all add: completed_groups_def)
qed (simp add: completed_groups_def)

lemma completed_last:
  "gs \<noteq> [] \<Longrightarrow> hd h = hd (last gs) \<Longrightarrow> completed_groups (butlast gs @ [h]) = completed_groups gs"
  using completed_snoc[of "butlast gs" h] completed_snoc[of "butlast gs" "last gs"] by simp

definition agrees :: "int \<Rightarrow> int \<Rightarrow> string \<Rightarrow> quote list \<Rightarrow> candle list \<times> candle_builder \<Rightarrow> bool" where
  "agrees offset n i qs out \<longleftrightarrow> cb_interval_minutes (snd out) = n
     \<and> cb_last_quotes (snd out) i = (if qs = [] then None else Some (last qs))
     \<and> cb_current_candles (snd out) i = (if qs = [] then None else Some (bar_of offset n (last (groups offset n qs))))
     \<and> filter (\<lambda>c. ca_instrument_id c = i) (fst out) = map (finished n i \<circ> bar_of offset n) (completed_groups (groups offset n qs))"

text \<open>A quote of another instrument changes nothing for \<open>i\<close>.\<close>

lemma process_other:
  assumes "qt_instrument_id q \<noteq> i"
  shows "cb_last_quotes (snd (process_quote offset q s)) i = cb_last_quotes s i"
    "cb_current_candles (snd (process_quote offset q s)) i = cb_current_candles s i"
    "pred_option (\<lambda>c. ca_instrument_id c \<noteq> i) (fst (process_quote offset q s))"
  using assms by (auto simp: process_quote_def Let_def finished_def split: option.splits)

lemma process_interval [simp]: "cb_interval_minutes (snd (process_quote offset q s)) = cb_interval_minutes s"
  by (simp add: process_quote_def Let_def)

text \<open>A later quote of \<open>i\<close> from the same source extends the last group or starts a new one.\<close>

lemma groups_snoc:
  "groups offset n (qs @ [q]) =
    (let d = volume_delta (if qs = [] then None else Some (last qs)) q; R = groups offset n qs in
     if qs \<noteq> [] \<and> bar_key offset n (hd (last R)) = (qt_source q, get_bar_start offset n (qt_timestamp q))
     then butlast R @ [last R @ [(q, d)]] else R @ [[(q, d)]])"
proof (cases "qs = []")
  case False
  let ?R = "groups offset n qs"
  have ne: "deltas None qs \<noteq> []" using False by (cases qs) auto
  then have "?R \<noteq> []" by (simp add: groups_def)
  then have m: "last ?R \<in> set (runs (bar_key offset n) (deltas None qs))"
    using last_in_set[of ?R] by (simp add: groups_def)
  then have "last ?R \<noteq> []" using runs_nonempty by metis
  then have "bar_key offset n (last (last ?R)) = bar_key offset n (hd (last ?R))"
    by (intro runs_key[OF m]) simp
  then show ?thesis using False ne
    by (simp add: groups_def deltas_snoc runs_snoc Let_def bar_key_def)
qed (simp add: groups_def)

lemma hd_last_group:
  assumes "qs \<noteq> []"
  shows "last (groups offset n qs) \<noteq> []" "fst (hd (last (groups offset n qs))) \<in> set qs" "groups offset n qs \<noteq> []"
proof -
  let ?R = "groups offset n qs"
  have ne: "deltas None qs \<noteq> []" using assms by (cases qs) auto
  then show R: "?R \<noteq> []" by (simp add: groups_def)
  then have m: "last ?R \<in> set ?R" by simp
  then show l: "last ?R \<noteq> []" using runs_nonempty by (metis groups_def)
  have "hd (last ?R) \<in> set (concat ?R)" using m l by (auto intro: bexI[of _ "last ?R"])
  then have "hd (last ?R) \<in> set (deltas None qs)" by (simp add: groups_def concat_runs)
  then have "fst (hd (last ?R)) \<in> fst ` set (deltas None qs)" by (rule imageI)
  then show "fst (hd (last ?R)) \<in> set qs" unfolding set_map[symmetric] map_fst_deltas .
qed

lemma process_agrees:
  assumes ag: "agrees offset n i qs (cs, s)" and q: "qt_instrument_id q = i"
  shows "agrees offset n i (take_quote qs q)
    (cs @ (case fst (process_quote offset q s) of None \<Rightarrow> [] | Some c \<Rightarrow> [c]), snd (process_quote offset q s))"
proof (cases "qs = []")
  case True
  then show ?thesis using ag q
    by (simp add: agrees_def process_quote_def take_quote_def groups_def bar_of_single completed_groups_def Let_def)
next
  case ne: False
  let ?R = "groups offset n qs" and ?d = "volume_delta (Some (last qs)) q" and ?k = "get_bar_start offset n (qt_timestamp q)"
  note R = hd_last_group[OF ne, of offset n]
  have st: "cb_last_quotes s i = Some (last qs)" "cb_current_candles s i = Some (bar_of offset n (last ?R))"
    "cb_interval_minutes s = n" "filter (\<lambda>c. ca_instrument_id c = i) cs = map (finished n i \<circ> bar_of offset n) (completed_groups ?R)"
    using ag ne by (simp_all add: agrees_def)
  have fin: "ca_instrument_id (finished n i b) = i" for b by (simp add: finished_def)
  show ?thesis
  proof (cases "qt_timestamp q \<le> qt_timestamp (last qs)")
    case True
    then show ?thesis using ag ne st q by (simp add: take_quote_def process_quote_def)
  next
    case later: False
    then have t: "take_quote qs q = qs @ [q]" by (simp add: take_quote_def)
    show ?thesis
    proof (cases "bar_key offset n (hd (last ?R)) = (qt_source q, ?k)")
      case True
      moreover from True have "completed_groups (butlast ?R @ [last ?R @ [(q, ?d)]]) = completed_groups ?R"
        using R by (intro completed_last) (simp_all add: hd_append)
      ultimately show ?thesis using st q later ne R
        by (simp add: agrees_def process_quote_def t groups_snoc bar_of_snoc bar_key_def Let_def)
    next
      case new: False
      have g: "groups offset n (qs @ [q]) = ?R @ [[(q, ?d)]]" using new ne by (simp only: groups_snoc Let_def) simp
      let ?s = "s\<lparr>cb_last_quotes := (cb_last_quotes s)(i := Some q),
        cb_current_candles := (cb_current_candles s)(i := Some (first_bar ?k ?d q))\<rparr>"
      let ?same = "qt_source (fst (hd (last ?R))) = qt_source q"
      have p: "process_quote offset q s = (if ?same then Some (finished n i (bar_of offset n (last ?R))) else None, ?s)"
      proof (cases ?same)
        case True
        then have "ba_start_time (bar_of offset n (last ?R)) \<noteq> ?k" "ba_source (bar_of offset n (last ?R)) = qt_source q"
          using new by (simp_all add: bar_key_def)
        then show ?thesis unfolding process_quote_def q st(1-3) Let_def option.case using later True by (simp del: bar_of_fields)
      next
        case False
        then have "ba_source (bar_of offset n (last ?R)) \<noteq> qt_source q" by simp
        then show ?thesis unfolding process_quote_def q st(1-3) Let_def option.case using later False by (simp del: bar_of_fields)
      qed
      have c: "completed_groups (?R @ [[(q, ?d)]]) = completed_groups ?R @ (if ?same then [last ?R] else [])"
        using R(3) by (simp add: completed_snoc)
      show ?thesis unfolding agrees_def t g p fst_conv snd_conv c using st(3,4) fin by (simp add: bar_of_single)
    qed
  qed
qed

lemma taken_snoc: "taken (qs @ [q]) = take_quote (taken qs) q" by (simp add: taken_def)

lemma feed_agrees: "agrees offset n i (taken (mine i qs)) (feed offset qs (builder_init n))"
proof (induction qs rule: rev_induct)
  case Nil
  then show ?case by (simp add: agrees_def mine_def taken_def builder_init_def groups_def completed_groups_def)
next
  case (snoc q qs)
  obtain cs s where f: "feed offset qs (builder_init n) = (cs, s)" by fastforce
  let ?p = "process_quote offset q s"
  have out: "feed offset (qs @ [q]) (builder_init n) = (cs @ (case fst ?p of None \<Rightarrow> [] | Some c \<Rightarrow> [c]), snd ?p)"
    by (simp add: feed_append f Let_def case_prod_beta split: option.splits)
  have ih: "agrees offset n i (taken (mine i qs)) (cs, s)" using snoc f by simp
  show ?case
  proof (cases "qt_instrument_id q = i")
    case True
    then have "taken (mine i (qs @ [q])) = take_quote (taken (mine i qs)) q" by (simp add: mine_def taken_snoc)
    then show ?thesis unfolding out using process_agrees[OF ih True] by simp
  next
    case False
    then have "mine i (qs @ [q]) = mine i qs" by (simp add: mine_def)
    then show ?thesis unfolding out
      using ih process_other[OF False, of offset s] by (auto simp: agrees_def split: option.splits)
  qed
qed

section \<open>Properties\<close>

text \<open>
  C38. The candle builder computes the reference aggregation of any quotes: for every instrument, however
  its quotes are interleaved with those of others, the quotes not later than one already taken are
  ignored; the rest are grouped by source and bar; the candles returned are the groups that are followed
  by one of the same source (a change of source discards the bar it interrupts), each with the open of
  its first quote, the close of its last, the extremes and the volume; the last group is the current bar.
\<close>

theorem candles_aggregate:
  "let (cs, s) = feed offset qs (builder_init n); gs = groups offset n (taken (mine i qs))
   in filter (\<lambda>c. ca_instrument_id c = i) cs = map (finished n i \<circ> bar_of offset n) (completed_groups gs)
     \<and> cb_current_candles s i = (if gs = [] then None else Some (bar_of offset n (last gs)))"
proof -
  obtain cs s where f: "feed offset qs (builder_init n) = (cs, s)" by fastforce
  let ?qs = "taken (mine i qs)"
  have "groups offset n ?qs = [] \<longleftrightarrow> ?qs = []"
    by (cases ?qs) (auto simp: groups_def split: list.splits)
  then show ?thesis using feed_agrees[of offset n i qs] unfolding f agrees_def Let_def by simp
qed

text \<open>Quotes of \<open>A\<close> at 9:15 and 9:16 with one of \<open>B\<close> and a stale one between them: one finished candle of \<open>A\<close>.\<close>

definition sample_tick :: "string \<Rightarrow> timestamp \<Rightarrow> pyfloat \<Rightarrow> int \<Rightarrow> quote" where
  "sample_tick i t price volume = \<lparr>qt_source = ''breeze'', qt_instrument_id = i, qt_symbol = i, qt_last_price = price,
     qt_open = price, qt_high = price, qt_low = price, qt_close = price, qt_volume = volume, qt_open_interest = 0,
     qt_best_bid = price, qt_best_bid_qty = 0, qt_best_ask = price, qt_best_ask_qty = 0, qt_change_pct = Fin 0,
     qt_timestamp = t\<rparr>"

definition sample_ticks :: "quote list" where
  "sample_ticks = [sample_tick ''A'' (minutes 555) (Fin 100) 10, sample_tick ''A'' (minutes 555 + 5) (Fin 90) 25,
     sample_tick ''B'' (minutes 555 + 7) (Fin 7) 1, sample_tick ''A'' (minutes 555 + 1) (Fin 500) 12, sample_tick ''A'' (minutes 556) (Fin 95) 30]"

theorem candles_aggregate_witness:
  "let (cs, s) = feed 0 sample_ticks (builder_init 1); gs = groups 0 1 (taken (mine ''A'' sample_ticks))
   in filter (\<lambda>c. ca_instrument_id c = ''A'') cs = map (finished 1 ''A'' \<circ> bar_of 0 1) (completed_groups gs)
     \<and> cb_current_candles s ''A'' = (if gs = [] then None else Some (bar_of 0 1 (last gs)))
     \<and> map (\<lambda>c. (ca_start_time c, ca_open c, ca_high c, ca_low c, ca_close c, ca_volume c)) cs
       = [(minutes 555, Fin 100, Fin 100, Fin 90, Fin 90, 15)]"
proof -
  have e: "map (\<lambda>c. (ca_start_time c, ca_open c, ca_high c, ca_low c, ca_close c, ca_volume c))
      (fst (feed 0 sample_ticks (builder_init 1))) = [(minutes 555, Fin 100, Fin 100, Fin 90, Fin 90, 15)]"
    by code_simp
  show ?thesis
    using candles_aggregate[of 0 sample_ticks 1 "''A''"] e by (simp add: Let_def case_prod_beta)
qed

end
