(* ===== verification/RateLimits.thy ===== *)
theory RateLimits imports Contracts begin

text \<open>
  The two rate limiters: the sliding window of the API gateway
  (\<^verbatim>\<open>services/api_gateway/rate_limiter.py\<close> with the throttling middleware of
  \<^verbatim>\<open>services/api_gateway/middleware.py\<close>) and the token buckets in front of the broker
  (\<^verbatim>\<open>services/broker_gateway/infrastructure/rate_limit/policies.py\<close>).  Every operation runs under
  the limiter's lock, so it is one step; the readings of \<^verbatim>\<open>time.monotonic()\<close> and \<^verbatim>\<open>time.time()\<close>
  are arguments, one per call of the clock.
\<close>

datatype rate_scope = READ_SCOPE | OVERALL_SCOPE | DAILY_SCOPE

text \<open>\<open>BrokerRateLimitError\<close> carries \<^verbatim>\<open>retry_after_sec\<close>; its message renders the same number.\<close>

datatype limiter_exn = IndexError | BrokerRateLimitError rate_scope pyfloat | PyError exn

section \<open>Sliding window of the API gateway\<close>

record limiter_settings =
  ls_rate_limit_enabled :: bool
  ls_rate_limit_login_per_minute :: int
  ls_rate_limit_orders_per_minute :: int
  ls_rate_limit_general_per_minute :: int

type_synonym rate_key = "string \<times> string \<times> string"

text \<open>The \<^verbatim>\<open>defaultdict(deque)\<close>: a key that was never used holds the empty queue.\<close>

type_synonym history = "rate_key \<Rightarrow> pyfloat list"

definition get_limit_for_tier :: "limiter_settings \<Rightarrow> string \<Rightarrow> int" where
  "get_limit_for_tier S tier = (let tier_upper = to_upper tier in
     if tier_upper = ''AUTH'' then ls_rate_limit_login_per_minute S
     else if tier_upper = ''COMMANDS'' then ls_rate_limit_orders_per_minute S
     else ls_rate_limit_general_per_minute S)"

definition rate_key :: "string \<Rightarrow> string \<Rightarrow> string \<Rightarrow> rate_key" where
  "rate_key client_id tier scope = (client_id, to_upper tier, strip scope)"

definition expired :: "pyfloat \<Rightarrow> pyfloat \<Rightarrow> bool" where
  "expired now t = fle t (fsub now (Fin 60))"

definition retry_after :: "pyfloat \<Rightarrow> pyfloat \<Rightarrow> limiter_exn + int" where
  "retry_after oldest now = (let x = fsub (fadd oldest (Fin 60)) now in
     case fceil x of
       None \<Rightarrow> Inl (PyError (if x = NaN then ValueError ''cannot convert float NaN to integer'' else OverflowError))
     | Some c \<Rightarrow> Inr (max 1 c))"

definition check_rate_limit ::
  "limiter_settings \<Rightarrow> pyfloat \<Rightarrow> string \<Rightarrow> string \<Rightarrow> string \<Rightarrow> history \<Rightarrow> (limiter_exn + bool \<times> int) \<times> history" where
  "check_rate_limit S now client_id tier scope h =
     (if \<not> ls_rate_limit_enabled S then (Inr (True, 0), h) else
      (let limit = get_limit_for_tier S tier; key = rate_key client_id tier scope;
           queue = dropWhile (expired now) (h key); h1 = h(key := queue) in
       if limit \<le> int (length queue) then
         (case queue of [] \<Rightarrow> (Inl IndexError, h1)
          | oldest # _ \<Rightarrow> (case retry_after oldest now of
              Inl e \<Rightarrow> (Inl e, h1) | Inr secs \<Rightarrow> (Inr (False, secs), h1)))
       else (Inr (True, 0), h1(key := queue @ [now]))))"

definition limiter_reset :: "history \<Rightarrow> history" where
  "limiter_reset h = (\<lambda>k. [])"

section \<open>The throttling middleware\<close>

text \<open>
  Header names are lower case.  \<open>decode\<close> is \<^verbatim>\<open>jwt.decode\<close> without signature verification, followed by
  the look-up of \<^verbatim>\<open>sub\<close> rendered as text; \<open>None\<close> when it raises or the claim is absent.
\<close>

record http_request =
  hr_method :: string
  hr_path :: string
  hr_headers :: "string \<Rightarrow> string option"
  hr_client_host :: "string option"

definition starts_with :: "string \<Rightarrow> string \<Rightarrow> bool" where
  "starts_with s p = (take (length p) s = p)"

definition determine_tier :: "string \<Rightarrow> string" where
  "determine_tier path =
     (if starts_with path ''/api/v1/auth'' \<or> path = ''/api/v1/session/login'' then ''AUTH''
      else if starts_with path ''/api/v1/orders'' \<or> starts_with path ''/api/v1/risk''
        \<or> starts_with path ''/api/v1/live-gate'' then ''COMMANDS''
      else ''GENERAL'')"

definition bearer_sub :: "(string \<Rightarrow> string option) \<Rightarrow> http_request \<Rightarrow> string option" where
  "bearer_sub decode r = (case hr_headers r ''authorization'' of None \<Rightarrow> None
     | Some a \<Rightarrow> if starts_with a ''Bearer '' then decode (drop 7 a) else None)"

definition get_client_id :: "(string \<Rightarrow> string option) \<Rightarrow> http_request \<Rightarrow> string" where
  "get_client_id decode r =
     (case bearer_sub decode r of Some sub \<Rightarrow> ''user:'' @ sub
      | None \<Rightarrow>
        (case hr_headers r ''x-forwarded-for'' of
           Some (c # cs) \<Rightarrow> ''ip:'' @ strip (takeWhile (\<lambda>x. x \<noteq> CHR '','') (c # cs))
         | _ \<Rightarrow>
           (case hr_client_host r of Some (c # cs) \<Rightarrow> ''ip:'' @ (c # cs) | _ \<Rightarrow> ''ip:127.0.0.1'')))"

text \<open>
  \<open>TooMany\<close> is the 429 response: client, tier, scope and seconds, which the audit event (whose
  publication may fail unnoticed) carries too.
\<close>

datatype rate_outcome = Forward | TooMany string string string int | RateRaised limiter_exn

definition rate_dispatch :: "limiter_settings \<Rightarrow> (string \<Rightarrow> string option) \<Rightarrow> pyfloat \<Rightarrow> http_request \<Rightarrow> history
    \<Rightarrow> rate_outcome \<times> history" where
  "rate_dispatch S decode now r h =
     (if \<not> ls_rate_limit_enabled S \<or> hr_method r = ''OPTIONS'' then (Forward, h)
      else if hr_path r \<in> {''/docs'', ''/openapi.json'', ''/redoc'', ''/api/v1/system/health''} then (Forward, h)
      else (let tier = determine_tier (hr_path r); client_id = get_client_id decode r;
                scope = (if tier = ''GENERAL'' then hr_path r else '''');
                (res, h1) = check_rate_limit S now client_id tier scope h in
        (case res of Inl e \<Rightarrow> (RateRaised e, h1)
         | Inr (allowed, secs) \<Rightarrow>
             if allowed then (Forward, h1)
             else (TooMany client_id tier (if scope = '''' then ''shared'' else scope) secs, h1))))"

section \<open>Token buckets in front of the broker\<close>

record broker_limiter =
  bl_calls_per_minute :: int
  bl_calls_per_day :: int
  bl_writes_per_second :: int
  bl_min_capacity :: pyfloat
  bl_min_tokens :: pyfloat
  bl_min_last_replenish :: pyfloat
  bl_sec_capacity :: pyfloat
  bl_sec_tokens :: pyfloat
  bl_sec_last_replenish :: pyfloat
  bl_day_count :: int
  bl_day_reset_timestamp :: pyfloat

definition broker_limiter_init :: "int \<Rightarrow> int \<Rightarrow> int \<Rightarrow> pyfloat \<Rightarrow> pyfloat \<Rightarrow> broker_limiter" where
  "broker_limiter_init calls_per_minute calls_per_day writes_per_second mono_now wall =
     \<lparr>bl_calls_per_minute = calls_per_minute, bl_calls_per_day = calls_per_day,
      bl_writes_per_second = writes_per_second,
      bl_min_capacity = fint calls_per_minute, bl_min_tokens = fint calls_per_minute, bl_min_last_replenish = mono_now,
      bl_sec_capacity = fint writes_per_second, bl_sec_tokens = fint writes_per_second, bl_sec_last_replenish = mono_now,
      bl_day_count = 0, bl_day_reset_timestamp = fadd wall (Fin 86400)\<rparr>"

definition refill :: "pyfloat \<Rightarrow> pyfloat \<Rightarrow> pyfloat \<Rightarrow> pyfloat \<Rightarrow> pyfloat" where
  "refill capacity tokens elapsed rate = pmin capacity (fadd tokens (fmul elapsed rate))"

definition replenish :: "pyfloat \<Rightarrow> broker_limiter \<Rightarrow> broker_limiter" where
  "replenish now l =
     l\<lparr>bl_min_last_replenish := now,
       bl_min_tokens := refill (bl_min_capacity l) (bl_min_tokens l) (fsub now (bl_min_last_replenish l))
         (the (fdiv (fint (bl_calls_per_minute l)) (Fin 60))),
       bl_sec_last_replenish := now,
       bl_sec_tokens := refill (bl_sec_capacity l) (bl_sec_tokens l) (fsub now (bl_sec_last_replenish l))
         (fint (bl_writes_per_second l))\<rparr>"

definition check_day_limit :: "pyfloat \<Rightarrow> broker_limiter \<Rightarrow> limiter_exn option \<times> broker_limiter" where
  "check_day_limit now l =
     (let l1 = (if flt (bl_day_reset_timestamp l) now
                then l\<lparr>bl_day_count := 0, bl_day_reset_timestamp := fadd now (Fin 86400)\<rparr> else l) in
      (if bl_calls_per_day l1 \<le> bl_day_count l1
       then Some (BrokerRateLimitError DAILY_SCOPE (fsub (bl_day_reset_timestamp l1) now)) else None, l1))"

text \<open>
  Wait until a token of the minute bucket is there: \<open>Inl\<close> when the wait would be longer than
  \<open>patience\<close>, otherwise sleep and read the clock again (\<open>later\<close>).
\<close>

definition await_minute_token ::
  "rate_scope \<Rightarrow> pyfloat \<Rightarrow> pyfloat \<Rightarrow> broker_limiter \<Rightarrow> limiter_exn + broker_limiter" where
  "await_minute_token scope patience later l =
     (if flt (bl_min_tokens l) (Fin 1) then
        (case fdiv (Fin 60) (fint (bl_calls_per_minute l)) of
           None \<Rightarrow> Inl (PyError ZeroDivisionError)
         | Some per_call \<Rightarrow> let wait_time = fmul (fsub (Fin 1) (bl_min_tokens l)) per_call in
             if flt patience wait_time then Inl (BrokerRateLimitError scope wait_time)
             else Inr (replenish later l))
      else Inr l)"

definition acquire_read :: "pyfloat \<Rightarrow> pyfloat \<Rightarrow> pyfloat \<Rightarrow> broker_limiter \<Rightarrow> limiter_exn option \<times> broker_limiter" where
  "acquire_read wall mono_now later l =
     (case check_day_limit wall (replenish mono_now l) of
        (Some e, l1) \<Rightarrow> (Some e, l1)
      | (None, l1) \<Rightarrow>
          (case await_minute_token READ_SCOPE (Fin 10) later l1 of
             Inl e \<Rightarrow> (Some e, l1)
           | Inr l2 \<Rightarrow> (None, l2\<lparr>bl_min_tokens := fsub (bl_min_tokens l2) (Fin 1),
                               bl_day_count := bl_day_count l2 + 1\<rparr>)))"

definition await_write_token :: "pyfloat \<Rightarrow> broker_limiter \<Rightarrow> limiter_exn + broker_limiter" where
  "await_write_token later l =
     (if flt (bl_sec_tokens l) (Fin 1) then
        (case fdiv (Fin 1) (fint (bl_writes_per_second l)) of
           None \<Rightarrow> Inl (PyError ZeroDivisionError)
         | Some _ \<Rightarrow> Inr (replenish later l))
      else Inr l)"

definition acquire_write ::
  "pyfloat \<Rightarrow> pyfloat \<Rightarrow> pyfloat \<Rightarrow> pyfloat \<Rightarrow> broker_limiter \<Rightarrow> limiter_exn option \<times> broker_limiter" where
  "acquire_write wall mono_now later latest l =
     (case check_day_limit wall (replenish mono_now l) of
        (Some e, l1) \<Rightarrow> (Some e, l1)
      | (None, l1) \<Rightarrow>
          (case await_minute_token OVERALL_SCOPE (Fin 5) later l1 of
             Inl e \<Rightarrow> (Some e, l1)
           | Inr l2 \<Rightarrow>
               (case await_write_token latest l2 of
                  Inl e \<Rightarrow> (Some e, l2)
                | Inr l3 \<Rightarrow> (None, l3\<lparr>bl_min_tokens := fsub (bl_min_tokens l3) (Fin 1),
                    bl_sec_tokens := fsub (bl_sec_tokens l3) (Fin 1), bl_day_count := bl_day_count l3 + 1\<rparr>))))"

section \<open>The sliding window admits at most its limit in every minute\<close>

record rate_request =
  rq_now :: pyfloat
  rq_client :: string
  rq_tier :: string
  rq_scope :: string

definition rq_key :: "rate_request \<Rightarrow> rate_key" where
  "rq_key r = rate_key (rq_client r) (rq_tier r) (rq_scope r)"

definition rq_check :: "limiter_settings \<Rightarrow> rate_request \<Rightarrow> history \<Rightarrow> (limiter_exn + bool \<times> int) \<times> history" where
  "rq_check S r h = check_rate_limit S (rq_now r) (rq_client r) (rq_tier r) (rq_scope r) h"

fun granted :: "limiter_exn + bool \<times> int \<Rightarrow> bool" where
  "granted (Inr (b, n)) = b"
| "granted (Inl e) = False"

text \<open>The log of the granted requests of a run.\<close>

fun admit :: "limiter_settings \<Rightarrow> rate_request list \<Rightarrow> (rate_key \<times> pyfloat) list \<times> history
    \<Rightarrow> (rate_key \<times> pyfloat) list \<times> history" where
  "admit S [] (gs, h) = (gs, h)"
| "admit S (r # rs) (gs, h) = (let (res, h1) = rq_check S r h in
     admit S rs (if granted res then gs @ [(rq_key r, rq_now r)] else gs, h1))"

text \<open>The reference limiter keeps the whole log and counts.\<close>

definition times_of :: "rate_key \<Rightarrow> (rate_key \<times> pyfloat) list \<Rightarrow> pyfloat list" where
  "times_of k gs = map snd (filter (\<lambda>g. fst g = k) gs)"

definition in_minute :: "pyfloat \<Rightarrow> pyfloat list \<Rightarrow> pyfloat list" where
  "in_minute w ts = filter (\<lambda>t. fle t w \<and> \<not> expired w t) ts"

definition key_limit :: "limiter_settings \<Rightarrow> rate_key \<Rightarrow> int" where
  "key_limit S k = get_limit_for_tier S (fst (snd k))"

fun count_admit :: "limiter_settings \<Rightarrow> rate_request list \<Rightarrow> (rate_key \<times> pyfloat) list \<Rightarrow> (rate_key \<times> pyfloat) list" where
  "count_admit S [] gs = gs"
| "count_admit S (r # rs) gs = count_admit S rs
     (if int (length (in_minute (rq_now r) (times_of (rq_key r) gs))) < key_limit S (rq_key r)
      then gs @ [(rq_key r, rq_now r)] else gs)"


text \<open>What holds of one key: its grants \<open>ts\<close> are the evicted ones and then its queue \<open>q\<close>.\<close>

definition key_inv :: "int \<Rightarrow> pyfloat list \<Rightarrow> pyfloat list \<Rightarrow> pyfloat \<Rightarrow> bool" where
  "key_inv limit ts q now \<longleftrightarrow> (\<exists>d. ts = d @ q \<and> list_all (expired now) d)
     \<and> sorted_wrt fle q \<and> list_all (\<lambda>t. fle t now) q
     \<and> (\<forall>w. length (in_minute w ts) \<le> nat limit)"

definition window_inv :: "limiter_settings \<Rightarrow> (rate_key \<times> pyfloat) list \<Rightarrow> history \<Rightarrow> pyfloat \<Rightarrow> bool" where
  "window_inv S gs h now \<longleftrightarrow> (\<forall>k. key_inv (key_limit S k) (times_of k gs) (h k) now)"

lemma window_invD: "window_inv S gs h now \<Longrightarrow> key_inv (key_limit S k) (times_of k gs) (h k) now"
  unfolding window_inv_def by (rule spec)

lemma window_invI: "(\<And>k. key_inv (key_limit S k) (times_of k gs) (h k) now) \<Longrightarrow> window_inv S gs h now"
  unfolding window_inv_def by (rule allI)

lemma to_upper_upper [simp]: "to_upper (to_upper s) = to_upper s"
  by (induction s) (auto simp: to_upper_def)

lemma key_limit_rate_key: "key_limit S (rate_key c tier scope) = get_limit_for_tier S tier"
  by (simp add: key_limit_def rate_key_def get_limit_for_tier_def)

lemma expired_mono: "expired now t \<Longrightarrow> fle now w \<Longrightarrow> expired w t"
  using fle_trans[of t "fsub now (Fin 60)" "fsub w (Fin 60)"]
  by (cases now; cases w) (auto simp: expired_def fsub_def rnd_mono)

lemma dropWhile_filter_sorted:
  "sorted_wrt fle ts \<Longrightarrow> dropWhile (expired now) ts = filter (\<lambda>t. \<not> expired now t) ts"
proof (induction ts)
  case (Cons t ts)
  have "filter (\<lambda>t. \<not> expired now t) ts = ts" if "\<not> expired now t"
    using that Cons.prems by (auto simp: expired_def filter_id_conv intro: fle_trans)
  then show ?case using Cons by simp
qed simp

lemma in_minute_append [simp]: "in_minute w (xs @ ys) = in_minute w xs @ in_minute w ys"
  by (simp add: in_minute_def)

lemma times_of_snoc [simp]: "times_of k (gs @ [(k', t)]) = times_of k gs @ (if k' = k then [t] else [])"
  by (simp add: times_of_def)

lemma in_minute_old: "list_all (expired now) d \<Longrightarrow> fle now w \<Longrightarrow> in_minute w d = []"
  by (auto simp: in_minute_def list_all_iff filter_empty_conv dest: expired_mono)

text \<open>The queue after eviction is what the reference counts.\<close>

lemma key_queue:
  assumes "key_inv limit ts q t" "fle t now"
  shows "dropWhile (expired now) q = in_minute now ts"
proof -
  obtain d where d: "ts = d @ q" "list_all (expired t) d" "sorted_wrt fle q" "list_all (\<lambda>x. fle x t) q"
    using assms(1) by (auto simp: key_inv_def)
  then have "in_minute now d = []" using in_minute_old assms(2) by blast
  moreover have "in_minute now q = filter (\<lambda>t. \<not> expired now t) q"
    unfolding in_minute_def using d(4) assms(2)
    by (intro filter_cong) (auto simp: list_all_iff intro: fle_trans)
  ultimately show ?thesis using d by (simp add: dropWhile_filter_sorted)
qed

lemma key_later: "key_inv limit ts q t \<Longrightarrow> fle t now \<Longrightarrow> key_inv limit ts q now"
  by (fastforce simp: key_inv_def list_all_iff intro: fle_trans expired_mono)

text \<open>Evicting a prefix, and appending a granted time.\<close>

lemma key_evict:
  assumes "key_inv limit ts q now"
  shows "key_inv limit ts (dropWhile (expired now) q) now"
proof -
  obtain d where "ts = d @ q" "list_all (expired now) d"
    using assms by (auto simp: key_inv_def)
  then have "ts = (d @ takeWhile (expired now) q) @ dropWhile (expired now) q
      \<and> list_all (expired now) (d @ takeWhile (expired now) q)"
    by (auto simp: list_all_iff dest: set_takeWhileD)
  moreover have "sorted_wrt fle (dropWhile (expired now) q)"
    using assms sorted_wrt_drop[of fle q] by (simp add: key_inv_def dropWhile_eq_drop)
  ultimately show ?thesis using assms unfolding key_inv_def
    by (blast intro: list_all_iff[THEN iffD2] dest: set_dropWhileD list_all_iff[THEN iffD1])
qed

lemma key_grant:
  assumes inv: "key_inv limit ts q now" and num: "now \<noteq> NaN" and room: "int (length (in_minute now ts)) < limit"
  shows "key_inv limit (ts @ [now]) (q @ [now]) now"
proof -
  obtain d where d: "ts = d @ q" "list_all (expired now) d" "sorted_wrt fle q" "list_all (\<lambda>t. fle t now) q"
    using inv by (auto simp: key_inv_def)
  have "length (in_minute w (ts @ [now])) \<le> nat limit" for w
  proof (cases "fle now w")
    case False
    then show ?thesis using inv by (simp add: in_minute_def key_inv_def)
  next
    case True
    have "in_minute w q = filter (\<lambda>t. \<not> expired w t) (in_minute now q)"
      using True d(4) expired_mono[OF _ True] unfolding in_minute_def filter_filter
      by (intro filter_cong) (auto simp: list_all_iff intro: fle_trans)
    then have "length (in_minute w ts) \<le> length (in_minute now ts)"
      using d(1) in_minute_old[OF d(2)] True num by simp
    moreover have "length (in_minute w [now]) \<le> 1" by (simp add: in_minute_def)
    ultimately have "length (in_minute w (ts @ [now])) \<le> length (in_minute now ts) + 1"
      by (simp only: in_minute_append length_append)
    then show ?thesis using room by linarith
  qed
  then show ?thesis using d num by (auto simp: key_inv_def sorted_wrt_append list_all_iff)
qed

lemma rq_check_step:
  assumes on: "ls_rate_limit_enabled S" and inv: "window_inv S gs h t" and later: "fle t (rq_now r)"
  defines "room \<equiv> int (length (in_minute (rq_now r) (times_of (rq_key r) gs))) < key_limit S (rq_key r)"
  shows "granted (fst (rq_check S r h)) = room"
    and "window_inv S (if room then gs @ [(rq_key r, rq_now r)] else gs) (snd (rq_check S r h)) (rq_now r)"
proof -
  let ?now = "rq_now r" and ?k = "rq_key r"
  let ?h1 = "h(?k := dropWhile (expired ?now) (h ?k))"
  note old = window_invD[OF inv]
  have inv1: "window_inv S gs ?h1 ?now"
    by (rule window_invI) (use key_evict key_later[OF old later] in simp)
  have q: "dropWhile (expired ?now) (h ?k) = in_minute ?now (times_of ?k gs)"
    by (rule key_queue[OF old later])
  have lim: "get_limit_for_tier S (rq_tier r) = key_limit S ?k"
    by (simp add: rq_key_def key_limit_rate_key)
  have out: "rq_check S r h = (if room then (Inr (True, 0), ?h1(?k := ?h1 ?k @ [?now]))
      else (case in_minute ?now (times_of ?k gs) of [] \<Rightarrow> (Inl IndexError, ?h1)
        | oldest # _ \<Rightarrow> (case retry_after oldest ?now of Inl e \<Rightarrow> (Inl e, ?h1) | Inr secs \<Rightarrow> (Inr (False, secs), ?h1))))"
    using on by (simp add: rq_check_def check_rate_limit_def Let_def lim q room_def flip: rq_key_def)
  show "granted (fst (rq_check S r h)) = room"
    unfolding out by (auto split: list.splits sum.splits)
  have "window_inv S (gs @ [(?k, ?now)]) (?h1(?k := ?h1 ?k @ [?now])) ?now" if room
  proof (rule window_invI)
    fix k
    show "key_inv (key_limit S k) (times_of k (gs @ [(?k, ?now)])) ((?h1(?k := ?h1 ?k @ [?now])) k) ?now"
      using window_invD[OF inv1, of k] key_grant[of "key_limit S k" "times_of k gs" "?h1 k" ?now] that
        fle_not_NaN[OF later] by (cases "k = ?k") (simp_all add: room_def)
  qed
  then show "window_inv S (if room then gs @ [(?k, ?now)] else gs) (snd (rq_check S r h)) ?now"
    unfolding out using inv1 by (auto split: list.splits sum.splits)
qed

lemma admit_counts:
  assumes "ls_rate_limit_enabled S" "sorted_wrt fle (t # map rq_now rs)" "window_inv S gs h t" "t \<noteq> NaN"
  shows "fst (admit S rs (gs, h)) = count_admit S rs gs
    \<and> (\<exists>t'. window_inv S (count_admit S rs gs) (snd (admit S rs (gs, h))) t')"
  using assms(2-)
proof (induction rs arbitrary: gs h t)
  case (Cons r rs)
  obtain res h1 where c: "rq_check S r h = (res, h1)" by fastforce
  have "fle t (rq_now r)" using Cons.prems by simp
  note st = rq_check_step[OF assms(1) Cons.prems(2) this, unfolded c fst_conv snd_conv]
  have "sorted_wrt fle (rq_now r # map rq_now rs)" "rq_now r \<noteq> NaN"
    using Cons.prems \<open>fle t (rq_now r)\<close> by (auto dest: fle_not_NaN)
  then show ?case using Cons.IH[OF _ st(2)] st(1) by (simp add: c)
qed auto

section \<open>Properties\<close>

text \<open>
  C39. The gateway's sliding window is exact: over any run of requests with a monotonic clock, however
  clients, tiers and scopes are mixed, the requests admitted are those a limiter with a full log
  admits (fewer than the tier's limit admitted in the last minute under the same key), so that in no
  window of one minute more than the limit is admitted under a key.
\<close>

theorem window_limiter_exact:
  assumes "ls_rate_limit_enabled S" "sorted_wrt fle (map rq_now rs)" "\<forall>r \<in> set rs. rq_now r \<noteq> NaN"
  shows "let gs = fst (admit S rs ([], limiter_reset h)) in
    gs = count_admit S rs [] \<and> (\<forall>k w. length (in_minute w (times_of k gs)) \<le> nat (key_limit S k))"
proof -
  have "window_inv S [] (limiter_reset h) NInf"
    by (intro window_invI) (simp add: key_inv_def limiter_reset_def times_of_def in_minute_def)
  moreover have "sorted_wrt fle (NInf # map rq_now rs)" using assms by simp
  ultimately show ?thesis
    using admit_counts[OF assms(1), of NInf rs "[]" "limiter_reset h"] window_invD
    by (fastforce simp: key_inv_def Let_def)
qed

text \<open>Three logins in a minute under a limit of two: the third is refused until the first expires.\<close>

definition sample_limits :: limiter_settings where
  "sample_limits = \<lparr>ls_rate_limit_enabled = True, ls_rate_limit_login_per_minute = 2,
     ls_rate_limit_orders_per_minute = 2, ls_rate_limit_general_per_minute = 2\<rparr>"

definition sample_logins :: "rate_request list" where
  "sample_logins = map (\<lambda>t. \<lparr>rq_now = Fin t, rq_client = ''ip:1'', rq_tier = ''auth'', rq_scope = ''''\<rparr>) [100, 101, 102, 161]"

theorem window_limiter_exact_witness:
  "(let gs = fst (admit sample_limits sample_logins ([], limiter_reset (\<lambda>k. []))) in
    gs = count_admit sample_limits sample_logins [] \<and>
    (\<forall>k w. length (in_minute w (times_of k gs)) \<le> nat (key_limit sample_limits k)))
   \<and> map snd (count_admit sample_limits sample_logins []) = [Fin 100, Fin 101, Fin 161]"
proof
  show "let gs = fst (admit sample_limits sample_logins ([], limiter_reset (\<lambda>k. []))) in
    gs = count_admit sample_limits sample_logins [] \<and>
    (\<forall>k w. length (in_minute w (times_of k gs)) \<le> nat (key_limit sample_limits k))"
    by (rule window_limiter_exact) (simp_all add: sample_limits_def sample_logins_def)
  have k: "rate_key ''ip:1'' ''auth'' '''' = (''ip:1'', ''AUTH'', '''')"
    "get_limit_for_tier sample_limits ''AUTH'' = 2" by code_simp+
  show "map snd (count_admit sample_limits sample_logins []) = [Fin 100, Fin 101, Fin 161]"
    by (simp add: sample_logins_def rq_key_def k key_limit_def times_of_def in_minute_def expired_def float_eval)
qed

section \<open>The client identifier is chosen by the client\<close>

text \<open>
  The bucket is that of the \<^verbatim>\<open>sub\<close> of an unverified token: a client that sends a token with a new
  \<^verbatim>\<open>sub\<close> to the login path is never refused, however many requests it sends.
\<close>

lemma forged_sub_never_throttled:
  assumes "ls_rate_limit_enabled S" "0 < ls_rate_limit_login_per_minute S"
    and "hr_path r = ''/api/v1/auth/login''" "hr_headers r ''authorization'' = Some (''Bearer '' @ token)"
    and "decode token = Some sub" "h (''user:'' @ sub, ''AUTH'', '''') = []"
  shows "fst (rate_dispatch S decode now r h) = Forward"
proof -
  have tier: "determine_tier ''/api/v1/auth/login'' = ''AUTH''" by (simp add: determine_tier_def starts_with_def)
  have "get_client_id decode r = ''user:'' @ sub"
    using assms by (simp add: get_client_id_def bearer_sub_def starts_with_def)
  moreover have "rate_key c ''AUTH'' '''' = (c, ''AUTH'', '''')" for c
    by (simp add: rate_key_def) code_simp
  moreover have "get_limit_for_tier S ''AUTH'' = ls_rate_limit_login_per_minute S"
  proof -
    have "to_upper ''AUTH'' = ''AUTH''" by code_simp
    then show ?thesis by (simp add: get_limit_for_tier_def)
  qed
  ultimately show ?thesis using assms
    by (simp add: rate_dispatch_def tier check_rate_limit_def Let_def)
qed

section \<open>The token buckets\<close>

datatype acquisition = AcquireRead pyfloat pyfloat pyfloat | AcquireWrite pyfloat pyfloat pyfloat pyfloat

fun acq_wall :: "acquisition \<Rightarrow> pyfloat" where
  "acq_wall (AcquireRead wall m later) = wall"
| "acq_wall (AcquireWrite wall m later latest) = wall"

fun acquire :: "acquisition \<Rightarrow> broker_limiter \<Rightarrow> limiter_exn option \<times> broker_limiter" where
  "acquire (AcquireRead wall m later) l = acquire_read wall m later l"
| "acquire (AcquireWrite wall m later latest) l = acquire_write wall m later latest l"

text \<open>The permits since the last day reset of a run, and the limiter after it.\<close>

fun acquire_all :: "acquisition list \<Rightarrow> nat \<times> broker_limiter \<Rightarrow> nat \<times> broker_limiter" where
  "acquire_all [] (n, l) = (n, l)"
| "acquire_all (a # as) (n, l) =
     (let (e, l1) = acquire a l; n0 = (if flt (bl_day_reset_timestamp l) (acq_wall a) then 0 else n) in
      acquire_all as (if e = None then n0 + 1 else n0, l1))"

definition limiter_ok :: "int \<Rightarrow> int \<Rightarrow> int \<Rightarrow> nat \<Rightarrow> broker_limiter \<Rightarrow> bool" where
  "limiter_ok cpm cpd wps n l \<longleftrightarrow> bl_min_capacity l = fint cpm \<and> bl_sec_capacity l = fint wps
     \<and> bl_calls_per_day l = cpd \<and> bl_day_count l = int n \<and> int n \<le> cpd
     \<and> fle (bl_min_tokens l) (fint cpm) \<and> fle (bl_sec_tokens l) (fint wps)"

lemma refill_le: "capacity \<noteq> NaN \<Longrightarrow> fle (refill capacity tokens elapsed rate) capacity"
  by (simp add: refill_def pmin_le1)

lemma spend_le:
  assumes "\<bar>n\<bar> \<le> 2 ^ 53" "fle x (fint n)"
  shows "fle (fsub x (Fin 1)) (fint n)"
proof (cases x)
  case (Fin a)
  then have "a - 1 \<le> of_int n" using assms by (simp add: fint_exact)
  then have "fle (rnd (a - 1)) (rnd (of_int n))" by (rule rnd_mono)
  then show ?thesis using Fin by (simp add: fint_def fsub_def)
qed (use assms in \<open>auto simp: fsub_def\<close>)

lemma replenish_ok: "limiter_ok cpm cpd wps n l \<Longrightarrow> limiter_ok cpm cpd wps n (replenish now l)"
  by (simp add: limiter_ok_def replenish_def refill_le)

lemma await_ok:
  "await_minute_token scope patience later l = Inr l' \<Longrightarrow> limiter_ok cpm cpd wps n l \<Longrightarrow> limiter_ok cpm cpd wps n l'"
  "await_write_token later l = Inr l' \<Longrightarrow> limiter_ok cpm cpd wps n l \<Longrightarrow> limiter_ok cpm cpd wps n l'"
  by (auto simp: await_minute_token_def await_write_token_def Let_def replenish_ok split: if_splits option.splits)

lemma replenish_reset [simp]: "bl_day_reset_timestamp (replenish now l) = bl_day_reset_timestamp l"
  by (simp add: replenish_def)

lemma check_day_ok:
  assumes "check_day_limit wall l = (e, l1)" "limiter_ok cpm cpd wps n l" "0 \<le> cpd"
  shows "limiter_ok cpm cpd wps (if flt (bl_day_reset_timestamp l) wall then 0 else n) l1"
    "e = None \<Longrightarrow> bl_day_count l1 < cpd"
  using assms by (auto simp: check_day_limit_def limiter_ok_def Let_def split: if_splits)

lemma acquire_ok:
  assumes "limiter_ok cpm cpd wps n l" "0 \<le> cpd" "\<bar>cpm\<bar> \<le> 2 ^ 53" "\<bar>wps\<bar> \<le> 2 ^ 53" "acquire a l = (e, l1)"
  defines "n0 \<equiv> if flt (bl_day_reset_timestamp l) (acq_wall a) then 0 else n"
  shows "limiter_ok cpm cpd wps (if e = None then n0 + 1 else n0) l1"
proof -
  have checked: "limiter_ok cpm cpd wps n0 l2 \<and> (e' = None \<longrightarrow> int n0 < cpd)"
    if "check_day_limit (acq_wall a) (replenish m l) = (e', l2)" for m e' l2
    using check_day_ok[OF that replenish_ok[OF assms(1)] assms(2)] by (auto simp: n0_def limiter_ok_def)
  have spent: "limiter_ok cpm cpd wps (n0 + 1)
      (l2\<lparr>bl_min_tokens := fsub (bl_min_tokens l2) (Fin 1), bl_day_count := bl_day_count l2 + 1\<rparr>)"
    "limiter_ok cpm cpd wps (n0 + 1) (l2\<lparr>bl_min_tokens := fsub (bl_min_tokens l2) (Fin 1),
       bl_sec_tokens := fsub (bl_sec_tokens l2) (Fin 1), bl_day_count := bl_day_count l2 + 1\<rparr>)"
    if "limiter_ok cpm cpd wps n0 l2" "int n0 < cpd" for l2
    using that assms(3,4) by (simp_all add: limiter_ok_def spend_le)
  show ?thesis
  proof (cases a)
    case (AcquireRead wall m later)
    then show ?thesis using assms(5) checked
      by (auto simp: acquire_read_def split: prod.splits option.splits sum.splits
          dest!: await_ok(1) checked intro!: spent[simplified])
  next
    case (AcquireWrite wall m later latest)
    then show ?thesis using assms(5) checked
      by (auto simp: acquire_write_def split: prod.splits option.splits sum.splits
          dest!: await_ok checked intro!: spent[simplified])
  qed
qed

text \<open>
  The broker limiter keeps its budgets along every run of reads and writes, whatever the clocks
  say: the permits since the last day reset are exactly the day counter and never exceed
  \<^verbatim>\<open>calls_per_day\<close>, and no bucket ever holds more than its capacity.
\<close>

theorem broker_limiter_budget:
  assumes "0 \<le> calls_per_day" "\<bar>calls_per_minute\<bar> \<le> 2 ^ 53" "\<bar>writes_per_second\<bar> \<le> 2 ^ 53"
  shows "let (permits, l) = acquire_all as (0, broker_limiter_init calls_per_minute calls_per_day writes_per_second t w)
    in bl_day_count l = int permits \<and> int permits \<le> calls_per_day
     \<and> fle (bl_min_tokens l) (fint calls_per_minute) \<and> fle (bl_sec_tokens l) (fint writes_per_second)"
proof -
  have "case acquire_all as (n, l) of (n', l') \<Rightarrow> limiter_ok calls_per_minute calls_per_day writes_per_second n' l'"
    if "limiter_ok calls_per_minute calls_per_day writes_per_second n l" for n l
    using that
  proof (induction as arbitrary: n l)
    case (Cons a as)
    then show ?case using acquire_ok[OF Cons.prems assms, of a]
      by (cases "acquire a l") (simp add: Let_def)
  qed simp
  moreover have "limiter_ok calls_per_minute calls_per_day writes_per_second 0
      (broker_limiter_init calls_per_minute calls_per_day writes_per_second t w)"
    using assms by (simp add: limiter_ok_def broker_limiter_init_def)
  ultimately show ?thesis by (fastforce simp: limiter_ok_def)
qed

text \<open>Two reads a day: the third is refused until the next day.\<close>

theorem broker_limiter_budget_witness:
  "let (permits, l) = acquire_all [AcquireRead (Fin 10) (Fin 1) (Fin 1), AcquireRead (Fin 11) (Fin 1) (Fin 1),
       AcquireRead (Fin 12) (Fin 1) (Fin 1)] (0, broker_limiter_init 60 2 8 (Fin 1) (Fin 10))
   in bl_day_count l = int permits \<and> int permits \<le> 2
     \<and> fle (bl_min_tokens l) (fint 60) \<and> fle (bl_sec_tokens l) (fint 8) \<and> permits = 2"
proof -
  let ?run = "acquire_all [AcquireRead (Fin 10) (Fin 1) (Fin 1), AcquireRead (Fin 11) (Fin 1) (Fin 1),
       AcquireRead (Fin 12) (Fin 1) (Fin 1)] (0, broker_limiter_init 60 2 8 (Fin 1) (Fin 10))"
  have "fst ?run = 2"
    by (simp add: acquire_read_def check_day_limit_def await_minute_token_def replenish_def refill_def pmin_def
        broker_limiter_init_def float_eval Let_def)
  then show ?thesis
    using broker_limiter_budget[of 2 60 8 "[AcquireRead (Fin 10) (Fin 1) (Fin 1), AcquireRead (Fin 11) (Fin 1) (Fin 1),
       AcquireRead (Fin 12) (Fin 1) (Fin 1)]" "Fin 1" "Fin 10"]
    by (simp add: case_prod_beta)
qed

end
