(* ===== verification/Intrabar.thy ===== *)
theory Intrabar imports StrategyState begin

text \<open>
  Ordering of price events inside a bar, for the historical replay:
  \<^verbatim>\<open>services/strategy/replay_intrabar.py\<close> and \<^verbatim>\<open>services/strategy/replay_stops.py\<close>.  The resolvers see
  minute candles only; what they decide is compared with every sequence of prices a candle can stand
  for.  \<open>call\<close> is true for a long thesis, whose stop lies below its favorable levels.
\<close>

section \<open>Candles and levels\<close>

record resolution =
  rs_event :: string
  rs_ambiguous :: bool
  rs_event_time :: "timestamp option"
  rs_exit_price :: "pyfloat option"
  rs_detail :: "string option"

datatype direction_arg = DirEnum trade_direction | DirText string

fun direction_text :: "direction_arg \<Rightarrow> string" where
  "direction_text (DirEnum BULLISH) = ''BULLISH''"
| "direction_text (DirEnum BEARISH) = ''BEARISH''"
| "direction_text (DirText s) = s"

definition is_call :: "direction_arg \<Rightarrow> exn + bool" where
  "is_call d = (if direction_text d \<in> {''BULLISH'', ''CALL''} then Inr True
     else if direction_text d \<in> {''BEARISH'', ''PUT''} then Inr False
     else Inl (ValueError ''Unsupported direction''))"

definition adverse :: "bool \<Rightarrow> pyfloat \<Rightarrow> pyfloat \<Rightarrow> bool" where
  "adverse call stop p = (if call then fle p stop else fle stop p)"

definition reached :: "bool \<Rightarrow> pyfloat \<Rightarrow> pyfloat \<Rightarrow> bool" where
  "reached call level p = (if call then fle level p else fle p level)"

definition stop_hit :: "bool \<Rightarrow> pyfloat \<Rightarrow> candle \<Rightarrow> bool" where
  "stop_hit call stop c = (if call then fle (ca_low c) stop else fle stop (ca_high c))"

definition level_hit :: "bool \<Rightarrow> pyfloat \<Rightarrow> candle \<Rightarrow> bool" where
  "level_hit call level c = (if call then fle level (ca_high c) else fle (ca_low c) level)"

text \<open>The fill of a stop: the open when it is already beyond the stop, otherwise the stop.\<close>

definition stop_fill :: "bool \<Rightarrow> pyfloat \<Rightarrow> candle \<Rightarrow> pyfloat" where
  "stop_fill call stop c = (if adverse call stop (ca_open c) then ca_open c else stop)"

definition at_stop :: "string \<Rightarrow> bool \<Rightarrow> pyfloat \<Rightarrow> candle \<Rightarrow> resolution" where
  "at_stop event call stop c = \<lparr>rs_event = event, rs_ambiguous = False, rs_event_time = Some (ca_start_time c),
     rs_exit_price = Some (stop_fill call stop c), rs_detail = None\<rparr>"

definition unclear :: "candle \<Rightarrow> string \<Rightarrow> resolution" where
  "unclear c detail = \<lparr>rs_event = ''STILL_AMBIGUOUS'', rs_ambiguous = True, rs_event_time = Some (ca_start_time c),
     rs_exit_price = None, rs_detail = Some detail\<rparr>"

definition quiet :: "string \<Rightarrow> resolution" where
  "quiet event = \<lparr>rs_event = event, rs_ambiguous = False, rs_event_time = None, rs_exit_price = None, rs_detail = None\<rparr>"

definition by_time :: "candle list \<Rightarrow> candle list" where
  "by_time cs = sort_key ca_start_time cs"

section \<open>Entry bar: trigger against stop\<close>

definition bar_event :: "bool \<Rightarrow> pyfloat \<Rightarrow> pyfloat \<Rightarrow> candle \<Rightarrow> string option" where
  "bar_event call trigger stop c =
     (if \<not> level_hit call trigger c \<and> \<not> stop_hit call stop c then None
      else if level_hit call trigger c \<and> \<not> stop_hit call stop c then Some ''TRIGGER''
      else if stop_hit call stop c \<and> \<not> level_hit call trigger c then Some ''STOP''
      else if adverse call stop (ca_open c) then Some ''STOP_BEFORE_TRIGGER''
      else if reached call trigger (ca_open c) then Some ''TRIGGER_BEFORE_STOP''
      else Some ''SAME_MINUTE_AMBIGUOUS'')"

definition adverse_before_entry :: "candle \<Rightarrow> string \<Rightarrow> resolution" where
  "adverse_before_entry c detail = \<lparr>rs_event = ''ADVERSE_BEFORE_ENTRY'', rs_ambiguous = False,
     rs_event_time = Some (ca_start_time c), rs_exit_price = None, rs_detail = Some detail\<rparr>"

fun entry_loop :: "bool \<Rightarrow> pyfloat \<Rightarrow> pyfloat \<Rightarrow> bool \<Rightarrow> candle list \<Rightarrow> resolution" where
  "entry_loop call trigger stop saw_trigger [] =
     (if saw_trigger then quiet ''ENTRY_AND_SURVIVE''
      else (quiet ''STILL_AMBIGUOUS'')\<lparr>rs_ambiguous := True,
        rs_detail := Some ''the supplied 1-minute window did not establish a trigger''\<rparr>)"
| "entry_loop call trigger stop saw_trigger (c # cs) =
     (case bar_event call trigger stop c of
        None \<Rightarrow> entry_loop call trigger stop saw_trigger cs
      | Some event \<Rightarrow>
          if event = ''SAME_MINUTE_AMBIGUOUS''
          then unclear c ''trigger and stop both crossed inside one 1-minute candle''
          else if event = ''STOP_BEFORE_TRIGGER''
          then adverse_before_entry c ''stop level was reached before the trigger''
          else if event = ''TRIGGER_BEFORE_STOP''
          then (at_stop ''ENTRY_THEN_STOP'' call stop c)\<lparr>rs_detail :=
            Some ''trigger and stop were both crossed in one minute with trigger first''\<rparr>
          else if event = ''TRIGGER'' then entry_loop call trigger stop True cs
          else if event = ''STOP'' \<and> saw_trigger
          then (at_stop ''ENTRY_THEN_STOP'' call stop c)\<lparr>rs_detail := Some ''stop was crossed after the trigger''\<rparr>
          else adverse_before_entry c ''adverse stop touch preceded the trigger'')"

definition resolve_entry_candle :: "direction_arg \<Rightarrow> pyfloat \<Rightarrow> pyfloat \<Rightarrow> candle list \<Rightarrow> exn + resolution" where
  "resolve_entry_candle direction trigger_price active_stop minute_candles =
     (if fle trigger_price (Fin 0) \<or> fle active_stop (Fin 0)
      then Inl (ValueError ''trigger_price and active_stop must be positive'')
      else (case is_call direction of Inl e \<Rightarrow> Inl e
        | Inr call \<Rightarrow> Inr (entry_loop call trigger_price active_stop False (by_time minute_candles))))"

section \<open>Stop against an optional favorable level\<close>

fun stop_order_loop :: "bool \<Rightarrow> pyfloat \<Rightarrow> pyfloat option \<Rightarrow> candle list \<Rightarrow> resolution" where
  "stop_order_loop call stop favorable [] = quiet ''NO_STOP''"
| "stop_order_loop call stop favorable (c # cs) =
     (let favorable_hit = (case favorable of None \<Rightarrow> False | Some level \<Rightarrow> level_hit call level c) in
      if favorable_hit \<and> stop_hit call stop c then
        (if adverse call stop (ca_open c) then at_stop ''STRUCTURAL_STOP'' call stop c
         else if reached call (the favorable) (ca_open c) then at_stop ''FAVORABLE_THEN_STOP'' call stop c
         else unclear c ''favorable threshold and active stop both crossed in one 1-minute candle'')
      else if stop_hit call stop c then at_stop ''STRUCTURAL_STOP'' call stop c
      else stop_order_loop call stop favorable cs)"

definition resolve_stop_order :: "direction_arg \<Rightarrow> pyfloat \<Rightarrow> pyfloat option \<Rightarrow> candle list \<Rightarrow> exn + resolution" where
  "resolve_stop_order direction active_stop favorable_level minute_candles =
     (if fle active_stop (Fin 0) then Inl (ValueError ''active_stop must be positive'')
      else (case is_call direction of Inl e \<Rightarrow> Inl e
        | Inr call \<Rightarrow> Inr (stop_order_loop call active_stop favorable_level (by_time minute_candles))))"

section \<open>A favorable transition against the stop it activates\<close>

fun transition_loop :: "bool \<Rightarrow> pyfloat \<Rightarrow> pyfloat \<Rightarrow> pyfloat \<Rightarrow> bool \<Rightarrow> candle list \<Rightarrow> resolution" where
  "transition_loop call stop level new_stop transitioned [] =
     quiet (if transitioned then ''TRANSITION_AND_SURVIVE'' else ''NO_EVENT'')"
| "transition_loop call stop level new_stop transitioned (c # cs) =
     (let old_stop_hit = stop_hit call stop c; transition_hit = level_hit call level c;
          new_stop_hit = stop_hit call new_stop c;
          after = (if new_stop_hit then at_stop ''TRANSITION_THEN_STOP'' call new_stop c
                   else transition_loop call stop level new_stop True cs) in
      if transitioned then after
      else if old_stop_hit \<and> transition_hit then
        (if adverse call stop (ca_open c) then at_stop ''STRUCTURAL_STOP'' call stop c
         else if reached call level (ca_open c) then after
         else unclear c ''transition and pre-transition stop crossed in one 1-minute candle'')
      else if old_stop_hit then at_stop ''STRUCTURAL_STOP'' call stop c
      else if transition_hit then
        (if new_stop_hit \<and> \<not> reached call level (ca_open c)
         then unclear c ''new stop was touched in the same minute it became active'' else after)
      else if new_stop_hit then at_stop ''TRANSITION_THEN_STOP'' call new_stop c
      else transition_loop call stop level new_stop False cs)"

definition resolve_active_stop_transition ::
  "direction_arg \<Rightarrow> pyfloat \<Rightarrow> pyfloat \<Rightarrow> pyfloat \<Rightarrow> candle list \<Rightarrow> exn + resolution" where
  "resolve_active_stop_transition direction active_stop transition_level transitioned_stop minute_candles =
     (if fle (pmin (pmin active_stop transition_level) transitioned_stop) (Fin 0)
      then Inl (ValueError ''stop and transition levels must be positive'')
      else (case is_call direction of Inl e \<Rightarrow> Inl e
        | Inr call \<Rightarrow> Inr (transition_loop call active_stop transition_level transitioned_stop False (by_time minute_candles))))"

section \<open>Stop against target\<close>

definition at_target :: "pyfloat \<Rightarrow> candle \<Rightarrow> resolution" where
  "at_target target c = \<lparr>rs_event = ''TARGET'', rs_ambiguous = False, rs_event_time = Some (ca_start_time c),
     rs_exit_price = Some target, rs_detail = None\<rparr>"

fun stop_target_loop :: "bool \<Rightarrow> pyfloat \<Rightarrow> pyfloat \<Rightarrow> candle list \<Rightarrow> resolution" where
  "stop_target_loop call stop target [] = quiet ''NO_EVENT''"
| "stop_target_loop call stop target (c # cs) =
     (if \<not> stop_hit call stop c \<and> \<not> level_hit call target c then stop_target_loop call stop target cs
      else if stop_hit call stop c \<and> level_hit call target c then
        (if adverse call stop (ca_open c) then at_stop ''STRUCTURAL_STOP'' call stop c
         else if reached call target (ca_open c) then at_target target c
         else unclear c ''stop and target crossed in one 1-minute candle'')
      else if stop_hit call stop c then at_stop ''STRUCTURAL_STOP'' call stop c
      else at_target target c)"

definition resolve_stop_target_order :: "direction_arg \<Rightarrow> pyfloat \<Rightarrow> pyfloat \<Rightarrow> candle list \<Rightarrow> exn + resolution" where
  "resolve_stop_target_order direction active_stop target minute_candles =
     (if fle (pmin active_stop target) (Fin 0) then Inl (ValueError ''stop and target must be positive'')
      else (case is_call direction of Inl e \<Rightarrow> Inl e
        | Inr call \<Rightarrow> Inr (stop_target_loop call active_stop target (by_time minute_candles))))"

section \<open>One candle against the active stop\<close>

record replay_stop_decision =
  rd_event :: string
  rd_crossed :: bool
  rd_ambiguous :: bool
  rd_stop_level :: pyfloat
  rd_exit_price :: "pyfloat option"

definition evaluate_replay_candle ::
  "direction_arg \<Rightarrow> pyfloat \<Rightarrow> pyfloat \<Rightarrow> pyfloat \<Rightarrow> pyfloat \<Rightarrow> bool \<Rightarrow> bool \<Rightarrow> exn + replay_stop_decision" where
  "evaluate_replay_candle direction candle_open candle_high candle_low active_stop entry_candle thesis_invalidated =
     (if fle active_stop (Fin 0) then Inl (ValueError ''active_stop must be positive'')
      else if flt candle_high candle_low then Inl (ValueError ''candle_low must not exceed candle_high'')
      else (case is_call direction of Inl e \<Rightarrow> Inl e
        | Inr call \<Rightarrow> Inr
           (if (if call then fle candle_low active_stop else fle active_stop candle_high) then
              (if entry_candle then \<lparr>rd_event = ''AMBIGUOUS_ENTRY_CANDLE'', rd_crossed = True, rd_ambiguous = True,
                 rd_stop_level = active_stop, rd_exit_price = None\<rparr>
               else \<lparr>rd_event = ''STRUCTURAL_STOP'', rd_crossed = True, rd_ambiguous = False,
                 rd_stop_level = active_stop,
                 rd_exit_price = Some (if adverse call active_stop candle_open then candle_open else active_stop)\<rparr>)
            else \<lparr>rd_event = (if thesis_invalidated then ''THESIS_INVALIDATION'' else ''NO_EXIT''), rd_crossed = False,
              rd_ambiguous = False, rd_stop_level = active_stop, rd_exit_price = None\<rparr>)))"

section \<open>What a candle stands for\<close>

text \<open>
  The ticks of a minute start at the open, end at the close, stay within the range and touch both ends
  of it.  A path of a window is one such sequence per candle.
\<close>

type_synonym tick = "timestamp \<times> pyfloat"

definition ticks_of :: "candle \<Rightarrow> tick list \<Rightarrow> bool" where
  "ticks_of c ts \<longleftrightarrow> ts \<noteq> [] \<and> snd (hd ts) = ca_open c \<and> snd (last ts) = ca_close c
     \<and> list_all (\<lambda>p. fst p = ca_start_time c \<and> fle (ca_low c) (snd p) \<and> fle (snd p) (ca_high c)) ts
     \<and> ca_low c \<in> set (map snd ts) \<and> ca_high c \<in> set (map snd ts)"

inductive path :: "candle list \<Rightarrow> tick list \<Rightarrow> bool" where
  path_Nil: "path [] []"
| path_Cons: "ticks_of c ts \<Longrightarrow> path cs ps \<Longrightarrow> path (c # cs) (ts @ ps)"

inductive_cases path_NilE: "path [] ps"
inductive_cases path_ConsE: "path (c # cs) ps"

definition proper :: "candle \<Rightarrow> bool" where
  "proper c \<longleftrightarrow> fle (ca_low c) (ca_open c) \<and> fle (ca_open c) (ca_high c)
     \<and> fle (ca_low c) (ca_close c) \<and> fle (ca_close c) (ca_high c)"

text \<open>The level lies on the favorable side of the stop, so that no price touches both.\<close>

definition beyond :: "bool \<Rightarrow> pyfloat \<Rightarrow> pyfloat \<Rightarrow> bool" where
  "beyond call stop level \<longleftrightarrow> (if call then flt stop level else flt level stop)"

section \<open>What really happened on a path\<close>

datatype verdict = Stopped timestamp | ThenStopped timestamp | Survived | Nothing

text \<open>Until the level is reached \<open>stop\<close> is in force, afterwards \<open>new_stop\<close>.\<close>

fun scan :: "bool \<Rightarrow> pyfloat \<Rightarrow> pyfloat \<Rightarrow> pyfloat \<Rightarrow> bool \<Rightarrow> tick list \<Rightarrow> verdict" where
  "scan call stop level new_stop active [] = (if active then Survived else Nothing)"
| "scan call stop level new_stop active ((t, p) # ps) =
     (if active then (if adverse call new_stop p then ThenStopped t else scan call stop level new_stop True ps)
      else if adverse call stop p then Stopped t
      else scan call stop level new_stop (reached call level p) ps)"

text \<open>The first of stop and target.\<close>

fun first_touch :: "bool \<Rightarrow> pyfloat \<Rightarrow> pyfloat \<Rightarrow> tick list \<Rightarrow> string \<times> timestamp option" where
  "first_touch call stop target [] = (''NO_EVENT'', None)"
| "first_touch call stop target ((t, p) # ps) =
     (if adverse call stop p then (''STRUCTURAL_STOP'', Some t)
      else if reached call target p then (''TARGET'', Some t)
      else first_touch call stop target ps)"

fun entry_report :: "verdict \<Rightarrow> string \<times> timestamp option" where
  "entry_report (Stopped t) = (''ADVERSE_BEFORE_ENTRY'', Some t)"
| "entry_report (ThenStopped t) = (''ENTRY_THEN_STOP'', Some t)"
| "entry_report Survived = (''ENTRY_AND_SURVIVE'', None)"
| "entry_report Nothing = (''NO_TRIGGER'', None)"

fun transition_report :: "verdict \<Rightarrow> string \<times> timestamp option" where
  "transition_report (Stopped t) = (''STRUCTURAL_STOP'', Some t)"
| "transition_report (ThenStopped t) = (''TRANSITION_THEN_STOP'', Some t)"
| "transition_report Survived = (''TRANSITION_AND_SURVIVE'', None)"
| "transition_report Nothing = (''NO_EVENT'', None)"

definition report_of :: "resolution \<Rightarrow> string \<times> timestamp option" where
  "report_of r = (rs_event r, rs_event_time r)"

section \<open>Touches of a candle and of its ticks\<close>

lemma ticks_range:
  assumes "ticks_of c ts" "p \<in> set ts"
  shows "fle (ca_low c) (snd p)" "fle (snd p) (ca_high c)" "fst p = ca_start_time c"
  using assms by (simp_all add: ticks_of_def list_all_iff)

lemma ticks_ends:
  assumes "ticks_of c ts"
  obtains p q where "p \<in> set ts" "snd p = ca_low c" "q \<in> set ts" "snd q = ca_high c"
  using assms by (force simp: ticks_of_def)

lemma stop_hit_ticks:
  assumes "ticks_of c ts"
  shows "stop_hit call stop c \<longleftrightarrow> list_ex (\<lambda>p. adverse call stop (snd p)) ts"
  using ticks_ends[OF assms] ticks_range(1,2)[OF assms] fle_trans
  unfolding stop_hit_def adverse_def list_ex_iff by metis

lemma level_hit_ticks:
  assumes "ticks_of c ts"
  shows "level_hit call level c \<longleftrightarrow> list_ex (\<lambda>p. reached call level (snd p)) ts"
  using ticks_ends[OF assms] ticks_range(1,2)[OF assms] fle_trans
  unfolding level_hit_def reached_def list_ex_iff by metis

lemma ticks_same_time: "ticks_of c ts \<Longrightarrow> list_all (\<lambda>p. fst p = ca_start_time c) ts"
  by (simp add: ticks_of_def list_all_iff)

lemma beyond_apart: "beyond call stop level \<Longrightarrow> adverse call stop p \<Longrightarrow> \<not> reached call level p"
  by (cases call; cases stop; cases level; cases p) (auto simp: beyond_def adverse_def reached_def)

text \<open>The ticks of one minute as a run: what the first touch decides.\<close>

lemma scan_idle:
  "\<not> list_ex (\<lambda>p. adverse call stop (snd p)) ts \<Longrightarrow> \<not> list_ex (\<lambda>p. reached call level (snd p)) ts \<Longrightarrow>
    scan call stop level new_stop False (ts @ ps) = scan call stop level new_stop False ps"
  by (induction ts) auto

lemma scan_active:
  "list_all (\<lambda>p. fst p = t) ts \<Longrightarrow> scan call stop level new_stop True (ts @ ps) =
    (if list_ex (\<lambda>p. adverse call new_stop (snd p)) ts then ThenStopped t else scan call stop level new_stop True ps)"
  by (induction ts) auto

lemma scan_stop:
  "list_all (\<lambda>p. fst p = t) ts \<Longrightarrow> list_ex (\<lambda>p. adverse call stop (snd p)) ts \<Longrightarrow>
    \<not> list_ex (\<lambda>p. reached call level (snd p)) ts \<Longrightarrow>
    scan call stop level new_stop False (ts @ ps) = Stopped t"
  by (induction ts) auto

lemma scan_reach:
  "list_ex (\<lambda>p. reached call level (snd p)) ts \<Longrightarrow> \<not> list_ex (\<lambda>p. adverse call stop (snd p)) ts \<Longrightarrow>
   \<not> list_ex (\<lambda>p. adverse call new_stop (snd p)) ts \<Longrightarrow>
    scan call stop level new_stop False (ts @ ps) = scan call stop level new_stop True ps"
proof (induction ts)
  case (Cons p ts)
  have "scan call stop level new_stop True (ts @ ps) = scan call stop level new_stop True ps"
    using Cons.prems(3) by (induction ts) auto
  then show ?case using Cons by (cases p; cases "reached call level (snd p)") auto
qed simp

lemma first_touch_ticks:
  "list_all (\<lambda>p. fst p = t) ts \<Longrightarrow> first_touch call stop target (ts @ ps) =
   (if list_ex (\<lambda>p. adverse call stop (snd p)) ts \<and> \<not> list_ex (\<lambda>p. reached call target (snd p)) ts
      then (''STRUCTURAL_STOP'', Some t)
    else if list_ex (\<lambda>p. reached call target (snd p)) ts \<and> \<not> list_ex (\<lambda>p. adverse call stop (snd p)) ts
      then (''TARGET'', Some t)
    else if \<not> list_ex (\<lambda>p. adverse call stop (snd p)) ts then first_touch call stop target ps
    else first_touch call stop target (ts @ ps))"
  by (induction ts) auto

text \<open>The open is the first tick.\<close>

lemma ticks_cons: "ticks_of c ts \<Longrightarrow> \<exists>ts'. ts = (ca_start_time c, ca_open c) # ts'"
  by (cases ts) (auto simp: ticks_of_def prod_eq_iff)

lemma scan_open_stop:
  "ticks_of c ts \<Longrightarrow> adverse call stop (ca_open c) \<Longrightarrow> scan call stop level new_stop False (ts @ ps) = Stopped (ca_start_time c)"
  by (drule ticks_cons) auto

lemma scan_active_candle:
  "ticks_of c ts \<Longrightarrow> scan call stop level new_stop True (ts @ ps) =
    (if stop_hit call new_stop c then ThenStopped (ca_start_time c) else scan call stop level new_stop True ps)"
  by (simp add: scan_active[OF ticks_same_time] stop_hit_ticks)

lemma scan_open_reach:
  assumes "ticks_of c ts" "\<not> adverse call stop (ca_open c)" "reached call level (ca_open c)" "\<not> adverse call new_stop (ca_open c)"
  shows "scan call stop level new_stop False (ts @ ps) =
    (if stop_hit call new_stop c then ThenStopped (ca_start_time c) else scan call stop level new_stop True ps)"
proof -
  obtain ts' where "ts = (ca_start_time c, ca_open c) # ts'" using ticks_cons[OF assms(1)] by blast
  then have "scan call stop level new_stop False (ts @ ps) = scan call stop level new_stop True (ts @ ps)"
    using assms by simp
  then show ?thesis by (simp add: scan_active_candle[OF assms(1)])
qed

lemma first_touch_open:
  assumes "ticks_of c ts"
  shows "adverse call stop (ca_open c) \<Longrightarrow> first_touch call stop target (ts @ ps) = (''STRUCTURAL_STOP'', Some (ca_start_time c))"
    and "\<not> adverse call stop (ca_open c) \<Longrightarrow> reached call target (ca_open c) \<Longrightarrow>
      first_touch call stop target (ts @ ps) = (''TARGET'', Some (ca_start_time c))"
  using ticks_cons[OF assms] by auto

lemma report_simps [simp]:
  "report_of (at_stop e call stop c) = (e, Some (ca_start_time c))" "report_of (at_target l c) = (''TARGET'', Some (ca_start_time c))"
  "report_of (quiet e) = (e, None)" "rs_ambiguous (unclear c d)" "\<not> rs_ambiguous (at_stop e call stop c)"
  "\<not> rs_ambiguous (at_target l c)" "\<not> rs_ambiguous (quiet e)"
  by (simp_all add: report_of_def at_stop_def at_target_def quiet_def unclear_def)

section \<open>Stop against target: the verdict is exact\<close>

lemma stop_target_sound:
  assumes "path cs ps" "\<not> rs_ambiguous (stop_target_loop call stop target cs)"
  shows "first_touch call stop target ps = report_of (stop_target_loop call stop target cs)"
  using assms
proof (induction)
  case (path_Cons c ts cs ps)
  note hits = stop_hit_ticks[OF path_Cons.hyps(1)] level_hit_ticks[OF path_Cons.hyps(1)]
  note touch = first_touch_ticks[OF ticks_same_time[OF path_Cons.hyps(1)], of call stop target ps]
  show ?case
  proof (cases "stop_hit call stop c \<and> level_hit call target c")
    case True
    then show ?thesis using path_Cons.prems first_touch_open[OF path_Cons.hyps(1)]
      by (auto split: if_splits)
  next
    case False
    then show ?thesis using path_Cons.IH path_Cons.prems touch
      by (auto simp: hits split: if_splits)
  qed
qed simp

text \<open>The two orders a candle that is not decided by its open leaves possible.\<close>

definition worst_first :: "bool \<Rightarrow> candle \<Rightarrow> tick list" where
  "worst_first call c = map (Pair (ca_start_time c)) [ca_open c, if call then ca_low c else ca_high c,
     if call then ca_high c else ca_low c, ca_close c]"

lemma worst_first_ticks: "proper c \<Longrightarrow> ticks_of c (worst_first call c)"
  using fle_trans[of "ca_low c" "ca_open c" "ca_high c"] fle_not_NaN[of "ca_low c" "ca_open c"] fle_not_NaN[of "ca_open c" "ca_high c"]
  by (auto simp: proper_def worst_first_def ticks_of_def)

lemma path_exists: "list_all proper cs \<Longrightarrow> \<exists>ps. path cs ps"
  by (induction cs) (auto intro: path.intros worst_first_ticks)

lemma stop_target_ambiguous:
  assumes "list_all proper cs" "rs_ambiguous (stop_target_loop call stop target cs)" "beyond call stop target"
  shows "\<exists>ps ps'. path cs ps \<and> path cs ps' \<and> first_touch call stop target ps \<noteq> first_touch call stop target ps'"
  using assms(1,2)
proof (induction cs)
  case (Cons c cs)
  have p: "proper c" and ps: "list_all proper cs" using Cons.prems by simp_all
  show ?case
  proof (cases "stop_hit call stop c \<or> level_hit call target c")
    case False
    then obtain ps ps' where "path cs ps" "path cs ps'" "first_touch call stop target ps \<noteq> first_touch call stop target ps'"
      using Cons by auto
    moreover have t: "ticks_of c (worst_first call c)" by (rule worst_first_ticks[OF p])
    moreover have "first_touch call stop target (worst_first call c @ xs) = first_touch call stop target xs" for xs
      using first_touch_ticks[OF ticks_same_time[OF t], of call stop target xs] False
      by (simp add: stop_hit_ticks[OF t] level_hit_ticks[OF t])
    ultimately show ?thesis by (metis path_Cons)
  next
    case True
    then have both: "stop_hit call stop c" "level_hit call target c" "\<not> adverse call stop (ca_open c)"
      "\<not> reached call target (ca_open c)" using Cons.prems(2) by (auto split: if_splits)
    obtain ps where ps: "path cs ps" using path_exists ps by blast
    have "first_touch call stop target (worst_first call c @ ps) = (''STRUCTURAL_STOP'', Some (ca_start_time c))"
      using both by (auto simp: worst_first_def stop_hit_def adverse_def)
    moreover have "first_touch call stop target (worst_first (\<not> call) c @ ps) = (''TARGET'', Some (ca_start_time c))"
    proof -
      let ?best = "if call then ca_high c else ca_low c"
      have r: "reached call target ?best" using both(2) by (simp add: level_hit_def reached_def)
      then have "\<not> adverse call stop ?best" using beyond_apart[OF assms(3)] by blast
      then show ?thesis using both r by (auto simp: worst_first_def split: if_splits)
    qed
    ultimately show ?thesis using worst_first_ticks[OF p] ps
      by (intro exI[of _ "worst_first call c @ ps"] exI[of _ "worst_first (\<not> call) c @ ps"]) (auto intro: path_Cons)
  qed
qed simp

section \<open>Entry and transition: what makes a verdict right\<close>

text \<open>Every time a resolver names is that of a candle it looked at.\<close>

lemma entry_loop_time:
  "rs_event (entry_loop call trigger stop saw cs) = ''ADVERSE_BEFORE_ENTRY'' \<Longrightarrow>
    \<exists>c \<in> set cs. rs_event_time (entry_loop call trigger stop saw cs) = Some (ca_start_time c)"
  by (induction cs arbitrary: saw)
    (auto simp: quiet_def unclear_def at_stop_def adverse_before_entry_def split: if_splits option.splits)

lemma entry_sound:
  assumes "path cs ps" "sorted_wrt (<) (map ca_start_time cs)" "beyond call stop trigger"
    and "\<not> rs_ambiguous (entry_loop call trigger stop saw cs)"
    and "saw \<Longrightarrow> rs_event (entry_loop call trigger stop saw cs) \<noteq> ''ADVERSE_BEFORE_ENTRY''"
    and "\<And>c t. rs_event (entry_loop call trigger stop saw cs) = ''ADVERSE_BEFORE_ENTRY'' \<Longrightarrow>
      rs_event_time (entry_loop call trigger stop saw cs) = Some t \<Longrightarrow>
      c \<in> set cs \<Longrightarrow> level_hit call trigger c \<Longrightarrow> t \<le> ca_start_time c"
  shows "entry_report (scan call stop trigger stop saw ps) = report_of (entry_loop call trigger stop saw cs)"
  using assms(1,2,4-)
proof (induction arbitrary: saw)
  case path_Nil
  then show ?case by (cases saw) (auto simp: quiet_def report_of_def)
next
  case (path_Cons c ts cs ps)
  note t = path_Cons.hyps(1)
  note hits = stop_hit_ticks[OF t] level_hit_ticks[OF t]
  let ?S = "stop_hit call stop c" and ?L = "level_hit call trigger c"
  let ?rest = "entry_loop call trigger stop"
  have apart: "reached call trigger p \<Longrightarrow> \<not> adverse call stop p" for p
    using beyond_apart[OF assms(3)] by blast
  consider (idle) "\<not> ?S" "\<not> ?L" | (level) "\<not> ?S" "?L" | (stop) "?S" "\<not> ?L" | (both) "?S" "?L" by blast
  then show ?case
  proof cases
    case idle
    then have e: "?rest saw (c # cs) = ?rest saw cs" by (simp add: bar_event_def)
    have "scan call stop trigger stop saw (ts @ ps) = scan call stop trigger stop saw ps"
      using idle scan_active_candle[OF t] by (cases saw) (simp_all add: scan_idle hits)
    then show ?thesis using path_Cons.IH[of saw] path_Cons.prems unfolding e by auto
  next
    case level
    then have e: "?rest saw (c # cs) = ?rest True cs" by (simp add: bar_event_def)
    have "rs_event (?rest True cs) \<noteq> ''ADVERSE_BEFORE_ENTRY''"
    proof
      assume a: "rs_event (?rest True cs) = ''ADVERSE_BEFORE_ENTRY''"
      then obtain d where "d \<in> set cs" "rs_event_time (?rest True cs) = Some (ca_start_time d)"
        using entry_loop_time by blast
      then show False using path_Cons.prems(1,4)[unfolded e] a level(2) by fastforce
    qed
    moreover have "scan call stop trigger stop saw (ts @ ps) = scan call stop trigger stop True ps"
      using level scan_active_candle[OF t] by (cases saw) (simp_all add: scan_reach hits)
    ultimately show ?thesis using path_Cons.IH[of True] path_Cons.prems unfolding e by auto
  next
    case stop
    then show ?thesis using path_Cons.prems scan_active_candle[OF t] scan_stop[OF ticks_same_time[OF t]]
      by (cases saw) (auto simp: bar_event_def hits adverse_before_entry_def report_of_def at_stop_def)
  next
    case both
    have ev: "bar_event call trigger stop c = (if adverse call stop (ca_open c) then Some ''STOP_BEFORE_TRIGGER''
        else if reached call trigger (ca_open c) then Some ''TRIGGER_BEFORE_STOP'' else Some ''SAME_MINUTE_AMBIGUOUS'')"
      using both by (simp add: bar_event_def)
    show ?thesis
      using path_Cons.prems both ev scan_open_stop[OF t] scan_open_reach[OF t] apart scan_active_candle[OF t]
      by (cases saw; cases "adverse call stop (ca_open c)"; cases "reached call trigger (ca_open c)")
        (auto simp: adverse_before_entry_def report_of_def at_stop_def unclear_def)
  qed
qed

lemma transition_sound:
  assumes "path cs ps" "sorted_wrt (<) (map ca_start_time cs)" "beyond call stop level" "beyond call new_stop level"
    and "\<not> rs_ambiguous (transition_loop call stop level new_stop active cs)"
    and "\<And>t. \<not> active \<Longrightarrow> rs_event (transition_loop call stop level new_stop active cs) = ''TRANSITION_THEN_STOP'' \<Longrightarrow>
      rs_event_time (transition_loop call stop level new_stop active cs) = Some t \<Longrightarrow>
      \<exists>c \<in> set cs. level_hit call level c \<and> ca_start_time c \<le> t"
  shows "transition_report (scan call stop level new_stop active ps)
    = report_of (transition_loop call stop level new_stop active cs)"
  using assms(1,2,5-)
proof (induction arbitrary: active)
  case path_Nil
  then show ?case by (auto simp: quiet_def report_of_def)
next
  case (path_Cons c ts cs ps)
  note t = path_Cons.hyps(1)
  note hits = stop_hit_ticks[OF t] level_hit_ticks[OF t]
  let ?S = "stop_hit call stop c" and ?L = "level_hit call level c" and ?N = "stop_hit call new_stop c"
  have apart: "reached call level p \<Longrightarrow> \<not> adverse call stop p \<and> \<not> adverse call new_stop p" for p
    using beyond_apart[OF assms(3)] beyond_apart[OF assms(4)] by blast
  have ih: "\<not> rs_ambiguous (transition_loop call stop level new_stop True cs) \<Longrightarrow>
      transition_report (scan call stop level new_stop True ps) = report_of (transition_loop call stop level new_stop True cs)"
    using path_Cons.IH[of True] path_Cons.prems(1) by simp
  have act: "transition_report (scan call stop level new_stop True (ts @ ps))
      = report_of (transition_loop call stop level new_stop True (c # cs))"
    if "\<not> rs_ambiguous (transition_loop call stop level new_stop True (c # cs))"
    using that ih by (auto simp: scan_active_candle[OF t] split: if_splits)
  consider (on) active | (idle) "\<not> active" "\<not> ?S" "\<not> ?L" | (stop) "\<not> active" "?S" "\<not> ?L"
    | (level) "\<not> active" "\<not> ?S" "?L" | (both) "\<not> active" "?S" "?L" by blast
  then show ?case
  proof cases
    case on
    then show ?thesis using act path_Cons.prems(2) by simp
  next
    case idle
    have "\<not> ?N"
    proof
      assume "?N"
      then have "\<exists>d \<in> set cs. ca_start_time d \<le> ca_start_time c"
        using path_Cons.prems(3)[of "ca_start_time c"] idle by (auto simp: at_stop_def)
      then show False using path_Cons.prems(1) by force
    qed
    then have e: "transition_loop call stop level new_stop active (c # cs) = transition_loop call stop level new_stop active cs"
      using idle by simp
    show ?thesis using path_Cons.IH[of active] path_Cons.prems idle unfolding e by (auto simp: scan_idle hits)
  next
    case stop
    then show ?thesis using scan_stop[OF ticks_same_time[OF t]] by (simp add: hits)
  next
    case level
    show ?thesis
    proof (cases "reached call level (ca_open c)")
      case True
      then show ?thesis using level ih path_Cons.prems(2) apart scan_open_reach[OF t _ True]
        by (auto split: if_splits)
    next
      case False
      then have "\<not> ?N" using level path_Cons.prems(2) by auto
      then show ?thesis using level ih path_Cons.prems(2) False by (simp add: scan_reach hits)
    qed
  next
    case both
    then show ?thesis using ih path_Cons.prems(2) apart scan_open_reach[OF t] scan_open_stop[OF t]
      by (auto split: if_splits)
  qed
qed

section \<open>Properties\<close>

lemma by_time_strict: "distinct (map ca_start_time cs) \<Longrightarrow> sorted_wrt (<) (map ca_start_time (by_time cs))"
proof -
  assume d: "distinct (map ca_start_time cs)"
  have "distinct (map ca_start_time (by_time cs))"
    unfolding by_time_def distinct_map using d by (simp add: distinct_map)
  then show ?thesis by (simp add: strict_sorted_iff by_time_def)
qed

lemma by_time_set [simp]: "set (by_time cs) = set cs"
  by (simp add: by_time_def)

text \<open>
  C35. The order of stop and target is resolved exactly: a definite verdict (which touch came first, in
  which minute, or that neither came) is true of every price path the minute candles can stand for,
  and the verdict is ambiguous only when two such paths disagree.
\<close>

theorem stop_target_exact:
  assumes "resolve_stop_target_order direction stop target cs = Inr r" "is_call direction = Inr call"
    and "beyond call stop target" "\<forall>c \<in> set cs. proper c"
  shows "if rs_ambiguous r
    then \<exists>ps ps'. path (by_time cs) ps \<and> path (by_time cs) ps' \<and> first_touch call stop target ps \<noteq> first_touch call stop target ps'
    else \<forall>ps. path (by_time cs) ps \<longrightarrow> first_touch call stop target ps = report_of r"
proof -
  have r: "r = stop_target_loop call stop target (by_time cs)"
    using assms(1,2) by (simp add: resolve_stop_target_order_def split: if_splits)
  then show ?thesis
    using stop_target_ambiguous[of "by_time cs"] stop_target_sound[of "by_time cs"] assms(3,4)
    by (auto simp: list_all_iff)
qed

definition minute_candle :: "timestamp \<Rightarrow> pyfloat \<Rightarrow> pyfloat \<Rightarrow> pyfloat \<Rightarrow> pyfloat \<Rightarrow> candle" where
  "minute_candle t opening high low close = \<lparr>ca_instrument_id = ''FUT'', ca_interval = ''1m'', ca_start_time = t,
     ca_end_time = t + minutes 1, ca_open = opening, ca_high = high, ca_low = low, ca_close = close,
     ca_volume = 0, ca_open_interest = 0, ca_source = ''BREEZE''\<rparr>"

text \<open>A quiet minute, then one that opens through the target and falls to the stop.\<close>

definition sample_window :: "candle list" where
  "sample_window = [minute_candle (minutes 1) (Fin 106) (Fin 107) (Fin 94) (Fin 95),
     minute_candle 0 (Fin 100) (Fin 102) (Fin 98) (Fin 101)]"

theorem stop_target_exact_witness:
  "resolve_stop_target_order (DirText ''CALL'') (Fin 95) (Fin 105) sample_window = Inr (at_target (Fin 105) (hd sample_window))
   \<and> (\<exists>ps. path (by_time sample_window) ps \<and> first_touch True (Fin 95) (Fin 105) ps = (''TARGET'', Some (minutes 1)))"
proof -
  have r: "resolve_stop_target_order (DirText ''CALL'') (Fin 95) (Fin 105) sample_window = Inr (at_target (Fin 105) (hd sample_window))"
    by code_simp
  have c: "is_call (DirText ''CALL'') = Inr True" by code_simp
  have b: "beyond True (Fin 95) (Fin 105)" by (simp add: beyond_def)
  have p: "\<forall>c \<in> set sample_window. proper c" by (simp add: proper_def sample_window_def minute_candle_def)
  then obtain ps where "path (by_time sample_window) ps" using path_exists[of "by_time sample_window"] by (auto simp: list_all_iff)
  then show ?thesis using r stop_target_exact[OF r c b p] by (auto simp: sample_window_def minute_candle_def)
qed

text \<open>
  The entry bar is resolved soundly: a definite verdict (entered and stopped, entered and not
  stopped, or moved against before the trigger, and in which minute) is true of every price path,
  unless it reports an adverse move in a minute after one that had already reached the trigger.
\<close>

theorem entry_order_sound:
  assumes "resolve_entry_candle direction trigger stop cs = Inr r" "is_call direction = Inr call"
    and "distinct (map ca_start_time cs)" "beyond call stop trigger" "\<not> rs_ambiguous r"
    and "\<forall>c \<in> set cs. \<forall>t. report_of r = (''ADVERSE_BEFORE_ENTRY'', Some t) \<and> level_hit call trigger c \<longrightarrow> t \<le> ca_start_time c"
  shows "\<forall>ps. path (by_time cs) ps \<longrightarrow> entry_report (scan call stop trigger stop False ps) = report_of r"
proof (intro allI impI)
  fix ps assume p: "path (by_time cs) ps"
  have "r = entry_loop call trigger stop False (by_time cs)"
    using assms(1,2) by (auto simp: resolve_entry_candle_def split: if_splits)
  then show "entry_report (scan call stop trigger stop False ps) = report_of r"
    using entry_sound[OF p by_time_strict[OF assms(3)], of call stop trigger False] assms(4-)
    by (auto simp: report_of_def)
qed

text \<open>The trigger in the first minute, the stop in the second: a loss, not a missed entry.\<close>

definition trigger_then_stop :: "candle list" where
  "trigger_then_stop = [minute_candle 0 (Fin 99) (Fin 101) (Fin 98) (Fin 100), minute_candle (minutes 1) (Fin 99) (Fin 99) (Fin 94) (Fin 95)]"

theorem entry_order_sound_witness:
  "\<exists>r. resolve_entry_candle (DirText ''CALL'') (Fin 100) (Fin 95) trigger_then_stop = Inr r
    \<and> report_of r = (''ENTRY_THEN_STOP'', Some (minutes 1))
    \<and> (\<exists>ps. path (by_time trigger_then_stop) ps \<and> entry_report (scan True (Fin 95) (Fin 100) (Fin 95) False ps) = report_of r)"
proof -
  let ?r = "(at_stop ''ENTRY_THEN_STOP'' True (Fin 95) (trigger_then_stop ! 1))\<lparr>rs_detail := Some ''stop was crossed after the trigger''\<rparr>"
  have r: "resolve_entry_candle (DirText ''CALL'') (Fin 100) (Fin 95) trigger_then_stop = Inr ?r" by code_simp
  have c: "is_call (DirText ''CALL'') = Inr True" by code_simp
  have d: "distinct (map ca_start_time trigger_then_stop)" by (simp add: trigger_then_stop_def minute_candle_def)
  have rep: "report_of ?r = (''ENTRY_THEN_STOP'', Some (minutes 1))" "\<not> rs_ambiguous ?r" by code_simp+
  have noadv: "\<forall>c \<in> set trigger_then_stop. \<forall>t. report_of ?r = (''ADVERSE_BEFORE_ENTRY'', Some t)
      \<and> level_hit True (Fin 100) c \<longrightarrow> t \<le> ca_start_time c"
    unfolding rep(1) by simp
  have "beyond True (Fin 95) (Fin 100)" by (simp add: beyond_def)
  then have "\<forall>ps. path (by_time trigger_then_stop) ps \<longrightarrow> entry_report (scan True (Fin 95) (Fin 100) (Fin 95) False ps) = report_of ?r"
    by (rule entry_order_sound[OF r c d _ rep(2) noadv])
  moreover obtain ps where "path (by_time trigger_then_stop) ps"
    using path_exists[of "by_time trigger_then_stop"]
    by (auto simp: list_all_iff trigger_then_stop_def proper_def minute_candle_def)
  ultimately show ?thesis using r rep(1) by blast
qed

text \<open>
  A trailing transition is resolved soundly: a definite verdict (the old stop, or the new stop
  after the transition level, and in which minute, or neither) is true of every price path, unless it
  reports the new stop before any minute has reached the transition level.
\<close>

theorem transition_order_sound:
  assumes "resolve_active_stop_transition direction stop level new_stop cs = Inr r" "is_call direction = Inr call"
    and "distinct (map ca_start_time cs)" "beyond call stop level" "beyond call new_stop level" "\<not> rs_ambiguous r"
    and "\<forall>t. report_of r = (''TRANSITION_THEN_STOP'', Some t) \<longrightarrow> (\<exists>c \<in> set cs. level_hit call level c \<and> ca_start_time c \<le> t)"
  shows "\<forall>ps. path (by_time cs) ps \<longrightarrow> transition_report (scan call stop level new_stop False ps) = report_of r"
proof (intro allI impI)
  fix ps assume p: "path (by_time cs) ps"
  have "r = transition_loop call stop level new_stop False (by_time cs)"
    using assms(1,2) by (auto simp: resolve_active_stop_transition_def split: if_splits)
  then show "transition_report (scan call stop level new_stop False ps) = report_of r"
    using transition_sound[OF p by_time_strict[OF assms(3)], of call stop level new_stop False] assms(4-)
    by (auto simp: report_of_def)
qed

text \<open>The level in the first minute, the new stop in the second.\<close>

definition trailed_out :: "candle list" where
  "trailed_out = [minute_candle 0 (Fin 102) (Fin 106) (Fin 101) (Fin 104), minute_candle (minutes 1) (Fin 104) (Fin 104) (Fin 99) (Fin 100)]"

theorem transition_order_sound_witness:
  "\<exists>r. resolve_active_stop_transition (DirText ''CALL'') (Fin 95) (Fin 105) (Fin 100) trailed_out = Inr r
    \<and> report_of r = (''TRANSITION_THEN_STOP'', Some (minutes 1)) \<and> rs_exit_price r = Some (Fin 100)
    \<and> (\<exists>ps. path (by_time trailed_out) ps \<and> transition_report (scan True (Fin 95) (Fin 105) (Fin 100) False ps) = report_of r)"
proof -
  let ?r = "at_stop ''TRANSITION_THEN_STOP'' True (Fin 100) (trailed_out ! 1)"
  have r: "resolve_active_stop_transition (DirText ''CALL'') (Fin 95) (Fin 105) (Fin 100) trailed_out = Inr ?r" by code_simp
  have c: "is_call (DirText ''CALL'') = Inr True" by code_simp
  have d: "distinct (map ca_start_time trailed_out)" by (simp add: trailed_out_def minute_candle_def)
  have rep: "report_of ?r = (''TRANSITION_THEN_STOP'', Some (minutes 1))" "\<not> rs_ambiguous ?r" "rs_exit_price ?r = Some (Fin 100)"
    by code_simp+
  have b: "beyond True (Fin 95) (Fin 105)" "beyond True (Fin 100) (Fin 105)" by (simp_all add: beyond_def)
  have "level_hit True (Fin 105) (trailed_out ! 0)" "trailed_out ! 0 \<in> set trailed_out" "ca_start_time (trailed_out ! 0) = 0"
    by (simp_all add: trailed_out_def minute_candle_def level_hit_def)
  then have "\<forall>t. report_of ?r = (''TRANSITION_THEN_STOP'', Some t) \<longrightarrow>
      (\<exists>c \<in> set trailed_out. level_hit True (Fin 105) c \<and> ca_start_time c \<le> t)"
    using rep(1) by force
  then have "\<forall>ps. path (by_time trailed_out) ps \<longrightarrow> transition_report (scan True (Fin 95) (Fin 105) (Fin 100) False ps) = report_of ?r"
    by (rule transition_order_sound[OF r c d b rep(2)])
  moreover obtain ps where "path (by_time trailed_out) ps"
    using path_exists[of "by_time trailed_out"] by (auto simp: list_all_iff trailed_out_def proper_def minute_candle_def)
  ultimately show ?thesis using r rep(1,3) by blast
qed

section \<open>The two stop routines agree\<close>

lemma stop_routines_agree:
  assumes "evaluate_replay_candle direction (ca_open c) (ca_high c) (ca_low c) stop False thesis = Inr d"
    and "resolve_stop_order direction stop None [c] = Inr r"
  shows "rd_crossed d \<longleftrightarrow> rs_event r = ''STRUCTURAL_STOP''" "rd_exit_price d = rs_exit_price r"
  using assms
  by (auto simp: evaluate_replay_candle_def resolve_stop_order_def by_time_def stop_hit_def at_stop_def stop_fill_def quiet_def
      split: if_splits sum.splits)

section \<open>Where a verdict is wrong\<close>

text \<open>
  The trigger is reached in the first minute; the second opens below the stop and recovers to the
  trigger.  Every path enters and is stopped out; the resolver reports that there was no entry.
\<close>

definition missed_loss :: "candle list" where
  "missed_loss = [minute_candle 0 (Fin 99) (Fin 101) (Fin 98) (Fin 99), minute_candle (minutes 1) (Fin 94) (Fin 100) (Fin 93) (Fin 99)]"

lemma entry_hides_loss:
  "map_sum id report_of (resolve_entry_candle (DirText ''CALL'') (Fin 100) (Fin 95) missed_loss) = Inr (''ADVERSE_BEFORE_ENTRY'', Some (minutes 1))"
  "path (by_time missed_loss) ps \<Longrightarrow> entry_report (scan True (Fin 95) (Fin 100) (Fin 95) False ps) = (''ENTRY_THEN_STOP'', Some (minutes 1))"
proof -
  show "map_sum id report_of (resolve_entry_candle (DirText ''CALL'') (Fin 100) (Fin 95) missed_loss) = Inr (''ADVERSE_BEFORE_ENTRY'', Some (minutes 1))"
    by code_simp
  let ?c = "missed_loss ! 0" and ?d = "missed_loss ! 1"
  have o: "by_time missed_loss = [?c, ?d]" by code_simp
  assume "path (by_time missed_loss) ps"
  then obtain ts us where p: "ticks_of ?c ts" "ticks_of ?d us" "ps = ts @ us @ []"
    unfolding o by (auto elim!: path_ConsE path_NilE)
  have c: "level_hit True (Fin 100) ?c" "\<not> stop_hit True (Fin 95) ?c" "stop_hit True (Fin 95) ?d" "ca_start_time ?d = minutes 1"
    by (simp_all add: missed_loss_def minute_candle_def level_hit_def stop_hit_def)
  have "scan True (Fin 95) (Fin 100) (Fin 95) False ps = scan True (Fin 95) (Fin 100) (Fin 95) True (us @ [])"
    using c(1,2) unfolding p(3) level_hit_ticks[OF p(1)] stop_hit_ticks[OF p(1)] by (intro scan_reach)
  then show "entry_report (scan True (Fin 95) (Fin 100) (Fin 95) False ps) = (''ENTRY_THEN_STOP'', Some (minutes 1))"
    using c scan_active_candle[OF p(2), of True "Fin 95" "Fin 100" "Fin 95" "[]"] by simp
qed

text \<open>
  Stop 95, and 100 once 105 is reached.  The price dips to 99 before it has reached 105: no stop is
  touched on any path, but the resolver reports a stop at the level that is not yet in force.
\<close>

definition early_dip :: "candle list" where
  "early_dip = [minute_candle 0 (Fin 102) (Fin 103) (Fin 99) (Fin 102), minute_candle (minutes 1) (Fin 102) (Fin 106) (Fin 101) (Fin 106)]"

lemma transition_stop_too_early:
  "map_sum id report_of (resolve_active_stop_transition (DirText ''CALL'') (Fin 95) (Fin 105) (Fin 100) early_dip) = Inr (''TRANSITION_THEN_STOP'', Some 0)"
  "path (by_time early_dip) ps \<Longrightarrow> transition_report (scan True (Fin 95) (Fin 105) (Fin 100) False ps) = (''TRANSITION_AND_SURVIVE'', None)"
proof -
  show "map_sum id report_of (resolve_active_stop_transition (DirText ''CALL'') (Fin 95) (Fin 105) (Fin 100) early_dip) = Inr (''TRANSITION_THEN_STOP'', Some 0)"
    by code_simp
  let ?c = "early_dip ! 0" and ?d = "early_dip ! 1"
  have o: "by_time early_dip = [?c, ?d]" by code_simp
  assume "path (by_time early_dip) ps"
  then obtain ts us where p: "ticks_of ?c ts" "ticks_of ?d us" "ps = ts @ us @ []"
    unfolding o by (auto elim!: path_ConsE path_NilE)
  have c: "\<not> level_hit True (Fin 105) ?c" "\<not> stop_hit True (Fin 95) ?c" "level_hit True (Fin 105) ?d"
      "\<not> stop_hit True (Fin 95) ?d" "\<not> stop_hit True (Fin 100) ?d"
    by (simp_all add: early_dip_def minute_candle_def level_hit_def stop_hit_def)
  have "scan True (Fin 95) (Fin 105) (Fin 100) False ps = scan True (Fin 95) (Fin 105) (Fin 100) False (us @ [])"
    using c(1,2) unfolding p(3) level_hit_ticks[OF p(1)] stop_hit_ticks[OF p(1)] by (intro scan_idle)
  also have "\<dots> = scan True (Fin 95) (Fin 105) (Fin 100) True []"
    using c(3-5) unfolding level_hit_ticks[OF p(2)] stop_hit_ticks[OF p(2)] by (intro scan_reach)
  finally show "transition_report (scan True (Fin 95) (Fin 105) (Fin 100) False ps) = (''TRANSITION_AND_SURVIVE'', None)"
    by simp
qed

end
