(* ===== verification/Calendar.thy ===== *)
theory Calendar imports Prelude "HOL-Library.Product_Lexorder" "HOL-Library.List_Lexorder" "HOL-Library.Char_ord" begin

text \<open>
  What the strategy services use of \<^verbatim>\<open>datetime.date\<close>: a date is the number of days since
  1970-01-01, \<^verbatim>\<open>date.fromisoformat\<close> of a ten-character text (an invalid one raises
  \<^verbatim>\<open>ValueError\<close>: \<open>None\<close>), and \<^verbatim>\<open>weekday()\<close> with Monday 0.  Only the extended form \<^verbatim>\<open>YYYY-MM-DD\<close> of
  a date text is read.
\<close>

type_synonym day = int

definition leap_year :: "int \<Rightarrow> bool" where
  "leap_year y \<longleftrightarrow> 4 dvd y \<and> (\<not> 100 dvd y \<or> 400 dvd y)"

definition month_length :: "int \<Rightarrow> int \<Rightarrow> int" where
  "month_length y m = (if m = 2 then (if leap_year y then 29 else 28) else if m \<in> {4, 6, 9, 11} then 30 else 31)"

definition days_before_year :: "int \<Rightarrow> int" where
  "days_before_year y = (y - 1) * 365 + (y - 1) div 4 - (y - 1) div 100 + (y - 1) div 400"

definition days_before_month :: "int \<Rightarrow> int \<Rightarrow> int" where
  "days_before_month y m = [0, 31, 59, 90, 120, 151, 181, 212, 243, 273, 304, 334] ! nat (m - 1)
     + (if 2 < m \<and> leap_year y then 1 else 0)"

text \<open>\<^verbatim>\<open>toordinal()\<close> minus that of 1970-01-01.\<close>

definition civil_day :: "int \<Rightarrow> int \<Rightarrow> int \<Rightarrow> day" where
  "civil_day y m d = days_before_year y + days_before_month y m + d - 719163"

definition valid_civil :: "int \<Rightarrow> int \<Rightarrow> int \<Rightarrow> bool" where
  "valid_civil y m d \<longleftrightarrow> 1 \<le> y \<and> y \<le> 9999 \<and> 1 \<le> m \<and> m \<le> 12 \<and> 1 \<le> d \<and> d \<le> month_length y m"

definition is_digit :: "char \<Rightarrow> bool" where
  "is_digit c \<longleftrightarrow> 48 \<le> (of_char c :: nat) \<and> (of_char c :: nat) \<le> 57"

definition date_shape :: "string \<Rightarrow> bool" where
  "date_shape s \<longleftrightarrow> length s = 10 \<and> s ! 4 = CHR ''-'' \<and> s ! 7 = CHR ''-''
     \<and> list_all is_digit (take 4 s) \<and> list_all is_digit (take 2 (drop 5 s)) \<and> list_all is_digit (drop 8 s)"

definition from_iso :: "string \<Rightarrow> day option" where
  "from_iso s =
     (if date_shape s then
        (let y = int (read_nat (take 4 s)); m = int (read_nat (take 2 (drop 5 s))); d = int (read_nat (drop 8 s)) in
         if valid_civil y m d then Some (civil_day y m d) else None)
      else None)"

definition weekday :: "day \<Rightarrow> int" where
  "weekday d = (d + 3) mod 7"

text \<open>\<^verbatim>\<open>date.max\<close>.\<close>

definition date_max :: day where "date_max = civil_day 9999 12 31"

lemma epoch_day: "civil_day 1970 1 1 = 0" "weekday 0 = 3" "date_max = 2932896"
  by (simp_all add: civil_day_def days_before_year_def days_before_month_def weekday_def date_max_def leap_year_def)

text \<open>\<^verbatim>\<open>(a - b).total_seconds()\<close> of two times.\<close>

definition total_seconds :: "int \<Rightarrow> pyfloat" where
  "total_seconds micros = flit (of_int micros / 1000000)"

text \<open>The calendar runs through: the day after the last of a month or year is the first of the next.\<close>

lemma div_step:
  fixes y n :: int
  assumes "0 < n"
  shows "y div n = (y - 1) div n + (if n dvd y then 1 else 0)"
proof -
  let ?q = "(y - 1) div n" and ?r = "(y - 1) mod n"
  have y: "y = n * ?q + (?r + 1)" using mult_div_mod_eq[of n "y - 1"] by linarith
  have r: "0 \<le> ?r" "?r < n" using assms by simp_all
  show ?thesis
  proof (cases "?r = n - 1")
    case True
    then have "y = n * (?q + 1)" using y by (simp add: distrib_left)
    then show ?thesis using assms by (metis dvd_triv_left nonzero_mult_div_cancel_left less_irrefl)
  next
    case False
    then have "y mod n = ?r + 1" "y div n = ?q"
      using r int_mod_pos_eq[OF y] int_div_pos_eq[OF y] by linarith+
    then show ?thesis using r by (simp add: dvd_eq_mod_eq_0)
  qed
qed

lemma leap_count:
  "(r \<Longrightarrow> q) \<Longrightarrow> (q \<Longrightarrow> p) \<Longrightarrow> (if p then 1 else 0) - (if q then 1 else 0) + (if r then 1 else 0)
    = (if p \<and> (\<not> q \<or> r) then 1 else (0::int))"
  by (cases p; cases q; cases r) simp_all

lemma year_step: "days_before_year (y + 1) = days_before_year y + (if leap_year y then 366 else 365)"
proof -
  have f: "400 dvd y \<Longrightarrow> 100 dvd y" by (rule dvd_trans[of 100 400 y]) simp_all
  have h: "100 dvd y \<Longrightarrow> 4 dvd y" by (rule dvd_trans[of 4 100 y]) simp_all
  define a b c where "a = (if 4 dvd y then 1 else (0::int))" and "b = (if 100 dvd y then 1 else (0::int))"
    and "c = (if 400 dvd y then 1 else (0::int))"
  have "y div 4 = (y - 1) div 4 + a" "y div 100 = (y - 1) div 100 + b" "y div 400 = (y - 1) div 400 + c"
    unfolding a_def b_def c_def by (rule div_step, simp)+
  then have "days_before_year (y + 1) = days_before_year y + 365 + (a - b + c)"
    unfolding days_before_year_def by simp
  also have "a - b + c = (if leap_year y then 1 else 0)"
    unfolding a_def b_def c_def leap_year_def using f h by (rule leap_count)
  finally show ?thesis by simp
qed

lemma month_step:
  assumes "1 \<le> m" "m \<le> 11"
  shows "days_before_month y (m + 1) = days_before_month y m + month_length y m"
proof -
  have "m \<in> {1, 2, 3, 4, 5, 6, 7, 8, 9, 10, 11}" using assms by simp presburger
  then show ?thesis by (auto simp: days_before_month_def month_length_def)
qed

lemma civil_day_next:
  shows "1 \<le> m \<Longrightarrow> m \<le> 11 \<Longrightarrow> civil_day y (m + 1) 1 = civil_day y m (month_length y m) + 1"
    and "civil_day (y + 1) 1 1 = civil_day y 12 31 + 1"
  by (simp add: civil_day_def month_step, simp add: civil_day_def year_step, simp add: days_before_month_def)

end
