(* ===== verification/FuturesSignal.thy ===== *)
theory FuturesSignal imports Candles Calendar begin

text \<open>
  The futures data path of Strategy A, \<^verbatim>\<open>services/strategy/futures_signal.py\<close>: which candles are known at
  a time, their aggregation to fifteen minutes, the active contract at every bar, the indicators and
  the feature snapshot.  Timestamps are aware, so \<^verbatim>\<open>_aware\<close> never raises; periods are positive.
\<close>

section \<open>Completed candles\<close>

definition candle_key :: "candle \<Rightarrow> timestamp \<times> timestamp \<times> string \<times> string" where
  "candle_key c = (ca_start_time c, ca_end_time c, ca_instrument_id c, ca_source c)"

definition ordered :: "candle list \<Rightarrow> candle list" where
  "ordered cs = sort_key candle_key cs"

definition candle_valid :: "string \<Rightarrow> candle \<Rightarrow> bool" where
  "candle_valid interval c \<longleftrightarrow> ca_interval c = interval \<and> ca_start_time c < ca_end_time c
     \<and> \<not> flt (ca_high c) (pmax (ca_open c) (ca_close c)) \<and> \<not> flt (pmin (ca_open c) (ca_close c)) (ca_low c)
     \<and> \<not> flt (ca_high c) (ca_low c) \<and> 0 \<le> ca_volume c"

definition known_at :: "timestamp option \<Rightarrow> candle \<Rightarrow> bool" where
  "known_at as_of c = (case as_of of None \<Rightarrow> True | Some t \<Rightarrow> ca_end_time c \<le> t)"

definition fresh_enough :: "timestamp option \<Rightarrow> pyfloat option \<Rightarrow> candle \<Rightarrow> bool" where
  "fresh_enough as_of max_age_seconds c = (case (as_of, max_age_seconds) of
     (Some t, Some limit) \<Rightarrow> let age = total_seconds (t - ca_end_time c) in
       \<not> (flt age (Fin 0) \<or> flt limit age) | _ \<Rightarrow> True)"

definition completed_futures_candles ::
  "candle list \<Rightarrow> timestamp option \<Rightarrow> string \<Rightarrow> pyfloat option \<Rightarrow> candle list" where
  "completed_futures_candles candles as_of interval max_age_seconds =
     filter (\<lambda>c. candle_valid interval c \<and> known_at as_of c \<and> fresh_enough as_of max_age_seconds c) (ordered candles)"

section \<open>Fifteen-minute bars\<close>

text \<open>India is 330 minutes ahead of UTC; \<open>get_bar_start\<close> is the same floor the candle builder takes.\<close>

definition bucket_key :: "candle \<Rightarrow> string \<times> timestamp" where
  "bucket_key c = (ca_instrument_id c, get_bar_start (minutes 330) 15 (ca_start_time c))"

definition bucket_keys :: "candle list \<Rightarrow> (string \<times> timestamp) list" where
  "bucket_keys cs = sort (remdups (map bucket_key cs))"

definition merge_bars :: "string \<Rightarrow> timestamp \<Rightarrow> candle list \<Rightarrow> candle" where
  "merge_bars inst start values =
     \<lparr>ca_instrument_id = inst, ca_interval = ''15m'', ca_start_time = start, ca_end_time = start + minutes 15,
      ca_open = ca_open (hd values), ca_high = foldl pmax (ca_high (hd values)) (map ca_high (tl values)),
      ca_low = foldl pmin (ca_low (hd values)) (map ca_low (tl values)), ca_close = ca_close (last values),
      ca_volume = sum_list (map ca_volume values), ca_open_interest = ca_open_interest (last values),
      ca_source = ca_source (hd values)\<rparr>"

definition bucket_bar :: "candle list \<Rightarrow> string \<times> timestamp \<Rightarrow> candle option" where
  "bucket_bar source k = (let values = ordered (filter (\<lambda>c. bucket_key c = k) source) in
     if map ca_start_time values = [snd k, snd k + minutes 5, snd k + minutes 10]
     then Some (merge_bars (fst k) (snd k) values) else None)"

definition aggregate_completed_15m :: "candle list \<Rightarrow> timestamp option \<Rightarrow> candle list" where
  "aggregate_completed_15m candles_5m as_of =
     (let source = completed_futures_candles candles_5m as_of ''5m'' None
      in List.map_filter (bucket_bar source) (bucket_keys source))"

section \<open>The active contract\<close>

text \<open>\<^verbatim>\<open>FUT-(\d{4}-\d{2}-\d{2})\<close> with \<^verbatim>\<open>search\<close>, ignoring case.\<close>

definition expiry_at :: "string \<Rightarrow> string option" where
  "expiry_at s = (if to_upper (take 4 s) = ''FUT-'' \<and> date_shape (take 10 (drop 4 s))
     then Some (take 10 (drop 4 s)) else None)"

fun expiry_search :: "string \<Rightarrow> string option" where
  "expiry_search [] = None"
| "expiry_search (c # cs) = (case expiry_at (c # cs) of Some e \<Rightarrow> Some e | None \<Rightarrow> expiry_search cs)"

definition contract_expiry :: "string \<Rightarrow> exn + day option" where
  "contract_expiry instrument_id = (case expiry_search instrument_id of
     None \<Rightarrow> Inr None
   | Some text \<Rightarrow> (case from_iso text of Some d \<Rightarrow> Inr (Some d) | None \<Rightarrow> Inl (ValueError ''Invalid isoformat string'')))"

type_synonym contracts = "(string \<times> day option) list"

definition or_max :: "day option \<Rightarrow> day" where
  "or_max d = (case d of None \<Rightarrow> date_max | Some x \<Rightarrow> x)"

definition resolve_contracts :: "contracts \<Rightarrow> timestamp \<Rightarrow> string option" where
  "resolve_contracts contracts as_of =
     (let ranked = sort_key (\<lambda>(i, d). (d = None, or_max d, i)) contracts;
          non_expired = filter (\<lambda>(i, d). ist_date as_of \<le> or_max d) ranked
      in case non_expired of [] \<Rightarrow> None | (i, d) # _ \<Rightarrow> Some i)"

definition is_nifty_future :: "string \<Rightarrow> bool" where
  "is_nifty_future i = list_ex (prefix ''NIFTY-FUT-'') (suffixes (to_upper i))"

fun expiries :: "string list \<Rightarrow> exn + contracts" where
  "expiries [] = Inr []"
| "expiries (i # is) = (case contract_expiry i of Inl e \<Rightarrow> Inl e
     | Inr d \<Rightarrow> (case expiries is of Inl e \<Rightarrow> Inl e | Inr r \<Rightarrow> Inr ((i, d) # r)))"

text \<open>A dictionary keeps the place of the first insertion.\<close>

definition contracts_of :: "candle list \<Rightarrow> exn + contracts" where
  "contracts_of cs = expiries (rev (remdups (rev (filter is_nifty_future (map ca_instrument_id cs)))))"

definition resolver_resolve :: "candle list \<Rightarrow> timestamp \<Rightarrow> exn + string" where
  "resolver_resolve candles as_of =
     (case contracts_of candles of Inl e \<Rightarrow> Inl e
      | Inr contracts \<Rightarrow>
          if contracts = [] then Inl (ValueError ''no NIFTY futures candles available'')
          else (case resolve_contracts contracts as_of of
             None \<Rightarrow> Inl (ValueError ''no non-expired NIFTY futures contract available'')
           | Some i \<Rightarrow> Inr i))"

definition resolver_select :: "candle list \<Rightarrow> timestamp \<Rightarrow> exn + candle list" where
  "resolver_select candles as_of = (case resolver_resolve candles as_of of Inl e \<Rightarrow> Inl e
     | Inr i \<Rightarrow> Inr (filter (\<lambda>c. ca_instrument_id c = i) (ordered candles)))"

record data_gap =
  dg_timestamp :: timestamp
  dg_expected_contract :: "string option"
  dg_reason :: string

definition pick_bar :: "candle list \<Rightarrow> contracts \<Rightarrow> timestamp \<Rightarrow> data_gap + candle" where
  "pick_bar completed contracts t =
     (let selected_id = (if contracts = [] then None else resolve_contracts contracts t);
          selected = filter (\<lambda>c. Some (ca_instrument_id c) = selected_id)
            (ordered (filter (\<lambda>c. ca_end_time c = t) completed))
      in case selected of c # _ \<Rightarrow> Inr c
         | [] \<Rightarrow> Inl \<lparr>dg_timestamp = t, dg_expected_contract = selected_id, dg_reason = ''ACTIVE_FUTURES_CANDLE_MISSING''\<rparr>)"

definition lefts :: "('a + 'b) list \<Rightarrow> 'a list" where
  "lefts xs = List.map_filter (case_sum Some (\<lambda>_. None)) xs"

definition rights :: "('a + 'b) list \<Rightarrow> 'b list" where
  "rights xs = List.map_filter (case_sum (\<lambda>_. None) Some) xs"

definition stream_with_diagnostics ::
  "candle list \<Rightarrow> timestamp option \<Rightarrow> string \<Rightarrow> exn + candle list \<times> data_gap list" where
  "stream_with_diagnostics candles as_of interval =
     (let completed = completed_futures_candles candles as_of interval None in
      case contracts_of completed of Inl e \<Rightarrow> Inl e
      | Inr contracts \<Rightarrow>
          (let picks = map (pick_bar completed contracts) (sort (remdups (map ca_end_time completed)))
           in Inr (rights picks, lefts picks)))"

definition canonical_stream :: "candle list \<Rightarrow> timestamp option \<Rightarrow> string \<Rightarrow> exn + candle list" where
  "canonical_stream candles as_of interval = map_sum id fst (stream_with_diagnostics candles as_of interval)"

record futures_instrument =
  fi_segment :: string
  fi_tradable :: bool
  fi_expiry :: "string option"
  fi_instrument_id :: "string option"

text \<open>A falsy identifier or expiry, or an expiry that does not parse, drops the instrument; a repeated
  identifier keeps its place and takes the last expiry.\<close>

definition instrument_contract :: "futures_instrument \<Rightarrow> (string \<times> day) option" where
  "instrument_contract f =
     (if fi_segment f \<noteq> ''FUTURES'' \<or> \<not> fi_tradable f then None
      else (case (fi_expiry f, fi_instrument_id f) of
         (Some e, Some i) \<Rightarrow> if e = '''' \<or> i = '''' then None else map_option (Pair i) (from_iso (take 10 e))
       | _ \<Rightarrow> None))"

definition resolve_active_futures_instrument :: "futures_instrument list \<Rightarrow> timestamp \<Rightarrow> string option" where
  "resolve_active_futures_instrument instruments as_of =
     (let pairs = List.map_filter instrument_contract instruments;
          candidates = map (\<lambda>i. (i, map_of (rev pairs) i)) (rev (remdups (rev (map fst pairs))))
      in if candidates = [] then None else resolve_contracts candidates as_of)"

section \<open>Indicators\<close>

text \<open>A quotient with a divisor that is not zero.\<close>

definition over :: "pyfloat \<Rightarrow> pyfloat \<Rightarrow> pyfloat" where
  "over x y = (case fdiv x y of Some q \<Rightarrow> q | None \<Rightarrow> NaN)"

definition ema_alpha :: "int \<Rightarrow> pyfloat" where
  "ema_alpha period = over (Fin 2) (fadd (fint period) (Fin 1))"

definition ema :: "pyfloat list \<Rightarrow> int \<Rightarrow> pyfloat" where
  "ema values period = (case values of [] \<Rightarrow> Fin 0
     | v # vs \<Rightarrow> foldl (\<lambda>value item. fadd (fmul (ema_alpha period) item) (fmul (fsub (Fin 1) (ema_alpha period)) value)) v vs)"

definition true_range :: "candle \<Rightarrow> pyfloat option \<Rightarrow> pyfloat" where
  "true_range c previous_close = pmax (pmax (fsub (ca_high c) (ca_low c))
     (case previous_close of None \<Rightarrow> Fin 0 | Some p \<Rightarrow> fabs (fsub (ca_high c) p)))
     (case previous_close of None \<Rightarrow> Fin 0 | Some p \<Rightarrow> fabs (fsub (ca_low c) p))"

fun true_ranges :: "pyfloat option \<Rightarrow> candle list \<Rightarrow> pyfloat list" where
  "true_ranges previous_close [] = []"
| "true_ranges previous_close (c # cs) = true_range c previous_close # true_ranges (Some (ca_close c)) cs"

text \<open>Wilder smoothing of the values after the first \<open>period\<close>, seeded with their mean.\<close>

definition wilder :: "nat \<Rightarrow> pyfloat list \<Rightarrow> pyfloat" where
  "wilder period values =
     foldl (\<lambda>s v. over (fadd (fmul s (fint (int period - 1))) v) (fint (int period)))
       (over (py_sum (take period values)) (fint (int period))) (drop period values)"

definition atr :: "candle list \<Rightarrow> nat \<Rightarrow> pyfloat" where
  "atr candles period = (let values = true_ranges None candles in
     if values = [] then Fin 0
     else if length values < period then over (py_sum values) (fint (int (length values)))
     else wilder period values)"

definition plus_move :: "candle \<times> candle \<Rightarrow> pyfloat" where
  "plus_move pc = (let up = fsub (ca_high (snd pc)) (ca_high (fst pc)); down = fsub (ca_low (fst pc)) (ca_low (snd pc))
     in if flt down up \<and> flt (Fin 0) up then up else Fin 0)"

definition minus_move :: "candle \<times> candle \<Rightarrow> pyfloat" where
  "minus_move pc = (let up = fsub (ca_high (snd pc)) (ca_high (fst pc)); down = fsub (ca_low (fst pc)) (ca_low (snd pc))
     in if flt up down \<and> flt (Fin 0) down then down else Fin 0)"

text \<open>One observation: DX with the two directional indices.\<close>

definition directional :: "pyfloat \<Rightarrow> pyfloat \<Rightarrow> pyfloat \<Rightarrow> pyfloat \<times> pyfloat \<times> pyfloat" where
  "directional tr_s plus_s minus_s =
     (let latest_plus = (if ftrue tr_s then over (fmul (Fin 100) plus_s) tr_s else Fin 0);
          latest_minus = (if ftrue tr_s then over (fmul (Fin 100) minus_s) tr_s else Fin 0);
          denom = fadd latest_plus latest_minus
      in (if ftrue denom then over (fmul (Fin 100) (fabs (fsub latest_plus latest_minus))) denom else Fin 0,
          latest_plus, latest_minus))"

definition decay :: "nat \<Rightarrow> pyfloat \<Rightarrow> pyfloat \<Rightarrow> pyfloat" where
  "decay period s v = fadd (fsub s (over s (fint (int period)))) v"

fun dx_walk :: "nat \<Rightarrow> pyfloat \<Rightarrow> pyfloat \<Rightarrow> pyfloat \<Rightarrow> (pyfloat \<times> pyfloat \<times> pyfloat) list
    \<Rightarrow> (pyfloat \<times> pyfloat \<times> pyfloat) list" where
  "dx_walk period tr_s plus_s minus_s [] = [directional tr_s plus_s minus_s]"
| "dx_walk period tr_s plus_s minus_s ((t, p, m) # rest) = directional tr_s plus_s minus_s
     # dx_walk period (decay period tr_s t) (decay period plus_s p) (decay period minus_s m) rest"

definition adx_di :: "candle list \<Rightarrow> nat \<Rightarrow> pyfloat \<times> pyfloat \<times> pyfloat" where
  "adx_di candles period =
     (if length candles < 2 then (Fin 0, Fin 0, Fin 0) else
      (let pairs = zip candles (tl candles);
           tr = map (\<lambda>(p, c). true_range c (Some (ca_close p))) pairs;
           plus = map plus_move pairs; minus = map minus_move pairs in
       if length tr < period then (Fin 0, Fin 0, Fin 0) else
       (let observations = dx_walk period (py_sum (take period tr)) (py_sum (take period plus)) (py_sum (take period minus))
              (drop period (zip tr (zip plus minus)));
            dx_values = map fst observations; latest = snd (last observations) in
        if length dx_values < period then (Fin 0, latest) else (wilder period dx_values, latest))))"

definition session_vwap :: "candle list \<Rightarrow> pyfloat" where
  "session_vwap candles =
     (if candles = [] then Fin 0 else
      (let today = ist_date (ca_start_time (last candles));
           session = filter (\<lambda>c. ist_date (ca_start_time c) = today) candles;
           total = py_sum (map (\<lambda>c. fmul (over (fadd (fadd (ca_high c) (ca_low c)) (ca_close c)) (Fin 3)) (fint (max (ca_volume c) 0))) session);
           volume = sum_list (map (\<lambda>c. max (ca_volume c) 0) session)
       in if volume \<noteq> 0 then over total (fint volume) else ca_close (last session)))"

record confirmed_pivot =
  cp_kind :: string
  cp_price :: pyfloat
  cp_pivot_timestamp :: timestamp
  cp_confirmed_at :: timestamp
  cp_bar_index :: nat

definition min_of :: "pyfloat list \<Rightarrow> pyfloat" where "min_of xs = foldl pmin (hd xs) (tl xs)"
definition max_of :: "pyfloat list \<Rightarrow> pyfloat" where "max_of xs = foldl pmax (hd xs) (tl xs)"

definition pivots_at :: "candle list \<Rightarrow> nat \<Rightarrow> nat \<Rightarrow> confirmed_pivot list" where
  "pivots_at candles width index =
     (let current = candles ! index; before = take width (drop (index - width) candles);
          after = take width (drop (index + 1) candles);
          pivot = (\<lambda>kind price. \<lparr>cp_kind = kind, cp_price = price, cp_pivot_timestamp = ca_end_time current,
            cp_confirmed_at = ca_end_time (candles ! (index + width)), cp_bar_index = index\<rparr>)
      in (if flt (ca_low current) (min_of (map ca_low before)) \<and> fle (ca_low current) (min_of (map ca_low after))
          then [pivot ''SUPPORT'' (ca_low current)] else [])
       @ (if flt (max_of (map ca_high before)) (ca_high current) \<and> fle (max_of (map ca_high after)) (ca_high current)
          then [pivot ''RESISTANCE'' (ca_high current)] else []))"

definition confirmed_pivots :: "candle list \<Rightarrow> nat \<Rightarrow> confirmed_pivot list" where
  "confirmed_pivots candles width = concat (map (pivots_at candles width) [width..<length candles - width])"

section \<open>The feature snapshot\<close>

record feature_snapshot =
  fs_contract_id :: string
  fs_candle_timestamp :: timestamp
  fs_candle_start :: timestamp
  fs_open :: pyfloat
  fs_high :: pyfloat
  fs_low :: pyfloat
  fs_close :: pyfloat
  fs_ema20 :: pyfloat
  fs_ema50 :: pyfloat
  fs_adx14 :: pyfloat
  fs_plus_di14 :: pyfloat
  fs_minus_di14 :: pyfloat
  fs_atr14 :: pyfloat
  fs_session_vwap :: pyfloat
  fs_support :: "pyfloat option"
  fs_resistance :: "pyfloat option"
  fs_pivots :: "confirmed_pivot list"
  fs_bar_index :: nat

definition trend :: "feature_snapshot \<Rightarrow> string" where
  "trend f = (if flt (fs_ema50 f) (fs_ema20 f) \<and> flt (fs_minus_di14 f) (fs_plus_di14 f) then ''BULLISH''
     else if flt (fs_ema20 f) (fs_ema50 f) \<and> flt (fs_plus_di14 f) (fs_minus_di14 f) then ''BEARISH''
     else ''NEUTRAL'')"

definition snapshot_of :: "candle list \<Rightarrow> feature_snapshot" where
  "snapshot_of bars =
     (let final = last bars; closes = map ca_close bars; (adx, plus_di, minus_di) = adx_di bars 14;
          pivots = filter (\<lambda>p. cp_confirmed_at p \<le> ca_end_time final) (confirmed_pivots bars 2);
          supports = [cp_price p. p \<leftarrow> pivots, cp_kind p = ''SUPPORT'' \<and> fle (cp_price p) (ca_close final)];
          resistances = [cp_price p. p \<leftarrow> pivots, cp_kind p = ''RESISTANCE'' \<and> fle (ca_close final) (cp_price p)]
      in \<lparr>fs_contract_id = ca_instrument_id final, fs_candle_timestamp = ca_end_time final,
          fs_candle_start = ca_start_time final, fs_open = ca_open final, fs_high = ca_high final, fs_low = ca_low final,
          fs_close = ca_close final, fs_ema20 = ema closes 20, fs_ema50 = ema closes 50, fs_adx14 = adx,
          fs_plus_di14 = plus_di, fs_minus_di14 = minus_di, fs_atr14 = atr bars 14, fs_session_vwap = session_vwap bars,
          fs_support = (if supports = [] then None else Some (max_of supports)),
          fs_resistance = (if resistances = [] then None else Some (min_of resistances)),
          fs_pivots = pivots, fs_bar_index = length bars - 1\<rparr>)"

definition build_features :: "candle list \<Rightarrow> timestamp option \<Rightarrow> exn + feature_snapshot" where
  "build_features candles as_of = (case canonical_stream candles as_of ''15m'' of
     Inl e \<Rightarrow> Inl e
   | Inr bars \<Rightarrow> if bars = [] then Inl (ValueError ''at least one completed 15m futures candle is required'')
       else Inr (snapshot_of bars))"

section \<open>Nothing is known before its time\<close>

lemma completed_alt:
  "completed_futures_candles cs as_of interval age =
    filter (\<lambda>c. candle_valid interval c \<and> fresh_enough as_of age c) (ordered (filter (known_at as_of) cs))"
proof -
  have "filter (\<lambda>c. candle_valid interval c \<and> known_at as_of c \<and> fresh_enough as_of age c) xs
      = filter (\<lambda>c. candle_valid interval c \<and> fresh_enough as_of age c) (filter (known_at as_of) xs)" for xs
    by (simp add: conj_commute conj_left_commute)
  then show ?thesis by (simp add: completed_futures_candles_def ordered_def filter_sort)
qed

lemma completed_set:
  "c \<in> set (completed_futures_candles cs as_of interval age) \<longleftrightarrow>
    c \<in> set cs \<and> candle_valid interval c \<and> known_at as_of c \<and> fresh_enough as_of age c"
  by (auto simp: completed_futures_candles_def ordered_def)

lemma completed_earlier:
  assumes "t1 \<le> t2"
  shows "completed_futures_candles cs (Some t1) interval None
    = filter (\<lambda>c. ca_end_time c \<le> t1) (completed_futures_candles cs (Some t2) interval None)"
proof -
  have "(candle_valid interval c \<and> known_at (Some t1) c \<and> fresh_enough (Some t1) None c)
      = (candle_valid interval c \<and> known_at (Some t2) c \<and> fresh_enough (Some t2) None c \<and> ca_end_time c \<le> t1)" for c
    using assms by (auto simp: known_at_def fresh_enough_def)
  then show ?thesis by (simp add: completed_futures_candles_def)
qed

lemma rights_set: "b \<in> set (rights xs) \<longleftrightarrow> Inr b \<in> set xs"
  by (induction xs) (auto simp: rights_def List.map_filter_simps split: sum.splits)

lemma pick_bar_in:
  assumes "pick_bar completed contracts t = Inr b"
  shows "b \<in> set completed \<and> ca_end_time b = t \<and> contracts \<noteq> [] \<and> resolve_contracts contracts t = Some (ca_instrument_id b)"
proof -
  let ?id = "if contracts = [] then None else resolve_contracts contracts t"
  obtain ys where "filter (\<lambda>c. Some (ca_instrument_id c) = ?id) (ordered (filter (\<lambda>c. ca_end_time c = t) completed)) = b # ys"
    using assms by (auto simp: pick_bar_def Let_def split: list.splits)
  then have "b \<in> set (filter (\<lambda>c. Some (ca_instrument_id c) = ?id) (ordered (filter (\<lambda>c. ca_end_time c = t) completed)))"
    by simp
  then show ?thesis by (auto simp: ordered_def split: if_splits)
qed

lemma stream_known:
  assumes "canonical_stream cs (Some t) interval = Inr bars" "b \<in> set bars"
  shows "b \<in> set cs" "ca_end_time b \<le> t"
proof -
  have "b \<in> set (completed_futures_candles cs (Some t) interval None)"
    using assms pick_bar_in by (auto simp: canonical_stream_def stream_with_diagnostics_def Let_def rights_set
        split: sum.splits)
  then show "b \<in> set cs" "ca_end_time b \<le> t" by (auto simp: completed_set known_at_def)
qed

section \<open>Fifteen-minute bars do not repaint\<close>

definition aligned_5m :: "candle \<Rightarrow> bool" where
  "aligned_5m c \<longleftrightarrow> minutes 5 dvd ca_start_time c \<and> ca_end_time c = ca_start_time c + minutes 5"

lemma bar_start_bounds:
  assumes "0 < n"
  shows "get_bar_start offset n t \<le> t" "t < get_bar_start offset n t + minutes n"
proof -
  define w where "w = (t + offset) div 60000000"
  have h: "(t + offset) div (60 * 60000000) = w div 60"
    unfolding w_def by (simp add: zdiv_zmult2_eq[symmetric])
  have w: "w * 60000000 \<le> t + offset" "t + offset < (w + 1) * 60000000"
  proof -
    have "0 \<le> (t + offset) mod 60000000" "(t + offset) mod 60000000 < 60000000" by simp_all
    then show "w * 60000000 \<le> t + offset" "t + offset < (w + 1) * 60000000"
      unfolding w_def distrib_right using div_mult_mod_eq[of "t + offset" 60000000] by linarith+
  qed
  have b: "get_bar_start offset n t = (60 * (w div 60) + (w mod 60 div n) * n) * 60000000 - offset"
    by (simp add: get_bar_start_def Let_def w_def[symmetric] h[simplified])
  have m: "(w mod 60 div n) * n \<le> w mod 60" "w mod 60 < (w mod 60 div n) * n + n"
    using assms div_mult_mod_eq[of "w mod 60" n] pos_mod_bound[of n "w mod 60"] pos_mod_sign[of n "w mod 60"] by linarith+
  have "60 * (w div 60) + w mod 60 = w" by simp
  with m have "60 * (w div 60) + (w mod 60 div n) * n \<le> w" "w + 1 \<le> 60 * (w div 60) + (w mod 60 div n) * n + n" by linarith+
  with w show "get_bar_start offset n t \<le> t" "t < get_bar_start offset n t + minutes n"
    unfolding b by (simp_all add: algebra_simps)
qed

lemma aligned_end:
  assumes "aligned_5m c"
  shows "ca_end_time c \<le> snd (bucket_key c) + minutes 15"
proof -
  let ?b = "snd (bucket_key c)"
  have b: "?b \<le> ca_start_time c" "ca_start_time c < ?b + minutes 15"
    using bar_start_bounds[where n = 15 and offset = "minutes 330" and t = "ca_start_time c"] by (simp_all add: bucket_key_def)
  have "minutes 5 dvd ?b"
    by (simp add: bucket_key_def get_bar_start_def Let_def dvd_diff dvd_mult)
  then obtain k where k: "ca_start_time c - ?b = minutes 5 * k"
    using assms dvd_diff by (metis aligned_5m_def dvdE)
  then have "k < 3" using b by linarith
  then show ?thesis using assms k by (simp add: aligned_5m_def)
qed

lemma bucket_bar_Some:
  "bucket_bar source k = Some b \<Longrightarrow> ca_end_time b = snd k + minutes 15
    \<and> (\<exists>c \<in> set source. bucket_key c = k \<and> ca_start_time c = snd k + minutes 10)"
proof -
  assume a: "bucket_bar source k = Some b"
  let ?v = "ordered (filter (\<lambda>c. bucket_key c = k) source)"
  have m: "map ca_start_time ?v = [snd k, snd k + minutes 5, snd k + minutes 10]" and b: "b = merge_bars (fst k) (snd k) ?v"
    using a by (auto simp: bucket_bar_def Let_def split: if_splits)
  have "snd k + minutes 10 \<in> ca_start_time ` set ?v" unfolding set_map[symmetric] m by simp
  then show ?thesis using b by (auto simp: merge_bars_def ordered_def)
qed

lemma map_filter_restrict:
  "(\<And>x. x \<in> set xs \<Longrightarrow> \<not> P x \<Longrightarrow> f x = None) \<Longrightarrow> List.map_filter f (filter P xs) = List.map_filter f xs"
  by (induction xs) (auto simp: List.map_filter_simps split: option.splits)

lemma filter_map_filter: "filter P (List.map_filter f xs) = List.map_filter (\<lambda>x. case f x of Some y \<Rightarrow> if P y then Some y else None | None \<Rightarrow> None) xs"
  by (induction xs) (auto simp: List.map_filter_simps split: option.splits)

lemma bucket_keys_filter:
  "bucket_keys (filter P xs) = filter (\<lambda>k. k \<in> set (map bucket_key (filter P xs))) (bucket_keys xs)"
  by (intro sorted_distinct_set_unique) (auto simp: bucket_keys_def sorted_wrt_filter)

lemma bucket_bar_filter:
  assumes "\<forall>c \<in> set source. aligned_5m c"
  shows "bucket_bar (filter (\<lambda>c. ca_end_time c \<le> t) source) k =
    (case bucket_bar source k of Some b \<Rightarrow> if ca_end_time b \<le> t then Some b else None | None \<Rightarrow> None)"
proof (cases "snd k + minutes 15 \<le> t")
  case True
  have "filter (\<lambda>c. bucket_key c = k) (filter (\<lambda>c. ca_end_time c \<le> t) source) = filter (\<lambda>c. bucket_key c = k) source"
    using assms aligned_end True by (fastforce simp: filter_filter intro: filter_cong)
  then have "bucket_bar (filter (\<lambda>c. ca_end_time c \<le> t) source) k = bucket_bar source k"
    by (simp add: bucket_bar_def)
  then show ?thesis using bucket_bar_Some[of source k] True by (auto split: option.splits)
next
  case False
  have "bucket_bar (filter (\<lambda>c. ca_end_time c \<le> t) source) k = None"
  proof (rule ccontr)
    assume "bucket_bar (filter (\<lambda>c. ca_end_time c \<le> t) source) k \<noteq> None"
    then obtain c where "c \<in> set source" "ca_end_time c \<le> t" "ca_start_time c = snd k + minutes 10"
      using bucket_bar_Some by fastforce
    then show False using assms False by (auto simp: aligned_5m_def)
  qed
  then show ?thesis using bucket_bar_Some[of source k] False by (auto split: option.splits)
qed

section \<open>Pivots are final\<close>

lemma pivots_at_append:
  assumes "w \<le> i" "i + w < length xs"
  shows "pivots_at (xs @ ys) w i = pivots_at xs w i"
  using assms by (simp add: pivots_at_def nth_append)

lemma confirmed_pivots_prefix: "prefix (confirmed_pivots xs w) (confirmed_pivots (xs @ ys) w)"
proof (cases "w \<le> length xs - w")
  case True
  have "[w..<length (xs @ ys) - w] = [w..<length xs - w] @ [length xs - w..<length (xs @ ys) - w]"
    using True by (metis add_diff_cancel_left' diff_diff_cancel diff_le_mono le_add1 length_append upt_add_eq_append le_add_diff_inverse)
  moreover have "map (pivots_at (xs @ ys) w) [w..<length xs - w] = map (pivots_at xs w) [w..<length xs - w]"
    by (intro map_cong refl pivots_at_append) auto
  ultimately have "confirmed_pivots (xs @ ys) w = confirmed_pivots xs w
      @ concat (map (pivots_at (xs @ ys) w) [length xs - w..<length (xs @ ys) - w])"
    by (simp only: confirmed_pivots_def map_append concat_append)
  then show ?thesis by (simp only: prefixI)
qed (simp add: confirmed_pivots_def)

section \<open>The contract of every bar\<close>

lemma sort_key_filter_hd:
  assumes "filter P (sort_key f xs) = x # ys"
  shows "x \<in> set xs" "P x" "\<And>y. y \<in> set xs \<Longrightarrow> P y \<Longrightarrow> f x \<le> f y"
proof -
  have "x \<in> set (filter P (sort_key f xs))" using assms by simp
  then show "x \<in> set xs" "P x" by simp_all
  have s: "sorted (map f (x # ys))"
    unfolding assms[symmetric] filter_sort by simp
  fix y assume "y \<in> set xs" "P y"
  then have "y \<in> set (x # ys)" unfolding assms[symmetric] by simp
  then show "f x \<le> f y" using s by auto
qed

text \<open>The nearest contract that has not expired; one without expiry only when all others have.\<close>

definition nearest :: "contracts \<Rightarrow> day \<Rightarrow> string \<Rightarrow> bool" where
  "nearest contracts today i \<longleftrightarrow> (\<exists>d. (i, d) \<in> set contracts \<and>
     (case d of Some a \<Rightarrow> today \<le> a \<and> (\<forall>(j, e) \<in> set contracts. pred_option (\<lambda>x. today \<le> x \<longrightarrow> a \<le> x) e)
      | None \<Rightarrow> \<forall>(j, e) \<in> set contracts. pred_option (\<lambda>x. x < today) e))"

lemma resolve_contracts_nearest:
  assumes "resolve_contracts contracts t = Some i"
  shows "nearest contracts (ist_date t) i"
proof -
  let ?f = "\<lambda>(i, d). (d = None, or_max d, i)" and ?P = "\<lambda>(i, d). ist_date t \<le> or_max d"
  obtain d ys where f: "filter ?P (sort_key ?f contracts) = (i, d) # ys"
    using assms by (auto simp: resolve_contracts_def Let_def split: list.splits)
  note h = sort_key_filter_hd[OF f]
  have le: "?f (i, d) \<le> ?f (j, Some x)" if "(j, Some x) \<in> set contracts" "ist_date t \<le> x" for j x
    using h(3)[of "(j, Some x)"] that by (simp add: or_max_def)
  then have "d \<noteq> None \<and> the d \<le> x" if "(j, Some x) \<in> set contracts" "ist_date t \<le> x" for j x
    using le[OF that] by (cases d) (auto simp: less_eq_prod_def less_prod_def or_max_def)
  then have "\<forall>(j, e) \<in> set contracts. pred_option (\<lambda>x. ist_date t \<le> x \<longrightarrow> d \<noteq> None \<and> the d \<le> x) e"
    by (auto simp: pred_option_def)
  then show ?thesis unfolding nearest_def using h(1,2)
    by (intro exI[of _ d], cases d) (auto simp: or_max_def pred_option_def not_le)
qed

lemma lefts_rights_split:
  "map f (filter (\<lambda>x. isl x) xs) = map (f \<circ> Inl) (lefts xs)" "map f (filter (\<lambda>x. \<not> isl x) xs) = map (f \<circ> Inr) (rights xs)"
  by (induction xs) (auto simp: lefts_def rights_def List.map_filter_simps split: sum.splits)

lemma lefts_set: "g \<in> set (lefts xs) \<longleftrightarrow> Inl g \<in> set xs"
  by (induction xs) (auto simp: lefts_def List.map_filter_simps split: sum.splits)

definition pick_time :: "data_gap + candle \<Rightarrow> timestamp" where
  "pick_time p = case_sum dg_timestamp ca_end_time p"

lemma pick_times_split: "pick_time ` set xs = ca_end_time ` set (rights xs) \<union> dg_timestamp ` set (lefts xs)"
  by (induction xs) (auto simp: lefts_def rights_def List.map_filter_simps pick_time_def split: sum.splits)

lemma pick_bar_time [simp]: "pick_time (pick_bar completed contracts t) = t"
proof (cases "pick_bar completed contracts t")
  case (Inl g)
  then show ?thesis by (auto simp: pick_time_def pick_bar_def Let_def split: list.splits)
next
  case (Inr b)
  then show ?thesis using pick_bar_in[OF Inr] by (simp add: pick_time_def)
qed

lemma pick_bar_gap:
  assumes "pick_bar completed contracts t = Inl g" "c \<in> set completed" "ca_end_time c = dg_timestamp g"
  shows "dg_expected_contract g \<noteq> Some (ca_instrument_id c)"
proof
  assume e: "dg_expected_contract g = Some (ca_instrument_id c)"
  let ?id = "if contracts = [] then None else resolve_contracts contracts t"
  have g: "filter (\<lambda>c. Some (ca_instrument_id c) = ?id) (ordered (filter (\<lambda>c. ca_end_time c = t) completed)) = []"
    "dg_timestamp g = t" "dg_expected_contract g = ?id"
    using assms(1) by (auto simp: pick_bar_def Let_def split: list.splits)
  have "c \<in> set (filter (\<lambda>c. Some (ca_instrument_id c) = ?id) (ordered (filter (\<lambda>c. ca_end_time c = t) completed)))"
    using assms(2,3) e g(2,3) by (simp add: ordered_def)
  then show False unfolding g(1) by simp
qed

section \<open>Properties\<close>

text \<open>
  C36. No look-ahead: the feature snapshot at a time depends only on the candles completed by then (two
  histories that agree on those give the same snapshot, whatever else they contain, in any place), and
  neither its bar nor any of its pivots is known later than that time.
\<close>

theorem features_no_lookahead:
  assumes "filter (\<lambda>c. ca_end_time c \<le> t) cs = filter (\<lambda>c. ca_end_time c \<le> t) cs'"
  shows "build_features cs (Some t) = build_features cs' (Some t)
    \<and> (\<forall>f. build_features cs (Some t) = Inr f \<longrightarrow>
         fs_candle_timestamp f \<le> t \<and> (\<forall>p \<in> set (fs_pivots f). cp_confirmed_at p \<le> fs_candle_timestamp f))"
proof -
  have "known_at (Some t) = (\<lambda>c. ca_end_time c \<le> t)" by (simp add: known_at_def fun_eq_iff)
  then have "filter (known_at (Some t)) cs = filter (known_at (Some t)) cs'" using assms by simp
  then have "canonical_stream cs (Some t) ''15m'' = canonical_stream cs' (Some t) ''15m''"
    by (simp add: canonical_stream_def stream_with_diagnostics_def completed_alt)
  moreover have "fs_candle_timestamp f \<le> t \<and> (\<forall>p \<in> set (fs_pivots f). cp_confirmed_at p \<le> fs_candle_timestamp f)"
    if f: "build_features cs (Some t) = Inr f" for f
  proof -
    obtain bars where b: "canonical_stream cs (Some t) ''15m'' = Inr bars" "bars \<noteq> []" "f = snapshot_of bars"
      using f by (auto simp: build_features_def split: sum.splits if_splits)
    then have "ca_end_time (last bars) \<le> t" using stream_known(2)[OF b(1), of "last bars"] by simp
    then show ?thesis by (simp add: b(3) snapshot_of_def Let_def case_prod_beta)
  qed
  ultimately show ?thesis by (simp add: build_features_def)
qed

definition fut_bar :: "string \<Rightarrow> timestamp \<Rightarrow> int \<Rightarrow> pyfloat \<Rightarrow> candle" where
  "fut_bar i t n price = \<lparr>ca_instrument_id = i, ca_interval = show_int n @ ''m'', ca_start_time = t,
     ca_end_time = t + minutes n, ca_open = price, ca_high = price, ca_low = price, ca_close = price,
     ca_volume = 10, ca_open_interest = 0, ca_source = ''BREEZE''\<rparr>"

text \<open>A bar that ends after the time of the snapshot does not change it, wherever it stands.\<close>

theorem features_no_lookahead_witness:
  "build_features [fut_bar ''NIFTY-FUT-2026-01-29'' (minutes 15) 15 (Fin 110), fut_bar ''NIFTY-FUT-2026-01-29'' 0 15 (Fin 100)] (Some (minutes 15))
    = build_features [fut_bar ''NIFTY-FUT-2026-01-29'' 0 15 (Fin 100)] (Some (minutes 15))
   \<and> map_sum id fs_close (build_features [fut_bar ''NIFTY-FUT-2026-01-29'' 0 15 (Fin 100)] (Some (minutes 15))) = Inr (Fin 100)"
proof
  show "build_features [fut_bar ''NIFTY-FUT-2026-01-29'' (minutes 15) 15 (Fin 110), fut_bar ''NIFTY-FUT-2026-01-29'' 0 15 (Fin 100)] (Some (minutes 15))
    = build_features [fut_bar ''NIFTY-FUT-2026-01-29'' 0 15 (Fin 100)] (Some (minutes 15))"
    by (rule features_no_lookahead[THEN conjunct1]) (simp add: fut_bar_def)
  have s: "canonical_stream [fut_bar ''NIFTY-FUT-2026-01-29'' 0 15 (Fin 100)] (Some (minutes 15)) ''15m''
      = Inr [fut_bar ''NIFTY-FUT-2026-01-29'' 0 15 (Fin 100)]" by code_simp
  then show "map_sum id fs_close (build_features [fut_bar ''NIFTY-FUT-2026-01-29'' 0 15 (Fin 100)] (Some (minutes 15))) = Inr (Fin 100)"
    by (simp add: build_features_def snapshot_of_def Let_def case_prod_beta fut_bar_def)
qed

text \<open>
  Fifteen-minute bars never repaint: from five-minute candles on the five-minute grid, what is
  aggregated at an earlier time is exactly the part of any later aggregation that had ended by then.
\<close>

theorem bars_never_repaint:
  assumes "t1 \<le> t2" "\<forall>c \<in> set cs. aligned_5m c"
  shows "aggregate_completed_15m cs (Some t1) = filter (\<lambda>b. ca_end_time b \<le> t1) (aggregate_completed_15m cs (Some t2))"
proof -
  let ?S = "completed_futures_candles cs (Some t2) ''5m'' None"
  let ?T = "filter (\<lambda>c. ca_end_time c \<le> t1) ?S"
  have al: "\<forall>c \<in> set ?S. aligned_5m c" using assms(2) by (simp add: completed_set)
  have none: "bucket_bar ?T k = None" if "k \<notin> set (map bucket_key ?T)" for k
  proof (rule ccontr)
    assume "bucket_bar ?T k \<noteq> None"
    then obtain c where "c \<in> set ?T" "bucket_key c = k" using bucket_bar_Some by blast
    then show False using that by (metis image_eqI set_map)
  qed
  have "List.map_filter (bucket_bar ?T) (bucket_keys ?T) = List.map_filter (bucket_bar ?T) (bucket_keys ?S)"
    unfolding bucket_keys_filter[of _ ?S] by (intro map_filter_restrict none)
  moreover have "bucket_bar ?T = (\<lambda>k. case bucket_bar ?S k of Some b \<Rightarrow> if ca_end_time b \<le> t1 then Some b else None | None \<Rightarrow> None)"
    using bucket_bar_filter[OF al] by blast
  ultimately show ?thesis
    by (simp add: aggregate_completed_15m_def Let_def completed_earlier[OF assms(1)] filter_map_filter)
qed

definition five_minute_day :: "candle list" where
  "five_minute_day = map (\<lambda>k. fut_bar ''NIFTY-FUT-2026-01-29'' (minutes (5 * k)) 5 (Fin (of_int (100 + k)))) [3, 1, 0, 2, 4, 5]"

theorem bars_never_repaint_witness:
  "aggregate_completed_15m five_minute_day (Some (minutes 20))
    = filter (\<lambda>b. ca_end_time b \<le> minutes 20) (aggregate_completed_15m five_minute_day (Some (minutes 40)))
   \<and> map (\<lambda>b. (ca_start_time b, ca_open b, ca_close b, ca_volume b)) (aggregate_completed_15m five_minute_day (Some (minutes 40)))
     = [(0, Fin 100, Fin 102, 30), (minutes 15, Fin 103, Fin 105, 30)]"
proof
  show "aggregate_completed_15m five_minute_day (Some (minutes 20))
    = filter (\<lambda>b. ca_end_time b \<le> minutes 20) (aggregate_completed_15m five_minute_day (Some (minutes 40)))"
    by (rule bars_never_repaint) (simp_all add: five_minute_day_def aligned_5m_def fut_bar_def)
  show "map (\<lambda>b. (ca_start_time b, ca_open b, ca_close b, ca_volume b)) (aggregate_completed_15m five_minute_day (Some (minutes 40)))
     = [(0, Fin 100, Fin 102, 30), (minutes 15, Fin 103, Fin 105, 30)]"
    by code_simp
qed

text \<open>
  The futures stream never splices contracts: at most one candle per time, in order of time, each
  of the contract that is the nearest unexpired one of the whole universe on that day; every other
  time is reported as a gap, at which the expected contract has no candle.
\<close>

theorem stream_never_splices:
  assumes "stream_with_diagnostics cs as_of interval = Inr (bars, gaps)"
    and "contracts_of (completed_futures_candles cs as_of interval None) = Inr contracts"
  shows "let known = completed_futures_candles cs as_of interval None in
    sorted_wrt (<) (map ca_end_time bars)
    \<and> (\<forall>b \<in> set bars. b \<in> set known \<and> nearest contracts (ist_date (ca_end_time b)) (ca_instrument_id b))
    \<and> ca_end_time ` set known = ca_end_time ` set bars \<union> dg_timestamp ` set gaps
    \<and> (\<forall>g \<in> set gaps. \<forall>c \<in> set known. ca_end_time c = dg_timestamp g \<longrightarrow> dg_expected_contract g \<noteq> Some (ca_instrument_id c))"
proof -
  define known where "known = completed_futures_candles cs as_of interval None"
  define times where "times = sort (remdups (map ca_end_time known))"
  define picks where "picks = map (pick_bar known contracts) times"
  have bg: "bars = rights picks" "gaps = lefts picks"
    using assms by (auto simp: stream_with_diagnostics_def Let_def known_def times_def picks_def)
  have t: "map pick_time picks = times" by (simp add: picks_def comp_def)
  have st: "sorted_wrt (<) times" by (simp add: times_def strict_sorted_iff)
  have "map pick_time (filter (\<lambda>x. \<not> isl x) picks) = map ca_end_time bars"
    by (simp add: lefts_rights_split bg comp_def pick_time_def)
  moreover have "sorted_wrt (<) (map pick_time (filter (\<lambda>x. \<not> isl x) picks))"
    using st unfolding t[symmetric] sorted_wrt_map by (rule sorted_wrt_filter)
  ultimately have "sorted_wrt (<) (map ca_end_time bars)" by simp
  moreover have "\<forall>b \<in> set bars. b \<in> set known \<and> nearest contracts (ist_date (ca_end_time b)) (ca_instrument_id b)"
  proof
    fix b assume "b \<in> set bars"
    then obtain t where "pick_bar known contracts t = Inr b" unfolding bg rights_set picks_def by force
    from pick_bar_in[OF this] show "b \<in> set known \<and> nearest contracts (ist_date (ca_end_time b)) (ca_instrument_id b)"
      using resolve_contracts_nearest by blast
  qed
  moreover have "ca_end_time ` set known = ca_end_time ` set bars \<union> dg_timestamp ` set gaps"
  proof -
    have "pick_time ` set picks = ca_end_time ` set bars \<union> dg_timestamp ` set gaps"
      unfolding bg by (rule pick_times_split)
    moreover have "pick_time ` set picks = ca_end_time ` set known"
      unfolding set_map[symmetric] t by (simp add: times_def)
    ultimately show ?thesis by simp
  qed
  moreover have "\<forall>g \<in> set gaps. \<forall>c \<in> set known. ca_end_time c = dg_timestamp g \<longrightarrow> dg_expected_contract g \<noteq> Some (ca_instrument_id c)"
  proof (intro ballI impI)
    fix g c assume "g \<in> set gaps" and c: "c \<in> set known" "ca_end_time c = dg_timestamp g"
    then obtain t where "pick_bar known contracts t = Inl g" unfolding bg lefts_set picks_def by force
    from pick_bar_gap[OF this c] show "dg_expected_contract g \<noteq> Some (ca_instrument_id c)" .
  qed
  ultimately show ?thesis by (simp add: known_def)
qed

text \<open>The near contract has no candle in the second quarter of an hour: a gap, not the next contract.\<close>

definition near_and_next :: "candle list" where
  "near_and_next = [fut_bar ''NIFTY-FUT-2026-02-26'' (minutes 15) 15 (Fin 101), fut_bar ''NIFTY-FUT-2026-01-29'' 0 15 (Fin 100),
     fut_bar ''NIFTY-FUT-2026-02-26'' 0 15 (Fin 102)]"

theorem stream_never_splices_witness:
  "\<exists>b gaps contracts. stream_with_diagnostics near_and_next None ''15m'' = Inr ([b], gaps)
    \<and> ca_close b = Fin 100 \<and> map dg_timestamp gaps = [minutes 30]
    \<and> nearest contracts (ist_date (ca_end_time b)) (ca_instrument_id b)"
proof -
  let ?bars = "[near_and_next ! 1]"
  let ?gaps = "[\<lparr>dg_timestamp = minutes 30, dg_expected_contract = Some ''NIFTY-FUT-2026-01-29'', dg_reason = ''ACTIVE_FUTURES_CANDLE_MISSING''\<rparr>]"
  let ?contracts = "[(''NIFTY-FUT-2026-01-29'', from_iso ''2026-01-29''), (''NIFTY-FUT-2026-02-26'', from_iso ''2026-02-26'')]"
  have s: "stream_with_diagnostics near_and_next None ''15m'' = Inr (?bars, ?gaps)" by code_simp
  have c: "contracts_of (completed_futures_candles near_and_next None ''15m'' None) = Inr ?contracts" by code_simp
  have "ca_close (near_and_next ! 1) = Fin 100" by code_simp
  then show ?thesis using s stream_never_splices[OF s c] by (auto simp: Let_def)
qed

end
