(* ===== verification/ContractSelection.thy ===== *)
theory ContractSelection imports StrategyState Calendar begin

text \<open>
  Choice of the option contract, \<^verbatim>\<open>services/strategy/contract_selector.py\<close>.  An option chain is a
  dictionary read with defaults: an absent key is \<open>None\<close>, and the values have the types the providers
  give them.  A raw time is an aware time or one that \<^verbatim>\<open>_parse_timestamp\<close> cannot use; \<open>offset\<close> is the
  UTC offset of the selection time, whose \<^verbatim>\<open>date()\<close> is its own wall clock date.  Strikes are finite, and
  no price of a quote is a NaN, so that every comparison of sort keys is that of a linear order.
\<close>

section \<open>Data\<close>

datatype raw_time = Aware timestamp | Unusable

fun parse_timestamp :: "raw_time option \<Rightarrow> timestamp option" where
  "parse_timestamp (Some (Aware t)) = Some t"
| "parse_timestamp _ = None"

record greeks =
  gk_delta :: "pyfloat option"
  gk_gamma :: "pyfloat option"
  gk_timestamp :: "raw_time option"

record option_leg =
  lg_expiry :: "string option"
  lg_delta :: "pyfloat option"
  lg_gamma :: "pyfloat option"
  lg_greeks :: "greeks option"
  lg_delta_source :: "string option"
  lg_greek_source :: "string option"
  lg_bid :: "pyfloat option"
  lg_ask :: "pyfloat option"
  lg_ltp :: "pyfloat option"
  lg_quote_timestamp :: "raw_time option"
  lg_timestamp :: "raw_time option"
  lg_greek_timestamp :: "raw_time option"
  lg_open_interest :: "int option"
  lg_volume :: "int option"
  lg_lot_size :: "int option"
  lg_instrument_id :: "string option"
  lg_symbol :: "string option"
  lg_instrument_token :: "string option"
  lg_token :: "string option"

record strike_row =
  sr_strike :: pyfloat
  sr_call :: "option_leg option"
  sr_put :: "option_leg option"
  sr_expiry :: "string option"

record capabilities =
  cy_verified_delta_available :: "bool option"
  cy_rejection_reason :: "string option"

record option_chain =
  oc_timestamp :: "raw_time option"
  oc_expiry :: "string option"
  oc_strikes :: "strike_row list"
  oc_holidays :: "string list"
  oc_capabilities :: "capabilities option"

record selection_config =
  os_max_option_premium :: pyfloat
  os_min_option_premium :: pyfloat
  os_min_open_interest :: int
  os_max_bid_ask_spread_pct :: pyfloat
  os_preferred_delta_min :: pyfloat
  os_preferred_delta_max :: pyfloat
  os_allowed_delta_min :: pyfloat
  os_allowed_delta_max :: pyfloat
  os_minimum_expiry_sessions_remaining :: int
  os_max_quote_age_seconds :: pyfloat
  os_minimum_volume :: int
  os_exchange_holidays :: "day list"

text \<open>The \<^verbatim>\<open>info\<close> dictionary of an inspected leg, with the raw quote time and the unrounded spread the
  loop keeps beside it.\<close>

record leg_info =
  li_strike :: pyfloat
  li_expiry :: string
  li_bid :: pyfloat
  li_ask :: pyfloat
  li_mid :: pyfloat
  li_spread_points :: pyfloat
  li_spread_raw :: pyfloat
  li_spread_pct :: "pyfloat option"
  li_delta :: "pyfloat option"
  li_gamma :: "pyfloat option"
  li_greek_source :: string
  li_greek_timestamp :: "timestamp option"
  li_raw_quote :: "raw_time option"
  li_quote_timestamp :: "timestamp option"
  li_freshness :: "pyfloat option"
  li_open_interest :: int
  li_volume :: int
  li_lot_size :: int
  li_instrument_id :: "string option"
  li_symbol :: "string option"
  li_instrument_token :: "string option"
  li_ltp :: pyfloat
  li_status :: string
  li_preferred_delta :: bool
  li_delta_distance :: pyfloat

record selected_contract =
  sc_instrument_id :: string
  sc_symbol :: string
  sc_expiry :: string
  sc_strike :: pyfloat
  sc_direction :: trade_direction
  sc_ask_price :: pyfloat
  sc_bid_price :: pyfloat
  sc_open_interest :: int
  sc_volume :: int
  sc_spread_pct :: pyfloat
  sc_lot_size :: int
  sc_ltp :: pyfloat
  sc_instrument_token :: "string option"
  sc_delta :: "pyfloat option"
  sc_gamma :: "pyfloat option"
  sc_greek_source :: string
  sc_greek_timestamp :: "timestamp option"
  sc_quote_timestamp :: "timestamp option"
  sc_freshness :: "pyfloat option"
  sc_mid_price :: pyfloat
  sc_spread_points :: pyfloat
  sc_sessions_remaining :: int

section \<open>Sessions until expiry\<close>

function count_sessions :: "day list \<Rightarrow> day \<Rightarrow> day \<Rightarrow> int \<Rightarrow> int" where
  "count_sessions holidays cursor expiry count =
     (if cursor \<le> expiry
      then count_sessions holidays (cursor + 1) expiry
        (if weekday cursor < 5 \<and> cursor \<notin> set holidays then count + 1 else count)
      else count)"
  by pat_completeness auto
termination by (relation "measure (\<lambda>(_, cursor, expiry, _). nat (expiry + 1 - cursor))") auto

declare count_sessions.simps [simp del]

definition trading_sessions_remaining :: "day \<Rightarrow> day \<Rightarrow> day list \<Rightarrow> int" where
  "trading_sessions_remaining as_of expiry holidays = count_sessions holidays (as_of + 1) expiry 0"

lemma count_sessions_card:
  "count_sessions holidays cursor expiry count
    = count + int (card {d \<in> {cursor..expiry}. weekday d < 5 \<and> d \<notin> set holidays})"
proof (induction holidays cursor expiry count rule: count_sessions.induct)
  case (1 holidays cursor expiry count)
  let ?S = "\<lambda>c. {d \<in> {c..expiry}. weekday d < 5 \<and> d \<notin> set holidays}"
  show ?case
  proof (cases "cursor \<le> expiry")
    case True
    have "?S cursor = (if weekday cursor < 5 \<and> cursor \<notin> set holidays then insert cursor (?S (cursor + 1)) else ?S (cursor + 1))"
      using True by (auto simp: order.order_iff_strict)
    moreover have "cursor \<notin> ?S (cursor + 1)" "finite (?S (cursor + 1))"
      by (simp, rule finite_subset[of _ "{cursor + 1..expiry}"]) auto
    ultimately have "int (card (?S cursor)) = int (card (?S (cursor + 1))) + (if weekday cursor < 5 \<and> cursor \<notin> set holidays then 1 else 0)"
      by simp
    then show ?thesis using 1[OF True] True by (subst count_sessions.simps) simp
  qed (simp add: count_sessions.simps)
qed

lemma trading_sessions_card:
  "trading_sessions_remaining as_of expiry holidays
    = int (card {d. as_of < d \<and> d \<le> expiry \<and> weekday d < 5 \<and> d \<notin> set holidays})"
proof -
  have "{d \<in> {as_of + 1..expiry}. weekday d < 5 \<and> d \<notin> set holidays}
      = {d. as_of < d \<and> d \<le> expiry \<and> weekday d < 5 \<and> d \<notin> set holidays}" by auto
  then show ?thesis by (simp add: trading_sessions_remaining_def count_sessions_card)
qed

definition eligible_expiry :: "selection_config \<Rightarrow> day \<Rightarrow> day list \<Rightarrow> string \<Rightarrow> bool" where
  "eligible_expiry C today holidays expiry =
     (if expiry = '''' then False
      else (case from_iso (take 10 expiry) of None \<Rightarrow> False
        | Some d \<Rightarrow> os_minimum_expiry_sessions_remaining C \<le> trading_sessions_remaining today d holidays))"

section \<open>Inspecting a leg\<close>

text \<open>\<^verbatim>\<open>x or default\<close> of an optional text and of an optional number.\<close>

definition text_or :: "string option \<Rightarrow> string option \<Rightarrow> string option" where
  "text_or x y = (case x of Some (c # cs) \<Rightarrow> x | _ \<Rightarrow> y)"

definition num_or_zero :: "pyfloat option \<Rightarrow> pyfloat" where
  "num_or_zero x = opt_or x (Fin 0)"

definition int_or_zero :: "int option \<Rightarrow> int" where
  "int_or_zero x = (case x of None \<Rightarrow> 0 | Some n \<Rightarrow> n)"

definition time_or :: "raw_time option \<Rightarrow> raw_time option \<Rightarrow> raw_time option" where
  "time_or x y = (case x of None \<Rightarrow> y | Some t \<Rightarrow> x)"

definition leg_of :: "trade_direction \<Rightarrow> strike_row \<Rightarrow> option_leg option" where
  "leg_of direction r = (if direction = BULLISH then sr_call r else sr_put r)"

definition empty_leg :: option_leg where
  "empty_leg = \<lparr>lg_expiry = None, lg_delta = None, lg_gamma = None, lg_greeks = None, lg_delta_source = None,
     lg_greek_source = None, lg_bid = None, lg_ask = None, lg_ltp = None, lg_quote_timestamp = None, lg_timestamp = None,
     lg_greek_timestamp = None, lg_open_interest = None, lg_volume = None, lg_lot_size = None, lg_instrument_id = None,
     lg_symbol = None, lg_instrument_token = None, lg_token = None\<rparr>"

definition the_leg :: "trade_direction \<Rightarrow> strike_row \<Rightarrow> option_leg" where
  "the_leg direction r = (case leg_of direction r of None \<Rightarrow> empty_leg | Some l \<Rightarrow> l)"

definition leg_expiry :: "option_chain \<Rightarrow> trade_direction \<Rightarrow> strike_row \<Rightarrow> string option" where
  "leg_expiry chain direction r = text_or (lg_expiry (the_leg direction r)) (text_or (sr_expiry r) (oc_expiry chain))"

definition leg_delta :: "option_leg \<Rightarrow> pyfloat option" where
  "leg_delta l = (case lg_delta l of Some d \<Rightarrow> Some d | None \<Rightarrow> (case lg_greeks l of None \<Rightarrow> None | Some g \<Rightarrow> gk_delta g))"

definition leg_gamma :: "option_leg \<Rightarrow> pyfloat option" where
  "leg_gamma l = (case lg_gamma l of Some d \<Rightarrow> Some d | None \<Rightarrow> (case lg_greeks l of None \<Rightarrow> None | Some g \<Rightarrow> gk_gamma g))"

definition greek_source :: "option_leg \<Rightarrow> string" where
  "greek_source l = to_upper (case text_or (lg_delta_source l) (lg_greek_source l) of
     Some (c # cs) \<Rightarrow> c # cs | _ \<Rightarrow> if leg_delta l \<noteq> None then ''BROKER'' else ''UNAVAILABLE'')"

definition inspect_leg :: "timestamp \<Rightarrow> option_chain \<Rightarrow> trade_direction \<Rightarrow> strike_row \<Rightarrow> leg_info" where
  "inspect_leg now chain direction r =
     (let leg = the_leg direction r; bid = num_or_zero (lg_bid leg); ask = num_or_zero (lg_ask leg);
          two_sided = flt (Fin 0) bid \<and> flt (Fin 0) ask;
          mid = (if two_sided then (case fdiv (fadd bid ask) (Fin 2) of Some x \<Rightarrow> x | None \<Rightarrow> NaN) else Fin 0);
          spread = (if two_sided then fsub ask bid else Fin 0);
          spread_pct = (case fdiv spread mid of None \<Rightarrow> PInf | Some x \<Rightarrow> fmul x (Fin 100));
          raw_quote = time_or (lg_quote_timestamp leg) (time_or (lg_timestamp leg) (oc_timestamp chain));
          quote_timestamp = parse_timestamp raw_quote;
          raw_greek = time_or (lg_greek_timestamp leg)
            (time_or (case lg_greeks leg of None \<Rightarrow> None | Some g \<Rightarrow> gk_timestamp g) raw_quote)
      in \<lparr>li_strike = sr_strike r,
          li_expiry = (case leg_expiry chain direction r of None \<Rightarrow> '''' | Some e \<Rightarrow> e),
          li_bid = bid, li_ask = ask, li_mid = mid, li_spread_points = spread, li_spread_raw = spread_pct,
          li_spread_pct = (if spread_pct = PInf then None else Some (fround 4 spread_pct)),
          li_delta = leg_delta leg, li_gamma = leg_gamma leg, li_greek_source = greek_source leg,
          li_greek_timestamp = parse_timestamp raw_greek, li_raw_quote = raw_quote, li_quote_timestamp = quote_timestamp,
          li_freshness = map_option (\<lambda>t. total_seconds (now - t)) quote_timestamp,
          li_open_interest = int_or_zero (lg_open_interest leg), li_volume = int_or_zero (lg_volume leg),
          li_lot_size = int_or_zero (lg_lot_size leg), li_instrument_id = lg_instrument_id leg, li_symbol = lg_symbol leg,
          li_instrument_token = text_or (lg_instrument_token leg) (lg_token leg), li_ltp = num_or_zero (lg_ltp leg),
          li_status = ''INSPECTED'', li_preferred_delta = False, li_delta_distance = Fin 0\<rparr>)"

definition has_id :: "leg_info \<Rightarrow> bool" where
  "has_id i = (text_or (li_instrument_id i) None \<noteq> None)"

definition delta_within :: "pyfloat \<Rightarrow> pyfloat \<Rightarrow> leg_info \<Rightarrow> bool" where
  "delta_within low high i = (case li_delta i of None \<Rightarrow> False | Some d \<Rightarrow> fle low (fabs d) \<and> fle (fabs d) high)"

text \<open>The first rule a leg breaks, in the order of the code.\<close>

definition status_a :: "selection_config \<Rightarrow> string \<Rightarrow> leg_info \<Rightarrow> string" where
  "status_a C nearest_expiry i =
     (if li_expiry i \<noteq> nearest_expiry then ''REJECTED_NOT_NEAREST_ELIGIBLE_EXPIRY''
      else if \<not> has_id i \<or> li_lot_size i \<le> 0 then ''REJECTED_MISSING_CONTRACT_METADATA''
      else if fle (li_bid i) (Fin 0) \<or> fle (li_ask i) (Fin 0) \<or> flt (li_ask i) (li_bid i) then ''REJECTED_INVALID_QUOTE''
      else if \<not> delta_within (os_allowed_delta_min C) (os_allowed_delta_max C) i
        then ''REJECTED_DELTA_UNAVAILABLE_OR_OUT_OF_RANGE''
      else if li_raw_quote i = None then ''REJECTED_MISSING_QUOTE_TIMESTAMP''
      else (case li_freshness i of
          None \<Rightarrow> ''REJECTED_INVALID_QUOTE_TIMESTAMP''
        | Some age \<Rightarrow>
            if flt age (Fin 0) then ''REJECTED_FUTURE_QUOTE_TIMESTAMP''
            else if flt (os_max_quote_age_seconds C) age then ''REJECTED_STALE_QUOTE''
            else if flt (os_max_bid_ask_spread_pct C) (li_spread_raw i) then ''REJECTED_WIDE_SPREAD''
            else if li_volume i < os_minimum_volume C \<or> li_open_interest i < os_min_open_interest C
              then ''REJECTED_LIQUIDITY''
            else ''ELIGIBLE''))"

definition status_legacy :: "selection_config \<Rightarrow> pyfloat option \<Rightarrow> string \<Rightarrow> leg_info \<Rightarrow> string" where
  "status_legacy C override nearest_expiry i =
     (let cap = (case override of None \<Rightarrow> os_max_option_premium C | Some x \<Rightarrow> x) in
      if li_expiry i \<noteq> nearest_expiry \<or> \<not> has_id i \<or> li_lot_size i \<le> 0 \<or> fle (li_bid i) (Fin 0) \<or> flt (li_ask i) (li_bid i)
      then ''REJECTED_METADATA_OR_QUOTE''
      else if flt cap (li_ask i) \<or> flt (li_ask i) (os_min_option_premium C) \<or> li_open_interest i < os_min_open_interest C
        \<or> flt (os_max_bid_ask_spread_pct C) (li_spread_raw i) then ''REJECTED_LEGACY_LIQUIDITY''
      else ''ELIGIBLE'')"

definition judge_leg :: "selection_config \<Rightarrow> bool \<Rightarrow> pyfloat option \<Rightarrow> string \<Rightarrow> leg_info \<Rightarrow> leg_info" where
  "judge_leg C strategy_a override nearest_expiry i =
     (let status = (if strategy_a then status_a C nearest_expiry i else status_legacy C override nearest_expiry i) in
      if \<not> strategy_a \<or> status \<noteq> ''ELIGIBLE'' then i\<lparr>li_status := status\<rparr>
      else (let delta_abs = fabs (the (li_delta i));
                preferred = delta_within (os_preferred_delta_min C) (os_preferred_delta_max C) i in
        i\<lparr>li_status := status, li_preferred_delta := preferred,
          li_delta_distance := (if preferred then Fin 0
            else pmin (fabs (fsub delta_abs (os_preferred_delta_min C))) (fabs (fsub delta_abs (os_preferred_delta_max C))))\<rparr>))"

section \<open>Ranking\<close>

text \<open>Floats that are not a NaN, in their order.\<close>

fun fkey :: "pyfloat \<Rightarrow> int \<times> rat" where
  "fkey NInf = (0, 0)"
| "fkey (Fin a) = (1, a)"
| "fkey PInf = (2, 0)"
| "fkey NaN = (3, 0)"

lemma fkey_less: "x \<noteq> NaN \<Longrightarrow> y \<noteq> NaN \<Longrightarrow> fkey x < fkey y \<longleftrightarrow> flt x y"
  by (cases x; cases y) (auto simp: less_prod_def)

text \<open>\<^verbatim>\<open>x["spread_pct"] or float("inf")\<close>: also a spread of zero is replaced.\<close>

definition spread_key :: "leg_info \<Rightarrow> pyfloat" where
  "spread_key i = opt_or (li_spread_pct i) PInf"

definition rank_a :: "leg_info \<Rightarrow> int \<times> (int \<times> rat) \<times> (int \<times> rat) \<times> (int \<times> rat) \<times> int \<times> int \<times> (int \<times> rat) \<times> string" where
  "rank_a i = (if li_preferred_delta i then 0 else 1, fkey (li_delta_distance i), fkey (the (li_freshness i)),
     fkey (spread_key i), - li_open_interest i, - li_volume i, fkey (li_strike i),
     case li_instrument_id i of None \<Rightarrow> '''' | Some s \<Rightarrow> s)"

definition rank_legacy :: "leg_info \<Rightarrow> (int \<times> rat) \<times> (int \<times> rat) \<times> int \<times> (int \<times> rat) \<times> string" where
  "rank_legacy i = (fkey (fneg (li_ask i)), fkey (the (li_spread_pct i)), - li_open_interest i, fkey (li_strike i),
     case li_instrument_id i of None \<Rightarrow> '''' | Some s \<Rightarrow> s)"

section \<open>Selection\<close>

definition strike_text :: "pyfloat \<Rightarrow> string" where
  "strike_text x = (case x of Fin a \<Rightarrow> show_int (if 0 \<le> a then \<lfloor>a\<rfloor> else \<lceil>a\<rceil>) | _ \<Rightarrow> '''')"

definition selected_of :: "trade_direction \<Rightarrow> day \<Rightarrow> day list \<Rightarrow> leg_info \<Rightarrow> selected_contract" where
  "selected_of direction today holidays b =
     \<lparr>sc_instrument_id = the (li_instrument_id b),
      sc_symbol = (case text_or (li_symbol b) None of Some s \<Rightarrow> s
        | None \<Rightarrow> ''NIFTY'' @ strike_text (li_strike b) @ (if direction = BULLISH then ''CE'' else ''PE'')),
      sc_expiry = li_expiry b, sc_strike = li_strike b, sc_direction = direction, sc_ask_price = li_ask b,
      sc_bid_price = li_bid b, sc_open_interest = li_open_interest b, sc_volume = li_volume b,
      sc_spread_pct = num_or_zero (li_spread_pct b), sc_lot_size = li_lot_size b, sc_ltp = li_ltp b,
      sc_instrument_token = li_instrument_token b, sc_delta = li_delta b, sc_gamma = li_gamma b,
      sc_greek_source = li_greek_source b, sc_greek_timestamp = li_greek_timestamp b,
      sc_quote_timestamp = li_quote_timestamp b, sc_freshness = li_freshness b, sc_mid_price = li_mid b,
      sc_spread_points = li_spread_points b,
      sc_sessions_remaining = (case from_iso (take 10 (li_expiry b)) of None \<Rightarrow> 0
        | Some d \<Rightarrow> trading_sessions_remaining today d holidays)\<rparr>"

fun parse_days :: "string list \<Rightarrow> exn + day list" where
  "parse_days [] = Inr []"
| "parse_days (s # ss) = (case from_iso (take 10 s) of None \<Rightarrow> Inl (ValueError ''Invalid isoformat string'')
     | Some d \<Rightarrow> map_sum id ((#) d) (parse_days ss))"

definition eligible_expiries :: "selection_config \<Rightarrow> day \<Rightarrow> day list \<Rightarrow> option_chain \<Rightarrow> trade_direction \<Rightarrow> string list" where
  "eligible_expiries C today holidays chain direction =
     filter (\<lambda>x. x \<noteq> ''None'' \<and> eligible_expiry C today holidays x)
       (sort (remdups (map (\<lambda>r. case leg_expiry chain direction r of None \<Rightarrow> ''None'' | Some e \<Rightarrow> e) (oc_strikes chain))))"

definition inspected_legs :: "selection_config \<Rightarrow> bool \<Rightarrow> pyfloat option \<Rightarrow> timestamp \<Rightarrow> string \<Rightarrow> option_chain \<Rightarrow> trade_direction \<Rightarrow> leg_info list" where
  "inspected_legs C strategy_a override now nearest_expiry chain direction =
     map (\<lambda>r. judge_leg C strategy_a override nearest_expiry (inspect_leg now chain direction r))
       (sort_key (\<lambda>r. fkey (sr_strike r)) (oc_strikes chain))"

definition rank_candidates :: "bool \<Rightarrow> leg_info list \<Rightarrow> leg_info list" where
  "rank_candidates strategy_a cs = (if strategy_a then sort_key rank_a cs else sort_key rank_legacy cs)"

type_synonym selection = "selected_contract option \<times> leg_info list \<times> string option"

definition day_of :: "int \<Rightarrow> timestamp \<Rightarrow> day" where
  "day_of offset now = (now + offset) div seconds 86400"

text \<open>The selection once the time and the chain are known to be usable.\<close>

definition select_at :: "selection_config \<Rightarrow> int \<Rightarrow> trade_direction \<Rightarrow> option_chain \<Rightarrow> pyfloat option \<Rightarrow> bool \<Rightarrow> timestamp \<Rightarrow> exn + selection" where
  "select_at C offset direction chain override strategy_a now =
     (case parse_days (oc_holidays chain) of Inl e \<Rightarrow> Inl e
      | Inr chain_holidays \<Rightarrow> Inr
         (let holidays = os_exchange_holidays C @ chain_holidays; today = day_of offset now in
          case eligible_expiries C today holidays chain direction of
            [] \<Rightarrow> (None, [], Some ''NO_ELIGIBLE_EXPIRY_TWO_TRADING_SESSIONS'')
          | nearest_expiry # _ \<Rightarrow>
             (let inspected = inspected_legs C strategy_a override now nearest_expiry chain direction;
                  candidates = filter (\<lambda>i. li_status i = ''ELIGIBLE'') inspected in
              case rank_candidates strategy_a candidates of
                [] \<Rightarrow> (None, inspected, Some ''NO_ELIGIBLE_DELTA_AWARE_CONTRACT'')
              | best # _ \<Rightarrow> (Some (selected_of direction today holidays best), inspected, None))))"

definition verified_delta_missing :: "option_chain \<Rightarrow> bool" where
  "verified_delta_missing chain = (case oc_capabilities chain of None \<Rightarrow> False
     | Some y \<Rightarrow> cy_verified_delta_available y = Some False)"

definition delta_missing_reason :: "option_chain \<Rightarrow> string" where
  "delta_missing_reason chain = (case oc_capabilities chain of None \<Rightarrow> ''VERIFIED_OPTION_DELTA_UNAVAILABLE''
     | Some y \<Rightarrow> (case text_or (cy_rejection_reason y) None of None \<Rightarrow> ''VERIFIED_OPTION_DELTA_UNAVAILABLE'' | Some s \<Rightarrow> s))"

text \<open>\<open>wall\<close> is \<^verbatim>\<open>datetime.now(timezone.utc)\<close>, which only the compatibility path reads.\<close>

definition select_contract :: "selection_config \<Rightarrow> timestamp \<Rightarrow> int \<Rightarrow> trade_direction \<Rightarrow> pyfloat option \<Rightarrow> option_chain
    \<Rightarrow> pyfloat option \<Rightarrow> pyfloat option \<Rightarrow> raw_time option \<Rightarrow> bool \<Rightarrow> exn + selection" where
  "select_contract C wall offset direction spot_price chain override underlying_price as_of strategy_a =
     (let underlying = (case underlying_price of Some u \<Rightarrow> u | None \<Rightarrow> num_or_zero spot_price);
          given = (case as_of of Some r \<Rightarrow> Some r | None \<Rightarrow> map_option Aware (parse_timestamp (oc_timestamp chain))) in
      if fle underlying (Fin 0) then Inr (None, [], Some ''INVALID_UNDERLYING_PRICE'')
      else if given = None \<and> strategy_a then Inr (None, [], Some ''MISSING_SELECTION_TIMESTAMP'')
      else (case (case given of None \<Rightarrow> Aware wall | Some r \<Rightarrow> r) of
          Unusable \<Rightarrow> Inr (None, [], Some ''NAIVE_SELECTION_TIMESTAMP'')
        | Aware now \<Rightarrow>
            if strategy_a \<and> verified_delta_missing chain then Inr (None, [], Some (delta_missing_reason chain))
            else if oc_strikes chain = [] then Inr (None, [], Some ''NO_STRIKES_IN_OPTION_CHAIN'')
            else select_at C offset direction chain override strategy_a now))"

section \<open>The selected contract\<close>

lemma judge_a:
  "li_status (judge_leg C True override e i) = status_a C e i"
  "li_expiry (judge_leg C True override e i) = li_expiry i" "li_bid (judge_leg C True override e i) = li_bid i"
  "li_ask (judge_leg C True override e i) = li_ask i" "li_delta (judge_leg C True override e i) = li_delta i"
  "li_lot_size (judge_leg C True override e i) = li_lot_size i" "li_freshness (judge_leg C True override e i) = li_freshness i"
  "li_spread_raw (judge_leg C True override e i) = li_spread_raw i" "li_volume (judge_leg C True override e i) = li_volume i"
  "li_open_interest (judge_leg C True override e i) = li_open_interest i"
  by (simp_all add: judge_leg_def Let_def)

lemma status_a_eligible:
  assumes "status_a C e i = ''ELIGIBLE''"
  shows "li_expiry i = e \<and> 0 < li_lot_size i \<and> \<not> fle (li_bid i) (Fin 0) \<and> \<not> fle (li_ask i) (Fin 0) \<and> \<not> flt (li_ask i) (li_bid i)
    \<and> delta_within (os_allowed_delta_min C) (os_allowed_delta_max C) i
    \<and> (\<exists>age. li_freshness i = Some age \<and> \<not> flt age (Fin 0) \<and> \<not> flt (os_max_quote_age_seconds C) age)
    \<and> \<not> flt (os_max_bid_ask_spread_pct C) (li_spread_raw i)
    \<and> os_minimum_volume C \<le> li_volume i \<and> os_min_open_interest C \<le> li_open_interest i"
  using assms by (auto simp: status_a_def split: if_splits option.splits)

definition selection_time :: "raw_time option \<Rightarrow> option_chain \<Rightarrow> timestamp option" where
  "selection_time as_of chain = (case as_of of Some r \<Rightarrow> parse_timestamp (Some r) | None \<Rightarrow> parse_timestamp (oc_timestamp chain))"

lemma select_contract_a:
  assumes "select_contract C wall offset direction spot chain override underlying as_of True = Inr (Some sel, inspected, reason)"
  obtains now where "select_at C offset direction chain override True now = Inr (Some sel, inspected, reason)"
    and "selection_time as_of chain = Some now"
  using assms
  by (auto simp: select_contract_def Let_def selection_time_def split: if_splits option.splits raw_time.splits)

lemma select_at_best:
  assumes "select_at C offset direction chain override True now = Inr (Some sel, inspected, reason)"
  obtains chain_holidays holidays nearest_expiry best where
    "parse_days (oc_holidays chain) = Inr chain_holidays" "holidays = os_exchange_holidays C @ chain_holidays"
    "nearest_expiry \<in> set (eligible_expiries C (day_of offset now) holidays chain direction)"
    "\<forall>e \<in> set (eligible_expiries C (day_of offset now) holidays chain direction). nearest_expiry \<le> e"
    "inspected = inspected_legs C True override now nearest_expiry chain direction"
    "best \<in> set inspected" "li_status best = ''ELIGIBLE''"
    "\<forall>i \<in> set inspected. li_status i = ''ELIGIBLE'' \<longrightarrow> rank_a best \<le> rank_a i"
    "sel = selected_of direction (day_of offset now) holidays best" "reason = None"
proof -
  obtain chain_holidays where p: "parse_days (oc_holidays chain) = Inr chain_holidays"
    using assms by (auto simp: select_at_def split: sum.splits)
  let ?h = "os_exchange_holidays C @ chain_holidays" and ?today = "day_of offset now"
  let ?E = "eligible_expiries C ?today ?h chain direction"
  have E_ne: "?E \<noteq> []"
    using assms by (cases ?E) (simp_all add: select_at_def p Let_def)
  then obtain e es where E: "?E = e # es" by (cases ?E) auto
  let ?I = "inspected_legs C True override now e chain direction"
  let ?R = "sort_key rank_a (filter (\<lambda>i. li_status i = ''ELIGIBLE'') ?I)"
  have "?R \<noteq> []" using assms by (cases ?R) (simp_all add: select_at_def p Let_def E rank_candidates_def)
  then obtain best rest where R: "?R = best # rest" by (cases ?R) auto
  have fields: "inspected = ?I" "sel = selected_of direction ?today ?h best" "reason = None"
    using assms by (simp_all add: select_at_def p Let_def E R rank_candidates_def)
  have "best \<in> set (sort_key rank_a (filter (\<lambda>i. li_status i = ''ELIGIBLE'') ?I))" using R by simp
  then have b: "best \<in> set ?I" "li_status best = ''ELIGIBLE''" by simp_all
  have "sorted (map rank_a (best # rest))" unfolding R[symmetric] by simp
  moreover have "set (best # rest) = {i \<in> set ?I. li_status i = ''ELIGIBLE''}" unfolding R[symmetric] by simp
  ultimately have least: "\<forall>i \<in> set ?I. li_status i = ''ELIGIBLE'' \<longrightarrow> rank_a best \<le> rank_a i" by auto
  have "sorted ?E" unfolding eligible_expiries_def by (rule sorted_filter[of id, simplified list.map_id id_apply]) simp
  then have "\<forall>x \<in> set ?E. e \<le> x" using E by auto
  then show ?thesis using that[of chain_holidays ?h e best] p E b least fields by simp
qed

section \<open>Properties\<close>

text \<open>
  C37. The contract Strategy A is given obeys every configured limit at the selection time: an expiry
  with enough sessions left (weekdays after the selection day, up to the expiry, that are neither
  configured exchange holidays nor holidays of the chain), the earliest such expiry of the chain, a
  two-sided quote that is neither stale nor from the future, a delta within the allowed band, spread,
  volume and open interest within their limits; and no other eligible contract of that expiry has a
  smaller key in the ranking of the code (in which a spread of exactly zero ranks last).
\<close>

theorem selected_contract_admissible:
  assumes "select_contract C wall offset direction spot chain override underlying as_of True = Inr (Some sel, inspected, reason)"
  shows "reason = None \<and> 0 < sc_lot_size sel
    \<and> \<not> fle (sc_bid_price sel) (Fin 0) \<and> \<not> flt (sc_ask_price sel) (sc_bid_price sel)
    \<and> (\<exists>d. sc_delta sel = Some d \<and> fle (os_allowed_delta_min C) (fabs d) \<and> fle (fabs d) (os_allowed_delta_max C))
    \<and> (\<exists>age. sc_freshness sel = Some age \<and> \<not> flt age (Fin 0) \<and> \<not> flt (os_max_quote_age_seconds C) age)
    \<and> os_minimum_volume C \<le> sc_volume sel \<and> os_min_open_interest C \<le> sc_open_interest sel
    \<and> os_minimum_expiry_sessions_remaining C \<le> sc_sessions_remaining sel
    \<and> (\<exists>now chain_holidays expiry best. selection_time as_of chain = Some now
        \<and> parse_days (oc_holidays chain) = Inr chain_holidays
        \<and> from_iso (take 10 (sc_expiry sel)) = Some expiry
        \<and> sc_sessions_remaining sel = int (card {d. day_of offset now < d \<and> d \<le> expiry \<and> weekday d < 5
             \<and> d \<notin> set (os_exchange_holidays C) \<and> d \<notin> set chain_holidays})
        \<and> (\<forall>e \<in> set (eligible_expiries C (day_of offset now) (os_exchange_holidays C @ chain_holidays) chain direction).
             sc_expiry sel \<le> e)
        \<and> inspected = inspected_legs C True override now (sc_expiry sel) chain direction
        \<and> best \<in> set inspected
        \<and> sel = selected_of direction (day_of offset now) (os_exchange_holidays C @ chain_holidays) best
        \<and> \<not> flt (os_max_bid_ask_spread_pct C) (li_spread_raw best)
        \<and> (\<forall>i \<in> set inspected. li_status i = ''ELIGIBLE'' \<longrightarrow> rank_a best \<le> rank_a i))"
proof -
  obtain now where at: "select_at C offset direction chain override True now = Inr (Some sel, inspected, reason)"
    and time: "selection_time as_of chain = Some now" by (rule select_contract_a[OF assms])
  obtain chain_holidays holidays e best where
    H: "parse_days (oc_holidays chain) = Inr chain_holidays" "holidays = os_exchange_holidays C @ chain_holidays"
    and E: "e \<in> set (eligible_expiries C (day_of offset now) holidays chain direction)"
      "\<forall>x \<in> set (eligible_expiries C (day_of offset now) holidays chain direction). e \<le> x"
    and I: "inspected = inspected_legs C True override now e chain direction"
    and B: "best \<in> set inspected" "li_status best = ''ELIGIBLE''" "\<forall>i \<in> set inspected. li_status i = ''ELIGIBLE'' \<longrightarrow> rank_a best \<le> rank_a i"
    and S: "sel = selected_of direction (day_of offset now) holidays best" "reason = None"
    by (rule select_at_best[OF at])
  obtain i where i: "best = judge_leg C True override e i" using B(1) I by (auto simp: inspected_legs_def)
  have ok: "li_expiry best = e" "0 < li_lot_size best" "\<not> fle (li_bid best) (Fin 0)" "\<not> flt (li_ask best) (li_bid best)"
    "delta_within (os_allowed_delta_min C) (os_allowed_delta_max C) best"
    "\<exists>age. li_freshness best = Some age \<and> \<not> flt age (Fin 0) \<and> \<not> flt (os_max_quote_age_seconds C) age"
    "\<not> flt (os_max_bid_ask_spread_pct C) (li_spread_raw best)"
    "os_minimum_volume C \<le> li_volume best" "os_min_open_interest C \<le> li_open_interest best"
    using status_a_eligible[of C e i] B(2) unfolding i judge_a delta_within_def by auto
  have el: "eligible_expiry C (day_of offset now) holidays e" using E(1) by (simp add: eligible_expiries_def)
  then obtain x where x: "from_iso (take 10 e) = Some x" by (auto simp: eligible_expiry_def split: if_splits option.splits)
  have "os_minimum_expiry_sessions_remaining C \<le> sc_sessions_remaining sel"
    using el ok(1) by (auto simp: S selected_of_def eligible_expiry_def split: if_splits option.splits)
  moreover have "\<exists>d. sc_delta sel = Some d \<and> fle (os_allowed_delta_min C) (fabs d) \<and> fle (fabs d) (os_allowed_delta_max C)"
    using ok(5) by (auto simp: S selected_of_def delta_within_def split: option.splits)
  moreover have "\<exists>now chain_holidays expiry best. selection_time as_of chain = Some now
        \<and> parse_days (oc_holidays chain) = Inr chain_holidays
        \<and> from_iso (take 10 (sc_expiry sel)) = Some expiry
        \<and> sc_sessions_remaining sel = int (card {d. day_of offset now < d \<and> d \<le> expiry \<and> weekday d < 5
             \<and> d \<notin> set (os_exchange_holidays C) \<and> d \<notin> set chain_holidays})
        \<and> (\<forall>e \<in> set (eligible_expiries C (day_of offset now) (os_exchange_holidays C @ chain_holidays) chain direction).
             sc_expiry sel \<le> e)
        \<and> inspected = inspected_legs C True override now (sc_expiry sel) chain direction
        \<and> best \<in> set inspected
        \<and> sel = selected_of direction (day_of offset now) (os_exchange_holidays C @ chain_holidays) best
        \<and> \<not> flt (os_max_bid_ask_spread_pct C) (li_spread_raw best)
        \<and> (\<forall>i \<in> set inspected. li_status i = ''ELIGIBLE'' \<longrightarrow> rank_a best \<le> rank_a i)"
  proof -
    have e: "sc_expiry sel = e" using ok(1) by (simp add: S selected_of_def)
    have n: "sc_sessions_remaining sel = int (card {d. day_of offset now < d \<and> d \<le> x \<and> weekday d < 5
        \<and> d \<notin> set (os_exchange_holidays C) \<and> d \<notin> set chain_holidays})"
      using ok(1) x by (simp add: S selected_of_def trading_sessions_card H(2))
    show ?thesis
      by (rule exI[of _ now], rule exI[of _ chain_holidays], rule exI[of _ x], rule exI[of _ best])
        (use e n time H x E(2) I B(1,3) S(1) ok(7) in blast)
  qed
  ultimately show ?thesis using ok by (simp add: S selected_of_def)
qed

text \<open>One call with a delta of 3/4, quoted at the selection time, ten days before its expiry.\<close>

definition sample_selection :: selection_config where
  "sample_selection = \<lparr>os_max_option_premium = Fin 200, os_min_option_premium = Fin 10, os_min_open_interest = 1000,
     os_max_bid_ask_spread_pct = Fin 3, os_preferred_delta_min = Fin (1 / 2), os_preferred_delta_max = Fin 1,
     os_allowed_delta_min = Fin (1 / 2), os_allowed_delta_max = Fin 1, os_minimum_expiry_sessions_remaining = 2,
     os_max_quote_age_seconds = Fin 30, os_minimum_volume = 0, os_exchange_holidays = []\<rparr>"

definition sample_leg :: option_leg where
  "sample_leg = empty_leg\<lparr>lg_delta := Some (Fin (3 / 4)), lg_bid := Some (Fin 100), lg_ask := Some (Fin 100),
     lg_quote_timestamp := Some (Aware (seconds (20472 * 86400))), lg_open_interest := Some 5000, lg_lot_size := Some 75,
     lg_instrument_id := Some ''OPT''\<rparr>"

definition sample_chain :: option_chain where
  "sample_chain = \<lparr>oc_timestamp = None, oc_expiry = Some ''2026-01-29'',
     oc_strikes = [\<lparr>sr_strike = Fin 23200, sr_call = Some sample_leg, sr_put = None, sr_expiry = None\<rparr>],
     oc_holidays = [], oc_capabilities = None\<rparr>"

definition sample_best :: leg_info where
  "sample_best = judge_leg sample_selection True None ''2026-01-29''
     (inspect_leg (seconds (20472 * 86400)) sample_chain BULLISH (hd (oc_strikes sample_chain)))"

lemma sample_selected:
  "select_contract sample_selection 0 0 BULLISH None sample_chain None (Some (Fin 23250)) (Some (Aware (seconds (20472 * 86400)))) True
    = Inr (Some (selected_of BULLISH 20472 [] sample_best), [sample_best], None)"
proof -
  have E: "eligible_expiries sample_selection 20472 [] sample_chain BULLISH = [''2026-01-29'']" by code_simp
  have c: "os_exchange_holidays sample_selection = []" "oc_holidays sample_chain = []" "oc_capabilities sample_chain = None"
    "oc_strikes sample_chain = [hd (oc_strikes sample_chain)]" "day_of 0 (seconds (20472 * 86400)) = 20472"
    by (simp_all add: sample_selection_def sample_chain_def day_of_def)
  have ne: "oc_strikes sample_chain \<noteq> []" by (simp add: sample_chain_def)
  have "li_status sample_best = ''ELIGIBLE''"
    by (simp add: sample_best_def judge_a status_a_def inspect_leg_def Let_def the_leg_def leg_of_def leg_expiry_def
        sample_chain_def sample_leg_def empty_leg_def sample_selection_def num_or_zero_def opt_or_def f_or_def ftrue_def
        text_or_def time_or_def has_id_def delta_within_def leg_delta_def int_or_zero_def total_seconds_def flit_def float_eval)
  moreover have "inspected_legs sample_selection True None (seconds (20472 * 86400)) ''2026-01-29'' sample_chain BULLISH = [sample_best]"
    unfolding inspected_legs_def by (subst c(4)) (simp add: sample_best_def)
  ultimately show ?thesis
    using c(1-3,5) E ne by (simp add: select_contract_def select_at_def Let_def verified_delta_missing_def rank_candidates_def)
qed

theorem selected_contract_admissible_witness:
  "\<exists>sel. select_contract sample_selection 0 0 BULLISH None sample_chain None (Some (Fin 23250)) (Some (Aware (seconds (20472 * 86400)))) True
      = Inr (Some sel, [sample_best], None)
    \<and> 2 \<le> sc_sessions_remaining sel \<and> (\<exists>d. sc_delta sel = Some d \<and> fle (Fin (1 / 2)) (fabs d) \<and> fle (fabs d) (Fin 1))"
  using sample_selected selected_contract_admissible[OF sample_selected] by (simp add: sample_selection_def)

section \<open>A spread of zero ranks last\<close>

text \<open>
  Of two eligible contracts that differ in their spread only, the one without any spread ranks behind,
  although the selector documents its ranking as preferring the smaller spread.
\<close>

lemma zero_spread_ranks_last:
  assumes "li_spread_pct i = Some (Fin 0)" "0 < a"
  shows "rank_a (i\<lparr>li_spread_pct := Some (Fin a)\<rparr>) < rank_a i"
  using assms by (simp add: rank_a_def spread_key_def opt_or_def f_or_def ftrue_def less_prod_def)

end
