(* ===== verification/LiveOrders.thy ===== *)
theory LiveOrders imports PositionManager Oms Calendar begin

text \<open>
  The exit orders of a LIVE option trade, \<^verbatim>\<open>services/strategy/service.py\<close>: the broker-held protective
  stop, its cancellation before any other sale, the partial exit at the first target, the final exit,
  and the accounts of a closed trade.  A method works on the trade object in memory, the table
  \<^verbatim>\<open>auto_trades\<close>, the OMS database and a log of the calls to other components (\<open>work\<close>); an exception
  is an \<open>Inl\<close> beside the work it leaves.  The fields of \<^verbatim>\<open>ActiveTrade\<close> the position manager reads are
  \<open>lt_core\<close>; those of the protective stop, of the option quote and of the closing costs are grouped in
  records of their own.
\<close>

section \<open>Reason codes\<close>

definition OPTION_EMERGENCY_STOP :: message where "OPTION_EMERGENCY_STOP = [Txt ''OPTION_EMERGENCY_STOP'']"

definition STOP_UNAVAILABLE :: message where "STOP_UNAVAILABLE = [Txt ''BROKER_PROTECTIVE_STOP_UNAVAILABLE'']"

text \<open>The text of a message up to its first number: no reason code contains a digit.\<close>

fun leading_text :: "message \<Rightarrow> string" where
  "leading_text (Txt s # m) = s @ leading_text m"
| "leading_text (Num x # m) = ''#''"
| "leading_text (Num2 x # m) = ''#''"
| "leading_text [] = []"

definition is_option_emergency_stop :: "message option \<Rightarrow> bool" where
  "is_option_emergency_stop reason =
     (takeWhile (\<lambda>c. c \<noteq> CHR '' '') (case reason of None \<Rightarrow> [] | Some m \<Rightarrow> leading_text m)
        \<in> {''OPTION_EMERGENCY_STOP'', ''OPTION_HARD_STOP_HIT''})"

text \<open>A reason is true in a condition when its text is not empty.\<close>

definition given :: "message option \<Rightarrow> bool" where
  "given r = (case r of None \<Rightarrow> False | Some m \<Rightarrow> m \<noteq> [] \<and> m \<noteq> [Txt []])"

definition or_reason :: "message option \<Rightarrow> message option \<Rightarrow> message option" where
  "or_reason a b = (if given a then a else b)"

section \<open>The trade\<close>

datatype auto_mode = AUTO_PAPER | AUTO_SHADOW | AUTO_LIVE | AUTO_DISABLED

record stop_watch =
  st_order_id :: "string option"
  st_status :: string
  st_trigger_price :: "pyfloat option"
  st_limit_price :: "pyfloat option"
  st_filled_quantity :: int
  st_filled_proceeds :: pyfloat
  st_cancel_for_exit :: bool
  st_failures :: int
  st_failure_reason :: "string option"
  st_failure_at :: "timestamp option"
  st_cancel_attempts :: int
  st_cancel_requested_at :: "timestamp option"

record option_quote =
  oq_timestamp :: "timestamp option"
  oq_source :: "string option"
  oq_freshness :: "pyfloat option"
  oq_bid :: "pyfloat option"
  oq_ask :: "pyfloat option"
  oq_ltp :: "pyfloat option"
  oq_volume :: "int option"
  oq_open_interest :: "int option"
  oq_status :: string
  oq_reason :: "string option"

record closing_costs =
  cc_raw_gross :: pyfloat
  cc_gross_pnl :: pyfloat
  cc_slippage_cost :: pyfloat
  cc_brokerage :: pyfloat
  cc_exchange_charges :: pyfloat
  cc_stt :: pyfloat
  cc_sebi_charges :: pyfloat
  cc_stamp_duty :: pyfloat
  cc_gst :: pyfloat
  cc_transaction_costs :: pyfloat
  cc_net_pnl :: pyfloat
  cc_return_on_premium_pct :: "pyfloat option"

record live_trade =
  lt_core :: active_trade
  lt_trade_id :: string
  lt_mode :: auto_mode
  lt_contract_instrument_id :: string
  lt_contract_symbol :: string
  lt_entry_order_id :: "string option"
  lt_exit_order_id :: "string option"
  lt_filled_quantity :: int
  lt_pending_exit_reason :: "message option"
  lt_exit_filled :: int
  lt_exit_proceeds :: pyfloat
  lt_exit_accounted :: int
  lt_exit_accounted_proceeds :: pyfloat
  lt_stop :: stop_watch
  lt_quote :: "option_quote option"
  lt_option_data_status :: string
  lt_quality_reasons :: "string list"
  lt_entry_bid :: "pyfloat option"
  lt_entry_ask :: "pyfloat option"
  lt_entry_ltp :: "pyfloat option"
  lt_entry_raw_ask :: "pyfloat option"
  lt_entry_executable_price :: "pyfloat option"
  lt_exit_time :: "timestamp option"
  lt_exit_option_price :: "pyfloat option"
  lt_exit_spot_price :: "pyfloat option"
  lt_exit_reason :: "message option"
  lt_costs :: "closing_costs option"
  lt_realized_r :: "pyfloat option"
  lt_runner_realized_r :: "pyfloat option"
  lt_underlying_exit_reason :: "message option"
  lt_underlying_exit_time :: "timestamp option"
  lt_underlying_exit_price :: "pyfloat option"
  lt_underlying_outcome_status :: "string option"
  lt_pending_underlying_exit_time :: "timestamp option"
  lt_option_exit_reason :: "message option"
  lt_option_exit_time :: "timestamp option"
  lt_partial_proceeds :: pyfloat
  lt_partial_order_id :: "string option"
  lt_partial_accounted :: int
  lt_partial_accounted_proceeds :: pyfloat
  lt_final_exit_quantity :: "int option"
  lt_execution_order_count :: int
  lt_selected_snapshot :: bool
  lt_signal_id :: "string option"
  lt_futures_contract_id :: "string option"
  lt_strategy_target_price :: "pyfloat option"

section \<open>The work of a call\<close>

record ledger_entry =
  le_ledger_id :: string
  le_trade_id :: string
  le_side :: order_side
  le_timestamp :: timestamp
  le_raw_bid :: "pyfloat option"
  le_raw_ask :: "pyfloat option"
  le_raw_ltp :: "pyfloat option"
  le_executable_price :: pyfloat
  le_slippage_points :: pyfloat
  le_quantity :: int
  le_source :: string
  le_reason :: "message option"

datatype desk_call =
  CancelOrder string trading_mode
| ModifyOrder string pyfloat trading_mode
| StrategyAExit trade_direction timestamp
| StrategyARejected timestamp string
| StrategyAConfirm timestamp
| StrategyBReset timestamp
| StrategyAReset timestamp
| StrategyEvaluated strategy_name
| SaveRuntime
| SaveConfig
| TradeClosed string
| TradeOpened string
| Lifecycle string "message option"
| Decision string string

record work =
  wk_trade :: live_trade
  wk_rows :: "live_trade list"
  wk_oms :: oms_db
  wk_armed :: bool
  wk_ledger :: "ledger_entry list"
  wk_cache :: "string list"
  wk_last_loss_exit :: "timestamp option"
  wk_calls :: "desk_call list"

datatype gateway_reply = Accepted | Refused string | Failed string

text \<open>
  The inputs of a call: the clock, the identifiers the OMS and the intents draw, the broker gateway
  (absent, or its answer to a cancellation), and the configuration.
\<close>

record desk =
  dk_now :: "nat \<Rightarrow> timestamp"
  dk_oms :: env
  dk_intent_id :: string
  dk_ledger_id :: string
  dk_gateway :: "(string \<Rightarrow> trading_mode \<Rightarrow> gateway_reply) option"
  dk_risk :: risk_limits
  dk_live_orders_enabled :: bool

type_synonym 'a act = "work \<times> (exn + 'a)"

definition andthen :: "'a act \<Rightarrow> ('a \<Rightarrow> work \<Rightarrow> 'b act) \<Rightarrow> 'b act" where
  "andthen m f = (case m of (w, Inl e) \<Rightarrow> (w, Inl e) | (w, Inr x) \<Rightarrow> f x w)"

definition upd :: "(live_trade \<Rightarrow> live_trade) \<Rightarrow> work \<Rightarrow> work" where
  "upd f w = w\<lparr>wk_trade := f (wk_trade w)\<rparr>"

definition upd_stop :: "(stop_watch \<Rightarrow> stop_watch) \<Rightarrow> work \<Rightarrow> work" where
  "upd_stop f = upd (\<lambda>t. t\<lparr>lt_stop := f (lt_stop t)\<rparr>)"

definition upd_core :: "(active_trade \<Rightarrow> active_trade) \<Rightarrow> work \<Rightarrow> work" where
  "upd_core f = upd (\<lambda>t. t\<lparr>lt_core := f (lt_core t)\<rparr>)"

definition call :: "desk_call \<Rightarrow> work \<Rightarrow> work" where
  "call c w = w\<lparr>wk_calls := wk_calls w @ [c]\<rparr>"

definition save_trade :: "work \<Rightarrow> work" where
  "save_trade w = w\<lparr>wk_rows := row_upsert lt_trade_id (\<lambda>old new. new) (wk_trade w) (wk_rows w)\<rparr>"

definition record_execution :: "ledger_entry \<Rightarrow> work \<Rightarrow> work" where
  "record_execution entry w = w\<lparr>wk_ledger := row_upsert le_ledger_id (\<lambda>old new. new) entry (wk_ledger w)\<rparr>"

fun order_state_value :: "order_state \<Rightarrow> string" where
  "order_state_value CREATED = ''CREATED''"
| "order_state_value VALIDATING = ''VALIDATING''"
| "order_state_value RISK_REJECTED = ''RISK_REJECTED''"
| "order_state_value APPROVED = ''APPROVED''"
| "order_state_value SUBMITTING = ''SUBMITTING''"
| "order_state_value SUBMISSION_UNKNOWN = ''SUBMISSION_UNKNOWN''"
| "order_state_value ACKNOWLEDGED = ''ACKNOWLEDGED''"
| "order_state_value OPEN = ''OPEN''"
| "order_state_value PARTIALLY_FILLED = ''PARTIALLY_FILLED''"
| "order_state_value FILLED = ''FILLED''"
| "order_state_value CANCELLED = ''CANCELLED''"
| "order_state_value REJECTED = ''REJECTED''"
| "order_state_value EXPIRED = ''EXPIRED''"
| "order_state_value FAILED_SAFE = ''FAILED_SAFE''"

definition dead :: "order_state \<Rightarrow> bool" where
  "dead s = (s \<in> {CANCELLED, REJECTED, RISK_REJECTED, EXPIRED, FAILED_SAFE})"

definition resting :: "order_state \<Rightarrow> bool" where
  "resting s = (s \<in> {OPEN, ACKNOWLEDGED, PARTIALLY_FILLED})"

abbreviation quantity_of :: "live_trade \<Rightarrow> int" where "quantity_of t \<equiv> tr_quantity (lt_core t)"

text \<open>The quantity of the long position no fill of a stop or of the final exit has closed.\<close>

definition open_quantity :: "live_trade \<Rightarrow> int" where
  "open_quantity t = max 0 (quantity_of t - lt_exit_filled t)"

section \<open>Prices\<close>

definition int_of_float :: "(rat \<Rightarrow> int) \<Rightarrow> pyfloat \<Rightarrow> exn + int" where
  "int_of_float conv x = (case x of Fin r \<Rightarrow> Inr (conv r)
     | NaN \<Rightarrow> Inl (ValueError ''cannot convert float NaN to integer'') | _ \<Rightarrow> Inl OverflowError)"

definition tick :: pyfloat where "tick = flit (1 / 20)"

definition option_tick_price :: "pyfloat \<Rightarrow> bool \<Rightarrow> exn + pyfloat" where
  "option_tick_price value down =
     (if fle value (Fin 0) then Inr tick
      else case int_of_float (if down then (\<lambda>r. \<lfloor>r\<rfloor>) else rhe) (quot value tick) of
        Inl e \<Rightarrow> Inl e
      | Inr steps \<Rightarrow> Inr (fround 2 (pmax tick (fmul (fint steps) tick))))"

definition protective_stop_prices :: "desk \<Rightarrow> live_trade \<Rightarrow> exn + (pyfloat \<times> pyfloat)" where
  "protective_stop_prices d t =
     (case option_tick_price (tr_hard_stop (lt_core t)) False of
        Inl e \<Rightarrow> Inl e
      | Inr trigger \<Rightarrow>
         (case option_tick_price (fmul trigger (fsub (Fin 1)
                 (quot (rk_protective_stop_limit_buffer_pct (dk_risk d)) (Fin 100)))) True of
            Inl e \<Rightarrow> Inl e
          | Inr limit_price \<Rightarrow>
              if fle trigger limit_price
              then (case option_tick_price (fsub trigger tick) True of Inl e \<Rightarrow> Inl e | Inr l \<Rightarrow> Inr (trigger, l))
              else Inr (trigger, limit_price)))"

section \<open>Closing a trade\<close>

text \<open>\<^verbatim>\<open>(quote or {}).get("bid")\<close>\<close>

definition quote_bid :: "option_quote option \<Rightarrow> pyfloat option" where
  "quote_bid q = (case q of None \<Rightarrow> None | Some v \<Rightarrow> oq_bid v)"

definition exit_underlying_price :: "market_features \<Rightarrow> live_trade \<Rightarrow> pyfloat" where
  "exit_underlying_price f t = opt_or (lt_underlying_exit_price t)
     (if flt (Fin 0) (mf_futures_price f) then mf_futures_price f
      else opt_or (tr_underlying_current_price (lt_core t)) (tr_current_spot_price (lt_core t)))"

text \<open>The prices and quantities of the three legs: entry, partial exit, final exit.\<close>

definition original_quantity :: "live_trade \<Rightarrow> int" where
  "original_quantity t = int_or (tr_initial_quantity (lt_core t)) (quantity_of t + tr_partial_filled (lt_core t))"

definition raw_entry_price :: "live_trade \<Rightarrow> pyfloat" where
  "raw_entry_price t = opt_or (lt_entry_raw_ask t) (tr_entry_option_price (lt_core t))"

definition partial_exit_price :: "live_trade \<Rightarrow> pyfloat" where
  "partial_exit_price t = opt_or (tr_partial_price (lt_core t)) (Fin 0)"

definition order_count :: "live_trade \<Rightarrow> int" where
  "order_count t = 1 + (if tr_partial_filled (lt_core t) > 0 then 1 else 0) + (if max 0 (quantity_of t) > 0 then 1 else 0)"

definition closing_accounts :: "risk_limits \<Rightarrow> pyfloat \<Rightarrow> option_quote option \<Rightarrow> live_trade \<Rightarrow> closing_costs" where
  "closing_accounts r price q t =
     (let c = lt_core t; entry = tr_entry_option_price c;
          raw_entry = raw_entry_price t; raw_exit = opt_or (quote_bid q) price;
          pq = tr_partial_filled c; pp = partial_exit_price t; pr = opt_or (tr_partial_raw_bid c) pp;
          oq = original_quantity t; fq = max 0 (quantity_of t);
          gross = fround 2 (fadd (fmul (fsub price entry) (fint fq)) (fmul (fsub pp entry) (fint pq)));
          entry_slip = fmul (fabs (fsub (opt_or (lt_entry_executable_price t) entry) raw_entry)) (fint oq);
          partial_slip = (case tr_partial_raw_bid c of
              Some b \<Rightarrow> if pq \<noteq> 0 \<and> ftrue b then fmul (fabs (fsub pp b)) (fint pq) else Fin 0 | None \<Rightarrow> Fin 0);
          final_slip = fmul (fabs (fsub raw_exit price)) (fint fq);
          turnover = fadd (fadd (fmul entry (fint oq)) (fmul pp (fint pq))) (fmul price (fint fq));
          buy_turnover = fmul entry (fint oq);
          sell_turnover = fadd (fmul price (fint (quantity_of t))) (fmul pp (fint pq));
          brokerage = fround 2 (fmul (fint (order_count t)) (rk_paper_brokerage_per_order r));
          exchange = fround 2 (fmul turnover (rk_paper_exchange_charge_rate r));
          stt = fround 2 (fmul sell_turnover (rk_paper_stt_sell_rate r));
          sebi = fround 2 (fmul turnover (rk_paper_sebi_charge_rate r));
          stamp = fround 2 (fmul buy_turnover (rk_paper_stamp_buy_rate r));
          gst = fround 2 (fmul (fadd (fadd brokerage exchange) sebi) (rk_paper_gst_rate r));
          costs = fround 2 (fadd (fadd (fadd (fadd (fadd brokerage exchange) stt) gst) sebi) stamp);
          net = fround 2 (fsub gross costs)
      in \<lparr>cc_raw_gross = fround 2 (fadd (fmul (fsub raw_exit raw_entry) (fint fq)) (fmul (fsub pr raw_entry) (fint pq))),
          cc_gross_pnl = gross, cc_slippage_cost = fround 2 (fadd (fadd entry_slip partial_slip) final_slip),
          cc_brokerage = brokerage, cc_exchange_charges = exchange, cc_stt = stt, cc_sebi_charges = sebi,
          cc_stamp_duty = stamp, cc_gst = gst, cc_transaction_costs = costs, cc_net_pnl = net,
          cc_return_on_premium_pct =
            (if ftrue buy_turnover then Some (fround 4 (fmul (quot net buy_turnover) (Fin 100))) else None)\<rparr>)"

text \<open>The R multiples of the legs.  An emergency stop has no underlying outcome.\<close>

definition closing_r :: "bool \<Rightarrow> pyfloat \<Rightarrow> live_trade \<Rightarrow> live_trade" where
  "closing_r emergency exit_underlying t =
     (let c = lt_core t; entry = opt_or (tr_underlying_entry_price c) (tr_entry_spot_price c);
          risk = opt_or (tr_underlying_r c) (tr_initial_r_points c);
          pq = tr_partial_filled c; fq = max 0 (quantity_of t); decision = opt_or (tr_t1_decision_price c) (Fin 0);
          partial_leg = (pq \<noteq> 0 \<and> ftrue decision);
          final_leg = (fq \<noteq> 0 \<and> ftrue exit_underlying \<and> \<not> emergency);
          exits = (if partial_leg then [(pq, decision)] else []) @ (if final_leg then [(fq, exit_underlying)] else [])
      in t\<lparr>lt_core := (if partial_leg
             then c\<lparr>tr_t1_realized_r := Some (underlying_r_for_price (tr_direction c) entry risk decision)\<rparr> else c),
           lt_runner_realized_r := (if final_leg
             then Some (underlying_r_for_price (tr_direction c) entry risk exit_underlying) else lt_runner_realized_r t),
           lt_realized_r := (if emergency then None
             else Some (calculate_realized_trade_r (tr_direction c) entry risk (original_quantity t) exits))\<rparr>)"

definition closed_trade ::
  "risk_limits \<Rightarrow> timestamp \<Rightarrow> market_features \<Rightarrow> pyfloat \<Rightarrow> message option \<Rightarrow> option_quote option \<Rightarrow> live_trade \<Rightarrow> live_trade" where
  "closed_trade r now f price reason0 q t =
     (let emergency = is_option_emergency_stop reason0;
          reason = (if emergency then Some OPTION_EMERGENCY_STOP else reason0);
          underlying = exit_underlying_price f t;
          t1 = t\<lparr>lt_core := (lt_core t)\<lparr>tr_state := CLOSED\<rparr>, lt_exit_time := Some now, lt_exit_option_price := Some price,
             lt_exit_spot_price := (if emergency then None else Some underlying),
             lt_underlying_exit_price := (if emergency then None else Some underlying),
             lt_exit_reason := reason, lt_option_exit_time := Some now, lt_option_exit_reason := reason,
             lt_underlying_exit_reason := (if emergency then Some [Txt ''OPTION_HARD_STOP_PREEMPTED_UNDERLYING'']
                else or_reason (lt_underlying_exit_reason t) reason),
             lt_underlying_exit_time := (if emergency then None
                else case lt_underlying_exit_time t of None \<Rightarrow> Some now | Some x \<Rightarrow> Some x),
             lt_underlying_outcome_status := (if emergency then Some ''PREEMPTED_BY_OPTION_EMERGENCY_STOP''
                else lt_underlying_outcome_status t),
             lt_final_exit_quantity := Some (max 0 (quantity_of t)), lt_execution_order_count := order_count t,
             lt_costs := Some (closing_accounts r price q t)\<rparr>
      in closing_r emergency underlying t1)"

text \<open>\<open>i\<close> is the index of the clock reading.\<close>

definition close_trade ::
  "desk \<Rightarrow> nat \<Rightarrow> market_features \<Rightarrow> pyfloat \<Rightarrow> message option \<Rightarrow> option_quote option \<Rightarrow> work \<Rightarrow> work" where
  "close_trade d i f price reason0 q w =
     (let t = closed_trade (dk_risk d) (dk_now d i) f price reason0 q (wk_trade w); c = lt_core t;
          reason = lt_exit_reason t;
          w1 = w\<lparr>wk_trade := t,
             wk_last_loss_exit := (case lt_costs t of
                 Some cc \<Rightarrow> if flt (cc_gross_pnl cc) (Fin 0) then lt_exit_time t else wk_last_loss_exit w
               | None \<Rightarrow> wk_last_loss_exit w),
             wk_calls := wk_calls w
               @ (if tr_strategy c = TREND_PULLBACK then [StrategyAExit (tr_direction c) (dk_now d i)] else [])
               @ (if tr_strategy c = VOLATILITY_BREAKOUT then [StrategyBReset (dk_now d i)] else [])
               @ [SaveRuntime],
             wk_cache := filter (\<lambda>tid. tid \<noteq> lt_trade_id t) (wk_cache w)\<rparr>;
          w2 = save_trade w1;
          w3 = (if tr_strategy c = TREND_PULLBACK then call (Lifecycle ''CLOSED'' reason) w2 else w2);
          w4 = (if lt_mode t = AUTO_LIVE then w3
                else record_execution \<lparr>le_ledger_id = dk_ledger_id d, le_trade_id = lt_trade_id t, le_side = SELL,
                  le_timestamp = dk_now d i, le_raw_bid = quote_bid q,
                  le_raw_ask = (case q of None \<Rightarrow> None | Some v \<Rightarrow> oq_ask v),
                  le_raw_ltp = (case q of None \<Rightarrow> None | Some v \<Rightarrow> oq_ltp v),
                  le_executable_price = price, le_slippage_points = rk_paper_slippage_points (dk_risk d),
                  le_quantity = max 0 (quantity_of t),
                  le_source = (case q of None \<Rightarrow> ''UNKNOWN''
                     | Some v \<Rightarrow> case oq_source v of None \<Rightarrow> ''UNKNOWN'' | Some s \<Rightarrow> s),
                  le_reason = reason\<rparr> w3)
      in call (TradeClosed (lt_trade_id t)) (call (Decision ''EXIT'' ''Position closed'') w4))"

section \<open>The protective stop\<close>

definition record_protective_stop_failure :: "desk \<Rightarrow> nat \<Rightarrow> string \<Rightarrow> bool \<Rightarrow> work \<Rightarrow> bool \<times> work" where
  "record_protective_stop_failure d i reason state_unknown w =
     (let w1 = upd (\<lambda>t. t\<lparr>lt_option_data_status := ''PROTECTIVE_STOP_DEGRADED''\<rparr>)
            (upd_stop (\<lambda>s. s\<lparr>st_failures := st_failures s + 1, st_failure_reason := Some reason,
               st_failure_at := Some (dk_now d i)\<rparr>) w);
          exhausted = (state_unknown
            \<or> st_failures (lt_stop (wk_trade w1)) \<ge> rk_protective_stop_max_failures (dk_risk d));
          w2 = (if \<not> exhausted then w1 else
            (let w3 = upd_stop (\<lambda>s. s\<lparr>st_status :=
                    (if state_unknown then ''STATE_UNKNOWN_BLOCKED'' else ''UNAVAILABLE_EXIT_REQUIRED'')\<rparr>) w1;
                 w4 = (if state_unknown then w3 else upd (\<lambda>t. t\<lparr>lt_pending_exit_reason := Some STOP_UNAVAILABLE,
                    lt_option_exit_reason := Some STOP_UNAVAILABLE\<rparr>) w3);
                 w5 = (if wk_armed w4 then call SaveConfig (w4\<lparr>wk_armed := False\<rparr>) else w4)
             in call (Decision ''SECURITY'' ''Broker protective stop safety escalation'') w5))
      in (exhausted, save_trade w2))"

text \<open>The fills a protective order reports, booked once.\<close>

definition account_stop_fill :: "broker_order \<Rightarrow> work \<Rightarrow> work" where
  "account_stop_fill p w =
     (let t = wk_trade w; st = lt_stop t; new_filled = bo_filled_quantity p; accounted = st_filled_quantity st in
      if new_filled < accounted then w else
      (let average = f_or (bo_average_price p) (opt_or (st_limit_price st) (tr_hard_stop (lt_core t)));
           new_proceeds = fmul average (fint new_filled);
           delta_filled = new_filled - accounted; delta_proceeds = fsub new_proceeds (st_filled_proceeds st) in
       if delta_filled = 0 \<and> \<not> flt (flit (1 / 1000000000)) (fabs delta_proceeds) then w else
       (let w1 = upd_stop (\<lambda>s. s\<lparr>st_filled_quantity := new_filled, st_filled_proceeds := new_proceeds\<rparr>)
              (upd (\<lambda>t. t\<lparr>lt_exit_filled := min (quantity_of t) (lt_exit_filled t + delta_filled),
                 lt_exit_proceeds := fadd (lt_exit_proceeds t) delta_proceeds\<rparr>) w)
        in if delta_filled \<le> 0 then w1 else
           record_execution \<lparr>le_ledger_id = ''LIVE-PROTECTIVE-'' @ bo_order_id p @ ''-'' @ show_int new_filled,
             le_trade_id = lt_trade_id t, le_side = SELL, le_timestamp = bo_updated_at p,
             le_raw_bid = None, le_raw_ask = None, le_raw_ltp = None,
             le_executable_price = (if flt (Fin 0) delta_proceeds then quot delta_proceeds (fint delta_filled) else average),
             le_slippage_points = Fin 0, le_quantity = delta_filled, le_source = ''BROKER_PROTECTIVE_STOP'',
             le_reason = Some OPTION_EMERGENCY_STOP\<rparr> w1)))"

definition protective_quote :: "pyfloat option \<Rightarrow> option_quote" where
  "protective_quote bid = \<lparr>oq_timestamp = None, oq_source = Some ''BROKER_PROTECTIVE_STOP'', oq_freshness = None,
     oq_bid = bid, oq_ask = None, oq_ltp = None, oq_volume = None, oq_open_interest = None, oq_status = [],
     oq_reason = None\<rparr>"

definition forget_stop :: "stop_watch \<Rightarrow> stop_watch" where
  "forget_stop s = s\<lparr>st_order_id := None, st_filled_quantity := 0, st_filled_proceeds := Fin 0,
     st_cancel_for_exit := False, st_cancel_attempts := 0, st_cancel_requested_at := None\<rparr>"

definition protective_intent :: "desk \<Rightarrow> pyfloat \<Rightarrow> pyfloat \<Rightarrow> int \<Rightarrow> live_trade \<Rightarrow> order_intent" where
  "protective_intent d trigger limit_price quantity t =
     \<lparr>oi_intent_id = dk_intent_id d, oi_correlation_id = lt_trade_id t,
      oi_strategy_instance_id = Some ''INST-NIFTY-AUTO-ENGINE-PROTECTIVE'', oi_source = STRATEGY,
      oi_instrument_id = lt_contract_instrument_id t, oi_symbol = lt_contract_symbol t, oi_side = SELL,
      oi_order_type = STOP_LIMIT, oi_quantity = quantity, oi_price = limit_price, oi_trigger_price = Some trigger,
      oi_product = OPTIONS, oi_time_in_force = DAY, oi_trading_mode = LIVE, oi_reduce_only = True,
      oi_created_at = clock (dk_oms d) 9\<rparr>"

text \<open>\<^verbatim>\<open>await self.oms.create_order_intent(intent)\<close>\<close>

definition oms_create :: "desk \<Rightarrow> order_intent \<Rightarrow> work \<Rightarrow> broker_order act" where
  "oms_create d intent w =
     (case create_order_intent (dk_oms d) intent (wk_oms w) of
        (Some ord, oc) \<Rightarrow> (w\<lparr>wk_oms := oc_state oc\<rparr>, Inr ord)
      | (None, oc) \<Rightarrow> (w\<lparr>wk_oms := oc_state oc\<rparr>,
          Inl (case oc_raised oc of Some e \<Rightarrow> e | None \<Rightarrow> RuntimeError ''create_order_intent'')))"

text \<open>The last part of \<^verbatim>\<open>_sync_live_protective_stop\<close>: submit the stop for the open quantity.\<close>

definition place_protective_stop :: "desk \<Rightarrow> int \<Rightarrow> work \<Rightarrow> bool act" where
  "place_protective_stop d remaining w =
     (let t = wk_trade w in
      if given (lt_pending_exit_reason t) \<or> lt_exit_order_id t \<noteq> None \<or> lt_partial_order_id t \<noteq> None
      then (w, Inr True) else
      case protective_stop_prices d t of
        Inl e \<Rightarrow> (w, Inl e)
      | Inr (trigger, limit_price) \<Rightarrow>
          andthen (oms_create d (protective_intent d trigger limit_price remaining t) w) (\<lambda>ord w1.
            (call (Decision ''RISK'' ''Broker-held option catastrophe stop submitted'')
               (save_trade (upd_stop (\<lambda>s. (forget_stop s)\<lparr>st_order_id := Some (bo_order_id ord),
                  st_status := order_state_value (bo_status ord), st_trigger_price := Some trigger,
                  st_limit_price := Some limit_price\<rparr>) w1)), Inr False)))"

definition stop_ended :: "desk \<Rightarrow> order_state \<Rightarrow> work \<Rightarrow> bool act" where
  "stop_ended d status w =
     (let for_exit = (st_cancel_for_exit (lt_stop (wk_trade w)) \<and> status = CANCELLED); w1 = upd_stop forget_stop w in
      if for_exit then (save_trade w1, Inr True)
      else (case record_protective_stop_failure d 0 (''PROTECTIVE_STOP_'' @ order_state_value status) False w1 of
         (exhausted, w2) \<Rightarrow> if exhausted then (w2, Inr True)
           else place_protective_stop d (open_quantity (wk_trade w2)) w2))"

definition stop_working :: "order_state \<Rightarrow> work \<Rightarrow> bool act" where
  "stop_working status w =
     (let w1 = (if resting status
            then upd_stop (\<lambda>s. s\<lparr>st_failures := 0, st_failure_reason := None, st_failure_at := None\<rparr>) w else w)
      in (save_trade w1, Inr (\<not> st_cancel_for_exit (lt_stop (wk_trade w1)) \<and> resting status)))"

definition stop_filled :: "desk \<Rightarrow> market_features \<Rightarrow> broker_order \<Rightarrow> work \<Rightarrow> bool act" where
  "stop_filled d f p w =
     (let w1 = upd_stop (\<lambda>s. s\<lparr>st_status := ''FILLED''\<rparr>) w; t = wk_trade w1;
          average_exit = (if quantity_of t > 0 then quot (lt_exit_proceeds t) (fint (quantity_of t))
            else f_or (bo_average_price p) (Fin 0))
      in (close_trade d 2 f average_exit (Some OPTION_EMERGENCY_STOP)
            (Some (protective_quote (Some (f_or (bo_average_price p) average_exit)))) w1, Inr False))"

definition sync_live_protective_stop :: "desk \<Rightarrow> market_features \<Rightarrow> work \<Rightarrow> bool act" where
  "sync_live_protective_stop d f w =
     (let t = wk_trade w in
      if lt_mode t \<noteq> AUTO_LIVE \<or> lt_filled_quantity t \<le> 0 then (w, Inr True)
      else if tr_state (lt_core t) = CLOSED then (w, Inr False)
      else if open_quantity t \<le> 0 then
        (if flt (Fin 0) (lt_exit_proceeds t) \<and> quantity_of t > 0
         then close_trade d 2 f (quot (lt_exit_proceeds t) (fint (quantity_of t))) (Some OPTION_EMERGENCY_STOP)
           (Some (protective_quote None)) w
         else w, Inr False)
      else case st_order_id (lt_stop t) of
        None \<Rightarrow> place_protective_stop d (open_quantity t) w
      | Some oid \<Rightarrow>
          (case get_order_by_id oid (wk_oms w) of
             None \<Rightarrow> (snd (record_protective_stop_failure d 0 ''OMS_PROTECTIVE_ORDER_MISSING'' True w), Inr False)
           | Some p \<Rightarrow>
               (let status = bo_status p;
                    w1 = account_stop_fill p (upd_stop (\<lambda>s. s\<lparr>st_status := order_state_value status\<rparr>) w);
                    t1 = wk_trade w1 in
                if status = FILLED \<or> lt_exit_filled t1 \<ge> quantity_of t1 then stop_filled d f p w1
                else if dead status then stop_ended d status w1
                else stop_working status w1)))"

section \<open>Cancelling the stop before another sale\<close>

definition cancel_reply :: "desk \<Rightarrow> gateway_reply \<Rightarrow> stop_watch \<Rightarrow> stop_watch" where
  "cancel_reply d reply s =
     (case reply of
        Accepted \<Rightarrow> s\<lparr>st_status := ''CANCEL_REQUESTED''\<rparr>
      | Refused why \<Rightarrow> s\<lparr>st_status := ''CANCEL_FAILED:'' @ why, st_failure_reason := Some (''CANCEL_FAILED:'' @ why),
          st_failure_at := Some (dk_now d 5)\<rparr>
      | Failed exn_name \<Rightarrow> s\<lparr>st_status := ''CANCEL_ERROR:'' @ exn_name,
          st_failure_reason := Some (''CANCEL_ERROR:'' @ exn_name), st_failure_at := Some (dk_now d 5)\<rparr>)"

definition request_stop_cancel :: "desk \<Rightarrow> string \<Rightarrow> work \<Rightarrow> bool act" where
  "request_stop_cancel d oid w =
     (case get_order_by_id oid (wk_oms w) of
        None \<Rightarrow> (snd (record_protective_stop_failure d 6 ''OMS_PROTECTIVE_ORDER_MISSING_DURING_CANCEL'' True w), Inr False)
      | Some p \<Rightarrow>
          if bo_status p = FILLED then (w, Inr False)
          else (case str_or (bo_broker_order_id p) None of
             None \<Rightarrow> (save_trade (upd_stop (\<lambda>s. s\<lparr>st_status := ''CANCEL_WAITING_FOR_BROKER_REFERENCE''\<rparr>) w), Inr False)
           | Some broker_id \<Rightarrow>
               (case dk_gateway d of
                  None \<Rightarrow> (snd (record_protective_stop_failure d 6 ''PROTECTIVE_STOP_CANCEL_NO_GATEWAY'' True w), Inr False)
                | Some gateway \<Rightarrow>
                    (let w1 = call (CancelOrder broker_id (bo_trading_mode p))
                           (upd_stop (\<lambda>s. s\<lparr>st_cancel_attempts := st_cancel_attempts s + 1,
                              st_cancel_requested_at := Some (dk_now d 4), st_cancel_for_exit := True\<rparr>) w);
                         w2 = upd_stop (cancel_reply d (gateway broker_id (bo_trading_mode p))) w1;
                         s = lt_stop (wk_trade w2)
                     in if st_cancel_attempts s \<ge> rk_protective_stop_cancel_max_attempts (dk_risk d)
                          \<and> st_status s \<noteq> ''CANCEL_REQUESTED''
                        then (snd (record_protective_stop_failure d 6 ''PROTECTIVE_STOP_CANCEL_RETRIES_EXHAUSTED'' True w2), Inr False)
                        else (save_trade w2, Inr False)))))"

text \<open>\<^verbatim>\<open>max(0.0, (utc_now() - requested_at).total_seconds())\<close>, infinite with no request.\<close>

definition cancel_age :: "timestamp \<Rightarrow> timestamp option \<Rightarrow> pyfloat" where
  "cancel_age now requested = (case requested of None \<Rightarrow> PInf | Some t \<Rightarrow> pmax (Fin 0) (total_seconds (now - t)))"

definition cancel_live_protective_stop_for_exit :: "desk \<Rightarrow> market_features \<Rightarrow> work \<Rightarrow> bool act" where
  "cancel_live_protective_stop_for_exit d f w =
     (if lt_mode (wk_trade w) \<noteq> AUTO_LIVE \<or> st_order_id (lt_stop (wk_trade w)) = None then (w, Inr True)
      else andthen (sync_live_protective_stop d f w) (\<lambda>may_continue w1.
        (let t = wk_trade w1; s = lt_stop t in
         if tr_state (lt_core t) = CLOSED then (w1, Inr False)
         else (case st_order_id s of
            None \<Rightarrow> (w1, Inr may_continue)
          | Some oid \<Rightarrow>
              if \<not> st_cancel_for_exit s then request_stop_cancel d oid w1
              else if flt (cancel_age (dk_now d 3) (st_cancel_requested_at s))
                          (rk_protective_stop_cancel_timeout_sec (dk_risk d)) then (w1, Inr False)
              else if st_cancel_attempts s \<ge> rk_protective_stop_cancel_max_attempts (dk_risk d)
              then (snd (record_protective_stop_failure d 6 ''PROTECTIVE_STOP_CANCEL_UNRESOLVED'' True w1), Inr False)
              else request_stop_cancel d oid (upd_stop (\<lambda>s. s\<lparr>st_cancel_for_exit := False\<rparr>) w1)))))"

section \<open>Progress of the exit orders\<close>

definition capped_fill :: "broker_order \<Rightarrow> int" where
  "capped_fill ord = max 0 (min (bo_filled_quantity ord) (bo_quantity ord))"

definition material :: "int \<Rightarrow> pyfloat \<Rightarrow> bool" where
  "material delta_filled delta_proceeds = (delta_filled \<noteq> 0 \<or> flt (flit (1 / 1000000000)) (fabs delta_proceeds))"

text \<open>The new fills, their price, and the cumulative fill of the order.\<close>

definition apply_exit_order_progress :: "broker_order \<Rightarrow> live_trade \<Rightarrow> live_trade \<times> (int \<times> pyfloat \<times> int)" where
  "apply_exit_order_progress ord t =
     (let new_filled = capped_fill ord; accounted = lt_exit_accounted t in
      if new_filled < accounted then (t, (0, Fin 0, new_filled)) else
      (let average = f_or (bo_average_price ord) (Fin 0); new_proceeds = fmul average (fint new_filled);
           delta_filled = new_filled - accounted; delta_proceeds = fsub new_proceeds (lt_exit_accounted_proceeds t) in
       if \<not> material delta_filled delta_proceeds then (t, (delta_filled, Fin 0, new_filled)) else
       (t\<lparr>lt_exit_filled := min (quantity_of t) (lt_exit_filled t + delta_filled),
          lt_exit_proceeds := fadd (lt_exit_proceeds t) delta_proceeds,
          lt_exit_accounted := new_filled, lt_exit_accounted_proceeds := new_proceeds\<rparr>,
        (delta_filled,
         (if delta_filled > 0
          then (if flt (Fin 0) delta_proceeds then quot delta_proceeds (fint delta_filled) else average) else Fin 0),
         new_filled))))"

definition reset_exit_order_progress :: "live_trade \<Rightarrow> live_trade" where
  "reset_exit_order_progress t = t\<lparr>lt_exit_accounted := 0, lt_exit_accounted_proceeds := Fin 0\<rparr>"

definition apply_live_t1_order_progress :: "broker_order \<Rightarrow> live_trade \<Rightarrow> live_trade \<times> (int \<times> pyfloat \<times> int)" where
  "apply_live_t1_order_progress ord t =
     (let new_filled = capped_fill ord; accounted = lt_partial_accounted t in
      if new_filled < accounted then (t, (0, Fin 0, new_filled)) else
      (let average = f_or (bo_average_price ord) (Fin 0); new_proceeds = fmul average (fint new_filled);
           delta_filled = new_filled - accounted; delta_proceeds = fsub new_proceeds (lt_partial_accounted_proceeds t);
           price = (if delta_filled > 0 \<and> flt (Fin 0) delta_proceeds then quot delta_proceeds (fint delta_filled)
             else if delta_filled > 0 then average else Fin 0) in
       if \<not> material delta_filled delta_proceeds then (t, (delta_filled, price, new_filled)) else
       (let c = lt_core t; original = original_quantity t;
            filled = min (tr_t1_exit_quantity c) (tr_partial_filled c + delta_filled);
            proceeds = fadd (lt_partial_proceeds t) delta_proceeds; remaining = max 0 (original - filled);
            c' = c\<lparr>tr_partial_filled := filled,
              tr_partial_price := (if filled > 0 \<and> flt (Fin 0) proceeds then Some (quot proceeds (fint filled))
                else tr_partial_price c),
              tr_partial_time := Some (bo_updated_at ord), tr_partial_reason := Some ''T1_REACHED_PARTIAL_EXIT'',
              tr_remaining_quantity := Some remaining, tr_quantity := remaining,
              tr_lots := (if tr_lot_size c > 0 then remaining div tr_lot_size c else 0),
              tr_t1_exit_pending := filled < tr_t1_exit_quantity c,
              tr_t1_realized_r := (if filled > 0 then tr_t1_decision_r c else tr_t1_realized_r c)\<rparr>
        in (t\<lparr>lt_core := c', lt_partial_proceeds := proceeds, lt_partial_accounted := new_filled,
              lt_partial_accounted_proceeds := new_proceeds\<rparr>, (delta_filled, price, new_filled)))))"

definition reset_live_t1_order_progress :: "live_trade \<Rightarrow> live_trade" where
  "reset_live_t1_order_progress t = t\<lparr>lt_partial_accounted := 0, lt_partial_accounted_proceeds := Fin 0\<rparr>"

text \<open>The ledger entry of a fill the broker reports for an exit order.\<close>

definition broker_fill_entry ::
  "string \<Rightarrow> broker_order \<Rightarrow> int \<times> pyfloat \<times> int \<Rightarrow> pyfloat option \<Rightarrow> message option \<Rightarrow> live_trade \<Rightarrow> ledger_entry" where
  "broker_fill_entry label ord p raw_bid reason t =
     (case p of (delta_filled, price, cumulative) \<Rightarrow>
       \<lparr>le_ledger_id = label @ bo_order_id ord @ ''-'' @ show_int cumulative, le_trade_id = lt_trade_id t, le_side = SELL,
        le_timestamp = bo_updated_at ord, le_raw_bid = raw_bid, le_raw_ask = None, le_raw_ltp = None,
        le_executable_price = f_or price (f_or (bo_average_price ord) (f_or (bo_price ord) (Fin 0))),
        le_slippage_points = Fin 0, le_quantity = delta_filled, le_source = ''BROKER_FILL'', le_reason = reason\<rparr>)"

section \<open>The partial exit at the first target\<close>

definition t1_ended :: "broker_order \<Rightarrow> int \<Rightarrow> bool \<Rightarrow> work \<Rightarrow> work" where
  "t1_ended ord delta_filled was_complete w =
     (let w1 = upd (\<lambda>t. reset_live_t1_order_progress (t\<lparr>lt_partial_order_id := None\<rparr>)) w;
          c = lt_core (wk_trade w1); complete = (tr_partial_filled c \<ge> tr_t1_exit_quantity c);
          w2 = upd (\<lambda>t. t\<lparr>lt_core := (lt_core t)\<lparr>tr_t1_exit_pending := \<not> complete\<rparr>,
             lt_option_data_status := (if complete then ''LIVE_T1_EXIT_FILLED''
               else if delta_filled > 0 then ''LIVE_T1_EXIT_PARTIAL''
               else ''LIVE_T1_EXIT_'' @ order_state_value (bo_status ord))\<rparr>) w1
      in save_trade (if complete \<and> \<not> was_complete \<and> tr_strategy c = TREND_PULLBACK
           then call (Lifecycle ''PARTIAL_EXIT'' (Some [Txt ''T1_REACHED_PARTIAL_EXIT''])) w2 else w2))"

definition sync_live_t1_partial_exit :: "desk \<Rightarrow> market_features \<Rightarrow> work \<Rightarrow> bool act" where
  "sync_live_t1_partial_exit d f w =
     (case lt_partial_order_id (wk_trade w) of
        None \<Rightarrow> (w, Inr True)
      | Some oid \<Rightarrow>
          (case get_order_by_id oid (wk_oms w) of
             None \<Rightarrow> (save_trade (upd (\<lambda>t. t\<lparr>lt_option_data_status := ''LIVE_T1_ORDER_STATE_UNKNOWN''\<rparr>) w), Inr False)
           | Some ord \<Rightarrow>
               (let c = lt_core (wk_trade w); was_complete = (tr_partial_filled c \<ge> tr_t1_exit_quantity c) in
                case apply_live_t1_order_progress ord (wk_trade w) of (t1, p) \<Rightarrow>
                (let w1 = upd (\<lambda>_. t1) w;
                     w2 = (if fst p > 0 then record_execution (broker_fill_entry ''LIVE-T1-'' ord p
                            (tr_partial_raw_bid (lt_core t1)) (Some [Txt ''T1_REACHED_PARTIAL_EXIT'']) t1) w1 else w1)
                 in if \<not> (dead (bo_status ord) \<or> bo_status ord = FILLED) then (save_trade w2, Inr False)
                    else (let w3 = t1_ended ord (fst p) was_complete w2
                      in if quantity_of (wk_trade w3) > 0 then sync_live_protective_stop d f w3
                         else (w3, Inr True))))))"

text \<open>A reduce-only sale of the option.\<close>

definition exit_intent :: "desk \<Rightarrow> string \<Rightarrow> time_in_force \<Rightarrow> int \<Rightarrow> pyfloat \<Rightarrow> live_trade \<Rightarrow> order_intent" where
  "exit_intent d instance_id tif quantity price t =
     \<lparr>oi_intent_id = dk_intent_id d, oi_correlation_id = lt_trade_id t, oi_strategy_instance_id = Some instance_id,
      oi_source = STRATEGY, oi_instrument_id = lt_contract_instrument_id t, oi_symbol = lt_contract_symbol t,
      oi_side = SELL, oi_order_type = LIMIT, oi_quantity = quantity, oi_price = price, oi_trigger_price = None,
      oi_product = OPTIONS, oi_time_in_force = tif, oi_trading_mode = LIVE, oi_reduce_only = True,
      oi_created_at = clock (dk_oms d) 9\<rparr>"

definition t1_pending :: "bool \<Rightarrow> live_trade \<Rightarrow> live_trade" where
  "t1_pending p t = t\<lparr>lt_core := (lt_core t)\<lparr>tr_t1_exit_pending := p\<rparr>\<rparr>"

definition submit_live_t1_partial_exit :: "desk \<Rightarrow> market_features \<Rightarrow> option_quote \<Rightarrow> work \<Rightarrow> unit act" where
  "submit_live_t1_partial_exit d f q w =
     (let t = wk_trade w; c = lt_core t;
          outstanding = max 0 (tr_t1_exit_quantity c - tr_partial_filled c);
          quantity = min outstanding (max 0 (quantity_of t)) in
      if lt_partial_order_id t \<noteq> None then (w, Inr ())
      else if quantity \<le> 0 then (save_trade (upd (t1_pending False) w), Inr ())
      else andthen (cancel_live_protective_stop_for_exit d f w) (\<lambda>cleared w1.
        if \<not> cleared then (save_trade (upd (t1_pending True) w1), Inr ())
        else
          (let raw_bid = opt_or (oq_bid q) (Fin 0) in
           if fle raw_bid (Fin 0)
           then (save_trade (upd (\<lambda>t. (t1_pending True t)\<lparr>lt_option_data_status := ''LIVE_T1_EXIT_WAITING_FOR_BID''\<rparr>) w1), Inr ())
           else case option_tick_price raw_bid True of
             Inl e \<Rightarrow> (w1, Inl e)
           | Inr price \<Rightarrow>
               andthen (oms_create d (exit_intent d ''INST-NIFTY-AUTO-ENGINE-T1'' IOC quantity price (wk_trade w1)) w1)
                 (\<lambda>ord w2. (save_trade (upd (\<lambda>t. (reset_live_t1_order_progress t)\<lparr>lt_partial_order_id := Some (bo_order_id ord),
                    lt_core := (lt_core t)\<lparr>tr_partial_raw_bid := Some raw_bid, tr_t1_exit_pending := True\<rparr>,
                    lt_option_data_status := ''LIVE_T1_EXIT_SUBMITTED''\<rparr>) w2), Inr ())))))"

section \<open>The final exit\<close>

text \<open>What a submitted final exit leaves in the trade.\<close>

definition exit_submitted :: "broker_order \<Rightarrow> message option \<Rightarrow> live_trade \<Rightarrow> live_trade" where
  "exit_submitted ord reason t = (reset_exit_order_progress t)\<lparr>lt_exit_order_id := Some (bo_order_id ord),
     lt_pending_exit_reason := reason, lt_core := (lt_core t)\<lparr>tr_state := EXIT_PENDING\<rparr>\<rparr>"

definition emergency_owned :: "live_trade \<Rightarrow> live_trade" where
  "emergency_owned t = t\<lparr>lt_pending_exit_reason := Some OPTION_EMERGENCY_STOP,
     lt_option_exit_reason := Some OPTION_EMERGENCY_STOP\<rparr>"

definition submit_live_final_exit :: "desk \<Rightarrow> market_features \<Rightarrow> option_quote \<Rightarrow> message option \<Rightarrow> work \<Rightarrow> unit act" where
  "submit_live_final_exit d f q reason w =
     (if lt_exit_order_id (wk_trade w) \<noteq> None then (w, Inr ())
      else if is_option_emergency_stop reason then (save_trade (upd emergency_owned w), Inr ())
      else andthen (cancel_live_protective_stop_for_exit d f w) (\<lambda>cleared w1.
        (let pend = upd (\<lambda>t. t\<lparr>lt_pending_exit_reason := reason\<rparr>); bid = opt_or (oq_bid q) (Fin 0) in
         if \<not> cleared then (save_trade (pend w1), Inr ())
         else if fle bid (Fin 0)
         then (save_trade (upd (\<lambda>t. t\<lparr>lt_option_data_status := ''LIVE_EXIT_WAITING_FOR_BID''\<rparr>) (pend w1)), Inr ())
         else if open_quantity (wk_trade w1) \<le> 0 then (save_trade w1, Inr ())
         else case option_tick_price bid True of
           Inl e \<Rightarrow> (w1, Inl e)
         | Inr price \<Rightarrow>
             andthen (oms_create d (exit_intent d ''INST-NIFTY-AUTO-ENGINE'' DAY (open_quantity (wk_trade w1)) price (wk_trade w1)) w1)
               (\<lambda>ord w2. (save_trade (upd (\<lambda>t. (exit_submitted ord reason t)\<lparr>lt_option_data_status := ''LIVE_EXIT_SUBMITTED''\<rparr>) w2),
                  Inr ())))))"

end
