(* ===== verification/TradeManagement.thy ===== *)
theory TradeManagement imports LiveOrders begin

text \<open>
  The management of an open trade in one cycle, \<^verbatim>\<open>services/strategy/service.py\<close>:
  \<^verbatim>\<open>_evaluate_active_trade\<close> in its phases (entry order, protective stop, partial exit, exit order,
  then the rules of the trade's strategy), the exits of the strategies A, B, C/D and E,
  and \<^verbatim>\<open>manual_exit_trade\<close>.  The market data of a cycle is an input (\<open>cycle_input\<close>).
\<close>

section \<open>Inputs\<close>

text \<open>A row of the frozen C/D lifecycle, \<^verbatim>\<open>None\<close> where the value is missing or no number.\<close>

record runtime_row =
  rr_signal_id :: string
  rr_current_r :: "pyfloat option"
  rr_current_stop :: "pyfloat option"
  rr_exit_reason :: "message option"
  rr_exit_time :: "timestamp option"
  rr_exit_price :: "pyfloat option"
  rr_scale_out_time :: "timestamp option"
  rr_scale_out_price :: "pyfloat option"

record lifecycle_status =
  ls_active_execution :: "runtime_row option"
  ls_active_paper :: "runtime_row option"
  ls_paper_trades :: "runtime_row list"
  ls_active_candidate :: "runtime_row option"

record tick_quote =
  tq_source :: string
  tq_last_price :: pyfloat
  tq_timestamp :: timestamp

record cycle_input =
  ci_features :: market_features
  ci_quote :: option_quote
  ci_executable_bid :: "pyfloat option"
  ci_manager :: manager
  ci_strategy_c :: lifecycle_status
  ci_strategy_d :: lifecycle_status
  ci_futures_tick :: "string \<Rightarrow> tick_quote option"
  ci_futures_5m :: "candle list"
  ci_e_forced_exit_time :: string

definition quote_valid :: "option_quote \<Rightarrow> bool" where
  "quote_valid q \<longleftrightarrow> oq_status q = ''VALID'' \<and> flt (Fin 0) (opt_or (oq_bid q) (Fin 0))"

definition apply_quote_to_trade :: "option_quote \<Rightarrow> live_trade \<Rightarrow> live_trade" where
  "apply_quote_to_trade q t = t\<lparr>lt_quote := Some q, lt_option_data_status := oq_status q,
     lt_quality_reasons := (case str_or (oq_reason q) None of
        Some r \<Rightarrow> if r \<in> set (lt_quality_reasons t) then lt_quality_reasons t else lt_quality_reasons t @ [r]
      | None \<Rightarrow> lt_quality_reasons t)\<rparr>"

text \<open>\<^verbatim>\<open>quote.get("ltp") or quote.get("bid")\<close>, and the same as a usable price.\<close>

definition quoted_price :: "option_quote \<Rightarrow> pyfloat option" where
  "quoted_price q = (case oq_ltp q of Some v \<Rightarrow> if ftrue v then Some v else oq_bid q | None \<Rightarrow> oq_bid q)"

definition usable_price :: "option_quote \<Rightarrow> pyfloat option" where
  "usable_price q = (case quoted_price q of Some v \<Rightarrow> if flt (Fin 0) v then Some (fround 2 v) else None | None \<Rightarrow> None)"

definition positive_price :: "option_quote \<Rightarrow> pyfloat option" where
  "positive_price q = (case quoted_price q of
     Some v \<Rightarrow> if \<not> ftrue v \<or> fle v (Fin 0) then None else Some (fround 2 v) | None \<Rightarrow> None)"

text \<open>The paper price of a sale: the bid less the slippage, never negative.\<close>

definition bid_less_slippage :: "desk \<Rightarrow> option_quote \<Rightarrow> pyfloat" where
  "bid_less_slippage d q = fround 2 (fsub (opt_or (oq_bid q) (Fin 0)) (rk_paper_slippage_points (dk_risk d)))"

definition paper_sell_price :: "desk \<Rightarrow> option_quote \<Rightarrow> pyfloat" where
  "paper_sell_price d q = pmax (Fin 0) (bid_less_slippage d q)"

section \<open>The entry order\<close>

definition entry_price_update :: "desk \<Rightarrow> broker_order \<Rightarrow> active_trade \<Rightarrow> active_trade" where
  "entry_price_update d ord c =
     (if flt (Fin 0) (bo_average_price ord)
      then c\<lparr>tr_entry_option_price := bo_average_price ord,
             tr_hard_stop := fround 2 (fmul (bo_average_price ord)
               (fsub (Fin 1) (quot (rk_option_hard_stop_pct (dk_risk d)) (Fin 100))))\<rparr>
      else c)"

definition entry_progress :: "desk \<Rightarrow> broker_order \<Rightarrow> work \<Rightarrow> work" where
  "entry_progress d ord w =
     (let t = wk_trade w in
      if bo_filled_quantity ord > 0
        \<and> (lt_filled_quantity t \<noteq> bo_filled_quantity ord
           \<or> flt (Fin 0) (bo_average_price ord) \<and> \<not> feq (tr_entry_option_price (lt_core t)) (bo_average_price ord))
      then save_trade (upd_core (entry_price_update d ord) (upd (\<lambda>t. t\<lparr>lt_filled_quantity := bo_filled_quantity ord\<rparr>) w))
      else w)"

text \<open>A working entry is cancelled when it is partly filled or has timed out.\<close>

definition entry_working :: "desk \<Rightarrow> broker_order \<Rightarrow> work \<Rightarrow> bool act" where
  "entry_working d ord w =
     (let timed_out = fle (fint (rk_entry_order_timeout_sec (dk_risk d)))
            (total_seconds (dk_now d 10 - tr_entry_time (lt_core (wk_trade w)))) in
      case (str_or (bo_broker_order_id ord) None, dk_gateway d) of
        (Some broker_id, Some gateway) \<Rightarrow>
          if bo_filled_quantity ord > 0 \<or> timed_out
          then (call (CancelOrder broker_id (bo_trading_mode ord)) w,
                (case gateway broker_id (bo_trading_mode ord) of Failed e \<Rightarrow> Inl (BrokerError e) | _ \<Rightarrow> Inr False))
          else (w, Inr False)
      | _ \<Rightarrow> (w, Inr False))"

definition entry_unfilled :: "desk \<Rightarrow> broker_order \<Rightarrow> work \<Rightarrow> work" where
  "entry_unfilled d ord w =
     (let why = ''ENTRY_UNFILLED_'' @ order_state_value (bo_status ord);
          w1 = upd (\<lambda>t. t\<lparr>lt_core := (lt_core t)\<lparr>tr_state := CLOSED\<rparr>, lt_exit_time := Some (dk_now d 11),
             lt_exit_reason := Some [Txt why]\<rparr>) w;
          t = wk_trade w1; s = tr_strategy (lt_core t);
          w2 = w1\<lparr>wk_calls := wk_calls w1
               @ (if s = TREND_PULLBACK then [StrategyARejected (dk_now d 11) why] else [])
               @ (if s = VOLATILITY_BREAKOUT then [StrategyBReset (dk_now d 11)] else []) @ [SaveRuntime],
             wk_cache := filter (\<lambda>tid. tid \<noteq> lt_trade_id t) (wk_cache w1)\<rparr>
      in save_trade w2)"

definition entry_filled :: "desk \<Rightarrow> broker_order \<Rightarrow> work \<Rightarrow> work" where
  "entry_filled d ord w =
     (let n = bo_filled_quantity ord;
          w1 = save_trade (upd (\<lambda>t. t\<lparr>lt_filled_quantity := n,
             lt_core := (entry_price_update d ord ((lt_core t)\<lparr>tr_quantity := n, tr_initial_quantity := Some n,
               tr_remaining_quantity := Some n\<rparr>))\<lparr>tr_state := OPEN_INITIAL_RISK\<rparr>\<rparr>) w);
          t = wk_trade w1;
          w2 = record_execution \<lparr>le_ledger_id = ''LIVE-ENTRY-'' @ bo_order_id ord @ ''-'' @ show_int n,
             le_trade_id = lt_trade_id t, le_side = BUY, le_timestamp = bo_updated_at ord,
             le_raw_bid = lt_entry_bid t, le_raw_ask = lt_entry_ask t, le_raw_ltp = lt_entry_ltp t,
             le_executable_price = tr_entry_option_price (lt_core t), le_slippage_points = Fin 0, le_quantity = n,
             le_source = ''BROKER_FILL'', le_reason = Some [Txt ''LIVE_ENTRY_FILLED'']\<rparr> w1
      in if tr_strategy (lt_core t) = TREND_PULLBACK
         then call (Lifecycle ''ENTRY_OPENED'' None) (call SaveRuntime (call (StrategyAConfirm (bo_updated_at ord)) w2))
         else w2)"

text \<open>True when the trade goes on to its position phases.\<close>

definition entry_phase :: "desk \<Rightarrow> work \<Rightarrow> bool act" where
  "entry_phase d w =
     (let t = wk_trade w in
      case lt_entry_order_id t of
        None \<Rightarrow> if tr_state (lt_core t) = ENTRY_PENDING
          then (call (Decision ''ORDER'' ''Entry submission requires reconciliation'') w, Inr False) else (w, Inr True)
      | Some oid \<Rightarrow>
          if tr_state (lt_core t) \<noteq> ENTRY_PENDING then (w, Inr True) else
          (case get_order_by_id oid (wk_oms w) of
             None \<Rightarrow> (w, Inr False)
           | Some ord \<Rightarrow>
               (let w1 = entry_progress d ord w in
                if \<not> (dead (bo_status ord) \<or> bo_status ord = FILLED) then entry_working d ord w1
                else if bo_filled_quantity ord \<le> 0 then (entry_unfilled d ord w1, Inr False)
                else (entry_filled d ord w1, Inr True))))"

section \<open>The exit order\<close>

definition exit_order_phase :: "desk \<Rightarrow> cycle_input \<Rightarrow> work \<Rightarrow> bool act" where
  "exit_order_phase d ci w =
     (case lt_exit_order_id (wk_trade w) of
        None \<Rightarrow> (w, Inr True)
      | Some oid \<Rightarrow>
          (case get_order_by_id oid (wk_oms w) of
             None \<Rightarrow> (w, Inr False)
           | Some ord \<Rightarrow>
               (case apply_exit_order_progress ord (wk_trade w) of (t1, p) \<Rightarrow>
                (let w1 = upd (\<lambda>_. t1) w;
                     w2 = (if fst p > 0 then record_execution (broker_fill_entry ''LIVE-EXIT-'' ord p None
                            (or_reason (lt_pending_exit_reason t1) (Some [Txt ''LIVE_EXIT''])) t1) w1 else w1) in
                 if bo_status ord = FILLED \<or> lt_exit_filled t1 \<ge> quantity_of t1
                 then (let w3 = save_trade w2 in
                    case fdiv (lt_exit_proceeds t1) (fint (quantity_of t1)) of
                      None \<Rightarrow> (w3, Inl ZeroDivisionError)
                    | Some price \<Rightarrow> (close_trade d 2 (ci_features ci) price (lt_pending_exit_reason t1) None w3, Inr False))
                 else if dead (bo_status ord)
                 then (save_trade (upd (\<lambda>t. reset_exit_order_progress (t\<lparr>lt_exit_order_id := None\<rparr>)) w2), Inr True)
                 else (let w3 = save_trade w2 in
                   case (ci_executable_bid ci, str_or (bo_broker_order_id ord) None, dk_gateway d) of
                     (Some bid, Some broker_id, Some gateway) \<Rightarrow>
                       (if ftrue bid \<and> \<not> feq bid (bo_price ord)
                        then call (ModifyOrder broker_id bid (bo_trading_mode ord)) w3 else w3, Inr False)
                   | _ \<Rightarrow> (w3, Inr False))))))"

section \<open>Exits on paper\<close>

text \<open>\<^verbatim>\<open>_execute_strategy_a_partial_exit\<close>, used by every strategy with a first target.\<close>

definition execute_partial_exit :: "desk \<Rightarrow> market_features \<Rightarrow> option_quote \<Rightarrow> work \<Rightarrow> unit act" where
  "execute_partial_exit d f q w =
     (let t = wk_trade w; c = lt_core t; quantity = tr_t1_exit_quantity c; raw_bid = opt_or (oq_bid q) (Fin 0);
          slippage = rk_paper_slippage_points (dk_risk d); price = pmax (Fin 0) (fround 2 (fsub raw_bid slippage)) in
      if quantity \<le> 0 then (w, Inl (ValueError ''Partial exit quantity must be a positive whole-lot quantity''))
      else if tr_lot_size c = 0 then (w, Inl ZeroDivisionError)
      else if quantity mod tr_lot_size c \<noteq> 0
      then (w, Inl (ValueError ''Partial exit quantity must be a positive whole-lot quantity''))
      else if fle raw_bid (Fin 0) \<or> fle price (Fin 0) then (save_trade (upd (t1_pending True) w), Inr ())
      else case apply_t1_partial_fill raw_bid price slippage (mf_timestamp f) c of
        Inl e \<Rightarrow> (w, Inl e)
      | Inr c' \<Rightarrow>
          (let w1 = record_execution \<lparr>le_ledger_id = dk_ledger_id d, le_trade_id = lt_trade_id t, le_side = SELL,
                 le_timestamp = mf_timestamp f, le_raw_bid = Some raw_bid, le_raw_ask = oq_ask q, le_raw_ltp = oq_ltp q,
                 le_executable_price = price, le_slippage_points = slippage, le_quantity = quantity,
                 le_source = (case oq_source q of None \<Rightarrow> ''UNKNOWN'' | Some s \<Rightarrow> s),
                 le_reason = Some [Txt ''T1_REACHED_PARTIAL_EXIT'']\<rparr> (upd_core (\<lambda>_. c') w);
               w2 = (if tr_strategy c = TREND_PULLBACK
                 then call (Lifecycle ''PARTIAL_EXIT'' (Some [Txt ''T1_REACHED_PARTIAL_EXIT''])) w1 else w1)
           in (save_trade (call (Decision ''EXIT'' ''T1 partial exit'') w2), Inr ())))"

text \<open>
  An exit decided with a valid quote: LIVE goes to the exit order, paper closes the trade at the bid
  less the slippage, or waits (after \<open>note\<close>) when that is not positive.
\<close>

definition decided_exit ::
  "desk \<Rightarrow> market_features \<Rightarrow> option_quote \<Rightarrow> message option \<Rightarrow> (work \<Rightarrow> work) \<Rightarrow> work \<Rightarrow> unit act" where
  "decided_exit d f q reason note w =
     (if lt_mode (wk_trade w) = AUTO_LIVE then submit_live_final_exit d f q reason w
      else if fle (paper_sell_price d q) (Fin 0) then (save_trade (note w), Inr ())
      else (close_trade d 2 f (paper_sell_price d q) reason (Some q) w, Inr ()))"

definition partial_exit_decided :: "desk \<Rightarrow> market_features \<Rightarrow> option_quote \<Rightarrow> work \<Rightarrow> unit act" where
  "partial_exit_decided d f q w =
     (if lt_mode (wk_trade w) = AUTO_LIVE then submit_live_t1_partial_exit d f q w else execute_partial_exit d f q w)"

section \<open>Strategy A\<close>

definition emergency_decided :: "live_trade \<Rightarrow> live_trade" where
  "emergency_decided t = (emergency_owned t)\<lparr>
     lt_underlying_exit_reason := Some [Txt ''OPTION_HARD_STOP_PREEMPTED_UNDERLYING''], lt_underlying_exit_time := None,
     lt_underlying_exit_price := None, lt_underlying_outcome_status := Some ''PREEMPTED_BY_OPTION_EMERGENCY_STOP''\<rparr>"

definition underlying_exit_decided :: "market_features \<Rightarrow> message \<Rightarrow> live_trade \<Rightarrow> live_trade" where
  "underlying_exit_decided f event t = t\<lparr>lt_pending_exit_reason := Some event, lt_underlying_exit_reason := Some event,
     lt_underlying_exit_time := Some (mf_timestamp f), lt_pending_underlying_exit_time := Some (mf_timestamp f),
     lt_underlying_exit_price := (if flt (Fin 0) (mf_futures_price f) then Some (mf_futures_price f)
       else tr_underlying_current_price (lt_core t))\<rparr>"

text \<open>What follows a signal of the position manager.\<close>

definition strategy_a_signal :: "desk \<Rightarrow> market_features \<Rightarrow> option_quote \<Rightarrow> message \<Rightarrow> work \<Rightarrow> unit act" where
  "strategy_a_signal d f q event w =
     (if is_option_emergency_stop (Some event) then
        (let w1 = call (Lifecycle ''OPTION_EMERGENCY_STOP_DECIDED'' (Some OPTION_EMERGENCY_STOP)) (upd emergency_decided w);
             pending = call (Lifecycle ''OPTION_EXIT_PENDING'' (Some OPTION_EMERGENCY_STOP)) in
         if \<not> quote_valid q then (save_trade (pending w1), Inr ())
         else decided_exit d f q (Some OPTION_EMERGENCY_STOP) pending w1)
      else if event = [Txt ''T1_PARTIAL_EXIT''] then
        (let w1 = (if tr_partial_reason (lt_core (wk_trade w)) \<noteq> Some ''T1_REACHED_PARTIAL_EXIT''
             then call (Lifecycle ''T1_REACHED'' (Some [Txt ''T1_PARTIAL_EXIT''])) w else w) in
         if quote_valid q then partial_exit_decided d f q w1 else (save_trade (upd (t1_pending True) w1), Inr ()))
      else if event = [Txt ''T1_REACHED_NO_PARTIAL_ONE_LOT'']
      then (save_trade (call (Lifecycle ''T1_REACHED'' (Some event)) w), Inr ())
      else
        (let w1 = call (Lifecycle ''UNDERLYING_EXIT_DECIDED'' (Some event)) (upd (underlying_exit_decided f event) w);
             pending = call (Lifecycle ''OPTION_EXIT_PENDING'' (Some event)) in
         if \<not> quote_valid q then (save_trade (pending w1), Inr ())
         else decided_exit d f q (Some event) pending w1))"

definition evaluate_strategy_a :: "desk \<Rightarrow> market_features \<Rightarrow> cycle_input \<Rightarrow> work \<Rightarrow> unit act" where
  "evaluate_strategy_a d f ci w =
     (let q = ci_quote ci; t = wk_trade w in
      if given (lt_pending_exit_reason t) then
        (if \<not> quote_valid q \<or> fle (paper_sell_price d q) (Fin 0) then (save_trade w, Inr ())
         else decided_exit d f q (lt_pending_exit_reason t) id w)
      else
        (case update_position (ci_manager ci) (usable_price q) f (Some (mf_timestamp f)) (dk_now d 7) (lt_core t) of
          (c, v) \<Rightarrow>
           (let w1 = upd_core (\<lambda>_. c) w; act_r = tn_trailing_activation_r (pm_tunables (ci_manager ci));
                w2 = (if fle act_r (tr_peak_r c) \<and> flt (tr_peak_r (lt_core t)) act_r
                  then call (Lifecycle ''TRAIL_ACTIVATED'' None) w1 else w1);
                w3 = (if tr_state c = RUNNER_MODE \<and> tr_state (lt_core t) \<noteq> RUNNER_MODE
                  then call (Lifecycle ''RUNNER_MODE'' None) w2 else w2) in
            case v of Raised e \<Rightarrow> (w1, Inl e) | Hold \<Rightarrow> (save_trade w3, Inr ())
            | Signal event \<Rightarrow> strategy_a_signal d f q event w3)))"

section \<open>Strategies C and D\<close>

definition candidate_runtime_for_trade :: "cycle_input \<Rightarrow> live_trade \<Rightarrow> runtime_row option" where
  "candidate_runtime_for_trade ci t =
     (let s = tr_strategy (lt_core t); sid = (case lt_signal_id t of None \<Rightarrow> [] | Some x \<Rightarrow> x);
          status = (if s = DI_CONTINUATION then ci_strategy_c ci else ci_strategy_d ci);
          listed = (\<lambda>r. case r of None \<Rightarrow> [] | Some x \<Rightarrow> [x]) in
      if s \<notin> {DI_CONTINUATION, SR_MOMENTUM_BREAKOUT} then None
      else case filter (\<lambda>r. rr_signal_id r = sid)
             (listed (ls_active_execution status) @ listed (ls_active_paper status) @ ls_paper_trades status) of
        r # _ \<Rightarrow> Some r
      | [] \<Rightarrow> if s \<noteq> DI_CONTINUATION then None
          else (case ls_active_candidate status of
             None \<Rightarrow> if sid = [] then Some \<lparr>rr_signal_id = sid, rr_current_r = None, rr_current_stop = None,
                 rr_exit_reason = None, rr_exit_time = None, rr_exit_price = None, rr_scale_out_time = None,
                 rr_scale_out_price = None\<rparr> else None
           | Some r \<Rightarrow> if rr_signal_id r = sid
               then Some (r\<lparr>rr_scale_out_time := None, rr_scale_out_price := None\<rparr>) else None))"

definition scale_out_lots :: "int \<Rightarrow> int" where
  "scale_out_lots total_lots = (if total_lots \<ge> 2 then total_lots div 2 else 0)"

text \<open>The marks of the underlying, taken from the frozen lifecycle.\<close>

definition mark_candidate :: "market_features \<Rightarrow> runtime_row \<Rightarrow> live_trade \<Rightarrow> live_trade" where
  "mark_candidate f r t =
     (let c = lt_core t; current_r = (case rr_current_r r of None \<Rightarrow> tr_current_r c | Some x \<Rightarrow> x);
          c1 = c\<lparr>tr_trailing_stop := (case rr_current_stop r of None \<Rightarrow> tr_trailing_stop c | Some s \<Rightarrow> s),
                 tr_current_r := fround 6 current_r, tr_peak_r := pmax (tr_peak_r c) (fround 6 current_r)\<rparr>;
          entry = opt_or (tr_underlying_entry_price c) (tr_entry_spot_price c);
          risk = opt_or (tr_underlying_r c) (tr_initial_r_points c);
          current = (case rr_exit_price r of Some x \<Rightarrow> x
            | None \<Rightarrow> if flt (Fin 0) risk then favour (tr_direction c) entry (fmul (tr_current_r c1) risk)
                else if tr_strategy c = DI_CONTINUATION then mf_futures_price f else mf_spot_price f)
      in t\<lparr>lt_core := c1\<lparr>tr_current_spot_price := current, tr_underlying_current_price := Some current\<rparr>\<rparr>)"

definition mark_option :: "pyfloat \<Rightarrow> live_trade \<Rightarrow> live_trade" where
  "mark_option price t = t\<lparr>lt_core := (lt_core t)\<lparr>tr_current_option_price := Some price,
     tr_unrealized_pnl := fround 2 (fmul (fsub price (tr_entry_option_price (lt_core t))) (fint (quantity_of t)))\<rparr>\<rparr>"

text \<open>The scale-out of strategy D: once, when its lifecycle reports it.\<close>

definition scale_out :: "runtime_row \<Rightarrow> live_trade \<Rightarrow> live_trade" where
  "scale_out r t =
     (let c = lt_core t; original = int_or (tr_initial_quantity c) (tr_quantity c);
          lots = scale_out_lots (if tr_lot_size c > 0 then original div tr_lot_size c else 0);
          entry = opt_or (tr_underlying_entry_price c) (tr_entry_spot_price c);
          risk = opt_or (tr_underlying_r c) (tr_initial_r_points c);
          price = opt_or (rr_scale_out_price r) (tr_current_spot_price c) in
      if tr_strategy c = SR_MOMENTUM_BREAKOUT \<and> rr_scale_out_time r \<noteq> None \<and> \<not> tr_t1_reached c
        \<and> \<not> given (lt_pending_exit_reason t)
      then t\<lparr>lt_core := (if lots > 0
             then c\<lparr>tr_t1_reached := True, tr_t1_exit_quantity := lots * tr_lot_size c, tr_t1_decision_price := Some price,
                tr_t1_decision_r := Some (underlying_r_for_price (tr_direction c) entry risk price), tr_t1_exit_pending := True\<rparr>
             else c\<lparr>tr_t1_reached := True, tr_t1_exit_quantity := 0, tr_t1_exit_pending := False\<rparr>)\<rparr>
      else t)"

definition candidate_exit_decided :: "market_features \<Rightarrow> runtime_row \<Rightarrow> message \<Rightarrow> live_trade \<Rightarrow> live_trade" where
  "candidate_exit_decided f r reason t =
     (let at_time = (case rr_exit_time r of Some x \<Rightarrow> x | None \<Rightarrow> mf_timestamp f)
      in t\<lparr>lt_pending_exit_reason := Some reason, lt_underlying_exit_reason := Some reason,
        lt_underlying_exit_time := Some at_time, lt_pending_underlying_exit_time := Some at_time,
        lt_underlying_exit_price := Some (opt_or (rr_exit_price r) (tr_current_spot_price (lt_core t)))\<rparr>)"

definition candidate_stage_exit :: "desk \<Rightarrow> market_features \<Rightarrow> option_quote \<Rightarrow> runtime_row \<Rightarrow> message option \<Rightarrow> work \<Rightarrow> unit act" where
  "candidate_stage_exit d f q r reason w =
     (if \<not> given reason then (save_trade w, Inr ()) else
      (let w1 = upd (candidate_exit_decided f r (case reason of None \<Rightarrow> [] | Some m \<Rightarrow> m)) w in
       if \<not> quote_valid q then (save_trade w1, Inr ())
       else if lt_mode (wk_trade w1) = AUTO_LIVE \<and> lt_partial_order_id (wk_trade w1) \<noteq> None then (save_trade w1, Inr ())
       else decided_exit d f q reason id w1))"

definition evaluate_candidate :: "desk \<Rightarrow> market_features \<Rightarrow> cycle_input \<Rightarrow> work \<Rightarrow> unit act" where
  "evaluate_candidate d f ci w =
     (case candidate_runtime_for_trade ci (wk_trade w) of
        None \<Rightarrow> (save_trade (upd (\<lambda>t. if lt_option_data_status t \<in> {'''', ''ENTRY_CAPTURED''}
            then t\<lparr>lt_option_data_status := ''AWAITING_STRATEGY_LIFECYCLE''\<rparr> else t) w), Inr ())
      | Some r \<Rightarrow>
         (let q = ci_quote ci; valid = quote_valid q; price = opt_or (quoted_price q) (Fin 0);
              reason = or_reason (lt_pending_exit_reason (wk_trade w)) (rr_exit_reason r);
              w1 = upd (mark_candidate f r) w;
              w2 = (if valid \<and> flt (Fin 0) price then upd (mark_option price) w1 else w1) in
          if lt_mode (wk_trade w2) \<noteq> AUTO_LIVE \<and> valid \<and> flt (Fin 0) price \<and> fle price (tr_hard_stop (lt_core (wk_trade w2)))
          then (close_trade d 2 f (paper_sell_price d q) (Some OPTION_EMERGENCY_STOP) (Some q) w2, Inr ())
          else
            (let w3 = upd (scale_out r) w2; t3 = wk_trade w3; c3 = lt_core t3 in
             if tr_t1_exit_pending c3 \<and> tr_partial_filled c3 < tr_t1_exit_quantity c3 then
               (if \<not> valid then (save_trade w3, Inr ())
                else if lt_mode t3 = AUTO_LIVE then submit_live_t1_partial_exit d f q w3
                else execute_partial_exit d f q (upd_core (\<lambda>c. c\<lparr>tr_state := RUNNER_MODE\<rparr>) w3))
             else candidate_stage_exit d f q r reason w3)))"

section \<open>Strategy E\<close>

record lifecycle_decision =
  ld_exit_reason :: "string option"
  ld_decision_price :: pyfloat
  ld_current_r :: pyfloat
  ld_stop_hit :: bool
  ld_target_hit :: bool
  ld_force_exit :: bool

text \<open>\<^verbatim>\<open>strftime("%H:%M")\<close> of the IST wall clock, compared as text with the configured time.\<close>

definition ist_hhmm :: "timestamp \<Rightarrow> string" where
  "ist_hhmm t = (let m = nat (ist_minute_of_day t); two = (\<lambda>n. (if n < 10 then ''0'' else '''') @ show_nat n)
     in two (m div 60) @ '':'' @ two (m mod 60))"

fun text_le :: "string \<Rightarrow> string \<Rightarrow> bool" where
  "text_le [] ys = True"
| "text_le (x # xs) [] = False"
| "text_le (x # xs) (y # ys) = ((of_char x :: nat) < of_char y \<or> x = y \<and> text_le xs ys)"

definition e_decision :: "bool \<Rightarrow> bool \<Rightarrow> bool \<Rightarrow> pyfloat \<Rightarrow> pyfloat \<Rightarrow> pyfloat \<Rightarrow> string option \<times> pyfloat" where
  "e_decision hit_stop hit_target force_exit stop target price =
     (if hit_stop then (Some ''STRATEGY_E_STOP_LOSS'', stop)
      else if hit_target then (Some ''STRATEGY_E_TARGET'', target)
      else if force_exit then (Some ''STRATEGY_E_FORCED_EXIT'', price)
      else (None, price))"

definition evaluate_strategy_e_lifecycle_bar ::
  "trade_direction \<Rightarrow> pyfloat \<Rightarrow> pyfloat \<Rightarrow> pyfloat \<Rightarrow> pyfloat \<Rightarrow> candle \<Rightarrow> string \<Rightarrow> exn + lifecycle_decision" where
  "evaluate_strategy_e_lifecycle_bar dir entry risk stop target b forced_exit_time =
     (if fle entry (Fin 0) \<or> fle risk (Fin 0) \<or> fle stop (Fin 0) \<or> fle target (Fin 0)
      then Inl (ValueError ''invalid Strategy E lifecycle inputs'')
      else if ca_interval b \<noteq> ''5m'' \<or> ca_source b \<notin> {''BREEZE'', ''KITE'', ''LIVE''}
      then Inl (ValueError ''Strategy E lifecycle requires a real completed 5m bar'')
      else (let bull = (dir = BULLISH);
                r = quot (if bull then fsub (ca_close b) entry else fsub entry (ca_close b)) risk;
                hit_stop = (if bull then fle (ca_low b) stop else fle stop (ca_high b));
                hit_target = (if bull then fle target (ca_high b) else fle (ca_low b) target);
                force = text_le forced_exit_time (ist_hhmm (ca_end_time b));
                dec = e_decision hit_stop hit_target force stop target (ca_close b)
            in Inr \<lparr>ld_exit_reason = fst dec, ld_decision_price = fround 6 (snd dec), ld_current_r = fround 6 r,
                 ld_stop_hit = hit_stop, ld_target_hit = hit_target, ld_force_exit = force\<rparr>))"

text \<open>The underlying: a fresh futures tick, else the last completed 5 minute bar.\<close>

definition fresh_tick :: "desk \<Rightarrow> cycle_input \<Rightarrow> live_trade \<Rightarrow> tick_quote option" where
  "fresh_tick d ci t =
     (case str_or (lt_futures_contract_id t) None of
        None \<Rightarrow> None
      | Some cid \<Rightarrow>
          (case ci_futures_tick ci cid of
             None \<Rightarrow> None
           | Some tk \<Rightarrow>
               if tq_source tk \<in> {''BREEZE'', ''KITE'', ''LIVE''} \<and> flt (Fin 0) (tq_last_price tk)
                 \<and> fle (pmax (Fin 0) (total_seconds (dk_now d 8 - tq_timestamp tk))) (Fin 30)
               then Some tk else None))"

definition fallback_candle :: "cycle_input \<Rightarrow> live_trade \<Rightarrow> candle option" where
  "fallback_candle ci t =
     (case rev (filter (\<lambda>c. case str_or (lt_futures_contract_id t) None of None \<Rightarrow> True
          | Some cid \<Rightarrow> ca_instrument_id c = cid) (ci_futures_5m ci)) of
        [] \<Rightarrow> None | c # _ \<Rightarrow> Some c)"

definition e_underlying :: "desk \<Rightarrow> cycle_input \<Rightarrow> live_trade \<Rightarrow> (pyfloat \<times> timestamp) option" where
  "e_underlying d ci t =
     (case fresh_tick d ci t of
        Some tk \<Rightarrow> Some (tq_last_price tk, tq_timestamp tk)
      | None \<Rightarrow> (case fallback_candle ci t of Some c \<Rightarrow> Some (ca_close c, ca_end_time c) | None \<Rightarrow> None))"

definition e_entry :: "live_trade \<Rightarrow> pyfloat" where
  "e_entry t = opt_or (tr_underlying_entry_price (lt_core t)) (tr_entry_spot_price (lt_core t))"

definition e_risk :: "live_trade \<Rightarrow> pyfloat" where
  "e_risk t = f_or (tr_initial_r_points (lt_core t)) (opt_or (tr_underlying_r (lt_core t)) (Fin 0))"

definition e_stop :: "live_trade \<Rightarrow> pyfloat" where
  "e_stop t = f_or (tr_trailing_stop (lt_core t)) (tr_initial_structural_stop (lt_core t))"

definition e_target :: "live_trade \<Rightarrow> pyfloat" where
  "e_target t = opt_or (lt_strategy_target_price t) (Fin 0)"

definition mark_e :: "option_quote \<Rightarrow> pyfloat \<Rightarrow> live_trade \<Rightarrow> live_trade" where
  "mark_e q price t =
     (let c = lt_core t; r = underlying_r_for_price (tr_direction c) (e_entry t) (e_risk t) price
      in t\<lparr>lt_core := c\<lparr>tr_current_spot_price := fround 2 price, tr_underlying_current_price := Some (fround 2 price),
             tr_current_r := r, tr_peak_r := pmax (f_or (tr_peak_r c) (Fin 0)) r\<rparr>,
           lt_option_data_status := (if quote_valid q then ''VALID'' else lt_option_data_status t)\<rparr>)"

definition mark_e_option :: "option_quote \<Rightarrow> live_trade \<Rightarrow> live_trade" where
  "mark_e_option q t =
     (case usable_price q of
        None \<Rightarrow> t
      | Some p \<Rightarrow> t\<lparr>lt_core := (lt_core t)\<lparr>tr_current_option_price := Some p,
          tr_unrealized_pnl := fround 2 (fmul (fsub p (tr_entry_option_price (lt_core t))) (fint (open_quantity t)))\<rparr>\<rparr>)"

text \<open>The decision on the underlying: on the tick, or on the bar of the fallback.\<close>

definition e_lifecycle :: "desk \<Rightarrow> cycle_input \<Rightarrow> live_trade \<Rightarrow> pyfloat \<times> timestamp \<Rightarrow> exn + (string option \<times> pyfloat)" where
  "e_lifecycle d ci t u =
     (case (fresh_tick d ci t, fallback_candle ci t) of
        (None, Some b) \<Rightarrow> map_sum id (\<lambda>dec. (ld_exit_reason dec, ld_decision_price dec))
            (evaluate_strategy_e_lifecycle_bar (tr_direction (lt_core t)) (e_entry t) (e_risk t)
              (e_stop t) (e_target t) b (ci_e_forced_exit_time ci))
      | _ \<Rightarrow>
          (let bull = (tr_direction (lt_core t) = BULLISH); p = fst u
           in Inr (e_decision (if bull then fle p (e_stop t) else fle (e_stop t) p)
                (if bull then fle (e_target t) p else fle p (e_target t))
                (text_le (ci_e_forced_exit_time ci) (ist_hhmm (snd u))) (e_stop t) (e_target t) p)))"

definition e_exit_decided :: "message \<Rightarrow> timestamp \<Rightarrow> pyfloat \<Rightarrow> live_trade \<Rightarrow> live_trade" where
  "e_exit_decided reason at_time price t =
     (let emergency = is_option_emergency_stop (Some reason)
      in t\<lparr>lt_pending_exit_reason := Some reason,
           lt_underlying_exit_reason := (if emergency then Some [Txt ''OPTION_HARD_STOP_PREEMPTED_UNDERLYING''] else Some reason),
           lt_underlying_exit_time := Some at_time, lt_underlying_exit_price := Some (fround 2 price),
           lt_option_exit_reason := (if emergency then Some OPTION_EMERGENCY_STOP else lt_option_exit_reason t),
           lt_underlying_outcome_status := (if emergency then Some ''PREEMPTED_BY_OPTION_EMERGENCY_STOP''
             else lt_underlying_outcome_status t)\<rparr>)"

definition e_emergency :: "option_quote \<Rightarrow> live_trade \<Rightarrow> bool" where
  "e_emergency q t \<longleftrightarrow> lt_mode t \<noteq> AUTO_LIVE \<and> quote_valid q
     \<and> (case quoted_price q of None \<Rightarrow> False | Some p \<Rightarrow> ftrue p \<and> fle p (tr_hard_stop (lt_core t)))"

definition evaluate_strategy_e :: "desk \<Rightarrow> market_features \<Rightarrow> cycle_input \<Rightarrow> work \<Rightarrow> unit act" where
  "evaluate_strategy_e d f ci w0 =
     (let q = ci_quote ci; w = upd (mark_e_option q) w0; t = wk_trade w;
          status = (\<lambda>s. save_trade (upd (\<lambda>t. t\<lparr>lt_option_data_status := s\<rparr>) w)) in
      if given (lt_pending_exit_reason t) then
        (if \<not> quote_valid q then (save_trade w, Inr ()) else decided_exit d f q (lt_pending_exit_reason t) id w)
      else case e_underlying d ci t of
        None \<Rightarrow> (status ''AWAITING_STRATEGY_E_UNDERLYING'', Inr ())
      | Some u \<Rightarrow>
          if fle (fst u) (Fin 0) then (status ''AWAITING_STRATEGY_E_UNDERLYING'', Inr ())
          else if fle (e_entry t) (Fin 0) \<or> fle (e_risk t) (Fin 0) \<or> fle (e_stop t) (Fin 0) \<or> fle (e_target t) (Fin 0)
          then (status ''INVALID_STRATEGY_E_LIFECYCLE'', Inr ())
          else
            (let w1 = upd (mark_e q (fst u)) w in
             case e_lifecycle d ci t u of
               Inl e \<Rightarrow> (w1, Inl e)
             | Inr dec \<Rightarrow>
                 (let decided = (\<lambda>reason price.
                      let w2 = call (Decision ''EXIT'' ''Strategy E exit decided'')
                             (upd (e_exit_decided reason (snd u) price) w1)
                      in if \<not> quote_valid q then (save_trade w2, Inr ())
                         else decided_exit d f q (Some reason) id w2) in
                  case fst dec of
                    Some reason \<Rightarrow> decided [Txt reason] (snd dec)
                  | None \<Rightarrow> if e_emergency q (wk_trade w1) then decided OPTION_EMERGENCY_STOP (fst u)
                      else (save_trade w1, Inr ()))))"

section \<open>Strategy B\<close>

text \<open>The LIVE exit of strategy B, and the submission the manual exit shares.\<close>

definition submit_exit_at ::
  "desk \<Rightarrow> pyfloat \<Rightarrow> message option \<Rightarrow> work \<Rightarrow> unit act" where
  "submit_exit_at d price reason w =
     (let t = wk_trade w in
      andthen (oms_create d (exit_intent d ''INST-NIFTY-AUTO-ENGINE'' DAY (quantity_of t - lt_exit_filled t) price t) w)
        (\<lambda>ord w1. (save_trade (upd (exit_submitted ord reason) w1), Inr ())))"

definition live_exit_b :: "desk \<Rightarrow> market_features \<Rightarrow> option_quote \<Rightarrow> message option \<Rightarrow> work \<Rightarrow> unit act" where
  "live_exit_b d f q reason w =
     (if tr_strategy (lt_core (wk_trade w)) = TREND_PULLBACK \<and> lt_selected_snapshot (wk_trade w) \<and> \<not> dk_live_orders_enabled d
      then (save_trade (upd (\<lambda>t. t\<lparr>lt_option_data_status := ''LIVE_TRADING_DISABLED''\<rparr>) w), Inr ())
      else if is_option_emergency_stop reason then (save_trade (upd emergency_owned w), Inr ())
      else andthen (cancel_live_protective_stop_for_exit d f w) (\<lambda>cleared w1.
        if \<not> cleared then (save_trade (upd (\<lambda>t. t\<lparr>lt_pending_exit_reason := reason\<rparr>) w1), Inr ())
        else if (case oq_bid q of None \<Rightarrow> True | Some b \<Rightarrow> \<not> ftrue b \<or> fle b (Fin 0))
        then (save_trade (upd (\<lambda>t. t\<lparr>lt_option_data_status := ''INVALID'', lt_quality_reasons :=
                (if ''missing bid'' \<in> set (lt_quality_reasons t) then lt_quality_reasons t
                 else lt_quality_reasons t @ [''missing bid''])\<rparr>) w1), Inr ())
        else submit_exit_at d (bid_less_slippage d q) reason w1))"

definition evaluate_strategy_b :: "desk \<Rightarrow> market_features \<Rightarrow> cycle_input \<Rightarrow> work \<Rightarrow> unit act" where
  "evaluate_strategy_b d f ci w =
     (let q = ci_quote ci; t = wk_trade w in
      if oq_status q \<noteq> ''VALID'' \<or> positive_price q = None then (save_trade w, Inr ())
      else case update_position (ci_manager ci) (positive_price q) f (Some (mf_timestamp f)) (dk_now d 7) (lt_core t) of
        (c, v) \<Rightarrow>
         (let w1 = upd_core (\<lambda>_. c) w;
              signal = (case v of Signal m \<Rightarrow> Some m | _ \<Rightarrow> None);
              reason = or_reason (lt_pending_exit_reason t) signal in
          case v of
            Raised e \<Rightarrow> (w1, Inl e)
          | _ \<Rightarrow>
              if signal = Some [Txt ''T1_PARTIAL_EXIT''] then partial_exit_decided d f q w1
              else if signal = Some [Txt ''T1_REACHED_NO_PARTIAL_ONE_LOT'']
              then (save_trade (if tr_strategy c = TREND_PULLBACK
                      then call (Lifecycle ''T1_REACHED_NO_PARTIAL_ONE_LOT'' signal) w1 else w1), Inr ())
              else if \<not> given reason then (save_trade w1, Inr ())
              else if lt_mode t = AUTO_LIVE then live_exit_b d f q reason w1
              else (case oq_bid q of
                  None \<Rightarrow> (w1, Inl (ValueError ''float() argument must be a string or a real number''))
                | Some _ \<Rightarrow> (close_trade d 2 f (bid_less_slippage d q) reason (Some q) w1, Inr ()))))"

section \<open>One cycle\<close>

definition strategy_phase :: "desk \<Rightarrow> market_features \<Rightarrow> cycle_input \<Rightarrow> work \<Rightarrow> unit act" where
  "strategy_phase d f ci w0 =
     (let w = upd (apply_quote_to_trade (ci_quote ci)) w0 in
      case tr_strategy (lt_core (wk_trade w)) of
        TREND_PULLBACK \<Rightarrow> evaluate_strategy_a d f ci w
      | DI_CONTINUATION \<Rightarrow> evaluate_candidate d f ci w
      | SR_MOMENTUM_BREAKOUT \<Rightarrow> evaluate_candidate d f ci w
      | PIVOT_VWAP_SCALP \<Rightarrow> evaluate_strategy_e d f ci w
      | VOLATILITY_BREAKOUT \<Rightarrow> evaluate_strategy_b d f ci w)"

text \<open>The protective stop and the partial exit are reconciled before anything else.\<close>

definition protection_phase :: "desk \<Rightarrow> market_features \<Rightarrow> work \<Rightarrow> bool act" where
  "protection_phase d f w =
     (if lt_mode (wk_trade w) = AUTO_LIVE \<and> lt_filled_quantity (wk_trade w) > 0
      then andthen (sync_live_protective_stop d f w) (\<lambda>ready w1.
             (w1, Inr (ready \<and> tr_state (lt_core (wk_trade w1)) \<noteq> CLOSED)))
      else (w, Inr True))"

definition partial_exit_phase :: "desk \<Rightarrow> market_features \<Rightarrow> work \<Rightarrow> bool act" where
  "partial_exit_phase d f w =
     (if lt_mode (wk_trade w) = AUTO_LIVE \<and> lt_partial_order_id (wk_trade w) \<noteq> None
      then andthen (sync_live_t1_partial_exit d f w) (\<lambda>ready w1.
             (w1, Inr (ready \<and> tr_state (lt_core (wk_trade w1)) \<noteq> CLOSED)))
      else (w, Inr True))"

definition usable_features :: "live_trade \<Rightarrow> market_features \<Rightarrow> market_features" where
  "usable_features t f = (if fle (mf_spot_price f) (Fin 0)
     then f\<lparr>mf_spot_price := tr_current_spot_price (lt_core t), mf_closed_5m_time := None, mf_closed_5m_price := None\<rparr> else f)"

definition go_on :: "bool act \<Rightarrow> (work \<Rightarrow> unit act) \<Rightarrow> unit act" where
  "go_on m f = andthen m (\<lambda>ready w. if ready then f w else (w, Inr ()))"

definition evaluate_active_trade :: "desk \<Rightarrow> cycle_input \<Rightarrow> work \<Rightarrow> unit act" where
  "evaluate_active_trade d ci0 w =
     (let f = usable_features (wk_trade w) (ci_features ci0); ci = ci0\<lparr>ci_features := f\<rparr> in
      go_on (entry_phase d w) (\<lambda>w1.
      go_on (protection_phase d f w1) (\<lambda>w2.
      go_on (partial_exit_phase d f w2) (\<lambda>w3.
      go_on (exit_order_phase d ci w3) (\<lambda>w4.
        strategy_phase d f ci w4)))))"

text \<open>The trade of a cycle is read from the table.\<close>

definition load_trade :: "string \<Rightarrow> work \<Rightarrow> work option" where
  "load_trade tid w =
     (case row_get lt_trade_id tid (wk_rows w) of
        Some t \<Rightarrow> if tr_state (lt_core t) = CLOSED then None else Some (w\<lparr>wk_trade := t\<rparr>)
      | None \<Rightarrow> None)"

definition manage_trade :: "desk \<Rightarrow> cycle_input \<Rightarrow> string \<Rightarrow> work \<Rightarrow> unit act" where
  "manage_trade d ci tid w = (case load_trade tid w of None \<Rightarrow> (w, Inr ()) | Some w1 \<Rightarrow> evaluate_active_trade d ci w1)"

section \<open>The manual exit\<close>

definition legacy_record :: "live_trade \<Rightarrow> bool" where
  "legacy_record t \<longleftrightarrow> lt_mode t = AUTO_PAPER \<and> \<not> lt_selected_snapshot t \<and> str_or (lt_signal_id t) None = None"

definition manual_exit_trade :: "desk \<Rightarrow> cycle_input \<Rightarrow> string \<Rightarrow> message \<Rightarrow> work \<Rightarrow> unit act" where
  "manual_exit_trade d ci tid reason w0 =
     (case load_trade tid w0 of
        None \<Rightarrow> (w0, Inr ())
      | Some w1 \<Rightarrow>
         (let q = ci_quote ci; f = ci_features ci; w = upd (apply_quote_to_trade q) w1; t = wk_trade w;
              price = opt_or (tr_current_option_price (lt_core t)) (Fin 0) in
          if \<not> quote_valid q then
            (if legacy_record t
             then (close_trade d 2 f price (Some reason)
                (Some (protective_quote (Some price)\<lparr>oq_source := Some ''LEGACY_MANUAL_RECORD''\<rparr>)) w, Inr ())
             else (save_trade w, Inr ()))
          else if lt_mode t \<in> {AUTO_PAPER, AUTO_SHADOW}
          then (close_trade d 2 f (bid_less_slippage d q) (Some reason) (Some q) w, Inr ())
          else andthen (cancel_live_protective_stop_for_exit d f w) (\<lambda>cleared w2.
            if \<not> cleared then (save_trade (upd (\<lambda>t. t\<lparr>lt_pending_exit_reason := Some reason\<rparr>) w2), Inr ())
            else submit_exit_at d (bid_less_slippage d q) (Some reason) w2)))"

end
