(* ===== verification/EntryCycle.thy ===== *)
theory EntryCycle imports TradeManagement ContractSelection begin

text \<open>
  One evaluation cycle of the strategy service, \<^verbatim>\<open>services/strategy/service.py\<close>: the open trades are
  managed, then the entry gates are passed in the order of the code, a signal is chosen, sized and
  entered.  With it the shared gates of \<^verbatim>\<open>risk_gates.py\<close>, the execution policy of
  \<^verbatim>\<open>execution_policy.py\<close> and the adapters of \<^verbatim>\<open>strategies/candidate_runtime.py\<close>.  What the strategies
  A, B and E answer and the market data are inputs of the cycle; a call to them is logged.
\<close>

section \<open>Risk gates\<close>

datatype gate_value = GInt int | GReal pyfloat | GText string | GTexts "string list" | GNone

type_synonym details = "(string \<times> gate_value) list"

record risk_gate =
  rg_allowed :: bool
  rg_status :: string
  rg_details :: "details option"

definition gate_passed :: risk_gate where
  "gate_passed = \<lparr>rg_allowed = True, rg_status = ''READY'', rg_details = None\<rparr>"

definition blocked :: "string \<Rightarrow> details \<Rightarrow> risk_gate" where
  "blocked status ds = \<lparr>rg_allowed = False, rg_status = status, rg_details = Some ds\<rparr>"

definition as_result :: "risk_gate \<Rightarrow> string \<times> details" where
  "as_result g = (rg_status g, case rg_details g of None \<Rightarrow> [] | Some ds \<Rightarrow> ds)"

definition check_position_capacity :: "risk_limits \<Rightarrow> int \<Rightarrow> risk_gate" where
  "check_position_capacity risk active_count =
     (if active_count \<ge> rk_max_concurrent_positions risk
      then blocked ''MAX_CONCURRENT_POSITIONS_REACHED''
        [(''active_count'', GInt active_count), (''max_concurrent_positions'', GInt (rk_max_concurrent_positions risk))]
      else gate_passed)"

definition check_loss_cooldown :: "risk_limits \<Rightarrow> timestamp \<Rightarrow> timestamp option \<Rightarrow> risk_gate" where
  "check_loss_cooldown risk at_time last_loss =
     (case last_loss of None \<Rightarrow> gate_passed
      | Some t \<Rightarrow>
         (let elapsed = quot (total_seconds (at_time - t)) (Fin 60); cooldown = fint (rk_cooldown_after_loss_min risk) in
          if flt elapsed cooldown
          then blocked ''IN_LOSS_COOLDOWN'' [(''cooldown_remaining_min'', GReal (fround 1 (fsub cooldown elapsed)))]
          else gate_passed))"

definition check_daily_loss_limits :: "risk_limits \<Rightarrow> pyfloat \<Rightarrow> pyfloat option \<Rightarrow> pyfloat option \<Rightarrow> risk_gate" where
  "check_daily_loss_limits risk realized_r net_pnl account_equity =
     (let r_blocked = fle realized_r (fneg (rk_max_daily_loss_r risk));
          equity = (case account_equity of None \<Rightarrow> rk_account_equity risk | Some e \<Rightarrow> e);
          pnl_limit = quot (fmul equity (rk_max_daily_loss_pct risk)) (Fin 100);
          pnl_blocked = (case net_pnl of None \<Rightarrow> False | Some p \<Rightarrow> fle p (fneg pnl_limit)) in
      if r_blocked \<or> pnl_blocked
      then blocked ''DAILY_LOSS_LIMIT_REACHED''
        [(''reasons'', GTexts ((if r_blocked then [''MAX_DAILY_LOSS_R''] else [])
             @ (if pnl_blocked then [''MAX_DAILY_LOSS_PCT''] else []))),
          (''realized_r_total'', GReal (fround 4 realized_r)), (''max_daily_loss_r'', GReal (rk_max_daily_loss_r risk)),
          (''net_pnl_total'', case net_pnl of None \<Rightarrow> GNone | Some p \<Rightarrow> GReal (fround 2 p)),
          (''max_daily_loss_amount'', GReal (fround 2 pnl_limit))]
      else gate_passed)"

definition check_daily_trade_limit :: "risk_limits \<Rightarrow> int \<Rightarrow> int option \<Rightarrow> risk_gate" where
  "check_daily_trade_limit risk daily_count max_per_day =
     (let limit = (case max_per_day of None \<Rightarrow> rk_max_trades_per_day risk | Some n \<Rightarrow> n) in
      if daily_count \<ge> limit
      then blocked ''DAILY_TRADE_LIMIT_REACHED'' [(''today_trades'', GInt daily_count), (''max_trades_per_day'', GInt limit)]
      else gate_passed)"

definition check_strategy_trade_limits :: "risk_limits \<Rightarrow> int \<Rightarrow> int \<Rightarrow> risk_gate" where
  "check_strategy_trade_limits risk trades failed =
     (if trades \<ge> rk_max_trades_per_strategy_per_day risk
      then blocked ''STRATEGY_DAILY_TRADE_LIMIT_REACHED'' [(''strategy_trades'', GInt trades),
         (''max_trades_per_strategy_per_day'', GInt (rk_max_trades_per_strategy_per_day risk))]
      else if failed \<ge> rk_max_failed_trades_per_strategy risk
      then blocked ''STRATEGY_FAILURE_LIMIT_REACHED'' [(''strategy_failures'', GInt failed),
         (''max_failed_trades_per_strategy'', GInt (rk_max_failed_trades_per_strategy risk))]
      else gate_passed)"

section \<open>Execution policy\<close>

record execution_policy =
  xp_strategy :: strategy_name
  xp_call_mode :: auto_mode
  xp_put_mode :: auto_mode
  xp_live_trading_allowed :: bool
  xp_promotion_state :: string
  xp_live_block_reason :: string
  xp_force_entry_allowed :: bool

definition mode_for :: "option_right \<Rightarrow> execution_policy \<Rightarrow> auto_mode" where
  "mode_for right p = (if right = CALL then xp_call_mode p else xp_put_mode p)"

definition resolve_strategy_execution_policy :: "strategy_name \<Rightarrow> auto_mode \<Rightarrow> execution_policy" where
  "resolve_strategy_execution_policy s requested =
     \<lparr>xp_strategy = s, xp_call_mode = requested, xp_put_mode = requested, xp_live_trading_allowed = True,
      xp_promotion_state = ''LIVE_PROMOTED'', xp_live_block_reason = [],
      xp_force_entry_allowed = (s = VOLATILITY_BREAKOUT)\<rparr>"

section \<open>Signals\<close>

text \<open>The keys of \<^verbatim>\<open>features_snapshot\<close> that an entry reads.\<close>

record signal_snapshot =
  sp_signal_type :: "string option"
  sp_target_price :: "pyfloat option"
  sp_pullback_low :: "pyfloat option"
  sp_swing_low :: "pyfloat option"
  sp_pullback_high :: "pyfloat option"
  sp_swing_high :: "pyfloat option"
  sp_box_high :: "pyfloat option"
  sp_box_low :: "pyfloat option"
  sp_atr_at_lock :: "pyfloat option"
  sp_futures_contract :: "string option"

definition no_snapshot :: signal_snapshot where
  "no_snapshot = \<lparr>sp_signal_type = None, sp_target_price = None, sp_pullback_low = None, sp_swing_low = None,
     sp_pullback_high = None, sp_swing_high = None, sp_box_high = None, sp_box_low = None, sp_atr_at_lock = None,
     sp_futures_contract = None\<rparr>"

record strategy_signal =
  sg_signal_id :: string
  sg_strategy :: strategy_name
  sg_direction :: trade_direction
  sg_option_type :: option_right
  sg_timestamp :: timestamp
  sg_spot_reference_price :: pyfloat
  sg_underlying_entry_price :: "pyfloat option"
  sg_structural_stop :: pyfloat
  sg_r_points :: pyfloat
  sg_snapshot :: signal_snapshot

text \<open>The frozen candidates of strategies C and D; \<^verbatim>\<open>None\<close> is a missing or unusable value.\<close>

record c_candidate =
  cn_signal_id :: "string option"
  cn_lifecycle_status :: "string option"
  cn_entry_time :: "timestamp option"
  cn_direction :: string
  cn_entry_price :: "pyfloat option"
  cn_initial_stop :: "pyfloat option"

record d_payload =
  dp_timestamp :: "timestamp option"
  dp_direction :: string
  dp_option_type :: string
  dp_entry_price :: "pyfloat option"
  dp_initial_stop :: "pyfloat option"
  dp_risk_points :: "pyfloat option"

record d_status =
  ds_execution_signal :: "d_payload option"
  ds_execution_signal_id :: "string option"
  ds_active_execution :: "(string option \<times> d_payload option) option"
  ds_active_paper :: "(string option \<times> d_payload option) option"

definition is_fresh :: "timestamp \<Rightarrow> timestamp \<Rightarrow> bool" where
  "is_fresh t as_of = (let age = total_seconds (as_of - t) in fle (Fin (- 5)) age \<and> fle age (Fin 300))"

definition candidate_signal ::
  "strategy_name \<Rightarrow> string \<Rightarrow> trade_direction \<Rightarrow> option_right \<Rightarrow> timestamp \<Rightarrow> pyfloat \<Rightarrow> pyfloat \<Rightarrow> pyfloat \<Rightarrow> strategy_signal" where
  "candidate_signal s sid dir right t entry stop risk =
     \<lparr>sg_signal_id = sid, sg_strategy = s, sg_direction = dir, sg_option_type = right, sg_timestamp = t,
      sg_spot_reference_price = entry, sg_underlying_entry_price = Some entry, sg_structural_stop = stop,
      sg_r_points = risk, sg_snapshot = no_snapshot\<rparr>"

definition strategy_c_signal_from_status :: "c_candidate option \<Rightarrow> timestamp \<Rightarrow> strategy_signal option" where
  "strategy_c_signal_from_status status as_of =
     (case status of None \<Rightarrow> None
      | Some row \<Rightarrow>
          if cn_lifecycle_status row \<noteq> Some ''OPEN'' then None
          else (case (str_or (cn_signal_id row) None, cn_entry_time row, cn_entry_price row, cn_initial_stop row) of
             (Some sid, Some t, Some entry, Some stop) \<Rightarrow>
               (let risk = fabs (fsub entry stop); side = to_upper (cn_direction row); call = (side = ''CALL'') in
                if side \<notin> {''CALL'', ''PUT''} \<or> \<not> is_fresh t as_of then None
                else if fle entry (Fin 0) \<or> fle stop (Fin 0) \<or> fle risk (Fin 0) then None
                else Some (candidate_signal DI_CONTINUATION sid (if call then BULLISH else BEARISH)
                  (if call then CALL else PUT) t entry stop risk))
           | _ \<Rightarrow> None))"

text \<open>The payload a D signal is taken from, with its identifier.\<close>

definition d_source :: "d_status \<Rightarrow> (string option \<times> d_payload) option" where
  "d_source st =
     (case ds_execution_signal st of
        Some p \<Rightarrow> Some (ds_execution_signal_id st, p)
      | None \<Rightarrow>
          (case (case ds_active_execution st of Some x \<Rightarrow> Some x | None \<Rightarrow> ds_active_paper st) of
             Some (sid, Some p) \<Rightarrow> Some (sid, p) | _ \<Rightarrow> None))"

definition strategy_d_signal_from_status :: "d_status \<Rightarrow> timestamp \<Rightarrow> strategy_signal option" where
  "strategy_d_signal_from_status st as_of =
     (case d_source st of None \<Rightarrow> None
      | Some (sid0, p) \<Rightarrow>
          (case (str_or sid0 None, dp_timestamp p, dp_entry_price p, dp_initial_stop p) of
             (Some sid, Some t, Some entry, Some stop) \<Rightarrow>
               (let risk = opt_or (dp_risk_points p) (fabs (fsub entry stop)); bull = (dp_direction p = ''BULLISH'') in
                if \<not> is_fresh t as_of \<or> dp_direction p \<notin> {''BULLISH'', ''BEARISH''} \<or> dp_option_type p \<notin> {''CALL'', ''PUT''}
                then None
                else if fle entry (Fin 0) \<or> fle stop (Fin 0) \<or> fle risk (Fin 0) then None
                else if bull \<noteq> (dp_option_type p = ''CALL'') then None
                else Some (candidate_signal SR_MOMENTUM_BREAKOUT sid (if bull then BULLISH else BEARISH)
                  (if bull then CALL else PUT) t entry stop risk))
           | _ \<Rightarrow> None))"

section \<open>The engine\<close>

text \<open>The configuration, the status of the market data, and the inputs of a cycle.\<close>

record settings =
  se_mode :: auto_mode
  se_auto_trade_enabled :: bool
  se_kill_switch :: bool
  se_trend_pullback :: bool
  se_volatility_breakout :: bool
  se_di_continuation :: bool
  se_sr_momentum :: bool
  se_pivot_vwap :: bool
  se_e_entry_start :: string
  se_e_entry_end :: string
  se_e_lots :: int
  se_session :: session_timers
  se_tunables :: tunables
  se_selection :: selection_config
  se_bypass_entry_window :: bool
  se_premium_cap :: "pyfloat option"

record market_status =
  ms_feed_healthy :: bool
  ms_feed_reasons :: "string list"
  ms_a_fresh :: bool
  ms_b_fresh :: bool
  ms_e_fresh :: bool
  ms_option_ready :: bool
  ms_option_reason :: "string option"

record cycle =
  ey_now :: timestamp
  ey_b_clock :: timestamp
  ey_utc_offset :: int
  ey_settings :: settings
  ey_features :: market_features
  ey_data_ready :: bool
  ey_breakout_data_ready :: bool
  ey_data_reason :: string
  ey_futures_candles :: bool
  ey_e_candles :: bool
  ey_market :: market_status
  ey_c_candidate :: "c_candidate option"
  ey_d_status :: d_status
  ey_signal_a :: "strategy_signal option"
  ey_signal_b :: "strategy_signal option"
  ey_signal_e :: "strategy_signal option"
  ey_chain :: option_chain
  ey_chain_source :: "string option"
  ey_chain_rejection :: "string option"
  ey_trade_input :: "string \<Rightarrow> cycle_input"
  ey_trade_desk :: "string \<Rightarrow> desk"
  ey_desk :: desk

text \<open>The engine: the work of the desk and the table \<^verbatim>\<open>strategy_signals\<close> (identifier and time).\<close>

record engine =
  en_work :: work
  en_signals :: "(string \<times> timestamp) list"

definition on_work :: "(work \<Rightarrow> work) \<Rightarrow> engine \<Rightarrow> engine" where
  "on_work f g = g\<lparr>en_work := f (en_work g)\<rparr>"

type_synonym verdict_of_cycle = "exn + (string \<times> details)"

section \<open>Managing the open trades\<close>

definition open_trade :: "live_trade \<Rightarrow> bool" where
  "open_trade t \<longleftrightarrow> tr_state (lt_core t) \<noteq> CLOSED"

definition active_trades :: "work \<Rightarrow> live_trade list" where
  "active_trades w = sort_key (\<lambda>t. - tr_entry_time (lt_core t)) (filter open_trade (wk_rows w))"

definition refresh_cache :: "work \<Rightarrow> work" where
  "refresh_cache w = w\<lparr>wk_cache := map lt_trade_id (active_trades w)\<rparr>"

definition cached_trades :: "work \<Rightarrow> live_trade list" where
  "cached_trades w = filter (\<lambda>t. lt_trade_id t \<in> set (wk_cache w)) (wk_rows w)"

text \<open>The trades are read before the first is managed; an exception ends the cycle.\<close>

fun manage_trades :: "cycle \<Rightarrow> live_trade list \<Rightarrow> work \<Rightarrow> unit act" where
  "manage_trades y [] w = (w, Inr ())"
| "manage_trades y (t # ts) w =
     andthen (evaluate_active_trade (ey_trade_desk y (lt_trade_id t))
         ((ey_trade_input y (lt_trade_id t))\<lparr>ci_features := ey_features y\<rparr>) (w\<lparr>wk_trade := t\<rparr>))
       (\<lambda>_ w1. manage_trades y ts w1)"

definition manage_open :: "cycle \<Rightarrow> work \<Rightarrow> unit act" where
  "manage_open y w = andthen (manage_trades y (active_trades w) (refresh_cache w)) (\<lambda>_ w1. (refresh_cache w1, Inr ()))"

section \<open>The entry gates\<close>

text \<open>\<^verbatim>\<open>_reset_setups\<close> followed by \<^verbatim>\<open>_save_runtime\<close>\<close>

definition stand_down :: "timestamp \<Rightarrow> work \<Rightarrow> work" where
  "stand_down now w = call SaveRuntime (call (StrategyBReset now) (call (StrategyAReset now) w))"

definition data_available :: "cycle \<Rightarrow> bool" where
  "data_available y = (let s = ey_settings y in
     (se_trend_pullback s \<and> ey_futures_candles y) \<or> (se_pivot_vwap s \<and> ey_e_candles y)
     \<or> ey_data_ready y \<or> ey_breakout_data_ready y
     \<or> (se_di_continuation s \<and> ey_c_candidate y \<noteq> None)
     \<or> (se_sr_momentum s \<and> (ds_execution_signal (ey_d_status y) \<noteq> None \<or> ds_active_execution (ey_d_status y) \<noteq> None))
     \<or> (se_bypass_entry_window s \<and> flt (Fin 0) (mf_spot_price (ey_features y))))"

definition e_window :: "settings \<Rightarrow> timestamp \<Rightarrow> bool" where
  "e_window s now \<longleftrightarrow> text_le (se_e_entry_start s) (ist_hhmm now) \<and> text_le (ist_hhmm now) (se_e_entry_end s)"

definition entry_window :: "cycle \<Rightarrow> bool" where
  "entry_window y = (let s = ey_settings y;
       a = in_window (ey_now y) (tn_entry_session_start (se_tunables s)) (tn_entry_session_end (se_tunables s));
       b = in_window (ey_b_clock y) (st_no_new_trade_before (se_session s)) (st_no_new_trade_after (se_session s));
       e = e_window s (ey_now y);
       w = (if se_trend_pullback s \<and> \<not> se_volatility_breakout s then a
            else if se_volatility_breakout s \<and> \<not> se_trend_pullback s then b else a \<or> b)
     in if se_pivot_vwap s
        then (if \<not> se_trend_pullback s \<and> \<not> se_volatility_breakout s then e else w \<or> e) else w)"

text \<open>The trades entered on the day of the cycle, among the newest 1000.\<close>

definition trades_today :: "cycle \<Rightarrow> work \<Rightarrow> live_trade list" where
  "trades_today y w = filter (\<lambda>t. ist_date (tr_entry_time (lt_core t)) = ist_date (ey_now y))
     (newest (\<lambda>t. tr_entry_time (lt_core t)) 1000 (wk_rows w))"

definition net_of :: "live_trade \<Rightarrow> pyfloat option" where
  "net_of t = map_option cc_net_pnl (lt_costs t)"

definition lost :: "live_trade \<Rightarrow> bool" where
  "lost t \<longleftrightarrow> lt_exit_time t \<noteq> None \<and> flt (opt_or (net_of t) (Fin 0)) (Fin 0)"

definition daily_loss_gate :: "cycle \<Rightarrow> live_trade list \<Rightarrow> risk_gate" where
  "daily_loss_gate y today =
     (let r = dk_risk (ey_desk y) in
      check_daily_loss_limits r (py_sum (map (\<lambda>t. opt_or (lt_realized_r t) (Fin 0)) today))
        (Some (py_sum (map (\<lambda>t. opt_or (net_of t) (Fin 0)) today))) (Some (rk_account_equity r)))"

definition stored_cooldown_gate :: "cycle \<Rightarrow> live_trade list \<Rightarrow> risk_gate" where
  "stored_cooldown_gate y today =
     (case filter lost today of
        [] \<Rightarrow> gate_passed
      | ts \<Rightarrow> check_loss_cooldown (dk_risk (ey_desk y)) (ey_now y) (Some (Max (set (map (\<lambda>t. the (lt_exit_time t)) ts)))))"

text \<open>The gates before a signal is sought; \<open>None\<close> lets the cycle go on.\<close>

definition first_block :: "(bool \<times> (string \<times> details)) list \<Rightarrow> (string \<times> details) option" where
  "first_block gates = map_option snd (find fst gates)"

definition entry_block :: "cycle \<Rightarrow> work \<Rightarrow> (string \<times> details) option" where
  "entry_block y w =
     (let s = ey_settings y; r = dk_risk (ey_desk y); active = int (length (wk_cache w)); today = trades_today y w;
          gate = (\<lambda>g. (\<not> rg_allowed g, as_result g)) in
      first_block
        [(se_kill_switch s, (''HALTED_KILL_SWITCH'', [(''active_positions_managed'', GInt active)])),
         (\<not> data_available y, (''DATA_UNAVAILABLE'', [(''reason'', GText (ey_data_reason y))])),
         gate (check_position_capacity r active),
         (\<not> se_auto_trade_enabled s \<or> se_mode s = AUTO_DISABLED, (''AUTO_TRADE_DISABLED'', [])),
         (\<not> (entry_window y \<or> se_bypass_entry_window s), (''OUTSIDE_ENTRY_WINDOW'', [])),
         gate (check_loss_cooldown r (ey_now y) (wk_last_loss_exit w)),
         gate (daily_loss_gate y today),
         gate (stored_cooldown_gate y today),
         gate (check_daily_trade_limit r (int (length today)) None),
         (se_mode s = AUTO_LIVE \<and> \<not> wk_armed w, (''LIVE_SYSTEM_NOT_ARMED'', []))])"

section \<open>The signal\<close>

definition stored_signal :: "engine \<Rightarrow> string \<Rightarrow> bool" where
  "stored_signal g sid \<longleftrightarrow> sid \<noteq> [] \<and> sid \<in> fst ` set (newest snd 1000 (en_signals g))"

text \<open>A stored signal that already has a trade of the day is dropped.\<close>

definition dedupe :: "engine \<Rightarrow> live_trade list \<Rightarrow> strategy_signal \<Rightarrow> strategy_signal option \<times> bool" where
  "dedupe g today sg =
     (let sid = sg_signal_id sg; persisted = stored_signal g sid in
      (if persisted \<and> (\<exists>t \<in> set today. (case lt_signal_id t of None \<Rightarrow> [] | Some s \<Rightarrow> s) = sid) then None else Some sg, persisted))"

definition candidate_strategy :: "strategy_name \<Rightarrow> bool" where
  "candidate_strategy s \<longleftrightarrow> s \<in> {DI_CONTINUATION, SR_MOMENTUM_BREAKOUT}"

definition seek_a :: "cycle \<Rightarrow> work \<Rightarrow> strategy_signal option \<times> work" where
  "seek_a y w =
     (if \<not> se_trend_pullback (ey_settings y) then (None, w)
      else if ms_feed_healthy (ey_market y) \<and> ms_a_fresh (ey_market y)
      then (ey_signal_a y, call SaveRuntime (call (StrategyEvaluated TREND_PULLBACK) w))
      else (None, call SaveRuntime (call (StrategyAReset (ey_now y)) w)))"

definition seek_b :: "cycle \<Rightarrow> strategy_signal option \<times> work \<Rightarrow> strategy_signal option \<times> work" where
  "seek_b y sw =
     (let (sg, w) = sw; reset = call SaveRuntime (call (StrategyBReset (ey_now y)) w) in
      if \<not> se_volatility_breakout (ey_settings y) then (sg, reset)
      else if sg \<noteq> None then (sg, w)
      else if ms_feed_healthy (ey_market y) \<and> ms_b_fresh (ey_market y)
      then (ey_signal_b y, call SaveRuntime (call (StrategyEvaluated VOLATILITY_BREAKOUT) w))
      else (None, reset))"

definition seek_cd :: "cycle \<Rightarrow> strategy_signal option \<Rightarrow> strategy_signal option" where
  "seek_cd y sg =
     (let s = ey_settings y;
          c = (if sg = None \<and> se_di_continuation s then strategy_c_signal_from_status (ey_c_candidate y) (ey_now y) else sg)
      in if c = None \<and> se_sr_momentum s then strategy_d_signal_from_status (ey_d_status y) (ey_now y) else c)"

definition seek_e :: "cycle \<Rightarrow> engine \<Rightarrow> live_trade list \<Rightarrow> (strategy_signal option \<times> bool) \<times> work
    \<Rightarrow> (strategy_signal option \<times> bool) \<times> work" where
  "seek_e y g today sw =
     (let ((sg, persisted), w) = sw in
      if sg \<noteq> None \<or> \<not> se_pivot_vwap (ey_settings y) then sw
      else if \<not> (ms_feed_healthy (ey_market y) \<and> ms_e_fresh (ey_market y)) then ((None, False), w)
      else (case ey_signal_e y of
          None \<Rightarrow> (None, False)
        | Some e \<Rightarrow> if sg_strategy e = PIVOT_VWAP_SCALP then dedupe g today e else (Some e, False),
        call SaveRuntime (call (StrategyEvaluated PIVOT_VWAP_SCALP) w)))"

definition choose_signal :: "cycle \<Rightarrow> engine \<Rightarrow> live_trade list \<Rightarrow> (strategy_signal option \<times> bool) \<times> work" where
  "choose_signal y g today =
     (let (sb, w) = seek_b y (seek_a y (en_work g)); sc = seek_cd y sb;
          dd = (case sc of None \<Rightarrow> (None, False)
            | Some sg \<Rightarrow> if candidate_strategy (sg_strategy sg) \<or> sg_strategy sg = PIVOT_VWAP_SCALP
                then dedupe g today sg else (Some sg, False))
      in seek_e y g today (dd, w))"

definition no_signal_status :: "cycle \<Rightarrow> string" where
  "no_signal_status y = (let s = ey_settings y; m = ey_market y; ready = (\<lambda>fresh. ms_feed_healthy m \<and> fresh) in
     if se_trend_pullback s \<and> \<not> ready (ms_a_fresh m) \<or> se_volatility_breakout s \<and> \<not> ready (ms_b_fresh m)
       \<or> se_pivot_vwap s \<and> \<not> ready (ms_e_fresh m)
     then ''ENTRY_DATA_UNHEALTHY'' else ''NO_SIGNAL'')"

section \<open>Contract and size\<close>

definition real_source :: "string option \<Rightarrow> bool" where
  "real_source s \<longleftrightarrow> s \<in> {Some ''BREEZE'', Some ''KITE'', Some ''LIVE''}"

definition delta_aware :: "strategy_name \<Rightarrow> bool" where
  "delta_aware s \<longleftrightarrow> s \<in> {TREND_PULLBACK, DI_CONTINUATION}"

definition entry_reference :: "strategy_signal \<Rightarrow> pyfloat option" where
  "entry_reference sg = (if delta_aware (sg_strategy sg) then sg_underlying_entry_price sg else Some (sg_spot_reference_price sg))"

definition choose_contract :: "cycle \<Rightarrow> strategy_signal \<Rightarrow> pyfloat \<Rightarrow> exn + (selected_contract option \<times> string option)" where
  "choose_contract y sg entry =
     (case select_contract (se_selection (ey_settings y)) (dk_now (ey_desk y) 12) (ey_utc_offset y) (sg_direction sg)
             (Some entry) (ey_chain y) (se_premium_cap (ey_settings y)) None (Some (Aware (sg_timestamp sg)))
             (delta_aware (sg_strategy sg)) of
        Inl e \<Rightarrow> Inl e
      | Inr (contract, _, why) \<Rightarrow>
          if sg_strategy sg \<noteq> VOLATILITY_BREAKOUT \<and> \<not> real_source (ey_chain_source y)
          then Inr (None, Some (case ey_chain_rejection y of None \<Rightarrow> ''NO_REAL_OPTION_QUOTE'' | Some s \<Rightarrow> s))
          else Inr (contract, why))"

definition entry_size :: "cycle \<Rightarrow> strategy_signal \<Rightarrow> pyfloat \<Rightarrow> selected_contract \<Rightarrow> exn + (int \<times> int)" where
  "entry_size y sg entry c =
     (let r = dk_risk (ey_desk y) in
      if delta_aware (sg_strategy sg)
      then map_sum id (\<lambda>z. (re_lots z, re_quantity z))
        (size_trade r entry (sg_structural_stop sg) (sc_delta c) (sc_lot_size c) (sc_ask_price c) (Some (rk_account_equity r)) None)
      else map_sum id (\<lambda>(lots, q). if sg_strategy sg = PIVOT_VWAP_SCALP
            then (min lots (se_e_lots (ey_settings y)), min lots (se_e_lots (ey_settings y)) * sc_lot_size c) else (lots, q))
        (calculate_position_size r (sc_ask_price c) (rk_account_equity r) (sc_lot_size c)))"

section \<open>The new trade\<close>

definition no_stop :: stop_watch where
  "no_stop = \<lparr>st_order_id = None, st_status = ''NOT_REQUIRED'', st_trigger_price = None, st_limit_price = None,
     st_filled_quantity = 0, st_filled_proceeds = Fin 0, st_cancel_for_exit = False, st_failures = 0,
     st_failure_reason = None, st_failure_at = None, st_cancel_attempts = 0, st_cancel_requested_at = None\<rparr>"

definition either_price :: "pyfloat option \<Rightarrow> pyfloat option \<Rightarrow> pyfloat option" where
  "either_price x y = (case x of Some v \<Rightarrow> if ftrue v then x else y | None \<Rightarrow> y)"

definition new_position :: "risk_limits \<Rightarrow> timestamp \<Rightarrow> bool \<Rightarrow> strategy_signal \<Rightarrow> pyfloat \<Rightarrow> selected_contract \<Rightarrow> pyfloat \<Rightarrow> int \<Rightarrow> int
    \<Rightarrow> active_trade" where
  "new_position r now live sg entry c price lots quantity = (let s = sg_snapshot sg in
     \<lparr>tr_strategy = sg_strategy sg, tr_direction = sg_direction sg, tr_quantity = quantity, tr_lot_size = sc_lot_size c,
      tr_lots = lots, tr_entry_time = now, tr_entry_option_price = price, tr_entry_spot_price = entry,
      tr_initial_structural_stop = sg_structural_stop sg, tr_initial_r_points = sg_r_points sg,
      tr_pullback_swing_low = either_price (sp_pullback_low s) (sp_swing_low s),
      tr_pullback_swing_high = either_price (sp_pullback_high s) (sp_swing_high s),
      tr_box_high = sp_box_high s, tr_box_low = sp_box_low s, tr_atr_at_lock = sp_atr_at_lock s,
      tr_inside_box_closes = 0, tr_highest_close = None, tr_lowest_close = None, tr_last_managed_bar = None,
      tr_current_option_price = Some (f_or (sc_ltp c) (sc_ask_price c)), tr_current_spot_price = entry,
      tr_trailing_stop = sg_structural_stop sg,
      tr_hard_stop = fround 2 (fmul price (fsub (Fin 1) (quot (rk_option_hard_stop_pct r) (Fin 100)))),
      tr_current_r = Fin 0, tr_peak_r = Fin 0, tr_mfe_points = Fin 0, tr_mae_points = Fin 0, tr_reversal_score = 0,
      tr_state = (if live then ENTRY_PENDING else OPEN_INITIAL_RISK), tr_unrealized_pnl = Fin 0,
      tr_underlying_entry_price = Some entry, tr_underlying_current_price = Some entry,
      tr_underlying_r = Some (sg_r_points sg), tr_initial_quantity = Some quantity, tr_remaining_quantity = Some quantity,
      tr_t1_reached = False, tr_t1_exit_quantity = 0, tr_t1_exit_pending = False, tr_t1_decision_price = None,
      tr_t1_decision_r = None, tr_t1_realized_r = None, tr_partial_filled = 0, tr_partial_price = None,
      tr_partial_raw_bid = None, tr_partial_slippage = None, tr_partial_time = None, tr_partial_reason = None\<rparr>)"

definition entry_price_of :: "risk_limits \<Rightarrow> auto_mode \<Rightarrow> selected_contract \<Rightarrow> pyfloat" where
  "entry_price_of r m c = fround 2 (fadd (sc_ask_price c)
     (if m = AUTO_PAPER \<or> m = AUTO_SHADOW then rk_paper_slippage_points r else Fin 0))"

definition new_trade ::
  "risk_limits \<Rightarrow> timestamp \<Rightarrow> auto_mode \<Rightarrow> strategy_signal \<Rightarrow> pyfloat \<Rightarrow> string option \<Rightarrow> selected_contract \<Rightarrow> int \<Rightarrow> int \<Rightarrow> live_trade" where
  "new_trade r now m sg entry source c lots quantity = (let price = entry_price_of r m c in
     \<lparr>lt_core = new_position r now (m = AUTO_LIVE) sg entry c price lots quantity,
      lt_trade_id = ''TRD-'' @ show_int (now div seconds 1), lt_mode = m,
      lt_contract_instrument_id = sc_instrument_id c, lt_contract_symbol = sc_symbol c, lt_entry_order_id = None,
      lt_exit_order_id = None, lt_filled_quantity = 0, lt_pending_exit_reason = None, lt_exit_filled = 0,
      lt_exit_proceeds = Fin 0, lt_exit_accounted = 0, lt_exit_accounted_proceeds = Fin 0, lt_stop = no_stop,
      lt_quote = Some \<lparr>oq_timestamp = Some now, oq_source = source, oq_freshness = Some (Fin 0), oq_bid = Some (sc_bid_price c),
        oq_ask = Some (sc_ask_price c), oq_ltp = Some (sc_ltp c), oq_volume = Some (sc_volume c),
        oq_open_interest = Some (sc_open_interest c), oq_status = [], oq_reason = None\<rparr>,
      lt_option_data_status = ''ENTRY_CAPTURED'', lt_quality_reasons = [], lt_entry_bid = Some (sc_bid_price c),
      lt_entry_ask = Some (sc_ask_price c), lt_entry_ltp = Some (sc_ltp c), lt_entry_raw_ask = Some (sc_ask_price c),
      lt_entry_executable_price = Some price, lt_exit_time = None, lt_exit_option_price = None, lt_exit_spot_price = None,
      lt_exit_reason = None, lt_costs = None, lt_realized_r = None, lt_runner_realized_r = None,
      lt_underlying_exit_reason = None, lt_underlying_exit_time = None, lt_underlying_exit_price = None,
      lt_underlying_outcome_status = None, lt_pending_underlying_exit_time = None, lt_option_exit_reason = None,
      lt_option_exit_time = None, lt_partial_proceeds = Fin 0, lt_partial_order_id = None, lt_partial_accounted = 0,
      lt_partial_accounted_proceeds = Fin 0, lt_final_exit_quantity = None, lt_execution_order_count = 0,
      lt_selected_snapshot = True, lt_signal_id = Some (sg_signal_id sg),
      lt_futures_contract_id = sp_futures_contract (sg_snapshot sg),
      lt_strategy_target_price = sp_target_price (sg_snapshot sg)\<rparr>)"

definition entry_intent :: "desk \<Rightarrow> selected_contract \<Rightarrow> live_trade \<Rightarrow> order_intent" where
  "entry_intent d c t =
     \<lparr>oi_intent_id = dk_intent_id d, oi_correlation_id = lt_trade_id t,
      oi_strategy_instance_id = Some ''INST-NIFTY-AUTO-ENGINE'', oi_source = STRATEGY,
      oi_instrument_id = sc_instrument_id c, oi_symbol = sc_symbol c, oi_side = BUY, oi_order_type = LIMIT,
      oi_quantity = quantity_of t, oi_price = sc_ask_price c, oi_trigger_price = None, oi_product = OPTIONS,
      oi_time_in_force = DAY, oi_trading_mode = LIVE, oi_reduce_only = False, oi_created_at = clock (dk_oms d) 9\<rparr>"

definition paper_entry :: "desk \<Rightarrow> timestamp \<Rightarrow> string option \<Rightarrow> live_trade \<Rightarrow> ledger_entry" where
  "paper_entry d now source t =
     \<lparr>le_ledger_id = dk_ledger_id d, le_trade_id = lt_trade_id t, le_side = BUY, le_timestamp = now,
      le_raw_bid = lt_entry_bid t, le_raw_ask = lt_entry_ask t, le_raw_ltp = lt_entry_ltp t,
      le_executable_price = tr_entry_option_price (lt_core t),
      le_slippage_points = (if lt_mode t = AUTO_PAPER \<or> lt_mode t = AUTO_SHADOW
        then rk_paper_slippage_points (dk_risk d) else Fin 0),
      le_quantity = quantity_of t, le_source = (case source of None \<Rightarrow> ''UNKNOWN'' | Some s \<Rightarrow> s),
      le_reason = Some [Txt ''PAPER_OR_SHADOW_ENTRY'']\<rparr>"

text \<open>A paper entry is filled at once; strategy A is told and both are recorded.\<close>

definition announce_entry :: "cycle \<Rightarrow> strategy_signal \<Rightarrow> live_trade \<Rightarrow> work \<Rightarrow> work" where
  "announce_entry y sg t w =
     (let a = (sg_strategy sg = TREND_PULLBACK); live = (lt_mode t = AUTO_LIVE);
          w1 = (if a then call (Lifecycle ''POSITION_SIZED'' None) w else w);
          w2 = (if a \<and> \<not> live then call SaveRuntime (call (StrategyAConfirm (sg_timestamp sg)) w1) else w1);
          w3 = (if live then w2 else record_execution (paper_entry (ey_desk y) (ey_now y) (ey_chain_source y) t) w2);
          w4 = (if a \<and> \<not> live then call (Lifecycle ''ENTRY_OPENED'' None) w3 else w3)
      in call (Decision ''ORDER'' ''ORDER ENTERED'') (w4\<lparr>wk_cache := wk_cache w4 @ [lt_trade_id t]\<rparr>))"

definition enter_trade :: "cycle \<Rightarrow> strategy_signal \<Rightarrow> pyfloat \<Rightarrow> selected_contract \<Rightarrow> auto_mode \<Rightarrow> int \<Rightarrow> int \<Rightarrow> work
    \<Rightarrow> (string \<times> details) act" where
  "enter_trade y sg entry c m lots quantity w =
     (let d = ey_desk y; t = new_trade (dk_risk d) (ey_now y) m sg entry (ey_chain_source y) c lots quantity;
          w1 = announce_entry y sg t (save_trade (w\<lparr>wk_trade := t\<rparr>));
          opened = (\<lambda>w. (call (TradeOpened (lt_trade_id t)) w, Inr (''TRADE_OPENED'', [(''trade'', GText (lt_trade_id t))]))) in
      if m \<noteq> AUTO_LIVE then opened w1
      else andthen (oms_create d (entry_intent d c t) w1) (\<lambda>ord w2.
        opened (save_trade (upd (\<lambda>t. t\<lparr>lt_entry_order_id := Some (bo_order_id ord),
          lt_core := (lt_core t)\<lparr>tr_state := ENTRY_PENDING\<rparr>\<rparr>) w2))))"

section \<open>From the signal to the trade\<close>

text \<open>\<^verbatim>\<open>_reject_strategy_a_execution\<close>\<close>

definition reject_execution :: "strategy_signal \<Rightarrow> string \<Rightarrow> work \<Rightarrow> work" where
  "reject_execution sg reason w =
     (if sg_strategy sg \<noteq> TREND_PULLBACK then w else call SaveRuntime (call (StrategyARejected (sg_timestamp sg) reason) w))"

definition reasoned :: "string \<Rightarrow> string option \<Rightarrow> string \<times> details" where
  "reasoned status why = (status, [(''reason'', case why of None \<Rightarrow> GNone | Some s \<Rightarrow> GText s)])"

definition sized_entry :: "cycle \<Rightarrow> strategy_signal \<Rightarrow> auto_mode \<Rightarrow> pyfloat \<Rightarrow> selected_contract \<Rightarrow> work \<Rightarrow> (string \<times> details) act" where
  "sized_entry y sg m entry c w =
     (case entry_size y sg entry c of
        Inl e \<Rightarrow> (w, Inl e)
      | Inr (lots, quantity) \<Rightarrow>
          if lots < 1
          then (reject_execution sg ''EXECUTION_REJECTED_SIZING''
                 (call (Decision ''RISK'' ''Position sizing rejected: calculated lots < 1'') w),
                Inr (''INSUFFICIENT_CAPITAL_OR_RISK_BUDGET'', []))
          else if m = AUTO_LIVE \<and> \<not> dk_live_orders_enabled (ey_desk y) then (w, Inr (''LIVE_TRADING_DISABLED'', []))
          else if m = AUTO_LIVE \<and> \<not> wk_armed w
          then (call (Decision ''SECURITY'' ''LIVE order execution blocked: System is not ARMED'') w, Inr (''LIVE_SYSTEM_NOT_ARMED'', []))
          else enter_trade y sg entry c m lots quantity w)"

definition signal_mode :: "cycle \<Rightarrow> strategy_signal \<Rightarrow> auto_mode" where
  "signal_mode y sg = mode_for (sg_option_type sg) (resolve_strategy_execution_policy (sg_strategy sg) (se_mode (ey_settings y)))"

definition execute_signal :: "cycle \<Rightarrow> strategy_signal \<Rightarrow> work \<Rightarrow> (string \<times> details) act" where
  "execute_signal y sg w =
     (let m = signal_mode y sg; ms = ey_market y; a = (sg_strategy sg = TREND_PULLBACK) in
      if delta_aware (sg_strategy sg) \<and> m = AUTO_LIVE \<and> \<not> ms_option_ready ms
      then (let why = (case str_or (ms_option_reason ms) None of None \<Rightarrow> ''VERIFIED_OPTION_DELTA_UNAVAILABLE'' | Some s \<Rightarrow> s)
        in (reject_execution sg (''EXECUTION_REJECTED_OPTION_READINESS:'' @ why)
              (call (Decision ''RISK'' ''Delta-aware LIVE entry blocked'') w),
            Inr (reasoned (if a then ''STRATEGY_A_OPTION_EXECUTION_BLOCKED'' else ''DELTA_AWARE_OPTION_EXECUTION_BLOCKED'') (Some why))))
      else (case entry_reference sg of
          None \<Rightarrow> (reject_execution sg ''EXECUTION_REJECTED_INVALID_ENTRY_REFERENCE''
              (call (Decision ''RISK'' ''Structural-risk strategy signal missing authoritative underlying entry'') w),
            Inr (''INVALID_UNDERLYING_ENTRY_REFERENCE'', []))
        | Some entry \<Rightarrow>
            (case choose_contract y sg entry of
               Inl e \<Rightarrow> (w, Inl e)
             | Inr (None, why) \<Rightarrow> (reject_execution sg ''EXECUTION_REJECTED_CONTRACT_SELECTION''
                 (call (Decision ''CONTRACT_SELECTION'' ''Contract selection failed'') w),
                Inr (reasoned ''CONTRACT_SELECTION_FAILED'' why))
             | Inr (Some c, _) \<Rightarrow> sized_entry y sg m entry c (call (Decision ''CONTRACT_SELECTION'' ''Selected'') w))))"

definition strategy_gate :: "cycle \<Rightarrow> live_trade list \<Rightarrow> strategy_name \<Rightarrow> risk_gate" where
  "strategy_gate y today s = check_strategy_trade_limits (dk_risk (ey_desk y))
     (int (length (filter (\<lambda>t. tr_strategy (lt_core t) = s) today)))
     (int (length (filter (\<lambda>t. tr_strategy (lt_core t) = s \<and> lost t) today)))"

definition store_signal :: "strategy_signal \<Rightarrow> bool \<Rightarrow> engine \<Rightarrow> engine" where
  "store_signal sg persisted g =
     (if persisted then g
      else on_work (call (Decision ''SETUP'' ''Setup Triggered''))
        (g\<lparr>en_signals := row_upsert fst (\<lambda>old new. new) (sg_signal_id sg, sg_timestamp sg) (en_signals g)\<rparr>))"

text \<open>The entry part of a cycle whose gates have let it pass.\<close>

definition seek_entry :: "cycle \<Rightarrow> engine \<Rightarrow> engine \<times> verdict_of_cycle" where
  "seek_entry y g =
     (let today = trades_today y (en_work g); ((sg0, persisted), w) = choose_signal y g today; g1 = g\<lparr>en_work := w\<rparr> in
      case sg0 of None \<Rightarrow> (g1, Inr (no_signal_status y, []))
      | Some sg \<Rightarrow>
          if sg_strategy sg = PIVOT_VWAP_SCALP \<and> (\<exists>t \<in> set (cached_trades w). tr_strategy (lt_core t) = PIVOT_VWAP_SCALP)
          then (g1, Inr (''STRATEGY_E_POSITION_ALREADY_OPEN'', []))
          else if \<not> rg_allowed (strategy_gate y today (sg_strategy sg))
          then (g1, Inr (as_result (strategy_gate y today (sg_strategy sg))))
          else (let g2 = store_signal sg persisted g1 in
            case execute_signal y sg (en_work g2) of (w2, r) \<Rightarrow> (g2\<lparr>en_work := w2\<rparr>, r)))"

text \<open>LIVE authority is revoked when the broker or its feed is not healthy.\<close>

definition health_lost :: "cycle \<Rightarrow> work \<Rightarrow> bool" where
  "health_lost y w \<longleftrightarrow> se_mode (ey_settings y) = AUTO_LIVE \<and> wk_armed w \<and> \<not> ms_feed_healthy (ey_market y)"

definition disarm :: "cycle \<Rightarrow> work \<Rightarrow> work" where
  "disarm y w = call (Decision ''SECURITY'' ''LIVE system auto-disarmed after broker/feed health loss'')
     (stand_down (ey_now y) (call SaveConfig (w\<lparr>wk_armed := False\<rparr>)))"

definition entry_stage :: "cycle \<Rightarrow> engine \<Rightarrow> engine \<times> verdict_of_cycle" where
  "entry_stage y g =
     (let w = en_work g in
      if health_lost y w
      then (g\<lparr>en_work := disarm y w\<rparr>, Inr (''LIVE_RUNTIME_HEALTH_AUTO_DISARMED'',
        [(''reasons'', GTexts (ms_feed_reasons (ey_market y))), (''active_positions_managed'', GInt (int (length (wk_cache w))))]))
      else (case entry_block y w of
          Some r \<Rightarrow> (g\<lparr>en_work := stand_down (ey_now y) w\<rparr>, Inr r)
        | None \<Rightarrow> seek_entry y g))"

definition evaluate_cycle :: "cycle \<Rightarrow> engine \<Rightarrow> engine \<times> verdict_of_cycle" where
  "evaluate_cycle y g =
     (case manage_open y (en_work g) of
        (w, Inl e) \<Rightarrow> (g\<lparr>en_work := w\<rparr>, Inl e)
      | (w, Inr _) \<Rightarrow> entry_stage y (g\<lparr>en_work := w\<rparr>))"

end
