(* ===== verification/TradeSafety.thy ===== *)
theory TradeSafety imports TradeManagement begin

text \<open>
  One sale at a time: over any run of management cycles, with the OMS running on in between, a trade
  never has two live SELL orders.  The contract of the order book the strategy service relies on is
  the locale \<open>sale_book\<close>; the OMS database provides it.
\<close>

section \<open>The contract of the order book\<close>

text \<open>The sales of a trade that can still fill are known to it, and it knows of one order at most.\<close>

definition owned :: "string set \<Rightarrow> string list \<Rightarrow> bool" where
  "owned live refs \<longleftrightarrow> live \<subseteq> set refs \<and> length refs \<le> 1"

locale sale_book =
  fixes live :: "string \<Rightarrow> 'db \<Rightarrow> string set"
    and over :: "'db \<Rightarrow> string \<Rightarrow> bool"
    and opens :: "string \<Rightarrow> string \<Rightarrow> 'db \<Rightarrow> 'db \<Rightarrow> bool"
    and other :: "string list \<Rightarrow> 'db \<Rightarrow> 'db \<Rightarrow> bool"
  assumes over_not_live: "over db oid \<Longrightarrow> oid \<notin> live k db"
    and opens_live: "opens k oid db db' \<Longrightarrow> live k db' \<subseteq> insert oid (live k db)"
    and opens_frame: "opens k oid db db' \<Longrightarrow> k' \<noteq> k \<Longrightarrow> live k' db' \<subseteq> live k' db"
    and other_live: "other ks db db' \<Longrightarrow> k \<in> set ks \<Longrightarrow> live k db' \<subseteq> live k db"
begin

lemma released: "owned (live k db) refs \<Longrightarrow> oid \<in> set refs \<Longrightarrow> over db oid \<Longrightarrow> live k db = {}"
  using over_not_live by (cases refs) (fastforce simp: owned_def)+

lemma placed: "live k db = {} \<Longrightarrow> opens k oid db db' \<Longrightarrow> owned (live k db') [oid]"
  using opens_live by (fastforce simp: owned_def)

lemma undisturbed: "owned (live k db) refs \<Longrightarrow> opens k' oid db db' \<Longrightarrow> k \<noteq> k' \<Longrightarrow> owned (live k db') refs"
  using opens_frame by (fastforce simp: owned_def)

lemma survives: "owned (live k db) refs \<Longrightarrow> other ks db db' \<Longrightarrow> k \<in> set ks \<Longrightarrow> owned (live k db') refs"
  using other_live by (fastforce simp: owned_def)

end

section \<open>The OMS as the order book\<close>

definition sale_of :: "string \<Rightarrow> oms_db \<Rightarrow> broker_order \<Rightarrow> bool" where
  "sale_of tid db ord \<longleftrightarrow> bo_side ord = SELL
     \<and> map_option oi_correlation_id (row_get oi_intent_id (bo_intent_id ord) (od_intents db)) = Some tid"

text \<open>The SELL orders of a trade that are not final.\<close>

definition working_sales :: "string \<Rightarrow> oms_db \<Rightarrow> broker_order list" where
  "working_sales tid db = filter (\<lambda>ord. sale_of tid db ord \<and> \<not> terminal (bo_status ord)) (od_orders db)"

definition live_sales :: "string \<Rightarrow> oms_db \<Rightarrow> string set" where
  "live_sales tid db = bo_order_id ` set (working_sales tid db)"

definition order_over :: "oms_db \<Rightarrow> string \<Rightarrow> bool" where
  "order_over db oid \<longleftrightarrow> oms_inv db \<and> (\<exists>ord. get_order_by_id oid db = Some ord \<and> terminal (bo_status ord))"

lemma in_live_sales:
  "oid \<in> live_sales tid db \<longleftrightarrow> (\<exists>ord \<in> set (od_orders db). bo_order_id ord = oid \<and> sale_of tid db ord \<and> \<not> terminal (bo_status ord))"
  by (auto simp: live_sales_def working_sales_def)

lemma intent_found:
  assumes "oms_inv db" "ord \<in> set (od_orders db)"
  obtains i where "row_get oi_intent_id (bo_intent_id ord) (od_intents db) = Some i"
proof -
  have "bo_intent_id ord \<in> oi_intent_id ` set (od_intents db)" using assms by (simp add: oms_inv_def)
  then show ?thesis using that by (cases "row_get oi_intent_id (bo_intent_id ord) (od_intents db)") (auto simp: row_get_None_iff)
qed

text \<open>An order of the new database that the old one has comes from a live one, if it is live.\<close>

lemma live_before:
  assumes inv: "oms_inv db" "oms_inv db'" "oms_le db db'"
    and intents: "\<And>i x. row_get oi_intent_id i (od_intents db) = Some x \<Longrightarrow>
        map_option oi_correlation_id (row_get oi_intent_id i (od_intents db')) = Some (oi_correlation_id x)"
    and o: "ord \<in> set (od_orders db')" "sale_of tid db' ord" "\<not> terminal (bo_status ord)"
    and old: "get_order_by_id (bo_order_id ord) db \<noteq> None"
  shows "bo_order_id ord \<in> live_sales tid db"
proof -
  obtain a where a: "get_order_by_id (bo_order_id ord) db = Some a" using old by auto
  then obtain b where b: "get_order_by_id (bo_order_id ord) db' = Some b" "order_succ a b"
    using inv(3) by (auto simp: oms_le_def)
  have "b = ord" using b(1) oms_inv_get[OF inv(2) o(1)] by simp
  have am: "a \<in> set (od_orders db)" "bo_order_id a = bo_order_id ord"
    using a row_get_Some[of bo_order_id] by (auto simp: get_order_by_id_def)
  obtain i where i: "row_get oi_intent_id (bo_intent_id a) (od_intents db) = Some i" by (rule intent_found[OF inv(1) am(1)])
  have "sale_of tid db a" using o(2) intents[OF i] b(2) i \<open>b = ord\<close> by (auto simp: sale_of_def order_succ_def)
  moreover have "\<not> terminal (bo_status a)"
    using terminal_reach[of "bo_status a" "bo_status ord"] b(2) o(3) \<open>b = ord\<close> by (auto simp: order_succ_def)
  ultimately show ?thesis using am by (auto simp: in_live_sales)
qed

text \<open>What creating an order does to the intents and orders.\<close>

lemma save_intent_intents:
  assumes "save_order_intent env i intent tp db = Inr db'"
  shows "row_get oi_intent_id k (od_intents db') =
    (if k = oi_intent_id intent then Some (intent\<lparr>oi_trigger_price := sql_real_opt (oi_trigger_price intent)\<rparr>)
     else row_get oi_intent_id k (od_intents db))"
    and "row_get oi_intent_id (oi_intent_id intent) (od_intents db) = None" "od_orders db' = od_orders db"
proof -
  let ?i = "intent\<lparr>oi_trigger_price := sql_real_opt (oi_trigger_price intent)\<rparr>"
  obtain intents where ins: "row_insert oi_intent_id ?i (od_intents db) = Some intents" "od_intents db' = intents"
    and o: "od_orders db' = od_orders db"
    using assms by (auto simp: save_order_intent_def split: if_splits option.splits)
  show "row_get oi_intent_id k (od_intents db') = (if k = oi_intent_id intent then Some ?i else row_get oi_intent_id k (od_intents db))"
    using intent_table.get_insert[OF ins(1)] ins(2) by simp
  show "row_get oi_intent_id (oi_intent_id intent) (od_intents db) = None"
    using ins(1) by (auto simp: row_insert_def split: if_splits)
  show "od_orders db' = od_orders db" by (rule o)
qed

lemma create_effect:
  fixes env :: env and intent :: order_intent and db :: oms_db
  assumes "get_order_by_id (uuid env 1) db = None"
  defines "db' \<equiv> oc_state (snd (create_order_intent env intent db))"
  shows "oid \<noteq> uuid env 1 \<Longrightarrow> get_order_by_id oid db' = get_order_by_id oid db"
    and "get_order_by_id (uuid env 1) db' = Some ord \<Longrightarrow> bo_intent_id ord = oi_intent_id intent \<and> bo_side ord = oi_side intent
      \<and> map_option oi_correlation_id (row_get oi_intent_id (oi_intent_id intent) (od_intents db')) = Some (oi_correlation_id intent)"
    and "row_get oi_intent_id k (od_intents db) = Some x \<Longrightarrow> row_get oi_intent_id k (od_intents db') = Some x"
proof -
  have "(oid \<noteq> uuid env 1 \<longrightarrow> get_order_by_id oid db' = get_order_by_id oid db)
    \<and> (get_order_by_id (uuid env 1) db' = Some ord \<longrightarrow> bo_intent_id ord = oi_intent_id intent \<and> bo_side ord = oi_side intent
      \<and> map_option oi_correlation_id (row_get oi_intent_id (oi_intent_id intent) (od_intents db')) = Some (oi_correlation_id intent))
    \<and> (row_get oi_intent_id k (od_intents db) = Some x \<longrightarrow> row_get oi_intent_id k (od_intents db') = Some x)"
  proof (cases "save_order_intent env 2 intent ORDER_INTENT db")
    case (Inl e)
    then show ?thesis using assms(1) by (simp add: db'_def create_order_intent_def Let_def validate_transition_def)
  next
    case (Inr db1)
    note i = save_intent_intents[OF Inr]
    have g1: "get_order_by_id z db1 = get_order_by_id z db" for z by (simp add: get_order_by_id_def i(3))
    let ?o = "initial_order env intent"
    have o: "bo_order_id ?o = uuid env 1" "bo_intent_id ?o = oi_intent_id intent" "bo_side ?o = oi_side intent"
      by (simp_all add: initial_order_def)
    have c: "can_transition CREATED VALIDATING" by (simp add: can_transition_def)
    show ?thesis
    proof (cases "save_broker_order_with_transition env 1 3 ?o None CREATED (Some [Txt ''Order intent created'']) (Some ORDER_STATE) db1")
      case (Inl e)
      then have "db' = db1" using Inr by (simp add: db'_def create_order_intent_def Let_def validate_transition_def)
      then show ?thesis using i g1 assms(1) by auto
    next
      case s2: (Inr db2)
      show ?thesis
      proof (cases "save_broker_order_with_transition env 2 4 (?o\<lparr>bo_status := VALIDATING\<rparr>) (Some CREATED) VALIDATING
          (Some [Txt ''Dispatched to Risk Service for evaluation'']) (Some ORDER_STATE) db2")
        case (Inl e)
        then have "db' = db2" using Inr s2 c by (simp add: db'_def create_order_intent_def Let_def validate_transition_def)
        then show ?thesis using i g1 assms(1) o save_orderD(4)[OF s2] by (auto simp: save_order_get[OF s2] order_row_def)
      next
        case s3: (Inr db3)
        then have "db' = db3" using Inr s2 c by (simp add: db'_def create_order_intent_def Let_def validate_transition_def)
        then show ?thesis using i g1 assms(1) o save_orderD(4)[OF s2] save_orderD(4)[OF s3]
          by (auto simp: save_order_get[OF s2] save_order_get[OF s3] order_row_def merge_order_def)
      qed
    qed
  qed
  then show "oid \<noteq> uuid env 1 \<Longrightarrow> get_order_by_id oid db' = get_order_by_id oid db"
    "get_order_by_id (uuid env 1) db' = Some ord \<Longrightarrow> bo_intent_id ord = oi_intent_id intent \<and> bo_side ord = oi_side intent
      \<and> map_option oi_correlation_id (row_get oi_intent_id (oi_intent_id intent) (od_intents db')) = Some (oi_correlation_id intent)"
    "row_get oi_intent_id k (od_intents db) = Some x \<Longrightarrow> row_get oi_intent_id k (od_intents db') = Some x"
    by auto
qed

lemma create_live_sales:
  assumes inv: "oms_inv db" and fresh: "get_order_by_id (uuid env 1) db = None"
  shows "live_sales tid (oc_state (snd (create_order_intent env intent db)))
    \<subseteq> live_sales tid db \<union> (if oi_correlation_id intent = tid \<and> oi_side intent = SELL then {uuid env 1} else {})"
proof
  let ?db = "oc_state (snd (create_order_intent env intent db))"
  fix oid assume "oid \<in> live_sales tid ?db"
  then obtain ord where o: "ord \<in> set (od_orders ?db)" "bo_order_id ord = oid" "sale_of tid ?db ord" "\<not> terminal (bo_status ord)"
    by (auto simp: in_live_sales)
  note inv' = create_order_intent_inv[OF inv fresh, of intent]
  have g: "get_order_by_id oid ?db = Some ord" using oms_inv_get[OF inv'(1) o(1)] o(2) by simp
  show "oid \<in> live_sales tid db \<union> (if oi_correlation_id intent = tid \<and> oi_side intent = SELL then {uuid env 1} else {})"
  proof (cases "oid = uuid env 1")
    case True
    then show ?thesis using create_effect(2)[OF fresh, of intent ord] g o(3) by (auto simp: sale_of_def)
  next
    case False
    then have "get_order_by_id (bo_order_id ord) db \<noteq> None" using create_effect(1)[OF fresh False] g o(2) by simp
    from live_before[OF inv inv'(1,2) _ o(1,3,4) this] create_effect(3)[OF fresh] o(2) show ?thesis by auto
  qed
qed

text \<open>With fresh identifiers a creation commits everything or nothing.\<close>

definition fresh_ids :: "env \<Rightarrow> oms_db \<Rightarrow> bool" where
  "fresh_ids env db \<longleftrightarrow> get_order_by_id (uuid env 1) db = None
     \<and> get_order_by_client_id (new_client_order_id (uuid env 0)) db = None
     \<and> list_all (\<lambda>n. row_get oe_event_id (uuid env n) (od_events db) = None) [3, 4]
     \<and> list_all (\<lambda>n. row_get ob_event_id (uuid env n) (od_outbox db) = None) [2, 3, 4]
     \<and> distinct [uuid env 2, uuid env 3, uuid env 4]"

lemma save_order_commits:
  assumes "order_constraints order db = None" "row_get oe_event_id (uuid env j) (od_events db) = None"
    "row_get ob_event_id (uuid env j) (od_outbox db) = None"
  shows "\<exists>db'. save_broker_order_with_transition env i j order f t r (Some tp) db = Inr db'
    \<and> od_events db' = od_events db @ [transition_event env i j f t r order]
    \<and> (\<exists>row. ob_event_id row = uuid env j \<and> od_outbox db' = od_outbox db @ [row])
    \<and> od_intents db' = od_intents db \<and> od_orders db' = row_upsert bo_order_id merge_order (order_row env i t order) (od_orders db)"
  using assms
  by (auto simp: save_broker_order_with_transition_def row_insert_def transition_event_def add_outbox_event_def Let_def)

lemma row_get_snoc: "row_get keyof k (rows @ [r]) = (case row_get keyof k rows of Some x \<Rightarrow> Some x
    | None \<Rightarrow> if keyof r = k then Some r else None)"
  by (induction rows) auto

lemma row_upsert_new:
  assumes "row_get keyof (keyof r) rows = None"
  shows "row_upsert keyof merge r rows = rows @ [r]"
    and "keyof r' = keyof r \<Longrightarrow> row_upsert keyof merge r' (rows @ [r]) = rows @ [merge r r']"
proof -
  have "row_update keyof (keyof r) f rows = rows" for f
    using assms by (induction rows) (auto simp: row_update_def split: if_splits)
  then show "row_upsert keyof merge r rows = rows @ [r]"
    "keyof r' = keyof r \<Longrightarrow> row_upsert keyof merge r' (rows @ [r]) = rows @ [merge r r']"
    using assms by (auto simp: row_upsert_def row_get_snoc row_update_def)
qed

definition created_row :: "env \<Rightarrow> order_intent \<Rightarrow> broker_order" where
  "created_row env intent = (let o1 = initial_order env intent in
     merge_order (order_row env 1 CREATED o1) (order_row env 2 VALIDATING (o1\<lparr>bo_status := VALIDATING\<rparr>)))"

lemma create_commits:
  assumes fresh: "fresh_ids env db" and saved: "save_order_intent env 2 intent ORDER_INTENT db = Inr db1"
  obtains oc where "create_order_intent env intent db = (Some ((initial_order env intent)\<lparr>bo_status := VALIDATING\<rparr>), oc)"
    "get_order_by_id (uuid env 1) (oc_state oc) = Some (created_row env intent)" "od_intents (oc_state oc) = od_intents db1"
    "od_orders (oc_state oc) = od_orders db @ [created_row env intent]"
proof -
  note i = save_intent_intents[OF saved]
  have ob: "\<exists>row. ob_event_id row = uuid env 2 \<and> od_outbox db1 = od_outbox db @ [row]" "od_events db1 = od_events db"
    "oi_price intent \<noteq> NaN"
    using saved by (auto simp: save_order_intent_def add_outbox_event_def row_insert_def split: if_splits option.splits)
  let ?o = "initial_order env intent"
  note f = fresh[unfolded fresh_ids_def, simplified]
  have o1: "order_constraints ?o db1 = None"
    using i(1)[of "oi_intent_id intent"] i(3) f ob(3)
    by (auto simp: order_constraints_def initial_order_def get_order_by_id_def get_order_by_client_id_def)
  have e1: "row_get oe_event_id (uuid env 3) (od_events db1) = None" "row_get ob_event_id (uuid env 3) (od_outbox db1) = None"
    using f ob by (auto simp: row_get_snoc)
  obtain db2 where s2: "save_broker_order_with_transition env 1 3 ?o None CREATED (Some [Txt ''Order intent created'']) (Some ORDER_STATE) db1 = Inr db2"
    "od_events db2 = od_events db1 @ [transition_event env 1 3 None CREATED (Some [Txt ''Order intent created'']) ?o]"
    "\<exists>row. ob_event_id row = uuid env 3 \<and> od_outbox db2 = od_outbox db1 @ [row]" "od_intents db2 = od_intents db1"
    "od_orders db2 = row_upsert bo_order_id merge_order (order_row env 1 CREATED ?o) (od_orders db1)"
    using save_order_commits[OF o1 e1, of 1 None CREATED "Some [Txt ''Order intent created'']" ORDER_STATE] by blast
  have row2: "row_get bo_order_id (uuid env 1) (od_orders db2) \<noteq> None"
    using order_table.get_upsert_same[of "order_row env 1 CREATED ?o" "od_orders db1"] s2(5) by simp
  then have o2: "order_constraints (?o\<lparr>bo_status := VALIDATING\<rparr>) db2 = None"
    using ob(3) by (auto simp: order_constraints_def initial_order_def)
  have e2: "row_get oe_event_id (uuid env 4) (od_events db2) = None" "row_get ob_event_id (uuid env 4) (od_outbox db2) = None"
    using f ob s2(2,3) by (auto simp: row_get_snoc transition_event_def split: option.splits)
  obtain db3 where s3: "save_broker_order_with_transition env 2 4 (?o\<lparr>bo_status := VALIDATING\<rparr>) (Some CREATED) VALIDATING
      (Some [Txt ''Dispatched to Risk Service for evaluation'']) (Some ORDER_STATE) db2 = Inr db3" "od_intents db3 = od_intents db2"
    using save_order_commits[OF o2 e2, of 2 "Some CREATED" VALIDATING
      "Some [Txt ''Dispatched to Risk Service for evaluation'']" ORDER_STATE] by blast
  have orders3: "od_orders db3 = row_upsert bo_order_id merge_order (order_row env 2 VALIDATING (?o\<lparr>bo_status := VALIDATING\<rparr>)) (od_orders db2)"
    using save_order_commits[OF o2 e2, of 2 "Some CREATED" VALIDATING
      "Some [Txt ''Dispatched to Risk Service for evaluation'']" ORDER_STATE] s3(1) by auto
  have none: "get_order_by_id (uuid env 1) db1 = None" using f i(3) by (simp add: get_order_by_id_def)
  have "bo_order_id ?o = uuid env 1" by (simp add: initial_order_def)
  then have g: "get_order_by_id (uuid env 1) db3 = Some (created_row env intent)"
    using none by (simp add: save_order_get[OF s2(1)] save_order_get[OF s3(1)] created_row_def Let_def order_row_def)
  have "od_orders db3 = od_orders db @ [created_row env intent]"
    using orders3 s2(5) none i(3)
    by (simp add: row_upsert_new[of bo_order_id] get_order_by_id_def order_row_def initial_order_def created_row_def Let_def)
  then show ?thesis
    by (intro that[of "ok db3 _"]) (use saved s2(1) s3 g s2(4) in
      \<open>auto simp: create_order_intent_def Let_def validate_transition_def can_transition_def\<close>)
qed

lemma create_atomic:
  assumes fresh: "fresh_ids env db" and fail: "create_order_intent env intent db = (None, oc)"
  shows "oc_state oc = db"
proof (cases "save_order_intent env 2 intent ORDER_INTENT db")
  case (Inl e)
  then show ?thesis using fail by (auto simp: create_order_intent_def Let_def)
next
  case (Inr db1)
  then show ?thesis using create_commits[OF fresh Inr] fail by auto
qed

section \<open>The OMS runs on\<close>

text \<open>Any operation of the OMS that does not create a sale of one of the trades.\<close>

definition oms_runs_on :: "string list \<Rightarrow> oms_db \<Rightarrow> oms_db \<Rightarrow> bool" where
  "oms_runs_on tids db db' \<longleftrightarrow> oms_inv db \<and> (\<exists>env op. op_fresh env op db \<and> db' = oms_step env op db
     \<and> (case op of CreateOrder i \<Rightarrow> oi_side i \<noteq> SELL \<or> oi_correlation_id i \<notin> set tids | _ \<Rightarrow> True))"

lemma save_order_ids:
  assumes "save_broker_order_with_transition env i j order f t r tp db = Inr db'" "get_order_by_id (bo_order_id order) db \<noteq> None"
  shows "get_order_by_id oid db' \<noteq> None \<longleftrightarrow> get_order_by_id oid db \<noteq> None"
  using assms(2) by (auto simp: save_order_get[OF assms(1)])

text \<open>The other operations store no new order and no new intent.\<close>

lemma step_keeps_ids:
  assumes inv: "oms_inv db" and op: "\<And>i. op \<noteq> CreateOrder i"
  shows "(get_order_by_id oid (oms_step env op db) \<noteq> None \<longrightarrow> get_order_by_id oid db \<noteq> None)
    \<and> od_intents (oms_step env op db) = od_intents db"
proof -
  have upd: ?thesis if "save_broker_order_with_transition env i j ord' f t r tp db = Inr db'"
      "ord \<in> set (od_orders db)" "db' = oms_step env op db" "bo_order_id ord' = bo_order_id ord" for i j ord ord' f t r tp db'
    using save_order_ids[OF that(1), of oid] save_orderD(4)[OF that(1)] oms_inv_get[OF inv that(2)] that(3,4) by simp
  show ?thesis
  proof (cases op)
    case (CreateOrder i)
    then show ?thesis using op by simp
  next
    case (RiskEvent ev)
    show ?thesis
    proof (cases rule: risk_event_cases[of env ev db])
      case 1
      then show ?thesis using RiskEvent by simp
    next
      case (2 ord d)
      show ?thesis by (rule upd[OF 2(5) 2(2)]) (simp_all add: RiskEvent)
    qed
  next
    case (BrokerEvent ev)
    show ?thesis
    proof (cases rule: broker_event_cases[of env ev db])
      case 1
      then show ?thesis using BrokerEvent by simp
    next
      case (2 ord u t)
      have m: "ord \<in> set (od_orders db)" using get_order_client_in[OF 2(2)] by simp
      show ?thesis by (rule upd[OF 2(5) m]) (simp_all add: BrokerEvent)
    qed
  next
    case (ReserveOrder i)
    show ?thesis
    proof (cases "mark_order_submitting env i db")
      case (Inl e)
      then show ?thesis using ReserveOrder by simp
    next
      case (Inr rd)
      then obtain r db' where m: "mark_order_submitting env i db = Inr (r, db')" by (cases rd) auto
      show ?thesis using m
      proof (cases rule: reserve_cases)
        case 1
        then show ?thesis using ReserveOrder m by simp
      next
        case (2 ord)
        have o: "ord \<in> set (od_orders db)" using 2(1) row_get_Some[of bo_order_id] by (auto simp: get_order_by_id_def)
        show ?thesis by (rule upd[OF 2(4) o]) (simp_all add: ReserveOrder m)
      qed
    qed
  next
    case OutboxPass
    then show ?thesis by (simp add: oms_outbox_pass_def get_order_by_id_def split: prod.splits)
  qed
qed

lemma runs_on_live:
  assumes "oms_runs_on tids db db'" "tid \<in> set tids"
  shows "live_sales tid db' \<subseteq> live_sales tid db"
proof -
  obtain env op where inv: "oms_inv db" and s: "op_fresh env op db" "db' = oms_step env op db"
      "case op of CreateOrder i \<Rightarrow> oi_side i \<noteq> SELL \<or> oi_correlation_id i \<notin> set tids | _ \<Rightarrow> True"
    using assms(1) by (auto simp: oms_runs_on_def)
  show ?thesis
  proof (cases "\<exists>i. op = CreateOrder i")
    case True
    then obtain i where i: "op = CreateOrder i" ..
    then have "get_order_by_id (uuid env 1) db = None" using s(1) by (simp add: op_fresh_def)
    from create_live_sales[OF inv this, of tid i] show ?thesis using i s(2,3) assms(2) by (auto split: if_splits)
  next
    case False
    note inv' = oms_step_inv[OF inv s(1)]
    note k = step_keeps_ids[OF inv, of op _ env]
    show ?thesis
    proof
      fix oid assume "oid \<in> live_sales tid db'"
      then obtain ord where o: "ord \<in> set (od_orders db')" "bo_order_id ord = oid" "sale_of tid db' ord" "\<not> terminal (bo_status ord)"
        by (auto simp: in_live_sales)
      have "get_order_by_id (bo_order_id ord) db' \<noteq> None" using oms_inv_get o(1) inv' s(2) by simp
      then have "get_order_by_id (bo_order_id ord) db \<noteq> None" using k False s(2) by blast
      from live_before[OF inv _ _ _ o(1,3,4) this] show "oid \<in> live_sales tid db" using inv' k False s(2) o(2) by auto
    qed
  qed
qed

text \<open>A creation of a sale for a trade, under a fresh identifier.\<close>

definition sale_opened :: "string \<Rightarrow> string \<Rightarrow> oms_db \<Rightarrow> oms_db \<Rightarrow> bool" where
  "sale_opened tid oid db db' \<longleftrightarrow> oms_inv db \<and> (\<exists>env intent. get_order_by_id (uuid env 1) db = None \<and> oid = uuid env 1
     \<and> oi_correlation_id intent = tid \<and> db' = oc_state (snd (create_order_intent env intent db)))"

lemma opened_live:
  assumes "sale_opened k oid db db'"
  shows "live_sales k' db' \<subseteq> live_sales k' db \<union> (if k = k' then {oid} else {})"
proof -
  obtain env intent where i: "oms_inv db" "get_order_by_id (uuid env 1) db = None" "oid = uuid env 1"
      "oi_correlation_id intent = k" "db' = oc_state (snd (create_order_intent env intent db))"
    using assms by (auto simp: sale_opened_def)
  show ?thesis using create_live_sales[OF i(1,2), of k' intent] i(3-5) by (auto split: if_splits)
qed

interpretation exit_book: sale_book live_sales order_over sale_opened oms_runs_on
proof unfold_locales
  show "oid \<notin> live_sales k db" if "order_over db oid" for db oid k
    using that oms_inv_get by (fastforce simp: order_over_def in_live_sales)
  show "live_sales k db' \<subseteq> insert oid (live_sales k db)" if "sale_opened k oid db db'" for k oid db db'
    using opened_live[OF that, of k] by auto
  show "live_sales k' db' \<subseteq> live_sales k' db" if "sale_opened k oid db db'" "k' \<noteq> k" for k k' oid db db'
    using opened_live[OF that(1), of k'] that(2) by auto
  show "live_sales k db' \<subseteq> live_sales k db" if "oms_runs_on ks db db'" "k \<in> set ks" for ks k db db'
    using runs_on_live[OF that] .
qed

section \<open>The invariant of the desk\<close>

definition sale_refs :: "live_trade \<Rightarrow> string list" where
  "sale_refs t = List.map_filter id [st_order_id (lt_stop t), lt_partial_order_id t, lt_exit_order_id t]"

definition sound_trade :: "oms_db \<Rightarrow> live_trade \<Rightarrow> bool" where
  "sound_trade db t \<longleftrightarrow> owned (live_sales (lt_trade_id t) db) (sale_refs t)"

definition desk_inv :: "work \<Rightarrow> bool" where
  "desk_inv w \<longleftrightarrow> oms_inv (wk_oms w) \<and> list_all (sound_trade (wk_oms w)) (wk_rows w)"

definition work_inv :: "work \<Rightarrow> bool" where
  "work_inv w \<longleftrightarrow> desk_inv w \<and> sound_trade (wk_oms w) (wk_trade w)"

text \<open>What the invariant sees of a trade, and steps it does not see.\<close>

definition trade_tag :: "live_trade \<Rightarrow> string \<times> auto_mode \<times> string option \<times> string option \<times> string option" where
  "trade_tag t = (lt_trade_id t, lt_mode t, st_order_id (lt_stop t), lt_partial_order_id t, lt_exit_order_id t)"

definition calm :: "work \<Rightarrow> work \<Rightarrow> bool" where
  "calm w w' \<longleftrightarrow> trade_tag (wk_trade w') = trade_tag (wk_trade w) \<and> wk_oms w' = wk_oms w \<and> (work_inv w \<longrightarrow> work_inv w')"

named_theorems calm

lemma sound_tag: "trade_tag t' = trade_tag t \<Longrightarrow> sound_trade db t' = sound_trade db t"
  by (simp add: trade_tag_def sound_trade_def sale_refs_def)

lemma calm_refl [simp, calm]: "calm w w" by (simp add: calm_def)

lemma calm_trans: "calm w w1 \<Longrightarrow> calm w1 w2 \<Longrightarrow> calm w w2" by (simp add: calm_def)

lemma calm_same:
  "trade_tag (wk_trade w') = trade_tag (wk_trade w) \<Longrightarrow> wk_oms w' = wk_oms w \<Longrightarrow> wk_rows w' = wk_rows w \<Longrightarrow> calm w w'"
  using sound_tag[of "wk_trade w'" "wk_trade w"] by (simp add: calm_def work_inv_def desk_inv_def)

lemma row_replaced:
  "list_all P rows \<Longrightarrow> P r \<Longrightarrow> list_all P (row_upsert keyof (\<lambda>old new. new) r rows)"
  by (auto simp: row_upsert_def row_update_def list_all_iff)

lemma calm_save [calm]: "calm w (save_trade w)"
  by (simp add: calm_def save_trade_def work_inv_def desk_inv_def row_replaced)

lemma calm_upd [calm]: "(\<And>t. trade_tag (f t) = trade_tag t) \<Longrightarrow> calm w (upd f w)"
  by (rule calm_same) (simp_all add: upd_def)

lemma calm_upd_core [calm]: "calm w (upd_core f w)"
  unfolding upd_core_def by (rule calm_upd) (simp add: trade_tag_def)

lemma calm_upd_stop [calm]: "(\<And>s. st_order_id (f s) = st_order_id s) \<Longrightarrow> calm w (upd_stop f w)"
  unfolding upd_stop_def by (rule calm_upd) (simp add: trade_tag_def)

lemma calm_call [calm]: "calm w (call c w)"
  by (rule calm_same) (simp_all add: call_def)

lemma calm_record [calm]: "calm w (record_execution e w)"
  by (rule calm_same) (simp_all add: record_execution_def)

lemma calm_failure [calm]: "calm w (snd (record_protective_stop_failure d i reason unknown w))"
proof -
  have a: "calm w (w\<lparr>wk_armed := b\<rparr>)" for w b by (rule calm_same) simp_all
  show ?thesis
    unfolding record_protective_stop_failure_def Let_def snd_conv
    by (intro calm_trans[OF _ calm_save])
      (auto intro!: calm_trans[OF _ calm_call] calm_trans[OF _ a] calm_trans[OF _ calm_upd] calm_upd_stop
        calm_trans[OF _ calm_upd_stop] calm_refl simp: trade_tag_def)
qed

lemma closed_tag: "trade_tag (closed_trade r now f price reason q t) = trade_tag t"
  by (simp add: closed_trade_def closing_r_def trade_tag_def Let_def)

lemma calm_close [calm]: "calm w (close_trade d i f price reason q w)"
proof -
  have c: "calm w (w\<lparr>wk_trade := closed_trade r now f price reason q (wk_trade w), wk_last_loss_exit := l, wk_calls := cs,
      wk_cache := ca\<rparr>)" for r now l cs ca
    by (rule calm_same) (simp_all add: closed_tag)
  show ?thesis unfolding close_trade_def Let_def
    by (intro calm_trans[OF _ calm_call])
      (auto intro!: calm_trans[OF _ calm_call] calm_trans[OF _ calm_record] calm_trans[OF c calm_save])
qed

lemma calm_account [calm]: "calm w (account_stop_fill p w)"
proof -
  have u: "calm w (upd_stop (\<lambda>s. s\<lparr>st_filled_quantity := n, st_filled_proceeds := m\<rparr>)
      (upd (\<lambda>t. t\<lparr>lt_exit_filled := f t, lt_exit_proceeds := g t\<rparr>) w))" for n m f g
    by (intro calm_trans[OF calm_upd calm_upd_stop]) (simp_all add: trade_tag_def)
  show ?thesis unfolding account_stop_fill_def Let_def
    by (auto intro: u intro!: calm_trans[OF u calm_record])
qed

section \<open>Calls that may raise\<close>

text \<open>The postcondition of a call: \<open>E\<close> for the work an exception leaves, \<open>Q\<close> for the work beside a result.\<close>

definition runs :: "(work \<Rightarrow> bool) \<Rightarrow> ('a \<Rightarrow> work \<Rightarrow> bool) \<Rightarrow> 'a act \<Rightarrow> bool" where
  "runs E Q m = (case m of (w, Inl e) \<Rightarrow> E w | (w, Inr x) \<Rightarrow> Q x w)"

lemma runs_result [simp]: "runs E Q (w, Inr x) = Q x w" "runs E Q (w, Inl e) = E w"
  by (simp_all add: runs_def)

lemma runs_andthen: "runs E P m \<Longrightarrow> (\<And>x w. P x w \<Longrightarrow> runs E Q (f x w)) \<Longrightarrow> runs E Q (andthen m f)"
  by (cases m; cases "snd m") (simp_all add: runs_def andthen_def)

lemma runs_mono: "runs E P m \<Longrightarrow> (\<And>x w. P x w \<Longrightarrow> Q x w) \<Longrightarrow> runs E Q m"
  by (auto simp: runs_def split: sum.splits prod.splits)

text \<open>What reconciling the protective stop leaves: the other references, and the OMS when it returns true.\<close>

definition other_refs :: "live_trade \<Rightarrow> string \<times> auto_mode \<times> string option \<times> string option" where
  "other_refs t = (lt_trade_id t, lt_mode t, lt_partial_order_id t, lt_exit_order_id t)"

definition stop_synced :: "work \<Rightarrow> bool \<Rightarrow> work \<Rightarrow> bool" where
  "stop_synced w ready w' \<longleftrightarrow> work_inv w' \<and> other_refs (wk_trade w') = other_refs (wk_trade w)
     \<and> (ready \<longrightarrow> wk_oms w' = wk_oms w)"

lemma calm_synced: "work_inv w \<Longrightarrow> calm w w' \<Longrightarrow> stop_synced w b w'"
  by (simp add: stop_synced_def calm_def trade_tag_def other_refs_def)

lemma calm_inv: "calm w w' \<Longrightarrow> work_inv w \<Longrightarrow> work_inv w'" by (simp add: calm_def)

lemma synced_trans: "stop_synced w True w1 \<Longrightarrow> stop_synced w1 b w2 \<Longrightarrow> stop_synced w b w2"
  by (simp add: stop_synced_def)

text \<open>Selling when nothing is referenced: the new order is the only one.\<close>

lemma create_id: "create_order_intent env intent db = (Some ord, oc) \<Longrightarrow> bo_order_id ord = uuid env 1"
  by (auto simp: create_order_intent_def initial_order_def Let_def split: sum.splits option.splits)

lemma no_refs: "sound_trade db t \<Longrightarrow> sale_refs t = [] \<Longrightarrow> live_sales (lt_trade_id t) db = {}"
  by (simp add: sound_trade_def owned_def)

lemma other_rows:
  assumes "\<And>t. t \<in> set rows \<Longrightarrow> keyof t \<noteq> keyof r \<Longrightarrow> P t" "P r"
  shows "list_all P (row_upsert keyof (\<lambda>old new. new) r rows)"
proof (cases "keyof r \<in> keyof ` set rows")
  case True
  then show ?thesis using assms row_get_None_iff[of keyof "keyof r" rows]
    by (auto simp: row_upsert_def row_update_def list_all_iff)
next
  case False
  then have "keyof t \<noteq> keyof r" if "t \<in> set rows" for t using that by (metis imageI)
  then show ?thesis using assms row_get_None_iff[of keyof "keyof r" rows] False
    by (auto simp: row_upsert_def list_all_iff)
qed

lemma runs_sell:
  assumes inv: "work_inv w" and fresh: "fresh_ids (dk_oms d) (wk_oms w)" and empty: "sale_refs (wk_trade w) = []"
    and corr: "oi_correlation_id intent = lt_trade_id (wk_trade w)"
    and f: "\<And>ord t. lt_trade_id (f ord t) = lt_trade_id t"
      "\<And>ord t. sale_refs t = [] \<Longrightarrow> sale_refs (f ord t) = [bo_order_id ord]"
      "\<And>ord w'. wk_trade w' = wk_trade w \<Longrightarrow> Q (save_trade (upd (f ord) w'))"
  shows "runs work_inv (\<lambda>_ w'. work_inv w' \<and> Q w')
    (andthen (oms_create d intent w) (\<lambda>ord w1. (save_trade (upd (f ord) w1), Inr x)))"
proof (cases "create_order_intent (dk_oms d) intent (wk_oms w)")
  case (Pair r oc)
  show ?thesis
  proof (cases r)
    case None
    then have "wk_oms w = oc_state oc" using create_atomic[OF fresh] Pair by simp
    then have "w\<lparr>wk_oms := oc_state oc\<rparr> = w" by simp
    then show ?thesis using inv Pair None by (auto simp: oms_create_def andthen_def runs_def)
  next
    case (Some ord)
    let ?k = "lt_trade_id (wk_trade w)" and ?db = "oc_state oc"
    have g: "get_order_by_id (uuid (dk_oms d) 1) (wk_oms w) = None" using fresh by (simp add: fresh_ids_def)
    have oms: "oms_inv (wk_oms w)" using inv by (simp add: work_inv_def desk_inv_def)
    have oms': "oms_inv ?db" using create_order_intent_inv(1)[OF oms g, of intent] Pair by simp
    have o: "sale_opened ?k (bo_order_id ord) (wk_oms w) ?db"
      unfolding sale_opened_def using oms g corr Pair create_id[of "dk_oms d" intent "wk_oms w" ord oc] Some
      by (intro conjI exI[of _ "dk_oms d"] exI[of _ intent]) auto
    have none: "live_sales ?k (wk_oms w) = {}" using no_refs[OF _ empty] inv by (simp add: work_inv_def)
    let ?w' = "save_trade (upd (f ord) (w\<lparr>wk_oms := ?db\<rparr>))"
    have s: "sound_trade ?db (f ord (wk_trade w))"
      using exit_book.placed[OF none o] f(1) f(2)[OF empty] by (simp add: sound_trade_def)
    have "sound_trade ?db t" if "t \<in> set (wk_rows w)" "lt_trade_id t \<noteq> ?k" for t
      using exit_book.undisturbed[OF _ o that(2)] inv that(1)
      by (auto simp: sound_trade_def work_inv_def desk_inv_def list_all_iff)
    then have "list_all (sound_trade ?db) (wk_rows ?w')"
      unfolding save_trade_def upd_def using s f(1)[of ord "wk_trade w"] by (simp, intro other_rows) auto
    then have "work_inv ?w'" using s oms' by (simp add: work_inv_def desk_inv_def save_trade_def upd_def)
    then show ?thesis using Pair Some f(3)[of "w\<lparr>wk_oms := ?db\<rparr>" ord]
      by (auto simp: oms_create_def andthen_def runs_def)
  qed
qed

lemma refs_empty:
  "sale_refs t = [] \<longleftrightarrow> st_order_id (lt_stop t) = None \<and> lt_partial_order_id t = None \<and> lt_exit_order_id t = None"
  by (auto simp: sale_refs_def List.map_filter_def)

lemma runs_place:
  assumes "work_inv w" "fresh_ids (dk_oms d) (wk_oms w)" "st_order_id (lt_stop (wk_trade w)) = None"
  shows "runs work_inv (stop_synced w) (place_protective_stop d n w)"
proof (cases "given (lt_pending_exit_reason (wk_trade w)) \<or> lt_exit_order_id (wk_trade w) \<noteq> None
    \<or> lt_partial_order_id (wk_trade w) \<noteq> None")
  case True
  then show ?thesis using calm_synced[OF assms(1) calm_refl] by (simp add: place_protective_stop_def)
next
  case False
  then have e: "sale_refs (wk_trade w) = []" using assms(3) by (simp add: refs_empty)
  show ?thesis
  proof (cases "protective_stop_prices d (wk_trade w)")
    case (Inl err)
    then show ?thesis using False assms(1) by (simp add: place_protective_stop_def)
  next
    case (Inr p)
    obtain trigger limit_price where p: "p = (trigger, limit_price)" by fastforce
    let ?f = "\<lambda>ord t. t\<lparr>lt_stop := (forget_stop (lt_stop t))\<lparr>st_order_id := Some (bo_order_id ord),
        st_status := order_state_value (bo_status ord), st_trigger_price := Some trigger, st_limit_price := Some limit_price\<rparr>\<rparr>"
    let ?i = "protective_intent d trigger limit_price n (wk_trade w)"
    have "runs work_inv (\<lambda>_ w'. work_inv w' \<and> other_refs (wk_trade w') = other_refs (wk_trade w))
        (andthen (oms_create d ?i w) (\<lambda>ord w1. (save_trade (upd (?f ord) w1), Inr ())))"
      by (rule runs_sell[OF assms(1,2) e, where f = ?f])
        (simp_all add: protective_intent_def refs_empty other_refs_def save_trade_def upd_def,
         simp add: sale_refs_def List.map_filter_def)
    then have "runs work_inv (\<lambda>_ w'. stop_synced w False w')
        (andthen (oms_create d ?i w) (\<lambda>ord w1. (save_trade (upd (?f ord) w1), Inr ())))"
      by (rule runs_mono) (simp add: stop_synced_def)
    then show ?thesis using False p Inr
      by (auto simp: place_protective_stop_def runs_def andthen_def upd_stop_def stop_synced_def
          intro: calm_inv[OF calm_call] split: sum.splits prod.splits) (simp_all add: call_def)
  qed
qed

section \<open>Reconciling and cancelling the stop\<close>

lemma one_ref:
  assumes "sound_trade db t"
  shows "st_order_id (lt_stop t) \<noteq> None \<Longrightarrow> lt_partial_order_id t = None \<and> lt_exit_order_id t = None"
    and "lt_partial_order_id t \<noteq> None \<Longrightarrow> st_order_id (lt_stop t) = None \<and> lt_exit_order_id t = None"
    and "lt_exit_order_id t \<noteq> None \<Longrightarrow> st_order_id (lt_stop t) = None \<and> lt_partial_order_id t = None"
  using assms
  by (auto simp: sound_trade_def owned_def sale_refs_def List.map_filter_def split: option.splits if_splits)

text \<open>A reference to an order that is over may be dropped.\<close>

lemma drop_ref:
  assumes "sound_trade db t" "oid \<in> set (sale_refs t)" "order_over db oid"
    and "lt_trade_id t' = lt_trade_id t" "sale_refs t' = []"
  shows "sound_trade db t'"
  using exit_book.released[of "lt_trade_id t" db "sale_refs t" oid] assms
  by (simp add: sound_trade_def owned_def)

lemma forget_inv:
  assumes "work_inv w" "st_order_id (lt_stop (wk_trade w)) = Some oid" "order_over (wk_oms w) oid"
  shows "stop_synced w b (upd_stop forget_stop w)" "st_order_id (lt_stop (wk_trade (upd_stop forget_stop w))) = None"
proof -
  let ?t = "wk_trade w" and ?t' = "wk_trade (upd_stop forget_stop w)"
  have s: "sound_trade (wk_oms w) ?t" using assms(1) by (simp add: work_inv_def)
  have t': "?t' = ?t\<lparr>lt_stop := forget_stop (lt_stop ?t)\<rparr>" by (simp add: upd_stop_def upd_def)
  then show "st_order_id (lt_stop ?t') = None" by (simp add: forget_stop_def)
  have m: "oid \<in> set (sale_refs ?t)" using assms(2) by (simp add: sale_refs_def List.map_filter_def)
  have "sale_refs ?t' = []" using one_ref(1)[OF s] assms(2) t' by (simp add: refs_empty forget_stop_def)
  from drop_ref[OF s m assms(3) _ this] have "sound_trade (wk_oms w) ?t'" using t' by simp
  then show "stop_synced w b (upd_stop forget_stop w)" using assms(1) t'
    by (simp add: stop_synced_def work_inv_def desk_inv_def other_refs_def upd_stop_def upd_def)
qed

lemma over_found: "work_inv w \<Longrightarrow> get_order_by_id oid (wk_oms w) = Some p \<Longrightarrow> dead (bo_status p) \<or> bo_status p = FILLED \<Longrightarrow>
    order_over (wk_oms w) oid"
  by (auto simp: order_over_def work_inv_def desk_inv_def terminal_iff_rank dead_def)

lemma runs_ended:
  assumes w: "work_inv w" "st_order_id (lt_stop (wk_trade w)) = Some oid" "order_over (wk_oms w) oid"
    and fresh: "fresh_ids (dk_oms d) (wk_oms w)"
  shows "runs work_inv (stop_synced w) (stop_ended d status w)"
proof -
  let ?w1 = "upd_stop forget_stop w"
  note f = forget_inv[OF w]
  have i1: "work_inv ?w1" using f(1)[of True] by (simp add: stop_synced_def)
  have oms: "wk_oms ?w1 = wk_oms w" using f(1)[of True] by (simp add: stop_synced_def)
  define r where "r = record_protective_stop_failure d 0 (''PROTECTIVE_STOP_'' @ order_state_value status) False ?w1"
  have c: "calm ?w1 (snd r)" unfolding r_def by (rule calm_failure)
  have i2: "work_inv (snd r)" by (rule calm_inv[OF c i1])
  have id2: "st_order_id (lt_stop (wk_trade (snd r))) = None" using c f(2) by (simp add: calm_def trade_tag_def)
  have fr: "fresh_ids (dk_oms d) (wk_oms (snd r))" using fresh c oms by (simp add: calm_def)
  have s2: "stop_synced w True (snd r)" by (rule synced_trans[OF f(1) calm_synced[OF i1 c]])
  have s1: "stop_synced w True (save_trade ?w1)" by (rule synced_trans[OF f(1) calm_synced[OF i1 calm_save]])
  have p: "runs work_inv (stop_synced w) (place_protective_stop d n (snd r))" for n
    by (rule runs_mono[OF runs_place[OF i2 fr id2] synced_trans[OF s2]])
  show ?thesis unfolding stop_ended_def Let_def r_def[symmetric] using s1 s2 p by (cases r) simp
qed

lemma runs_sync:
  assumes w: "work_inv w" and fresh: "fresh_ids (dk_oms d) (wk_oms w)"
  shows "runs work_inv (stop_synced w) (sync_live_protective_stop d f w)"
proof -
  let ?t = "wk_trade w"
  note cs = calm_synced[OF w]
  show ?thesis
  proof (cases "lt_mode ?t \<noteq> AUTO_LIVE \<or> lt_filled_quantity ?t \<le> 0 \<or> tr_state (lt_core ?t) = CLOSED \<or> open_quantity ?t \<le> 0")
    case True
    then show ?thesis using cs[OF calm_refl] cs[OF calm_close] by (auto simp: sync_live_protective_stop_def Let_def)
  next
    case False
    show ?thesis
    proof (cases "st_order_id (lt_stop ?t)")
      case None
      then show ?thesis using False runs_place[OF w fresh None] by (simp add: sync_live_protective_stop_def Let_def)
    next
      case id: (Some oid)
      show ?thesis
      proof (cases "get_order_by_id oid (wk_oms w)")
        case None
        then show ?thesis using False id cs[OF calm_failure] by (simp add: sync_live_protective_stop_def Let_def)
      next
        case p: (Some p)
        define w1 where "w1 = account_stop_fill p (upd_stop (\<lambda>s. s\<lparr>st_status := order_state_value (bo_status p)\<rparr>) w)"
        have c: "calm w w1" unfolding w1_def by (rule calm_trans[OF calm_upd_stop calm_account]) simp
        note i1 = calm_inv[OF c w] and oms = c[unfolded calm_def, THEN conjunct2, THEN conjunct1]
        have s1: "stop_synced w True w1" by (rule cs[OF c])
        have id1: "st_order_id (lt_stop (wk_trade w1)) = Some oid" using c id by (simp add: calm_def trade_tag_def)
        have fill: "runs work_inv (stop_synced w) (stop_filled d f p w1)"
          unfolding stop_filled_def Let_def runs_result
          by (rule cs[OF calm_trans[OF c calm_trans[OF calm_upd_stop calm_close]]]) simp
        have work: "runs work_inv (stop_synced w) (stop_working (bo_status p) w1)"
          unfolding stop_working_def Let_def runs_result
          by (auto intro!: cs calm_trans[OF c] calm_trans[OF _ calm_save] calm_upd_stop)
        have ended: "runs work_inv (stop_synced w) (stop_ended d (bo_status p) w1)" if "dead (bo_status p)"
        proof -
          have o: "order_over (wk_oms w1) oid" using over_found[OF w p] that oms by simp
          have fr: "fresh_ids (dk_oms d) (wk_oms w1)" using fresh oms by simp
          show ?thesis by (rule runs_mono[OF runs_ended[OF i1 id1 o fr] synced_trans[OF s1]])
        qed
        show ?thesis using False id p fill work ended
          by (simp add: sync_live_protective_stop_def Let_def w1_def[symmetric])
      qed
    qed
  qed
qed

lemma runs_request_cancel:
  assumes "work_inv w"
  shows "runs work_inv (\<lambda>b w'. stop_synced w b w' \<and> \<not> b) (request_stop_cancel d oid w)"
proof -
  note cs = calm_synced[OF assms]
  have r: "st_order_id (cancel_reply d r s) = st_order_id s" for r s by (cases r) (simp_all add: cancel_reply_def)
  have c: "calm w (upd_stop (cancel_reply d r) (call x (upd_stop (\<lambda>s. s\<lparr>st_cancel_attempts := st_cancel_attempts s + 1,
      st_cancel_requested_at := a, st_cancel_for_exit := True\<rparr>) w)))" for r x a
    by (intro calm_trans[OF _ calm_upd_stop] calm_trans[OF calm_upd_stop calm_call]) (simp_all add: r)
  have g: "calm w (save_trade (upd_stop (\<lambda>s. s\<lparr>st_status := x\<rparr>) w))" for x
    by (intro calm_trans[OF calm_upd_stop calm_save]) simp
  show ?thesis
    unfolding request_stop_cancel_def
    by (auto simp: Let_def split: option.split
        intro!: cs calm_failure calm_refl g calm_trans[OF c calm_failure] calm_trans[OF c calm_save])
qed

text \<open>When the cancellation returns true, no protective order is referenced and nothing was created.\<close>

lemma runs_cancel:
  assumes w: "work_inv w" and fresh: "fresh_ids (dk_oms d) (wk_oms w)" and live: "lt_mode (wk_trade w) = AUTO_LIVE"
  shows "runs work_inv (\<lambda>b w'. stop_synced w b w' \<and> (b \<longrightarrow> st_order_id (lt_stop (wk_trade w')) = None))
    (cancel_live_protective_stop_for_exit d f w)"
proof (cases "st_order_id (lt_stop (wk_trade w)) = None")
  case True
  then show ?thesis using calm_synced[OF w calm_refl] by (simp add: cancel_live_protective_stop_for_exit_def)
next
  case False
  have fail: "stop_synced w False w'" if "stop_synced w b w1" "calm w1 w'" for b w1 w'
    using that by (simp add: stop_synced_def calm_def other_refs_def trade_tag_def)
  have req: "runs work_inv (\<lambda>b w'. stop_synced w b w' \<and> (b \<longrightarrow> st_order_id (lt_stop (wk_trade w')) = None))
      (request_stop_cancel d oid w2)" if s: "stop_synced w b w1" "calm w1 w2" for b w1 w2 oid
  proof -
    have "work_inv w2" using s by (simp add: stop_synced_def calm_def)
    from runs_request_cancel[OF this] show ?thesis
      by (rule runs_mono) (use fail[OF s] in \<open>auto simp: stop_synced_def\<close>)
  qed
  have c: "(lt_mode (wk_trade w) \<noteq> AUTO_LIVE \<or> st_order_id (lt_stop (wk_trade w)) = None) = False" using False live by simp
  show ?thesis
    unfolding cancel_live_protective_stop_for_exit_def c if_False
    by (rule runs_andthen[OF runs_sync[OF w fresh]])
      (auto simp: Let_def split: option.split intro: fail[OF _ calm_refl] fail[OF _ calm_failure] req[OF _ calm_refl]
        req[OF _ calm_upd_stop])
qed

section \<open>Selling\<close>

abbreviation safe :: "unit act \<Rightarrow> bool" where "safe m \<equiv> runs work_inv (\<lambda>_. work_inv) m"

lemma safe_calm: "work_inv w \<Longrightarrow> calm w w' \<Longrightarrow> safe (w', Inr ())"
  by (simp add: calm_def)

text \<open>The submission of a sale after the cancellation of the stop has returned true.\<close>

lemma safe_sell:
  assumes "work_inv w" "fresh_ids (dk_oms d) (wk_oms w)" "sale_refs (wk_trade w) = []"
    "oi_correlation_id intent = lt_trade_id (wk_trade w)" "\<And>ord t. lt_trade_id (f ord t) = lt_trade_id t"
    "\<And>ord t. sale_refs t = [] \<Longrightarrow> sale_refs (f ord t) = [bo_order_id ord]"
  shows "safe (andthen (oms_create d intent w) (\<lambda>ord w1. (save_trade (upd (f ord) w1), Inr ())))"
  by (rule runs_mono[OF runs_sell[where Q = "\<lambda>_. True" and f = f and x = "()", OF assms]]) simp_all

lemma safe_after_cancel:
  assumes w: "work_inv w" and fresh: "fresh_ids (dk_oms d) (wk_oms w)" and live: "lt_mode (wk_trade w) = AUTO_LIVE"
    and none: "lt_exit_order_id (wk_trade w) = None" "lt_partial_order_id (wk_trade w) = None"
    and no: "\<And>w1. work_inv w1 \<Longrightarrow> safe (g False w1)"
    and yes: "\<And>w1. work_inv w1 \<Longrightarrow> sale_refs (wk_trade w1) = [] \<Longrightarrow> fresh_ids (dk_oms d) (wk_oms w1) \<Longrightarrow> safe (g True w1)"
  shows "safe (andthen (cancel_live_protective_stop_for_exit d f w) g)"
proof (rule runs_andthen[OF runs_cancel[OF w fresh live]])
  fix b w1 assume "stop_synced w b w1 \<and> (b \<longrightarrow> st_order_id (lt_stop (wk_trade w1)) = None)"
  then show "safe (g b w1)" using no yes fresh none by (cases b) (auto simp: stop_synced_def other_refs_def refs_empty)
qed

lemma calm_pending [calm]: "calm w (upd (t1_pending p) w)"
  by (rule calm_upd) (simp add: t1_pending_def trade_tag_def)

lemma inv_save: "work_inv w \<Longrightarrow> work_inv (save_trade w)" by (rule calm_inv[OF calm_save])

lemma inv_upd: "work_inv w \<Longrightarrow> (\<And>t. trade_tag (f t) = trade_tag t) \<Longrightarrow> work_inv (upd f w)" by (rule calm_inv[OF calm_upd])

lemma inv_core: "work_inv w \<Longrightarrow> work_inv (upd_core f w)" by (rule calm_inv[OF calm_upd_core])

lemma inv_call: "work_inv w \<Longrightarrow> work_inv (call c w)" by (rule calm_inv[OF calm_call])

lemma inv_record: "work_inv w \<Longrightarrow> work_inv (record_execution e w)" by (rule calm_inv[OF calm_record])

lemma inv_close: "work_inv w \<Longrightarrow> work_inv (close_trade d i f p r q w)" by (rule calm_inv[OF calm_close])

lemmas inv_steps = inv_save inv_upd inv_core inv_call inv_record inv_close

lemma new_ref:
  assumes "sale_refs t = []"
  shows "sale_refs (t\<lparr>lt_exit_order_id := Some i\<rparr>) = [i]" "sale_refs (t\<lparr>lt_partial_order_id := Some i\<rparr>) = [i]"
  using assms unfolding refs_empty by (simp_all add: sale_refs_def List.map_filter_def)

lemma refs_tag: "trade_tag t' = trade_tag t \<Longrightarrow> sale_refs t' = sale_refs t"
  by (simp add: trade_tag_def sale_refs_def)

lemma safe_submit_t1:
  assumes "work_inv w" "fresh_ids (dk_oms d) (wk_oms w)" "lt_mode (wk_trade w) = AUTO_LIVE" "lt_exit_order_id (wk_trade w) = None"
  shows "safe (submit_live_t1_partial_exit d f q w)"
proof (cases "lt_partial_order_id (wk_trade w) = None")
  case False
  then show ?thesis using assms(1) by (simp add: submit_live_t1_partial_exit_def Let_def)
next
  case True
  let ?g = "\<lambda>raw ord t. (reset_live_t1_order_progress t)\<lparr>lt_partial_order_id := Some (bo_order_id ord),
      lt_core := (lt_core t)\<lparr>tr_partial_raw_bid := Some raw, tr_t1_exit_pending := True\<rparr>,
      lt_option_data_status := ''LIVE_T1_EXIT_SUBMITTED''\<rparr>"
  have r: "sale_refs (?g raw ord t) = sale_refs (t\<lparr>lt_partial_order_id := Some (bo_order_id ord)\<rparr>)" for raw ord t
    by (rule refs_tag) (simp add: trade_tag_def reset_live_t1_order_progress_def)
  have refs: "sale_refs (?g raw ord t) = [bo_order_id ord]" if "sale_refs t = []" for raw ord t
    by (rule trans[OF r new_ref(2)[OF that]])
  have sell: "safe (andthen (oms_create d (exit_intent d s tif n p (wk_trade w1)) w1)
      (\<lambda>ord w2. (save_trade (upd (?g raw ord) w2), Inr ())))"
    if "work_inv w1" "sale_refs (wk_trade w1) = []" "fresh_ids (dk_oms d) (wk_oms w1)" for s tif n p raw w1
    by (rule safe_sell[where f = "?g raw", OF that(1,3,2) _ _ refs])
      (simp_all add: exit_intent_def reset_live_t1_order_progress_def)
  show ?thesis
    unfolding submit_live_t1_partial_exit_def Let_def
    using True assms(1)
    by (auto split: sum.split intro!: safe_after_cancel[OF assms True] sell inv_steps
        simp: t1_pending_def trade_tag_def)
qed

lemma exit_submitted_refs:
  "lt_trade_id (exit_submitted ord r t) = lt_trade_id t"
  "sale_refs t = [] \<Longrightarrow> sale_refs (exit_submitted ord r t) = [bo_order_id ord]"
  "sale_refs t = [] \<Longrightarrow> sale_refs ((exit_submitted ord r t)\<lparr>lt_option_data_status := s\<rparr>) = [bo_order_id ord]"
  "trade_tag (emergency_owned t) = trade_tag t"
proof -
  have r: "sale_refs (exit_submitted ord r t) = sale_refs (t\<lparr>lt_exit_order_id := Some (bo_order_id ord)\<rparr>)"
    "sale_refs ((exit_submitted ord r t)\<lparr>lt_option_data_status := s\<rparr>) = sale_refs (t\<lparr>lt_exit_order_id := Some (bo_order_id ord)\<rparr>)"
    by (rule refs_tag, simp add: trade_tag_def exit_submitted_def reset_exit_order_progress_def)+
  show "sale_refs (exit_submitted ord r t) = [bo_order_id ord]"
    "sale_refs ((exit_submitted ord r t)\<lparr>lt_option_data_status := s\<rparr>) = [bo_order_id ord]" if "sale_refs t = []"
    using r new_ref(1)[OF that] by simp_all
qed (simp_all add: exit_submitted_def reset_exit_order_progress_def emergency_owned_def trade_tag_def)

lemma safe_submit_final:
  assumes "work_inv w" "fresh_ids (dk_oms d) (wk_oms w)" "lt_mode (wk_trade w) = AUTO_LIVE" "lt_partial_order_id (wk_trade w) = None"
  shows "safe (submit_live_final_exit d f q reason w)"
proof (cases "lt_exit_order_id (wk_trade w) = None")
  case False
  then show ?thesis using assms(1) by (simp add: submit_live_final_exit_def)
next
  case True
  have sell: "safe (andthen (oms_create d (exit_intent d s tif n p (wk_trade w1)) w1)
      (\<lambda>ord w2. (save_trade (upd (\<lambda>t. (exit_submitted ord reason t)\<lparr>lt_option_data_status := st\<rparr>) w2), Inr ())))"
    if "work_inv w1" "sale_refs (wk_trade w1) = []" "fresh_ids (dk_oms d) (wk_oms w1)" for s tif n p st w1
    by (rule safe_sell[OF that(1,3,2), where f = "\<lambda>ord t. (exit_submitted ord reason t)\<lparr>lt_option_data_status := st\<rparr>"])
      (simp_all add: exit_intent_def exit_submitted_refs)
  show ?thesis
    unfolding submit_live_final_exit_def Let_def
    using True assms(1)
    by (auto split: sum.split intro!: safe_after_cancel[OF assms(1-3) True assms(4)] sell inv_steps
        exit_submitted_refs(4) simp: trade_tag_def)
qed

lemma safe_submit_at:
  assumes "work_inv w" "fresh_ids (dk_oms d) (wk_oms w)" "sale_refs (wk_trade w) = []"
  shows "safe (submit_exit_at d price reason w)"
  unfolding submit_exit_at_def Let_def
  by (rule safe_sell[OF assms, where f = "\<lambda>ord. exit_submitted ord reason"]) (simp_all add: exit_intent_def exit_submitted_refs)

lemma safe_live_b:
  assumes "work_inv w" "fresh_ids (dk_oms d) (wk_oms w)" "lt_mode (wk_trade w) = AUTO_LIVE" "lt_exit_order_id (wk_trade w) = None"
    "lt_partial_order_id (wk_trade w) = None"
  shows "safe (live_exit_b d f q reason w)"
  unfolding live_exit_b_def using assms(1)
  by (auto intro!: inv_steps safe_after_cancel[OF assms] safe_submit_at exit_submitted_refs(4) simp: trade_tag_def)

section \<open>The phases of a cycle\<close>

lemma drop_inv:
  assumes "work_inv w" "oid \<in> set (sale_refs (wk_trade w))" "order_over (wk_oms w) oid"
    and "lt_trade_id (f (wk_trade w)) = lt_trade_id (wk_trade w)" "sale_refs (f (wk_trade w)) = []"
  shows "work_inv (upd f w)"
  using assms drop_ref[of "wk_oms w" "wk_trade w" oid "f (wk_trade w)"]
  by (simp add: work_inv_def desk_inv_def upd_def)

lemma progress_tag:
  "trade_tag (fst (apply_exit_order_progress ord t)) = trade_tag t"
  "trade_tag (fst (apply_live_t1_order_progress ord t)) = trade_tag t"
  by (simp_all add: apply_exit_order_progress_def apply_live_t1_order_progress_def Let_def trade_tag_def)

text \<open>A phase that returns true has left the OMS and the other reference alone.\<close>

definition partial_synced :: "work \<Rightarrow> bool \<Rightarrow> work \<Rightarrow> bool" where
  "partial_synced w ready w' \<longleftrightarrow> work_inv w' \<and> lt_mode (wk_trade w') = lt_mode (wk_trade w)
     \<and> lt_exit_order_id (wk_trade w') = lt_exit_order_id (wk_trade w)
     \<and> (ready \<longrightarrow> wk_oms w' = wk_oms w \<and> lt_partial_order_id (wk_trade w') = None)"

lemma t1_ended_inv:
  assumes "work_inv w" "lt_partial_order_id (wk_trade w) = Some oid" "order_over (wk_oms w) oid"
  shows "partial_synced w b (t1_ended ord n c w)"
proof -
  let ?t = "wk_trade w" and ?f = "\<lambda>t. reset_live_t1_order_progress (t\<lparr>lt_partial_order_id := None\<rparr>)"
  have s: "sound_trade (wk_oms w) ?t" using assms(1) by (simp add: work_inv_def)
  have m: "oid \<in> set (sale_refs ?t)" using assms(2) by (simp add: sale_refs_def List.map_filter_def)
  have e: "sale_refs (?f ?t) = []" using one_ref(2)[OF s] assms(2)
    by (simp add: refs_empty reset_live_t1_order_progress_def)
  have i: "work_inv (upd ?f w)"
    by (rule drop_inv[where f = ?f, OF assms(1) m assms(3) _ e]) (simp add: reset_live_t1_order_progress_def)
  have c: "calm (upd ?f w) (t1_ended ord n c w)"
    unfolding t1_ended_def Let_def
    by (auto intro!: calm_trans[OF _ calm_save] calm_trans[OF _ calm_call] calm_upd simp: trade_tag_def)
  have "lt_partial_order_id (wk_trade (upd ?f w)) = None" "lt_mode (wk_trade (upd ?f w)) = lt_mode ?t"
    "lt_exit_order_id (wk_trade (upd ?f w)) = lt_exit_order_id ?t" "wk_oms (upd ?f w) = wk_oms w"
    by (simp_all add: upd_def reset_live_t1_order_progress_def)
  then show ?thesis using calm_inv[OF c i] c by (simp add: partial_synced_def calm_def trade_tag_def)
qed

lemma runs_t1:
  assumes w: "work_inv w" and fresh: "fresh_ids (dk_oms d) (wk_oms w)"
  shows "runs work_inv (partial_synced w) (sync_live_t1_partial_exit d f w)"
proof (cases "lt_partial_order_id (wk_trade w)")
  case None
  then show ?thesis using w by (simp add: sync_live_t1_partial_exit_def partial_synced_def)
next
  case id: (Some oid)
  have kept: "partial_synced w False w'" if "calm w w'" for w'
    using that w by (simp add: partial_synced_def calm_def trade_tag_def)
  show ?thesis
  proof (cases "get_order_by_id oid (wk_oms w)")
    case None
    have "calm w (save_trade (upd (\<lambda>t. t\<lparr>lt_option_data_status := s\<rparr>) w))" for s
      by (rule calm_trans[OF calm_upd calm_save]) (simp add: trade_tag_def)
    then show ?thesis using id None kept by (simp add: sync_live_t1_partial_exit_def)
  next
    case p: (Some ord)
    obtain t1 pr where pr: "apply_live_t1_order_progress ord (wk_trade w) = (t1, pr)" by (rule prod.exhaust)
    have tag: "trade_tag t1 = trade_tag (wk_trade w)" using progress_tag(2)[of ord "wk_trade w"] pr by simp
    define w2 where "w2 = (if fst pr > 0 then record_execution (broker_fill_entry ''LIVE-T1-'' ord pr
        (tr_partial_raw_bid (lt_core t1)) (Some [Txt ''T1_REACHED_PARTIAL_EXIT'']) t1) (upd (\<lambda>_. t1) w) else upd (\<lambda>_. t1) w)"
    have "calm w (upd (\<lambda>_. t1) w)" by (rule calm_same) (simp_all add: upd_def tag)
    then have c: "calm w w2" by (auto simp: w2_def intro: calm_trans[OF _ calm_record])
    have i: "work_inv w2" by (rule calm_inv[OF c w])
    have id2: "lt_partial_order_id (wk_trade w2) = Some oid" "wk_oms w2 = wk_oms w" "lt_mode (wk_trade w2) = lt_mode (wk_trade w)"
        "lt_exit_order_id (wk_trade w2) = lt_exit_order_id (wk_trade w)"
      using c id by (simp_all add: calm_def trade_tag_def)
    have over: "runs work_inv (partial_synced w)
        (let w3 = t1_ended ord (fst pr) b w2 in if quantity_of (wk_trade w3) > 0 then sync_live_protective_stop d f w3 else (w3, Inr True))"
      if dead: "dead (bo_status ord) \<or> bo_status ord = FILLED" for b
    proof -
      have o: "order_over (wk_oms w2) oid" using over_found[OF w p dead] id2 by simp
      let ?w3 = "t1_ended ord (fst pr) b w2"
      note e = t1_ended_inv[OF i id2(1) o, of True ord "fst pr" b]
      have fr: "fresh_ids (dk_oms d) (wk_oms ?w3)" "work_inv ?w3" using e fresh id2(2) by (simp_all add: partial_synced_def)
      have r: "runs work_inv (partial_synced w) (sync_live_protective_stop d f ?w3)"
        by (rule runs_mono[OF runs_sync[OF fr(2,1)]])
          (use e id2 in \<open>auto simp: partial_synced_def stop_synced_def other_refs_def\<close>)
      have t: "runs work_inv (partial_synced w) (?w3, Inr True)"
        using e id2 by (simp add: partial_synced_def)
      show ?thesis unfolding Let_def using r t by simp
    qed
    have work: "partial_synced w False (save_trade w2)" by (rule kept[OF calm_trans[OF c calm_save]])
    show ?thesis
      using id p pr work over
      by (simp add: sync_live_t1_partial_exit_def Let_def w2_def[symmetric])
  qed
qed

text \<open>The entry phase and the exit order phase.\<close>

lemma calm_entry: "runs (\<lambda>w'. calm w w') (\<lambda>_ w'. calm w w') (entry_phase d w)"
proof -
  have prog: "calm w (entry_progress d ord w)" for ord w
    unfolding entry_progress_def Let_def
    by (auto intro!: calm_trans[OF _ calm_save] calm_trans[OF _ calm_upd_core] calm_upd simp: trade_tag_def)
  have same: "calm w (w\<lparr>wk_calls := cs, wk_cache := ca\<rparr>)" for w cs ca by (rule calm_same) simp_all
  have unf: "calm w (entry_unfilled d ord w)" for ord w
    unfolding entry_unfilled_def Let_def
    by (intro calm_trans[OF _ calm_save] calm_trans[OF calm_upd same]) (simp add: trade_tag_def)
  have fil: "calm w (entry_filled d ord w)" for ord w
    unfolding entry_filled_def Let_def
    by (auto intro!: calm_trans[OF _ calm_call] calm_trans[OF _ calm_record] calm_trans[OF calm_upd calm_save] simp: trade_tag_def)
  have work: "runs (calm w) (\<lambda>_. calm w) (entry_working d ord w1)" if "calm w w1" for ord w1
    using that calm_trans[OF that calm_call]
    by (auto simp: entry_working_def Let_def runs_def split: option.splits gateway_reply.splits)
  show ?thesis
    unfolding entry_phase_def Let_def
    by (auto split: option.split intro!: calm_call work prog calm_trans[OF prog unf] calm_trans[OF prog fil])
qed

text \<open>When it returns true, the OMS is untouched and the trade refers to no exit order.\<close>

definition exit_synced :: "work \<Rightarrow> bool \<Rightarrow> work \<Rightarrow> bool" where
  "exit_synced w ready w' \<longleftrightarrow> work_inv w' \<and> (ready \<longrightarrow> wk_oms w' = wk_oms w \<and> lt_mode (wk_trade w') = lt_mode (wk_trade w)
     \<and> lt_exit_order_id (wk_trade w') = None
     \<and> (lt_partial_order_id (wk_trade w) = None \<longrightarrow> lt_partial_order_id (wk_trade w') = None))"

lemma runs_exit_order:
  assumes w: "work_inv w"
  shows "runs work_inv (exit_synced w) (exit_order_phase d ci w)"
proof (cases "lt_exit_order_id (wk_trade w)")
  case None
  then show ?thesis using w by (simp add: exit_order_phase_def exit_synced_def)
next
  case id: (Some oid)
  show ?thesis
  proof (cases "get_order_by_id oid (wk_oms w)")
    case None
    then show ?thesis using id w by (simp add: exit_order_phase_def exit_synced_def)
  next
    case p: (Some ord)
    obtain t1 pr where pr: "apply_exit_order_progress ord (wk_trade w) = (t1, pr)" by (rule prod.exhaust)
    have tag: "trade_tag t1 = trade_tag (wk_trade w)" using progress_tag(1)[of ord "wk_trade w"] pr by simp
    define w2 where "w2 = (if fst pr > 0 then record_execution (broker_fill_entry ''LIVE-EXIT-'' ord pr None
        (or_reason (lt_pending_exit_reason t1) (Some [Txt ''LIVE_EXIT''])) t1) (upd (\<lambda>_. t1) w) else upd (\<lambda>_. t1) w)"
    have "calm w (upd (\<lambda>_. t1) w)" by (rule calm_same) (simp_all add: upd_def tag)
    then have c: "calm w w2" by (auto simp: w2_def intro: calm_trans[OF _ calm_record])
    have i: "work_inv w2" by (rule calm_inv[OF c w])
    have id2: "lt_exit_order_id (wk_trade w2) = Some oid" "wk_oms w2 = wk_oms w" "lt_mode (wk_trade w2) = lt_mode (wk_trade w)"
      and partial: "lt_partial_order_id (wk_trade w2) = lt_partial_order_id (wk_trade w)"
      using c id by (simp_all add: calm_def trade_tag_def)
    let ?f = "\<lambda>t. reset_exit_order_progress (t\<lparr>lt_exit_order_id := None\<rparr>)"
    have drop: "exit_synced w True (save_trade (upd ?f w2))" if "dead (bo_status ord)"
    proof -
      have s: "sound_trade (wk_oms w2) (wk_trade w2)" using i by (simp add: work_inv_def)
      have o: "order_over (wk_oms w2) oid" using over_found[OF w p] that id2 by simp
      have m: "oid \<in> set (sale_refs (wk_trade w2))" using id2(1) by (simp add: sale_refs_def List.map_filter_def)
      have "work_inv (save_trade (upd ?f w2))"
        by (rule inv_save, rule drop_inv[OF i m o])
          (use one_ref(3)[OF s] id2(1) in \<open>simp_all add: reset_exit_order_progress_def refs_empty\<close>)
      then show ?thesis using id2(2,3)
        by (simp add: exit_synced_def upd_def save_trade_def reset_exit_order_progress_def partial)
    qed
    have done_: "exit_synced w False w'" if "work_inv w'" for w' using that by (simp add: exit_synced_def)
    show ?thesis
      using id p pr drop i
      by (auto simp: exit_order_phase_def Let_def w2_def[symmetric] intro!: inv_steps done_
          split: option.splits)
  qed
qed

section \<open>The rules of the strategies\<close>

text \<open>Where the strategies decide, no exit order is referenced, and no partial one when LIVE.\<close>

definition clear_to_sell :: "desk \<Rightarrow> work \<Rightarrow> bool" where
  "clear_to_sell d w \<longleftrightarrow> work_inv w \<and> fresh_ids (dk_oms d) (wk_oms w) \<and> lt_exit_order_id (wk_trade w) = None
     \<and> (lt_mode (wk_trade w) = AUTO_LIVE \<longrightarrow> lt_partial_order_id (wk_trade w) = None)"

lemma clear_calm: "calm w w' \<Longrightarrow> clear_to_sell d w \<Longrightarrow> clear_to_sell d w'"
  by (simp add: clear_to_sell_def calm_def trade_tag_def)

lemma clear_inv: "clear_to_sell d w \<Longrightarrow> work_inv w" by (simp add: clear_to_sell_def)

lemma clear_upd: "clear_to_sell d w \<Longrightarrow> (\<And>t. trade_tag (f t) = trade_tag t) \<Longrightarrow> clear_to_sell d (upd f w)"
  by (rule clear_calm[OF calm_upd])

lemmas clear_steps = clear_upd clear_calm[OF calm_call] clear_calm[OF calm_upd_core] clear_calm[OF calm_pending]

lemma safe_decided:
  assumes "clear_to_sell d w" "\<And>w. work_inv w \<Longrightarrow> work_inv (note w)"
  shows "safe (decided_exit d f q reason note w)"
  using assms safe_submit_final[of w d f q reason]
  by (auto simp: decided_exit_def clear_to_sell_def intro!: inv_steps)

lemma safe_execute_partial: "work_inv w \<Longrightarrow> safe (execute_partial_exit d f q w)"
  unfolding execute_partial_exit_def Let_def
  by (auto split: sum.split intro!: inv_steps calm_inv[OF calm_pending])

lemma safe_partial:
  assumes "clear_to_sell d w"
  shows "safe (partial_exit_decided d f q w)"
  using assms safe_submit_t1[of w d f q] safe_execute_partial[of w d f q]
  by (simp add: partial_exit_decided_def clear_to_sell_def)

lemma decided_tags:
  "trade_tag (emergency_decided t) = trade_tag t" "trade_tag (underlying_exit_decided f event t) = trade_tag t"
  "trade_tag (mark_candidate f r t) = trade_tag t" "trade_tag (mark_option p t) = trade_tag t"
  "trade_tag (scale_out r t) = trade_tag t" "trade_tag (candidate_exit_decided f r m t) = trade_tag t"
  "trade_tag (mark_e q p t) = trade_tag t" "trade_tag (mark_e_option q t) = trade_tag t"
  "trade_tag (e_exit_decided m at_time p t) = trade_tag t" "trade_tag (apply_quote_to_trade q t) = trade_tag t"
  by (simp_all add: trade_tag_def emergency_decided_def emergency_owned_def underlying_exit_decided_def mark_candidate_def
      mark_option_def scale_out_def candidate_exit_decided_def mark_e_def mark_e_option_def e_exit_decided_def
      apply_quote_to_trade_def Let_def split: option.split)

lemma safe_a_signal:
  assumes "clear_to_sell d w"
  shows "safe (strategy_a_signal d f q event w)"
  unfolding strategy_a_signal_def Let_def
  by (auto intro!: safe_decided safe_partial inv_steps clear_steps assms clear_inv[OF assms] calm_inv[OF calm_pending] decided_tags)

lemma safe_strategy_a:
  assumes "clear_to_sell d w"
  shows "safe (evaluate_strategy_a d f ci w)"
  unfolding evaluate_strategy_a_def Let_def
  by (auto split: prod.split verdict.split
      intro!: safe_decided safe_a_signal inv_steps clear_steps assms clear_inv[OF assms])

lemma safe_candidate:
  assumes "clear_to_sell d w"
  shows "safe (evaluate_candidate d f ci w)"
proof -
  have t1: "safe (submit_live_t1_partial_exit d f q w1)" if "clear_to_sell d w1" "lt_mode (wk_trade w1) = AUTO_LIVE" for q w1
    using that safe_submit_t1 by (simp add: clear_to_sell_def)
  have stage: "safe (candidate_stage_exit d f q r reason w1)" if "clear_to_sell d w1" for q r reason w1
    unfolding candidate_stage_exit_def Let_def
    by (auto intro!: safe_decided inv_steps clear_steps that clear_inv[OF that] decided_tags)
  show ?thesis
    unfolding evaluate_candidate_def Let_def
    by (auto split: option.split intro!: stage t1 safe_execute_partial inv_steps clear_steps assms clear_inv[OF assms] decided_tags
        simp: trade_tag_def)
qed

lemma safe_strategy_e:
  assumes "clear_to_sell d w"
  shows "safe (evaluate_strategy_e d f ci w)"
  unfolding evaluate_strategy_e_def Let_def
  by (auto split: option.split sum.split
      intro!: safe_decided inv_steps clear_steps assms clear_inv[OF assms] decided_tags simp: trade_tag_def)

lemma safe_strategy_b:
  assumes "clear_to_sell d w"
  shows "safe (evaluate_strategy_b d f ci w)"
proof -
  have live: "safe (live_exit_b d f q r (upd_core g w))" if "lt_mode (wk_trade w) = AUTO_LIVE" for q r g
    using safe_live_b[of "upd_core g w" d f q r] clear_calm[OF calm_upd_core assms, of g] that
    by (simp add: clear_to_sell_def upd_core_def upd_def)
  show ?thesis
    unfolding evaluate_strategy_b_def Let_def
    by (auto split: option.split prod.split verdict.split
        intro!: live safe_partial inv_steps clear_steps assms clear_inv[OF assms])
qed

lemma safe_strategy_phase:
  assumes "clear_to_sell d w"
  shows "safe (strategy_phase d f ci w)"
  unfolding strategy_phase_def Let_def
  by (auto split: strategy_name.split
      intro!: safe_strategy_a safe_strategy_b safe_strategy_e safe_candidate clear_steps assms decided_tags)

section \<open>The cycle\<close>

lemma safe_go_on: "runs work_inv P m \<Longrightarrow> (\<And>w. P True w \<Longrightarrow> safe (f w)) \<Longrightarrow> (\<And>w. P False w \<Longrightarrow> work_inv w) \<Longrightarrow> safe (go_on m f)"
  unfolding go_on_def by (erule runs_andthen) auto

lemma safe_evaluate:
  assumes w: "work_inv w" and fresh: "fresh_ids (dk_oms d) (wk_oms w)"
  shows "safe (evaluate_active_trade d ci w)"
proof -
  have entry: "runs work_inv (\<lambda>_ w1. work_inv w1 \<and> fresh_ids (dk_oms d) (wk_oms w1)) (entry_phase d w)"
    using calm_entry[of w d] w fresh by (auto simp: runs_def calm_def split: sum.splits)
  have prot: "runs work_inv (\<lambda>b w2. work_inv w2 \<and> (b \<longrightarrow> fresh_ids (dk_oms d) (wk_oms w2))) (protection_phase d f w1)"
    if "work_inv w1" "fresh_ids (dk_oms d) (wk_oms w1)" for f w1
    using that unfolding protection_phase_def
    by (auto intro!: runs_andthen[OF runs_sync] simp: stop_synced_def)
  have part: "runs work_inv (\<lambda>b w3. work_inv w3 \<and> (b \<longrightarrow> fresh_ids (dk_oms d) (wk_oms w3)
      \<and> (lt_mode (wk_trade w3) = AUTO_LIVE \<longrightarrow> lt_partial_order_id (wk_trade w3) = None))) (partial_exit_phase d f w2)"
    if "work_inv w2" "fresh_ids (dk_oms d) (wk_oms w2)" for f w2
    using that unfolding partial_exit_phase_def
    by (auto intro!: runs_andthen[OF runs_t1] simp: partial_synced_def)
  show ?thesis
    unfolding evaluate_active_trade_def Let_def
    by (intro safe_go_on[OF entry] safe_go_on[OF prot] safe_go_on[OF part] safe_go_on[OF runs_exit_order] safe_strategy_phase)
      (auto simp: exit_synced_def clear_to_sell_def)
qed

lemma safe_manage:
  assumes "desk_inv w" "fresh_ids (dk_oms d) (wk_oms w)"
  shows "desk_inv (fst (manage_trade d ci tid w))"
proof (cases "load_trade tid w")
  case None
  then show ?thesis using assms(1) by (simp add: manage_trade_def)
next
  case (Some w1)
  then obtain t where t: "row_get lt_trade_id tid (wk_rows w) = Some t" "w1 = w\<lparr>wk_trade := t\<rparr>"
    by (auto simp: load_trade_def split: option.splits if_splits)
  have "t \<in> set (wk_rows w)" using row_get_Some[OF t(1)] by simp
  then have i: "work_inv w1" using assms(1) t(2) by (auto simp: work_inv_def desk_inv_def list_all_iff)
  have "fresh_ids (dk_oms d) (wk_oms w1)" using assms(2) t(2) by simp
  from safe_evaluate[OF i this, of ci] show ?thesis
    using Some by (cases "evaluate_active_trade d ci w1"; cases "snd (evaluate_active_trade d ci w1)")
      (simp_all add: manage_trade_def work_inv_def)
qed

section \<open>Runs\<close>

text \<open>A trade that has no exit and no partial order (the desk stores none with the mode DISABLED).\<close>

definition no_exit_working :: "string \<Rightarrow> work \<Rightarrow> bool" where
  "no_exit_working tid w \<longleftrightarrow> (case row_get lt_trade_id tid (wk_rows w) of
     Some t \<Rightarrow> lt_exit_order_id t = None \<and> lt_partial_order_id t = None \<and> lt_mode t \<noteq> AUTO_DISABLED | None \<Rightarrow> True)"

lemma safe_manual:
  assumes "desk_inv w" "fresh_ids (dk_oms d) (wk_oms w)" "no_exit_working tid w"
  shows "desk_inv (fst (manual_exit_trade d ci tid reason w))"
proof (cases "load_trade tid w")
  case None
  then show ?thesis using assms(1) by (simp add: manual_exit_trade_def)
next
  case (Some w1)
  then obtain t where t: "row_get lt_trade_id tid (wk_rows w) = Some t" "w1 = w\<lparr>wk_trade := t\<rparr>"
    by (auto simp: load_trade_def split: option.splits if_splits)
  have "t \<in> set (wk_rows w)" using row_get_Some[OF t(1)] by simp
  then have i: "work_inv w1" using assms(1) t(2) by (auto simp: work_inv_def desk_inv_def list_all_iff)
  let ?w = "upd (apply_quote_to_trade (ci_quote ci)) w1"
  have w: "work_inv ?w" by (intro inv_upd i decided_tags)
  have fresh: "fresh_ids (dk_oms d) (wk_oms ?w)" using assms(2) t(2) by (simp add: upd_def)
  have keep: "lt_mode (wk_trade ?w) = lt_mode t" "lt_exit_order_id (wk_trade ?w) = None" "lt_partial_order_id (wk_trade ?w) = None"
      "lt_mode t \<noteq> AUTO_DISABLED"
    using assms(3) t by (simp_all add: upd_def apply_quote_to_trade_def no_exit_working_def)
  have "safe (manual_exit_trade d ci tid reason w)"
    unfolding manual_exit_trade_def Some option.case Let_def using w keep fresh
    by (cases "lt_mode t") (auto intro!: inv_steps safe_after_cancel safe_submit_at simp: trade_tag_def)
  then show ?thesis
    by (cases "manual_exit_trade d ci tid reason w"; cases "snd (manual_exit_trade d ci tid reason w)") (simp_all add: work_inv_def)
qed

text \<open>
  The desk as it runs: new trades are stored without exit orders, cycles manage stored trades in any
  order, the operator exits trades that have no exit or partial order by hand, and the OMS runs on in
  between; nobody else creates a sale under the identifier of a trade.
\<close>

inductive desk_reachable :: "work \<Rightarrow> bool" where
  start: "oms_reachable (wk_oms w) \<Longrightarrow> wk_rows w = [] \<Longrightarrow> desk_reachable w"
| entry: "desk_reachable w \<Longrightarrow> sale_refs t = [] \<Longrightarrow> working_sales (lt_trade_id t) (wk_oms w) = [] \<Longrightarrow>
     desk_reachable (w\<lparr>wk_rows := wk_rows w @ [t]\<rparr>)"
| cycle: "desk_reachable w \<Longrightarrow> fresh_ids (dk_oms d) (wk_oms w) \<Longrightarrow> desk_reachable (fst (manage_trade d ci tid w))"
| manual: "desk_reachable w \<Longrightarrow> fresh_ids (dk_oms d) (wk_oms w) \<Longrightarrow> no_exit_working tid w \<Longrightarrow>
     desk_reachable (fst (manual_exit_trade d ci tid reason w))"
| oms: "desk_reachable w \<Longrightarrow> oms_runs_on (map lt_trade_id (wk_rows w)) (wk_oms w) db \<Longrightarrow> desk_reachable (w\<lparr>wk_oms := db\<rparr>)"

lemma desk_reachable_inv: "desk_reachable w \<Longrightarrow> desk_inv w"
proof (induction rule: desk_reachable.induct)
  case (start w)
  then show ?case by (simp add: desk_inv_def oms_reachable_inv)
next
  case (entry w t)
  then have "sound_trade (wk_oms w) t" by (simp add: sound_trade_def owned_def live_sales_def)
  then show ?case using entry by (simp add: desk_inv_def)
next
  case (cycle w d ci tid)
  then show ?case by (intro safe_manage)
next
  case (manual w d tid ci reason)
  then show ?case by (intro safe_manual)
next
  case (oms w db)
  then obtain env op where s: "oms_inv (wk_oms w)" "op_fresh env op (wk_oms w)" "db = oms_step env op (wk_oms w)"
    by (auto simp: oms_runs_on_def)
  have "sound_trade db t" if "t \<in> set (wk_rows w)" for t
    using exit_book.survives[OF _ oms(2), of "lt_trade_id t" "sale_refs t"] oms.IH that
    by (simp add: sound_trade_def desk_inv_def list_all_iff)
  then show ?case using oms_step_inv[OF s(1,2)] s(3) by (simp add: desk_inv_def list_all_iff)
qed

section \<open>Placing the stop\<close>

lemma option_tick_price_number: "option_tick_price v down = Inr p \<Longrightarrow> p \<noteq> NaN"
  by (auto simp: option_tick_price_def tick_def pmax_def split: if_splits sum.splits)

lemma protective_prices_numbers:
  assumes "protective_stop_prices d t = Inr (trigger, limit_price)"
  shows "trigger \<noteq> NaN \<and> limit_price \<noteq> NaN"
  using assms option_tick_price_number by (auto simp: protective_stop_prices_def split: sum.splits if_splits)

lemma oms_create_works:
  assumes fresh: "fresh_ids (dk_oms d) (wk_oms w)" and number: "oi_price intent \<noteq> NaN"
    and unused: "row_get oi_intent_id (oi_intent_id intent) (od_intents (wk_oms w)) = None"
  obtains db where "oms_create d intent w =
      (w\<lparr>wk_oms := db\<rparr>, Inr ((initial_order (dk_oms d) intent)\<lparr>bo_status := VALIDATING\<rparr>))"
    "created_row (dk_oms d) intent \<in> set (od_orders db)"
    "map_option oi_correlation_id (row_get oi_intent_id (oi_intent_id intent) (od_intents db)) = Some (oi_correlation_id intent)"
proof -
  obtain db1 where s: "save_order_intent (dk_oms d) 2 intent ORDER_INTENT (wk_oms w) = Inr db1"
    using fresh number unused by (auto simp: save_order_intent_def add_outbox_event_def row_insert_def fresh_ids_def)
  obtain oc where oc: "create_order_intent (dk_oms d) intent (wk_oms w)
      = (Some ((initial_order (dk_oms d) intent)\<lparr>bo_status := VALIDATING\<rparr>), oc)"
    "get_order_by_id (uuid (dk_oms d) 1) (oc_state oc) = Some (created_row (dk_oms d) intent)"
    "od_intents (oc_state oc) = od_intents db1"
    by (rule create_commits[OF fresh s])
  show ?thesis
    using oc save_intent_intents(1)[OF s, of "oi_intent_id intent"] row_get_Some[OF oc(2)[unfolded get_order_by_id_def]]
    by (intro that[of "oc_state oc"]) (simp_all add: oms_create_def)
qed

lemma created_row_fields:
  "bo_order_id (created_row env i) = uuid env 1" "bo_intent_id (created_row env i) = oi_intent_id i"
  "bo_side (created_row env i) = oi_side i" "bo_quantity (created_row env i) = oi_quantity i"
  "bo_order_type (created_row env i) = oi_order_type i" "bo_price (created_row env i) = oi_price i"
  "bo_trigger_price (created_row env i) = sql_real_opt (oi_trigger_price i)" "bo_status (created_row env i) = VALIDATING"
  by (simp_all add: created_row_def merge_order_def order_row_def initial_order_def)

lemma get_replaced:
  "keyof r = k \<Longrightarrow> row_get keyof k (row_upsert keyof (\<lambda>old new. new) r rows) = Some r"
proof -
  assume k: "keyof r = k"
  have "row_get keyof k (row_update keyof k (\<lambda>old. r) rows) = map_option (\<lambda>old. r) (row_get keyof k rows)"
    using k by (induction rows) (auto simp: row_update_def)
  then show ?thesis using k by (auto simp: row_upsert_def row_get_snoc split: option.split)
qed

lemma protective_placed:
  assumes fresh: "fresh_ids (dk_oms d) (wk_oms w)" "row_get oi_intent_id (dk_intent_id d) (od_intents (wk_oms w)) = None"
    and t: "sale_refs (wk_trade w) = []" "\<not> given (lt_pending_exit_reason (wk_trade w))"
    and prices: "protective_stop_prices d (wk_trade w) = Inr (trigger, limit_price)"
  shows "\<exists>w' ord. place_protective_stop d q w = (w', Inr False)
    \<and> ord \<in> set (working_sales (lt_trade_id (wk_trade w)) (wk_oms w'))
    \<and> bo_order_type ord = STOP_LIMIT \<and> bo_quantity ord = q \<and> bo_trigger_price ord = Some trigger \<and> bo_price ord = limit_price
    \<and> row_get lt_trade_id (lt_trade_id (wk_trade w)) (wk_rows w') = Some (wk_trade w')
    \<and> st_order_id (lt_stop (wk_trade w')) = Some (bo_order_id ord)"
proof -
  let ?i = "protective_intent d trigger limit_price q (wk_trade w)" let ?env = "dk_oms d"
  have i: "oi_intent_id ?i = dk_intent_id d" "oi_price ?i = limit_price" "oi_trigger_price ?i = Some trigger"
    "oi_quantity ?i = q" "oi_side ?i = SELL" "oi_order_type ?i = STOP_LIMIT"
    "oi_correlation_id ?i = lt_trade_id (wk_trade w)" by (simp_all add: protective_intent_def)
  have nums: "trigger \<noteq> NaN" "limit_price \<noteq> NaN" using protective_prices_numbers[OF prices] by auto
  obtain db where db: "oms_create d ?i w = (w\<lparr>wk_oms := db\<rparr>, Inr ((initial_order ?env ?i)\<lparr>bo_status := VALIDATING\<rparr>))"
    "created_row ?env ?i \<in> set (od_orders db)"
    "map_option oi_correlation_id (row_get oi_intent_id (oi_intent_id ?i) (od_intents db)) = Some (oi_correlation_id ?i)"
    using oms_create_works[OF fresh(1), of ?i] fresh(2) i nums by metis
  have refs: "lt_exit_order_id (wk_trade w) = None" "lt_partial_order_id (wk_trade w) = None"
    using t(1) by (auto simp: sale_refs_def split: option.splits)
  let ?stop = "\<lambda>s. (forget_stop s)\<lparr>st_order_id := Some (uuid ?env 1), st_status := order_state_value VALIDATING,
     st_trigger_price := Some trigger, st_limit_price := Some limit_price\<rparr>"
  let ?w = "call (Decision ''RISK'' ''Broker-held option catastrophe stop submitted'') (save_trade (upd_stop ?stop (w\<lparr>wk_oms := db\<rparr>)))"
  have "place_protective_stop d q w = (?w, Inr False)"
    using refs t(2) db(1) prices by (simp add: place_protective_stop_def Let_def andthen_def initial_order_def)
  moreover have "created_row ?env ?i \<in> set (working_sales (lt_trade_id (wk_trade w)) (wk_oms ?w))"
    using db(2,3) i by (simp add: working_sales_def sale_of_def created_row_fields call_def save_trade_def upd_stop_def upd_def terminal_def)
  moreover have "row_get lt_trade_id (lt_trade_id (wk_trade w)) (wk_rows ?w) = Some (wk_trade ?w)"
    by (simp add: call_def save_trade_def upd_stop_def upd_def get_replaced)
  moreover have "st_order_id (lt_stop (wk_trade ?w)) = Some (uuid ?env 1)" by (simp add: call_def save_trade_def upd_stop_def upd_def)
  ultimately show ?thesis using i nums by (auto simp: created_row_fields sql_real_opt_def)
qed

section \<open>Properties\<close>

text \<open>A trade of 150 whose first cycle submits the protective stop, one tick above zero.\<close>

definition demo_stop :: stop_watch where
  "demo_stop = \<lparr>st_order_id = None, st_status = ''NOT_REQUIRED'', st_trigger_price = None, st_limit_price = None,
     st_filled_quantity = 0, st_filled_proceeds = Fin 0, st_cancel_for_exit = False, st_failures = 0,
     st_failure_reason = None, st_failure_at = None, st_cancel_attempts = 0, st_cancel_requested_at = None\<rparr>"

definition demo_live :: live_trade where
  "demo_live = \<lparr>lt_core = demo_trade\<lparr>tr_strategy := TREND_PULLBACK, tr_hard_stop := Fin 0\<rparr>, lt_trade_id = ''T1'', lt_mode = AUTO_LIVE,
     lt_contract_instrument_id = ''NIFTY-CE'', lt_contract_symbol = ''NIFTY'', lt_entry_order_id = None, lt_exit_order_id = None,
     lt_filled_quantity = 150, lt_pending_exit_reason = None, lt_exit_filled = 0, lt_exit_proceeds = Fin 0,
     lt_exit_accounted = 0, lt_exit_accounted_proceeds = Fin 0, lt_stop = demo_stop, lt_quote = None,
     lt_option_data_status = ''ENTRY_CAPTURED'', lt_quality_reasons = [], lt_entry_bid = None, lt_entry_ask = None,
     lt_entry_ltp = None, lt_entry_raw_ask = None, lt_entry_executable_price = None, lt_exit_time = None,
     lt_exit_option_price = None, lt_exit_spot_price = None, lt_exit_reason = None, lt_costs = None,
     lt_realized_r = None, lt_runner_realized_r = None, lt_underlying_exit_reason = None, lt_underlying_exit_time = None,
     lt_underlying_exit_price = None, lt_underlying_outcome_status = None, lt_pending_underlying_exit_time = None,
     lt_option_exit_reason = None, lt_option_exit_time = None, lt_partial_proceeds = Fin 0, lt_partial_order_id = None,
     lt_partial_accounted = 0, lt_partial_accounted_proceeds = Fin 0, lt_final_exit_quantity = None,
     lt_execution_order_count = 0, lt_selected_snapshot = True, lt_signal_id = None, lt_futures_contract_id = None,
     lt_strategy_target_price = None\<rparr>"

definition demo_quote :: option_quote where
  "demo_quote = \<lparr>oq_timestamp = Some 0, oq_source = Some ''LIVE'', oq_freshness = Some (Fin 1), oq_bid = Some (Fin 60),
     oq_ask = Some (Fin 61), oq_ltp = Some (Fin 60), oq_volume = None, oq_open_interest = None, oq_status = ''VALID'',
     oq_reason = None\<rparr>"

definition demo_desk :: "string \<Rightarrow> desk" where
  "demo_desk i = \<lparr>dk_now = (\<lambda>_. 0), dk_oms = \<lparr>clock = (\<lambda>_. 0), uuid = (\<lambda>n. i @ show_nat n)\<rparr>, dk_intent_id = ''I'' @ i,
     dk_ledger_id = ''L'' @ i, dk_gateway = None,
     dk_risk = default_risk_limits\<lparr>rk_protective_stop_limit_buffer_pct := Fin 100\<rparr>, dk_live_orders_enabled = True\<rparr>"

definition demo_work :: "live_trade \<Rightarrow> work" where
  "demo_work t = \<lparr>wk_trade = t, wk_rows = [t], wk_oms = oms_empty, wk_armed = True, wk_ledger = [], wk_cache = [],
     wk_last_loss_exit = None, wk_calls = []\<rparr>"

definition demo_cycle :: cycle_input where
  "demo_cycle = \<lparr>ci_features = demo_features, ci_quote = demo_quote, ci_executable_bid = None,
     ci_manager = default_manager, ci_strategy_c = \<lparr>ls_active_execution = None, ls_active_paper = None,
       ls_paper_trades = [], ls_active_candidate = None\<rparr>,
     ci_strategy_d = \<lparr>ls_active_execution = None, ls_active_paper = None, ls_paper_trades = [], ls_active_candidate = None\<rparr>,
     ci_futures_tick = (\<lambda>_. None), ci_futures_5m = [], ci_e_forced_exit_time = ''15:15''\<rparr>"

lemma demo_desk_reachable: "desk_reachable (demo_work demo_live)"
proof -
  have "desk_reachable ((demo_work demo_live)\<lparr>wk_rows := []\<rparr>)"
    by (rule desk_reachable.start) (simp_all add: demo_work_def oms_reachable.start)
  from desk_reachable.entry[OF this, of demo_live] show ?thesis
    by (simp add: demo_work_def demo_live_def demo_stop_def refs_empty working_sales_def oms_empty_def)
qed

lemma demo_fresh: "fresh_ids (dk_oms (demo_desk ''a'')) oms_empty"
  by (simp add: fresh_ids_def demo_desk_def oms_empty_def get_order_by_id_def get_order_by_client_id_def show_nat_inj)

lemma tick_steps: "\<exists>r. tick = Fin r"
proof -
  have "rnd (1 / 20) = Fin (fl (1 / 20))" by (rule rnd_small) simp
  then show ?thesis by (auto simp: tick_def flit_def)
qed

lemma demo_prices: "protective_stop_prices (demo_desk i) demo_live = Inr (tick, tick)"
proof -
  obtain r where r: "tick = Fin r" using tick_steps by auto
  show ?thesis
    by (simp add: protective_stop_prices_def option_tick_price_def demo_desk_def demo_live_def quot_def float_eval r)
qed

lemma demo_cycle_places:
  assumes "place_protective_stop (demo_desk i) 150 (demo_work demo_live) = (w, Inr False)"
  shows "manage_trade (demo_desk i) demo_cycle ''T1'' (demo_work demo_live) = (w, Inr ())"
proof -
  let ?d = "demo_desk i" and ?s = "demo_work demo_live"
  have f: "lt_core demo_live = demo_trade\<lparr>tr_strategy := TREND_PULLBACK, tr_hard_stop := Fin 0\<rparr>" "lt_trade_id demo_live = ''T1''"
    "lt_entry_order_id demo_live = None" "lt_mode demo_live = AUTO_LIVE" "lt_filled_quantity demo_live = 150"
    "lt_exit_filled demo_live = 0" "st_order_id (lt_stop demo_live) = None"
    by (simp_all add: demo_live_def demo_stop_def)
  have s: "wk_trade ?s = demo_live" "wk_rows ?s = [demo_live]" by (simp_all add: demo_work_def)
  have state: "tr_state (lt_core demo_live) = OPEN_INITIAL_RISK" using f by (simp add: demo_trade_def)
  have open150: "open_quantity demo_live = 150" using f by (simp add: open_quantity_def demo_trade_def)
  have load: "load_trade ''T1'' ?s = Some ?s" using s f state by (simp add: load_trade_def demo_work_def)
  have entry: "entry_phase ?d ?s = (?s, Inr True)" using s f state by (simp add: entry_phase_def Let_def)
  have sync: "sync_live_protective_stop ?d g ?s = (w, Inr False)" for g
    using s f state open150 assms by (simp add: sync_live_protective_stop_def Let_def)
  show ?thesis
    using s f by (simp add: manage_trade_def load evaluate_active_trade_def Let_def go_on_def andthen_def entry protection_phase_def sync)
qed

lemma demo_stop_placed:
  obtains w ord where "desk_reachable w" "ord \<in> set (working_sales (lt_trade_id (wk_trade w)) (wk_oms w))" "wk_trade w \<in> set (wk_rows w)"
proof -
  let ?d = "demo_desk ''a''" and ?s = "demo_work demo_live"
  have s: "wk_trade ?s = demo_live" "wk_oms ?s = oms_empty" by (simp_all add: demo_work_def)
  have "\<not> given (lt_pending_exit_reason demo_live)" "sale_refs demo_live = []"
    by (simp_all add: demo_live_def demo_stop_def given_def sale_refs_def)
  then obtain w ord where p: "place_protective_stop ?d 150 ?s = (w, Inr False)"
    "ord \<in> set (working_sales (lt_trade_id demo_live) (wk_oms w))"
    "row_get lt_trade_id (lt_trade_id demo_live) (wk_rows w) = Some (wk_trade w)"
    using protective_placed[of ?d ?s tick tick 150] demo_fresh demo_prices s by (auto simp: oms_empty_def)
  have "desk_reachable w"
    using desk_reachable.cycle[OF demo_desk_reachable, of ?d demo_cycle "''T1''"] demo_fresh s demo_cycle_places[OF p(1)] by simp
  then show ?thesis using that p(2) row_get_Some[OF p(3)] by auto
qed

text \<open>
  C5. One sale at a time: in every state the desk reaches by storing new trades, running management
  cycles, exiting by hand trades that have no exit and no partial order, and steps of the OMS, a trade
  has at most one SELL order in the OMS that is not final, and the trade knows it as its protective
  stop, its partial exit or its exit order.  (A manual exit beside a working exit order adds a second
  sale, as shown below.)
\<close>

theorem one_sale_at_a_time:
  assumes "desk_reachable w" "t \<in> set (wk_rows w)"
  shows "length (working_sales (lt_trade_id t) (wk_oms w)) \<le> 1
    \<and> set (map bo_order_id (working_sales (lt_trade_id t) (wk_oms w))) \<subseteq> set (sale_refs t)"
proof -
  let ?s = "working_sales (lt_trade_id t) (wk_oms w)"
  have i: "oms_inv (wk_oms w)" "owned (live_sales (lt_trade_id t) (wk_oms w)) (sale_refs t)"
    using desk_reachable_inv[OF assms(1)] assms(2) by (auto simp: desk_inv_def list_all_iff sound_trade_def)
  have "distinct (map bo_order_id (od_orders (wk_oms w)))" using i(1) by (simp add: oms_inv_def keys_distinct_def)
  then have d: "distinct (map bo_order_id ?s)" by (simp add: working_sales_def distinct_map_filter)
  have sub: "set (map bo_order_id ?s) \<subseteq> set (sale_refs t)" "length (sale_refs t) \<le> 1"
    using i(2) by (simp_all add: owned_def live_sales_def)
  have "length ?s = card (set (map bo_order_id ?s))" using distinct_card[OF d] by simp
  also have "\<dots> \<le> card (set (sale_refs t))" using sub(1) by (rule card_mono[rotated]) simp
  also have "\<dots> \<le> 1" using card_length[of "sale_refs t"] sub(2) by linarith
  finally show ?thesis using sub(1) by simp
qed

theorem one_sale_at_a_time_witness:
  "\<exists>(w::work) t. t \<in> set (wk_rows w) \<and> length (working_sales (lt_trade_id t) (wk_oms w)) = 1 \<and> length (sale_refs t) = 1"
proof -
  obtain w ord where r: "desk_reachable w" and o: "ord \<in> set (working_sales (lt_trade_id (wk_trade w)) (wk_oms w))"
    and t: "wk_trade w \<in> set (wk_rows w)"
    by (rule demo_stop_placed)
  have "length (working_sales (lt_trade_id (wk_trade w)) (wk_oms w)) = 1"
    using one_sale_at_a_time[OF r t] o by (cases "working_sales (lt_trade_id (wk_trade w)) (wk_oms w)") auto
  moreover have "sale_refs (wk_trade w) \<noteq> []" using one_sale_at_a_time[OF r t] o by auto
  moreover have "length (sale_refs (wk_trade w)) \<le> 1"
    using desk_reachable_inv[OF r] t by (simp add: desk_inv_def list_all_iff sound_trade_def owned_def)
  ultimately have "wk_trade w \<in> set (wk_rows w) \<and> length (working_sales (lt_trade_id (wk_trade w)) (wk_oms w)) = 1
    \<and> length (sale_refs (wk_trade w)) = 1"
    using t by (simp add: le_Suc_eq)
  then show ?thesis by blast
qed

text \<open>
  C23. An unprotected position gets its stop: when a filled LIVE trade with open quantity has no exit
  order of any kind, no exit reason pending and prices for a stop, reconciling its protection leaves a
  working STOP_LIMIT sale of exactly the open quantity in the OMS, at those prices, and the stored
  trade names it.
\<close>

theorem unprotected_gets_stop:
  assumes "lt_mode (wk_trade w) = AUTO_LIVE" "lt_filled_quantity (wk_trade w) > 0" "tr_state (lt_core (wk_trade w)) \<noteq> CLOSED"
    and "open_quantity (wk_trade w) > 0" "sale_refs (wk_trade w) = []" "\<not> given (lt_pending_exit_reason (wk_trade w))"
    and "protective_stop_prices d (wk_trade w) = Inr (trigger, limit_price)"
    and "fresh_ids (dk_oms d) (wk_oms w)" "row_get oi_intent_id (dk_intent_id d) (od_intents (wk_oms w)) = None"
  shows "\<exists>w' ord. sync_live_protective_stop d f w = (w', Inr False)
    \<and> ord \<in> set (working_sales (lt_trade_id (wk_trade w)) (wk_oms w')) \<and> bo_order_type ord = STOP_LIMIT
    \<and> bo_quantity ord = open_quantity (wk_trade w) \<and> bo_trigger_price ord = Some trigger \<and> bo_price ord = limit_price
    \<and> row_get lt_trade_id (lt_trade_id (wk_trade w)) (wk_rows w') = Some (wk_trade w')
    \<and> st_order_id (lt_stop (wk_trade w')) = Some (bo_order_id ord)"
proof -
  have "st_order_id (lt_stop (wk_trade w)) = None" using assms(5) by (auto simp: sale_refs_def split: option.splits)
  then have "sync_live_protective_stop d f w = place_protective_stop d (open_quantity (wk_trade w)) w"
    using assms(1-4) by (simp add: sync_live_protective_stop_def Let_def)
  then show ?thesis using protective_placed[OF assms(8,9,5,6,7), of "open_quantity (wk_trade w)"] by simp
qed

theorem unprotected_gets_stop_witness:
  "\<exists>w. snd (sync_live_protective_stop (demo_desk ''a'') demo_features (demo_work demo_live)) = Inr False
    \<and> w = fst (sync_live_protective_stop (demo_desk ''a'') demo_features (demo_work demo_live))
    \<and> working_sales ''T1'' (wk_oms w) \<noteq> []"
proof -
  have d: "wk_trade (demo_work demo_live) = demo_live" "wk_oms (demo_work demo_live) = oms_empty" by (simp_all add: demo_work_def)
  have f: "lt_mode demo_live = AUTO_LIVE" "lt_filled_quantity demo_live > 0" "tr_state (lt_core demo_live) \<noteq> CLOSED"
    "open_quantity demo_live > 0" "sale_refs demo_live = []" "\<not> given (lt_pending_exit_reason demo_live)" "lt_trade_id demo_live = ''T1''"
    by (simp_all add: demo_live_def demo_stop_def demo_trade_def open_quantity_def sale_refs_def given_def)
  show ?thesis
    using unprotected_gets_stop[of "demo_work demo_live" "demo_desk ''a''" tick tick demo_features, unfolded d] f demo_prices demo_fresh
    by (auto simp: oms_empty_def)
qed

section \<open>A position nobody sells\<close>

text \<open>A filled LIVE position without any exit order whose pending exit is left to a protective stop.\<close>

definition stranded :: "live_trade \<Rightarrow> bool" where
  "stranded t \<longleftrightarrow> lt_mode t = AUTO_LIVE \<and> lt_filled_quantity t > 0 \<and> tr_state (lt_core t) \<notin> {CLOSED, ENTRY_PENDING}
     \<and> open_quantity t > 0 \<and> sale_refs t = [] \<and> lt_pending_exit_reason t = Some OPTION_EMERGENCY_STOP
     \<and> tr_strategy (lt_core t) \<in> {TREND_PULLBACK, PIVOT_VWAP_SCALP}"

lemma refs_Nil: "sale_refs t = [] \<longleftrightarrow> st_order_id (lt_stop t) = None \<and> lt_partial_order_id t = None \<and> lt_exit_order_id t = None"
  by (auto simp: sale_refs_def split: option.splits)

lemma stranded_marks:
  "stranded (apply_quote_to_trade q t) = stranded t" "stranded (mark_e_option q t) = stranded t"
  "lt_pending_exit_reason t = Some OPTION_EMERGENCY_STOP \<Longrightarrow> stranded (emergency_owned t) = stranded t"
  by (simp_all add: stranded_def refs_Nil open_quantity_def apply_quote_to_trade_def mark_e_option_def emergency_owned_def Let_def
      split: option.split)

lemma emergency_given: "given (Some OPTION_EMERGENCY_STOP)" "is_option_emergency_stop (Some OPTION_EMERGENCY_STOP)"
  by (simp_all add: given_def is_option_emergency_stop_def OPTION_EMERGENCY_STOP_def)

lemma stranded_decided:
  assumes "stranded (wk_trade w)"
  shows "wk_oms (fst (decided_exit d f q (Some OPTION_EMERGENCY_STOP) note w)) = wk_oms w
    \<and> stranded (wk_trade (fst (decided_exit d f q (Some OPTION_EMERGENCY_STOP) note w)))"
  using assms stranded_marks(3)[of "wk_trade w"]
  by (simp add: decided_exit_def submit_live_final_exit_def stranded_def refs_Nil emergency_given save_trade_def upd_def)

text \<open>A step that leaves the OMS alone and the position stranded.\<close>

definition left_stranded :: "work \<Rightarrow> unit act \<Rightarrow> bool" where
  "left_stranded w r \<longleftrightarrow> wk_oms (fst r) = wk_oms w \<and> stranded (wk_trade (fst r))"

lemma left_a: "stranded (wk_trade w) \<Longrightarrow> left_stranded w (evaluate_strategy_a d f ci w)"
  using stranded_decided[of w d f "ci_quote ci" id]
  by (auto simp: left_stranded_def evaluate_strategy_a_def Let_def stranded_def[of "wk_trade w"] emergency_given save_trade_def)

lemma left_e:
  assumes "stranded (wk_trade w)"
  shows "left_stranded w (evaluate_strategy_e d f ci w)"
proof -
  let ?m = "upd (mark_e_option (ci_quote ci)) w"
  have m: "stranded (wk_trade ?m)" "wk_oms ?m = wk_oms w" using assms by (simp_all add: upd_def stranded_marks)
  then have "lt_pending_exit_reason (wk_trade ?m) = Some OPTION_EMERGENCY_STOP" by (simp add: stranded_def)
  then show ?thesis using stranded_decided[OF m(1), of d f "ci_quote ci" id] m
    by (auto simp: left_stranded_def evaluate_strategy_e_def Let_def emergency_given save_trade_def)
qed

lemma left_strategy:
  assumes "stranded (wk_trade w)"
  shows "left_stranded w (strategy_phase d f ci w)"
proof -
  let ?q = "upd (apply_quote_to_trade (ci_quote ci)) w"
  have q: "stranded (wk_trade ?q)" "wk_oms ?q = wk_oms w" using assms by (simp_all add: upd_def stranded_marks)
  then have s: "tr_strategy (lt_core (wk_trade ?q)) \<in> {TREND_PULLBACK, PIVOT_VWAP_SCALP}" by (simp add: stranded_def)
  then show ?thesis using left_a[OF q(1), of d f ci] left_e[OF q(1), of d f ci] q(2)
    by (auto simp: strategy_phase_def Let_def left_stranded_def)
qed

lemma stranded_cycle:
  assumes "stranded (wk_trade w)"
  shows "wk_oms (fst (evaluate_active_trade d ci w)) = wk_oms w \<and> stranded (wk_trade (fst (evaluate_active_trade d ci w)))"
proof -
  note s = assms[unfolded stranded_def refs_Nil]
  let ?f = "usable_features (wk_trade w) (ci_features ci)" let ?c = "ci\<lparr>ci_features := ?f\<rparr>"
  have "entry_phase d w = (w, Inr True)" using s by (auto simp: entry_phase_def Let_def split: option.split)
  moreover have "sync_live_protective_stop d ?f w = (w, Inr True)"
    using s by (simp add: sync_live_protective_stop_def Let_def place_protective_stop_def emergency_given)
  then have "protection_phase d ?f w = (w, Inr True)" using s by (simp add: protection_phase_def andthen_def)
  moreover have "partial_exit_phase d ?f w = (w, Inr True)" using s by (simp add: partial_exit_phase_def)
  moreover have "exit_order_phase d ?c w = (w, Inr True)" using s by (simp add: exit_order_phase_def)
  ultimately have e: "evaluate_active_trade d ci w = strategy_phase d ?f ?c w"
    by (simp add: evaluate_active_trade_def Let_def go_on_def andthen_def)
  show ?thesis using left_strategy[OF assms] by (simp add: e left_stranded_def)
qed

text \<open>One failed protective order, unfilled, is enough to get there.\<close>

lemma unfilled_stop:
  assumes "bo_filled_quantity p = 0" "bo_average_price p = Fin 0" "st_filled_quantity (lt_stop (wk_trade w)) = 0"
    "st_filled_proceeds (lt_stop (wk_trade w)) = Fin 0" "st_limit_price (lt_stop (wk_trade w)) = Some (Fin l)" "l \<noteq> 0"
  shows "account_stop_fill p w = w"
proof -
  have "fle (Fin 0) (rnd (1 / 1000000000))" by (rule rnd_nonneg) simp
  then have "\<not> flt (flit (1 / 1000000000)) (Fin 0)" by (cases "rnd (1 / 1000000000)") (auto simp: flit_def)
  then show ?thesis using assms by (simp add: account_stop_fill_def Let_def f_or_def opt_or_def fsub_def ftrue_def)
qed

lemma ended_stop_strands:
  assumes t: "wk_trade w = t" "stranded (t\<lparr>lt_stop := (lt_stop t)\<lparr>st_order_id := None\<rparr>\<rparr>)" "st_order_id (lt_stop t) = Some oid"
    and p: "get_order_by_id oid (wk_oms w) = Some p" "dead (bo_status p)" "bo_filled_quantity p = 0" "bo_average_price p = Fin 0"
    and st: "st_filled_quantity (lt_stop t) = 0" "st_filled_proceeds (lt_stop t) = Fin 0" "st_limit_price (lt_stop t) = Some (Fin l)" "l \<noteq> 0"
      "\<not> st_cancel_for_exit (lt_stop t)" "st_failures (lt_stop t) + 1 < rk_protective_stop_max_failures (dk_risk d)"
  shows "\<exists>w'. sync_live_protective_stop d f w = (w', Inr True) \<and> stranded (wk_trade w') \<and> wk_oms w' = wk_oms w"
proof -
  note s = t(2)[unfolded stranded_def refs_Nil, simplified]
  have acc: "account_stop_fill p (upd_stop (\<lambda>s. s\<lparr>st_status := v\<rparr>) w) = upd_stop (\<lambda>s. s\<lparr>st_status := v\<rparr>) w" for v
    by (rule unfilled_stop) (use p st t(1) in \<open>simp_all add: upd_stop_def upd_def\<close>)
  have "bo_status p \<noteq> FILLED" using p(2) by (auto simp: dead_def)
  moreover have "lt_exit_filled t < quantity_of t" using s by (auto simp: open_quantity_def)
  ultimately have "sync_live_protective_stop d f w
      = stop_ended d (bo_status p) (upd_stop (\<lambda>s. s\<lparr>st_status := order_state_value (bo_status p)\<rparr>) w)"
    using s p t by (simp add: sync_live_protective_stop_def Let_def acc open_quantity_def) (simp add: upd_stop_def upd_def)
  then show ?thesis
    using s st t(1) by (simp add: stop_ended_def Let_def record_protective_stop_failure_def place_protective_stop_def emergency_given
        upd_stop_def upd_def save_trade_def forget_stop_def stranded_def refs_Nil open_quantity_def)
qed

text \<open>
  C25. An emergency leaves a position that nobody sells: when a filled LIVE trade of strategy A or E has
  the option emergency stop as its pending exit and its protective order has ended, no further cycle,
  whatever the quotes and the market do, creates an order for it or changes the OMS at all, and the
  trade stays in that condition.
\<close>

theorem emergency_strands_position:
  assumes "stranded (wk_trade w)"
  shows "wk_oms (fold (\<lambda>(d, ci) w. fst (evaluate_active_trade d ci w)) cycles w) = wk_oms w
    \<and> stranded (wk_trade (fold (\<lambda>(d, ci) w. fst (evaluate_active_trade d ci w)) cycles w))"
  using assms by (induction cycles arbitrary: w) (auto simp: stranded_cycle)

theorem emergency_strands_position_witness:
  "wk_oms (fold (\<lambda>(d, ci) w. fst (evaluate_active_trade d ci w)) (replicate 100 (demo_desk ''a'', demo_cycle))
     (demo_work (demo_live\<lparr>lt_pending_exit_reason := Some OPTION_EMERGENCY_STOP\<rparr>))) = oms_empty"
proof -
  let ?t = "demo_live\<lparr>lt_pending_exit_reason := Some OPTION_EMERGENCY_STOP\<rparr>"
  have "stranded ?t"
    by (simp add: stranded_def refs_Nil open_quantity_def demo_live_def demo_stop_def demo_trade_def)
  then show ?thesis
    using emergency_strands_position[of "demo_work ?t" "replicate 100 (demo_desk ''a'', demo_cycle)"] by (simp add: demo_work_def)
qed

section \<open>The fills of an exit order\<close>

text \<open>The reports of an order as they arrive: the trade after them, and the fills they added.\<close>

fun exit_reports :: "broker_order list \<Rightarrow> live_trade \<Rightarrow> live_trade \<times> int" where
  "exit_reports [] t = (t, 0)"
| "exit_reports (ord # os) t =
     (case apply_exit_order_progress ord t of (t1, (delta, _, _)) \<Rightarrow>
       case exit_reports os t1 of (t2, n) \<Rightarrow> (t2, delta + n))"

definition highest_fill :: "broker_order list \<Rightarrow> int \<Rightarrow> int" where
  "highest_fill os n = Max (insert n (capped_fill ` set os))"

lemma highest_fill_Cons: "highest_fill (ord # os) n = highest_fill os (max n (capped_fill ord))"
  by (cases "set os = {}") (simp_all add: highest_fill_def max.assoc)

lemma exit_progress_step:
  assumes "lt_exit_filled t \<le> quantity_of t" "n = max (lt_exit_accounted t) (capped_fill ord)"
  obtains t1 price c where "apply_exit_order_progress ord t = (t1, (n - lt_exit_accounted t, price, c))"
    "lt_exit_accounted t1 = n" "quantity_of t1 = quantity_of t"
    "lt_exit_filled t1 = min (quantity_of t) (lt_exit_filled t + (n - lt_exit_accounted t))"
  using assms by (cases "apply_exit_order_progress ord t") (auto simp: apply_exit_order_progress_def Let_def material_def max_def split: if_splits)

text \<open>
  C24. The fills of an exit order are booked once: however often, and in whatever order, the states of an
  exit order are applied to a trade, the fills booked for the order are the highest cumulative fill
  reported, the quantity sold grows by exactly that increase up to the quantity of the trade, and the
  fills handed to the ledger add up to it.
\<close>

theorem exit_fills_booked_once:
  assumes "lt_exit_filled t \<le> quantity_of t"
  shows "case exit_reports os t of (t', sold) \<Rightarrow>
    lt_exit_accounted t' = highest_fill os (lt_exit_accounted t) \<and> sold = highest_fill os (lt_exit_accounted t) - lt_exit_accounted t
    \<and> lt_exit_filled t' = min (quantity_of t) (lt_exit_filled t + sold) \<and> quantity_of t' = quantity_of t"
  using assms
proof (induction os arbitrary: t)
  case Nil
  then show ?case by (simp add: highest_fill_def)
next
  case (Cons ord os)
  let ?n = "max (lt_exit_accounted t) (capped_fill ord)"
  obtain t1 price c where s: "apply_exit_order_progress ord t = (t1, (?n - lt_exit_accounted t, price, c))"
    "lt_exit_accounted t1 = ?n" "quantity_of t1 = quantity_of t"
    "lt_exit_filled t1 = min (quantity_of t) (lt_exit_filled t + (?n - lt_exit_accounted t))"
    by (rule exit_progress_step[OF Cons.prems refl])
  have "?n \<le> highest_fill os ?n" unfolding highest_fill_def by (rule Max_ge) auto
  then show ?case using Cons.IH[of t1] s by (cases "exit_reports os t1") (auto simp: highest_fill_Cons min_def)
qed

definition demo_report :: "int \<Rightarrow> broker_order" where
  "demo_report n = (initial_order (dk_oms (demo_desk ''a''))
     (exit_intent (demo_desk ''a'') ''I'' DAY 150 (Fin 60) demo_live))\<lparr>bo_filled_quantity := n, bo_average_price := Fin 60\<rparr>"

theorem exit_fills_booked_once_witness:
  "snd (exit_reports [demo_report 50, demo_report 100, demo_report 50, demo_report 100, demo_report 150] demo_live) = 150"
proof -
  let ?os = "[demo_report 50, demo_report 100, demo_report 50, demo_report 100, demo_report 150]"
  have f: "quantity_of demo_live = 150" "lt_exit_filled demo_live = 0" "lt_exit_accounted demo_live = 0"
    by (simp_all add: demo_live_def demo_trade_def)
  have "capped_fill (demo_report n) = max 0 (min n 150)" for n
    by (simp add: capped_fill_def demo_report_def initial_order_def exit_intent_def)
  then have "highest_fill ?os 0 = 150" by (simp add: highest_fill_def)
  then show ?thesis using exit_fills_booked_once[of demo_live ?os] f by (cases "exit_reports ?os demo_live") simp
qed

section \<open>A second manual exit\<close>

lemma sale_added:
  assumes inv: "oms_inv (wk_oms w)" and fresh: "fresh_ids (dk_oms d) (wk_oms w)" and number: "oi_price intent \<noteq> NaN"
    and unused: "row_get oi_intent_id (oi_intent_id intent) (od_intents (wk_oms w)) = None"
    and sell: "oi_side intent = SELL" "oi_correlation_id intent = tid"
  obtains db where "oms_create d intent w = (w\<lparr>wk_oms := db\<rparr>, Inr ((initial_order (dk_oms d) intent)\<lparr>bo_status := VALIDATING\<rparr>))"
    "working_sales tid db = working_sales tid (wk_oms w) @ [created_row (dk_oms d) intent]"
proof -
  obtain db1 where s: "save_order_intent (dk_oms d) 2 intent ORDER_INTENT (wk_oms w) = Inr db1"
    using fresh number unused by (auto simp: save_order_intent_def add_outbox_event_def row_insert_def fresh_ids_def)
  obtain oc where oc: "create_order_intent (dk_oms d) intent (wk_oms w)
      = (Some ((initial_order (dk_oms d) intent)\<lparr>bo_status := VALIDATING\<rparr>), oc)"
    "od_intents (oc_state oc) = od_intents db1" "od_orders (oc_state oc) = od_orders (wk_oms w) @ [created_row (dk_oms d) intent]"
    by (rule create_commits[OF fresh s])
  note i = save_intent_intents(1)[OF s, folded oc(2)]
  have old: "sale_of tid (oc_state oc) ord = sale_of tid (wk_oms w) ord" if m: "ord \<in> set (od_orders (wk_oms w))" for ord
  proof -
    obtain x where "row_get oi_intent_id (bo_intent_id ord) (od_intents (wk_oms w)) = Some x" by (rule intent_found[OF inv m])
    then show ?thesis using i[of "bo_intent_id ord"] unused by (auto simp: sale_of_def)
  qed
  have new: "sale_of tid (oc_state oc) (created_row (dk_oms d) intent)"
    using i[of "oi_intent_id intent"] sell by (simp add: sale_of_def created_row_fields)
  have "working_sales tid (oc_state oc) = working_sales tid (wk_oms w) @ [created_row (dk_oms d) intent]"
    using old new oc(3) by (simp add: working_sales_def created_row_fields terminal_def cong: filter_cong)
  then show ?thesis using that[of "oc_state oc"] oc(1) by (simp add: oms_create_def)
qed

text \<open>
  A manual exit never looks for an exit that is already working: for a stored open LIVE trade
  without a protective order, whatever exit or partial exit order it has, a manual exit with a valid
  quote puts one more working sale of the whole remaining quantity into the OMS.
\<close>

theorem manual_exit_adds_sale:
  assumes t: "row_get lt_trade_id tid (wk_rows w) = Some t" "tr_state (lt_core t) \<noteq> CLOSED" "lt_mode t = AUTO_LIVE"
      "st_order_id (lt_stop t) = None" "quantity_of t - lt_exit_filled t = q"
    and quote: "quote_valid (ci_quote ci)" "bid_less_slippage d (ci_quote ci) \<noteq> NaN"
    and db: "oms_inv (wk_oms w)" "fresh_ids (dk_oms d) (wk_oms w)" "row_get oi_intent_id (dk_intent_id d) (od_intents (wk_oms w)) = None"
  shows "\<exists>ord. working_sales tid (wk_oms (fst (manual_exit_trade d ci tid reason w))) = working_sales tid (wk_oms w) @ [ord]
    \<and> bo_quantity ord = q"
proof -
  let ?s = "upd (apply_quote_to_trade (ci_quote ci)) (w\<lparr>wk_trade := t\<rparr>)"
  let ?i = "exit_intent d ''INST-NIFTY-AUTO-ENGINE'' DAY q (bid_less_slippage d (ci_quote ci)) (wk_trade ?s)"
  have keep: "lt_mode (wk_trade ?s) = AUTO_LIVE" "st_order_id (lt_stop (wk_trade ?s)) = None" "wk_oms ?s = wk_oms w"
    "quantity_of (wk_trade ?s) - lt_exit_filled (wk_trade ?s) = q" "lt_trade_id (wk_trade ?s) = tid"
    using t row_get_Some[OF t(1)] by (simp_all add: upd_def apply_quote_to_trade_def)
  have load: "load_trade tid w = Some (w\<lparr>wk_trade := t\<rparr>)" using t by (simp add: load_trade_def)
  have "manual_exit_trade d ci tid reason w = submit_exit_at d (bid_less_slippage d (ci_quote ci)) (Some reason) ?s"
    using keep quote(1) by (simp add: manual_exit_trade_def load Let_def cancel_live_protective_stop_for_exit_def andthen_def)
  moreover obtain db' where db': "oms_create d ?i ?s = (?s\<lparr>wk_oms := db'\<rparr>, Inr ((initial_order (dk_oms d) ?i)\<lparr>bo_status := VALIDATING\<rparr>))"
    "working_sales tid db' = working_sales tid (wk_oms ?s) @ [created_row (dk_oms d) ?i]"
    by (rule sale_added[of ?s d ?i tid]) (use keep quote(2) db in \<open>simp_all add: exit_intent_def\<close>)
  ultimately show ?thesis
    using keep db' by (simp add: submit_exit_at_def Let_def andthen_def save_trade_def upd_def created_row_fields)
      (simp add: exit_intent_def)
qed

text \<open>A trade whose exit order is already in the OMS.\<close>

definition demo_ids :: "string \<Rightarrow> env" where "demo_ids i = \<lparr>clock = (\<lambda>_. 0), uuid = (\<lambda>n. i @ show_nat n)\<rparr>"

definition demo_exit_intent :: order_intent where
  "demo_exit_intent = \<lparr>oi_intent_id = ''Ia'', oi_correlation_id = ''T1'', oi_strategy_instance_id = None,
      oi_source = STRATEGY, oi_instrument_id = ''NIFTY-CE'', oi_symbol = ''NIFTY'',
      oi_side = SELL, oi_order_type = LIMIT, oi_quantity = 150, oi_price = Fin 60, oi_trigger_price = None,
      oi_product = OPTIONS, oi_time_in_force = DAY, oi_trading_mode = LIVE, oi_reduce_only = True, oi_created_at = 0\<rparr>"

definition demo_sold :: oms_db where
  "demo_sold = oc_state (snd (create_order_intent (demo_ids ''a'') demo_exit_intent oms_empty))"

theorem manual_exit_adds_sale_witness:
  "length (working_sales ''T1'' (wk_oms (fst (manual_exit_trade (demo_desk ''b'') demo_cycle ''T1'' [Txt ''MANUAL'']
     ((demo_work (demo_live\<lparr>lt_exit_order_id := Some ''a1''\<rparr>))\<lparr>wk_oms := demo_sold\<rparr>))))) = 2"
proof -
  let ?t = "demo_live\<lparr>lt_exit_order_id := Some ''a1''\<rparr>"
  have t: "tr_state (lt_core ?t) \<noteq> CLOSED" "lt_mode ?t = AUTO_LIVE" "st_order_id (lt_stop ?t) = None" "quantity_of ?t - lt_exit_filled ?t = 150"
    "lt_trade_id ?t = ''T1''"
    by (simp_all add: demo_live_def demo_stop_def demo_trade_def)
  have inv: "oms_inv demo_sold"
    using create_order_intent_inv(1)[of oms_empty "demo_ids ''a''" demo_exit_intent] oms_reachable_inv[OF oms_reachable.start]
    by (simp add: demo_sold_def oms_empty_def get_order_by_id_def)
  have ids: "dk_oms (demo_desk i) = demo_ids i" "dk_intent_id (demo_desk i) = CHR ''I'' # i" for i
    by (simp_all add: demo_desk_def demo_ids_def)
  have fresh: "fresh_ids (demo_ids ''b'') demo_sold" by code_simp
  have unused: "row_get oi_intent_id ''Ib'' (od_intents demo_sold) = None" by code_simp
  have one: "length (working_sales ''T1'' demo_sold) = 1" by code_simp
  have quote: "quote_valid (ci_quote demo_cycle)" "bid_less_slippage (demo_desk i) (ci_quote demo_cycle) \<noteq> NaN" for i
    by (simp_all add: quote_valid_def demo_cycle_def demo_quote_def bid_less_slippage_def demo_desk_def default_risk_limits_def
        opt_or_def f_or_def ftrue_def float_eval)
  show ?thesis
    using manual_exit_adds_sale[of "''T1''" "(demo_work ?t)\<lparr>wk_oms := demo_sold\<rparr>" ?t 150 demo_cycle "demo_desk ''b''" "[Txt ''MANUAL'']"]
      t inv fresh unused one quote by (auto simp: demo_work_def ids)
qed

end
