(* ===== verification/EntrySafety.thy ===== *)
theory EntrySafety imports EntryCycle TradeSafety begin

text \<open>
  What an evaluation cycle may enter: the gates a new trade has passed, what an entry changes, and the
  limits that hold over any run of cycles.
\<close>

section \<open>The gates\<close>

lemma first_block_None: "first_block gates = None \<longleftrightarrow> list_all (\<lambda>g. \<not> fst g) gates"
  by (induction gates) (auto simp: first_block_def)

definition cooled :: "risk_limits \<Rightarrow> timestamp \<Rightarrow> timestamp option \<Rightarrow> bool" where
  "cooled r now last_loss = (case last_loss of None \<Rightarrow> True
     | Some t \<Rightarrow> \<not> flt (quot (total_seconds (now - t)) (Fin 60)) (fint (rk_cooldown_after_loss_min r)))"

definition day_cooled :: "risk_limits \<Rightarrow> timestamp \<Rightarrow> live_trade list \<Rightarrow> bool" where
  "day_cooled r now today \<longleftrightarrow> (\<forall>t \<in> set today. lost t \<longrightarrow> cooled r now (lt_exit_time t))"

definition day_r :: "live_trade list \<Rightarrow> pyfloat" where
  "day_r today = py_sum (map (\<lambda>t. opt_or (lt_realized_r t) (Fin 0)) today)"

definition day_net :: "live_trade list \<Rightarrow> pyfloat" where
  "day_net today = py_sum (map (\<lambda>t. opt_or (net_of t) (Fin 0)) today)"

definition loss_limit :: "risk_limits \<Rightarrow> pyfloat" where
  "loss_limit r = quot (fmul (rk_account_equity r) (rk_max_daily_loss_pct r)) (Fin 100)"

lemma cooldown_gate: "rg_allowed (check_loss_cooldown r now l) = cooled r now l"
  by (simp add: check_loss_cooldown_def cooled_def gate_passed_def blocked_def Let_def split: option.split)

text \<open>The gate looks at the latest loss only; the older ones are cooled with it.\<close>

lemma fle_ends:
  "fle (Fin a) (Fin b) = (a \<le> b)" "fle x PInf = (x \<noteq> NaN)" "fle NInf x = (x \<noteq> NaN)"
  "\<not> fle PInf (Fin a)" "\<not> fle PInf NInf" "\<not> fle (Fin a) NInf" "\<not> fle NaN x" "\<not> fle x NaN"
  by (cases x; auto simp: fle_def feq_def)+

lemma by_sixty: "quot (Fin a) (Fin 60) = rnd (a / 60)" "quot PInf (Fin 60) = PInf" "quot NInf (Fin 60) = NInf" "rnd b \<noteq> NaN"
  by (simp_all add: quot_def finf_def rnd_def Let_def)

lemma minutes_mono: "t \<le> u \<Longrightarrow> fle (quot (total_seconds (now - u)) (Fin 60)) (quot (total_seconds (now - t)) (Fin 60))"
proof -
  assume "t \<le> u"
  then have "fle (total_seconds (now - u)) (total_seconds (now - t))"
    unfolding total_seconds_def flit_def by (intro rnd_mono divide_right_mono) simp_all
  moreover have "fle (quot x (Fin 60)) (quot y (Fin 60))" if "fle x y" for x y
    using that by (cases x; cases y; simp add: fle_ends by_sixty rnd_mono)
  ultimately show ?thesis by blast
qed

lemma cooled_older: "cooled r now (Some u) \<Longrightarrow> t \<le> u \<Longrightarrow> cooled r now (Some t)"
  using minutes_mono[of t u now] by (auto simp: cooled_def dest: fle_flt_trans)

lemma stored_cooldown: "rg_allowed (stored_cooldown_gate y today) = day_cooled (dk_risk (ey_desk y)) (ey_now y) today"
proof (cases "filter lost today")
  case Nil
  then show ?thesis by (auto simp: stored_cooldown_gate_def day_cooled_def gate_passed_def filter_empty_conv)
next
  case (Cons a as)
  let ?T = "(\<lambda>t. the (lt_exit_time t)) ` set (filter lost today)" let ?c = "cooled (dk_risk (ey_desk y)) (ey_now y)"
  have m: "Max ?T \<in> ?T" "\<And>t. t \<in> ?T \<Longrightarrow> t \<le> Max ?T" using Cons by (intro Max_in; force) simp
  have some: "lt_exit_time t = Some (the (lt_exit_time t))" if "lost t" for t using that by (auto simp: lost_def)
  have "rg_allowed (stored_cooldown_gate y today) = ?c (Some (Max ?T))"
    using Cons by (simp add: stored_cooldown_gate_def cooldown_gate)
  also have "\<dots> \<longleftrightarrow> (\<forall>t \<in> ?T. ?c (Some t))" using m cooled_older by blast
  also have "\<dots> \<longleftrightarrow> day_cooled (dk_risk (ey_desk y)) (ey_now y) today" using some by (auto simp: day_cooled_def)
  finally show ?thesis .
qed

lemma loss_gate: "rg_allowed (daily_loss_gate y today) \<longleftrightarrow>
    \<not> fle (day_r today) (fneg (rk_max_daily_loss_r (dk_risk (ey_desk y)))) \<and> \<not> fle (day_net today) (fneg (loss_limit (dk_risk (ey_desk y))))"
  by (simp add: daily_loss_gate_def check_daily_loss_limits_def Let_def gate_passed_def blocked_def day_r_def day_net_def loss_limit_def)

lemma count_gates:
  "rg_allowed (check_position_capacity r n) \<longleftrightarrow> n < rk_max_concurrent_positions r"
  "rg_allowed (check_daily_trade_limit r n None) \<longleftrightarrow> n < rk_max_trades_per_day r"
  "rg_allowed (check_strategy_trade_limits r n k) \<longleftrightarrow>
     n < rk_max_trades_per_strategy_per_day r \<and> k < rk_max_failed_trades_per_strategy r"
  by (auto simp: check_position_capacity_def check_daily_trade_limit_def check_strategy_trade_limits_def Let_def
      gate_passed_def blocked_def)

lemma gate_status:
  "fst (as_result (check_position_capacity r n)) \<noteq> ''TRADE_OPENED''"
  "fst (as_result (check_loss_cooldown r now l)) \<noteq> ''TRADE_OPENED''"
  "fst (as_result (daily_loss_gate y today)) \<noteq> ''TRADE_OPENED''"
  "fst (as_result (stored_cooldown_gate y today)) \<noteq> ''TRADE_OPENED''"
  "fst (as_result (check_daily_trade_limit r n None)) \<noteq> ''TRADE_OPENED''"
  "fst (as_result (strategy_gate y today s)) \<noteq> ''TRADE_OPENED''"
  by (simp_all add: as_result_def check_position_capacity_def check_loss_cooldown_def daily_loss_gate_def
      check_daily_loss_limits_def stored_cooldown_gate_def check_daily_trade_limit_def strategy_gate_def
      check_strategy_trade_limits_def Let_def gate_passed_def blocked_def split: option.split list.split)

lemma first_block_in: "first_block gates = Some r \<Longrightarrow> r \<in> snd ` set gates"
  by (induction gates) (auto simp: first_block_def split: if_splits)

lemma entry_block_status: "entry_block y w = Some r \<Longrightarrow> fst r \<noteq> ''TRADE_OPENED''"
proof -
  assume "entry_block y w = Some r"
  then have "r \<in> {(''HALTED_KILL_SWITCH'', [(''active_positions_managed'', GInt (int (length (wk_cache w))))]),
      (''DATA_UNAVAILABLE'', [(''reason'', GText (ey_data_reason y))]), (''AUTO_TRADE_DISABLED'', []),
      (''OUTSIDE_ENTRY_WINDOW'', []), (''LIVE_SYSTEM_NOT_ARMED'', []),
      as_result (check_position_capacity (dk_risk (ey_desk y)) (int (length (wk_cache w)))),
      as_result (check_loss_cooldown (dk_risk (ey_desk y)) (ey_now y) (wk_last_loss_exit w)),
      as_result (daily_loss_gate y (trades_today y w)), as_result (stored_cooldown_gate y (trades_today y w)),
      as_result (check_daily_trade_limit (dk_risk (ey_desk y)) (int (length (trades_today y w))) None)}"
    using first_block_in unfolding entry_block_def Let_def by fastforce
  then show ?thesis using gate_status(1-5) by (elim insertE) auto
qed

lemma signal_mode_is: "signal_mode y sg = se_mode (ey_settings y)"
  by (simp add: signal_mode_def mode_for_def resolve_strategy_execution_policy_def)

text \<open>A cycle that opens a trade has entered a sized contract for a signal.\<close>

definition entered_by :: "cycle \<Rightarrow> engine \<Rightarrow> strategy_signal \<Rightarrow> pyfloat \<Rightarrow> selected_contract \<Rightarrow> int \<Rightarrow> int \<Rightarrow> engine \<Rightarrow> work \<Rightarrow> bool" where
  "entered_by y g sg entry c lots q g' w1 \<longleftrightarrow>
     rg_allowed (strategy_gate y (trades_today y (en_work g)) (sg_strategy sg))
     \<and> \<not> (delta_aware (sg_strategy sg) \<and> se_mode (ey_settings y) = AUTO_LIVE \<and> \<not> ms_option_ready (ey_market y))
     \<and> entry_reference sg = Some entry \<and> (\<exists>why. choose_contract y sg entry = Inr (Some c, why))
     \<and> entry_size y sg entry c = Inr (lots, q) \<and> 1 \<le> lots
     \<and> (se_mode (ey_settings y) = AUTO_LIVE \<longrightarrow> dk_live_orders_enabled (ey_desk y) \<and> wk_armed w1)
     \<and> (\<exists>ds. enter_trade y sg entry c (se_mode (ey_settings y)) lots q w1 = (en_work g', Inr (''TRADE_OPENED'', ds)))"

lemma execute_opened:
  assumes "execute_signal y sg w = (w', Inr (''TRADE_OPENED'', ds))"
  obtains entry c why lots q where
    "\<not> (delta_aware (sg_strategy sg) \<and> se_mode (ey_settings y) = AUTO_LIVE \<and> \<not> ms_option_ready (ey_market y))"
    "entry_reference sg = Some entry" "choose_contract y sg entry = Inr (Some c, why)" "entry_size y sg entry c = Inr (lots, q)"
    "1 \<le> lots" "se_mode (ey_settings y) = AUTO_LIVE \<longrightarrow> dk_live_orders_enabled (ey_desk y) \<and> wk_armed w"
    "enter_trade y sg entry c (se_mode (ey_settings y)) lots q (call (Decision ''CONTRACT_SELECTION'' ''Selected'') w)
      = (w', Inr (''TRADE_OPENED'', ds))"
  using assms
  by (force simp: execute_signal_def sized_entry_def signal_mode_is Let_def reasoned_def call_def[of _ w] split: if_splits option.splits sum.splits prod.splits)

text \<open>Seeking a signal only logs calls.\<close>

definition quiet_step :: "work \<Rightarrow> work \<Rightarrow> bool" where
  "quiet_step w w' \<longleftrightarrow> (\<exists>cs. w' = w\<lparr>wk_calls := cs\<rparr>)"

lemma quiet_refl [simp]: "quiet_step w w" unfolding quiet_step_def by (rule exI[of _ "wk_calls w"]) simp

lemma quiet_call [simp]: "quiet_step w (call c w') = quiet_step w w'"
proof
  show "quiet_step w (call c w') \<Longrightarrow> quiet_step w w'"
    unfolding quiet_step_def call_def by (metis work.surjective work.update_convs(8) work.select_convs)
  show "quiet_step w w' \<Longrightarrow> quiet_step w (call c w')" by (auto simp: quiet_step_def call_def)
qed

lemma quiet_same:
  "quiet_step w w' \<Longrightarrow> wk_trade w' = wk_trade w \<and> wk_rows w' = wk_rows w \<and> wk_oms w' = wk_oms w \<and> wk_armed w' = wk_armed w
     \<and> wk_ledger w' = wk_ledger w \<and> wk_cache w' = wk_cache w \<and> wk_last_loss_exit w' = wk_last_loss_exit w"
  by (auto simp: quiet_step_def)

lemma choose_quiet: "quiet_step (en_work g) (snd (choose_signal y g today))"
  by (simp add: choose_signal_def seek_e_def seek_b_def seek_a_def Let_def split: prod.splits)

lemma reject_quiet [simp]: "quiet_step w (reject_execution sg reason w') = quiet_step w w'"
  by (simp add: reject_execution_def)

lemma store_quiet: "quiet_step (en_work g) (en_work (store_signal sg b g))"
  by (simp add: store_signal_def on_work_def)

lemma quiet_trans: "quiet_step w w1 \<Longrightarrow> quiet_step w1 w2 \<Longrightarrow> quiet_step w w2"
  by (auto simp: quiet_step_def)

lemma no_signal_opens: "no_signal_status y \<noteq> ''TRADE_OPENED''" by (simp add: no_signal_status_def Let_def)

lemma seek_cases:
  assumes "seek_entry y g = (g', r)"
  obtains (stay) st ds where "r = Inr (st, ds)" "st \<noteq> ''TRADE_OPENED''" "quiet_step (en_work g) (en_work g')"
  | (execute) sg w1 where "quiet_step (en_work g) w1" "execute_signal y sg w1 = (en_work g', r)"
      "rg_allowed (strategy_gate y (trades_today y (en_work g)) (sg_strategy sg))"
      "fst (fst (choose_signal y g (trades_today y (en_work g)))) = Some sg"
      "\<not> (sg_strategy sg = PIVOT_VWAP_SCALP \<and> (\<exists>t \<in> set (cached_trades (en_work g)). tr_strategy (lt_core t) = PIVOT_VWAP_SCALP))"
proof -
  let ?today = "trades_today y (en_work g)"
  obtain s0 persisted w where ch: "choose_signal y g ?today = ((s0, persisted), w)" by (metis prod.exhaust)
  have q: "quiet_step (en_work g) w" using choose_quiet[of g y ?today] ch by simp
  show ?thesis
  proof (cases s0)
    case None
    then show ?thesis using assms ch q by (intro stay) (auto simp: seek_entry_def Let_def no_signal_opens)
  next
    case (Some sg)
    let ?g2 = "store_signal sg persisted (g\<lparr>en_work := w\<rparr>)"
    obtain w2 r2 where ex: "execute_signal y sg (en_work ?g2) = (w2, r2)" by (metis prod.exhaust)
    show ?thesis
    proof (cases "sg_strategy sg = PIVOT_VWAP_SCALP \<and> (\<exists>t \<in> set (cached_trades w). tr_strategy (lt_core t) = PIVOT_VWAP_SCALP)
        \<or> \<not> rg_allowed (strategy_gate y ?today (sg_strategy sg))")
      case True
      then have "r = Inr (''STRATEGY_E_POSITION_ALREADY_OPEN'', []) \<or> r = Inr (as_result (strategy_gate y ?today (sg_strategy sg)))"
        "en_work g' = w" using assms ch Some by (auto simp: seek_entry_def Let_def split: if_splits)
      then show ?thesis using stay[of "fst (projr r)" "snd (projr r)"] gate_status(6)[of y ?today "sg_strategy sg"] q by auto
    next
      case False
      then have "r = r2" "en_work g' = w2" "rg_allowed (strategy_gate y ?today (sg_strategy sg))"
        using assms ch Some ex by (auto simp: seek_entry_def Let_def)
      moreover have "quiet_step (en_work g) (en_work ?g2)" using quiet_trans[OF q] store_quiet[of "g\<lparr>en_work := w\<rparr>" sg persisted] by simp
      moreover have "cached_trades w = cached_trades (en_work g)" using quiet_same[OF q] by (simp add: cached_trades_def)
      ultimately show ?thesis using execute[of "en_work ?g2" sg] ex ch Some False by simp
    qed
  qed
qed

lemma seek_opened:
  assumes "seek_entry y g = (g', Inr (''TRADE_OPENED'', ds))"
  shows "\<exists>sg entry c lots q w1. entered_by y g sg entry c lots q g' w1 \<and> quiet_step (en_work g) w1
    \<and> fst (fst (choose_signal y g (trades_today y (en_work g)))) = Some sg
    \<and> \<not> (sg_strategy sg = PIVOT_VWAP_SCALP \<and> (\<exists>t \<in> set (cached_trades (en_work g)). tr_strategy (lt_core t) = PIVOT_VWAP_SCALP))"
  using assms
proof (cases rule: seek_cases)
  case (stay st ds')
  then show ?thesis by simp
next
  case (execute sg w1)
  show ?thesis
    by (rule execute_opened[OF execute(2)])
      (use execute in \<open>auto simp: entered_by_def intro!: exI[of _ "call (Decision ''CONTRACT_SELECTION'' ''Selected'') w1"]
         exI[of _ sg], simp_all add: call_def\<close>)
qed

text \<open>\<open>TRADE_OPENED\<close> is the only result of an entry that changes more than the log.\<close>

lemma enter_result: "snd (enter_trade y sg entry c m lots q w) = Inr (st, ds) \<Longrightarrow> st = ''TRADE_OPENED''"
  by (auto simp: enter_trade_def Let_def andthen_def split: if_splits prod.splits sum.splits)

lemma execute_quiet:
  assumes "execute_signal y sg w = (w', Inr (st, ds))" "st \<noteq> ''TRADE_OPENED''"
  shows "quiet_step w w'"
proof -
  have "quiet_step w (fst (sized_entry y sg m entry c w1))" if "quiet_step w w1" "snd (sized_entry y sg m entry c w1) = Inr (st, ds)" for m entry c w1
    using that assms(2)
    by (auto simp: sized_entry_def split: sum.splits prod.splits if_splits dest: enter_result)
  then show ?thesis using assms(1)
    by (auto simp: execute_signal_def Let_def split: if_splits option.splits sum.splits prod.splits) (metis fst_conv quiet_call quiet_refl snd_conv)+
qed

text \<open>Where a signal may come from: an enabled strategy, with its market data in order, and no repetition of a stored one.\<close>

definition unrepeated :: "engine \<Rightarrow> live_trade list \<Rightarrow> strategy_signal \<Rightarrow> bool" where
  "unrepeated g today sg \<longleftrightarrow> \<not> (stored_signal g (sg_signal_id sg) \<and> (\<exists>t \<in> set today. lt_signal_id t = Some (sg_signal_id sg)))"

definition signal_source :: "cycle \<Rightarrow> engine \<Rightarrow> live_trade list \<Rightarrow> strategy_signal \<Rightarrow> bool" where
  "signal_source y g today sg \<longleftrightarrow> (let s = ey_settings y; m = ey_market y in
     (se_trend_pullback s \<and> ms_feed_healthy m \<and> ms_a_fresh m \<and> ey_signal_a y = Some sg)
     \<or> (se_volatility_breakout s \<and> ms_feed_healthy m \<and> ms_b_fresh m \<and> ey_signal_b y = Some sg)
     \<or> (se_di_continuation s \<and> strategy_c_signal_from_status (ey_c_candidate y) (ey_now y) = Some sg \<and> unrepeated g today sg)
     \<or> (se_sr_momentum s \<and> strategy_d_signal_from_status (ey_d_status y) (ey_now y) = Some sg \<and> unrepeated g today sg)
     \<or> (se_pivot_vwap s \<and> ms_feed_healthy m \<and> ms_e_fresh m \<and> ey_signal_e y = Some sg
        \<and> (sg_strategy sg \<noteq> PIVOT_VWAP_SCALP \<or> unrepeated g today sg)))"

lemma dedupe_keeps: "fst (dedupe g today sg) = Some x \<Longrightarrow> x = sg \<and> unrepeated g today sg"
  by (force simp: dedupe_def unrepeated_def Let_def stored_signal_def split: if_splits option.splits)

lemma seek_b_cases:
  assumes "fst (seek_b y (seek_a y w)) = Some sg"
  shows "se_trend_pullback (ey_settings y) \<and> ms_feed_healthy (ey_market y) \<and> ms_a_fresh (ey_market y) \<and> ey_signal_a y = Some sg
    \<or> se_volatility_breakout (ey_settings y) \<and> ms_feed_healthy (ey_market y) \<and> ms_b_fresh (ey_market y) \<and> ey_signal_b y = Some sg"
  using assms by (auto simp: seek_b_def seek_a_def Let_def split: if_splits)

lemma seek_cd_cases:
  assumes "seek_cd y sb = Some sg"
  shows "sb = Some sg
    \<or> se_di_continuation (ey_settings y) \<and> strategy_c_signal_from_status (ey_c_candidate y) (ey_now y) = Some sg
    \<or> se_sr_momentum (ey_settings y) \<and> strategy_d_signal_from_status (ey_d_status y) (ey_now y) = Some sg"
  using assms by (auto simp: seek_cd_def Let_def split: if_splits)

lemma candidate_strategies:
  "strategy_c_signal_from_status c now = Some sg \<Longrightarrow> candidate_strategy (sg_strategy sg)"
  "strategy_d_signal_from_status d now = Some sg \<Longrightarrow> candidate_strategy (sg_strategy sg)"
  by (auto simp: strategy_c_signal_from_status_def strategy_d_signal_from_status_def candidate_signal_def candidate_strategy_def Let_def
      split: option.splits if_splits prod.splits)

lemma chosen_source:
  assumes "fst (fst (choose_signal y g today)) = Some sg"
  shows "signal_source y g today sg"
proof -
  obtain sb w where sb: "seek_b y (seek_a y (en_work g)) = (sb, w)" by (rule prod.exhaust)
  let ?sc = "seek_cd y sb"
  let ?dd = "case ?sc of None \<Rightarrow> (None, False) | Some sg \<Rightarrow> if candidate_strategy (sg_strategy sg) \<or> sg_strategy sg = PIVOT_VWAP_SCALP
      then dedupe g today sg else (Some sg, False)"
  obtain s0 p where dd: "?dd = (s0, p)" by (rule prod.exhaust)
  have ch: "fst (fst (seek_e y g today ((s0, p), w))) = Some sg"
    using assms by (simp add: choose_signal_def sb Let_def dd)
  show ?thesis
  proof (cases s0)
    case None
    then show ?thesis using ch
      by (auto simp: seek_e_def Let_def signal_source_def dest: dedupe_keeps split: if_splits option.splits)
  next
    case (Some x)
    then have x: "x = sg" using ch by (simp add: seek_e_def)
    obtain z where z: "?sc = Some z" using dd Some by (cases ?sc) auto
    have u: "z = sg \<and> (candidate_strategy (sg_strategy sg) \<longrightarrow> unrepeated g today sg)"
    proof (cases "candidate_strategy (sg_strategy z) \<or> sg_strategy z = PIVOT_VWAP_SCALP")
      case True
      then have "fst (dedupe g today z) = Some sg" using dd Some x z by simp
      then show ?thesis using dedupe_keeps[of g today z sg] by simp
    next
      case False
      then show ?thesis using dd Some x z by auto
    qed
    from seek_cd_cases[of y sb sg] z u consider
      (first) "sb = Some sg"
      | (c) "se_di_continuation (ey_settings y)" "strategy_c_signal_from_status (ey_c_candidate y) (ey_now y) = Some sg"
      | (d) "se_sr_momentum (ey_settings y)" "strategy_d_signal_from_status (ey_d_status y) (ey_now y) = Some sg" by auto
    then show ?thesis
    proof cases
      case first
      then show ?thesis using seek_b_cases[of y "en_work g" sg] sb unfolding signal_source_def Let_def by auto
    next
      case c
      then show ?thesis using u candidate_strategies(1)[OF c(2)] unfolding signal_source_def Let_def by blast
    next
      case d
      then show ?thesis using u candidate_strategies(2)[OF d(2)] unfolding signal_source_def Let_def by blast
    qed
  qed
qed

text \<open>The stored trade is the one of the signal, the contract and the size.\<close>

definition trade_of :: "strategy_signal \<Rightarrow> selected_contract \<Rightarrow> auto_mode \<Rightarrow> int \<Rightarrow> int \<Rightarrow> live_trade \<Rightarrow> bool" where
  "trade_of sg c m lots q t \<longleftrightarrow> tr_strategy (lt_core t) = sg_strategy sg \<and> tr_direction (lt_core t) = sg_direction sg
     \<and> lt_signal_id t = Some (sg_signal_id sg) \<and> lt_contract_instrument_id t = sc_instrument_id c \<and> lt_mode t = m
     \<and> tr_lots (lt_core t) = lots \<and> quantity_of t = q"

lemma new_trade_fields:
  "lt_mode (new_trade r now m sg e src c lots q) = m" "lt_trade_id (new_trade r now m sg e src c lots q) = ''TRD-'' @ show_int (now div seconds 1)"
  "open_trade (new_trade r now m sg e src c lots q)" "tr_entry_time (lt_core (new_trade r now m sg e src c lots q)) = now"
  "sale_refs (new_trade r now m sg e src c lots q) = []" "lt_filled_quantity (new_trade r now m sg e src c lots q) = 0"
  "lt_entry_order_id (new_trade r now m sg e src c lots q) = None" "quantity_of (new_trade r now m sg e src c lots q) = q"
  by (simp_all add: new_trade_def new_position_def Let_def open_trade_def refs_empty no_stop_def)

lemma get_stored: "row_get keyof (keyof r) (row_upsert keyof (\<lambda>old new. new) r rows) = Some r"
  by (rule get_replaced) simp

lemma enter_stores:
  assumes "enter_trade y sg entry c m lots q w = (w', Inr x)"
  shows "\<exists>t. row_get lt_trade_id (''TRD-'' @ show_int (ey_now y div seconds 1)) (wk_rows w') = Some t \<and> trade_of sg c m lots q t"
proof -
  let ?t = "new_trade (dk_risk (ey_desk y)) (ey_now y) m sg entry (ey_chain_source y) c lots q"
  let ?u = "announce_entry y sg ?t (save_trade (w\<lparr>wk_trade := ?t\<rparr>))"
  have t: "lt_trade_id ?t = ''TRD-'' @ show_int (ey_now y div seconds 1)" "trade_of sg c m lots q ?t"
    by (simp_all add: new_trade_def new_position_def trade_of_def Let_def)
  have u: "wk_rows ?u = row_upsert lt_trade_id (\<lambda>old new. new) ?t (wk_rows w)" "wk_trade ?u = ?t"
    by (simp_all add: announce_entry_def Let_def call_def record_execution_def save_trade_def)
  have p: "trade_of sg c m lots q (?t\<lparr>lt_entry_order_id := i, lt_core := (lt_core ?t)\<lparr>tr_state := ENTRY_PENDING\<rparr>\<rparr>)" for i
    using t(2) by (simp add: trade_of_def)
  show ?thesis
  proof (cases "m = AUTO_LIVE")
    case False
    then have "wk_rows w' = wk_rows ?u" using assms by (auto simp: enter_trade_def Let_def call_def)
    then show ?thesis using u t get_stored[of lt_trade_id ?t] by simp
  next
    case True
    obtain x oc where x: "create_order_intent (dk_oms (ey_desk y)) (entry_intent (ey_desk y) c ?t) (wk_oms ?u) = (x, oc)" by (rule prod.exhaust)
    then obtain ord where "x = Some ord" using assms True
      by (cases x) (auto simp: enter_trade_def Let_def andthen_def oms_create_def)
    then have "wk_rows w' = row_upsert lt_trade_id (\<lambda>old new. new)
        ((wk_trade ?u)\<lparr>lt_entry_order_id := Some (bo_order_id ord), lt_core := (lt_core (wk_trade ?u))\<lparr>tr_state := ENTRY_PENDING\<rparr>\<rparr>) (wk_rows ?u)"
      using assms True x by (auto simp: enter_trade_def Let_def andthen_def oms_create_def call_def save_trade_def upd_def)
    then obtain oid where "wk_rows w' = row_upsert lt_trade_id (\<lambda>old new. new)
        (?t\<lparr>lt_entry_order_id := Some oid, lt_core := (lt_core ?t)\<lparr>tr_state := ENTRY_PENDING\<rparr>\<rparr>) (wk_rows ?u)"
      unfolding u(2) by blast
    then show ?thesis
      using p[of "Some oid"] t(1) get_stored[of lt_trade_id "?t\<lparr>lt_entry_order_id := Some oid, lt_core := (lt_core ?t)\<lparr>tr_state := ENTRY_PENDING\<rparr>\<rparr>"]
      by simp
  qed
qed

section \<open>Properties of an entry\<close>

text \<open>
  C6. A trade is opened only behind the gates: when the entry stage of a cycle opens a trade, the kill
  switch is off, automatic trading is on, market data is available, fewer positions are open than
  allowed, the entry window is open or bypassed, neither the last loss of this process nor any stored
  loss of the day is within the cooldown, neither daily loss limit is reached and the day has trades
  left.  The stored trade is that of a signal of an enabled strategy (with its feed healthy and its
  data fresh for the strategies A, B and E, and not the repetition of a stored signal already traded
  today for C, D and E) whose strategy has both trades and failures left, of the contract selected for
  it and of the size computed for it, at least one lot; a delta-aware strategy enters LIVE only with
  option readiness and strategy E only with no position of its own open.  In LIVE mode the system is
  armed, LIVE orders are enabled and the broker feed is healthy.
\<close>

theorem entry_gated:
  assumes "entry_stage y g = (g', Inr (''TRADE_OPENED'', ds))"
  shows "let w = en_work g; s = ey_settings y; r = dk_risk (ey_desk y); today = trades_today y w in
    \<not> se_kill_switch s \<and> se_auto_trade_enabled s \<and> se_mode s \<noteq> AUTO_DISABLED \<and> data_available y
    \<and> int (length (wk_cache w)) < rk_max_concurrent_positions r
    \<and> (entry_window y \<or> se_bypass_entry_window s)
    \<and> cooled r (ey_now y) (wk_last_loss_exit w) \<and> day_cooled r (ey_now y) today
    \<and> \<not> fle (day_r today) (fneg (rk_max_daily_loss_r r)) \<and> \<not> fle (day_net today) (fneg (loss_limit r))
    \<and> int (length today) < rk_max_trades_per_day r
    \<and> (\<exists>sg entry c lots q why t. signal_source y g today sg
        \<and> int (length (filter (\<lambda>t. tr_strategy (lt_core t) = sg_strategy sg) today)) < rk_max_trades_per_strategy_per_day r
        \<and> int (length (filter (\<lambda>t. tr_strategy (lt_core t) = sg_strategy sg \<and> lost t) today)) < rk_max_failed_trades_per_strategy r
        \<and> \<not> (sg_strategy sg = PIVOT_VWAP_SCALP \<and> (\<exists>t \<in> set (cached_trades w). tr_strategy (lt_core t) = PIVOT_VWAP_SCALP))
        \<and> \<not> (delta_aware (sg_strategy sg) \<and> se_mode s = AUTO_LIVE \<and> \<not> ms_option_ready (ey_market y))
        \<and> entry_reference sg = Some entry \<and> choose_contract y sg entry = Inr (Some c, why)
        \<and> entry_size y sg entry c = Inr (lots, q) \<and> 1 \<le> lots
        \<and> row_get lt_trade_id (''TRD-'' @ show_int (ey_now y div seconds 1)) (wk_rows (en_work g')) = Some t
        \<and> trade_of sg c (se_mode s) lots q t)
    \<and> (se_mode s = AUTO_LIVE \<longrightarrow> wk_armed w \<and> dk_live_orders_enabled (ey_desk y) \<and> ms_feed_healthy (ey_market y))"
proof -
  let ?w = "en_work g" let ?today = "trades_today y ?w"
  have h: "\<not> health_lost y ?w" using assms by (auto simp: entry_stage_def Let_def)
  have b: "entry_block y ?w = None"
    using assms h entry_block_status[of y ?w] by (auto simp: entry_stage_def Let_def split: option.splits)
  note gates = b[unfolded entry_block_def Let_def first_block_None, simplified cooldown_gate stored_cooldown loss_gate count_gates, simplified]
  have "seek_entry y g = (g', Inr (''TRADE_OPENED'', ds))" using assms h b by (simp add: entry_stage_def Let_def)
  from seek_opened[OF this] obtain sg entry c lots q w1 where e: "entered_by y g sg entry c lots q g' w1" "quiet_step ?w w1"
    "fst (fst (choose_signal y g ?today)) = Some sg"
    "\<not> (sg_strategy sg = PIVOT_VWAP_SCALP \<and> (\<exists>t \<in> set (cached_trades ?w). tr_strategy (lt_core t) = PIVOT_VWAP_SCALP))"
    by blast
  then obtain why ds' where f: "choose_contract y sg entry = Inr (Some c, why)"
    "enter_trade y sg entry c (se_mode (ey_settings y)) lots q w1 = (en_work g', Inr (''TRADE_OPENED'', ds'))"
    by (auto simp: entered_by_def)
  obtain t where t: "row_get lt_trade_id (''TRD-'' @ show_int (ey_now y div seconds 1)) (wk_rows (en_work g')) = Some t"
    "trade_of sg c (se_mode (ey_settings y)) lots q t" using enter_stores[OF f(2)] by blast
  note limits = e(1)[unfolded entered_by_def strategy_gate_def count_gates]
  show ?thesis
    unfolding Let_def
    apply (intro conjI)
                apply (use gates in blast)+
     apply (rule exI[of _ sg], rule exI[of _ entry], rule exI[of _ c], rule exI[of _ lots], rule exI[of _ q], rule exI[of _ why], rule exI[of _ t])
     apply (use limits e(4) f(1) t chosen_source[OF e(3)] in blast)
    using gates limits quiet_same[OF e(2)] h by (auto simp: health_lost_def)
qed

text \<open>A call of strategy A that a paper cycle enters.\<close>

definition gate_signal :: strategy_signal where
  "gate_signal = \<lparr>sg_signal_id = ''A1'', sg_strategy = TREND_PULLBACK, sg_direction = BULLISH, sg_option_type = CALL,
     sg_timestamp = seconds (20472 * 86400), sg_spot_reference_price = Fin 23250, sg_underlying_entry_price = Some (Fin 23250),
     sg_structural_stop = Fin 23246, sg_r_points = Fin 4, sg_snapshot = no_snapshot\<rparr>"

definition gate_risk :: risk_limits where
  "gate_risk = default_risk_limits\<lparr>rk_account_equity := Fin 450000, rk_max_trade_capital := Fin 75000\<rparr>"

definition gate_cycle :: cycle where
  "gate_cycle = \<lparr>ey_now = seconds (20472 * 86400), ey_b_clock = seconds (20472 * 86400), ey_utc_offset = 0,
     ey_settings = \<lparr>se_mode = AUTO_PAPER, se_auto_trade_enabled = True, se_kill_switch = False, se_trend_pullback = True,
       se_volatility_breakout = False, se_di_continuation = False, se_sr_momentum = False, se_pivot_vwap = False,
       se_e_entry_start = [], se_e_entry_end = [], se_e_lots = 1, se_session = default_session, se_tunables = default_tunables,
       se_selection = sample_selection, se_bypass_entry_window = True, se_premium_cap = None\<rparr>,
     ey_features = demo_features, ey_data_ready = True, ey_breakout_data_ready = False, ey_data_reason = [],
     ey_futures_candles = True, ey_e_candles = False,
     ey_market = \<lparr>ms_feed_healthy = True, ms_feed_reasons = [], ms_a_fresh = True, ms_b_fresh = False, ms_e_fresh = False,
       ms_option_ready = True, ms_option_reason = None\<rparr>,
     ey_c_candidate = None, ey_d_status = \<lparr>ds_execution_signal = None, ds_execution_signal_id = None,
       ds_active_execution = None, ds_active_paper = None\<rparr>,
     ey_signal_a = Some gate_signal, ey_signal_b = None, ey_signal_e = None, ey_chain = sample_chain,
     ey_chain_source = Some ''BREEZE'', ey_chain_rejection = None, ey_trade_input = (\<lambda>_. demo_cycle),
     ey_trade_desk = (\<lambda>_. demo_desk ''d''), ey_desk = (demo_desk ''d'')\<lparr>dk_risk := gate_risk\<rparr>\<rparr>"

definition gate_engine :: engine where
  "gate_engine = \<lparr>en_work = (demo_work demo_live)\<lparr>wk_rows := []\<rparr>, en_signals = []\<rparr>"

lemma gate_contract:
  "choose_contract gate_cycle gate_signal (Fin 23250) = Inr (Some (selected_of BULLISH 20472 [] sample_best), None)"
proof -
  have "select_contract sample_selection 0 0 BULLISH (Some (Fin 23250)) sample_chain None None
      (Some (Aware (seconds (20472 * 86400)))) True = Inr (Some (selected_of BULLISH 20472 [] sample_best), [sample_best], None)"
    using sample_selected by (simp add: select_contract_def num_or_zero_def opt_or_def f_or_def ftrue_def)
  then show ?thesis
    by (simp add: choose_contract_def gate_cycle_def gate_signal_def delta_aware_def real_source_def demo_desk_def)
qed

lemma gate_leg:
  "sc_delta (selected_of BULLISH 20472 [] sample_best) = Some (Fin (3 / 4))"
  "sc_lot_size (selected_of BULLISH 20472 [] sample_best) = 75" "sc_ask_price (selected_of BULLISH 20472 [] sample_best) = Fin 100"
  by (simp_all add: selected_of_def sample_best_def judge_a inspect_leg_def Let_def the_leg_def leg_of_def
      sample_chain_def sample_leg_def empty_leg_def num_or_zero_def opt_or_def f_or_def ftrue_def leg_delta_def int_or_zero_def)

lemma gate_size: "entry_size gate_cycle gate_signal (Fin 23250) (selected_of BULLISH 20472 [] sample_best) = Inr (10, 750)"
  by (simp add: entry_size_def gate_cycle_def gate_signal_def delta_aware_def gate_leg gate_risk_def default_risk_limits_def
      size_trade_def estimate_option_loss_per_lot_def opt_or_def f_or_def ftrue_def not_positive_def quot_def float_eval
      floor_quot_def Let_def)

lemma gate_opens: "\<exists>g' ds. entry_stage gate_cycle gate_engine = (g', Inr (''TRADE_OPENED'', ds))"
proof -
  let ?w = "en_work gate_engine"
  have w: "wk_rows ?w = []" "wk_cache ?w = []" "wk_last_loss_exit ?w = None" by (simp_all add: gate_engine_def demo_work_def)
  have today: "trades_today gate_cycle ?w = []" by (simp add: trades_today_def w newest_def)
  have s: "ey_settings gate_cycle = \<lparr>se_mode = AUTO_PAPER, se_auto_trade_enabled = True, se_kill_switch = False, se_trend_pullback = True,
       se_volatility_breakout = False, se_di_continuation = False, se_sr_momentum = False, se_pivot_vwap = False,
       se_e_entry_start = [], se_e_entry_end = [], se_e_lots = 1, se_session = default_session, se_tunables = default_tunables,
       se_selection = sample_selection, se_bypass_entry_window = True, se_premium_cap = None\<rparr>"
    "dk_risk (ey_desk gate_cycle) = gate_risk" "data_available gate_cycle" "ey_signal_a gate_cycle = Some gate_signal"
    "ms_feed_healthy (ey_market gate_cycle)" "ms_a_fresh (ey_market gate_cycle)" "ms_option_ready (ey_market gate_cycle)"
    by (simp_all add: gate_cycle_def data_available_def)
  have r: "rk_max_concurrent_positions gate_risk = 1" "rk_max_trades_per_day gate_risk = 5" "rk_max_daily_loss_r gate_risk = Fin 2"
    "rk_max_trades_per_strategy_per_day gate_risk = 5" "rk_max_failed_trades_per_strategy gate_risk = 2"
    "loss_limit gate_risk = Fin 6750"
    by (simp_all add: gate_risk_def default_risk_limits_def loss_limit_def quot_def float_eval)
  have l: "rg_allowed (daily_loss_gate gate_cycle [])"
    by (simp add: loss_gate s r day_r_def day_net_def float_eval)
  have b: "entry_block gate_cycle ?w = None"
    unfolding entry_block_def Let_def first_block_None using l
    by (simp add: s w r today count_gates cooldown_gate cooled_def stored_cooldown_gate_def gate_passed_def)
  obtain u where ch: "choose_signal gate_cycle gate_engine [] = ((Some gate_signal, False), u)"
    by (simp add: choose_signal_def seek_a_def seek_b_def seek_cd_def seek_e_def s gate_signal_def candidate_strategy_def Let_def)
  let ?g = "store_signal gate_signal False (gate_engine\<lparr>en_work := u\<rparr>)"
  have "\<exists>w' ds. execute_signal gate_cycle gate_signal v = (w', Inr (''TRADE_OPENED'', ds))" for v
  proof -
    have "entry_reference gate_signal = Some (Fin 23250)" by (simp add: entry_reference_def gate_signal_def delta_aware_def)
    then show ?thesis
      by (simp add: execute_signal_def signal_mode_is s Let_def gate_contract sized_entry_def gate_size enter_trade_def)
  qed
  then obtain w' ds where x: "execute_signal gate_cycle gate_signal (en_work ?g) = (w', Inr (''TRADE_OPENED'', ds))" by blast
  have "rg_allowed (strategy_gate gate_cycle [] (sg_strategy gate_signal))" by (simp add: strategy_gate_def count_gates s r)
  moreover have "sg_strategy gate_signal \<noteq> PIVOT_VWAP_SCALP" by (simp add: gate_signal_def)
  ultimately have "seek_entry gate_cycle gate_engine = (?g\<lparr>en_work := w'\<rparr>, Inr (''TRADE_OPENED'', ds))"
    by (simp add: seek_entry_def today ch x Let_def)
  moreover have "\<not> health_lost gate_cycle ?w" by (simp add: health_lost_def s)
  ultimately show ?thesis by (simp add: entry_stage_def Let_def b)
qed

theorem entry_gated_witness:
  "\<exists>g' ds. entry_stage gate_cycle gate_engine = (g', Inr (''TRADE_OPENED'', ds)) \<and> \<not> se_kill_switch (ey_settings gate_cycle)
    \<and> int (length (wk_cache (en_work gate_engine))) < rk_max_concurrent_positions (dk_risk (ey_desk gate_cycle))"
  using gate_opens entry_gated[of gate_cycle gate_engine] unfolding Let_def by blast

text \<open>The stored trade of an entry, and what else it changes.\<close>

lemma get_others: "keyof r \<noteq> k \<Longrightarrow> row_get keyof k (row_upsert keyof (\<lambda>old new. new) r rows) = row_get keyof k rows"
proof -
  assume k: "keyof r \<noteq> k"
  have "row_get keyof k (row_update keyof (keyof r) (\<lambda>old. r) rows) = row_get keyof k rows"
    using k by (induction rows) (auto simp: row_update_def)
  then show ?thesis using k by (auto simp: row_upsert_def row_get_snoc split: option.split)
qed

lemma announce_same:
  "wk_rows (announce_entry y sg t w) = wk_rows w" "wk_oms (announce_entry y sg t w) = wk_oms w"
  "wk_trade (announce_entry y sg t w) = wk_trade w"
  by (simp_all add: announce_entry_def Let_def call_def record_execution_def)

definition entered :: "cycle \<Rightarrow> work \<Rightarrow> live_trade \<Rightarrow> work \<Rightarrow> bool" where
  "entered y w t w' \<longleftrightarrow> lt_mode t = se_mode (ey_settings y) \<and> lt_trade_id t = ''TRD-'' @ show_int (ey_now y div seconds 1)
     \<and> open_trade t \<and> tr_entry_time (lt_core t) = ey_now y \<and> sale_refs t = [] \<and> lt_filled_quantity t = 0
     \<and> row_get lt_trade_id (lt_trade_id t) (wk_rows w') = Some t
     \<and> (\<forall>k. k \<noteq> lt_trade_id t \<longrightarrow> row_get lt_trade_id k (wk_rows w') = row_get lt_trade_id k (wk_rows w))"

text \<open>The LIVE order of a trade: one purchase of its quantity under its identifier.\<close>

definition bought_for :: "desk \<Rightarrow> live_trade \<Rightarrow> oms_db \<Rightarrow> oms_db \<Rightarrow> bool" where
  "bought_for d t db db' \<longleftrightarrow> (\<exists>intent ord oc. create_order_intent (dk_oms d) intent db = (Some ord, oc) \<and> db' = oc_state oc
     \<and> oi_side intent = BUY \<and> oi_quantity intent = quantity_of t \<and> oi_correlation_id intent = lt_trade_id t
     \<and> oi_trading_mode intent = LIVE \<and> lt_entry_order_id t = Some (bo_order_id ord))"

lemma enter_effect:
  assumes "enter_trade y sg entry c (se_mode (ey_settings y)) lots q w = (w', r)"
  shows "\<exists>t. entered y w t w' \<and> quantity_of t = q \<and>
    (case r of Inr _ \<Rightarrow> (if se_mode (ey_settings y) = AUTO_LIVE then bought_for (ey_desk y) t (wk_oms w) (wk_oms w')
        else lt_entry_order_id t = None \<and> wk_oms w' = wk_oms w)
     | Inl _ \<Rightarrow> se_mode (ey_settings y) = AUTO_LIVE \<and> lt_entry_order_id t = None)"
proof -
  let ?m = "se_mode (ey_settings y)" and ?d = "ey_desk y"
  let ?t = "new_trade (dk_risk ?d) (ey_now y) ?m sg entry (ey_chain_source y) c lots q"
  let ?a = "announce_entry y sg ?t (save_trade (w\<lparr>wk_trade := ?t\<rparr>))"
  have a: "wk_rows ?a = row_upsert lt_trade_id (\<lambda>old new. new) ?t (wk_rows w)" "wk_oms ?a = wk_oms w" "wk_trade ?a = ?t"
    by (simp_all add: announce_same save_trade_def)
  show ?thesis
  proof (cases "?m = AUTO_LIVE")
    case False
    then show ?thesis using assms a
      by (intro exI[of _ ?t]) (auto simp: enter_trade_def Let_def entered_def new_trade_fields call_def get_replaced get_others)
  next
    case True
    show ?thesis
    proof (cases "create_order_intent (dk_oms ?d) (entry_intent ?d c ?t) (wk_oms w)")
      case (Pair x oc)
      let ?f = "\<lambda>oid t. t\<lparr>lt_entry_order_id := Some oid, lt_core := (lt_core t)\<lparr>tr_state := ENTRY_PENDING\<rparr>\<rparr>"
      have f: "lt_mode (?f oid t) = lt_mode t" "lt_trade_id (?f oid t) = lt_trade_id t" "open_trade (?f oid t)"
        "tr_entry_time (lt_core (?f oid t)) = tr_entry_time (lt_core t)" "sale_refs (?f oid t) = sale_refs t"
        "lt_filled_quantity (?f oid t) = lt_filled_quantity t" "quantity_of (?f oid t) = quantity_of t"
        "lt_entry_order_id (?f oid t) = Some oid" for oid t
        by (simp_all add: open_trade_def sale_refs_def)
      have i: "oi_side (entry_intent ?d c ?t) = BUY" "oi_quantity (entry_intent ?d c ?t) = q"
        "oi_correlation_id (entry_intent ?d c ?t) = lt_trade_id ?t" "oi_trading_mode (entry_intent ?d c ?t) = LIVE"
        by (simp_all add: entry_intent_def new_trade_fields)
      show ?thesis
      proof (cases x)
        case None
        then show ?thesis using assms True Pair a
          by (intro exI[of _ ?t]) (auto simp: enter_trade_def Let_def andthen_def oms_create_def entered_def new_trade_fields
              get_replaced get_others)
      next
        case (Some ord)
        have "bought_for ?d (?f (bo_order_id ord) ?t) (wk_oms w) (oc_state oc)"
          unfolding bought_for_def using Pair Some i
          by (intro exI[of _ "entry_intent ?d c ?t"] exI[of _ ord] exI[of _ oc]) (simp add: f new_trade_fields)
        moreover have "entered y w (?f (bo_order_id ord) ?t) w'" "wk_oms w' = oc_state oc" "r = Inr (fst (projr r), snd (projr r))"
          using assms True Pair Some a
          by (auto simp: enter_trade_def Let_def andthen_def oms_create_def entered_def f new_trade_fields save_trade_def upd_def
              call_def get_replaced get_others)
        ultimately show ?thesis using True by (intro exI[of _ "?f (bo_order_id ord) ?t"]) (auto simp: f new_trade_fields split: sum.split)
      qed
    qed
  qed
qed

lemma execute_effect:
  assumes "execute_signal y sg w = (w', r)"
  shows "quiet_step w w' \<and> (\<forall>ds. r \<noteq> Inr (''TRADE_OPENED'', ds))
    \<or> (\<exists>entry c lots q w1. quiet_step w w1 \<and> enter_trade y sg entry c (se_mode (ey_settings y)) lots q w1 = (w', r))"
proof -
  have s: "quiet_step w u' \<and> (\<forall>ds. r \<noteq> Inr (''TRADE_OPENED'', ds))
      \<or> (\<exists>entry c lots q w1. quiet_step w w1 \<and> enter_trade y sg entry c (se_mode (ey_settings y)) lots q w1 = (u', r))"
    if "sized_entry y sg (se_mode (ey_settings y)) entry c u = (u', r)" "quiet_step w u" for entry c u u'
    using that by (auto simp: sized_entry_def split: sum.splits prod.splits if_splits)
  show ?thesis using assms s
    by (auto simp: execute_signal_def signal_mode_is Let_def reasoned_def split: if_splits option.splits sum.splits prod.splits)
qed

lemma entry_effect:
  assumes "entry_stage y g = (g', r)"
  shows "quiet_step (en_work g) (en_work g') \<and> (\<forall>ds. r \<noteq> Inr (''TRADE_OPENED'', ds))
    \<or> (\<exists>sg entry c lots q w1. quiet_step (en_work g) w1 \<and> enter_trade y sg entry c (se_mode (ey_settings y)) lots q w1 = (en_work g', r))
    \<or> (en_work g' = disarm y (en_work g) \<and> (\<forall>ds. r \<noteq> Inr (''TRADE_OPENED'', ds)))"
proof (cases "health_lost y (en_work g)")
  case True
  then show ?thesis using assms by (auto simp: entry_stage_def Let_def)
next
  case False
  show ?thesis
  proof (cases "entry_block y (en_work g)")
    case None
    then have "seek_entry y g = (g', r)" using assms False by (simp add: entry_stage_def Let_def)
    then show ?thesis
    proof (cases rule: seek_cases)
      case (stay st ds)
      then show ?thesis by auto
    next
      case (execute sg w1)
      then show ?thesis using execute_effect[OF execute(2)] quiet_trans by blast
    qed
  next
    case (Some x)
    then show ?thesis using assms False entry_block_status[OF Some] by (auto simp: entry_stage_def Let_def stand_down_def)
  qed
qed

text \<open>The books after the entry stage.\<close>

lemma stage_books:
  "case entry_stage y g of (g', r) \<Rightarrow>
    (case r of
       Inr (st, _) \<Rightarrow>
         (if st = ''TRADE_OPENED''
          then \<exists>t. entered y (en_work g) t (en_work g')
            \<and> (if se_mode (ey_settings y) = AUTO_LIVE then bought_for (ey_desk y) t (wk_oms (en_work g)) (wk_oms (en_work g'))
               else lt_entry_order_id t = None \<and> wk_oms (en_work g') = wk_oms (en_work g))
          else wk_rows (en_work g') = wk_rows (en_work g) \<and> wk_oms (en_work g') = wk_oms (en_work g))
     | Inl _ \<Rightarrow> wk_rows (en_work g') = wk_rows (en_work g) \<and> wk_oms (en_work g') = wk_oms (en_work g)
         \<or> se_mode (ey_settings y) = AUTO_LIVE \<and> (\<exists>t. entered y (en_work g) t (en_work g') \<and> lt_entry_order_id t = None))"
proof -
  obtain g' r where s: "entry_stage y g = (g', r)" by (rule prod.exhaust)
  have d: "wk_rows (disarm y w) = wk_rows w" "wk_oms (disarm y w) = wk_oms w" for w
    by (simp_all add: disarm_def stand_down_def call_def)
  have e: "\<exists>t. entered y (en_work g) t (en_work g') \<and>
      (case r of Inr _ \<Rightarrow> (if se_mode (ey_settings y) = AUTO_LIVE then bought_for (ey_desk y) t (wk_oms (en_work g)) (wk_oms (en_work g'))
          else lt_entry_order_id t = None \<and> wk_oms (en_work g') = wk_oms (en_work g))
       | Inl _ \<Rightarrow> se_mode (ey_settings y) = AUTO_LIVE \<and> lt_entry_order_id t = None)"
    if "quiet_step (en_work g) w1" "enter_trade y sg entry c (se_mode (ey_settings y)) lots q w1 = (en_work g', r)" for sg entry c lots q w1
  proof -
    have same: "entered y w1 t w' = entered y (en_work g) t w'" "wk_oms w1 = wk_oms (en_work g)" for t w'
      using quiet_same[OF that(1)] by (simp_all add: entered_def)
    show ?thesis using enter_effect[OF that(2), unfolded same] by blast
  qed
  have o: "st = ''TRADE_OPENED''"
    if "enter_trade y sg entry c (se_mode (ey_settings y)) lots q w1 = (en_work g', Inr (st, ds))" for sg entry c lots q w1 st ds
    using enter_result[of y sg entry c "se_mode (ey_settings y)" lots q w1 st ds] that by simp
  from entry_effect[OF s] show ?thesis
  proof (elim disjE conjE exE)
    assume "quiet_step (en_work g) (en_work g')" "\<forall>ds. r \<noteq> Inr (''TRADE_OPENED'', ds)"
    then show ?thesis using quiet_same by (auto simp: s split: sum.split)
  next
    fix sg entry c lots q w1
    assume w: "quiet_step (en_work g) w1" "enter_trade y sg entry c (se_mode (ey_settings y)) lots q w1 = (en_work g', r)"
    show ?thesis using e[OF w] o[of sg entry c lots q w1] w(2) by (cases r) (auto simp: s)
  next
    assume "en_work g' = disarm y (en_work g)" "\<forall>ds. r \<noteq> Inr (''TRADE_OPENED'', ds)"
    then show ?thesis using d by (auto simp: s split: sum.split)
  qed
qed

text \<open>
  C22. What a cycle leaves in the books beside the management of the open trades: when the management
  of the open trades raises, the cycle ends with its work and its exception.  Otherwise, relative to
  the books the management left: a cycle that opens a trade stores exactly that trade, leaves every
  other row alone, and in LIVE mode puts one purchase of the quantity of the trade, under its
  identifier, into the OMS; on paper it leaves the OMS alone.  A cycle that opens none changes neither
  the trades nor the OMS, and an exception leaves at most a LIVE trade without an order.
\<close>

theorem entry_books:
  "case manage_open y (en_work g) of
     (w, Inl e) \<Rightarrow> evaluate_cycle y g = (g\<lparr>en_work := w\<rparr>, Inl e)
   | (w, Inr _) \<Rightarrow>
      (case evaluate_cycle y g of (g', r) \<Rightarrow>
        (case r of
           Inr (st, _) \<Rightarrow>
             (if st = ''TRADE_OPENED''
              then \<exists>t. entered y w t (en_work g')
                \<and> (if se_mode (ey_settings y) = AUTO_LIVE then bought_for (ey_desk y) t (wk_oms w) (wk_oms (en_work g'))
                   else lt_entry_order_id t = None \<and> wk_oms (en_work g') = wk_oms w)
              else wk_rows (en_work g') = wk_rows w \<and> wk_oms (en_work g') = wk_oms w)
         | Inl _ \<Rightarrow> wk_rows (en_work g') = wk_rows w \<and> wk_oms (en_work g') = wk_oms w
             \<or> se_mode (ey_settings y) = AUTO_LIVE \<and> (\<exists>t. entered y w t (en_work g') \<and> lt_entry_order_id t = None)))"
proof -
  obtain w x where m: "manage_open y (en_work g) = (w, x)" by (rule prod.exhaust)
  obtain g' r where s: "entry_stage y (g\<lparr>en_work := w\<rparr>) = (g', r)" by (rule prod.exhaust)
  have w: "en_work (g\<lparr>en_work := w\<rparr>) = w" by simp
  show ?thesis using stage_books[where y = y and g = "g\<lparr>en_work := w\<rparr>"]
    by (cases x) (simp_all only: m s w evaluate_cycle_def prod.case sum.case)
qed

end
