(* ===== verification/EngineRuns.thy ===== *)
theory EngineRuns imports EntrySafety begin

text \<open>
  Runs of the engine: cycles and manual exits in any order, the OMS changing in between.  Managing a
  trade touches the row of that trade only, so the limits on open positions and on the trades of a day
  hold along every run.
\<close>

section \<open>The entry time of a position\<close>

lemma entry_time_parts:
  "tr_entry_time (mark_strategy_a e r p op t) = tr_entry_time t" "tr_entry_time (protect_strategy_a m x t) = tr_entry_time t"
  "tr_entry_time (fst (take_t1 a b c t)) = tr_entry_time t" "tr_entry_time (mark_position po x t) = tr_entry_time t"
  "tr_entry_time (track_r x t) = tr_entry_time t" "tr_entry_time (record_bar bar t) = tr_entry_time t"
  by (simp_all add: mark_strategy_a_def protect_strategy_a_def take_t1_def mark_position_def track_r_def record_bar_def Let_def)

lemma entry_time_stages:
  "tr_entry_time (fst (check_thesis x y t)) = tr_entry_time t" "tr_entry_time (fst (check_false_breakout f x y t)) = tr_entry_time t"
  "tr_entry_time (fst (check_stops m op x now t)) = tr_entry_time t" "tr_entry_time (fst (act_on_score f x n t)) = tr_entry_time t"
  "tr_entry_time (ladder m f t) = tr_entry_time t"
  by (simp_all add: check_thesis_def check_false_breakout_def inside_box_def check_stops_def act_on_score_def tighten_on_two_def
      tighten_on_three_def ladder_def Let_def split: option.split)

lemma entry_time_then: "(\<And>u. tr_entry_time (fst (f u)) = tr_entry_time u) \<Longrightarrow>
    tr_entry_time (fst (and_then p f)) = tr_entry_time (fst p)"
  by (simp add: and_then_def split: prod.split verdict.split)

lemma entry_time_update: "tr_entry_time (fst (update_position m op f as_of now t)) = tr_entry_time t"
  by (simp add: update_position_def update_strategy_a_position_def Let_def entry_time_parts entry_time_stages entry_time_then
      split: option.split)

lemma entry_time_partial: "apply_t1_partial_fill a b c d t = Inr t' \<Longrightarrow> tr_entry_time t' = tr_entry_time t"
  by (auto simp: apply_t1_partial_fill_def Let_def split: if_splits option.splits)

section \<open>The row of a trade\<close>

text \<open>What management never changes of a trade, and the works whose rows differ in the row of \<open>t\<close> only.\<close>

definition mark :: "live_trade \<Rightarrow> string \<times> timestamp" where
  "mark t = (lt_trade_id t, tr_entry_time (lt_core t))"

definition own :: "live_trade \<Rightarrow> live_trade list \<Rightarrow> work \<Rightarrow> bool" where
  "own t rows w \<longleftrightarrow> mark (wk_trade w) = mark t
     \<and> (wk_rows w = rows \<or> (\<exists>u. mark u = mark t \<and> wk_rows w = row_upsert lt_trade_id (\<lambda>old new. new) u rows))"

abbreviation keeps :: "live_trade \<Rightarrow> live_trade list \<Rightarrow> 'a act \<Rightarrow> bool" where
  "keeps t rows m \<equiv> runs (own t rows) (\<lambda>_. own t rows) m"

named_theorems own

lemma upsert_again:
  assumes "keyof u = keyof v"
  shows "row_upsert keyof (\<lambda>old new. new) v (row_upsert keyof (\<lambda>old new. new) u rows) = row_upsert keyof (\<lambda>old new. new) v rows"
proof (cases "row_get keyof (keyof v) rows")
  case None
  have "row_upsert keyof (\<lambda>old new. new) u rows = rows @ [u]" by (rule row_upsert_new(1)) (simp add: assms None)
  moreover have "row_upsert keyof (\<lambda>old new. new) v rows = rows @ [v]" by (rule row_upsert_new(1)) (rule None)
  moreover have "row_upsert keyof (\<lambda>old new. new) v (rows @ [u]) = rows @ [v]"
    by (rule row_upsert_new(2)) (simp_all add: assms None)
  ultimately show ?thesis by simp
next
  case (Some x)
  have "row_get keyof (keyof v) (row_update keyof (keyof v) (\<lambda>old. u) rows) \<noteq> None"
    using Some assms by (induction rows) (auto simp: row_update_def split: if_splits)
  then have "row_upsert keyof (\<lambda>old new. new) v (row_update keyof (keyof v) (\<lambda>old. u) rows)
      = row_update keyof (keyof v) (\<lambda>old. v) (row_update keyof (keyof v) (\<lambda>old. u) rows)"
    unfolding row_upsert_def[of keyof _ v] by (auto split: option.split)
  moreover have "row_update keyof (keyof v) (\<lambda>old. v) (row_update keyof (keyof v) (\<lambda>old. u) rows)
      = row_update keyof (keyof v) (\<lambda>old. v) rows" using assms by (simp add: row_update_def)
  moreover have "row_upsert keyof (\<lambda>old new. new) u rows = row_update keyof (keyof v) (\<lambda>old. u) rows"
    "row_upsert keyof (\<lambda>old new. new) v rows = row_update keyof (keyof v) (\<lambda>old. v) rows"
    using Some assms by (simp_all add: row_upsert_def)
  ultimately show ?thesis by simp
qed

lemma own_save [own]: "own t rows w \<Longrightarrow> own t rows (save_trade w)"
proof -
  assume o: "own t rows w"
  then have m: "mark (wk_trade w) = mark t" by (simp add: own_def)
  from o have "wk_rows (save_trade w) = row_upsert lt_trade_id (\<lambda>old new. new) (wk_trade w) rows"
    unfolding own_def by (auto simp: save_trade_def upsert_again mark_def)
  then show ?thesis using m unfolding own_def by (auto simp: save_trade_def)
qed

lemma own_same: "own t rows w \<Longrightarrow> mark (wk_trade w') = mark (wk_trade w) \<Longrightarrow> wk_rows w' = wk_rows w \<Longrightarrow> own t rows w'"
  by (simp add: own_def)

lemma own_upd [own]: "own t rows w \<Longrightarrow> (\<And>u. mark (f u) = mark u) \<Longrightarrow> own t rows (upd f w)"
  by (erule own_same) (simp_all add: upd_def)

lemma own_upd_core [own]: "own t rows w \<Longrightarrow> (\<And>c. tr_entry_time (f c) = tr_entry_time c) \<Longrightarrow> own t rows (upd_core f w)"
  by (erule own_same) (simp_all add: upd_core_def upd_def mark_def)

lemma own_upd_stop [own]: "own t rows w \<Longrightarrow> own t rows (upd_stop f w)"
  by (erule own_same) (simp_all add: upd_stop_def upd_def mark_def)

lemma own_updates [simp, own]:
  "own t rows (call c w) = own t rows w" "own t rows (record_execution e w) = own t rows w"
  "own t rows (w\<lparr>wk_calls := cs\<rparr>) = own t rows w" "own t rows (w\<lparr>wk_cache := ca\<rparr>) = own t rows w"
  "own t rows (w\<lparr>wk_armed := b\<rparr>) = own t rows w" "own t rows (w\<lparr>wk_oms := db\<rparr>) = own t rows w"
  "own t rows (w\<lparr>wk_last_loss_exit := l\<rparr>) = own t rows w"
  by (simp_all add: own_def call_def record_execution_def)

lemma own_set: "own t rows w \<Longrightarrow> mark u = mark (wk_trade w) \<Longrightarrow> own t rows (w\<lparr>wk_trade := u\<rparr>)"
  by (simp add: own_def)

lemma own_replace: "own t rows w \<Longrightarrow> mark u = mark (wk_trade w) \<Longrightarrow> own t rows (upd (\<lambda>_. u) w)"
  by (simp add: own_def upd_def)

lemma own_then: "keeps t rows m \<Longrightarrow> (\<And>x w. own t rows w \<Longrightarrow> keeps t rows (f x w)) \<Longrightarrow> keeps t rows (andthen m f)"
  by (rule runs_andthen)

lemma own_create [own]: "own t rows w \<Longrightarrow> keeps t rows (oms_create d i w)"
  by (auto simp: oms_create_def split: prod.split option.split)

lemma own_failure [own]: "own t rows w \<Longrightarrow> own t rows (snd (record_protective_stop_failure d i reason unknown w))"
  by (auto simp: record_protective_stop_failure_def Let_def mark_def intro!: own)

lemma closed_mark: "mark (closed_trade r now f price reason q t) = mark t"
  by (simp add: closed_trade_def closing_r_def mark_def Let_def)

lemma own_close [own]: "own t rows w \<Longrightarrow> own t rows (close_trade d i f price reason q w)"
  by (auto simp: close_trade_def Let_def closed_mark intro!: own own_set)

lemma own_account [own]: "own t rows w \<Longrightarrow> own t rows (account_stop_fill p w)"
  by (auto simp: account_stop_fill_def Let_def mark_def intro!: own)

section \<open>The operations on the row\<close>

lemma own_place [own]: "own t rows w \<Longrightarrow> keeps t rows (place_protective_stop d n w)"
  by (auto simp: place_protective_stop_def Let_def split: sum.split intro!: own own_then)

lemma own_failed: "record_protective_stop_failure d i reason unknown w = (b, w') \<Longrightarrow> own t rows w \<Longrightarrow> own t rows w'"
  using own_failure[of t rows w d i reason unknown] by simp

lemma own_ended [own]: "own t rows w \<Longrightarrow> keeps t rows (stop_ended d s w)"
  by (auto simp: stop_ended_def Let_def split: prod.split intro!: own elim!: own_failed)

lemma own_sync [own]: "own t rows w \<Longrightarrow> keeps t rows (sync_live_protective_stop d f w)"
  by (auto simp: sync_live_protective_stop_def stop_filled_def stop_working_def Let_def split: option.split intro!: own)

lemma own_request [own]: "own t rows w \<Longrightarrow> keeps t rows (request_stop_cancel d oid w)"
  by (auto simp: request_stop_cancel_def Let_def split: option.split intro!: own)

lemma own_cancel [own]: "own t rows w \<Longrightarrow> keeps t rows (cancel_live_protective_stop_for_exit d f w)"
  by (auto simp: cancel_live_protective_stop_for_exit_def Let_def split: option.split intro!: own own_then)

lemma progress_mark: "mark (fst (apply_exit_order_progress ord u)) = mark u"
  "mark (fst (apply_live_t1_order_progress ord u)) = mark u"
  by (simp_all add: apply_exit_order_progress_def apply_live_t1_order_progress_def mark_def Let_def)

lemma mark_updates:
  "mark (u\<lparr>lt_option_data_status := a\<rparr>) = mark u" "mark (u\<lparr>lt_partial_order_id := b\<rparr>) = mark u"
  "mark (u\<lparr>lt_exit_order_id := b\<rparr>) = mark u" "mark (u\<lparr>lt_core := c\<rparr>) = (lt_trade_id u, tr_entry_time c)"
  "mark (reset_live_t1_order_progress u) = mark u" "mark (reset_exit_order_progress u) = mark u"
  by (simp_all add: mark_def reset_live_t1_order_progress_def reset_exit_order_progress_def)

lemma mark_core: "(lt_trade_id u, tr_entry_time (lt_core u)) = mark u" by (simp add: mark_def)

lemma own_t1_ended [own]: "own t rows w \<Longrightarrow> own t rows (t1_ended ord n b w)"
  by (auto simp: t1_ended_def Let_def mark_def reset_live_t1_order_progress_def intro!: own)

lemma own_t1_sync [own]: "own t rows w \<Longrightarrow> keeps t rows (sync_live_t1_partial_exit d f w)"
proof -
  assume w: "own t rows w"
  have "own t rows (upd (\<lambda>_. u) w)" if "apply_live_t1_order_progress ord (wk_trade w) = (u, p)" for ord u p
    using own_replace[OF w] progress_mark(2)[of ord "wk_trade w"] that by simp
  then show ?thesis using w
    by (simp add: sync_live_t1_partial_exit_def Let_def mark_updates own_save own_upd own_t1_ended own_sync split: option.split prod.split)
qed

lemma pending_mark: "mark (t1_pending p u) = mark u" "mark (emergency_owned u) = mark u" "mark (exit_submitted ord r u) = mark u"
  by (simp_all add: t1_pending_def emergency_owned_def exit_submitted_def reset_exit_order_progress_def mark_def)

lemma own_submit_t1 [own]: "own t rows w \<Longrightarrow> keeps t rows (submit_live_t1_partial_exit d f q w)"
  by (auto simp: submit_live_t1_partial_exit_def Let_def pending_mark t1_pending_def reset_live_t1_order_progress_def mark_def
      split: sum.split intro!: own own_then)

lemma own_submit_final [own]: "own t rows w \<Longrightarrow> keeps t rows (submit_live_final_exit d f q reason w)"
  by (auto simp: submit_live_final_exit_def Let_def exit_submitted_def emergency_owned_def reset_exit_order_progress_def mark_def
      split: sum.split intro!: own own_then)

lemma own_submit_at [own]: "own t rows w \<Longrightarrow> keeps t rows (submit_exit_at d p reason w)"
  by (auto simp: submit_exit_at_def Let_def pending_mark intro!: own own_then)

lemma own_entry [own]: "own t rows w \<Longrightarrow> keeps t rows (entry_phase d w)"
proof -
  have p: "own t rows w \<Longrightarrow> own t rows (entry_progress d ord w)" for w ord
    by (auto simp: entry_progress_def entry_price_update_def Let_def mark_def intro!: own)
  have "own t rows w \<Longrightarrow> own t rows (entry_unfilled d ord w)" for w ord
    by (auto simp: entry_unfilled_def Let_def mark_def intro!: own)
  moreover have "own t rows w \<Longrightarrow> own t rows (entry_filled d ord w)" for w ord
    by (auto simp: entry_filled_def entry_price_update_def Let_def mark_def intro!: own)
  ultimately show "own t rows w \<Longrightarrow> keeps t rows (entry_phase d w)"
    using p by (auto simp: entry_phase_def entry_working_def Let_def split: option.split gateway_reply.split)
qed

lemma own_exit_order [own]: "own t rows w \<Longrightarrow> keeps t rows (exit_order_phase d ci w)"
proof -
  assume w: "own t rows w"
  have "own t rows (upd (\<lambda>_. u) w)" if "apply_exit_order_progress ord (wk_trade w) = (u, p)" for ord u p
    using own_replace[OF w] progress_mark(1)[of ord "wk_trade w"] that by simp
  then show ?thesis using w
    by (simp add: exit_order_phase_def Let_def mark_updates own_save own_upd own_close split: option.split prod.split)
qed

section \<open>The cycle on the row\<close>

lemma strategy_marks:
  "mark (emergency_decided u) = mark u" "mark (underlying_exit_decided f ev u) = mark u" "mark (mark_candidate f r u) = mark u"
  "mark (mark_option price u) = mark u" "mark (scale_out r u) = mark u" "mark (candidate_exit_decided f r reason u) = mark u"
  "mark (mark_e q price u) = mark u" "mark (mark_e_option q u) = mark u" "mark (e_exit_decided m ts price u) = mark u"
  "mark (apply_quote_to_trade q u) = mark u"
  by (simp_all add: emergency_decided_def emergency_owned_def underlying_exit_decided_def mark_candidate_def mark_option_def
      scale_out_def candidate_exit_decided_def mark_e_def mark_e_option_def e_exit_decided_def apply_quote_to_trade_def mark_def
      Let_def split: option.split)

lemma own_decided [own]: "own t rows w \<Longrightarrow> own t rows (note w) \<Longrightarrow> keeps t rows (decided_exit d f q reason note w)"
  by (auto simp: decided_exit_def intro!: own)

lemma own_partial [own]: "own t rows w \<Longrightarrow> keeps t rows (execute_partial_exit d f q w)"
proof -
  assume w: "own t rows w"
  have "own t rows (upd_core (\<lambda>_. c') w)" if "apply_t1_partial_fill a b s ts (lt_core (wk_trade w)) = Inr c'" for a b s ts c'
    using w entry_time_partial[OF that] by (auto simp: own_def upd_core_def upd_def mark_def)
  then show ?thesis using w
    by (simp add: execute_partial_exit_def Let_def own_save own_upd pending_mark split: sum.split)
qed

lemma own_partial_decided [own]: "own t rows w \<Longrightarrow> keeps t rows (partial_exit_decided d f q w)"
  by (simp add: partial_exit_decided_def own_partial own_submit_t1)

lemma own_position [own]:
  assumes "own t rows w" "update_position m op f as_of now (lt_core (wk_trade w)) = (c, v)"
  shows "own t rows (upd_core (\<lambda>_. c) w)"
  using assms entry_time_update[of m op f as_of now "lt_core (wk_trade w)"] by (simp add: own_def upd_core_def upd_def mark_def)

lemma own_signal_a [own]: "own t rows w \<Longrightarrow> keeps t rows (strategy_a_signal d f q ev w)"
  by (simp add: strategy_a_signal_def Let_def strategy_marks pending_mark own_save own_upd own_decided own_partial_decided)

lemma own_strategy_a [own]: "own t rows w \<Longrightarrow> keeps t rows (evaluate_strategy_a d f ci w)"
  by (simp add: evaluate_strategy_a_def Let_def own_save own_decided own_position own_signal_a split: prod.split verdict.split)

lemma own_candidate [own]: "own t rows w \<Longrightarrow> keeps t rows (evaluate_candidate d f ci w)"
  by (simp add: evaluate_candidate_def candidate_stage_exit_def Let_def strategy_marks mark_updates own_save own_upd own_upd_core
      own_close own_submit_t1 own_partial own_decided split: option.split)

lemma own_strategy_e [own]: "own t rows w \<Longrightarrow> keeps t rows (evaluate_strategy_e d f ci w)"
  by (simp add: evaluate_strategy_e_def Let_def strategy_marks mark_updates own_save own_upd own_decided
      split: option.split sum.split)

lemma own_live_b [own]: "own t rows w \<Longrightarrow> keeps t rows (live_exit_b d f q reason w)"
  by (auto simp: live_exit_b_def emergency_owned_def mark_def intro!: own own_then)

lemma own_strategy_b [own]: "own t rows w \<Longrightarrow> keeps t rows (evaluate_strategy_b d f ci w)"
  by (simp add: evaluate_strategy_b_def Let_def own_save own_position own_partial_decided own_live_b own_close
      split: prod.split verdict.split option.split)

lemma own_go_on: "keeps t rows m \<Longrightarrow> (\<And>w. own t rows w \<Longrightarrow> keeps t rows (f w)) \<Longrightarrow> keeps t rows (go_on m f)"
  unfolding go_on_def by (rule own_then) auto

lemma own_protection [own]: "own t rows w \<Longrightarrow> keeps t rows (protection_phase d f w)"
  "own t rows w \<Longrightarrow> keeps t rows (partial_exit_phase d f w)"
  by (auto simp: protection_phase_def partial_exit_phase_def intro!: own_then own_sync own_t1_sync)

lemma own_evaluate: "own t rows w \<Longrightarrow> keeps t rows (evaluate_active_trade d ci w)"
  unfolding evaluate_active_trade_def Let_def
  by (intro own_go_on own_entry own_protection own_exit_order)
    (simp_all add: strategy_phase_def Let_def own_upd strategy_marks own_strategy_a own_strategy_b own_candidate own_strategy_e
      split: strategy_name.split)

lemma own_loaded: "own t (wk_rows w) (w\<lparr>wk_trade := t\<rparr>)" by (simp add: own_def)

lemma own_manual:
  assumes "load_trade tid w = Some w1"
  shows "keeps (wk_trade w1) (wk_rows w) (manual_exit_trade d ci tid reason w)"
proof -
  obtain t where w1: "w1 = w\<lparr>wk_trade := t\<rparr>" using assms by (auto simp: load_trade_def split: option.splits if_splits)
  then have "own t (wk_rows w) w1" using own_loaded by simp
  then have "own t (wk_rows w) (upd (apply_quote_to_trade (ci_quote ci)) w1)" by (intro own_upd strategy_marks)
  then have "keeps t (wk_rows w) (manual_exit_trade d ci tid reason w)"
    by (auto simp: manual_exit_trade_def assms Let_def mark_def intro!: own own_then)
  then show ?thesis by (simp add: w1)
qed

section \<open>Counting the rows\<close>

definition open_count :: "live_trade list \<Rightarrow> nat" where
  "open_count rows = length (filter open_trade rows)"

definition on_day :: "day \<Rightarrow> live_trade \<Rightarrow> bool" where
  "on_day d t \<longleftrightarrow> ist_date (tr_entry_time (lt_core t)) = d"

definition day_count :: "day \<Rightarrow> live_trade list \<Rightarrow> nat" where
  "day_count d rows = length (filter (on_day d) rows)"

lemma upsert_at:
  assumes "keys_distinct keyof (xs @ t # ys)" "keyof u = keyof t"
  shows "row_upsert keyof (\<lambda>old new. new) u (xs @ t # ys) = xs @ u # ys"
proof -
  have "row_get keyof (keyof t) (xs @ t # ys) = Some t" by (rule row_get_in[OF assms(1)]) simp
  moreover have "keyof t \<notin> keyof ` set xs" "keyof t \<notin> keyof ` set ys" using assms(1) by (auto simp: keys_distinct_def)
  then have "map (\<lambda>r. if keyof r = keyof t then u else r) xs = xs" "map (\<lambda>r. if keyof r = keyof t then u else r) ys = ys"
    by (auto intro!: map_idI) (metis imageI)+
  ultimately show ?thesis using assms(2) by (simp add: row_upsert_def row_update_def)
qed

lemma upsert_count:
  assumes "keys_distinct keyof rows"
  shows "length (filter P (row_upsert keyof (\<lambda>old new. new) u rows)) \<le> length (filter P rows) + (if P u then 1 else 0)"
    and "keys_distinct keyof (row_upsert keyof (\<lambda>old new. new) u rows)"
proof -
  have "length (filter P (row_upsert keyof (\<lambda>old new. new) u rows)) \<le> length (filter P rows) + (if P u then 1 else 0)
    \<and> keys_distinct keyof (row_upsert keyof (\<lambda>old new. new) u rows)"
  proof (cases "row_get keyof (keyof u) rows")
    case None
    then show ?thesis using row_upsert_new(1)[OF None] assms by (auto simp: keys_distinct_def row_get_None_iff)
  next
    case (Some t)
    then have "t \<in> set rows" "keyof t = keyof u" using row_get_Some[OF Some] by auto
    then obtain xs ys where r: "rows = xs @ t # ys" by (meson split_list)
    have "row_upsert keyof (\<lambda>old new. new) u rows = xs @ u # ys"
      unfolding r by (rule upsert_at) (use assms \<open>keyof t = keyof u\<close> in \<open>simp_all add: r\<close>)
    then show ?thesis using assms \<open>keyof t = keyof u\<close> by (simp add: r keys_distinct_def)
  qed
  then show "length (filter P (row_upsert keyof (\<lambda>old new. new) u rows)) \<le> length (filter P rows) + (if P u then 1 else 0)"
    "keys_distinct keyof (row_upsert keyof (\<lambda>old new. new) u rows)" by auto
qed

text \<open>What the management of open trades leaves of the rows.\<close>

definition managed :: "live_trade list \<Rightarrow> work \<Rightarrow> bool" where
  "managed rows w \<longleftrightarrow> keys_distinct lt_trade_id (wk_rows w) \<and> map mark (wk_rows w) = map mark rows
     \<and> open_count (wk_rows w) \<le> open_count rows"

lemma own_managed:
  assumes o: "own t rows w" and t: "t \<in> set rows" "keys_distinct lt_trade_id rows" "open_trade t"
  shows "managed rows w" and "r \<in> set rows \<Longrightarrow> lt_trade_id r \<noteq> lt_trade_id t \<Longrightarrow> r \<in> set (wk_rows w)"
proof -
  obtain xs ys where r: "rows = xs @ t # ys" using t(1) by (meson split_list)
  consider "wk_rows w = rows" | u where "mark u = mark t" "wk_rows w = row_upsert lt_trade_id (\<lambda>old new. new) u rows"
    using o by (auto simp: own_def)
  then have "managed rows w \<and> (\<forall>r \<in> set rows. lt_trade_id r \<noteq> lt_trade_id t \<longrightarrow> r \<in> set (wk_rows w))"
  proof cases
    case 1
    then show ?thesis using t(2) by (simp add: managed_def)
  next
    case (2 u)
    then have w: "wk_rows w = xs @ u # ys" using upsert_at[of lt_trade_id xs t ys u] t(2) by (simp add: r mark_def)
    then show ?thesis using t(2,3) 2(1) by (auto simp: managed_def r open_count_def keys_distinct_def mark_def)
  qed
  then show "managed rows w" "r \<in> set rows \<Longrightarrow> lt_trade_id r \<noteq> lt_trade_id t \<Longrightarrow> r \<in> set (wk_rows w)" by auto
qed

lemma keeps_fst: "keeps t rows m \<Longrightarrow> own t rows (fst m)"
  by (auto simp: runs_def split: sum.splits prod.splits)

lemma managed_trans: "managed rows w \<Longrightarrow> managed (wk_rows w) w' \<Longrightarrow> managed rows w'" by (simp add: managed_def)

lemma managed_trades:
  assumes "set ts \<subseteq> set (wk_rows w)" "distinct (map lt_trade_id ts)" "list_all open_trade ts" "keys_distinct lt_trade_id (wk_rows w)"
  shows "managed (wk_rows w) (fst (manage_trades y ts w))"
  using assms
proof (induction ts arbitrary: w)
  case Nil
  then show ?case by (simp add: managed_def)
next
  case (Cons t ts)
  let ?m = "evaluate_active_trade (ey_trade_desk y (lt_trade_id t))
      ((ey_trade_input y (lt_trade_id t))\<lparr>ci_features := ey_features y\<rparr>) (w\<lparr>wk_trade := t\<rparr>)"
  obtain w1 r where m: "?m = (w1, r)" by (rule prod.exhaust)
  have o: "own t (wk_rows w) w1" using keeps_fst[OF own_evaluate[OF own_loaded]] m by (metis fst_conv)
  have t: "t \<in> set (wk_rows w)" "open_trade t" using Cons.prems by auto
  note mg = own_managed[OF o t(1) Cons.prems(4) t(2)]
  have "set ts \<subseteq> set (wk_rows w1)"
  proof
    fix x assume x: "x \<in> set ts"
    then have "lt_trade_id x \<noteq> lt_trade_id t" using Cons.prems(2) by (metis distinct.simps(2) imageI list.set_map list.simps(9))
    then show "x \<in> set (wk_rows w1)" using mg(2)[of x] x Cons.prems(1) by auto
  qed
  then have "managed (wk_rows w1) (fst (manage_trades y ts w1))"
    using Cons.prems mg(1) by (intro Cons.IH) (auto simp: managed_def)
  then show ?case using mg(1) m by (auto simp: andthen_def split: sum.split intro: managed_trans)
qed

lemma refresh_rows [simp]: "wk_rows (refresh_cache w) = wk_rows w" "length (wk_cache (refresh_cache w)) = open_count (wk_rows w)"
  by (simp_all add: refresh_cache_def active_trades_def open_count_def)

lemma managed_open:
  assumes "keys_distinct lt_trade_id (wk_rows w)"
  shows "managed (wk_rows w) (fst (manage_open y w))"
    and "manage_open y w = (w', Inr u) \<Longrightarrow> length (wk_cache w') = open_count (wk_rows w')"
proof -
  have "managed (wk_rows w) (fst (manage_trades y (active_trades w) (refresh_cache w)))"
    using managed_trades[of "active_trades w" "refresh_cache w" y] assms
    by (auto simp: active_trades_def keys_distinct_def list_all_iff distinct_map inj_on_def)
  then show "managed (wk_rows w) (fst (manage_open y w))"
    by (auto simp: manage_open_def andthen_def managed_def split: prod.split sum.split)
  show "manage_open y w = (w', Inr u) \<Longrightarrow> length (wk_cache w') = open_count (wk_rows w')"
    by (auto simp: manage_open_def andthen_def split: prod.splits sum.splits)
qed

section \<open>An entry on the rows\<close>

lemma enter_rows:
  assumes "enter_trade y sg entry c m lots q w = (w', r)"
  shows "\<exists>t. tr_entry_time (lt_core t) = ey_now y \<and> wk_rows w' = row_upsert lt_trade_id (\<lambda>old new. new) t (wk_rows w)"
proof -
  let ?t = "new_trade (dk_risk (ey_desk y)) (ey_now y) m sg entry (ey_chain_source y) c lots q"
  let ?a = "announce_entry y sg ?t (save_trade (w\<lparr>wk_trade := ?t\<rparr>))"
  have a: "wk_rows ?a = row_upsert lt_trade_id (\<lambda>old new. new) ?t (wk_rows w)" "wk_trade ?a = ?t"
    by (simp_all add: announce_same save_trade_def)
  have n: "tr_entry_time (lt_core ?t) = ey_now y" by (simp add: new_trade_fields)
  show ?thesis
  proof (cases "m = AUTO_LIVE \<and> (\<exists>ord oc. create_order_intent (dk_oms (ey_desk y)) (entry_intent (ey_desk y) c ?t) (wk_oms ?a) = (Some ord, oc))")
    case False
    then show ?thesis using assms a n
      by (intro exI[of _ ?t]) (auto simp: enter_trade_def Let_def andthen_def oms_create_def call_def split: prod.splits option.splits if_splits)
  next
    case True
    then obtain ord oc where o: "create_order_intent (dk_oms (ey_desk y)) (entry_intent (ey_desk y) c ?t) (wk_oms ?a) = (Some ord, oc)"
      by blast
    let ?u = "?t\<lparr>lt_entry_order_id := Some (bo_order_id ord), lt_core := (lt_core ?t)\<lparr>tr_state := ENTRY_PENDING\<rparr>\<rparr>"
    have "wk_rows w' = row_upsert lt_trade_id (\<lambda>old new. new) ?u (wk_rows ?a)"
      using assms True o a by (auto simp: enter_trade_def Let_def andthen_def oms_create_def call_def save_trade_def upd_def)
    then show ?thesis using a n by (intro exI[of _ ?u]) (simp add: upsert_again)
  qed
qed

lemma entry_opened_gates:
  assumes "entry_stage y g = (g', r)" "wk_rows (en_work g') \<noteq> wk_rows (en_work g)"
  shows "entry_block y (en_work g) = None
    \<and> (\<exists>t. tr_entry_time (lt_core t) = ey_now y \<and> wk_rows (en_work g') = row_upsert lt_trade_id (\<lambda>old new. new) t (wk_rows (en_work g)))"
proof -
  have d: "wk_rows (disarm y w) = wk_rows w" for w by (simp add: disarm_def stand_down_def call_def)
  have h: "\<not> health_lost y (en_work g)" using assms d by (auto simp: entry_stage_def Let_def)
  have b: "entry_block y (en_work g) = None"
    using assms h by (auto simp: entry_stage_def Let_def stand_down_def call_def split: option.splits)
  from entry_effect[OF assms(1)] show ?thesis
  proof (elim disjE conjE exE)
    assume "quiet_step (en_work g) (en_work g')"
    then show ?thesis using quiet_same assms(2) by blast
  next
    fix sg entry c lots q w1
    assume q: "quiet_step (en_work g) w1" and e: "enter_trade y sg entry c (se_mode (ey_settings y)) lots q w1 = (en_work g', r)"
    have "wk_rows w1 = wk_rows (en_work g)" using quiet_same[OF q] by simp
    then show ?thesis using b enter_rows[OF e] by simp
  next
    assume "en_work g' = disarm y (en_work g)"
    then show ?thesis using d assms(2) by simp
  qed
qed

section \<open>The trades of a day\<close>

lemma take_filter:
  "sorted_wrt (\<lambda>a b. P b \<longrightarrow> P a) ys \<Longrightarrow> filter P (take n ys) = take n (filter P ys)"
proof (induction ys arbitrary: n)
  case (Cons a ys)
  show ?case
  proof (cases n)
    case (Suc k)
    show ?thesis
    proof (cases "P a")
      case False
      then have "filter P ys = []" using Cons.prems by (auto simp: filter_empty_conv)
      then show ?thesis using False Suc Cons.IH[of k] Cons.prems by simp
    qed (use Suc Cons in simp)
  qed simp
qed simp

lemma ist_date_mono: "a \<le> b \<Longrightarrow> ist_date a \<le> ist_date b"
  by (simp add: ist_date_def ist_micros_def zdiv_mono1)

lemma today_count:
  assumes "\<forall>r \<in> set (wk_rows w). tr_entry_time (lt_core r) \<le> ey_now y"
  shows "length (trades_today y w) = min 1000 (day_count (ist_date (ey_now y)) (wk_rows w))"
proof -
  let ?e = "\<lambda>r. tr_entry_time (lt_core r)" and ?d = "ist_date (ey_now y)"
  let ?ys = "sort_key (\<lambda>r. - ?e r) (wk_rows w)"
  have P: "(\<lambda>r. ist_date (?e r) = ?d) = on_day ?d" by (simp add: on_day_def fun_eq_iff)
  have s: "sorted_wrt (\<lambda>a b. - ?e a \<le> - ?e b) ?ys" using sorted_sort_key[of "\<lambda>r. - ?e r" "wk_rows w"] by (simp add: sorted_wrt_map)
  have "sorted_wrt (\<lambda>a b. on_day ?d b \<longrightarrow> on_day ?d a) ?ys"
  proof (rule sorted_wrt_mono_rel[OF _ s])
    fix a b assume "a \<in> set ?ys" "b \<in> set ?ys" "- ?e a \<le> - ?e b"
    then have "ist_date (?e b) \<le> ist_date (?e a)" "ist_date (?e a) \<le> ?d" using assms by (auto intro: ist_date_mono)
    then show "on_day ?d b \<longrightarrow> on_day ?d a" by (auto simp: on_day_def)
  qed
  from take_filter[OF this, of 1000] show ?thesis
    by (simp add: trades_today_def newest_def P day_count_def filter_sort)
qed

section \<open>Runs\<close>

text \<open>
  The engine from an empty table: cycles under the limits \<open>n\<close> and \<open>k\<close> with a clock that does not go back,
  manual exits, and anything else that leaves the rows of the trades alone (the OMS, the ledger, the
  configuration, a restart).
\<close>

inductive engine_run :: "int \<Rightarrow> int \<Rightarrow> timestamp \<Rightarrow> engine \<Rightarrow> bool" for n k where
  start: "wk_rows (en_work g) = [] \<Longrightarrow> engine_run n k now g"
| cycle: "engine_run n k now g \<Longrightarrow> now \<le> ey_now y \<Longrightarrow> rk_max_concurrent_positions (dk_risk (ey_desk y)) = n \<Longrightarrow>
     rk_max_trades_per_day (dk_risk (ey_desk y)) = k \<Longrightarrow> engine_run n k (ey_now y) (fst (evaluate_cycle y g))"
| manual: "engine_run n k now g \<Longrightarrow> engine_run n k now (on_work (\<lambda>w. fst (manual_exit_trade d ci tid reason w)) g)"
| other: "engine_run n k now g \<Longrightarrow> wk_rows (en_work g') = wk_rows (en_work g) \<Longrightarrow> engine_run n k now g'"

definition within_limits :: "int \<Rightarrow> int \<Rightarrow> timestamp \<Rightarrow> live_trade list \<Rightarrow> bool" where
  "within_limits n k now rows \<longleftrightarrow> keys_distinct lt_trade_id rows \<and> (\<forall>r \<in> set rows. tr_entry_time (lt_core r) \<le> now)
     \<and> int (open_count rows) \<le> max 0 n \<and> (k \<le> 1000 \<longrightarrow> (\<forall>d. int (day_count d rows) \<le> max 0 k))"

lemma mark_times: "map mark xs = map mark ys \<Longrightarrow> map (\<lambda>r. tr_entry_time (lt_core r)) xs = map (\<lambda>r. tr_entry_time (lt_core r)) ys"
proof -
  assume "map mark xs = map mark ys"
  then have "map snd (map mark xs) = map snd (map mark ys)" by simp
  then show ?thesis by (simp add: mark_def comp_def)
qed

lemma day_count_times: "day_count d rows = length (filter (\<lambda>s. ist_date s = d) (map (\<lambda>r. tr_entry_time (lt_core r)) rows))"
  by (simp add: day_count_def on_day_def[abs_def] filter_map comp_def)

lemma managed_limits:
  assumes "managed rows w" "within_limits n k now rows"
  shows "within_limits n k now (wk_rows w)"
proof -
  have times: "map (\<lambda>r. tr_entry_time (lt_core r)) (wk_rows w) = map (\<lambda>r. tr_entry_time (lt_core r)) rows"
    by (rule mark_times) (use assms(1) in \<open>simp add: managed_def\<close>)
  have "(\<lambda>r. tr_entry_time (lt_core r)) ` set (wk_rows w) = (\<lambda>r. tr_entry_time (lt_core r)) ` set rows"
    using arg_cong[OF times, of set] by simp
  moreover have "\<forall>s \<in> (\<lambda>r. tr_entry_time (lt_core r)) ` set rows. s \<le> now" using assms(2) by (simp add: within_limits_def)
  ultimately have a: "\<forall>r \<in> set (wk_rows w). tr_entry_time (lt_core r) \<le> now" by (metis imageI)
  have b: "day_count d (wk_rows w) = day_count d rows" for d unfolding day_count_times times ..
  have c: "keys_distinct lt_trade_id (wk_rows w)" "open_count (wk_rows w) \<le> open_count rows"
    using assms(1) by (simp_all add: managed_def)
  have "int (open_count rows) \<le> max 0 n" "k \<le> 1000 \<longrightarrow> (\<forall>d. int (day_count d rows) \<le> max 0 k)"
    using assms(2) by (simp_all add: within_limits_def)
  then show ?thesis unfolding within_limits_def using a b c by auto
qed

lemma entry_limits:
  assumes "entry_stage y g = (g', r)" "within_limits n k (ey_now y) (wk_rows (en_work g))"
    and "length (wk_cache (en_work g)) = open_count (wk_rows (en_work g))"
    and limits: "rk_max_concurrent_positions (dk_risk (ey_desk y)) = n" "rk_max_trades_per_day (dk_risk (ey_desk y)) = k"
  shows "within_limits n k (ey_now y) (wk_rows (en_work g'))"
proof (cases "wk_rows (en_work g') = wk_rows (en_work g)")
  case True
  then show ?thesis using assms(2) by simp
next
  case False
  let ?rows = "wk_rows (en_work g)" and ?d = "ist_date (ey_now y)"
  obtain t where b: "entry_block y (en_work g) = None" and t: "tr_entry_time (lt_core t) = ey_now y"
    "wk_rows (en_work g') = row_upsert lt_trade_id (\<lambda>old new. new) t ?rows"
    using entry_opened_gates[OF assms(1) False] by blast
  have keys: "keys_distinct lt_trade_id ?rows" and times: "\<forall>r \<in> set ?rows. tr_entry_time (lt_core r) \<le> ey_now y"
    using assms(2) by (auto simp: within_limits_def)
  note gates = b[unfolded entry_block_def Let_def first_block_None, simplified count_gates, simplified]
  have "int (open_count ?rows) < n" "int (length (trades_today y (en_work g))) < k"
    using gates limits assms(3) by simp_all
  moreover have "open_count (wk_rows (en_work g')) \<le> open_count ?rows + 1"
    using upsert_count(1)[OF keys, of open_trade t] t(2) by (simp add: open_count_def split: if_splits)
  ultimately have "int (open_count (wk_rows (en_work g'))) \<le> max 0 n" "k \<le> 1000 \<Longrightarrow> int (day_count ?d ?rows) < k"
    using today_count[OF times] by (auto simp: min_def split: if_splits)
  moreover have "int (day_count d (wk_rows (en_work g'))) \<le> max 0 k" if "k \<le> 1000" for d
  proof -
    have old: "int (day_count d ?rows) \<le> max 0 k" using assms(2) that by (simp add: within_limits_def)
    have new: "day_count d (wk_rows (en_work g')) \<le> day_count d ?rows + (if d = ?d then 1 else 0)"
      using upsert_count(1)[OF keys, of "on_day d" t] t by (auto simp: day_count_def on_day_def split: if_splits)
    show ?thesis using old new calculation(2)[OF that] by (cases "d = ?d") auto
  qed
  moreover have "\<forall>r \<in> set (wk_rows (en_work g')). tr_entry_time (lt_core r) \<le> ey_now y"
    using times t by (auto simp: row_upsert_def row_update_def split: option.splits)
  ultimately show ?thesis using upsert_count(2)[OF keys] t(2) by (simp add: within_limits_def)
qed

lemma manual_limits:
  assumes "within_limits n k now (wk_rows w)"
  shows "within_limits n k now (wk_rows (fst (manual_exit_trade d ci tid reason w)))"
proof (cases "load_trade tid w")
  case None
  then show ?thesis using assms by (simp add: manual_exit_trade_def)
next
  case (Some w1)
  then have t: "wk_trade w1 \<in> set (wk_rows w)" "open_trade (wk_trade w1)"
    using row_get_Some[of lt_trade_id tid "wk_rows w"] by (auto simp: load_trade_def open_trade_def split: option.splits if_splits)
  have "keys_distinct lt_trade_id (wk_rows w)" using assms by (simp add: within_limits_def)
  from own_managed(1)[OF keeps_fst[OF own_manual[OF Some]] t(1) this t(2)] show ?thesis using managed_limits assms by blast
qed

lemma engine_run_limits: "engine_run n k now g \<Longrightarrow> within_limits n k now (wk_rows (en_work g))"
proof (induction rule: engine_run.induct)
  case (start g now)
  then show ?case by (simp add: within_limits_def keys_distinct_def open_count_def day_count_def)
next
  case (cycle now g y)
  have l: "within_limits n k (ey_now y) (wk_rows (en_work g))"
    using cycle.IH cycle.hyps(2) by (auto simp: within_limits_def)
  then have keys: "keys_distinct lt_trade_id (wk_rows (en_work g))" by (simp add: within_limits_def)
  obtain w r where m: "manage_open y (en_work g) = (w, r)" by (rule prod.exhaust)
  then have lw: "within_limits n k (ey_now y) (wk_rows w)" using managed_limits[OF managed_open(1)[OF keys, of y] l] by simp
  show ?case
  proof (cases r)
    case (Inl e)
    then show ?thesis using m lw by (simp add: evaluate_cycle_def)
  next
    case (Inr u)
    obtain g' v where e: "entry_stage y (g\<lparr>en_work := w\<rparr>) = (g', v)" by (rule prod.exhaust)
    have "length (wk_cache w) = open_count (wk_rows w)" using managed_open(2)[OF keys] m Inr by simp
    then show ?thesis using entry_limits[OF e] lw cycle.hyps(3,4) m Inr e by (simp add: evaluate_cycle_def)
  qed
next
  case (manual now g d ci tid reason)
  then show ?case using manual_limits by (simp add: on_work_def)
next
  case (other now g g')
  then show ?case by simp
qed

text \<open>
  C7. The limits on positions and trades hold along every run: however cycles, manual exits and changes
  of the OMS, the configuration and the caches follow each other, exceptions in the middle of a cycle
  included, no more than the allowed positions are open at a time, and no day ever has more entries
  than the allowed trades (the code counts among the newest 1000 trades, so up to that limit).
\<close>

theorem limits_hold:
  assumes "engine_run n k now g"
  shows "int (open_count (wk_rows (en_work g))) \<le> max 0 n
    \<and> (k \<le> 1000 \<longrightarrow> (\<forall>d. int (day_count d (wk_rows (en_work g))) \<le> max 0 k))"
  using engine_run_limits[OF assms] by (simp add: within_limits_def)

lemma gate_cycle_run:
  "\<exists>g ds. evaluate_cycle gate_cycle gate_engine = (g, Inr (''TRADE_OPENED'', ds)) \<and> engine_run 1 5 (ey_now gate_cycle) g"
proof -
  have "active_trades (en_work gate_engine) = []" "refresh_cache (en_work gate_engine) = en_work gate_engine"
    by (simp_all add: active_trades_def refresh_cache_def gate_engine_def demo_work_def)
  then have m: "manage_open gate_cycle (en_work gate_engine) = (en_work gate_engine, Inr ())"
    by (simp add: manage_open_def andthen_def)
  obtain g ds where e: "entry_stage gate_cycle gate_engine = (g, Inr (''TRADE_OPENED'', ds))" using gate_opens by blast
  have c: "evaluate_cycle gate_cycle gate_engine = (g, Inr (''TRADE_OPENED'', ds))" using m e by (simp add: evaluate_cycle_def)
  have "engine_run 1 5 0 gate_engine" by (rule engine_run.start) (simp add: gate_engine_def)
  from engine_run.cycle[OF this, of gate_cycle] c show ?thesis
    by (auto simp: gate_cycle_def gate_risk_def default_risk_limits_def demo_desk_def)
qed

theorem limits_hold_witness:
  "\<exists>g ds. evaluate_cycle gate_cycle gate_engine = (g, Inr (''TRADE_OPENED'', ds))
    \<and> open_count (wk_rows (en_work g)) \<le> 1 \<and> day_count (ist_date (ey_now gate_cycle)) (wk_rows (en_work g)) \<le> 5"
proof -
  obtain g ds where g: "evaluate_cycle gate_cycle gate_engine = (g, Inr (''TRADE_OPENED'', ds))"
    "engine_run 1 5 (ey_now gate_cycle) g" using gate_cycle_run by blast
  have "int (open_count (wk_rows (en_work g))) \<le> 1" "int (day_count (ist_date (ey_now gate_cycle)) (wk_rows (en_work g))) \<le> 5"
    using limits_hold[OF g(2)] by simp_all
  then show ?thesis using g(1) by (intro exI[of _ g] exI[of _ ds]) simp
qed

end
