(* ===== verification/Authority.thy ===== *)
theory Authority imports EngineRuns begin

text \<open>
  LIVE authority: \<^verbatim>\<open>config.system_armed\<close>, the field \<open>wk_armed\<close> of a work.  No step of the evaluation cycle,
  of the management of a trade or of a manual exit ever sets it, and without it none of them puts a
  purchase into the OMS: what they order is sales, and the entry part stops at the gate.
\<close>

definition purchases :: "oms_db \<Rightarrow> order_intent list" where
  "purchases db = filter (\<lambda>i. oi_side i = BUY) (od_intents db)"

definition shut :: "order_intent list \<Rightarrow> work \<Rightarrow> bool" where
  "shut B w \<longleftrightarrow> \<not> wk_armed w \<and> purchases (wk_oms w) = B"

abbreviation stays_shut :: "order_intent list \<Rightarrow> 'a act \<Rightarrow> bool" where
  "stays_shut B m \<equiv> runs (shut B) (\<lambda>_. shut B) m"

named_theorems shut_rules

lemma shut_updates [simp]:
  "shut B (call c w) = shut B w" "shut B (record_execution e w) = shut B w" "shut B (save_trade w) = shut B w" "shut B (upd f w) = shut B w"
  "shut B (upd_core g w) = shut B w" "shut B (upd_stop h w) = shut B w" "shut B (w\<lparr>wk_calls := cs\<rparr>) = shut B w"
  "shut B (w\<lparr>wk_cache := ca\<rparr>) = shut B w" "shut B (w\<lparr>wk_last_loss_exit := l\<rparr>) = shut B w"
  "shut B (w\<lparr>wk_trade := u\<rparr>) = shut B w" "shut B (w\<lparr>wk_rows := rs\<rparr>) = shut B w"
  by (simp_all add: shut_def call_def record_execution_def save_trade_def upd_def upd_core_def upd_stop_def)

lemma shut_disarmed [simp]: "shut B w \<Longrightarrow> shut B (w\<lparr>wk_armed := False\<rparr>)" by (simp add: shut_def)

lemma shut_then: "stays_shut B m \<Longrightarrow> (\<And>x w. shut B w \<Longrightarrow> stays_shut B (f x w)) \<Longrightarrow> stays_shut B (andthen m f)"
  by (rule runs_andthen)

lemma save_purchases: "save_order_intent env i intent tp db = Inr db' \<Longrightarrow> oi_side intent \<noteq> BUY \<Longrightarrow> purchases db' = purchases db"
  by (auto simp: save_order_intent_def row_insert_def purchases_def split: if_splits option.splits)

lemma order_purchases:
  "save_broker_order_with_transition env i j ord st st' msg tp db = Inr db' \<Longrightarrow> purchases db' = purchases db"
  by (simp add: purchases_def save_orderD(4))

lemma create_purchases: "oi_side i \<noteq> BUY \<Longrightarrow> purchases (oc_state (snd (create_order_intent env i db))) = purchases db"
  by (auto simp: create_order_intent_def Let_def split: sum.split option.split dest!: order_purchases save_purchases)

lemma shut_create [shut_rules]: "shut B w \<Longrightarrow> oi_side i \<noteq> BUY \<Longrightarrow> stays_shut B (oms_create d i w)"
  using create_purchases[of i "dk_oms d" "wk_oms w"] by (auto simp: oms_create_def shut_def split: prod.split option.split)

lemma sales_only [simp]: "oi_side (protective_intent d a b q t) \<noteq> BUY" "oi_side (exit_intent d s tif q p t) \<noteq> BUY"
  by (simp_all add: protective_intent_def exit_intent_def)

lemma shut_failure [shut_rules]: "shut B w \<Longrightarrow> shut B (snd (record_protective_stop_failure d i reason unknown w))"
  by (simp add: record_protective_stop_failure_def Let_def)

lemma shut_failed: "record_protective_stop_failure d i reason unknown w = (b, w') \<Longrightarrow> shut B w \<Longrightarrow> shut B w'"
  using shut_failure[of B w d i reason unknown] by simp

lemma shut_close [simp]: "shut B (close_trade d i f price reason q w) = shut B w"
  by (simp add: close_trade_def Let_def)

lemma shut_account [simp]: "shut B (account_stop_fill p w) = shut B w"
  by (simp add: account_stop_fill_def Let_def)

section \<open>Orders\<close>

lemma shut_place [shut_rules]: "shut B w \<Longrightarrow> stays_shut B (place_protective_stop d n w)"
  by (auto simp: place_protective_stop_def Let_def split: sum.split intro!: shut_rules shut_then)

lemma shut_ended [shut_rules]: "shut B w \<Longrightarrow> stays_shut B (stop_ended d s w)"
  by (auto simp: stop_ended_def Let_def split: prod.split intro!: shut_rules elim!: shut_failed)

lemma shut_sync [shut_rules]: "shut B w \<Longrightarrow> stays_shut B (sync_live_protective_stop d f w)"
  by (auto simp: sync_live_protective_stop_def stop_filled_def stop_working_def Let_def split: option.split intro!: shut_rules)

lemma shut_request [shut_rules]: "shut B w \<Longrightarrow> stays_shut B (request_stop_cancel d oid w)"
  by (auto simp: request_stop_cancel_def Let_def split: option.split intro!: shut_failure)

lemma shut_cancel [shut_rules]: "shut B w \<Longrightarrow> stays_shut B (cancel_live_protective_stop_for_exit d f w)"
  by (auto simp: cancel_live_protective_stop_for_exit_def Let_def split: option.split intro!: shut_rules shut_then)

lemma shut_t1_ended [simp]: "shut B (t1_ended ord n b w) = shut B w"
  by (simp add: t1_ended_def Let_def)

lemma shut_t1_sync [shut_rules]: "shut B w \<Longrightarrow> stays_shut B (sync_live_t1_partial_exit d f w)"
  by (auto simp: sync_live_t1_partial_exit_def Let_def split: option.split prod.split intro!: shut_rules)

lemma shut_submit_t1 [shut_rules]: "shut B w \<Longrightarrow> stays_shut B (submit_live_t1_partial_exit d f q w)"
  by (auto simp: submit_live_t1_partial_exit_def Let_def split: sum.split intro!: shut_rules shut_then)

lemma shut_submit_final [shut_rules]: "shut B w \<Longrightarrow> stays_shut B (submit_live_final_exit d f q reason w)"
  by (auto simp: submit_live_final_exit_def Let_def split: sum.split intro!: shut_rules shut_then)

lemma shut_submit_at [shut_rules]: "shut B w \<Longrightarrow> stays_shut B (submit_exit_at d p reason w)"
  by (auto simp: submit_exit_at_def Let_def intro!: shut_rules shut_then)

lemma shut_entry_steps [simp]: "shut B (entry_progress d ord w) = shut B w" "shut B (entry_unfilled d ord w) = shut B w"
  "shut B (entry_filled d ord w) = shut B w"
  by (simp_all add: entry_progress_def entry_unfilled_def entry_filled_def Let_def)

lemma shut_entry [shut_rules]: "shut B w \<Longrightarrow> stays_shut B (entry_phase d w)"
  by (auto simp: entry_phase_def entry_working_def Let_def split: option.split gateway_reply.split)

lemma shut_exit_order [shut_rules]: "shut B w \<Longrightarrow> stays_shut B (exit_order_phase d ci w)"
  by (auto simp: exit_order_phase_def Let_def split: option.split prod.split)

section \<open>Management\<close>

lemma shut_decided [shut_rules]: "shut B w \<Longrightarrow> shut B (note w) \<Longrightarrow> stays_shut B (decided_exit d f q reason note w)"
  by (auto simp: decided_exit_def intro!: shut_rules)

lemma shut_partial [shut_rules]: "shut B w \<Longrightarrow> stays_shut B (execute_partial_exit d f q w)"
  by (auto simp: execute_partial_exit_def Let_def split: sum.split)

lemma shut_partial_decided [shut_rules]: "shut B w \<Longrightarrow> stays_shut B (partial_exit_decided d f q w)"
  by (auto simp: partial_exit_decided_def intro!: shut_rules)

lemma shut_signal_a [shut_rules]: "shut B w \<Longrightarrow> stays_shut B (strategy_a_signal d f q ev w)"
  by (auto simp: strategy_a_signal_def Let_def intro!: shut_rules)

lemma shut_strategy_a [shut_rules]: "shut B w \<Longrightarrow> stays_shut B (evaluate_strategy_a d f ci w)"
  by (auto simp: evaluate_strategy_a_def Let_def split: prod.split verdict.split intro!: shut_rules)

lemma shut_candidate [shut_rules]: "shut B w \<Longrightarrow> stays_shut B (evaluate_candidate d f ci w)"
  by (auto simp: evaluate_candidate_def candidate_stage_exit_def Let_def split: option.split intro!: shut_rules)

lemma shut_strategy_e [shut_rules]: "shut B w \<Longrightarrow> stays_shut B (evaluate_strategy_e d f ci w)"
  by (auto simp: evaluate_strategy_e_def Let_def split: option.split sum.split intro!: shut_rules)

lemma shut_live_b [shut_rules]: "shut B w \<Longrightarrow> stays_shut B (live_exit_b d f q reason w)"
  by (auto simp: live_exit_b_def intro!: shut_rules shut_then)

lemma shut_strategy_b [shut_rules]: "shut B w \<Longrightarrow> stays_shut B (evaluate_strategy_b d f ci w)"
  by (auto simp: evaluate_strategy_b_def Let_def split: prod.split verdict.split option.split intro!: shut_rules)

lemma shut_go_on: "stays_shut B m \<Longrightarrow> (\<And>w. shut B w \<Longrightarrow> stays_shut B (f w)) \<Longrightarrow> stays_shut B (go_on m f)"
  unfolding go_on_def by (rule shut_then) auto

lemma shut_protection [shut_rules]: "shut B w \<Longrightarrow> stays_shut B (protection_phase d f w)"
  "shut B w \<Longrightarrow> stays_shut B (partial_exit_phase d f w)"
  by (auto simp: protection_phase_def partial_exit_phase_def intro!: shut_then shut_sync shut_t1_sync)

lemma shut_evaluate [shut_rules]: "shut B w \<Longrightarrow> stays_shut B (evaluate_active_trade d ci w)"
  unfolding evaluate_active_trade_def Let_def
  by (intro shut_go_on shut_entry shut_protection shut_exit_order)
    (auto simp: strategy_phase_def Let_def split: strategy_name.split intro!: shut_rules)

lemma shut_manual [shut_rules]: "shut B w \<Longrightarrow> stays_shut B (manual_exit_trade d ci tid reason w)"
proof (cases "load_trade tid w")
  case (Some w1)
  assume "shut B w"
  then have "shut B w1" using Some by (auto simp: load_trade_def split: option.splits if_splits)
  then show ?thesis by (auto simp: manual_exit_trade_def Some Let_def intro!: shut_rules shut_then)
qed (simp add: manual_exit_trade_def)

section \<open>The cycle\<close>

lemma shut_manage_trades [shut_rules]: "shut B w \<Longrightarrow> stays_shut B (manage_trades y ts w)"
  by (induction ts arbitrary: w) (auto intro!: shut_rules shut_then)

lemma shut_manage [shut_rules]: "shut B w \<Longrightarrow> stays_shut B (manage_open y w)"
  unfolding manage_open_def by (rule shut_then) (auto simp: refresh_cache_def intro!: shut_rules)

lemma quiet_shut: "quiet_step w w' \<Longrightarrow> shut B w' = shut B w"
  using quiet_same[of w w'] by (auto simp: shut_def)

text \<open>A disarmed entry part buys nothing through the OMS: in LIVE mode it stops at the gate.\<close>

lemma paper_entry_shut: "m \<noteq> AUTO_LIVE \<Longrightarrow> shut B w \<Longrightarrow> shut B (fst (enter_trade y sg entry c m lots q w))"
  by (simp add: enter_trade_def announce_entry_def Let_def)

lemma entry_shut:
  assumes "shut B (en_work g)" "entry_stage y g = (g', r)"
  shows "shut B (en_work g')"
proof (cases "se_mode (ey_settings y) = AUTO_LIVE")
  case True
  then have "entry_block y (en_work g) \<noteq> None" "\<not> health_lost y (en_work g)"
    using assms(1) unfolding entry_block_def Let_def first_block_None by (auto simp: shut_def health_lost_def)
  then show ?thesis using assms by (auto simp: entry_stage_def stand_down_def Let_def)
next
  case False
  have d: "shut B (disarm y (en_work g))" using assms(1) by (simp add: disarm_def stand_down_def)
  from entry_effect[OF assms(2)] show ?thesis
  proof (elim disjE conjE exE)
    fix sg entry c lots q w1
    assume w1: "quiet_step (en_work g) w1" and e: "enter_trade y sg entry c (se_mode (ey_settings y)) lots q w1 = (en_work g', r)"
    have "shut B w1" using quiet_shut[OF w1] assms(1) by simp
    from paper_entry_shut[OF False this, of y sg entry c lots q] show ?thesis by (simp add: e)
  next
    assume "quiet_step (en_work g) (en_work g')"
    from quiet_shut[OF this] show ?thesis using assms(1) by simp
  next
    assume "en_work g' = disarm y (en_work g)"
    then show ?thesis using d by simp
  qed
qed

text \<open>
  A cycle that starts disarmed ends disarmed, whatever it manages and whatever raises, and puts no
  purchase into the OMS.
\<close>

lemma cycle_shut:
  assumes "shut B (en_work g)"
  shows "shut B (en_work (fst (evaluate_cycle y g)))"
proof -
  obtain w r where m: "manage_open y (en_work g) = (w, r)" by (rule prod.exhaust)
  have w: "shut B w" using shut_manage[OF assms, of y] m by (auto simp: runs_def split: sum.splits)
  show ?thesis
  proof (cases r)
    case (Inl e)
    then show ?thesis using m w by (simp add: evaluate_cycle_def)
  next
    case (Inr u)
    obtain g' v where e: "entry_stage y (g\<lparr>en_work := w\<rparr>) = (g', v)" by (rule prod.exhaust)
    then show ?thesis using entry_shut[OF _ e, of B] w m Inr by (simp add: evaluate_cycle_def)
  qed
qed

lemma manual_shut: "shut B w \<Longrightarrow> shut B (fst (manual_exit_trade d ci tid reason w))"
  using shut_manual[of B w d ci tid reason] by (cases "manual_exit_trade d ci tid reason w") (auto simp: runs_def split: sum.splits)

lemma refresh_shut [simp]: "shut B (refresh_cache w) = shut B w" by (simp add: refresh_cache_def)

end
