(* ===== verification/TrendPullback.thy ===== *)
theory TrendPullback imports EntryCycle FuturesSignal "HOL-Library.Sublist" begin

text \<open>
  Strategy A, \<^verbatim>\<open>services/strategy/strategies/trend_pullback.py\<close>: one step per completed fifteen-minute
  futures bar of a machine whose states are the validated snapshots of \<open>StrategyState\<close>.  The
  diagnostics of the user interface and the details of the events are left out.
\<close>

section \<open>Configuration and state\<close>

record a_config =
  ac_adx_min_delta :: pyfloat
  ac_slope_min :: pyfloat
  ac_slope_max :: pyfloat
  ac_ema_separation_min_atr :: pyfloat
  ac_confluence_distance_atr :: pyfloat
  ac_sr_zone_atr :: pyfloat
  ac_min_body_ratio :: pyfloat
  ac_close_location_pct :: pyfloat
  ac_max_range_atr :: pyfloat
  ac_trigger_buffer_atr :: pyfloat
  ac_trigger_validity_bars :: int
  ac_maximum_chase_atr :: pyfloat
  ac_stop_buffer_atr :: pyfloat
  ac_minimum_stop_distance_atr :: pyfloat
  ac_maximum_stop_distance_atr :: pyfloat
  ac_minimum_room_r :: pyfloat
  ac_entry_session_start :: time_of_day
  ac_entry_session_end :: time_of_day
  ac_forced_exit_time :: time_of_day
  ac_allow_session_bypass :: bool

record a_event =
  av_event :: string
  av_timestamp :: timestamp
  av_reason :: "string option"

text \<open>The key of a confirmation, \<^verbatim>\<open>f"{direction}:{timestamp}"\<close>, is the pair.\<close>

record a_state =
  as_snapshot :: state_snapshot
  as_last_candle :: "timestamp option"
  as_contract :: "string option"
  as_event :: "a_event option"
  as_key :: "(strategy_direction \<times> timestamp) option"

definition a_init :: a_state where
  "a_init = \<lparr>as_snapshot = flat_snapshot, as_last_candle = None, as_contract = None, as_event = None, as_key = None\<rparr>"

definition event_at :: "string \<Rightarrow> timestamp \<Rightarrow> string option \<Rightarrow> a_state \<Rightarrow> a_state" where
  "event_at ev t reason s = s\<lparr>as_event := Some \<lparr>av_event = ev, av_timestamp = t, av_reason = reason\<rparr>\<rparr>"

definition a_reset :: "timestamp \<Rightarrow> a_state \<Rightarrow> a_state" where
  "a_reset at_time s = event_at ''RESET'' at_time None a_init"

definition cooldown_snapshot :: "timestamp \<Rightarrow> exn + state_snapshot" where
  "cooldown_snapshot at_time = transition COOLDOWN None None (Some (at_time + minutes 10)) flat_snapshot"

definition set_snapshot :: "exn + state_snapshot \<Rightarrow> (a_state \<Rightarrow> a_state) \<Rightarrow> a_state \<Rightarrow> a_state \<times> (exn + unit)" where
  "set_snapshot r f s = (case r of Inl e \<Rightarrow> (s, Inl e) | Inr snap \<Rightarrow> (f (s\<lparr>as_snapshot := snap\<rparr>), Inr ()))"

definition on_exit :: "timestamp \<Rightarrow> a_state \<Rightarrow> a_state \<times> (exn + unit)" where
  "on_exit at_time s = set_snapshot (cooldown_snapshot at_time) (event_at ''COOLDOWN'' at_time (Some ''POSITION_EXIT'')) s"

definition confirm_entry :: "timestamp \<Rightarrow> a_state \<Rightarrow> a_state \<times> (exn + unit)" where
  "confirm_entry at_time s =
     (if ss_state (as_snapshot s) \<noteq> ARMED \<or> ss_setup (as_snapshot s) = None
      then (s, Inl (ValueError ''Strategy A entry confirmation requires an ARMED setup''))
      else set_snapshot (transition ENTERED None (Some at_time) None (as_snapshot s))
        (event_at ''ENTERED'' at_time (Some ''OPTION_EXECUTION_CONFIRMED'')) s)"

definition on_execution_rejected :: "timestamp \<Rightarrow> string \<Rightarrow> a_state \<Rightarrow> a_state \<times> (exn + unit)" where
  "on_execution_rejected at_time reason s =
     (if ss_state (as_snapshot s) \<notin> {SETUP, ARMED, ENTERED} then (s, Inr ())
      else set_snapshot (cooldown_snapshot at_time)
        (\<lambda>s. event_at ''EXECUTION_REJECTED'' at_time (Some reason) (s\<lparr>as_key := None\<rparr>)) s)"

text \<open>\<open>bypass\<close> is \<^verbatim>\<open>overrides and overrides.bypass_entry_window\<close>.\<close>

definition entry_allowed :: "a_config \<Rightarrow> bool \<Rightarrow> timestamp \<Rightarrow> bool" where
  "entry_allowed C bypass t \<longleftrightarrow> ac_allow_session_bypass C \<and> bypass
     \<or> in_window t (ac_entry_session_start C) (ac_entry_session_end C)"

definition forced_exit :: "a_config \<Rightarrow> timestamp \<Rightarrow> bool" where
  "forced_exit C t \<longleftrightarrow> minutes_of (ac_forced_exit_time C) \<le> ist_minute_of_day t"

section \<open>The bars of an evaluation\<close>

text \<open>The latest bar that must be there, with two minutes for it to arrive, up to 15:15.\<close>

definition expected_end :: "timestamp \<Rightarrow> timestamp" where
  "expected_end t =
     (let boundary = get_bar_start (minutes 330) 15 t;
          expected = (if t - boundary \<le> seconds 120 then boundary - minutes 15 else boundary)
      in min expected (ist_date t * seconds 86400 + minutes 915 - seconds 19800))"

definition latest_end :: "candle list \<Rightarrow> timestamp option" where
  "latest_end cs = (if cs = [] then None else Some (Max (ca_end_time ` set cs)))"

definition a_stream :: "candle list \<Rightarrow> timestamp option \<Rightarrow> timestamp \<Rightarrow> exn + candle list" where
  "a_stream candles as_of t =
     (case canonical_stream candles (Some t) ''15m'' of
        Inl e \<Rightarrow> Inl e
      | Inr raw \<Rightarrow> if raw \<noteq> [] then Inr raw
          else (let agg = aggregate_completed_15m candles as_of
                in if agg = [] then Inr [] else canonical_stream agg (Some t) ''15m''))"

definition features_for_input :: "candle list \<Rightarrow> timestamp option \<Rightarrow> exn + candle list \<times> feature_snapshot" where
  "features_for_input candles as_of =
     (case (case as_of of Some t \<Rightarrow> Some t | None \<Rightarrow> latest_end candles) of
        None \<Rightarrow> Inl (ValueError ''no futures timestamp available'')
      | Some t \<Rightarrow>
         (case a_stream candles as_of t of
            Inl e \<Rightarrow> Inl e
          | Inr raw \<Rightarrow>
              if raw = [] then Inl (ValueError ''no completed futures 15m candles'')
              else if as_of \<noteq> None \<and> ca_end_time (last raw) < expected_end t then Inl (ValueError ''STALE_FUTURES_DATA:'')
              else map_sum id (Pair raw) (build_features raw as_of)))"

section \<open>Qualification\<close>

definition tiny :: pyfloat where "tiny = flit (1 / 10 ^ 12)"
definition slack :: pyfloat where "slack = flit (1 / 10 ^ 9)"

definition call_side :: "strategy_direction \<Rightarrow> bool" where "call_side d \<longleftrightarrow> d = CALL_SIDE"

record trend_components =
  tc_ema_order :: bool
  tc_di_direction :: bool
  tc_ema_separation :: bool
  tc_context_available :: bool
  tc_adx_delta :: "pyfloat option"
  tc_adx_decay_ok :: bool
  tc_slope :: "pyfloat option"
  tc_slope_ok :: bool

definition current_index :: "candle list \<Rightarrow> feature_snapshot \<Rightarrow> nat option" where
  "current_index raw f = List.find (\<lambda>i. ca_end_time (raw ! i) = fs_candle_timestamp f \<and> ca_instrument_id (raw ! i) = fs_contract_id f)
     [0..<length raw]"

text \<open>The features one and two bars earlier, when there are two earlier bars.\<close>

definition earlier_features :: "candle list \<Rightarrow> feature_snapshot \<Rightarrow> exn + (feature_snapshot \<times> feature_snapshot) option" where
  "earlier_features raw f =
     (case current_index raw f of
        None \<Rightarrow> Inr None
      | Some i \<Rightarrow>
          if i < 2 \<or> \<not> flt (Fin 0) (fs_atr14 f) then Inr None
          else (case build_features (take i raw) (Some (ca_end_time (raw ! (i - 1)))) of
              Inl e \<Rightarrow> Inl e
            | Inr p1 \<Rightarrow> map_sum id (\<lambda>p2. Some (p1, p2)) (build_features (take (i - 1) raw) (Some (ca_end_time (raw ! (i - 2)))))))"

definition trend_components :: "a_config \<Rightarrow> candle list \<Rightarrow> feature_snapshot \<Rightarrow> strategy_direction \<Rightarrow> exn + trend_components" where
  "trend_components C raw f d = map_sum id (\<lambda>earlier.
     (let delta = map_option (\<lambda>(p1, p2). fsub (fs_adx14 f) (fs_adx14 p2)) earlier;
          rise = map_option (\<lambda>(p1, p2). over (fsub (fs_ema20 f) (fs_ema20 p1)) (fs_atr14 f)) earlier;
          slope = map_option (\<lambda>x. if call_side d then x else fneg x) rise
      in \<lparr>tc_ema_order = (if call_side d then flt (fs_ema50 f) (fs_ema20 f) else flt (fs_ema20 f) (fs_ema50 f)),
          tc_di_direction = (if call_side d then flt (fs_minus_di14 f) (fs_plus_di14 f) else flt (fs_plus_di14 f) (fs_minus_di14 f)),
          tc_ema_separation = (flt (Fin 0) (fs_atr14 f)
            \<and> fle (fmul (ac_ema_separation_min_atr C) (fs_atr14 f)) (fabs (fsub (fs_ema20 f) (fs_ema50 f)))),
          tc_context_available = (earlier \<noteq> None), tc_adx_delta = delta,
          tc_adx_decay_ok = (case delta of None \<Rightarrow> False | Some x \<Rightarrow> fle (ac_adx_min_delta C) (fadd x tiny)),
          tc_slope = slope,
          tc_slope_ok = (case slope of None \<Rightarrow> False
            | Some x \<Rightarrow> fle (ac_slope_min C) (fadd x tiny) \<and> flt x (fsub (ac_slope_max C) tiny))\<rparr>))
     (earlier_features raw f)"

definition trend_ok :: "a_config \<Rightarrow> candle list \<Rightarrow> feature_snapshot \<Rightarrow> strategy_direction \<Rightarrow> exn + bool \<times> string" where
  "trend_ok C raw f d =
     (if fle (fs_atr14 f) (Fin 0) then Inr (False, ''ATR_UNAVAILABLE'')
      else map_sum id (\<lambda>t.
        if \<not> tc_context_available t then (False, ''MOMENTUM_CONTEXT_UNAVAILABLE'')
        else if \<not> (tc_ema_order t \<and> tc_di_direction t \<and> tc_ema_separation t) then (False, ''TREND_REGIME_NOT_CONFIRMED'')
        else if \<not> tc_adx_decay_ok t then (False, ''MOMENTUM_ADX_DECAY_TOO_FAST'')
        else if \<not> tc_slope_ok t then (False, ''MOMENTUM_EMA_SLOPE_OUT_OF_BAND'')
        else (True, ''TREND_CONFIRMED'')) (trend_components C raw f d))"

definition confirmation_ok :: "a_config \<Rightarrow> feature_snapshot \<Rightarrow> strategy_direction \<Rightarrow> bool \<times> string" where
  "confirmation_ok C f d =
     (let width = fsub (fs_high f) (fs_low f); reach = fmul (ac_close_location_pct C) width in
      if fle width (Fin 0) then (False, ''ZERO_RANGE_CONFIRMATION'')
      else if flt (fadd (over (fabs (fsub (fs_close f) (fs_open f))) width) tiny) (ac_min_body_ratio C)
      then (False, ''CONFIRMATION_BODY_TOO_WEAK'')
      else if \<not> (if call_side d then flt (fs_open f) (fs_close f) else flt (fs_close f) (fs_open f))
      then (False, ''CONFIRMATION_DIRECTION_MISMATCH'')
      else if \<not> (if call_side d then fle (fsub (fs_high f) reach) (fs_close f) else fle (fs_close f) (fadd (fs_low f) reach))
      then (False, ''CONFIRMATION_CLOSE_LOCATION'')
      else if flt (fadd (fmul (ac_max_range_atr C) (fs_atr14 f)) slack) width then (False, ''CONFIRMATION_RANGE_TOO_LARGE'')
      else (True, ''CONFIRMATION_CONFIRMED''))"

definition near :: "feature_snapshot \<Rightarrow> pyfloat \<Rightarrow> pyfloat \<Rightarrow> bool" where
  "near f x distance \<longleftrightarrow> fle (fabs (fsub (fs_close f) x)) distance \<or> fle (fabs (fsub (fs_low f) x)) distance
     \<or> fle (fabs (fsub (fs_high f) x)) distance"

definition confluence :: "a_config \<Rightarrow> feature_snapshot \<Rightarrow> strategy_direction \<Rightarrow> bool \<times> string list \<times> pyfloat option \<times> string" where
  "confluence C f d =
     (if fle (fs_atr14 f) (Fin 0) then (False, [], None, ''ATR_UNAVAILABLE'')
      else (case (if call_side d then fs_support f else fs_resistance f) of
          None \<Rightarrow> (False, [], None, ''NO_CONFIRMED_SR'')
        | Some level \<Rightarrow>
            (let zone = fmul (ac_sr_zone_atr C) (fs_atr14 f); distance = fmul (ac_confluence_distance_atr C) (fs_atr14 f);
                 touches = (fle (fsub (fs_low f) zone) level \<and> fle level (fadd (fs_high f) zone));
                 ema = near f (fs_ema20 f) distance; vwap = near f (fs_session_vwap f) distance;
                 references = [''CONFIRMED_SR''] @ (if ema then [''EMA20''] else []) @ (if vwap then [''SESSION_VWAP''] else []) in
             if \<not> touches then (False, references, Some level, ''PRICE_NOT_IN_SR_ZONE'')
             else if \<not> (ema \<or> vwap) then (False, references, Some level, ''NO_EMA_OR_VWAP_CONFLUENCE'')
             else (True, references, Some level, ''CONFLUENCE_CONFIRMED''))))"

text \<open>\<^verbatim>\<open>_build_setup\<close>: the reason for refusing, or the validated setup.\<close>

definition structural_extreme :: "feature_snapshot \<Rightarrow> strategy_direction \<Rightarrow> pyfloat" where
  "structural_extreme f d =
     (if call_side d then (case fs_support f of None \<Rightarrow> fs_low f | Some x \<Rightarrow> pmin (fs_low f) x)
      else (case fs_resistance f of None \<Rightarrow> fs_high f | Some x \<Rightarrow> pmax (fs_high f) x))"

definition trigger_level :: "a_config \<Rightarrow> feature_snapshot \<Rightarrow> strategy_direction \<Rightarrow> pyfloat" where
  "trigger_level C f d =
     (let buffer = fmul (ac_trigger_buffer_atr C) (fs_atr14 f) in
      if call_side d then fadd (fs_high f) buffer else fsub (fs_low f) buffer)"

definition stop_level :: "a_config \<Rightarrow> feature_snapshot \<Rightarrow> strategy_direction \<Rightarrow> pyfloat" where
  "stop_level C f d =
     (let buffer = fmul (ac_stop_buffer_atr C) (fs_atr14 f) in
      if call_side d then fsub (structural_extreme f d) buffer else fadd (structural_extreme f d) buffer)"

definition opposing_level :: "feature_snapshot \<Rightarrow> strategy_direction \<Rightarrow> pyfloat \<Rightarrow> pyfloat option" where
  "opposing_level f d trigger =
     (case (if call_side d then fs_resistance f else fs_support f) of
        None \<Rightarrow> None
      | Some x \<Rightarrow> if ftrue x \<and> (if call_side d then flt trigger x else flt x trigger) then Some x else None)"

definition enough_room :: "a_config \<Rightarrow> pyfloat \<Rightarrow> pyfloat \<Rightarrow> pyfloat option \<Rightarrow> exn + bool" where
  "enough_room C trigger risk opposing =
     (case opposing of None \<Rightarrow> Inr True
      | Some x \<Rightarrow> (case fdiv (fabs (fsub x trigger)) risk of
            None \<Rightarrow> Inl ZeroDivisionError
          | Some room \<Rightarrow> Inr (\<not> flt room (fsub (ac_minimum_room_r C) slack))))"

definition new_setup :: "a_config \<Rightarrow> feature_snapshot \<Rightarrow> strategy_direction \<Rightarrow> string list \<Rightarrow> pyfloat \<Rightarrow> strategy_setup" where
  "new_setup C f d references level =
     (let t = fs_candle_timestamp f; trigger = trigger_level C f d; stop = stop_level C f d in
      \<lparr>se_direction = d, se_setup_timestamp = t, se_confirmation_bar_timestamp = t, se_confirmation_high = fs_high f,
       se_confirmation_low = fs_low f, se_trigger_price = trigger, se_structural_stop = stop,
       se_initial_underlying_r = fabs (fsub trigger stop), se_relevant_level = level,
       se_confluence_references = references,
       se_setup_expiry_timestamp = t + minutes (15 * ac_trigger_validity_bars C),
       se_setup_expiry_bar_index = int (fs_bar_index f) + ac_trigger_validity_bars C,
       se_invalidation_state = ACTIVE, se_invalidation_reason = None\<rparr>)"

definition build_setup ::
  "a_config \<Rightarrow> feature_snapshot \<Rightarrow> strategy_direction \<Rightarrow> string list \<Rightarrow> pyfloat \<Rightarrow> exn + (string + strategy_setup)" where
  "build_setup C f d references level =
     (let trigger = trigger_level C f d; risk = fabs (fsub trigger (stop_level C f d));
          risk_atr = (if flt (Fin 0) (fs_atr14 f) then over risk (fs_atr14 f) else Fin 0) in
      if flt risk_atr (fsub (ac_minimum_stop_distance_atr C) slack) then Inr (Inl ''STRUCTURAL_R_BELOW_MINIMUM'')
      else if flt (fadd (ac_maximum_stop_distance_atr C) slack) risk_atr then Inr (Inl ''STRUCTURAL_R_ABOVE_MAXIMUM'')
      else (case enough_room C trigger risk (opposing_level f d trigger) of
          Inl e \<Rightarrow> Inl e
        | Inr False \<Rightarrow> Inr (Inl ''INSUFFICIENT_ROOM_TO_OPPOSING_SR'')
        | Inr True \<Rightarrow> map_sum id Inr (make_setup (new_setup C f d references level))))"

text \<open>One direction of the search: trend, confirmation, confluence, then the setup.\<close>

definition qualify :: "a_config \<Rightarrow> candle list \<Rightarrow> feature_snapshot \<Rightarrow> strategy_direction \<Rightarrow> exn + strategy_setup option" where
  "qualify C raw f d =
     (case trend_ok C raw f d of
        Inl e \<Rightarrow> Inl e
      | Inr (qualified, reason) \<Rightarrow>
          if \<not> qualified \<or> \<not> fst (confirmation_ok C f d) then Inr None
          else (case confluence C f d of
              (True, references, Some level, reason) \<Rightarrow>
                map_sum id (case_sum (\<lambda>_. None) Some) (build_setup C f d references level)
            | _ \<Rightarrow> Inr None))"

fun seek_setup :: "a_config \<Rightarrow> candle list \<Rightarrow> feature_snapshot \<Rightarrow> (strategy_direction \<times> timestamp) option
    \<Rightarrow> strategy_direction list \<Rightarrow> exn + (strategy_direction \<times> strategy_setup) option" where
  "seek_setup C raw f key [] = Inr None"
| "seek_setup C raw f key (d # ds) =
     (case qualify C raw f d of
        Inl e \<Rightarrow> Inl e
      | Inr None \<Rightarrow> seek_setup C raw f key ds
      | Inr (Some se) \<Rightarrow> if key = Some (d, fs_candle_timestamp f) then seek_setup C raw f key ds else Inr (Some (d, se)))"

section \<open>One evaluation\<close>

definition a_signal :: "strategy_setup \<Rightarrow> feature_snapshot \<Rightarrow> pyfloat \<Rightarrow> strategy_signal" where
  "a_signal se f entry =
     (let call = call_side (se_direction se) in
      \<lparr>sg_signal_id = ''STRATEGY-A-'' @ (if call then ''CALL'' else ''PUT'') @ ''-'' @ fs_contract_id f @ ''-''
         @ show_int (fs_candle_timestamp f div seconds 1),
       sg_strategy = TREND_PULLBACK, sg_direction = (if call then BULLISH else BEARISH),
       sg_option_type = (if call then CALL else PUT), sg_timestamp = fs_candle_timestamp f,
       sg_spot_reference_price = fs_close f, sg_underlying_entry_price = Some entry,
       sg_structural_stop = se_structural_stop se, sg_r_points = fabs (fsub entry (se_structural_stop se)),
       sg_snapshot = no_snapshot\<lparr>sp_futures_contract := Some (fs_contract_id f)\<rparr>\<rparr>)"

definition stop_breached :: "strategy_setup \<Rightarrow> feature_snapshot \<Rightarrow> bool" where
  "stop_breached se f = (if call_side (se_direction se) then fle (fs_close f) (se_structural_stop se)
     else fle (se_structural_stop se) (fs_close f))"

definition gap_triggered :: "strategy_setup \<Rightarrow> feature_snapshot \<Rightarrow> bool" where
  "gap_triggered se f = (if call_side (se_direction se) then fle (se_trigger_price se) (fs_open f)
     else fle (fs_open f) (se_trigger_price se))"

definition triggered :: "strategy_setup \<Rightarrow> feature_snapshot \<Rightarrow> bool" where
  "triggered se f \<longleftrightarrow> gap_triggered se f \<or> (if call_side (se_direction se) then fle (se_trigger_price se) (fs_high f)
     else fle (fs_low f) (se_trigger_price se))"

definition fill_price :: "strategy_setup \<Rightarrow> feature_snapshot \<Rightarrow> pyfloat" where
  "fill_price se f = (if gap_triggered se f then fs_open f else se_trigger_price se)"

definition chase :: "strategy_setup \<Rightarrow> feature_snapshot \<Rightarrow> pyfloat" where
  "chase se f = (if call_side (se_direction se) then fsub (fill_price se f) (se_trigger_price se)
     else fsub (se_trigger_price se) (fill_price se f))"

definition chase_limit :: "a_config \<Rightarrow> feature_snapshot \<Rightarrow> pyfloat" where
  "chase_limit C f = fadd (fmul (ac_maximum_chase_atr C) (fs_atr14 f)) slack"

type_synonym a_step = "a_state \<times> (exn + strategy_signal option)"

definition no_signal :: "a_state \<Rightarrow> a_step" where "no_signal s = (s, Inr None)"

text \<open>The bar of an armed setup: trigger, chase and the entry window.\<close>

definition fire :: "a_config \<Rightarrow> bool \<Rightarrow> feature_snapshot \<Rightarrow> strategy_setup \<Rightarrow> a_state \<Rightarrow> a_step" where
  "fire C bypass f se s =
     (let t = fs_candle_timestamp f; hit = triggered se f; allowed = entry_allowed C bypass t in
      if hit \<and> fle (chase se f) (chase_limit C f) \<and> allowed
      then (event_at ''TRIGGERED'' t (Some ''TRIGGER_CROSSED'') s, Inr (Some (a_signal se f (fill_price se f))))
      else if hit \<and> flt (chase_limit C f) (chase se f)
      then no_signal (event_at ''REJECTED'' t (Some ''MAXIMUM_CHASE_EXCEEDED'') (s\<lparr>as_snapshot := flat_snapshot\<rparr>))
      else if hit \<and> \<not> allowed then no_signal (event_at ''REJECTED'' t (Some ''ENTRY_SESSION_CLOSED'') s)
      else no_signal s)"

definition pursue :: "a_config \<Rightarrow> bool \<Rightarrow> feature_snapshot \<Rightarrow> strategy_setup \<Rightarrow> a_state \<Rightarrow> a_step" where
  "pursue C bypass f se s =
     (let t = fs_candle_timestamp f in
      if se_setup_expiry_bar_index se < int (fs_bar_index f)
      then no_signal (event_at ''EXPIRED'' t (Some ''TRIGGER_EXPIRED_TWO_BARS'') (s\<lparr>as_snapshot := flat_snapshot\<rparr>))
      else if stop_breached se f
      then no_signal (event_at ''INVALIDATED'' t (Some ''STRUCTURAL_STOP_BREACHED'') (s\<lparr>as_snapshot := flat_snapshot\<rparr>))
      else if ss_state (as_snapshot s) = SETUP
      then (case transition ARMED None None None (as_snapshot s) of
              Inl e \<Rightarrow> (s, Inl e)
            | Inr snap \<Rightarrow> fire C bypass f se (s\<lparr>as_snapshot := snap\<rparr>))
      else fire C bypass f se s)"

definition seek :: "a_config \<Rightarrow> bool \<Rightarrow> candle list \<Rightarrow> feature_snapshot \<Rightarrow> a_state \<Rightarrow> a_step" where
  "seek C bypass raw f s =
     (let t = fs_candle_timestamp f in
      if \<not> entry_allowed C bypass t then no_signal (event_at ''REJECTED'' t (Some ''SETUP_SESSION_CLOSED'') s)
      else (case seek_setup C raw f (as_key s) [CALL_SIDE, PUT_SIDE] of
          Inl e \<Rightarrow> (s, Inl e)
        | Inr None \<Rightarrow> no_signal (event_at ''REJECTED'' t (Some ''NO_VALID_SETUP'') s)
        | Inr (Some (d, se)) \<Rightarrow>
            (let s = s\<lparr>as_key := Some (d, t)\<rparr> in
             case transition SETUP (Some se) None None (as_snapshot s) of
               Inl e \<Rightarrow> (s, Inl e)
             | Inr snap \<Rightarrow> no_signal (event_at ''SETUP_CREATED'' t (Some ''SETUP_QUALIFIED'') (s\<lparr>as_snapshot := snap\<rparr>)))))"

definition on_bar :: "a_config \<Rightarrow> bool \<Rightarrow> candle list \<Rightarrow> feature_snapshot \<Rightarrow> a_state \<Rightarrow> a_step" where
  "on_bar C bypass raw f s =
     (let t = fs_candle_timestamp f; snap = as_snapshot s in
      if forced_exit C t \<and> ss_state snap \<noteq> FLAT
      then no_signal (event_at ''FORCED_EXIT'' t (Some ''FORCED_EXIT_1515'') (s\<lparr>as_snapshot := flat_snapshot\<rparr>))
      else if ss_state snap = ENTERED then no_signal (event_at ''ACTIVE_POSITION'' t (Some ''ENTRY_ALREADY_CONSUMED'') s)
      else (case (ss_state snap \<in> {SETUP, ARMED}, ss_setup snap) of
          (True, Some se) \<Rightarrow> pursue C bypass f se s
        | _ \<Rightarrow>
            if ss_state snap = COOLDOWN
            then (if (case ss_cooldown_until snap of None \<Rightarrow> False | Some u \<Rightarrow> t < u) then no_signal s
                  else seek C bypass raw f (s\<lparr>as_snapshot := flat_snapshot\<rparr>))
            else seek C bypass raw f s))"

definition a_evaluate :: "a_config \<Rightarrow> timestamp \<Rightarrow> bool \<Rightarrow> timestamp option \<Rightarrow> candle list \<Rightarrow> a_state \<Rightarrow> a_step" where
  "a_evaluate C now bypass as_of candles s =
     (case features_for_input candles as_of of
        Inl (ValueError m) \<Rightarrow> no_signal (event_at ''REJECTED'' (case as_of of None \<Rightarrow> now | Some t \<Rightarrow> t)
          (Some (if prefix ''STALE_FUTURES_DATA:'' m then ''STALE_FUTURES_DATA'' else ''INCOMPLETE_FUTURES_DATA'')) s)
      | Inl e \<Rightarrow> (s, Inl e)
      | Inr (raw, f) \<Rightarrow>
          (let t = fs_candle_timestamp f; i = fs_contract_id f; turned = s\<lparr>as_last_candle := Some t, as_contract := Some i\<rparr> in
           if as_contract s \<noteq> None \<and> as_contract s \<noteq> Some i
           then no_signal (event_at ''ROLLOVER_RESET'' t (Some ''FUTURES_ROLLOVER_RESET'')
             (turned\<lparr>as_snapshot := flat_snapshot, as_key := None\<rparr>))
           else if as_last_candle s = Some t
           then no_signal (event_at ''DUPLICATE_IGNORED'' t (Some ''DUPLICATE_COMPLETED_CANDLE'') (s\<lparr>as_contract := Some i\<rparr>))
           else on_bar C bypass raw f turned))"

text \<open>The saved state; what \<^verbatim>\<open>model_validate\<close> refuses comes back as the empty snapshot.  The key and the last
  event are not part of it.\<close>

definition validated :: "state_snapshot \<Rightarrow> bool" where
  "validated snap \<longleftrightarrow> pred_option (\<lambda>se. make_setup se = Inr se) (ss_setup snap) \<and> make_snapshot snap = Inr snap"

definition export_state :: "a_state \<Rightarrow> state_snapshot \<times> timestamp option \<times> string option" where
  "export_state s = (as_snapshot s, as_last_candle s, as_contract s)"

definition restore_state :: "state_snapshot \<times> timestamp option \<times> string option \<Rightarrow> a_state \<Rightarrow> a_state" where
  "restore_state saved s = (case saved of (snap, last_candle, contract) \<Rightarrow>
     s\<lparr>as_snapshot := (if validated snap then snap else flat_snapshot), as_last_candle := last_candle, as_contract := contract\<rparr>)"

section \<open>Signals\<close>

lemma event_at_sel [simp]:
  "as_snapshot (event_at e t r s) = as_snapshot s" "as_last_candle (event_at e t r s) = as_last_candle s"
  "as_contract (event_at e t r s) = as_contract s" "as_key (event_at e t r s) = as_key s"
  by (simp_all add: event_at_def)

lemma seek_no_signal: "snd (seek C bypass raw f s) \<noteq> Inr (Some g)"
  by (auto simp: seek_def no_signal_def Let_def split: sum.split option.split)

lemma fire_signal:
  assumes "fire C bypass f se s = (s', Inr (Some g))"
  shows "triggered se f" "fle (chase se f) (chase_limit C f)" "entry_allowed C bypass (fs_candle_timestamp f)"
    "as_snapshot s' = as_snapshot s" "g = a_signal se f (fill_price se f)"
  using assms by (auto simp: fire_def no_signal_def Let_def split: if_splits)

lemma arm_snapshot:
  assumes "transition ARMED None None None snap = Inr snap'"
  shows "ss_state snap' = ARMED \<and> ss_setup snap' = ss_setup snap"
  using assms by (auto simp: transition_def make_snapshot_Inr Let_def split: if_splits)

lemma pursue_signal:
  assumes "pursue C bypass f se s = (s', Inr (Some g))" "ss_state (as_snapshot s) \<in> {SETUP, ARMED}"
  shows "int (fs_bar_index f) \<le> se_setup_expiry_bar_index se" "\<not> stop_breached se f"
    "triggered se f" "fle (chase se f) (chase_limit C f)" "entry_allowed C bypass (fs_candle_timestamp f)"
    "ss_state (as_snapshot s') = ARMED" "ss_setup (as_snapshot s') = ss_setup (as_snapshot s)"
    "g = a_signal se f (fill_price se f)"
proof -
  obtain s0 where s0: "fire C bypass f se s0 = (s', Inr (Some g))" "ss_state (as_snapshot s0) = ARMED"
      "ss_setup (as_snapshot s0) = ss_setup (as_snapshot s)"
    and g: "int (fs_bar_index f) \<le> se_setup_expiry_bar_index se" "\<not> stop_breached se f"
  proof (cases "ss_state (as_snapshot s) = SETUP")
    case True
    with assms show ?thesis
      by (auto simp: pursue_def no_signal_def Let_def split: if_splits sum.splits dest: arm_snapshot intro!: that)
  next
    case False
    with assms show ?thesis
      by (intro that[of s]) (auto simp: pursue_def no_signal_def Let_def split: if_splits)
  qed
  note fire_signal[OF s0(1)]
  then show "int (fs_bar_index f) \<le> se_setup_expiry_bar_index se" "\<not> stop_breached se f"
    "triggered se f" "fle (chase se f) (chase_limit C f)" "entry_allowed C bypass (fs_candle_timestamp f)"
    "ss_state (as_snapshot s') = ARMED" "ss_setup (as_snapshot s') = ss_setup (as_snapshot s)"
    "g = a_signal se f (fill_price se f)" using s0 g by simp_all
qed

lemma on_bar_signal:
  assumes "on_bar C bypass raw f s = (s', Inr (Some g))"
  obtains se where "\<not> forced_exit C (fs_candle_timestamp f)" "ss_state (as_snapshot s) \<in> {SETUP, ARMED}"
    "ss_setup (as_snapshot s) = Some se" "pursue C bypass f se s = (s', Inr (Some g))"
proof -
  have n: "seek C bypass raw f s0 \<noteq> (s', Inr (Some g))" for s0 using seek_no_signal[of C bypass raw f s0 g] by auto
  show thesis using assms n that
    by (cases "ss_state (as_snapshot s)"; cases "ss_setup (as_snapshot s)")
      (auto simp: on_bar_def no_signal_def Let_def split: if_splits option.splits)
qed

lemma map_pair_Inr: "map_sum id (Pair a) r = Inr (b, c) \<longleftrightarrow> b = a \<and> r = Inr c"
  by (cases r) auto

lemma features_known:
  assumes "features_for_input cs as_of = Inr (raw, f)"
  shows "pred_option (\<lambda>t. fs_candle_timestamp f \<le> t) as_of"
proof -
  from assms have "build_features raw as_of = Inr f"
    by (auto simp: features_for_input_def map_pair_Inr split: option.splits sum.splits if_splits)
  then obtain bars where b: "canonical_stream raw as_of ''15m'' = Inr bars" "bars \<noteq> []" "f = snapshot_of bars"
    by (auto simp: build_features_def split: sum.splits if_splits)
  have "fs_candle_timestamp f = ca_end_time (last bars)" by (simp add: b(3) snapshot_of_def Let_def case_prod_beta)
  moreover have "last bars \<in> set bars" using b(2) by simp
  ultimately show ?thesis using stream_known(2) b(1) by (cases as_of) auto
qed

lemma evaluate_signal:
  assumes "a_evaluate C now bypass as_of cs s = (s', Inr (Some g))"
  obtains raw f where "features_for_input cs as_of = Inr (raw, f)"
    "as_contract s \<in> {None, Some (fs_contract_id f)}" "as_last_candle s \<noteq> Some (fs_candle_timestamp f)"
    "on_bar C bypass raw f (s\<lparr>as_last_candle := Some (fs_candle_timestamp f), as_contract := Some (fs_contract_id f)\<rparr>)
      = (s', Inr (Some g))"
  using assms
  by (auto simp: a_evaluate_def no_signal_def Let_def split: sum.splits exn.splits if_splits prod.splits)

text \<open>A stop on the losing side of the entry.\<close>

definition stop_behind :: "strategy_setup \<Rightarrow> pyfloat \<Rightarrow> bool" where
  "stop_behind se entry = (if call_side (se_direction se) then flt (se_structural_stop se) entry
     else flt entry (se_structural_stop se))"

lemma fill_behind: "protective se \<Longrightarrow> stop_behind se (fill_price se f)"
  by (auto simp: protective_def stop_behind_def fill_price_def gap_triggered_def call_side_def
      intro: flt_fle_trans fle_flt_trans split: if_splits)

text \<open>The fields of the state the bar has turned.\<close>

lemma signal_facts:
  assumes ok: "snapshot_ok (as_snapshot s)" and ev: "a_evaluate C now bypass as_of cs s = (s', Inr (Some g))"
  obtains raw f se where "features_for_input cs as_of = Inr (raw, f)" "pred_option (\<lambda>t. fs_candle_timestamp f \<le> t) as_of"
    "as_contract s \<in> {None, Some (fs_contract_id f)}" "as_last_candle s \<noteq> Some (fs_candle_timestamp f)"
    "ss_state (as_snapshot s) \<in> {SETUP, ARMED}" "ss_setup (as_snapshot s) = Some se" "make_setup se = Inr se"
    "int (fs_bar_index f) \<le> se_setup_expiry_bar_index se" "\<not> stop_breached se f" "triggered se f"
    "fle (chase se f) (chase_limit C f)" "entry_allowed C bypass (fs_candle_timestamp f)"
    "\<not> forced_exit C (fs_candle_timestamp f)" "g = a_signal se f (fill_price se f)"
    "ss_state (as_snapshot s') = ARMED" "ss_setup (as_snapshot s') = Some se"
proof -
  obtain raw f where f: "features_for_input cs as_of = Inr (raw, f)" "as_contract s \<in> {None, Some (fs_contract_id f)}"
      "as_last_candle s \<noteq> Some (fs_candle_timestamp f)"
      "on_bar C bypass raw f (s\<lparr>as_last_candle := Some (fs_candle_timestamp f), as_contract := Some (fs_contract_id f)\<rparr>)
        = (s', Inr (Some g))" by (rule evaluate_signal[OF ev])
  obtain se where se: "\<not> forced_exit C (fs_candle_timestamp f)" "ss_state (as_snapshot s) \<in> {SETUP, ARMED}"
      "ss_setup (as_snapshot s) = Some se"
      and p: "pursue C bypass f se (s\<lparr>as_last_candle := Some (fs_candle_timestamp f), as_contract := Some (fs_contract_id f)\<rparr>)
        = (s', Inr (Some g))" by (rule on_bar_signal[OF f(4)]) simp
  have v: "make_setup se = Inr se" using ok se(3) by (simp add: snapshot_ok_def setup_valid_def)
  note q = pursue_signal[OF p, simplified, OF se(2)[simplified]]
  show thesis by (rule that[OF f(1) features_known[OF f(1)] f(2,3) se(2,3) v q(1-5) se(1) q(8,6)]) (simp add: q(7) se(3))
qed

section \<open>Properties\<close>

text \<open>
  C28. Strategy A signals only for a setup it holds, of the same contract, on a bar it has not seen, that
  had ended by the time of the evaluation and whose bar index has not passed the setup's expiry bar index
  (the index is the only expiry the evaluation looks at; the expiry timestamp of the setup may have
  passed): the close has not breached the stop, the trigger was touched, the entry is within the chase
  limit and the entry window, before the forced exit.  The signal carries the setup's stop, on the losing
  side of its entry price, and the setup stays armed until the entry is confirmed.
\<close>

theorem a_signal_sound:
  assumes "snapshot_ok (as_snapshot s)" "a_evaluate C now bypass as_of cs s = (s', Inr (Some g))"
  shows "\<exists>raw f se. features_for_input cs as_of = Inr (raw, f) \<and> pred_option (\<lambda>t. fs_candle_timestamp f \<le> t) as_of
    \<and> ss_state (as_snapshot s) \<in> {SETUP, ARMED} \<and> ss_setup (as_snapshot s) = Some se
    \<and> as_contract s \<in> {None, Some (fs_contract_id f)} \<and> as_last_candle s \<noteq> Some (fs_candle_timestamp f)
    \<and> int (fs_bar_index f) \<le> se_setup_expiry_bar_index se \<and> \<not> stop_breached se f \<and> triggered se f
    \<and> fle (chase se f) (chase_limit C f) \<and> entry_allowed C bypass (fs_candle_timestamp f)
    \<and> \<not> forced_exit C (fs_candle_timestamp f) \<and> g = a_signal se f (fill_price se f)
    \<and> stop_behind se (fill_price se f) \<and> ss_state (as_snapshot s') = ARMED \<and> ss_setup (as_snapshot s') = Some se"
proof -
  obtain raw f se where r: "features_for_input cs as_of = Inr (raw, f)" "pred_option (\<lambda>t. fs_candle_timestamp f \<le> t) as_of"
    "as_contract s \<in> {None, Some (fs_contract_id f)}" "as_last_candle s \<noteq> Some (fs_candle_timestamp f)"
    "ss_state (as_snapshot s) \<in> {SETUP, ARMED}" "ss_setup (as_snapshot s) = Some se" "make_setup se = Inr se"
    "int (fs_bar_index f) \<le> se_setup_expiry_bar_index se" "\<not> stop_breached se f" "triggered se f"
    "fle (chase se f) (chase_limit C f)" "entry_allowed C bypass (fs_candle_timestamp f)"
    "\<not> forced_exit C (fs_candle_timestamp f)" "g = a_signal se f (fill_price se f)"
    "ss_state (as_snapshot s') = ARMED" "ss_setup (as_snapshot s') = Some se" by (rule signal_facts[OF assms])
  show ?thesis
    by (rule exI[of _ raw], rule exI[of _ f], rule exI[of _ se]) (use r fill_behind[OF setup_protective[OF r(7)]] in simp)
qed

text \<open>An armed setup meets a bar that opens at its trigger.\<close>

definition demo_a_config :: a_config where
  "demo_a_config = \<lparr>ac_adx_min_delta = Fin 0, ac_slope_min = Fin 0, ac_slope_max = Fin 1, ac_ema_separation_min_atr = Fin 0,
     ac_confluence_distance_atr = Fin 1, ac_sr_zone_atr = Fin 1, ac_min_body_ratio = Fin 0, ac_close_location_pct = Fin 1,
     ac_max_range_atr = Fin 2, ac_trigger_buffer_atr = Fin 0, ac_trigger_validity_bars = 2, ac_maximum_chase_atr = Fin 1,
     ac_stop_buffer_atr = Fin 0, ac_minimum_stop_distance_atr = Fin 0, ac_maximum_stop_distance_atr = Fin 3,
     ac_minimum_room_r = Fin 1, ac_entry_session_start = (9, 45), ac_entry_session_end = (14, 45),
     ac_forced_exit_time = (15, 15), ac_allow_session_bypass = False\<rparr>"

definition demo_armed :: a_state where
  "demo_armed = a_init\<lparr>as_snapshot := demo_pending ARMED\<rparr>"

definition demo_bar :: candle where
  "demo_bar = fut_bar ''NIFTY-FUT-2026-01-29'' (minutes 285) 15 (Fin 100)"

definition demo_features :: feature_snapshot where "demo_features = snapshot_of [demo_bar]"

lemma demo_stream: "canonical_stream [demo_bar] (Some (minutes 300)) ''15m'' = Inr [demo_bar]"
  by code_simp

lemma demo_fields:
  "fs_candle_timestamp demo_features = minutes 300" "fs_contract_id demo_features = ''NIFTY-FUT-2026-01-29''"
  "fs_open demo_features = Fin 100" "fs_high demo_features = Fin 100" "fs_close demo_features = Fin 100"
  "fs_bar_index demo_features = 0" "fs_atr14 demo_features = Fin 0"
  by (simp_all add: demo_features_def snapshot_of_def Let_def case_prod_beta demo_bar_def fut_bar_def
      atr_def true_range_def over_def float_eval pmax_def)

lemma demo_input: "features_for_input [demo_bar] (Some (minutes 300)) = Inr ([demo_bar], demo_features)"
proof -
  have "\<not> ca_end_time demo_bar < expected_end (minutes 300)" by code_simp
  then show ?thesis by (simp add: features_for_input_def a_stream_def demo_stream[simplified] build_features_def demo_features_def)
qed

lemma demo_ok: "snapshot_ok (as_snapshot demo_armed)"
  using demo_setup_valid
  by (simp add: demo_armed_def snapshot_ok_def snapshot_checks_def demo_pending_def pending_checks_def setup_is_def
      setup_valid_def demo_setup_def)

lemma demo_setup_fields:
  "se_direction demo_setup = CALL_SIDE" "se_trigger_price demo_setup = Fin 100" "se_structural_stop demo_setup = Fin 90"
  "se_setup_expiry_bar_index demo_setup = 2"
  by (simp_all add: demo_setup_def)

lemma demo_signal:
  "a_evaluate demo_a_config 0 False (Some (minutes 300)) [demo_bar] demo_armed
   = (event_at ''TRIGGERED'' (minutes 300) (Some ''TRIGGER_CROSSED'')
       (demo_armed\<lparr>as_last_candle := Some (minutes 300), as_contract := Some ''NIFTY-FUT-2026-01-29''\<rparr>),
      Inr (Some (a_signal demo_setup demo_features (Fin 100))))"
proof -
  have w: "entry_allowed demo_a_config False (minutes 300)" "\<not> forced_exit demo_a_config (minutes 300)" by code_simp+
  have t: "triggered demo_setup demo_features" "fill_price demo_setup demo_features = Fin 100"
      "\<not> stop_breached demo_setup demo_features"
    by (simp_all add: triggered_def fill_price_def gap_triggered_def stop_breached_def call_side_def demo_setup_fields demo_fields)
  have "fle (Fin 0) (fadd (Fin 0) (rnd (1 / 1000000000)))"
    using rnd_nonneg[of "1 / 10 ^ 9"] by (cases "rnd (1 / 1000000000)") (auto intro: rnd_nonneg)
  moreover have "ac_maximum_chase_atr demo_a_config = Fin 1" by (simp add: demo_a_config_def)
  ultimately have "chase demo_setup demo_features = Fin 0" "fle (Fin 0) (chase_limit demo_a_config demo_features)"
    by (simp_all add: chase_def chase_limit_def t(2) call_side_def demo_setup_fields demo_fields float_eval slack_def flit_def)
  then show ?thesis using w t
    by (simp add: a_evaluate_def demo_input[simplified] Let_def demo_fields on_bar_def pursue_def fire_def demo_armed_def
        a_init_def demo_pending_def demo_setup_fields)
qed

theorem a_signal_sound_witness:
  "\<exists>raw f se. features_for_input [demo_bar] (Some (minutes 300)) = Inr (raw, f) \<and> ss_setup (as_snapshot demo_armed) = Some se
    \<and> triggered se f \<and> stop_behind se (fill_price se f)"
proof -
  from a_signal_sound[OF demo_ok demo_signal] obtain raw f se where
    "features_for_input [demo_bar] (Some (minutes 300)) = Inr (raw, f)" "ss_setup (as_snapshot demo_armed) = Some se"
    "triggered se f" "stop_behind se (fill_price se f)" by blast
  then show ?thesis by blast
qed

lemma set_bar_fields:
  "as_last_candle (fst (fire C b f se s)) = as_last_candle s" "as_contract (fst (fire C b f se s)) = as_contract s"
  "as_last_candle (fst (seek C b raw f s)) = as_last_candle s" "as_contract (fst (seek C b raw f s)) = as_contract s"
  by (simp_all add: fire_def seek_def no_signal_def Let_def split: sum.split option.split prod.split)

lemma pursue_bar_fields:
  "as_last_candle (fst (pursue C b f se s)) = as_last_candle s" "as_contract (fst (pursue C b f se s)) = as_contract s"
  by (simp_all add: pursue_def no_signal_def Let_def set_bar_fields split: sum.split)

lemma on_bar_fields:
  "as_last_candle (fst (on_bar C b raw f s)) = as_last_candle s" "as_contract (fst (on_bar C b raw f s)) = as_contract s"
  by (simp_all add: on_bar_def no_signal_def Let_def set_bar_fields pursue_bar_fields split: option.split bool.split)

text \<open>
  A bar is taken once: after an evaluation of a bar, whatever it did (a signal, a rollover reset or an
  exception in the middle), evaluating the same bar again signals nothing and only notes the duplicate.
\<close>

theorem a_bar_once:
  assumes "features_for_input cs as_of = Inr (raw, f)" "a_evaluate C now bypass as_of cs s = (s', r)"
  shows "a_evaluate C now' bypass' as_of cs s'
    = (event_at ''DUPLICATE_IGNORED'' (fs_candle_timestamp f) (Some ''DUPLICATE_COMPLETED_CANDLE'') s', Inr None)"
proof -
  have "as_last_candle s' = Some (fs_candle_timestamp f)" "as_contract s' = Some (fs_contract_id f)"
    using assms on_bar_fields
    by (auto simp: a_evaluate_def no_signal_def Let_def split: if_splits) (metis fst_conv a_state.select_convs a_state.surjective a_state.update_convs)+
  then show ?thesis using assms(1)
    by (cases s') (simp add: a_evaluate_def no_signal_def Let_def)
qed

theorem a_bar_once_witness:
  "a_evaluate demo_a_config 0 False (Some (minutes 300)) [demo_bar]
      (fst (a_evaluate demo_a_config 0 False (Some (minutes 300)) [demo_bar] demo_armed))
    = (event_at ''DUPLICATE_IGNORED'' (minutes 300) (Some ''DUPLICATE_COMPLETED_CANDLE'')
        (fst (a_evaluate demo_a_config 0 False (Some (minutes 300)) [demo_bar] demo_armed)), Inr None)"
  by (rule a_bar_once[OF demo_input prod.collapse[symmetric], unfolded demo_fields(1)])

section \<open>Runs\<close>

text \<open>What the service does with the strategy; a restart keeps what was exported.  The states, newest first.\<close>

datatype a_call = Evaluate a_config timestamp bool "timestamp option" "candle list" | Confirm timestamp
  | ExecutionRejected timestamp string | Left timestamp | Reset timestamp | Restart

definition a_do :: "a_call \<Rightarrow> a_state \<Rightarrow> a_step" where
  "a_do c s = (let quiet = map_prod id (map_sum id (\<lambda>_. None)) in case c of
     Evaluate C now bypass as_of cs \<Rightarrow> a_evaluate C now bypass as_of cs s
   | Confirm t \<Rightarrow> quiet (confirm_entry t s)
   | ExecutionRejected t reason \<Rightarrow> quiet (on_execution_rejected t reason s)
   | Left t \<Rightarrow> quiet (on_exit t s)
   | Reset t \<Rightarrow> (a_reset t s, Inr None)
   | Restart \<Rightarrow> (restore_state (export_state s) a_init, Inr None))"

inductive a_trace :: "a_state list \<Rightarrow> bool" where
  start: "a_trace [a_init]"
| step: "a_trace (s # ss) \<Longrightarrow> a_trace (fst (a_do c s) # s # ss)"

text \<open>
  The lifecycle the strategy is to follow.  A bar may find a setup when there is none, arm the setup,
  drop it, square off at the forced exit, and after the cooldown search again; a bar of another
  contract drops everything.  A confirmation enters an armed setup, a rejection and an exit start the
  cooldown.
\<close>

definition finds :: "state_snapshot \<Rightarrow> bool" where
  "finds snap' \<longleftrightarrow> (\<exists>se. make_setup se = Inr se \<and> transition SETUP (Some se) None None flat_snapshot = Inr snap')"

definition bar_move :: "a_config \<Rightarrow> timestamp \<Rightarrow> state_snapshot \<Rightarrow> state_snapshot \<Rightarrow> bool" where
  "bar_move C t snap snap' \<longleftrightarrow> snap' = snap
     \<or> snap = flat_snapshot \<and> finds snap'
     \<or> transition ARMED None None None snap = Inr snap'
     \<or> ss_state snap \<in> {SETUP, ARMED} \<and> snap' = flat_snapshot
     \<or> forced_exit C t \<and> snap' = flat_snapshot
     \<or> ss_state snap = COOLDOWN \<and> (\<exists>u. ss_cooldown_until snap = Some u \<and> u \<le> t) \<and> (snap' = flat_snapshot \<or> finds snap')"

definition rolled :: "a_state \<Rightarrow> feature_snapshot \<Rightarrow> bool" where
  "rolled s f \<longleftrightarrow> as_contract s \<notin> {None, Some (fs_contract_id f)}"

definition evaluate_move :: "a_config \<Rightarrow> timestamp option \<Rightarrow> candle list \<Rightarrow> a_state \<Rightarrow> state_snapshot \<Rightarrow> bool" where
  "evaluate_move C as_of cs s snap' \<longleftrightarrow>
     (case features_for_input cs as_of of
        Inl _ \<Rightarrow> snap' = as_snapshot s
      | Inr (raw, f) \<Rightarrow> if rolled s f then snap' = flat_snapshot else bar_move C (fs_candle_timestamp f) (as_snapshot s) snap')"

definition lifecycle_step :: "a_call \<Rightarrow> a_state \<Rightarrow> state_snapshot \<Rightarrow> bool" where
  "lifecycle_step c s snap' = (let snap = as_snapshot s in case c of
     Evaluate C now bypass as_of cs \<Rightarrow> evaluate_move C as_of cs s snap'
   | Confirm t \<Rightarrow> snap' = snap \<or> ss_state snap = ARMED \<and> transition ENTERED None (Some t) None snap = Inr snap'
   | ExecutionRejected t reason \<Rightarrow> (if ss_state snap \<in> {SETUP, ARMED, ENTERED}
       then transition COOLDOWN None None (Some (t + minutes 10)) snap = Inr snap' else snap' = snap)
   | Left t \<Rightarrow> transition COOLDOWN None None (Some (t + minutes 10)) flat_snapshot = Inr snap'
   | Reset t \<Rightarrow> snap' = flat_snapshot
   | Restart \<Rightarrow> snap' = snap)"

text \<open>An evaluation raises only what the features and the search raise: never for a move the lifecycle refuses.\<close>

definition raised_by_data :: "a_call \<Rightarrow> a_state \<Rightarrow> exn \<Rightarrow> bool" where
  "raised_by_data c s e = (case c of
     Evaluate C now bypass as_of cs \<Rightarrow>
       (case features_for_input cs as_of of Inl e' \<Rightarrow> e = e'
        | Inr (raw, f) \<Rightarrow> ss_state (as_snapshot s) \<in> {FLAT, COOLDOWN} \<and> seek_setup C raw f (as_key s) [CALL_SIDE, PUT_SIDE] = Inl e)
   | Confirm t \<Rightarrow> True | _ \<Rightarrow> False)"

lemma build_setup_valid: "build_setup C f d refs level = Inr (Inr se) \<Longrightarrow> make_setup se = Inr se \<and> se_invalidation_state se = ACTIVE"
  by (auto simp: build_setup_def new_setup_def Let_def make_setup_Inr map_sum_def split: if_splits sum.splits bool.splits)

lemma qualify_valid: "qualify C raw f d = Inr (Some se) \<Longrightarrow> make_setup se = Inr se \<and> se_invalidation_state se = ACTIVE"
  by (auto simp: qualify_def map_sum_def split: if_splits sum.splits bool.splits option.splits prod.splits dest: build_setup_valid)

lemma seek_setup_valid: "seek_setup C raw f key ds = Inr (Some (d, se)) \<Longrightarrow> make_setup se = Inr se \<and> se_invalidation_state se = ACTIVE"
  by (induction ds) (auto split: if_splits sum.splits option.splits dest: qualify_valid)

text \<open>The moves a bar makes are never refused.\<close>

lemma setup_moves:
  assumes "make_setup se = Inr se" "se_invalidation_state se = ACTIVE"
  shows "\<exists>snap. transition SETUP (Some se) None None flat_snapshot = Inr snap \<and> finds snap"
proof -
  have "\<exists>snap. transition SETUP (Some se) None None flat_snapshot = Inr snap"
    using assms(2) by (simp add: transition_def flat_snapshot_def make_snapshot_def snapshot_checks_def pending_checks_def setup_is_def)
  then show ?thesis using assms(1) unfolding finds_def by blast
qed

lemma arm_moves: "snapshot_ok snap \<Longrightarrow> ss_state snap = SETUP \<Longrightarrow> \<exists>snap'. transition ARMED None None None snap = Inr snap'"
  by (cases "ss_setup snap")
    (auto simp: transition_def make_snapshot_def snapshot_ok_def snapshot_checks_def pending_checks_def setup_is_def split: if_splits)

lemma cooldown_moves:
  "transition COOLDOWN None None (Some u) flat_snapshot = Inr (flat_snapshot\<lparr>ss_state := COOLDOWN, ss_cooldown_until := Some u\<rparr>)"
  "ss_state snap \<in> {SETUP, ARMED, ENTERED} \<Longrightarrow>
     transition COOLDOWN None None (Some u) snap = Inr (flat_snapshot\<lparr>ss_state := COOLDOWN, ss_cooldown_until := Some u\<rparr>)"
  by (auto simp: transition_def make_snapshot_def snapshot_checks_def flat_snapshot_def)

lemma fire_moves: "as_snapshot (fst (fire C b f se s)) \<in> {as_snapshot s, flat_snapshot} \<and> (\<forall>e. snd (fire C b f se s) \<noteq> Inl e)"
  by (simp add: fire_def no_signal_def Let_def)

lemma pursue_moves:
  assumes "snapshot_ok (as_snapshot s)" "ss_state (as_snapshot s) \<in> {SETUP, ARMED}"
  shows "bar_move C t (as_snapshot s) (as_snapshot (fst (pursue C b f se s))) \<and> (\<forall>e. snd (pursue C b f se s) \<noteq> Inl e)"
proof (cases "ss_state (as_snapshot s) = SETUP")
  case True
  then obtain snap where a: "transition ARMED None None None (as_snapshot s) = Inr snap" using arm_moves[OF assms(1)] by blast
  show ?thesis using fire_moves[of C b f se "s\<lparr>as_snapshot := snap\<rparr>"] a assms(2) True
    by (auto simp: pursue_def no_signal_def Let_def bar_move_def)
next
  case False
  then show ?thesis using fire_moves[of C b f se s] assms(2) by (auto simp: pursue_def no_signal_def Let_def bar_move_def)
qed

lemma seek_moves:
  assumes "as_snapshot s = flat_snapshot"
  shows "(as_snapshot (fst (seek C b raw f s)) = flat_snapshot \<or> finds (as_snapshot (fst (seek C b raw f s))))
    \<and> (\<forall>e. snd (seek C b raw f s) = Inl e \<longrightarrow> seek_setup C raw f (as_key s) [CALL_SIDE, PUT_SIDE] = Inl e)"
proof (cases "seek_setup C raw f (as_key s) [CALL_SIDE, PUT_SIDE]")
  case (Inr r)
  show ?thesis
  proof (cases r)
    case (Some x)
    obtain d se where x: "x = (d, se)" by (rule prod.exhaust)
    then have "make_setup se = Inr se \<and> se_invalidation_state se = ACTIVE" using Inr Some seek_setup_valid by blast
    then obtain snap where "transition SETUP (Some se) None None flat_snapshot = Inr snap" "finds snap" using setup_moves by blast
    then show ?thesis using assms Inr Some x
      by (simp add: seek_def no_signal_def Let_def del: seek_setup.simps)
  qed (use assms Inr in \<open>simp add: seek_def no_signal_def Let_def del: seek_setup.simps\<close>)
qed (use assms in \<open>simp add: seek_def no_signal_def Let_def del: seek_setup.simps\<close>)

lemma flat_only: "snapshot_ok snap \<Longrightarrow> ss_state snap = FLAT \<Longrightarrow> snap = flat_snapshot"
  by (auto simp: snapshot_ok_def snapshot_checks_def flat_snapshot_def split: if_splits)

lemma cooldown_fields: "snapshot_ok snap \<Longrightarrow> ss_state snap = COOLDOWN \<Longrightarrow> \<exists>u. ss_cooldown_until snap = Some u"
  by (auto simp: snapshot_ok_def snapshot_checks_def split: if_splits)

lemma pending_fields: "snapshot_ok snap \<Longrightarrow> ss_state snap \<in> {SETUP, ARMED} \<Longrightarrow> \<exists>se. ss_setup snap = Some se"
  by (auto simp: snapshot_ok_def snapshot_checks_def pending_checks_def split: if_splits)

lemma on_bar_moves:
  assumes ok: "snapshot_ok (as_snapshot s)"
  shows "bar_move C (fs_candle_timestamp f) (as_snapshot s) (as_snapshot (fst (on_bar C b raw f s)))
    \<and> (\<forall>e. snd (on_bar C b raw f s) = Inl e \<longrightarrow> ss_state (as_snapshot s) \<in> {FLAT, COOLDOWN}
        \<and> seek_setup C raw f (as_key s) [CALL_SIDE, PUT_SIDE] = Inl e)"
proof (cases "forced_exit C (fs_candle_timestamp f) \<and> ss_state (as_snapshot s) \<noteq> FLAT")
  case True
  then show ?thesis by (simp add: on_bar_def no_signal_def Let_def bar_move_def)
next
  case go: False
  show ?thesis
  proof (cases "ss_state (as_snapshot s)")
    case FLAT
    then have flat: "as_snapshot s = flat_snapshot" using flat_only[OF ok] by simp
    show ?thesis using seek_moves[OF flat, of C b raw f] go FLAT
      by (auto simp: on_bar_def no_signal_def Let_def bar_move_def flat)
  next
    case COOLDOWN
    then obtain u where u: "ss_cooldown_until (as_snapshot s) = Some u" using cooldown_fields[OF ok] by blast
    show ?thesis using seek_moves[of "s\<lparr>as_snapshot := flat_snapshot\<rparr>" C b raw f] go COOLDOWN u
      by (auto simp: on_bar_def no_signal_def Let_def bar_move_def)
  next
    case ENTERED
    then show ?thesis using go by (simp add: on_bar_def no_signal_def Let_def bar_move_def)
  next
    case SETUP
    then obtain se where "ss_setup (as_snapshot s) = Some se" using pending_fields[OF ok] by auto
    then show ?thesis using pursue_moves[OF ok, of C "fs_candle_timestamp f" b f se] go SETUP by (simp add: on_bar_def Let_def)
  next
    case ARMED
    then obtain se where "ss_setup (as_snapshot s) = Some se" using pending_fields[OF ok] by auto
    then show ?thesis using pursue_moves[OF ok, of C "fs_candle_timestamp f" b f se] go ARMED by (simp add: on_bar_def Let_def)
  qed
qed

lemma evaluate_moves:
  assumes "snapshot_ok (as_snapshot s)"
  shows "evaluate_move C as_of cs s (as_snapshot (fst (a_evaluate C now b as_of cs s)))
    \<and> (\<forall>e. snd (a_evaluate C now b as_of cs s) = Inl e \<longrightarrow> raised_by_data (Evaluate C now b as_of cs) s e)"
proof (cases "features_for_input cs as_of")
  case (Inl e)
  then show ?thesis by (cases e) (simp_all add: a_evaluate_def evaluate_move_def raised_by_data_def no_signal_def)
next
  case (Inr rf)
  obtain raw f where rf: "rf = (raw, f)" by (rule prod.exhaust)
  show ?thesis
    using on_bar_moves[of "s\<lparr>as_last_candle := Some (fs_candle_timestamp f), as_contract := Some (fs_contract_id f)\<rparr>" C f b raw]
      Inr rf assms
    by (auto simp: a_evaluate_def evaluate_move_def raised_by_data_def rolled_def no_signal_def Let_def bar_move_def[of _ _ "as_snapshot s" "as_snapshot s"])
qed

lemma validated_ok: "snapshot_ok snap \<Longrightarrow> validated snap"
  by (simp add: snapshot_ok_def validated_def setup_valid_def make_snapshot_Inr)

lemma do_moves:
  assumes ok: "snapshot_ok (as_snapshot s)" and a_do: "a_do c s = (s', r)"
  shows "lifecycle_step c s (as_snapshot s') \<and> (\<forall>e. r = Inl e \<longrightarrow> raised_by_data c s e)"
proof (cases c)
  case (Evaluate C now b as_of cs)
  then show ?thesis using evaluate_moves[OF ok, of C as_of cs now b] a_do by (simp add: a_do_def lifecycle_step_def)
next
  case (Confirm t)
  then show ?thesis using a_do
    by (auto simp: a_do_def lifecycle_step_def raised_by_data_def confirm_entry_def set_snapshot_def split: if_splits sum.splits)
next
  case (ExecutionRejected t reason)
  then show ?thesis using a_do
    by (auto simp: a_do_def lifecycle_step_def raised_by_data_def on_execution_rejected_def set_snapshot_def cooldown_snapshot_def
        cooldown_moves split: if_splits)
next
  case (Left t)
  then show ?thesis using a_do
    by (auto simp: a_do_def lifecycle_step_def raised_by_data_def on_exit_def set_snapshot_def cooldown_snapshot_def cooldown_moves)
next
  case (Reset t)
  then show ?thesis using a_do by (auto simp: a_do_def lifecycle_step_def a_reset_def a_init_def)
next
  case Restart
  then show ?thesis using a_do validated_ok[OF ok]
    by (auto simp: a_do_def lifecycle_step_def restore_state_def export_state_def)
qed

lemma visited_hd: "visited h \<Longrightarrow> snapshot_ok (hd h)"
proof -
  assume v: "visited h"
  then have "h \<noteq> []" by (cases rule: visited.cases) auto
  then show ?thesis using visited_ok[OF v] by (cases h) simp_all
qed

text \<open>Every step of the lifecycle is a path of transitions of the models, so a trace runs inside their histories.\<close>

lemma visited_flat: "visited (s # h) \<Longrightarrow> \<exists>h'. visited (flat_snapshot # h') \<and> (h' = s # h \<or> flat_snapshot # h' = s # h)"
proof (cases "ss_state s = FLAT")
  case True
  assume v: "visited (s # h)"
  then have "s = flat_snapshot" using flat_only[OF _ True] visited_ok[OF v] by simp
  then show ?thesis using v by blast
next
  case False
  assume v: "visited (s # h)"
  have "transition FLAT None None None s = Inr flat_snapshot"
    using False by (cases "ss_state s") (simp_all add: transition_def make_snapshot_def snapshot_checks_def flat_snapshot_def)
  then have "visited (flat_snapshot # s # h)" using visited.step[OF v, of None] by simp
  then show ?thesis by blast
qed

lemma step_path:
  assumes "visited (as_snapshot s # h)" "lifecycle_step c s snap'"
  shows "\<exists>h'. visited (snap' # h') \<and> (snap' # h' = as_snapshot s # h \<or> suffix (as_snapshot s # h) h')"
proof -
  let ?s = "as_snapshot s" and ?G = "\<lambda>x. \<exists>h'. visited (x # h') \<and> (x # h' = as_snapshot s # h \<or> suffix (as_snapshot s # h) h')"
  have stay: "?G ?s" using assms(1) by blast
  obtain h0 where f: "visited (flat_snapshot # h0)" "h0 = ?s # h \<or> flat_snapshot # h0 = ?s # h" using visited_flat[OF assms(1)] by blast
  have flat: "?G flat_snapshot" using f by auto
  have one: "?G x" if "transition target None en cd ?s = Inr x" for target en cd x
    using visited.step[OF assms(1) _ that] by auto
  have two: "?G x" if "transition target su en cd flat_snapshot = Inr x" "pred_option (\<lambda>se. make_setup se = Inr se) su" for target su en cd x
    using visited.step[OF f(1) that(2,1)] f(2) by (auto simp: suffix_Cons)
  have new: "?G x" if "finds x" for x using that two unfolding finds_def by fastforce
  have bar: "?G x" if "bar_move C t ?s x" for C t x
    using that stay flat one new unfolding bar_move_def by blast
  show ?thesis
  proof (cases c)
    case (Evaluate C now b as_of cs)
    then show ?thesis using assms(2) stay flat bar
      by (auto simp: lifecycle_step_def evaluate_move_def split: sum.splits if_splits)
  next
    case (Left t)
    then have "transition COOLDOWN None None (Some (t + minutes 10)) flat_snapshot = Inr snap'"
      using assms(2) by (simp add: lifecycle_step_def)
    from two[OF this] show ?thesis by simp
  next
    case (Confirm t)
    then have "snap' = ?s \<or> transition ENTERED None (Some t) None ?s = Inr snap'"
      using assms(2) by (auto simp: lifecycle_step_def Let_def)
    then show ?thesis using stay one by blast
  next
    case (ExecutionRejected t reason)
    then have "snap' = ?s \<or> transition COOLDOWN None None (Some (t + minutes 10)) ?s = Inr snap'"
      using assms(2) by (auto simp: lifecycle_step_def Let_def split: if_splits)
    then show ?thesis using stay one by blast
  next
    case (Reset t)
    then show ?thesis using assms(2) flat by (simp add: lifecycle_step_def)
  next
    case Restart
    then show ?thesis using assms(2) stay by (simp add: lifecycle_step_def)
  qed
qed

lemma trace_history:
  assumes "a_trace ss"
  shows "\<exists>h. visited h \<and> hd h = as_snapshot (hd ss) \<and> subseq (remdups_adj (map as_snapshot ss)) h"
  using assms
proof (induction rule: a_trace.induct)
  case start
  then show ?case by (intro exI[of _ "[flat_snapshot]"]) (simp add: visited.start a_init_def)
next
  case (step s ss c)
  then obtain h0 where h0: "visited h0" "hd h0 = as_snapshot s" "subseq (remdups_adj (map as_snapshot (s # ss))) h0" by auto
  obtain h where h: "h0 = as_snapshot s # h" using h0(1,2) by (cases rule: visited.cases) auto
  obtain s' r where d: "a_do c s = (s', r)" by (rule prod.exhaust)
  have ok: "snapshot_ok (as_snapshot s)" using visited_ok[OF h0(1)] h by simp
  obtain h' where p: "visited (as_snapshot s' # h')" "as_snapshot s' # h' = h0 \<or> suffix h0 h'"
    using step_path[of s h c "as_snapshot s'"] do_moves[OF ok d] h0(1) h by auto
  have "subseq (remdups_adj (map as_snapshot (s' # s # ss))) (as_snapshot s' # h')"
  proof (cases "as_snapshot s' # h' = h0")
    case True
    then show ?thesis using h0(3) h by simp
  next
    case False
    then have "subseq (remdups_adj (map as_snapshot (s # ss))) h'"
      using p(2) h0(3) by (meson suffix_imp_subseq subseq_order.trans)
    then show ?thesis by (cases "as_snapshot s' = as_snapshot s") (auto intro: list_emb_Cons)
  qed
  then show ?case using p(1) d by (intro exI[of _ "as_snapshot s' # h'"]) simp
qed

text \<open>
  C29. Strategy A refines the setup lifecycle, step by step.  From every state of a run of bars,
  confirmations, rejections, exits, resets and restarts: each call moves the snapshot as the lifecycle
  of the call allows (a setup is found only from the empty snapshot or once the cooldown has ended, an
  entered position and a running cooldown end by a bar only at the forced exit or with another
  contract, an entry is confirmed only from an armed setup); an evaluation raises only what the
  features or the search raise, never because the lifecycle refuses a move; and the snapshots of the
  run are, in their order, part of one history of transitions of the models.
\<close>

theorem a_refines_lifecycle:
  assumes "a_trace (s # ss)" "a_do c s = (s', r)"
  shows "lifecycle_step c s (as_snapshot s') \<and> (\<forall>e. r = Inl e \<longrightarrow> raised_by_data c s e)
    \<and> (\<exists>h. visited h \<and> hd h = as_snapshot s' \<and> subseq (remdups_adj (map as_snapshot (s' # s # ss))) h)
    \<and> snapshot_ok (as_snapshot s')"
proof -
  obtain h where h: "visited h" "hd h = as_snapshot s" using trace_history[OF assms(1)] by auto
  have ok: "snapshot_ok (as_snapshot s)" using visited_hd[OF h(1)] h(2) by simp
  obtain h' where h': "visited h'" "hd h' = as_snapshot s'" "subseq (remdups_adj (map as_snapshot (s' # s # ss))) h'"
    using trace_history[OF a_trace.step[OF assms(1), of c]] assms(2) by auto
  have "snapshot_ok (as_snapshot s')" using visited_hd[OF h'(1)] h'(2) by simp
  then show ?thesis using do_moves[OF ok assms(2)] h' by blast
qed

theorem a_refines_lifecycle_witness:
  "ss_state (as_snapshot (fst (a_do (Left 6) (fst (on_exit 5 a_init))))) = COOLDOWN
    \<and> lifecycle_step (Left 6) (fst (on_exit 5 a_init)) (as_snapshot (fst (a_do (Left 6) (fst (on_exit 5 a_init)))))"
proof -
  have "fst (a_do (Left 5) a_init) = fst (on_exit 5 a_init)" by (simp add: a_do_def)
  then have t: "a_trace [fst (on_exit 5 a_init), a_init]" using a_trace.step[OF a_trace.start, of "Left 5"] by simp
  have "ss_state (as_snapshot (fst (a_do (Left 6) (fst (on_exit 5 a_init))))) = COOLDOWN" by code_simp
  then show ?thesis using a_refines_lifecycle[OF t prod.collapse[symmetric], of "Left 6"] by simp
qed

section \<open>The confirmation\<close>

lemma confirm_armed:
  assumes "make_setup se = Inr se" "ss_state (as_snapshot s) = ARMED" "ss_setup (as_snapshot s) = Some se"
  shows "snd (confirm_entry at_time s) =
    (if at_time < se_setup_timestamp se then Inl (ValueError ''entry_timestamp cannot precede setup_timestamp'')
     else if se_setup_expiry_timestamp se < at_time then Inl (ValueError ''entry_timestamp cannot exceed setup expiry'')
     else Inr ())"
  using assms
  by (auto simp: confirm_entry_def set_snapshot_def transition_def Let_def make_setup_Inr make_setup_def make_snapshot_def
      snapshot_checks_def entered_checks_def setup_is_def consumed_def setup_checks_def setup_fields_ok_def no_text_def
      split: option.splits sum.splits if_splits)

text \<open>
  C30. A signal can be confirmed only at a time of its setup's life: once the setup's expiry timestamp has
  passed, a late broker fill for instance, the confirmation raises and leaves the strategy armed.
\<close>

theorem a_confirm_window:
  assumes "snapshot_ok (as_snapshot s)" "a_evaluate C now bypass as_of cs s = (s', Inr (Some g))"
  shows "\<exists>se. ss_setup (as_snapshot s) = Some se \<and> confirm_entry at_time s' =
    (if at_time < se_setup_timestamp se then (s', Inl (ValueError ''entry_timestamp cannot precede setup_timestamp''))
     else if se_setup_expiry_timestamp se < at_time then (s', Inl (ValueError ''entry_timestamp cannot exceed setup expiry''))
     else (fst (confirm_entry at_time s'), Inr ()))"
proof -
  obtain se where se: "ss_setup (as_snapshot s) = Some se" "make_setup se = Inr se"
      "ss_state (as_snapshot s') = ARMED" "ss_setup (as_snapshot s') = Some se" by (rule signal_facts[OF assms])
  have kept: "fst (confirm_entry at_time s') = s'" if "snd (confirm_entry at_time s') = Inl e" for e
    using that by (auto simp: confirm_entry_def set_snapshot_def split: if_splits sum.splits)
  show ?thesis using confirm_armed[OF se(2-4), of at_time] kept se(1)
    by (intro exI[of _ se]) (auto intro!: prod_eqI)
qed

text \<open>The bar of the example ends after the expiry timestamp of its setup, though its index is below the expiry index.\<close>

theorem a_confirm_window_witness:
  "snd (a_evaluate demo_a_config 0 False (Some (minutes 300)) [demo_bar] demo_armed)
      = Inr (Some (a_signal demo_setup demo_features (Fin 100)))
   \<and> snd (confirm_entry (minutes 300) (fst (a_evaluate demo_a_config 0 False (Some (minutes 300)) [demo_bar] demo_armed)))
      = Inl (ValueError ''entry_timestamp cannot exceed setup expiry'')"
proof -
  have "ss_setup (as_snapshot demo_armed) = Some demo_setup" by (simp add: demo_armed_def a_init_def demo_pending_def)
  then show ?thesis using a_confirm_window[OF demo_ok demo_signal, of "minutes 300"]
    by (simp add: demo_signal[simplified] demo_setup_def)
qed

end
