(* ===== verification/PivotScalp.thy ===== *)
theory PivotScalp imports EntryCycle FuturesSignal begin

text \<open>
  The signal engine of Strategy E, \<^verbatim>\<open>services/strategy/strategies/pivot_vwap_scalp.py\<close>: completed
  five-minute futures bars, the pivot of the previous session, the VWAP of the current one, confirmed
  swings, and four setups with their stop and target.  (The lifecycle of an open position of the same
  file is in \<open>TradeManagement\<close>.)
\<close>

section \<open>Configuration and decisions\<close>

record e_config =
  ec_countertrend_enabled :: bool
  ec_swing_lookback :: nat
  ec_volume_lookback :: nat
  ec_rvol_confirmation :: pyfloat
  ec_sr_lookback_bars :: nat
  ec_sr_buffer_points :: pyfloat
  ec_counter_zone_points :: pyfloat
  ec_stop_buffer_points :: pyfloat
  ec_max_stop_points :: pyfloat
  ec_trend_target_points :: pyfloat
  ec_counter_target_points :: pyfloat
  ec_min_reward_risk :: pyfloat
  ec_min_room_to_level_points :: pyfloat
  ec_chop_lookback_bars :: nat
  ec_chop_cross_threshold :: nat
  ec_flat_vwap_lookback_bars :: nat
  ec_flat_vwap_threshold_points :: pyfloat
  ec_max_signal_age_seconds :: pyfloat
  ec_entry_start :: time_of_day
  ec_entry_end :: time_of_day

datatype metric = MReal pyfloat | MInt int | MBool bool | MText string | MTime timestamp | MNone

type_synonym metrics = "(string \<times> metric) list"

record scalp_decision =
  sd_result :: string
  sd_reason :: string
  sd_metrics :: metrics
  sd_signal :: "strategy_signal option"

record e_state =
  es_last_processed :: "timestamp option"
  es_last_decision :: scalp_decision

definition no_trade :: "string \<Rightarrow> metrics \<Rightarrow> scalp_decision" where
  "no_trade reason ms = \<lparr>sd_result = ''NO_TRADE'', sd_reason = reason, sd_metrics = ms, sd_signal = None\<rparr>"

definition e_init :: e_state where
  "e_init = \<lparr>es_last_processed = None, es_last_decision = no_trade ''NOT_EVALUATED'' []\<rparr>"

definition e_reset :: "e_state \<Rightarrow> e_state" where
  "e_reset s = \<lparr>es_last_processed = None, es_last_decision = no_trade ''RESET'' []\<rparr>"

text \<open>What is saved has no signal, and none comes back.\<close>

definition e_export :: "e_state \<Rightarrow> timestamp option \<times> string \<times> string \<times> metrics" where
  "e_export s = (es_last_processed s, sd_result (es_last_decision s), sd_reason (es_last_decision s), sd_metrics (es_last_decision s))"

definition nonempty_or :: "string \<Rightarrow> string \<Rightarrow> string" where
  "nonempty_or s d = (if s = [] then d else s)"

definition e_restore :: "timestamp option \<times> string \<times> string \<times> metrics \<Rightarrow> e_state \<Rightarrow> e_state" where
  "e_restore saved s = (case saved of (t, result, reason, ms) \<Rightarrow>
     \<lparr>es_last_processed = t, es_last_decision = \<lparr>sd_result = nonempty_or result ''NO_TRADE'',
       sd_reason = nonempty_or reason ''NOT_EVALUATED'', sd_metrics = ms, sd_signal = None\<rparr>\<rparr>)"

section \<open>Bars, VWAP, swings and levels\<close>

definition real_bar :: "timestamp \<Rightarrow> candle \<Rightarrow> bool" where
  "real_bar as_of c \<longleftrightarrow> ca_interval c = ''5m'' \<and> ca_source c \<in> {''BREEZE'', ''KITE'', ''LIVE''} \<and> ca_end_time c \<le> as_of
     \<and> 0 \<le> ca_volume c \<and> flt (Fin 0) (ca_low c) \<and> fle (ca_low c) (pmin (ca_open c) (ca_close c))
     \<and> fle (pmin (ca_open c) (ca_close c)) (pmax (ca_open c) (ca_close c)) \<and> fle (pmax (ca_open c) (ca_close c)) (ca_high c)"

text \<open>A dictionary by start time keeps the last bar of each; then they are sorted.\<close>

definition valid_completed :: "candle list \<Rightarrow> timestamp \<Rightarrow> candle list" where
  "valid_completed candles as_of = (let valid = filter (real_bar as_of) candles in
     map (\<lambda>t. last (filter (\<lambda>c. ca_start_time c = t) valid)) (sort (remdups (map ca_start_time valid))))"

definition session_date :: "candle \<Rightarrow> int" where "session_date c = ist_date (ca_start_time c)"

definition typical :: "candle \<Rightarrow> pyfloat" where
  "typical c = over (fadd (fadd (ca_high c) (ca_low c)) (ca_close c)) (Fin 3)"

text \<open>The running VWAP; before the first volume the mean of the typical prices.\<close>

fun vwap_walk :: "pyfloat \<Rightarrow> int \<Rightarrow> pyfloat \<Rightarrow> nat \<Rightarrow> candle list \<Rightarrow> pyfloat list" where
  "vwap_walk pv volume fallback index [] = []"
| "vwap_walk pv volume fallback index (c # cs) =
     (let v = max 0 (ca_volume c); pv' = fadd pv (fmul (typical c) (fint v)); volume' = volume + v;
          fallback' = fadd fallback (typical c); index' = Suc index
      in (if 0 < volume' then over pv' (fint volume') else over fallback' (fint (int index')))
         # vwap_walk pv' volume' fallback' index' cs)"

definition vwap_series :: "candle list \<Rightarrow> pyfloat list" where
  "vwap_series cs = vwap_walk (Fin 0) 0 (Fin 0) 0 cs"

definition sign_of :: "pyfloat \<Rightarrow> int" where
  "sign_of x = (if flt (Fin 0) x then 1 else if flt x (Fin 0) then - 1 else 0)"

definition cross_count :: "pyfloat list \<Rightarrow> nat" where
  "cross_count values = (let nonzero = filter (\<lambda>x. x \<noteq> 0) (map sign_of values) in
     length (filter (\<lambda>(l, r). l \<noteq> r) (zip nonzero (tl nonzero))))"

type_synonym swings = "(nat \<times> pyfloat) list"

definition swing_high_at :: "candle list \<Rightarrow> nat \<Rightarrow> nat \<Rightarrow> bool" where
  "swing_high_at cs wing i \<longleftrightarrow> list_all (\<lambda>c. flt (ca_high c) (ca_high (cs ! i))) (take wing (drop (i - wing) cs))
     \<and> list_all (\<lambda>c. fle (ca_high c) (ca_high (cs ! i))) (take wing (drop (Suc i) cs))"

definition swing_low_at :: "candle list \<Rightarrow> nat \<Rightarrow> nat \<Rightarrow> bool" where
  "swing_low_at cs wing i \<longleftrightarrow> list_all (\<lambda>c. flt (ca_low (cs ! i)) (ca_low c)) (take wing (drop (i - wing) cs))
     \<and> list_all (\<lambda>c. fle (ca_low (cs ! i)) (ca_low c)) (take wing (drop (Suc i) cs))"

definition confirmed_swings :: "candle list \<Rightarrow> nat \<Rightarrow> swings \<times> swings" where
  "confirmed_swings cs wing =
     (let places = (if length cs < 2 * wing + 1 then [] else [wing..<length cs - wing]) in
      (map (\<lambda>i. (i, ca_high (cs ! i))) (filter (swing_high_at cs wing) places),
       map (\<lambda>i. (i, ca_low (cs ! i))) (filter (swing_low_at cs wing) places)))"

definition nearest_below :: "pyfloat \<Rightarrow> pyfloat list \<Rightarrow> pyfloat option" where
  "nearest_below price levels = (case filter (\<lambda>l. flt (Fin 0) l \<and> flt l price) levels of [] \<Rightarrow> None | ls \<Rightarrow> Some (max_of ls))"

definition nearest_above :: "pyfloat \<Rightarrow> pyfloat list \<Rightarrow> pyfloat option" where
  "nearest_above price levels = (case filter (flt price) levels of [] \<Rightarrow> None | ls \<Rightarrow> Some (min_of ls))"

text \<open>\<^verbatim>\<open>statistics.mean\<close> of the volumes: the exact mean of the doubles, rounded once.\<close>

definition exact_value :: "pyfloat \<Rightarrow> rat" where
  "exact_value x = (case x of Fin r \<Rightarrow> r | _ \<Rightarrow> 0)"

definition mean_volume :: "candle list \<Rightarrow> pyfloat" where
  "mean_volume cs = rnd (sum_list (map (\<lambda>c. exact_value (fint (ca_volume c))) cs) / of_nat (length cs))"

section \<open>What an evaluation sees\<close>

record e_view =
  vi_session :: "candle list"
  vi_previous :: "candle list"
  vi_latest :: candle
  vi_price :: pyfloat
  vi_pivot :: pyfloat
  vi_vwaps :: "pyfloat list"
  vi_highs :: swings
  vi_lows :: swings
  vi_established_highs :: "pyfloat list"
  vi_established_lows :: "pyfloat list"
  vi_support :: "pyfloat option"
  vi_resistance :: "pyfloat option"
  vi_choppy :: bool
  vi_metrics :: metrics

definition vi_vwap :: "e_view \<Rightarrow> pyfloat" where "vi_vwap v = last (vi_vwaps v)"

text \<open>The bar and the VWAP before the latest.\<close>

definition before_last :: "'a list \<Rightarrow> 'a" where "before_last xs = xs ! (length xs - 2)"

definition lastn :: "nat \<Rightarrow> 'a list \<Rightarrow> 'a list" where "lastn n xs = drop (length xs - n) xs"

definition day_pivot :: "candle list \<Rightarrow> pyfloat" where
  "day_pivot previous =
     over (fadd (fadd (max_of (map ca_high previous)) (min_of (map ca_low previous))) (ca_close (last previous))) (Fin 3)"

definition established :: "(pyfloat list \<Rightarrow> pyfloat) \<Rightarrow> (candle \<Rightarrow> pyfloat) \<Rightarrow> e_config \<Rightarrow> candle list \<Rightarrow> candle list \<Rightarrow> swings \<Rightarrow> pyfloat list" where
  "established pick part C session previous swings =
     map snd (filter (\<lambda>(i, x). length session - ec_sr_lookback_bars C \<le> i) swings)
     @ (if 2 < length session then [pick (map part (take (length session - 2) session))] else [])
     @ [pick (map part previous)]"

definition pivot_crosses :: "e_config \<Rightarrow> candle list \<Rightarrow> pyfloat \<Rightarrow> nat" where
  "pivot_crosses C session pivot = cross_count (map (\<lambda>c. fsub (ca_close c) pivot) (lastn (ec_chop_lookback_bars C) session))"

definition vwap_crosses :: "e_config \<Rightarrow> candle list \<Rightarrow> pyfloat list \<Rightarrow> nat" where
  "vwap_crosses C session vwaps = cross_count (map (\<lambda>(c, w). fsub (ca_close c) w)
     (zip (lastn (ec_chop_lookback_bars C) session) (lastn (ec_chop_lookback_bars C) vwaps)))"

definition flat_lookback :: "e_config \<Rightarrow> pyfloat list \<Rightarrow> nat" where
  "flat_lookback C vwaps = min (ec_flat_vwap_lookback_bars C) (length vwaps - 1)"

definition vwap_delta :: "e_config \<Rightarrow> pyfloat list \<Rightarrow> pyfloat" where
  "vwap_delta C vwaps = (if 0 < flat_lookback C vwaps
     then fabs (fsub (last vwaps) (vwaps ! (length vwaps - 1 - flat_lookback C vwaps))) else Fin 0)"

definition flat_vwap :: "e_config \<Rightarrow> pyfloat list \<Rightarrow> bool" where
  "flat_vwap C vwaps \<longleftrightarrow> 0 < flat_lookback C vwaps \<and> fle (vwap_delta C vwaps) (ec_flat_vwap_threshold_points C)"

definition choppy :: "e_config \<Rightarrow> candle list \<Rightarrow> pyfloat list \<Rightarrow> pyfloat \<Rightarrow> bool" where
  "choppy C session vwaps pivot \<longleftrightarrow>
     (let threshold = ec_chop_cross_threshold C in
      threshold \<le> pivot_crosses C session pivot \<and> threshold \<le> vwap_crosses C session vwaps
      \<or> flat_vwap C vwaps \<and> threshold \<le> vwap_crosses C session vwaps)"

definition rounded :: "pyfloat option \<Rightarrow> metric" where
  "rounded x = (case x of None \<Rightarrow> MNone | Some v \<Rightarrow> MReal (fround 2 v))"

definition base_metrics :: "e_config \<Rightarrow> candle list \<Rightarrow> e_view \<Rightarrow> metrics" where
  "base_metrics C candles v =
     (let latest = vi_latest v; session = vi_session v; previous = vi_previous v; vwaps = vi_vwaps v;
          average = mean_volume (lastn (ec_volume_lookback C) (butlast candles));
          relative = (if flt (Fin 0) average then over (fint (ca_volume latest)) average else Fin 0)
      in [(''price'', MReal (fround 2 (vi_price v))), (''pivot'', MReal (fround 2 (vi_pivot v))),
          (''vwap'', MReal (fround 2 (last vwaps))),
          (''previous_day_high'', MReal (fround 2 (max_of (map ca_high previous)))),
          (''previous_day_low'', MReal (fround 2 (min_of (map ca_low previous)))),
          (''previous_day_close'', MReal (fround 2 (ca_close (last previous)))),
          (''volume'', MInt (ca_volume latest)), (''average_volume_20'', MReal (fround 2 average)),
          (''relative_volume'', MReal (fround 3 relative)),
          (''volume_confirmed'', MBool (fle (ec_rvol_confirmation C) relative)),
          (''nearest_support'', rounded (vi_support v)), (''nearest_resistance'', rounded (vi_resistance v)),
          (''pivot_crosses'', MInt (int (pivot_crosses C session (vi_pivot v)))),
          (''vwap_crosses'', MInt (int (vwap_crosses C session vwaps))),
          (''vwap_delta'', MReal (fround 3 (vwap_delta C vwaps))), (''flat_vwap'', MBool (flat_vwap C vwaps)),
          (''choppy'', MBool (vi_choppy v))])"

definition make_view :: "e_config \<Rightarrow> candle list \<Rightarrow> candle list \<Rightarrow> candle list \<Rightarrow> e_view" where
  "make_view C candles session previous =
     (let latest = last candles; price = ca_close latest; pivot = day_pivot previous; vwaps = vwap_series session;
          swings = confirmed_swings session (ec_swing_lookback C);
          highs = established max_of ca_high C session previous (fst swings);
          lows = established min_of ca_low C session previous (snd swings);
          v = \<lparr>vi_session = session, vi_previous = previous, vi_latest = latest, vi_price = price, vi_pivot = pivot,
            vi_vwaps = vwaps, vi_highs = fst swings, vi_lows = snd swings, vi_established_highs = highs,
            vi_established_lows = lows, vi_support = nearest_below price lows, vi_resistance = nearest_above price highs,
            vi_choppy = choppy C session vwaps pivot, vi_metrics = []\<rparr>
      in v\<lparr>vi_metrics := base_metrics C candles v\<rparr>)"

section \<open>The four setups\<close>

text \<open>
  What all four share: a long setup risks the way down to its stop and earns the way up to its target,
  a short one the other way round.
\<close>

record plan =
  pl_type :: string
  pl_long :: bool
  pl_stop :: pyfloat
  pl_target :: pyfloat
  pl_swing_low :: "pyfloat option"
  pl_swing_high :: "pyfloat option"
  pl_extra :: metrics
  pl_invalid :: string
  pl_no_room :: string

definition risk_of :: "plan \<Rightarrow> pyfloat \<Rightarrow> pyfloat" where
  "risk_of p price = (if pl_long p then fsub price (pl_stop p) else fsub (pl_stop p) price)"

definition reward_of :: "plan \<Rightarrow> pyfloat \<Rightarrow> pyfloat" where
  "reward_of p price = (if pl_long p then fsub (pl_target p) price else fsub price (pl_target p))"

definition e_signal :: "plan \<Rightarrow> e_view \<Rightarrow> strategy_signal" where
  "e_signal p v = (let latest = vi_latest v; entry = fround 2 (vi_price v) in
     \<lparr>sg_signal_id = ''STRATEGY-E-'' @ pl_type p @ ''-'' @ ca_instrument_id latest @ ''-''
        @ show_int (ca_end_time latest div seconds 1),
      sg_strategy = PIVOT_VWAP_SCALP, sg_direction = (if pl_long p then BULLISH else BEARISH),
      sg_option_type = (if pl_long p then CALL else PUT), sg_timestamp = ca_end_time latest,
      sg_spot_reference_price = entry, sg_underlying_entry_price = Some entry, sg_structural_stop = pl_stop p,
      sg_r_points = fabs (fsub entry (pl_stop p)),
      sg_snapshot = no_snapshot\<lparr>sp_signal_type := Some (pl_type p), sp_target_price := Some (pl_target p),
        sp_swing_low := map_option (fround 2) (pl_swing_low p), sp_swing_high := map_option (fround 2) (pl_swing_high p),
        sp_futures_contract := Some (ca_instrument_id latest)\<rparr>\<rparr>)"

definition judge :: "e_config \<Rightarrow> e_view \<Rightarrow> plan \<Rightarrow> scalp_decision" where
  "judge C v p =
     (let price = vi_price v; risk = risk_of p price; reward = reward_of p price; entry = fround 2 price;
          ms = vi_metrics v @ [(''swing_low'', rounded (pl_swing_low p)), (''swing_high'', rounded (pl_swing_high p))] @ pl_extra p in
      if fle risk (Fin 0) then no_trade (pl_invalid p) ms
      else if flt (ec_max_stop_points C) risk then no_trade ''STOP_TOO_WIDE'' ms
      else if flt reward (ec_min_room_to_level_points C) then no_trade (pl_no_room p) ms
      else if flt (over reward risk) (ec_min_reward_risk C) then no_trade ''INSUFFICIENT_REWARD_TO_RISK'' ms
      else \<lparr>sd_result = pl_type p, sd_reason = ''SIGNAL_READY'',
        sd_metrics = ms @ [(''entry_price'', MReal entry), (''stop'', MReal (pl_stop p)), (''target'', MReal (pl_target p)),
          (''risk_points'', MReal (fabs (fsub entry (pl_stop p)))), (''reward_points'', MReal (fabs (fsub (pl_target p) entry)))],
        sd_signal = Some (e_signal p v)\<rparr>)"

text \<open>The level before the last confirmed pullback, when there is one.\<close>

definition broken_level :: "swings \<Rightarrow> swings \<Rightarrow> (pyfloat \<times> pyfloat) option" where
  "broken_level pullbacks levels =
     (if pullbacks = [] then None
      else (case filter (\<lambda>(i, x). i < fst (last pullbacks)) levels of [] \<Rightarrow> None
        | ls \<Rightarrow> Some (snd (last pullbacks), snd (last ls))))"

definition capped_target :: "e_config \<Rightarrow> pyfloat \<Rightarrow> pyfloat \<Rightarrow> pyfloat option \<Rightarrow> pyfloat" where
  "capped_target C price distance level = fround 2 (pmin (fadd price distance)
     (case level of None \<Rightarrow> PInf | Some x \<Rightarrow> fsub x (ec_sr_buffer_points C)))"

definition floored_target :: "e_config \<Rightarrow> pyfloat \<Rightarrow> pyfloat \<Rightarrow> pyfloat option \<Rightarrow> pyfloat" where
  "floored_target C price distance level = fround 2 (pmax (fsub price distance)
     (case level of None \<Rightarrow> NInf | Some x \<Rightarrow> fadd x (ec_sr_buffer_points C)))"

definition trend_long :: "e_config \<Rightarrow> e_view \<Rightarrow> plan option" where
  "trend_long C v =
     (let price = vi_price v; latest = vi_latest v; prev_bar = before_last (vi_session v) in
      if \<not> (flt (vi_pivot v) price \<and> flt (vi_vwap v) price) then None
      else (case broken_level (vi_lows v) (vi_highs v) of None \<Rightarrow> None
        | Some (pullback_low, breakout_high) \<Rightarrow>
            if fle (ca_close prev_bar) breakout_high \<and> flt breakout_high price \<and> flt (ca_open latest) (ca_close latest)
            then Some \<lparr>pl_type = ''TREND_LONG'', pl_long = True, pl_stop = fround 2 (fsub pullback_low (ec_stop_buffer_points C)),
              pl_target = capped_target C price (ec_trend_target_points C) (vi_resistance v),
              pl_swing_low = Some pullback_low, pl_swing_high = Some breakout_high, pl_extra = [],
              pl_invalid = ''INVALID_TREND_LONG_STOP'', pl_no_room = ''INSUFFICIENT_ROOM_TO_RESISTANCE''\<rparr>
            else None))"

definition trend_short :: "e_config \<Rightarrow> e_view \<Rightarrow> plan option" where
  "trend_short C v =
     (let price = vi_price v; latest = vi_latest v; prev_bar = before_last (vi_session v) in
      if \<not> (flt price (vi_pivot v) \<and> flt price (vi_vwap v)) then None
      else (case broken_level (vi_highs v) (vi_lows v) of None \<Rightarrow> None
        | Some (pullback_high, breakout_low) \<Rightarrow>
            if fle breakout_low (ca_close prev_bar) \<and> flt price breakout_low \<and> flt (ca_close latest) (ca_open latest)
            then Some \<lparr>pl_type = ''TREND_SHORT'', pl_long = False, pl_stop = fround 2 (fadd pullback_high (ec_stop_buffer_points C)),
              pl_target = floored_target C price (ec_trend_target_points C) (vi_support v),
              pl_swing_low = Some breakout_low, pl_swing_high = Some pullback_high, pl_extra = [],
              pl_invalid = ''INVALID_TREND_SHORT_STOP'', pl_no_room = ''INSUFFICIENT_ROOM_TO_SUPPORT''\<rparr>
            else None))"

definition counter_long :: "e_config \<Rightarrow> e_view \<Rightarrow> plan option" where
  "counter_long C v =
     (let price = vi_price v; latest = vi_latest v; prev_bar = before_last (vi_session v); vwap = vi_vwap v in
      case (flt price (vi_pivot v), vi_support v) of
        (True, Some support) \<Rightarrow>
          (let zone = fadd support (ec_counter_zone_points C);
               touched = (fle (ca_low latest) zone \<or> fle (ca_low prev_bar) zone);
               reclaim = (fle (ca_close prev_bar) (before_last (vi_vwaps v)) \<and> flt vwap price);
               micro = (flt (ca_high prev_bar) price \<and> fle (ca_low prev_bar) (ca_low latest) \<and> flt (ca_open latest) (ca_close latest));
               levels = vi_established_highs v @ [vi_pivot v] @ (if flt price vwap then [vwap] else []) in
           if touched \<and> (reclaim \<or> micro)
           then Some \<lparr>pl_type = ''COUNTER_LONG'', pl_long = True,
             pl_stop = fround 2 (fsub (pmin (pmin (ca_low latest) (ca_low prev_bar)) support) (ec_stop_buffer_points C)),
             pl_target = capped_target C price (ec_counter_target_points C) (nearest_above price levels),
             pl_swing_low = Some support, pl_swing_high = None,
             pl_extra = [(''counter_confirmation'', MText (if reclaim then ''VWAP_RECLAIM'' else ''BULLISH_MICRO_SWING''))],
             pl_invalid = ''INVALID_COUNTER_LONG_STOP'', pl_no_room = ''INSUFFICIENT_COUNTERTREND_ROOM''\<rparr>
           else None)
      | _ \<Rightarrow> None)"

definition counter_short :: "e_config \<Rightarrow> e_view \<Rightarrow> plan option" where
  "counter_short C v =
     (let price = vi_price v; latest = vi_latest v; prev_bar = before_last (vi_session v); vwap = vi_vwap v in
      case (flt (vi_pivot v) price, vi_resistance v) of
        (True, Some resistance) \<Rightarrow>
          (let zone = fsub resistance (ec_counter_zone_points C);
               touched = (fle zone (ca_high latest) \<or> fle zone (ca_high prev_bar));
               lose = (fle (before_last (vi_vwaps v)) (ca_close prev_bar) \<and> flt price vwap);
               micro = (flt price (ca_low prev_bar) \<and> fle (ca_high latest) (ca_high prev_bar) \<and> flt (ca_close latest) (ca_open latest));
               levels = vi_established_lows v @ [vi_pivot v] @ (if flt vwap price then [vwap] else []) in
           if touched \<and> (lose \<or> micro)
           then Some \<lparr>pl_type = ''COUNTER_SHORT'', pl_long = False,
             pl_stop = fround 2 (fadd (pmax (pmax (ca_high latest) (ca_high prev_bar)) resistance) (ec_stop_buffer_points C)),
             pl_target = floored_target C price (ec_counter_target_points C) (nearest_below price levels),
             pl_swing_low = None, pl_swing_high = Some resistance,
             pl_extra = [(''counter_confirmation'', MText (if lose then ''VWAP_LOSS'' else ''BEARISH_MICRO_SWING''))],
             pl_invalid = ''INVALID_COUNTER_SHORT_STOP'', pl_no_room = ''INSUFFICIENT_COUNTERTREND_ROOM''\<rparr>
           else None)
      | _ \<Rightarrow> None)"

section \<open>One evaluation\<close>

text \<open>The setups in their order; the countertrend ones may be switched off.\<close>

definition first_plan :: "e_config \<Rightarrow> e_view \<Rightarrow> plan option" where
  "first_plan C v =
     (case trend_long C v of Some p \<Rightarrow> Some p | None \<Rightarrow>
     (case trend_short C v of Some p \<Rightarrow> Some p | None \<Rightarrow>
      if \<not> ec_countertrend_enabled C then None
      else (case counter_long C v of Some p \<Rightarrow> Some p | None \<Rightarrow> counter_short C v)))"

definition decide :: "e_config \<Rightarrow> e_view \<Rightarrow> scalp_decision" where
  "decide C v =
     (if \<not> in_window (ca_end_time (vi_latest v)) (ec_entry_start C) (ec_entry_end C)
      then no_trade ''OUTSIDE_STRATEGY_E_ENTRY_WINDOW'' (vi_metrics v)
      else if vi_choppy v then no_trade ''CHOPPY_AROUND_PIVOT_VWAP'' (vi_metrics v)
      else if length (vi_session v) < 2 * ec_swing_lookback C + 3 then no_trade ''INSUFFICIENT_SESSION_SWING_HISTORY'' (vi_metrics v)
      else (case first_plan C v of
          Some p \<Rightarrow> judge C v p
        | None \<Rightarrow> no_trade (if ec_countertrend_enabled C then ''NO_SETUP'' else ''NO_TREND_SIGNAL_COUNTERTREND_DISABLED'') (vi_metrics v)))"

definition stale :: "e_config \<Rightarrow> timestamp \<Rightarrow> timestamp option \<Rightarrow> timestamp \<Rightarrow> metrics option" where
  "stale C as_of expected t =
     (let age = pmax (Fin 0) (total_seconds (as_of - t)) in
      case expected of
        Some e \<Rightarrow> if t < e then Some [(''signal_age_seconds'', MReal (fround 3 age)), (''latest_completed_end'', MTime t),
            (''expected_completed_end'', MTime e), (''completed_bar_lag_seconds'', MReal (fround 3 (total_seconds (e - t)))),
            (''freshness_basis'', MText ''EXPECTED_COMPLETED_BOUNDARY'')] else None
      | None \<Rightarrow> if flt (ec_max_signal_age_seconds C) age then Some [(''signal_age_seconds'', MReal (fround 3 age)),
            (''max_signal_age_seconds'', MReal (ec_max_signal_age_seconds C)),
            (''freshness_basis'', MText ''ABSOLUTE_AGE_FALLBACK'')] else None)"

text \<open>The bars of the latest session and of the last session before it.\<close>

definition current_session :: "candle list \<Rightarrow> candle list" where
  "current_session cs = filter (\<lambda>c. session_date c = session_date (last cs)) cs"

definition previous_session :: "candle list \<Rightarrow> candle list" where
  "previous_session cs = (let earlier = filter (\<lambda>d. d < session_date (last cs)) (map session_date cs) in
     if earlier = [] then [] else filter (\<lambda>c. session_date c = Max (set earlier)) cs)"

definition analyse :: "e_config \<Rightarrow> timestamp \<Rightarrow> timestamp option \<Rightarrow> candle list \<Rightarrow> scalp_decision" where
  "analyse C as_of expected cs =
     (case stale C as_of expected (ca_end_time (last cs)) of
        Some ms \<Rightarrow> no_trade ''STALE_COMPLETED_5M_BAR'' ms
      | None \<Rightarrow>
          (let session = current_session cs; previous = previous_session cs in
           if previous = [] then no_trade ''PREVIOUS_TRADING_SESSION_UNAVAILABLE'' []
           else if sum_list (map (\<lambda>c. max 0 (ca_volume c)) session) \<le> 0 then no_trade ''SESSION_VOLUME_UNAVAILABLE'' []
           else decide C (make_view C cs session previous)))"

definition required_bars :: "e_config \<Rightarrow> nat" where
  "required_bars C = max (ec_volume_lookback C + 1) (2 * ec_swing_lookback C + 5)"

definition e_evaluate :: "e_config \<Rightarrow> timestamp \<Rightarrow> timestamp option \<Rightarrow> candle list \<Rightarrow> e_state \<Rightarrow> e_state \<times> scalp_decision" where
  "e_evaluate C as_of expected futures s =
     (let cs = valid_completed futures as_of; few = no_trade ''INSUFFICIENT_5M_HISTORY''
        [(''completed_5m_bars'', MInt (int (length cs))), (''required_bars'', MInt (int (required_bars C)))] in
      if length cs < required_bars C then (s\<lparr>es_last_decision := few\<rparr>, few)
      else if es_last_processed s = Some (ca_end_time (last cs))
      then (s, no_trade ''NO_NEW_COMPLETED_5M_BAR'' (sd_metrics (es_last_decision s)))
      else (let d = analyse C as_of expected cs in (\<lparr>es_last_processed = Some (ca_end_time (last cs)), es_last_decision = d\<rparr>, d)))"

text \<open>An analysis on a probe of its own.\<close>

definition analyze_snapshot :: "e_config \<Rightarrow> timestamp \<Rightarrow> timestamp option \<Rightarrow> candle list \<Rightarrow> scalp_decision" where
  "analyze_snapshot C as_of expected futures = snd (e_evaluate C as_of expected futures e_init)"

section \<open>Bars and levels are numbers\<close>

definition is_fin :: "pyfloat \<Rightarrow> bool" where "is_fin x = (case x of Fin r \<Rightarrow> True | _ \<Rightarrow> False)"

lemma is_fin_iff: "is_fin x \<longleftrightarrow> (\<exists>r. x = Fin r)"
  by (simp add: is_fin_def split: pyfloat.split)

text \<open>The bounds of the fields of the configuration make them finite.\<close>

definition config_finite :: "e_config \<Rightarrow> bool" where
  "config_finite C \<longleftrightarrow> list_all is_fin [ec_stop_buffer_points C, ec_sr_buffer_points C, ec_trend_target_points C,
     ec_counter_target_points C, ec_max_stop_points C, ec_min_room_to_level_points C, ec_min_reward_risk C]"

lemma valid_completed_real: "c \<in> set (valid_completed cs as_of) \<Longrightarrow> c \<in> set cs \<and> real_bar as_of c"
proof -
  assume "c \<in> set (valid_completed cs as_of)"
  then obtain b where b: "b \<in> set (filter (real_bar as_of) cs)"
    "c = last (filter (\<lambda>x. ca_start_time x = ca_start_time b) (filter (real_bar as_of) cs))"
    by (auto simp: valid_completed_def Let_def)
  then have "filter (\<lambda>x. ca_start_time x = ca_start_time b) (filter (real_bar as_of) cs) \<noteq> []"
    by (metis (mono_tags, lifting) filter_empty_conv)
  from last_in_set[OF this] show ?thesis using b(2) by simp
qed

lemma real_bar_numbers: "real_bar as_of c \<Longrightarrow> ca_low c \<noteq> NaN \<and> ca_high c \<noteq> NaN"
  by (auto simp: real_bar_def)

lemma foldl_pick_in:
  assumes "\<And>x y. f x y = x \<or> f x y = (y :: 'a)"
  shows "foldl f a xs \<in> insert a (set xs)"
  using assms by (induction xs arbitrary: a) (auto, metis insert_iff)

lemma min_of_in: "xs \<noteq> [] \<Longrightarrow> min_of xs \<in> set xs"
  using foldl_pick_in[of pmin "hd xs" "tl xs"] pmin_in by (cases xs) (auto simp: min_of_def)

lemma max_of_in: "xs \<noteq> [] \<Longrightarrow> max_of xs \<in> set xs"
  using foldl_pick_in[of pmax "hd xs" "tl xs"] pmax_in by (cases xs) (auto simp: max_of_def)

lemma nearest_above_spec: "nearest_above price ls = Some l \<Longrightarrow> l \<in> set ls \<and> flt price l"
  using min_of_in[of "filter (flt price) ls"] by (auto simp: nearest_above_def split: list.splits)

lemma nearest_below_spec: "nearest_below price ls = Some l \<Longrightarrow> l \<in> set ls \<and> flt l price \<and> flt (Fin 0) l"
  using max_of_in[of "filter (\<lambda>l. flt (Fin 0) l \<and> flt l price) ls"] by (auto simp: nearest_below_def split: list.splits)

lemma number_minus: "x \<noteq> NaN \<Longrightarrow> is_fin b \<Longrightarrow> fsub x b \<noteq> NaN" "is_fin b \<Longrightarrow> x \<noteq> NaN \<Longrightarrow> fsub b x \<noteq> NaN"
  "x \<noteq> NaN \<Longrightarrow> is_fin b \<Longrightarrow> fadd x b \<noteq> NaN"
  by (cases x; cases b; auto simp: is_fin_def fsub_def)+

lemma target_number:
  assumes "is_fin price" "is_fin d" "config_finite C" "pred_option (\<lambda>l. l \<noteq> NaN) level"
  shows "capped_target C price d level \<noteq> NaN" "floored_target C price d level \<noteq> NaN"
proof -
  have p: "price \<noteq> NaN" and b: "is_fin (ec_sr_buffer_points C)" using assms by (auto simp: is_fin_def config_finite_def)
  show "capped_target C price d level \<noteq> NaN" "floored_target C price d level \<noteq> NaN"
    using number_minus(1,3)[OF p assms(2)] number_minus(1,3)[OF _ b] assms(4)
    by (cases level; simp add: capped_target_def floored_target_def)+
qed

lemma swings_numbers:
  assumes "\<forall>c \<in> set cs. real_bar as_of c"
  shows "(i, x) \<in> set (fst (confirmed_swings cs w)) \<Longrightarrow> x \<noteq> NaN" "(i, x) \<in> set (snd (confirmed_swings cs w)) \<Longrightarrow> x \<noteq> NaN"
proof -
  have n: "ca_high (cs ! i) \<noteq> NaN" "ca_low (cs ! i) \<noteq> NaN" if "i < length cs - w"
    using real_bar_numbers[OF bspec[OF assms nth_mem]] that by simp_all
  show "(i, x) \<in> set (fst (confirmed_swings cs w)) \<Longrightarrow> x \<noteq> NaN" "(i, x) \<in> set (snd (confirmed_swings cs w)) \<Longrightarrow> x \<noteq> NaN"
    using n by (auto simp: confirmed_swings_def Let_def split: if_splits)
qed

lemma broken_level_in:
  assumes "broken_level ps ls = Some (a, b)"
  shows "\<exists>i j. (i, a) \<in> set ps \<and> (j, b) \<in> set ls"
proof -
  define qs where "qs = filter (\<lambda>(i, x). i < fst (last ps)) ls"
  have "ps \<noteq> []" "qs \<noteq> []" "a = snd (last ps)" "b = snd (last qs)"
    using assms by (auto simp: broken_level_def qs_def split: if_splits list.splits)
  then have "(fst (last ps), a) \<in> set ps" "(fst (last qs), b) \<in> set qs" by (simp_all)
  moreover have "set qs \<subseteq> set ls" by (auto simp: qs_def)
  ultimately show ?thesis by blast
qed

lemma view_sel [simp]:
  "vi_session (make_view C cs se pr) = se" "vi_latest (make_view C cs se pr) = last cs"
  "vi_price (make_view C cs se pr) = ca_close (last cs)" "vi_lows (make_view C cs se pr) = snd (confirmed_swings se (ec_swing_lookback C))"
  "vi_highs (make_view C cs se pr) = fst (confirmed_swings se (ec_swing_lookback C))"
  "vi_support (make_view C cs se pr) = nearest_below (ca_close (last cs)) (vi_established_lows (make_view C cs se pr))"
  "vi_resistance (make_view C cs se pr) = nearest_above (ca_close (last cs)) (vi_established_highs (make_view C cs se pr))"
  by (simp_all add: make_view_def Let_def)

lemma level_numbers: "pred_option (\<lambda>l. l \<noteq> NaN) (nearest_above p ls)" "pred_option (\<lambda>l. l \<noteq> NaN) (nearest_below p ls)"
  using nearest_above_spec[of p ls] nearest_below_spec[of p ls]
  by (cases "nearest_above p ls"; cases "nearest_below p ls"; auto dest: flt_not_NaN)+

lemma plan_cases:
  assumes "first_plan C v = Some p"
  obtains "trend_long C v = Some p" | "trend_short C v = Some p" | "counter_long C v = Some p" | "counter_short C v = Some p"
  using assms by (auto simp: first_plan_def split: option.splits if_splits)

lemma plan_numbers:
  assumes fc: "config_finite C" and fp: "is_fin (ca_close (last cs))" and real: "\<forall>c \<in> set se. real_bar as_of c"
    and lb: "real_bar as_of (last cs)" and ne: "2 \<le> length se" and p: "first_plan C (make_view C cs se pr) = Some p"
  shows "pl_stop p \<noteq> NaN" "pl_target p \<noteq> NaN"
proof -
  have b: "is_fin (ec_stop_buffer_points C)" "is_fin (ec_trend_target_points C)" "is_fin (ec_counter_target_points C)"
    using fc by (auto simp: config_finite_def)
  have prev: "real_bar as_of (before_last se)" using real ne by (auto simp: before_last_def)
  note num = real_bar_numbers[OF prev] real_bar_numbers[OF lb]
  note tn = target_number[OF fp b(2) fc level_numbers(1)] target_number[OF fp b(2) fc level_numbers(2)]
    target_number[OF fp b(3) fc level_numbers(1)] target_number[OF fp b(3) fc level_numbers(2)]
  have t: "pl_target p \<noteq> NaN" using p
    by (rule plan_cases)
      (auto simp: trend_long_def trend_short_def counter_long_def counter_short_def Let_def tn
        split: if_splits option.splits prod.splits bool.splits)
  show "pl_target p \<noteq> NaN" by (rule t)
  show "pl_stop p \<noteq> NaN" using p
  proof (rule plan_cases)
    assume "trend_long C (make_view C cs se pr) = Some p"
    then show ?thesis using swings_numbers[OF real] b(1)
      by (fastforce simp: trend_long_def Let_def number_minus dest!: broken_level_in split: if_splits option.splits)
  next
    assume "trend_short C (make_view C cs se pr) = Some p"
    then show ?thesis using swings_numbers[OF real] b(1)
      by (fastforce simp: trend_short_def Let_def number_minus dest!: broken_level_in split: if_splits option.splits)
  next
    assume "counter_long C (make_view C cs se pr) = Some p"
    then show ?thesis using b(1) num
      by (auto simp: counter_long_def Let_def number_minus dest!: nearest_below_spec flt_not_NaN split: if_splits option.splits bool.splits)
  next
    assume "counter_short C (make_view C cs se pr) = Some p"
    then show ?thesis using b(1) num
      by (auto simp: counter_short_def Let_def number_minus dest!: nearest_above_spec flt_not_NaN split: if_splits option.splits bool.splits)
  qed
qed

section \<open>Signals\<close>

lemma judge_signal:
  assumes "sd_signal (judge C v p) = Some g"
  shows "\<not> fle (risk_of p (vi_price v)) (Fin 0)" "\<not> flt (ec_max_stop_points C) (risk_of p (vi_price v))"
    "\<not> flt (reward_of p (vi_price v)) (ec_min_room_to_level_points C)"
    "\<not> flt (over (reward_of p (vi_price v)) (risk_of p (vi_price v))) (ec_min_reward_risk C)" "g = e_signal p v"
  using assms by (auto simp: judge_def no_trade_def Let_def split: if_splits)

lemma fsub_positive: "flt (Fin 0) (fsub x y) \<Longrightarrow> flt y x"
proof -
  have "a > b" if "flt (Fin 0) (rnd (a - b))" for a b :: rat
    using that rnd_mono[of "a - b" 0] by (metis fle_flt_trans diff_le_0_iff_le flt_irrefl not_less rnd_0)
  then show "flt (Fin 0) (fsub x y) \<Longrightarrow> flt y x"
    by (cases x; cases y; simp add: fsub_def)
qed

text \<open>What the judgement accepts: a stop on the losing side within the limit, and a reward worth it.\<close>

definition accepted :: "e_config \<Rightarrow> plan \<Rightarrow> pyfloat \<Rightarrow> bool" where
  "accepted C p price \<longleftrightarrow> (if pl_long p then flt (pl_stop p) price else flt price (pl_stop p))
     \<and> flt (Fin 0) (risk_of p price) \<and> fle (risk_of p price) (ec_max_stop_points C)
     \<and> fle (ec_min_room_to_level_points C) (reward_of p price)
     \<and> fle (ec_min_reward_risk C) (over (reward_of p price) (risk_of p price))"

lemma judge_accepted:
  assumes s: "sd_signal (judge C v p) = Some g" and fc: "config_finite C" and fp: "is_fin (vi_price v)"
    and n: "pl_stop p \<noteq> NaN" "pl_target p \<noteq> NaN"
  shows "accepted C p (vi_price v)"
proof -
  let ?risk = "risk_of p (vi_price v)" and ?reward = "reward_of p (vi_price v)"
  have num: "?risk \<noteq> NaN" "?reward \<noteq> NaN" using number_minus(1)[OF _ fp] number_minus(2)[OF fp] n by (auto simp: risk_of_def reward_of_def)
  have c: "is_fin (ec_max_stop_points C)" "ec_max_stop_points C \<noteq> NaN" "ec_min_room_to_level_points C \<noteq> NaN"
    "ec_min_reward_risk C \<noteq> NaN" using fc by (auto simp: config_finite_def is_fin_def)
  have r: "flt (Fin 0) ?risk" "fle ?risk (ec_max_stop_points C)" "fle (ec_min_room_to_level_points C) ?reward"
    using judge_signal(1-3)[OF s] num c by (simp_all add: not_fle_iff not_flt_iff)
  obtain a where a: "?risk = Fin a" "0 < a" using r(1,2) c(1) by (cases ?risk) (auto simp: is_fin_iff)
  then have "over ?reward ?risk \<noteq> NaN" using num(2) by (cases ?reward) (auto simp: over_def finf_def)
  then have "fle (ec_min_reward_risk C) (over ?reward ?risk)" using judge_signal(4)[OF s] c(4) by (simp add: not_flt_iff)
  moreover have "if pl_long p then flt (pl_stop p) (vi_price v) else flt (vi_price v) (pl_stop p)"
    using r(1) fsub_positive by (auto simp: risk_of_def)
  ultimately show ?thesis using r by (simp add: accepted_def)
qed

lemma decide_signal:
  assumes "sd_signal (decide C v) = Some g"
  obtains p where "first_plan C v = Some p" "sd_signal (judge C v p) = Some g"
    "in_window (ca_end_time (vi_latest v)) (ec_entry_start C) (ec_entry_end C)" "\<not> vi_choppy v"
    "2 * ec_swing_lookback C + 3 \<le> length (vi_session v)"
  using assms by (auto simp: decide_def no_trade_def split: if_splits option.splits)

lemma analyse_signal:
  assumes "sd_signal (analyse C as_of expected cs) = Some g"
  shows "stale C as_of expected (ca_end_time (last cs)) = None" "previous_session cs \<noteq> []"
    "sd_signal (decide C (make_view C cs (current_session cs) (previous_session cs))) = Some g"
  using assms by (auto simp: analyse_def no_trade_def Let_def split: if_splits option.splits)

text \<open>Fresh: at the expected boundary, or young enough.\<close>

definition fresh :: "e_config \<Rightarrow> timestamp \<Rightarrow> timestamp option \<Rightarrow> timestamp \<Rightarrow> bool" where
  "fresh C as_of expected t = (case expected of Some e \<Rightarrow> e \<le> t
     | None \<Rightarrow> \<not> flt (ec_max_signal_age_seconds C) (pmax (Fin 0) (total_seconds (as_of - t))))"

lemma not_stale: "stale C as_of expected t = None \<longleftrightarrow> fresh C as_of expected t"
  by (auto simp: stale_def fresh_def Let_def split: option.splits)

section \<open>Properties\<close>

text \<open>
  C32. Strategy E signals only on a real, completed, fresh bar it has not processed, with a previous
  session behind it, inside its entry window and not in chop; the signal is that of the first setup
  that holds, its stop on the losing side of the close and no farther than the configured maximum, its
  reward at least the configured room and the configured multiple of the risk.
\<close>

theorem e_signal_sound:
  assumes ev: "e_evaluate C as_of expected futures s = (s', d)" and sig: "sd_signal d = Some g"
    and fc: "config_finite C" and fin: "is_fin (ca_close (last (valid_completed futures as_of)))"
  shows "\<exists>bars v p. bars = valid_completed futures as_of \<and> required_bars C \<le> length bars
    \<and> v = make_view C bars (current_session bars) (previous_session bars) \<and> previous_session bars \<noteq> []
    \<and> real_bar as_of (last bars) \<and> sg_timestamp g = ca_end_time (last bars) \<and> fresh C as_of expected (sg_timestamp g)
    \<and> es_last_processed s \<noteq> Some (sg_timestamp g) \<and> es_last_processed s' = Some (sg_timestamp g)
    \<and> in_window (sg_timestamp g) (ec_entry_start C) (ec_entry_end C) \<and> \<not> vi_choppy v
    \<and> first_plan C v = Some p \<and> g = e_signal p v \<and> accepted C p (vi_price v)"
proof -
  define bars where "bars = valid_completed futures as_of"
  define v where "v = make_view C bars (current_session bars) (previous_session bars)"
  have e: "required_bars C \<le> length bars" "es_last_processed s \<noteq> Some (ca_end_time (last bars))"
    "d = analyse C as_of expected bars" "es_last_processed s' = Some (ca_end_time (last bars))"
    using ev sig by (auto simp: e_evaluate_def bars_def no_trade_def Let_def split: if_splits)
  note an = analyse_signal[of C as_of expected bars g, folded v_def, OF sig[unfolded e(3)]]
  obtain p where p: "first_plan C v = Some p" "sd_signal (judge C v p) = Some g"
    "in_window (ca_end_time (last bars)) (ec_entry_start C) (ec_entry_end C)" "\<not> vi_choppy v"
    "2 * ec_swing_lookback C + 3 \<le> length (current_session bars)"
    by (rule decide_signal[OF an(3)]) (simp add: v_def)
  have real: "\<forall>c \<in> set bars. real_bar as_of c" unfolding bars_def using valid_completed_real by blast
  have ne: "bars \<noteq> []" using e(1) by (auto simp: required_bars_def)
  have lb: "real_bar as_of (last bars)" using real ne by simp
  have cur: "\<forall>c \<in> set (current_session bars). real_bar as_of c" using real by (simp add: current_session_def)
  note n = plan_numbers[OF fc fin[folded bars_def] cur lb _ p(1)[unfolded v_def]]
  have g: "g = e_signal p v" by (rule judge_signal(5)[OF p(2)])
  then have t: "sg_timestamp g = ca_end_time (last bars)" by (simp add: e_signal_def Let_def v_def)
  have "accepted C p (vi_price v)"
    by (rule judge_accepted[OF p(2) fc]) (use n p(5) fin in \<open>simp_all add: v_def bars_def\<close>)
  then show ?thesis using e an(1,2) p(1,3,4) g lb v_def unfolding bars_def[symmetric] t by (auto simp: not_stale)
qed

text \<open>A day of two bars, then a session that breaks its swing high of 310 at its fifth bar.\<close>

definition five :: "int \<Rightarrow> int \<Rightarrow> pyfloat \<Rightarrow> pyfloat \<Rightarrow> pyfloat \<Rightarrow> pyfloat \<Rightarrow> candle" where
  "five day minute opening high low closing = (let t = seconds (day * 86400 + minute * 60 - 19800) in
     \<lparr>ca_instrument_id = ''NIFTY-FUT-2026-01-29'', ca_interval = ''5m'', ca_start_time = t, ca_end_time = t + minutes 5,
      ca_open = opening, ca_high = high, ca_low = low, ca_close = closing, ca_volume = 10, ca_open_interest = 0,
      ca_source = ''BREEZE''\<rparr>)"

definition e_session :: "candle list" where
  "e_session = [five 1 600 (Fin 300) (Fin 305) (Fin 295) (Fin 300), five 1 605 (Fin 300) (Fin 310) (Fin 290) (Fin 300),
     five 1 610 (Fin 300) (Fin 309) (Fin 285) (Fin 306), five 1 615 (Fin 306) (Fin 308) (Fin 288) (Fin 304),
     five 1 620 (Fin 304) (Fin 312) (Fin 276) (Fin 312)]"

definition e_yesterday :: "candle list" where
  "e_yesterday = [five 0 600 (Fin 300) (Fin 400) (Fin 200) (Fin 300), five 0 605 (Fin 300) (Fin 400) (Fin 200) (Fin 300)]"

definition e_bars :: "candle list" where "e_bars = e_yesterday @ e_session"

definition e_time :: timestamp where "e_time = seconds (86400 + 37500 - 19800)"

definition demo_e_config :: e_config where
  "demo_e_config = \<lparr>ec_countertrend_enabled = True, ec_swing_lookback = 1, ec_volume_lookback = 5, ec_rvol_confirmation = Fin 1,
     ec_sr_lookback_bars = 30, ec_sr_buffer_points = Fin 2, ec_counter_zone_points = Fin 6, ec_stop_buffer_points = Fin 2,
     ec_max_stop_points = Fin 30, ec_trend_target_points = Fin 29, ec_counter_target_points = Fin 12, ec_min_reward_risk = Fin 1,
     ec_min_room_to_level_points = Fin 6, ec_chop_lookback_bars = 6, ec_chop_cross_threshold = 2,
     ec_flat_vwap_lookback_bars = 3, ec_flat_vwap_threshold_points = Fin 3, ec_max_signal_age_seconds = Fin 180,
     ec_entry_start = (9, 25), ec_entry_end = (14, 45)\<rparr>"

lemma e_demo_bars:
  "valid_completed e_bars e_time = e_bars" "current_session e_bars = e_session" "previous_session e_bars = e_yesterday"
  "ca_end_time (last e_bars) = e_time" "confirmed_swings e_session 1 = ([(1, Fin 310)], [(2, Fin 285)])"
  "in_window e_time (9, 25) (14, 45)" "sum_list (map (\<lambda>c. max 0 (ca_volume c)) e_session) = 50"
  by code_simp+

lemma e_demo_levels:
  "last e_bars = five 1 620 (Fin 304) (Fin 312) (Fin 276) (Fin 312)" "before_last e_session = five 1 615 (Fin 306) (Fin 308) (Fin 288) (Fin 304)"
  "length e_session = 5" "max_of (map ca_high e_yesterday) = Fin 400" "min_of (map ca_low e_yesterday) = Fin 200"
  "max_of (map ca_high (take 3 e_session)) = Fin 310" "ca_close (last e_yesterday) = Fin 300"
  by code_simp+

lemma e_demo_vwap: "vwap_series e_session = replicate 5 (Fin 300)"
  by (simp add: vwap_series_def e_session_def five_def typical_def over_def float_eval numeral_eq_Suc Let_def)

definition e_demo_view :: e_view where
  "e_demo_view = make_view demo_e_config e_bars e_session e_yesterday"

lemma e_demo_crosses:
  "map (\<lambda>c. fsub (ca_close c) (Fin 300)) e_session = [Fin 0, Fin 0, Fin 6, Fin 4, Fin 12]"
  "map (\<lambda>(c, w). fsub (ca_close c) w) (zip e_session (replicate 5 (Fin 300))) = [Fin 0, Fin 0, Fin 6, Fin 4, Fin 12]"
  by (simp_all add: e_session_def five_def Let_def float_eval numeral_eq_Suc)

lemma e_demo_calm: "\<not> choppy demo_e_config e_session (replicate 5 (Fin 300)) (Fin 300)"
proof -
  have n: "cross_count [Fin 0, Fin 0, Fin 6, Fin 4, Fin 12] = 0" by code_simp
  have l: "lastn 6 e_session = e_session" "lastn 6 (replicate 5 (Fin 300)) = replicate 5 (Fin 300)"
    by (simp_all add: lastn_def e_demo_levels)
  have "ec_chop_lookback_bars demo_e_config = 6" "ec_chop_cross_threshold demo_e_config = 2" by (simp_all add: demo_e_config_def)
  then have "pivot_crosses demo_e_config e_session (Fin 300) = 0" "vwap_crosses demo_e_config e_session (replicate 5 (Fin 300)) = 0"
    using n by (simp_all only: pivot_crosses_def vwap_crosses_def l e_demo_crosses)
  then show ?thesis by (simp add: choppy_def Let_def demo_e_config_def)
qed

lemma e_demo_view:
  "vi_price e_demo_view = Fin 312" "vi_pivot e_demo_view = Fin 300" "vi_vwaps e_demo_view = replicate 5 (Fin 300)"
  "vi_established_highs e_demo_view = [Fin 310, Fin 310, Fin 400]" "\<not> vi_choppy e_demo_view"
  "vi_session e_demo_view = e_session" "vi_latest e_demo_view = last e_bars"
  "vi_highs e_demo_view = [(1, Fin 310)]" "vi_lows e_demo_view = [(2, Fin 285)]"
proof -
  have c: "ec_swing_lookback demo_e_config = 1" "ec_sr_lookback_bars demo_e_config = 30" by (simp_all add: demo_e_config_def)
  have p: "day_pivot e_yesterday = Fin 300" by (simp add: day_pivot_def e_demo_levels over_def float_eval)
  have h: "established max_of ca_high demo_e_config e_session e_yesterday [(1, Fin 310)] = [Fin 310, Fin 310, Fin 400]"
    by (simp add: established_def c e_demo_levels)
  show "vi_price e_demo_view = Fin 312" "vi_pivot e_demo_view = Fin 300" "vi_vwaps e_demo_view = replicate 5 (Fin 300)"
    "vi_established_highs e_demo_view = [Fin 310, Fin 310, Fin 400]" "\<not> vi_choppy e_demo_view"
    "vi_session e_demo_view = e_session" "vi_latest e_demo_view = last e_bars"
    "vi_highs e_demo_view = [(1, Fin 310)]" "vi_lows e_demo_view = [(2, Fin 285)]"
    using e_demo_calm h p
    by (simp_all add: e_demo_view_def make_view_def Let_def c e_demo_bars(5)[simplified] e_demo_vwap e_demo_levels(1) five_def)
qed

lemma e_demo_plan:
  "\<exists>p. first_plan demo_e_config e_demo_view = Some p \<and> sd_signal (judge demo_e_config e_demo_view p) = Some (e_signal p e_demo_view)
    \<and> pl_type p = ''TREND_LONG'' \<and> pl_stop p = Fin 283 \<and> pl_target p = Fin 341"
proof -
  have r: "nearest_above (Fin 312) [Fin 310, Fin 310, Fin 400] = Some (Fin 400)" by code_simp
  have "vi_resistance e_demo_view = Some (Fin 400)" using r e_demo_view(1,4)
    by (simp add: e_demo_view_def make_view_def Let_def)
  then have t: "trend_long demo_e_config e_demo_view = Some \<lparr>pl_type = ''TREND_LONG'', pl_long = True, pl_stop = Fin 283,
      pl_target = Fin 341, pl_swing_low = Some (Fin 285), pl_swing_high = Some (Fin 310), pl_extra = [],
      pl_invalid = ''INVALID_TREND_LONG_STOP'', pl_no_room = ''INSUFFICIENT_ROOM_TO_RESISTANCE''\<rparr>"
    by (simp add: trend_long_def Let_def e_demo_view vi_vwap_def e_demo_levels broken_level_def capped_target_def
        demo_e_config_def five_def float_eval pmin_def)
  then show ?thesis
    by (simp add: first_plan_def judge_def risk_of_def reward_of_def e_demo_view demo_e_config_def Let_def float_eval over_def)
qed

lemma e_demo_signal:
  "\<exists>g. sd_signal (snd (e_evaluate demo_e_config e_time (Some e_time) e_bars e_init)) = Some g"
proof -
  obtain p where p: "first_plan demo_e_config e_demo_view = Some p"
    "sd_signal (judge demo_e_config e_demo_view p) = Some (e_signal p e_demo_view)" using e_demo_plan by blast
  have "required_bars demo_e_config = 7" "length e_bars = 7" "e_yesterday \<noteq> []" by code_simp+
  then have "snd (e_evaluate demo_e_config e_time (Some e_time) e_bars e_init) = judge demo_e_config e_demo_view p"
    using p(1) e_demo_view(5-7)
    by (simp add: e_evaluate_def e_demo_bars Let_def e_init_def analyse_def stale_def decide_def e_demo_view_def[symmetric]
        e_demo_levels(3) demo_e_config_def[THEN arg_cong[where f = ec_entry_start]] demo_e_config_def[THEN arg_cong[where f = ec_entry_end]]
        demo_e_config_def[THEN arg_cong[where f = ec_swing_lookback]])
  then show ?thesis using p(2) by simp
qed

theorem e_signal_sound_witness:
  "\<exists>g p. sd_signal (snd (e_evaluate demo_e_config e_time (Some e_time) e_bars e_init)) = Some g
    \<and> sg_timestamp g = e_time \<and> accepted demo_e_config p (Fin 312) \<and> g = e_signal p e_demo_view"
proof -
  obtain g where g: "sd_signal (snd (e_evaluate demo_e_config e_time (Some e_time) e_bars e_init)) = Some g"
    using e_demo_signal by blast
  have "config_finite demo_e_config" by code_simp
  moreover have "is_fin (ca_close (last (valid_completed e_bars e_time)))"
    by (simp add: e_demo_bars e_demo_levels five_def is_fin_def Let_def)
  ultimately obtain p where "sg_timestamp g = e_time" "accepted demo_e_config p (vi_price e_demo_view)" "g = e_signal p e_demo_view"
    using e_signal_sound[OF prod.collapse[symmetric] g]
    by (auto simp: e_demo_bars e_demo_view_def[symmetric] e_demo_view(1) simp del: view_sel)
  then show ?thesis using g e_demo_view(1) by auto
qed

text \<open>
  The analysis shown to the user is the decision the live evaluation takes: on a bar the engine has
  not processed both give the same decision, and the analysis leaves the engine as it was, so the live
  evaluation that follows still takes the bar, once.
\<close>

theorem e_analysis_agrees:
  assumes "es_last_processed s \<noteq> Some (ca_end_time (last (valid_completed futures as_of)))"
  shows "snd (e_evaluate C as_of expected futures s) = analyze_snapshot C as_of expected futures
    \<and> (required_bars C \<le> length (valid_completed futures as_of) \<longrightarrow>
       (let s' = fst (e_evaluate C as_of expected futures s) in
        e_evaluate C as_of expected futures s' = (s', no_trade ''NO_NEW_COMPLETED_5M_BAR'' (sd_metrics (es_last_decision s')))))"
  using assms by (simp add: analyze_snapshot_def e_evaluate_def e_init_def Let_def)

theorem e_analysis_agrees_witness:
  "snd (e_evaluate demo_e_config e_time (Some e_time) e_bars e_init) = analyze_snapshot demo_e_config e_time (Some e_time) e_bars"
  using e_analysis_agrees[of e_init e_bars e_time demo_e_config "Some e_time"] by (simp add: e_init_def)

text \<open>Swings: confirmed ones do not change when bars are added.\<close>

lemma swing_at_append:
  assumes "wing \<le> i" "i + wing < length cs"
  shows "swing_high_at (cs @ ds) wing i = swing_high_at cs wing i" "swing_low_at (cs @ ds) wing i = swing_low_at cs wing i"
  using assms by (simp_all add: swing_high_at_def swing_low_at_def nth_append)

lemma places_split: "wing \<le> (n :: nat) - wing \<Longrightarrow> n \<le> m \<Longrightarrow> [wing..<m - wing] = [wing..<n - wing] @ [n - wing..<m - wing]"
  by (metis diff_le_mono le_add_diff_inverse upt_add_eq_append)

text \<open>
  A confirmed swing is never repainted: with more bars the swings found before stay, with their
  levels, and what is new stands at a bar that had not enough bars after it to be confirmed.
\<close>

theorem e_swings_never_repaint:
  "\<exists>hs ls. confirmed_swings (cs @ ds) wing = (fst (confirmed_swings cs wing) @ hs, snd (confirmed_swings cs wing) @ ls)
    \<and> fst ` (set hs \<union> set ls) \<subseteq> {i. length cs \<le> i + wing}"
proof (cases "length cs < 2 * wing + 1")
  case True
  define hs where "hs = fst (confirmed_swings (cs @ ds) wing)"
  define ls where "ls = snd (confirmed_swings (cs @ ds) wing)"
  have "confirmed_swings cs wing = ([], [])" using True by (simp add: confirmed_swings_def)
  moreover have "fst ` (set hs \<union> set ls) \<subseteq> {i. length cs \<le> i + wing}" using True
    by (auto simp: hs_def ls_def confirmed_swings_def Let_def split: if_splits)
  ultimately show ?thesis by (intro exI[of _ hs] exI[of _ ls]) (simp add: hs_def ls_def)
next
  case False
  let ?old = "[wing..<length cs - wing]" and ?new = "[length cs - wing..<length (cs @ ds) - wing]"
  let ?H = "\<lambda>i. (i, ca_high ((cs @ ds) ! i))" and ?L = "\<lambda>i. (i, ca_low ((cs @ ds) ! i))"
  have p: "[wing..<length (cs @ ds) - wing] = ?old @ ?new" by (rule places_split) (use False in simp_all)
  have f: "filter (swing_high_at (cs @ ds) wing) ?old = filter (swing_high_at cs wing) ?old"
    "filter (swing_low_at (cs @ ds) wing) ?old = filter (swing_low_at cs wing) ?old"
    by (rule filter_cong; auto simp: swing_at_append)+
  have m: "map ?H (filter P ?old) = map (\<lambda>i. (i, ca_high (cs ! i))) (filter P ?old)"
    "map ?L (filter P ?old) = map (\<lambda>i. (i, ca_low (cs ! i))) (filter P ?old)" for P
    by (auto simp: nth_append)
  have "confirmed_swings (cs @ ds) wing =
      (fst (confirmed_swings cs wing) @ map ?H (filter (swing_high_at (cs @ ds) wing) ?new),
       snd (confirmed_swings cs wing) @ map ?L (filter (swing_low_at (cs @ ds) wing) ?new))"
    using False p f m by (simp add: confirmed_swings_def Let_def)
  then show ?thesis by (rule_tac exI, rule_tac exI, rule_tac conjI, assumption) auto
qed

end
