(* ===== verification/Controls.thy ===== *)
theory Controls imports Authority TrendPullback PivotScalp begin

text \<open>
  What an operator does to the strategy service beside its cycle, \<^verbatim>\<open>services/strategy/service.py\<close>: the
  execution mode, the configuration, arming, the kill switch, forced entries and restarts; and the
  runs of the service under all of them.
\<close>

section \<open>The service and its controls\<close>

record service =
  sv_engine :: engine
  sv_mode :: auto_mode
  sv_auto_trade :: bool
  sv_kill :: bool
  sv_a :: a_state
  sv_e :: e_state

definition sv_work :: "service \<Rightarrow> work" where "sv_work s = en_work (sv_engine s)"

definition sv_on_work :: "(work \<Rightarrow> work) \<Rightarrow> service \<Rightarrow> service" where
  "sv_on_work f s = s\<lparr>sv_engine := on_work f (sv_engine s)\<rparr>"

text \<open>The switches of a configuration; its other fields are parameters of the definitions that read them.\<close>

record switches =
  nc_mode :: auto_mode
  nc_armed :: bool
  nc_auto_trade :: bool
  nc_kill :: bool

definition arm_system :: "bool \<Rightarrow> service \<Rightarrow> service" where
  "arm_system armed s = sv_on_work (\<lambda>w. call (Decision ''SECURITY'' (if armed then ''System live trading ARMED'' else ''System live trading DISARMED''))
     (call SaveConfig (w\<lparr>wk_armed := armed\<rparr>))) s"

definition set_auto_trade :: "bool \<Rightarrow> service \<Rightarrow> service" where
  "set_auto_trade enabled s = sv_on_work (\<lambda>w. call (Decision ''CONFIG'' (if enabled then ''Auto-trading execution ENABLED'' else ''Auto-trading execution DISABLED''))
     (call SaveConfig w)) (s\<lparr>sv_auto_trade := enabled\<rparr>)"

definition toggle_kill_switch :: "bool \<Rightarrow> service \<Rightarrow> service" where
  "toggle_kill_switch active s =
     (let s1 = s\<lparr>sv_kill := active\<rparr>;
          s2 = (if active then sv_on_work (\<lambda>w. w\<lparr>wk_armed := False\<rparr>) (s1\<lparr>sv_auto_trade := False\<rparr>) else s1)
      in sv_on_work (\<lambda>w. call (Decision ''EMERGENCY'' (if active then ''Emergency Kill Switch ACTIVATED'' else ''Emergency Kill Switch DEACTIVATED''))
           (call SaveConfig w)) s2)"

text \<open>A new configuration rebuilds the strategies; A and E get back what they export.\<close>

definition update_config :: "timestamp \<Rightarrow> switches \<Rightarrow> service \<Rightarrow> service \<times> (exn + unit)" where
  "update_config now n s =
     (let w = sv_work s in
      if wk_cache w \<noteq> [] \<and> nc_mode n \<noteq> sv_mode s
      then (s, Inl (ValueError ''Cannot switch trading mode while positions are active.''))
      else if nc_mode n = AUTO_LIVE \<and> sv_mode s \<noteq> AUTO_LIVE \<and> (wk_armed w \<or> nc_armed n)
      then (s, Inl (ValueError ''System must be DISARMED before switching strategy mode to LIVE.''))
      else (sv_on_work (\<lambda>w. call (Decision ''CONFIG'' ''Auto-trading configuration updated'')
              (call SaveConfig (call SaveRuntime (call (StrategyBReset now) (w\<lparr>wk_armed := nc_armed n\<rparr>)))))
            (s\<lparr>sv_mode := nc_mode n, sv_auto_trade := nc_auto_trade n, sv_kill := nc_kill n,
               sv_a := restore_state (export_state (sv_a s)) a_init, sv_e := e_restore (e_export (sv_e s)) e_init\<rparr>), Inr ()))"

definition set_execution_mode :: "timestamp \<Rightarrow> auto_mode \<Rightarrow> service \<Rightarrow> service \<times> (exn + unit)" where
  "set_execution_mode now m s =
     (if m = AUTO_DISABLED then (s, Inl (ValueError ''DISABLED is not available from the trading-mode switch.''))
      else if active_trades (sv_work s) \<noteq> [] \<and> m \<noteq> sv_mode s
      then (s, Inl (ValueError ''Cannot switch trading mode while positions are active.''))
      else (let s1 = (if wk_armed (sv_work s) then arm_system False s else s) in
        update_config now \<lparr>nc_mode = m, nc_armed = False, nc_auto_trade = sv_auto_trade s1, nc_kill = sv_kill s1\<rparr> s1))"

text \<open>
  \<^verbatim>\<open>initialize\<close>, from the saved configuration and the saved states of the strategies: never armed, the
  trades read again, and the two repairs of strategy A.
\<close>

definition repair_a :: "timestamp \<Rightarrow> live_trade list \<Rightarrow> a_state \<Rightarrow> (a_state \<times> (exn + unit)) option" where
  "repair_a now trades a =
     (let mine = filter (\<lambda>t. tr_strategy (lt_core t) = TREND_PULLBACK) trades; st = ss_state (as_snapshot a) in
      if st = ENTERED \<and> mine = [] then Some (on_execution_rejected now ''RECOVERED_PHANTOM_ENTERED_STATE'' a)
      else if st = ARMED \<and> mine \<noteq> [] then Some (confirm_entry (Min ((\<lambda>t. tr_entry_time (lt_core t)) ` set mine)) a)
      else None)"

definition initialize :: "timestamp \<Rightarrow> switches \<Rightarrow> state_snapshot \<times> timestamp option \<times> string option
    \<Rightarrow> timestamp option \<times> string \<times> string \<times> metrics \<Rightarrow> service \<Rightarrow> service \<times> (exn + unit)" where
  "initialize now saved runtime_a runtime_e s =
     (let w = refresh_cache ((sv_work s)\<lparr>wk_armed := False, wk_last_loss_exit := None\<rparr>);
          a = restore_state runtime_a a_init;
          s1 = \<lparr>sv_engine = (sv_engine s)\<lparr>en_work := if nc_armed saved then call SaveConfig w else w\<rparr>, sv_mode = nc_mode saved,
            sv_auto_trade = nc_auto_trade saved, sv_kill = nc_kill saved, sv_a = a, sv_e = e_restore runtime_e e_init\<rparr> in
      case repair_a now (active_trades (sv_work s1)) a of
        None \<Rightarrow> (s1, Inr ())
      | Some (a', Inl e) \<Rightarrow> (s1\<lparr>sv_a := a'\<rparr>, Inl e)
      | Some (a', Inr _) \<Rightarrow> (sv_on_work (call SaveRuntime) (s1\<lparr>sv_a := a'\<rparr>), Inr ()))"

section \<open>A forced entry\<close>

text \<open>
  The request, with the fallbacks for a missing spot price: the last quote of the index and the last
  close.  A cycle gives the features, the market status, the chain and the desk.
\<close>

record force_request =
  fq_strategy :: strategy_name
  fq_direction :: trade_direction
  fq_right :: "option_right option"
  fq_premium_cap :: "pyfloat option"
  fq_quote :: "pyfloat option"
  fq_last_close :: "pyfloat option"

definition positive_or :: "pyfloat option \<Rightarrow> pyfloat \<Rightarrow> pyfloat" where
  "positive_or x d = (case x of None \<Rightarrow> d | Some v \<Rightarrow> if flt (Fin 0) v then v else d)"

definition force_spot :: "cycle \<Rightarrow> force_request \<Rightarrow> pyfloat" where
  "force_spot y q =
     (if fq_strategy q = TREND_PULLBACK then positive_or (Some (mf_futures_price (ey_features y))) (Fin 0)
      else (let spot = positive_or (Some (mf_spot_price (ey_features y))) (Fin 0);
                quoted = (if fle spot (Fin 0) then positive_or (fq_quote q) spot else spot)
            in if fle quoted (Fin 0) then (case fq_last_close q of None \<Rightarrow> quoted | Some c \<Rightarrow> c) else quoted))"

definition force_right :: "force_request \<Rightarrow> option_right" where
  "force_right q = (case fq_right q of Some r \<Rightarrow> r | None \<Rightarrow> if fq_direction q = BULLISH then CALL else PUT)"

text \<open>The manual thesis as a signal: a stop 0.85 ATR away.\<close>

definition force_signal :: "cycle \<Rightarrow> force_request \<Rightarrow> pyfloat \<Rightarrow> strategy_signal" where
  "force_signal y q spot =
     (let atr = pmax (Fin 10) (positive_or (Some (mf_atr_5m (ey_features y))) (Fin 15));
          away = fmul (flit (85 / 100)) atr; bull = (fq_direction q = BULLISH);
          stop = fround 2 (if bull then fsub spot away else fadd spot away)
      in \<lparr>sg_signal_id = [], sg_strategy = fq_strategy q, sg_direction = fq_direction q, sg_option_type = force_right q,
          sg_timestamp = ey_now y, sg_spot_reference_price = spot, sg_underlying_entry_price = Some spot,
          sg_structural_stop = stop, sg_r_points = fround 2 (if bull then fsub spot stop else fsub stop spot),
          sg_snapshot = no_snapshot\<rparr>)"

definition force_contract :: "cycle \<Rightarrow> force_request \<Rightarrow> pyfloat \<Rightarrow> exn + (selected_contract option \<times> string option)" where
  "force_contract y q spot =
     (case select_contract (se_selection (ey_settings y)) (dk_now (ey_desk y) 12) (ey_utc_offset y) (fq_direction q) (Some spot)
             (ey_chain y) (either_price (fq_premium_cap q) (se_premium_cap (ey_settings y))) None (Some (Aware (ey_now y)))
             (fq_strategy q = TREND_PULLBACK) of
        Inl e \<Rightarrow> Inl e
      | Inr (contract, _, why) \<Rightarrow>
          if fq_strategy q = TREND_PULLBACK \<and> \<not> real_source (ey_chain_source y)
          then Inr (None, Some (case ey_chain_rejection y of None \<Rightarrow> ''NO_REAL_OPTION_QUOTE'' | Some s \<Rightarrow> s))
          else Inr (contract, why))"

definition force_size :: "cycle \<Rightarrow> strategy_signal \<Rightarrow> pyfloat \<Rightarrow> selected_contract \<Rightarrow> exn + (int \<times> int)" where
  "force_size y sg spot c =
     (let r = dk_risk (ey_desk y) in
      if sg_strategy sg = TREND_PULLBACK
      then map_sum id (\<lambda>z. (re_lots z, re_quantity z))
        (size_trade r spot (sg_structural_stop sg) (sc_delta c) (sc_lot_size c) (sc_ask_price c) (Some (rk_account_equity r)) None)
      else calculate_position_size r (sc_ask_price c) (rk_account_equity r) (sc_lot_size c))"

definition forced_trade :: "cycle \<Rightarrow> auto_mode \<Rightarrow> strategy_signal \<Rightarrow> pyfloat \<Rightarrow> selected_contract \<Rightarrow> int \<Rightarrow> int \<Rightarrow> live_trade" where
  "forced_trade y m sg spot c lots quantity =
     (let t = new_trade (dk_risk (ey_desk y)) (ey_now y) m sg spot (ey_chain_source y) c lots quantity; a = (sg_strategy sg = TREND_PULLBACK) in
      t\<lparr>lt_trade_id := ''TRD-FORCED-'' @ show_int (ey_now y div seconds 1), lt_signal_id := None,
        lt_core := (if a then lt_core t else (lt_core t)\<lparr>tr_underlying_entry_price := None, tr_underlying_current_price := None,
          tr_underlying_r := None\<rparr>)\<rparr>)"

definition force_open :: "cycle \<Rightarrow> live_trade \<Rightarrow> selected_contract \<Rightarrow> work \<Rightarrow> (string \<times> details) act" where
  "force_open y t c w =
     (let d = ey_desk y; w1 = save_trade (w\<lparr>wk_trade := t\<rparr>); w2 = w1\<lparr>wk_cache := wk_cache w1 @ [lt_trade_id t]\<rparr>;
          w3 = (if lt_mode t = AUTO_LIVE then w2 else record_execution (paper_entry d (ey_now y) (ey_chain_source y) t) w2);
          w4 = call (Decision ''ORDER'' ''FORCED ENTRY TRIGGERED'') w3;
          opened = (\<lambda>w. (call (TradeOpened (lt_trade_id t)) w, Inr (''TRADE_OPENED'', [(''trade'', GText (lt_trade_id t))]))) in
      if lt_mode t \<noteq> AUTO_LIVE then opened w4
      else andthen (oms_create d (entry_intent d c t) w4) (\<lambda>ord w5.
        opened (save_trade (upd (\<lambda>t. t\<lparr>lt_entry_order_id := Some (bo_order_id ord),
          lt_core := (lt_core t)\<lparr>tr_state := ENTRY_PENDING\<rparr>\<rparr>) w5))))"

definition force_execute :: "cycle \<Rightarrow> force_request \<Rightarrow> pyfloat \<Rightarrow> work \<Rightarrow> (string \<times> details) act" where
  "force_execute y q spot w =
     (let sg = force_signal y q spot; m = signal_mode y sg in
      case force_contract y q spot of
        Inl e \<Rightarrow> (w, Inl e)
      | Inr (None, why) \<Rightarrow> (call (Decision ''FORCE_ENTRY'' ''Forced entry failed'') w, Inr (reasoned ''CONTRACT_SELECTION_FAILED'' why))
      | Inr (Some c, _) \<Rightarrow>
          (case force_size y sg spot c of
             Inl e \<Rightarrow> (w, Inl e)
           | Inr (lots, quantity) \<Rightarrow>
               if lots < 1 then (w, Inr (''INSUFFICIENT_CAPITAL_OR_RISK_BUDGET'', []))
               else if m = AUTO_LIVE \<and> \<not> dk_live_orders_enabled (ey_desk y) then (w, Inr (''LIVE_TRADING_DISABLED'', []))
               else if m = AUTO_LIVE \<and> \<not> wk_armed w
               then (call (Decision ''SECURITY'' ''Forced LIVE order execution blocked: System is not ARMED'') w,
                 Inr (''LIVE_SYSTEM_NOT_ARMED'', []))
               else force_open y (forced_trade y m sg spot c lots quantity) c w))"

definition force_fresh :: "cycle \<Rightarrow> force_request \<Rightarrow> bool" where
  "force_fresh y q = (if fq_strategy q = TREND_PULLBACK then ms_a_fresh (ey_market y) else ms_b_fresh (ey_market y))"

definition refusal_status :: "strategy_name \<Rightarrow> string" where
  "refusal_status s = (if s = TREND_PULLBACK then ''STRATEGY_A_FORCE_ENTRY_DISABLED''
     else if candidate_strategy s then ''FROZEN_CANDIDATE_FORCE_ENTRY_DISABLED'' else ''EXECUTION_POLICY_FORCE_ENTRY_DISABLED'')"

definition force_entry :: "cycle \<Rightarrow> force_request \<Rightarrow> work \<Rightarrow> (string \<times> details) act" where
  "force_entry y q w =
     (let policy = resolve_strategy_execution_policy (fq_strategy q) (se_mode (ey_settings y)); spot = force_spot y q in
      if \<not> xp_force_entry_allowed policy then (w, Inr (refusal_status (fq_strategy q), [(''reason'', GText ''FORCE_ENTRY_DISABLED_BY_POLICY'')]))
      else if \<not> (ms_feed_healthy (ey_market y) \<and> force_fresh y q)
      then (w, Inr (''ENTRY_DATA_UNHEALTHY'', [(''reason'', GTexts (rev (remdups (rev (ms_feed_reasons (ey_market y)
        @ (if force_fresh y q then [] else [if fq_strategy q = TREND_PULLBACK then ''STALE_OR_MISSING_FUTURES_15M_CANDLE''
            else ''STALE_OR_MISSING_SPOT_5M_CANDLE''])))))) ]))
      else if fle spot (Fin 0) then (w, Inr (''DATA_UNAVAILABLE'', [(''reason'', GText (if fq_strategy q = TREND_PULLBACK
        then ''Missing real futures price'' else ''Missing real spot price''))]))
      else force_execute y q spot w)"

section \<open>Commands\<close>

text \<open>
  What can happen to the service, one thing after another: the controls, restarts, cycles (with the
  states its strategies have afterwards), forced entries, manual exits, and the work of the OMS.  A
  cycle and a forced entry read the switches of the service.
\<close>

datatype command =
  Arm bool
| AutoTrade bool
| KillSwitch bool
| Configure timestamp switches
| SwitchMode timestamp auto_mode
| Restart timestamp switches "state_snapshot \<times> timestamp option \<times> string option" "timestamp option \<times> string \<times> string \<times> metrics"
| RunCycle cycle a_state e_state
| ForceEntry cycle force_request
| ManualExit desk cycle_input string message
| OmsWork env oms_op

definition under :: "service \<Rightarrow> cycle \<Rightarrow> cycle" where
  "under s y = y\<lparr>ey_settings := (ey_settings y)\<lparr>se_mode := sv_mode s, se_auto_trade_enabled := sv_auto_trade s,
     se_kill_switch := sv_kill s\<rparr>\<rparr>"

fun perform :: "command \<Rightarrow> service \<Rightarrow> service" where
  "perform (Arm b) s = arm_system b s"
| "perform (AutoTrade b) s = set_auto_trade b s"
| "perform (KillSwitch b) s = toggle_kill_switch b s"
| "perform (Configure now n) s = fst (update_config now n s)"
| "perform (SwitchMode now m) s = fst (set_execution_mode now m s)"
| "perform (Restart now n a e) s = fst (initialize now n a e s)"
| "perform (RunCycle y a e) s = s\<lparr>sv_engine := fst (evaluate_cycle (under s y) (sv_engine s)), sv_a := a, sv_e := e\<rparr>"
| "perform (ForceEntry y q) s = sv_on_work (\<lambda>w. fst (force_entry (under s y) q w)) s"
| "perform (ManualExit d ci tid reason) s = sv_on_work (\<lambda>w. fst (manual_exit_trade d ci tid reason w)) s"
| "perform (OmsWork env op) s = sv_on_work (\<lambda>w. w\<lparr>wk_oms := oms_step env op (wk_oms w)\<rparr>) s"

section \<open>LIVE authority\<close>

text \<open>What may give authority to buy: arming, a configuration that says so, and orders of somebody else.\<close>

fun grants :: "command \<Rightarrow> bool" where
  "grants (Arm b) = b"
| "grants (Configure now n) = nc_armed n"
| "grants (OmsWork env op) = (\<exists>i. op = CreateOrder i)"
| "grants _ = False"

text \<open>What takes it away.\<close>

fun disarms :: "command \<Rightarrow> service \<Rightarrow> bool" where
  "disarms (Arm b) s = (\<not> b)"
| "disarms (KillSwitch b) s = b"
| "disarms (Restart now n a e) s = True"
| "disarms (SwitchMode now m) s = (snd (set_execution_mode now m s) = Inr ())"
| "disarms (Configure now n) s = (snd (update_config now n s) = Inr () \<and> \<not> nc_armed n)"
| "disarms _ s = False"

lemma outbox_purchases: "purchases (db\<lparr>od_outbox := ob\<rparr>) = purchases db" by (simp add: purchases_def)

lemma oms_work_purchases:
  assumes "\<not> grants (OmsWork env op)"
  shows "purchases (oms_step env op db) = purchases db"
proof (cases op)
  case (RiskEvent ev)
  then show ?thesis
    by (auto simp: handle_risk_decision_event_def Let_def split: option.splits sum.splits payload.splits list.splits prod.splits if_splits dest!: order_purchases)
next
  case (BrokerEvent ev)
  then show ?thesis
    by (auto simp: handle_broker_order_event_def Let_def split: option.splits sum.splits payload.splits list.splits prod.splits if_splits dest!: order_purchases)
next
  case (ReserveOrder oid)
  then show ?thesis
    by (auto simp: mark_order_submitting_def Let_def split: option.splits sum.splits prod.splits if_splits dest!: order_purchases)
next
  case OutboxPass
  then show ?thesis by (simp add: oms_outbox_pass_def outbox_purchases Let_def split: prod.split)
qed (use assms in auto)

lemma force_shut: "shut B w \<Longrightarrow> shut B (fst (force_entry y q w))"
  by (auto simp: force_entry_def force_execute_def force_open_def Let_def forced_trade_def new_trade_fields shut_def[of _ "w"]
      split: sum.splits option.splits prod.splits)

text \<open>The controls themselves order nothing, and only those above set the flag.\<close>

lemma sv_on_work_work [simp]: "sv_work (sv_on_work f s) = f (sv_work s)"
  by (simp add: sv_work_def sv_on_work_def on_work_def)

lemma sv_work_fields [simp]: "sv_work (s\<lparr>sv_mode := m\<rparr>) = sv_work s" "sv_work (s\<lparr>sv_auto_trade := b\<rparr>) = sv_work s"
  "sv_work (s\<lparr>sv_kill := k\<rparr>) = sv_work s" "sv_work (s\<lparr>sv_a := a\<rparr>) = sv_work s" "sv_work (s\<lparr>sv_e := e\<rparr>) = sv_work s"
  by (simp_all add: sv_work_def)

lemma shut_armed: "shut B (w\<lparr>wk_armed := b\<rparr>) \<longleftrightarrow> \<not> b \<and> purchases (wk_oms w) = B"
  by (simp add: shut_def)

lemma config_shut: "shut B (sv_work s) \<Longrightarrow> \<not> nc_armed n \<Longrightarrow> shut B (sv_work (fst (update_config now n s)))"
  by (simp add: update_config_def Let_def)

lemma initialize_work:
  "\<not> wk_armed (sv_work (fst (initialize now n a e s)))"
  "purchases (wk_oms (sv_work (fst (initialize now n a e s)))) = purchases (wk_oms (sv_work s))"
  by (simp_all add: initialize_def Let_def sv_work_def sv_on_work_def on_work_def call_def refresh_cache_def
      split: option.split prod.split sum.split)

lemma perform_shut:
  assumes "shut B (sv_work s)" "\<not> grants c"
  shows "shut B (sv_work (perform c s))"
proof (cases c)
  case (RunCycle y a e)
  then show ?thesis using cycle_shut[of B "sv_engine s" "under s y"] assms(1) by (simp add: sv_work_def)
next
  case (SwitchMode now m)
  have "shut B (sv_work (arm_system False s))" using assms(1) by (simp add: arm_system_def)
  then show ?thesis using SwitchMode assms(1) by (simp add: set_execution_mode_def Let_def config_shut)
next
  case (OmsWork env op)
  then show ?thesis using assms oms_work_purchases[of env op "wk_oms (sv_work s)"] by (simp add: shut_def)
qed (use assms in \<open>auto simp: arm_system_def set_auto_trade_def toggle_kill_switch_def Let_def config_shut force_shut manual_shut
  shut_def[of _ "sv_work (fst (initialize _ _ _ _ _))"] initialize_work shut_def[of _ "sv_work s"]\<close>)

lemma disarms_shut:
  assumes "disarms c s"
  shows "shut (purchases (wk_oms (sv_work s))) (sv_work (perform c s))"
proof (cases c)
  case (SwitchMode now m)
  let ?B = "purchases (wk_oms (sv_work s))"
  have a: "shut ?B (sv_work (arm_system False s))" by (simp add: arm_system_def shut_armed)
  have u: "\<not> wk_armed (sv_work s) \<Longrightarrow> shut ?B (sv_work s)" by (simp add: shut_def)
  show ?thesis using assms SwitchMode a u by (auto simp: set_execution_mode_def Let_def config_shut split: if_splits)
next
  case (Configure now n)
  then show ?thesis using assms by (auto simp: update_config_def Let_def shut_armed split: if_splits)
qed (use assms in \<open>auto simp: arm_system_def toggle_kill_switch_def Let_def shut_armed
  shut_def[of _ "sv_work (fst (initialize _ _ _ _ _))"] initialize_work\<close>)

text \<open>
  C8. Nobody buys without authority: after the kill switch, a disarming, a restart or a successful
  change of mode the service may run cycles, forced entries, manual exits, restarts and every control
  but arming, whatever raises in between and whatever the OMS does with the orders it has: it stays
  disarmed and puts no purchase into the OMS.
\<close>

theorem no_purchase_unarmed:
  assumes "disarms c s" "\<forall>k \<in> set cs. \<not> grants k"
  shows "let s' = fold perform cs (perform c s) in
    \<not> wk_armed (sv_work s') \<and> purchases (wk_oms (sv_work s')) = purchases (wk_oms (sv_work s))"
proof -
  let ?B = "purchases (wk_oms (sv_work s))"
  have "shut ?B (sv_work (fold perform cs s1))" if "shut ?B (sv_work s1)" for s1
    using assms(2) that by (induction cs arbitrary: s1) (auto intro: perform_shut)
  moreover have "shut ?B (sv_work (perform c s))" by (rule disarms_shut[OF assms(1)])
  ultimately show ?thesis by (simp add: shut_def Let_def)
qed

text \<open>A service in LIVE mode with a strategy A signal waiting, its kill switch pressed and released.\<close>

definition demo_service :: service where
  "demo_service = \<lparr>sv_engine = gate_engine, sv_mode = AUTO_LIVE, sv_auto_trade = True, sv_kill = False, sv_a = a_init, sv_e = e_init\<rparr>"

theorem no_purchase_unarmed_witness:
  "let s' = fold perform [KillSwitch False, AutoTrade True, RunCycle gate_cycle a_init e_init] (perform (KillSwitch True) demo_service) in
    \<not> wk_armed (sv_work s') \<and> purchases (wk_oms (sv_work s')) = []"
proof -
  have "purchases (wk_oms (sv_work demo_service)) = []"
    by (simp add: purchases_def demo_service_def sv_work_def gate_engine_def demo_work_def oms_empty_def)
  then show ?thesis
    using no_purchase_unarmed[of "KillSwitch True" demo_service "[KillSwitch False, AutoTrade True, RunCycle gate_cycle a_init e_init]"]
    unfolding Let_def by simp
qed

section \<open>What a forced entry checks\<close>

definition stored_by :: "cycle \<Rightarrow> force_request \<Rightarrow> work \<Rightarrow> live_trade \<Rightarrow> work \<Rightarrow> bool" where
  "stored_by y q w t w' \<longleftrightarrow> lt_mode t = se_mode (ey_settings y) \<and> lt_trade_id t = ''TRD-FORCED-'' @ show_int (ey_now y div seconds 1)
     \<and> tr_strategy (lt_core t) = fq_strategy q \<and> tr_direction (lt_core t) = fq_direction q \<and> open_trade t \<and> sale_refs t = []
     \<and> row_get lt_trade_id (lt_trade_id t) (wk_rows w') = Some t
     \<and> (\<forall>k. k \<noteq> lt_trade_id t \<longrightarrow> row_get lt_trade_id k (wk_rows w') = row_get lt_trade_id k (wk_rows w))
     \<and> (if lt_mode t = AUTO_LIVE then bought_for (ey_desk y) t (wk_oms w) (wk_oms w') else wk_oms w' = wk_oms w)"

lemma forced_fields:
  "lt_mode (forced_trade y m sg spot c lots q) = m" "lt_trade_id (forced_trade y m sg spot c lots q) = ''TRD-FORCED-'' @ show_int (ey_now y div seconds 1)"
  "open_trade (forced_trade y m sg spot c lots q)" "sale_refs (forced_trade y m sg spot c lots q) = []"
  "quantity_of (forced_trade y m sg spot c lots q) = q" "tr_strategy (lt_core (forced_trade y m sg spot c lots q)) = sg_strategy sg"
  "tr_direction (lt_core (forced_trade y m sg spot c lots q)) = sg_direction sg"
  by (simp_all add: forced_trade_def new_trade_def new_position_def Let_def open_trade_def refs_empty no_stop_def)

lemma thesis_fields: "sg_strategy (force_signal y q spot) = fq_strategy q" "sg_direction (force_signal y q spot) = fq_direction q"
  by (simp_all add: force_signal_def Let_def)

text \<open>The trade as it ends up in its row: in LIVE mode with its order.\<close>

definition with_order :: "string \<Rightarrow> live_trade \<Rightarrow> live_trade" where
  "with_order oid t = (if lt_mode t = AUTO_LIVE
     then t\<lparr>lt_entry_order_id := Some oid, lt_core := (lt_core t)\<lparr>tr_state := ENTRY_PENDING\<rparr>\<rparr> else t)"

lemma with_order_fields:
  "lt_mode (with_order oid t) = lt_mode t" "lt_trade_id (with_order oid t) = lt_trade_id t"
  "open_trade t \<Longrightarrow> open_trade (with_order oid t)" "sale_refs (with_order oid t) = sale_refs t" "quantity_of (with_order oid t) = quantity_of t"
  "tr_strategy (lt_core (with_order oid t)) = tr_strategy (lt_core t)" "tr_direction (lt_core (with_order oid t)) = tr_direction (lt_core t)"
  by (simp_all add: with_order_def open_trade_def sale_refs_def split: option.split)

lemma force_open_effect:
  assumes "force_open y t c w = (w', Inr v)"
  shows "\<exists>oid. row_get lt_trade_id (lt_trade_id t) (wk_rows w') = Some (with_order oid t)
    \<and> (\<forall>k. k \<noteq> lt_trade_id t \<longrightarrow> row_get lt_trade_id k (wk_rows w') = row_get lt_trade_id k (wk_rows w))
    \<and> (if lt_mode t = AUTO_LIVE then bought_for (ey_desk y) (with_order oid t) (wk_oms w) (wk_oms w') else wk_oms w' = wk_oms w)"
proof (cases "lt_mode t = AUTO_LIVE")
  case False
  then show ?thesis using assms
    by (auto simp: force_open_def Let_def save_trade_def call_def record_execution_def with_order_def get_replaced get_others)
next
  case True
  obtain x oc where o: "create_order_intent (dk_oms (ey_desk y)) (entry_intent (ey_desk y) c t) (wk_oms w) = (x, oc)" by (rule prod.exhaust)
  then obtain ord where x: "x = Some ord"
    using assms True by (cases x) (auto simp: force_open_def Let_def save_trade_def call_def andthen_def oms_create_def)
  let ?u = "with_order (bo_order_id ord) t"
  have w': "wk_rows w' = row_upsert lt_trade_id (\<lambda>old new. new) ?u (row_upsert lt_trade_id (\<lambda>old new. new) t (wk_rows w))"
    "wk_oms w' = oc_state oc"
    using assms True o x
    by (auto simp: force_open_def Let_def save_trade_def call_def andthen_def oms_create_def upd_def with_order_def)
  have "bought_for (ey_desk y) ?u (wk_oms w) (oc_state oc)"
    unfolding bought_for_def using o x True
    by (intro exI[of _ "entry_intent (ey_desk y) c t"] exI[of _ ord] exI[of _ oc])
      (simp add: entry_intent_def with_order_def)
  then show ?thesis using w' True
    by (intro exI[of _ "bo_order_id ord"]) (simp add: with_order_fields get_replaced get_others)
qed

lemma force_executed:
  assumes "force_execute y q spot w = (w', Inr (''TRADE_OPENED'', ds))"
  obtains c why lots n where "force_contract y q spot = Inr (Some c, why)" "force_size y (force_signal y q spot) spot c = Inr (lots, n)"
    "1 \<le> lots" "se_mode (ey_settings y) = AUTO_LIVE \<Longrightarrow> dk_live_orders_enabled (ey_desk y) \<and> wk_armed w"
    "force_open y (forced_trade y (se_mode (ey_settings y)) (force_signal y q spot) spot c lots n) c w = (w', Inr (''TRADE_OPENED'', ds))"
  using assms
  by (force simp: force_execute_def signal_mode_is Let_def reasoned_def split: sum.splits option.splits prod.splits if_splits)

text \<open>
  C33. A forced entry that opens a trade is one of strategy B, on a healthy feed with a fresh bar, at a
  price above zero, for a contract the selector chose and at least one lot; in LIVE mode orders are
  enabled and the system is armed, and exactly one purchase of the quantity of the trade goes into the
  OMS.  On paper the OMS is left alone, and in both modes every other trade is.
\<close>

theorem force_gated:
  assumes "force_entry y q w = (w', Inr (''TRADE_OPENED'', ds))"
  shows "fq_strategy q = VOLATILITY_BREAKOUT \<and> ms_feed_healthy (ey_market y) \<and> ms_b_fresh (ey_market y)
    \<and> (let spot = force_spot y q in \<not> fle spot (Fin 0)
        \<and> (\<exists>c why lots t. force_contract y q spot = Inr (Some c, why) \<and> 1 \<le> lots
            \<and> force_size y (force_signal y q spot) spot c = Inr (lots, quantity_of t) \<and> stored_by y q w t w'))
    \<and> (se_mode (ey_settings y) = AUTO_LIVE \<longrightarrow> dk_live_orders_enabled (ey_desk y) \<and> wk_armed w)"
proof -
  let ?spot = "force_spot y q" and ?m = "se_mode (ey_settings y)"
  let ?sg = "force_signal y q ?spot"
  have b: "fq_strategy q = VOLATILITY_BREAKOUT" "ms_feed_healthy (ey_market y)" "ms_b_fresh (ey_market y)" "\<not> fle ?spot (Fin 0)"
    "force_execute y q ?spot w = (w', Inr (''TRADE_OPENED'', ds))"
    using assms by (auto simp: force_entry_def Let_def resolve_strategy_execution_policy_def force_fresh_def refusal_status_def split: if_splits)
  obtain c why lots n where e: "force_contract y q ?spot = Inr (Some c, why)" "force_size y ?sg ?spot c = Inr (lots, n)" "1 \<le> lots"
    "?m = AUTO_LIVE \<Longrightarrow> dk_live_orders_enabled (ey_desk y) \<and> wk_armed w"
    "force_open y (forced_trade y ?m ?sg ?spot c lots n) c w = (w', Inr (''TRADE_OPENED'', ds))"
    by (rule force_executed[OF b(5)]) blast
  let ?t = "forced_trade y ?m ?sg ?spot c lots n"
  obtain oid where u: "row_get lt_trade_id (lt_trade_id ?t) (wk_rows w') = Some (with_order oid ?t)"
    "\<forall>k. k \<noteq> lt_trade_id ?t \<longrightarrow> row_get lt_trade_id k (wk_rows w') = row_get lt_trade_id k (wk_rows w)"
    "if lt_mode ?t = AUTO_LIVE then bought_for (ey_desk y) (with_order oid ?t) (wk_oms w) (wk_oms w') else wk_oms w' = wk_oms w"
    using force_open_effect[OF e(5)] by blast
  have "stored_by y q w (with_order oid ?t) w'"
    using u by (simp add: stored_by_def with_order_fields forced_fields thesis_fields)
  moreover have "quantity_of (with_order oid ?t) = n" by (simp add: with_order_fields forced_fields)
  ultimately have "\<exists>t. quantity_of t = n \<and> stored_by y q w t w'" by blast
  then show ?thesis using b(1-4) e(1-4) unfolding Let_def by blast
qed

text \<open>A paper cycle in which strategy B may be forced.\<close>

definition force_risk :: risk_limits where
  "force_risk = gate_risk\<lparr>rk_risk_per_trade_pct := Fin 100, rk_option_hard_stop_pct := Fin 100\<rparr>"

definition force_cycle :: cycle where
  "force_cycle = gate_cycle\<lparr>ey_market := (ey_market gate_cycle)\<lparr>ms_b_fresh := True\<rparr>, ey_desk := (demo_desk ''d'')\<lparr>dk_risk := force_risk\<rparr>\<rparr>"

definition force_b :: force_request where
  "force_b = \<lparr>fq_strategy = VOLATILITY_BREAKOUT, fq_direction = BULLISH, fq_right = None, fq_premium_cap = None, fq_quote = None,
     fq_last_close = None\<rparr>"

definition legacy_best :: leg_info where
  "legacy_best = judge_leg sample_selection False None ''2026-01-29''
     (inspect_leg (seconds (20472 * 86400)) sample_chain BULLISH (hd (oc_strikes sample_chain)))"

lemma legacy_selected:
  assumes "\<not> fle spot (Fin 0)"
  shows "select_contract sample_selection 0 0 BULLISH (Some spot) sample_chain None None (Some (Aware (seconds (20472 * 86400)))) False
    = Inr (Some (selected_of BULLISH 20472 [] legacy_best), [legacy_best], None)"
proof -
  have E: "eligible_expiries sample_selection 20472 [] sample_chain BULLISH = [''2026-01-29'']" by code_simp
  have c: "os_exchange_holidays sample_selection = []" "oc_holidays sample_chain = []"
    "oc_strikes sample_chain = [hd (oc_strikes sample_chain)]" "day_of 0 (seconds (20472 * 86400)) = 20472"
    by (simp_all add: sample_selection_def sample_chain_def day_of_def)
  have ne: "oc_strikes sample_chain \<noteq> []" by (simp add: sample_chain_def)
  have "li_status legacy_best = ''ELIGIBLE''"
    by (simp add: legacy_best_def judge_leg_def status_legacy_def inspect_leg_def Let_def the_leg_def leg_of_def leg_expiry_def
        sample_chain_def sample_leg_def empty_leg_def sample_selection_def num_or_zero_def opt_or_def f_or_def ftrue_def
        text_or_def time_or_def has_id_def leg_delta_def int_or_zero_def total_seconds_def flit_def float_eval)
  moreover have "inspected_legs sample_selection False None (seconds (20472 * 86400)) ''2026-01-29'' sample_chain BULLISH = [legacy_best]"
    unfolding inspected_legs_def by (subst c(3)) (simp add: legacy_best_def)
  moreover have "num_or_zero (Some spot) = spot \<or> fle spot (Fin 0)"
    by (cases spot) (auto simp: num_or_zero_def opt_or_def f_or_def ftrue_def)
  ultimately show ?thesis
    using assms c(1,2,4) E ne by (auto simp: select_contract_def select_at_def Let_def rank_candidates_def)
qed

lemma legacy_leg:
  "sc_lot_size (selected_of BULLISH 20472 [] legacy_best) = 75" "sc_ask_price (selected_of BULLISH 20472 [] legacy_best) = Fin 100"
  by (simp_all add: selected_of_def legacy_best_def judge_leg_def inspect_leg_def Let_def the_leg_def leg_of_def
      sample_chain_def sample_leg_def empty_leg_def num_or_zero_def opt_or_def f_or_def ftrue_def leg_delta_def int_or_zero_def)

lemma forced_opens:
  assumes "ey_features y = ey_features force_cycle" "ey_market y = ey_market force_cycle" "ey_chain y = ey_chain force_cycle"
    "ey_now y = ey_now force_cycle" "ey_utc_offset y = 0" "ey_desk y = ey_desk force_cycle"
    "se_selection (ey_settings y) = sample_selection" "se_premium_cap (ey_settings y) = None" "se_mode (ey_settings y) \<noteq> AUTO_LIVE"
  shows "\<exists>w' ds. force_entry y force_b w = (w', Inr (''TRADE_OPENED'', ds))"
proof -
  have s: "force_spot y force_b = Fin 120"
    by (simp add: force_spot_def assms force_b_def positive_or_def force_cycle_def gate_cycle_def PositionManager.demo_features_def Let_def)
  have c: "force_contract y force_b (Fin 120) = Inr (Some (selected_of BULLISH 20472 [] legacy_best), None)"
    using legacy_selected[of "Fin 120"]
    by (simp add: force_contract_def assms force_b_def force_cycle_def gate_cycle_def demo_desk_def either_price_def)
  have z: "force_size y (force_signal y force_b (Fin 120)) (Fin 120) (selected_of BULLISH 20472 [] legacy_best) = Inr (10, 750)"
    by (simp add: force_size_def assms thesis_fields force_b_def force_cycle_def force_risk_def gate_risk_def default_risk_limits_def
        legacy_leg calculate_position_size_def not_positive_def quot_def float_eval floor_quot_def Let_def)
  show ?thesis
    using s c z assms(9)
    by (simp add: force_entry_def resolve_strategy_execution_policy_def force_fresh_def assms(2) force_cycle_def gate_cycle_def
        force_execute_def signal_mode_is force_open_def forced_fields Let_def force_b_def[THEN arg_cong[where f = fq_strategy]])
qed

theorem force_gated_witness:
  "\<exists>w' t. fst (force_entry force_cycle force_b (en_work gate_engine)) = w' \<and> stored_by force_cycle force_b (en_work gate_engine) t w'"
proof -
  obtain w' ds where f: "force_entry force_cycle force_b (en_work gate_engine) = (w', Inr (''TRADE_OPENED'', ds))"
    using forced_opens[of force_cycle "en_work gate_engine"] by (auto simp: force_cycle_def gate_cycle_def)
  from force_gated[OF f] show ?thesis unfolding Let_def f fst_conv by blast
qed

text \<open>
  What a forced entry does not check: the kill switch, the automatic-trading flag, the mode DISABLED, the
  capacity, the cooldowns and the limits of the day.  Whatever the switches (but for LIVE), the open
  trades and the losses are, the request of the witness opens a trade.
\<close>

lemma force_ignores_controls:
  assumes "m \<noteq> AUTO_LIVE"
  shows "\<exists>w' ds. force_entry (force_cycle\<lparr>ey_settings := (ey_settings force_cycle)\<lparr>se_mode := m, se_auto_trade_enabled := b,
    se_kill_switch := k\<rparr>\<rparr>) force_b w = (w', Inr (''TRADE_OPENED'', ds))"
  by (rule forced_opens) (use assms in \<open>simp_all add: force_cycle_def gate_cycle_def\<close>)

text \<open>Arming under an active kill switch is accepted.\<close>

lemma armed_under_kill_switch:
  "let s' = perform (Arm True) (perform (KillSwitch True) s) in sv_kill s' \<and> wk_armed (sv_work s')"
  by (simp add: Let_def arm_system_def toggle_kill_switch_def sv_work_def sv_on_work_def on_work_def call_def)

text \<open>
  In LIVE mode a configuration that says so arms the system, on a service whose switch to LIVE requires
  it to be disarmed.
\<close>

lemma configured_armed:
  assumes "sv_mode s = AUTO_LIVE" "nc_mode n = AUTO_LIVE" "nc_armed n"
  shows "wk_armed (sv_work (perform (Configure now n) s))"
  using assms by (simp add: update_config_def Let_def sv_work_def sv_on_work_def on_work_def call_def)

end
