(* ===== verification/Breakout.thy ===== *)
theory Breakout imports PivotScalp begin

text \<open>
  Strategy B, \<^verbatim>\<open>services/strategy/strategies/volatility_breakout.py\<close>: a compression box is locked on completed
  five-minute bars, ages bar by bar, and is left by one breakout, an expiry or a reset.  The conditions
  and summaries shown to the user are left out, so \<^verbatim>\<open>diagnose\<close> (on a copy) is too.
\<close>

section \<open>Configuration, features and state\<close>

record b_config =
  bc_rvol_threshold :: pyfloat
  bc_min_confirmation_score :: int
  bc_min_available_confirmations :: int
  bc_bb_width_threshold :: pyfloat
  bc_box_max_height_atr :: pyfloat
  bc_lookback_bars :: nat
  bc_max_age_bars :: int
  bc_breakout_buffer_atr :: pyfloat
  bc_max_extension_atr :: pyfloat
  bc_entry_start :: time_of_day
  bc_entry_end :: time_of_day

text \<open>The overrides strategy B reads.\<close>

record overrides =
  ov_bb_width_percentile :: "pyfloat option"
  ov_box_max_height_atr :: "pyfloat option"
  ov_min_confirmation :: "int option"
  ov_min_available :: "int option"
  ov_rvol_threshold :: "pyfloat option"
  ov_max_age_bars :: "int option"
  ov_b_buffer_atr :: "pyfloat option"
  ov_buffer_atr :: "pyfloat option"
  ov_max_extension_atr :: "pyfloat option"
  ov_bull_score :: "pyfloat option"
  ov_bear_score :: "pyfloat option"
  ov_bypass_entry_window :: bool

record b_features = market_features +
  bf_breakout_data_ready :: bool
  bf_bb_width_percentile :: pyfloat
  bf_rvol_5m :: pyfloat
  bf_bullish_oi_wall :: bool
  bf_bearish_oi_wall :: bool

record compression_box =
  bx_high :: pyfloat
  bx_low :: pyfloat
  bx_height :: pyfloat
  bx_atr_at_lock :: pyfloat
  bx_bb_width_at_lock :: pyfloat
  bx_locked_at :: timestamp
  bx_created :: timestamp
  bx_bars_active :: int
  bx_max_bars :: int
  bx_is_locked :: bool

record b_targets =
  bt_bb :: pyfloat
  bt_height :: pyfloat
  bt_required :: int
  bt_available :: int
  bt_rvol :: pyfloat
  bt_max_age :: int
  bt_buffer :: pyfloat
  bt_extension :: pyfloat

definition setting :: "'a option \<Rightarrow> 'a \<Rightarrow> 'a" where
  "setting x default_value = (case x of None \<Rightarrow> default_value | Some v \<Rightarrow> v)"

definition targets :: "b_config \<Rightarrow> overrides \<Rightarrow> b_targets" where
  "targets C ov =
     \<lparr>bt_bb = setting (ov_bb_width_percentile ov) (bc_bb_width_threshold C),
      bt_height = setting (ov_box_max_height_atr ov) (bc_box_max_height_atr C),
      bt_required = setting (ov_min_confirmation ov) (bc_min_confirmation_score C),
      bt_available = setting (ov_min_available ov) (bc_min_available_confirmations C),
      bt_rvol = setting (ov_rvol_threshold ov) (bc_rvol_threshold C),
      bt_max_age = setting (ov_max_age_bars ov) (bc_max_age_bars C),
      bt_buffer = setting (ov_b_buffer_atr ov) (setting (ov_buffer_atr ov) (bc_breakout_buffer_atr C)),
      bt_extension = setting (ov_max_extension_atr ov) (bc_max_extension_atr C)\<rparr>"

text \<open>
  The settings a box depends on.  The text of a default score, an integer, differs from that of any
  override, a float.
\<close>

type_synonym fingerprint = "b_targets \<times> nat \<times> time_of_day \<times> time_of_day \<times> pyfloat option \<times> pyfloat option"

definition fingerprint_of :: "b_config \<Rightarrow> overrides \<Rightarrow> fingerprint" where
  "fingerprint_of C ov = (targets C ov, bc_lookback_bars C, bc_entry_start C, bc_entry_end C, ov_bull_score ov, ov_bear_score ov)"

record b_state =
  bs_box :: "compression_box option"
  bs_confirm_count :: int
  bs_confirm_direction :: "trade_direction option"
  bs_last_bar :: "timestamp option"
  bs_after :: "timestamp option"
  bs_session :: "int option"
  bs_fingerprint :: "fingerprint option"
  bs_consumed :: "string option"

definition b_init :: b_state where
  "b_init = \<lparr>bs_box = None, bs_confirm_count = 0, bs_confirm_direction = None, bs_last_bar = None, bs_after = None,
     bs_session = None, bs_fingerprint = None, bs_consumed = None\<rparr>"

text \<open>Everything is saved, and read back into a new engine.\<close>

definition b_export :: "b_state \<Rightarrow> b_state" where "b_export s = s"

definition b_restore :: "b_state \<Rightarrow> b_state \<Rightarrow> b_state" where "b_restore saved s = saved"

definition b_reset :: "timestamp option \<Rightarrow> b_state \<Rightarrow> b_state" where
  "b_reset tm s = s\<lparr>bs_box := None, bs_confirm_count := 0, bs_confirm_direction := None,
     bs_after := (case tm of None \<Rightarrow> bs_after s | Some t \<Rightarrow> Some t)\<rparr>"

section \<open>The bars\<close>

definition off_beat :: "int \<Rightarrow> bool" where
  "off_beat micros = flt (Fin 5) (fabs (fsub (total_seconds micros) (Fin 300)))"

definition broken_bar :: "timestamp \<Rightarrow> candle \<Rightarrow> bool" where
  "broken_bar now c \<longleftrightarrow> ca_source c \<notin> {''BREEZE'', ''KITE'', ''LIVE''} \<or> ca_interval c \<noteq> ''5m'' \<or> now < ca_end_time c
     \<or> off_beat (ca_end_time c - ca_start_time c)
     \<or> \<not> (flt (Fin 0) (ca_low c) \<and> fle (ca_low c) (pmin (ca_open c) (ca_close c))
          \<and> fle (pmin (ca_open c) (ca_close c)) (pmax (ca_open c) (ca_close c)) \<and> fle (pmax (ca_open c) (ca_close c)) (ca_high c))"

definition neighbours :: "'a list \<Rightarrow> ('a \<times> 'a) list" where "neighbours xs = zip xs (tl xs)"

definition contiguous :: "candle list \<Rightarrow> bool" where
  "contiguous cs \<longleftrightarrow> \<not> list_ex (\<lambda>(a, b). off_beat (ca_start_time b - ca_start_time a)) (neighbours cs)"

definition unusable :: "b_features \<Rightarrow> candle list \<Rightarrow> bool" where
  "unusable f bars \<longleftrightarrow> \<not> bf_breakout_data_ready f \<or> bars = [] \<or> fle (mf_atr_5m f) (Fin 0)
     \<or> list_ex (broken_bar (mf_timestamp f)) bars
     \<or> list_ex (\<lambda>(a, b). ca_start_time b \<le> ca_start_time a) (neighbours bars)
     \<or> (let age = total_seconds (mf_timestamp f - ca_end_time (last bars)) in \<not> (fle (Fin 0) age \<and> flt age (Fin 300)))"

section \<open>The box\<close>

definition tolerance :: pyfloat where "tolerance = flit (1 / 1000000000)"

definition box_window :: "b_config \<Rightarrow> int \<Rightarrow> timestamp option \<Rightarrow> candle list \<Rightarrow> candle list" where
  "box_window C day after bars = lastn (bc_lookback_bars C)
     (filter (\<lambda>c. ist_date (ca_start_time c) = day \<and> (case after of None \<Rightarrow> True | Some t \<Rightarrow> t < ca_end_time c)) bars)"

definition height_of :: "candle list \<Rightarrow> pyfloat" where
  "height_of w = fsub (max_of (map ca_high w)) (min_of (map ca_low w))"

definition suspicious :: "pyfloat \<Rightarrow> candle \<Rightarrow> bool" where
  "suspicious x c = flt (fmul (Fin 4) x) (fsub (ca_high c) (ca_low c))"

definition height_ok :: "b_targets \<Rightarrow> pyfloat \<Rightarrow> pyfloat \<Rightarrow> bool" where
  "height_ok T x h \<longleftrightarrow> flt (Fin 0) h \<and> fle h (fadd (fmul (bt_height T) x) tolerance)"

definition new_box :: "b_targets \<Rightarrow> b_features \<Rightarrow> timestamp \<Rightarrow> candle list \<Rightarrow> compression_box" where
  "new_box T f tm w = \<lparr>bx_high = max_of (map ca_high w), bx_low = min_of (map ca_low w), bx_height = height_of w,
     bx_atr_at_lock = mf_atr_5m f, bx_bb_width_at_lock = bf_bb_width_percentile f, bx_locked_at = tm, bx_created = tm,
     bx_bars_active = 0, bx_max_bars = bt_max_age T, bx_is_locked = True\<rparr>"

record b_outcome =
  bo_phase :: string
  bo_blocker :: string
  bo_signal :: "strategy_signal option"

definition waiting :: "string \<Rightarrow> string \<Rightarrow> b_outcome" where
  "waiting phase blocker = \<lparr>bo_phase = phase, bo_blocker = blocker, bo_signal = None\<rparr>"

definition seek_box :: "b_config \<Rightarrow> b_targets \<Rightarrow> b_features \<Rightarrow> candle list \<Rightarrow> b_state \<Rightarrow> b_state \<times> b_outcome" where
  "seek_box C T f bars s =
     (let tm = ca_end_time (last bars); w = box_window C (ist_date tm) (bs_after s) bars; atr = mf_atr_5m f in
      if length w < bc_lookback_bars C \<or> \<not> contiguous w then (s, waiting ''SEARCHING_COMPRESSION'' ''NO_COMPRESSION'')
      else if list_ex (suspicious atr) w then (s, waiting ''SEARCHING_COMPRESSION'' ''SUSPICIOUS_EXPANSION'')
      else if \<not> fle (bf_bb_width_percentile f) (fadd (bt_bb T) tolerance) then (s, waiting ''SEARCHING_COMPRESSION'' ''NO_COMPRESSION'')
      else if \<not> height_ok T atr (height_of w) then (s, waiting ''SEARCHING_COMPRESSION'' ''BOX_TOO_LARGE'')
      else (s\<lparr>bs_box := Some (new_box T f tm w), bs_confirm_count := 0, bs_confirm_direction := None\<rparr>, waiting ''BOX_LOCKED'' ''BOX_LOCKED''))"

text \<open>The bars since the box was locked; a gap before or between them makes it useless.\<close>

definition bars_since :: "compression_box \<Rightarrow> candle list \<Rightarrow> candle list" where
  "bars_since b bars = filter (\<lambda>c. bx_created b < ca_end_time c) bars"

definition gap_since :: "compression_box \<Rightarrow> candle list \<Rightarrow> bool" where
  "gap_since b bars \<longleftrightarrow> (let active = bars_since b bars in
     active \<noteq> [] \<and> (flt (Fin 5) (fabs (total_seconds (ca_start_time (hd active) - bx_created b))) \<or> \<not> contiguous active))"

section \<open>Confirmation\<close>

definition signed :: "bool \<Rightarrow> pyfloat \<Rightarrow> pyfloat" where "signed bull x = (if bull then x else fneg x)"

definition oi_evidence :: "bool \<Rightarrow> string \<Rightarrow> bool option" where
  "oi_evidence bull buildup =
     (if buildup \<in> {''UNKNOWN'', ''UNAVAILABLE'', ''NONE'', ''''} then None
      else if buildup \<in> {''LONG_BUILDUP'', ''SHORT_COVERING''} then Some bull
      else if buildup \<in> {''SHORT_BUILDUP'', ''LONG_UNWINDING''} then Some (\<not> bull) else Some False)"

text \<open>Relative volume, body, place of the close, VWAP, derivatives, open interest; \<open>None\<close> is no evidence.\<close>

definition confirmations :: "b_targets \<Rightarrow> overrides \<Rightarrow> b_features \<Rightarrow> candle \<Rightarrow> bool \<Rightarrow> bool option list" where
  "confirmations T ov f c bull =
     (let spread = pmax (fsub (ca_high c) (ca_low c)) (flit (1 / 1000000000000)); body = fsub (ca_close c) (ca_open c);
          place = (if bull then fsub (ca_close c) (ca_low c) else fsub (ca_high c) (ca_close c));
          score = (if bull then mf_breakout_bull_derivatives_score f else mf_breakout_bear_derivatives_score f)
      in [if fle (bf_rvol_5m f) (Fin 0) then None else Some (fle (bt_rvol T) (bf_rvol_5m f)),
          if fle spread (Fin 0) then None
          else Some (flt (Fin 0) (signed bull body) \<and> fle (flit (9 / 20)) (over (fabs body) spread)),
          if fle spread (Fin 0) then None else Some (fle (flit (7 / 10)) (over place spread)),
          if fle (mf_futures_vwap f) (Fin 0) \<or> fle (mf_futures_price f) (Fin 0) then None
          else Some (flt (Fin 0) (signed bull (fsub (mf_futures_price f) (mf_futures_vwap f)))),
          Some (fle (setting (if bull then ov_bull_score ov else ov_bear_score ov) (Fin 2)) score),
          oi_evidence bull (mf_futures_buildup f)])"

definition available :: "bool option list \<Rightarrow> int" where
  "available cs = int (length (filter (\<lambda>c. c \<noteq> None) cs))"

definition effective :: "bool option list \<Rightarrow> bool \<Rightarrow> int" where
  "effective cs wall = max 0 (int (length (filter (\<lambda>c. c = Some True) cs)) - (if wall then 1 else 0))"

section \<open>The breakout\<close>

definition call_trigger :: "b_targets \<Rightarrow> compression_box \<Rightarrow> pyfloat" where
  "call_trigger T b = fround 2 (fadd (bx_high b) (fmul (bt_buffer T) (bx_atr_at_lock b)))"

definition put_trigger :: "b_targets \<Rightarrow> compression_box \<Rightarrow> pyfloat" where
  "put_trigger T b = fround 2 (fsub (bx_low b) (fmul (bt_buffer T) (bx_atr_at_lock b)))"

definition edge :: "bool \<Rightarrow> compression_box \<Rightarrow> pyfloat" where "edge bull b = (if bull then bx_high b else bx_low b)"

definition b_stop :: "bool \<Rightarrow> compression_box \<Rightarrow> pyfloat" where
  "b_stop bull b = fround 2 (fsub (edge bull b) (fmul (Fin (if bull then 1 / 4 else - 1 / 4)) (bx_atr_at_lock b)))"

definition b_risk :: "bool \<Rightarrow> compression_box \<Rightarrow> candle \<Rightarrow> pyfloat" where
  "b_risk bull b c = fround 2 (signed bull (fsub (ca_close c) (b_stop bull b)))"

definition b_key :: "bool \<Rightarrow> compression_box \<Rightarrow> candle \<Rightarrow> string" where
  "b_key bull b c = ''SIG-B-'' @ (if bull then ''BULLISH'' else ''BEARISH'') @ ''-'' @ show_int (bx_created b div seconds 1)
     @ ''-'' @ show_int (ca_end_time c div seconds 1)"

definition b_signal :: "bool \<Rightarrow> compression_box \<Rightarrow> candle \<Rightarrow> strategy_signal" where
  "b_signal bull b c =
     \<lparr>sg_signal_id = b_key bull b c, sg_strategy = VOLATILITY_BREAKOUT, sg_direction = (if bull then BULLISH else BEARISH),
      sg_option_type = (if bull then CALL else PUT), sg_timestamp = ca_end_time c, sg_spot_reference_price = ca_close c,
      sg_underlying_entry_price = None, sg_structural_stop = b_stop bull b, sg_r_points = b_risk bull b c,
      sg_snapshot = no_snapshot\<lparr>sp_box_high := Some (bx_high b), sp_box_low := Some (bx_low b),
        sp_atr_at_lock := Some (bx_atr_at_lock b)\<rparr>\<rparr>"

definition extension_ok :: "b_targets \<Rightarrow> bool \<Rightarrow> compression_box \<Rightarrow> candle \<Rightarrow> bool" where
  "extension_ok T bull b c = fle (signed bull (fsub (ca_close c) (edge bull b))) (fadd (fmul (bt_extension T) (bx_atr_at_lock b)) tolerance)"

definition risk_ok :: "bool \<Rightarrow> compression_box \<Rightarrow> candle \<Rightarrow> bool" where
  "risk_ok bull b c \<longleftrightarrow> flt (Fin 0) (b_risk bull b c) \<and> fle (b_risk bull b c) (fadd (fmul (flit (6 / 5)) (bx_atr_at_lock b)) tolerance)"

definition break_out :: "b_targets \<Rightarrow> overrides \<Rightarrow> b_features \<Rightarrow> candle \<Rightarrow> compression_box \<Rightarrow> b_state \<Rightarrow> b_state \<times> b_outcome" where
  "break_out T ov f c b s =
     (let tm = ca_end_time c; bull = flt (call_trigger T b) (ca_close c); bear = flt (ca_close c) (put_trigger T b);
          evidence = confirmations T ov f c bull; wall = (if bull then bf_bullish_oi_wall f else bf_bearish_oi_wall f);
          calm = s\<lparr>bs_confirm_count := 0, bs_confirm_direction := None\<rparr> in
      if suspicious (bx_atr_at_lock b) c then (b_reset (Some tm) s, waiting ''RESET'' ''STRUCTURAL_EXPANSION'')
      else if \<not> bull \<and> \<not> bear then (calm, waiting ''WAITING_FOR_BREAKOUT'' ''WAITING_FOR_BREAKOUT'')
      else if \<not> extension_ok T bull b c then (b_reset (Some tm) s, waiting ''RESET'' ''BREAKOUT_OVEREXTENDED'')
      else if available evidence < bt_available T
      then (b_reset (Some tm) calm, waiting ''CONFIRMATION_FAILED'' ''INSUFFICIENT_CONFIRMATION_DATA'')
      else if effective evidence wall < bt_required T
      then (b_reset (Some tm) calm, waiting ''CONFIRMATION_FAILED'' ''CONFIRMATION_SCORE_LOW'')
      else if \<not> risk_ok bull b c then (b_reset (Some tm) calm, waiting ''RISK_REJECTED'' ''RISK_TOO_HIGH'')
      else if bs_consumed s = Some (b_key bull b c) then (calm, waiting ''RESET'' ''Signal already consumed'')
      else (b_reset (Some tm) (calm\<lparr>bs_consumed := Some (b_key bull b c)\<rparr>),
        \<lparr>bo_phase = ''READY_TO_TRIGGER'', bo_blocker = ''Breakout qualified; checking contract and execution risk'',
         bo_signal = Some (b_signal bull b c)\<rparr>))"

section \<open>One evaluation\<close>

definition on_new_bar :: "b_config \<Rightarrow> overrides \<Rightarrow> b_features \<Rightarrow> candle list \<Rightarrow> b_state \<Rightarrow> b_state \<times> b_outcome" where
  "on_new_bar C ov f bars s =
     (let c = last bars; tm = ca_end_time c in
      case bs_box s of
        None \<Rightarrow> seek_box C (targets C ov) f bars s
      | Some b \<Rightarrow>
          if gap_since b bars then (b_reset (Some tm) s, waiting ''RESET'' ''Missing completed bars since box lock'')
          else (let b' = b\<lparr>bx_bars_active := int (length (bars_since b bars))\<rparr>; s' = s\<lparr>bs_box := Some b'\<rparr> in
            if bx_max_bars b' < bx_bars_active b' then (b_reset (Some tm) s', waiting ''RESET'' ''BOX_EXPIRED'')
            else break_out (targets C ov) ov f c b' s'))"

definition enter_session :: "int \<Rightarrow> b_state \<Rightarrow> b_state" where
  "enter_session day s = (if bs_session s = Some day then s
     else s\<lparr>bs_box := None, bs_last_bar := None, bs_session := Some day, bs_confirm_count := 0, bs_confirm_direction := None\<rparr>)"

definition take_settings :: "fingerprint \<Rightarrow> timestamp \<Rightarrow> b_state \<Rightarrow> b_state" where
  "take_settings p tm s = (if bs_fingerprint s \<noteq> None \<and> bs_fingerprint s \<noteq> Some p then b_reset (Some tm) s else s)\<lparr>bs_fingerprint := Some p\<rparr>"

definition seen_bar :: "timestamp \<Rightarrow> b_state \<Rightarrow> bool" where
  "seen_bar tm s = (case bs_last_bar s of None \<Rightarrow> False | Some t \<Rightarrow> tm \<le> t)"

definition b_evaluate :: "b_config \<Rightarrow> overrides \<Rightarrow> b_features \<Rightarrow> candle list \<Rightarrow> b_state \<Rightarrow> b_state \<times> b_outcome" where
  "b_evaluate C ov f bars s =
     (if unusable f bars
      then (b_reset (Some (mf_timestamp f)) s, waiting ''RESET'' ''Missing, stale or invalid real completed spot/futures data'')
      else (let tm = ca_end_time (last bars);
                s1 = take_settings (fingerprint_of C ov) tm (enter_session (ist_date tm) s) in
        if \<not> ov_bypass_entry_window ov \<and> \<not> in_window tm (bc_entry_start C) (bc_entry_end C)
        then (b_reset (Some tm) s1, waiting ''RESET'' ''Outside Strategy B entry window'')
        else if seen_bar tm s1 then (s1, waiting ''WAITING_FOR_BREAKOUT'' ''Completed 5m candle already evaluated'')
        else on_new_bar C ov f bars (s1\<lparr>bs_last_bar := Some tm\<rparr>)))"

section \<open>Runs\<close>

text \<open>
  Evaluations on any data, resets by the service at any time, restarts.  A run carries what its
  evaluations were given, the newest first.
\<close>

type_synonym b_input = "overrides \<times> b_features \<times> candle list"

inductive b_run :: "b_config \<Rightarrow> b_input list \<Rightarrow> b_state \<Rightarrow> bool" for C where
  start: "b_run C [] b_init"
| evaluate: "b_run C es s \<Longrightarrow> b_run C ((ov, f, bars) # es) (fst (b_evaluate C ov f bars s))"
| reset: "b_run C es s \<Longrightarrow> b_run C es (b_reset tm s)"
| restart: "b_run C es s \<Longrightarrow> b_run C es (b_restore (b_export s) b_init)"

text \<open>
  A box as an evaluation with the features \<open>f\<close> and the bars \<open>bars\<close> frames it: the last bars of its session
  that ended after the last reset, as many as the window wants, without a gap and none abnormal, with the
  Bollinger width and the height within the limits.
\<close>

definition framed_by :: "b_config \<Rightarrow> b_targets \<Rightarrow> timestamp option \<Rightarrow> compression_box \<Rightarrow> candle list \<Rightarrow> b_features \<Rightarrow> candle list \<Rightarrow> bool" where
  "framed_by C T after b w f bars \<longleftrightarrow> \<not> unusable f bars \<and> bx_created b = ca_end_time (last bars)
     \<and> w = box_window C (ist_date (bx_created b)) after bars \<and> length w = bc_lookback_bars C \<and> contiguous w
     \<and> (\<forall>c \<in> set w. \<not> suspicious (mf_atr_5m f) c \<and> \<not> broken_bar (mf_timestamp f) c)
     \<and> fle (bf_bb_width_percentile f) (fadd (bt_bb T) tolerance) \<and> height_ok T (mf_atr_5m f) (height_of w)
     \<and> b = (new_box T f (bx_created b) w)\<lparr>bx_bars_active := bx_bars_active b\<rparr>"

text \<open>One of the evaluations of the run has framed the box, with the settings and the last reset of the state.\<close>

definition framed :: "b_config \<Rightarrow> b_input list \<Rightarrow> b_state \<Rightarrow> compression_box \<Rightarrow> candle list \<Rightarrow> bool" where
  "framed C es s b w \<longleftrightarrow> (\<exists>(ov, f, bars) \<in> set es. bs_fingerprint s = Some (fingerprint_of C ov)
     \<and> framed_by C (targets C ov) (bs_after s) b w f bars)"

definition box_ok :: "b_config \<Rightarrow> b_input list \<Rightarrow> b_state \<Rightarrow> bool" where
  "box_ok C es s \<longleftrightarrow> (\<forall>b. bs_box s = Some b \<longrightarrow> (\<exists>w. framed C es s b w)
     \<and> bs_session s = Some (ist_date (bx_created b)) \<and> (\<exists>t. bs_last_bar s = Some t \<and> bx_created b \<le> t))"

lemma no_box_ok [simp]: "bs_box s = None \<Longrightarrow> box_ok C es s" by (simp add: box_ok_def)

lemma reset_box [simp]: "bs_box (b_reset tm s) = None" by (simp add: b_reset_def)

text \<open>The parts of a state a framed box depends on.\<close>

definition box_parts :: "b_state \<Rightarrow> compression_box option \<times> int option \<times> timestamp option \<times> timestamp option \<times> fingerprint option" where
  "box_parts s = (bs_box s, bs_session s, bs_last_bar s, bs_after s, bs_fingerprint s)"

lemma same_box_ok: "box_ok C es s \<Longrightarrow> box_parts s' = box_parts s \<Longrightarrow> box_ok C es s'"
  by (simp add: box_ok_def framed_def box_parts_def)

lemma more_seen: "box_ok C es s \<Longrightarrow> box_ok C (e # es) s"
  by (fastforce simp: box_ok_def framed_def)

lemma enter_ok: "box_ok C es s \<Longrightarrow> box_ok C es (enter_session day s)"
  by (simp add: enter_session_def)

lemma kept_settings:
  assumes "bs_box (take_settings p tm s) = Some b"
  shows "(bs_fingerprint s = None \<or> bs_fingerprint s = Some p) \<and> bs_box s = Some b"
proof (cases "bs_fingerprint s")
  case (Some q)
  then show ?thesis using assms by (cases "q = p") (simp_all add: take_settings_def)
qed (use assms in \<open>simp add: take_settings_def\<close>)

lemma take_ok:
  assumes "box_ok C es s"
  shows "box_ok C es (take_settings p tm s)"
proof (cases "bs_box (take_settings p tm s)")
  case (Some b)
  then have "bs_fingerprint s = None \<or> bs_fingerprint s = Some p" "bs_box s = Some b"
    using kept_settings[OF Some] by simp_all
  moreover obtain q where "bs_fingerprint s = Some q" using assms calculation(2) unfolding box_ok_def framed_def by blast
  ultimately have "box_parts (take_settings p tm s) = box_parts s" by (simp add: take_settings_def box_parts_def)
  then show ?thesis by (rule same_box_ok[OF assms])
qed simp

lemma window_bars: "c \<in> set (box_window C day after bars) \<Longrightarrow> c \<in> set bars \<and> ist_date (ca_start_time c) = day"
  by (auto simp: box_window_def lastn_def dest!: in_set_dropD)

lemma usable_bars: "\<not> unusable f bars \<Longrightarrow> c \<in> set bars \<Longrightarrow> \<not> broken_bar (mf_timestamp f) c"
  by (auto simp: unusable_def list_ex_iff)

lemma new_box_framed:
  fixes C :: b_config and after :: "timestamp option"
  assumes "\<not> unusable f bars"
  defines "tm \<equiv> ca_end_time (last bars)"
  defines "w \<equiv> box_window C (ist_date tm) after bars"
  assumes "\<not> length w < bc_lookback_bars C" "contiguous w" "\<not> list_ex (suspicious (mf_atr_5m f)) w"
    "fle (bf_bb_width_percentile f) (fadd (bt_bb T) tolerance)" "height_ok T (mf_atr_5m f) (height_of w)"
  shows "framed_by C T after (new_box T f tm w) w f bars"
proof -
  have "length w = bc_lookback_bars C" using assms(4) by (simp add: w_def box_window_def lastn_def)
  moreover have "bx_created (new_box T f tm w) = tm" by (simp add: new_box_def)
  moreover have "new_box T f tm w = (new_box T f tm w)\<lparr>bx_bars_active := bx_bars_active (new_box T f tm w)\<rparr>" by simp
  moreover have "\<forall>c \<in> set w. \<not> suspicious (mf_atr_5m f) c \<and> \<not> broken_bar (mf_timestamp f) c"
    using assms(6) window_bars[of _ C "ist_date tm" after bars, folded w_def] usable_bars[OF assms(1)] by (auto simp: list_ex_iff)
  ultimately show ?thesis using assms(1,5,7,8) unfolding framed_by_def by (simp add: tm_def w_def)
qed

text \<open>What the search leaves: no box, or the box this evaluation has framed.\<close>

lemma seek_box_cases:
  fixes C :: b_config and T :: b_targets
  assumes "\<not> unusable f bars" "bs_box s = None"
  defines "r \<equiv> fst (seek_box C T f bars s)"
  shows "bs_session r = bs_session s \<and> bs_last_bar r = bs_last_bar s \<and> bs_after r = bs_after s \<and> bs_fingerprint r = bs_fingerprint s
    \<and> (bs_box r = None \<or> (\<exists>b w. bs_box r = Some b \<and> bx_created b = ca_end_time (last bars) \<and> framed_by C T (bs_after s) b w f bars))"
proof -
  let ?tm = "ca_end_time (last bars)" let ?w = "box_window C (ist_date ?tm) (bs_after s) bars"
  have "bx_created (new_box T f ?tm ?w) = ?tm" by (simp add: new_box_def)
  then show ?thesis using new_box_framed[OF assms(1), of C "bs_after s" T] assms(2)
    unfolding r_def seek_box_def Let_def by auto
qed

lemma seek_ok:
  assumes "\<not> unusable f bars" "bs_box s = None" "bs_session s = Some (ist_date (ca_end_time (last bars)))"
    "bs_last_bar s = Some (ca_end_time (last bars))" "bs_fingerprint s = Some (fingerprint_of C ov)" "(ov, f, bars) \<in> set es"
  shows "box_ok C es (fst (seek_box C (targets C ov) f bars s))"
proof -
  let ?r = "fst (seek_box C (targets C ov) f bars s)"
  note c = seek_box_cases[OF assms(1,2), of C "targets C ov"]
  show ?thesis
  proof (cases "bs_box ?r")
    case (Some b)
    then obtain w where "bx_created b = ca_end_time (last bars)" "framed_by C (targets C ov) (bs_after s) b w f bars" using c by auto
    moreover from this(2) have "framed C es ?r b w" using c assms(5,6) unfolding framed_def by auto
    ultimately show ?thesis using c assms(3,4) Some by (auto simp: box_ok_def)
  qed simp
qed

text \<open>What happens to the box of a state: it is dropped, or nothing.\<close>

definition drops_or_keeps :: "b_state \<Rightarrow> b_state \<times> b_outcome \<Rightarrow> bool" where
  "drops_or_keeps s r \<longleftrightarrow> bs_box (fst r) = None \<or> box_parts (fst r) = box_parts s"

lemma if_either: "(c \<Longrightarrow> P x) \<Longrightarrow> (\<not> c \<Longrightarrow> P y) \<Longrightarrow> P (if c then x else y)" by simp

lemma break_out_box: "drops_or_keeps s (break_out T ov f c b s)"
  unfolding break_out_def Let_def by (intro if_either[where P = "drops_or_keeps s"]) (simp_all add: drops_or_keeps_def box_parts_def)

lemma framed_aged: "framed C es s b w \<Longrightarrow> framed C es (s\<lparr>bs_box := x\<rparr>) (b\<lparr>bx_bars_active := n\<rparr>) w"
proof -
  have "new_box T f t w\<lparr>bx_bars_active := k\<rparr>\<lparr>bx_bars_active := n\<rparr> = new_box T f t w\<lparr>bx_bars_active := n\<rparr>" for T f t k by simp
  then have "framed_by C T a (b\<lparr>bx_bars_active := n\<rparr>) w f bars" if "framed_by C T a b w f bars" for T a f bars
    using that unfolding framed_by_def by (metis compression_box.select_convs compression_box.surjective compression_box.update_convs(8))
  then show "framed C es s b w \<Longrightarrow> framed C es (s\<lparr>bs_box := x\<rparr>) (b\<lparr>bx_bars_active := n\<rparr>) w"
    by (fastforce simp: framed_def)
qed

lemma aged_ok: "box_ok C es s \<Longrightarrow> bs_box s = Some b \<Longrightarrow> box_ok C es (s\<lparr>bs_box := Some (b\<lparr>bx_bars_active := n\<rparr>)\<rparr>)"
  using framed_aged by (fastforce simp: box_ok_def)

lemma new_bar_ok:
  assumes "\<not> unusable f bars" "box_ok C es s" "bs_session s = Some (ist_date (ca_end_time (last bars)))"
    "bs_last_bar s = Some (ca_end_time (last bars))" "bs_fingerprint s = Some (fingerprint_of C ov)" "(ov, f, bars) \<in> set es"
  shows "box_ok C es (fst (on_new_bar C ov f bars s))"
proof (cases "bs_box s")
  case None
  then show ?thesis using seek_ok[OF assms(1) None assms(3-6)] by (simp add: on_new_bar_def)
next
  case (Some b)
  let ?b = "b\<lparr>bx_bars_active := int (length (bars_since b bars))\<rparr>"
  let ?s = "s\<lparr>bs_box := Some ?b\<rparr>"
  let ?r = "break_out (targets C ov) ov f (last bars) ?b ?s"
  have "drops_or_keeps ?s ?r" by (rule break_out_box)
  then have "box_ok C es (fst ?r)" unfolding drops_or_keeps_def using same_box_ok[OF aged_ok[OF assms(2) Some]] no_box_ok by blast
  then show ?thesis using Some by (simp add: on_new_bar_def Let_def)
qed

lemma seen_after: "box_ok C es s \<Longrightarrow> \<not> seen_bar tm s \<Longrightarrow> box_ok C es (s\<lparr>bs_last_bar := Some tm\<rparr>)"
  by (force simp: box_ok_def framed_def seen_bar_def)

lemma session_after:
  "bs_session (take_settings p tm (enter_session day s)) = Some day" "bs_fingerprint (take_settings p tm s) = Some p"
  by (simp_all add: take_settings_def enter_session_def b_reset_def)

lemma evaluate_ok:
  assumes "box_ok C es s"
  shows "box_ok C ((ov, f, bars) # es) (fst (b_evaluate C ov f bars s))"
proof -
  let ?tm = "ca_end_time (last bars)" and ?es = "(ov, f, bars) # es"
  let ?s = "take_settings (fingerprint_of C ov) ?tm (enter_session (ist_date ?tm) s)"
  have s: "box_ok C ?es ?s" by (intro more_seen take_ok enter_ok assms)
  have n: "box_ok C ?es (fst (on_new_bar C ov f bars (?s\<lparr>bs_last_bar := Some ?tm\<rparr>)))" if "\<not> unusable f bars" "\<not> seen_bar ?tm ?s"
    using new_bar_ok[OF that(1) seen_after[OF s that(2)]] session_after by simp
  show ?thesis using s n by (simp add: b_evaluate_def Let_def)
qed

lemma b_run_ok: "b_run C es s \<Longrightarrow> box_ok C es s"
  by (induction rule: b_run.induct) (auto simp: evaluate_ok b_init_def b_restore_def b_export_def)

section \<open>Signals\<close>

lemma break_out_signal:
  assumes "bo_signal (snd (break_out T ov f c b s)) = Some g"
  defines "bull \<equiv> flt (call_trigger T b) (ca_close c)"
  shows "bull \<or> flt (ca_close c) (put_trigger T b)" "\<not> suspicious (bx_atr_at_lock b) c" "extension_ok T bull b c"
    "bt_available T \<le> available (confirmations T ov f c bull)"
    "bt_required T \<le> effective (confirmations T ov f c bull) (if bull then bf_bullish_oi_wall f else bf_bearish_oi_wall f)"
    "risk_ok bull b c" "g = b_signal bull b c" "bs_consumed s \<noteq> Some (sg_signal_id g)"
    "bs_box (fst (break_out T ov f c b s)) = None" "bs_after (fst (break_out T ov f c b s)) = Some (ca_end_time c)"
    "bs_consumed (fst (break_out T ov f c b s)) = Some (sg_signal_id g)"
  using assms by (auto simp: break_out_def waiting_def b_signal_def b_reset_def Let_def split: if_splits)

lemma new_bar_signal:
  assumes "bo_signal (snd (on_new_bar C ov f bars s)) = Some g"
  obtains b where "bs_box s = Some b" "\<not> gap_since b bars" "int (length (bars_since b bars)) \<le> bx_max_bars b"
    "on_new_bar C ov f bars s = break_out (targets C ov) ov f (last bars)
       (b\<lparr>bx_bars_active := int (length (bars_since b bars))\<rparr>)
       (s\<lparr>bs_box := Some (b\<lparr>bx_bars_active := int (length (bars_since b bars))\<rparr>)\<rparr>)"
  using assms by (auto simp: on_new_bar_def seek_box_def waiting_def Let_def split: option.splits if_splits)

lemma fround_positive: "flt (Fin 0) (fround n x) \<Longrightarrow> flt (Fin 0) x"
proof -
  assume r: "flt (Fin 0) (fround n x)"
  then have "x \<noteq> NaN" by auto
  then have "\<not> flt (Fin 0) x \<Longrightarrow> fle (fround n x) (Fin 0)" using fround_mono[of x "Fin 0" n, unfolded fround_0] by (simp add: not_flt_iff)
  then show ?thesis using r fle_flt_trans flt_irrefl flt_fle_trans by blast
qed

lemma fneg_positive: "flt (Fin 0) (fneg x) \<Longrightarrow> flt x (Fin 0)" by (cases x) simp_all

lemma fsub_negative: "flt (fsub x y) (Fin 0) \<Longrightarrow> flt x y"
proof -
  have "a < b" if "flt (rnd (a - b)) (Fin 0)" for a b :: rat
    using that rnd_mono[of 0 "a - b"] by (metis flt_fle_trans diff_ge_0_iff_ge flt_irrefl not_less rnd_0)
  then show "flt (fsub x y) (Fin 0) \<Longrightarrow> flt x y" by (cases x; cases y; simp add: fsub_def)
qed

lemma risk_behind:
  assumes "risk_ok bull b c"
  shows "if bull then flt (b_stop bull b) (ca_close c) else flt (ca_close c) (b_stop bull b)"
proof -
  have r: "flt (Fin 0) (signed bull (fsub (ca_close c) (b_stop bull b)))"
    using assms fround_positive unfolding risk_ok_def b_risk_def by blast
  show ?thesis
  proof (cases bull)
    case True
    then show ?thesis using fsub_positive[of "ca_close c" "b_stop bull b"] r by (simp add: signed_def)
  next
    case False
    then show ?thesis using fsub_negative[OF fneg_positive, of "ca_close c" "b_stop bull b"] r by (simp add: signed_def)
  qed
qed

lemma entered_box:
  assumes "bs_box (take_settings p tm (enter_session day s)) = Some b"
  shows "bs_box s = Some b" "bs_session s = Some day" "bs_last_bar (take_settings p tm (enter_session day s)) = bs_last_bar s"
    "bs_fingerprint s = None \<or> bs_fingerprint s = Some p"
proof -
  have k: "bs_fingerprint (enter_session day s) = bs_fingerprint s" "bs_last_bar (take_settings p tm (enter_session day s)) = bs_last_bar (enter_session day s)"
    by (simp_all add: enter_session_def take_settings_def b_reset_def)
  note b = kept_settings[OF assms, unfolded k]
  then have "bs_session s = Some day" by (auto simp: enter_session_def split: if_splits)
  then show "bs_box s = Some b" "bs_session s = Some day" "bs_last_bar (take_settings p tm (enter_session day s)) = bs_last_bar s"
    "bs_fingerprint s = None \<or> bs_fingerprint s = Some p"
    using b k by (simp_all add: enter_session_def)
qed

lemma b_evaluate_signal:
  assumes "b_evaluate C ov f bars s = (s', d)" "bo_signal d = Some g"
  defines "tm \<equiv> ca_end_time (last bars)"
  defines "s1 \<equiv> take_settings (fingerprint_of C ov) tm (enter_session (ist_date tm) s)"
  shows "\<not> unusable f bars" "ov_bypass_entry_window ov \<or> in_window tm (bc_entry_start C) (bc_entry_end C)" "\<not> seen_bar tm s1"
    "on_new_bar C ov f bars (s1\<lparr>bs_last_bar := Some tm\<rparr>) = (s', d)"
  using assms by (auto simp: b_evaluate_def waiting_def Let_def split: if_splits)

text \<open>What strategy B asks of the breakout bar \<open>c\<close> of a box.\<close>

definition good_break :: "b_targets \<Rightarrow> overrides \<Rightarrow> b_features \<Rightarrow> bool \<Rightarrow> compression_box \<Rightarrow> candle \<Rightarrow> bool" where
  "good_break T ov f bull b c \<longleftrightarrow> (if bull then flt (call_trigger T b) (ca_close c) else flt (ca_close c) (put_trigger T b))
     \<and> \<not> suspicious (bx_atr_at_lock b) c \<and> extension_ok T bull b c
     \<and> bt_available T \<le> available (confirmations T ov f c bull)
     \<and> bt_required T \<le> effective (confirmations T ov f c bull) (if bull then bf_bullish_oi_wall f else bf_bearish_oi_wall f)
     \<and> (if bull then flt (b_stop bull b) (ca_close c) else flt (ca_close c) (b_stop bull b))
     \<and> flt (Fin 0) (b_risk bull b c) \<and> fle (b_risk bull b c) (fadd (fmul (flit (6 / 5)) (bx_atr_at_lock b)) tolerance)"

lemma same_box:
  "call_trigger T (b\<lparr>bx_bars_active := n\<rparr>) = call_trigger T b" "put_trigger T (b\<lparr>bx_bars_active := n\<rparr>) = put_trigger T b"
  "extension_ok T bull (b\<lparr>bx_bars_active := n\<rparr>) c = extension_ok T bull b c" "b_stop bull (b\<lparr>bx_bars_active := n\<rparr>) = b_stop bull b"
  "b_risk bull (b\<lparr>bx_bars_active := n\<rparr>) c = b_risk bull b c" "risk_ok bull (b\<lparr>bx_bars_active := n\<rparr>) c = risk_ok bull b c"
  "b_signal bull (b\<lparr>bx_bars_active := n\<rparr>) c = b_signal bull b c"
  by (simp_all add: call_trigger_def put_trigger_def extension_ok_def edge_def b_stop_def b_risk_def risk_ok_def b_signal_def b_key_def)

lemma signal_box:
  assumes ev: "b_evaluate C ov f bars s = (s', d)" and sig: "bo_signal d = Some g"
  defines "c \<equiv> last bars"
  obtains b bull where "bs_box s = Some b" "bs_session s = Some (ist_date (ca_end_time c))" "\<not> seen_bar (ca_end_time c) s"
    "\<not> gap_since b bars" "int (length (bars_since b bars)) \<le> bx_max_bars b" "good_break (targets C ov) ov f bull b c" "g = b_signal bull b c"
    "bs_box s' = None" "bs_after s' = Some (ca_end_time c)" "bs_consumed s' = Some (sg_signal_id g)" "bs_consumed s \<noteq> Some (sg_signal_id g)"
    "bs_fingerprint s = None \<or> bs_fingerprint s = Some (fingerprint_of C ov)"
proof -
  let ?tm = "ca_end_time c" and ?T = "targets C ov"
  let ?s1 = "take_settings (fingerprint_of C ov) ?tm (enter_session (ist_date ?tm) s)"
  note e = b_evaluate_signal[OF ev sig, folded c_def]
  have n: "on_new_bar C ov f bars (?s1\<lparr>bs_last_bar := Some ?tm\<rparr>) = (s', d)" by (rule e(4))
  have d: "bo_signal (snd (on_new_bar C ov f bars (?s1\<lparr>bs_last_bar := Some ?tm\<rparr>))) = Some g" using n sig by simp
  obtain b where b: "bs_box ?s1 = Some b" "\<not> gap_since b bars" "int (length (bars_since b bars)) \<le> bx_max_bars b"
    "on_new_bar C ov f bars (?s1\<lparr>bs_last_bar := Some ?tm\<rparr>) = break_out ?T ov f c (b\<lparr>bx_bars_active := int (length (bars_since b bars))\<rparr>)
       (?s1\<lparr>bs_last_bar := Some ?tm, bs_box := Some (b\<lparr>bx_bars_active := int (length (bars_since b bars))\<rparr>)\<rparr>)"
    by (rule new_bar_signal[OF d]) (auto simp: c_def)
  let ?r = "break_out ?T ov f c (b\<lparr>bx_bars_active := int (length (bars_since b bars))\<rparr>)
       (?s1\<lparr>bs_last_bar := Some ?tm, bs_box := Some (b\<lparr>bx_bars_active := int (length (bars_since b bars))\<rparr>)\<rparr>)"
  have r: "?r = (s', d)" using n b(4) by simp
  then have "bo_signal (snd ?r) = Some g" using sig by simp
  note x = break_out_signal[OF this, unfolded same_box r fst_conv]
  let ?bull = "flt (call_trigger ?T b) (ca_close c)"
  have "good_break ?T ov f ?bull b c"
    using x(1-6) risk_behind[OF x(6)] unfolding good_break_def risk_ok_def
    by (cases "flt (call_trigger ?T b) (ca_close c)") simp_all
  moreover have "\<not> seen_bar ?tm s" using e(3) entered_box(3)[OF b(1)] by (simp add: seen_bar_def)
  moreover have "bs_consumed ?s1 = bs_consumed s" by (simp add: take_settings_def enter_session_def b_reset_def)
  ultimately show ?thesis using that entered_box(1,2,4)[OF b(1)] b(2,3) x(7-11) by simp
qed

text \<open>
  C31. Strategy B signals only from a box that one of the evaluations of the run has framed: under the
  settings of the signal, on valid real bars, from the last bars of its session since the last reset, as
  many as the window wants, without a gap and none abnormal, with the Bollinger width and the height
  within their limits.  The signal is of the same session, on a fresh bar later than the box that no
  evaluation has taken, inside the entry window (or bypassing it), no more bars after the lock than the
  box may live and without a gap; the close lies beyond the trigger on the signal's side but not beyond
  the extension limit, enough evidence is there and enough of it confirms, and the stop lies behind the
  close at most 1.2 ATR away.  The box is spent with the signal.
\<close>

theorem b_signal_sound:
  assumes "b_run C es s" "b_evaluate C ov f bars s = (s', d)" "bo_signal d = Some g"
  shows "\<exists>b w bull. bs_box s = Some b
    \<and> (\<exists>(ov0, f0, bars0) \<in> set es. fingerprint_of C ov0 = fingerprint_of C ov \<and> framed_by C (targets C ov) (bs_after s) b w f0 bars0)
    \<and> ist_date (bx_created b) = ist_date (sg_timestamp g) \<and> bx_created b < sg_timestamp g
    \<and> \<not> unusable f bars \<and> sg_timestamp g = ca_end_time (last bars) \<and> \<not> seen_bar (sg_timestamp g) s
    \<and> (ov_bypass_entry_window ov \<or> in_window (sg_timestamp g) (bc_entry_start C) (bc_entry_end C))
    \<and> last bars \<in> set (bars_since b bars) \<and> \<not> gap_since b bars \<and> int (length (bars_since b bars)) \<le> bx_max_bars b
    \<and> good_break (targets C ov) ov f bull b (last bars) \<and> g = b_signal bull b (last bars)
    \<and> bs_box s' = None \<and> bs_after s' = Some (sg_timestamp g) \<and> bs_consumed s' = Some (sg_signal_id g)"
proof -
  let ?tm = "ca_end_time (last bars)"
  note e = b_evaluate_signal[OF assms(2,3)]
  from signal_box[OF assms(2,3)] obtain b bull where b: "bs_box s = Some b" "bs_session s = Some (ist_date ?tm)" "\<not> seen_bar ?tm s"
    "\<not> gap_since b bars" "int (length (bars_since b bars)) \<le> bx_max_bars b" "good_break (targets C ov) ov f bull b (last bars)"
    "g = b_signal bull b (last bars)" "bs_box s' = None" "bs_after s' = Some ?tm" "bs_consumed s' = Some (sg_signal_id g)"
    "bs_fingerprint s = None \<or> bs_fingerprint s = Some (fingerprint_of C ov)" by metis
  obtain w where w: "framed C es s b w" "ist_date (bx_created b) = ist_date ?tm" and t: "\<exists>t. bs_last_bar s = Some t \<and> bx_created b \<le> t"
    using b_run_ok[OF assms(1)] b(1,2) unfolding box_ok_def by auto
  have frame: "\<exists>(ov0, f0, bars0) \<in> set es. fingerprint_of C ov0 = fingerprint_of C ov
      \<and> framed_by C (targets C ov) (bs_after s) b w f0 bars0"
    using w(1) b(11) by (fastforce simp: framed_def fingerprint_of_def)
  have lt: "bx_created b < ?tm" using t b(3) by (auto simp: seen_bar_def)
  have "bars \<noteq> []" using e(1) by (auto simp: unusable_def)
  then have "last bars \<in> set (bars_since b bars)" using lt by (simp add: bars_since_def)
  moreover have "sg_timestamp g = ?tm" using b(7) by (simp add: b_signal_def)
  ultimately show ?thesis using b frame w(2) lt e(1,2) by (intro exI[of _ b] exI[of _ w] exI[of _ bull]) simp
qed

section \<open>A bar serves one box\<close>

text \<open>
  Runs on data that does not go back: \<open>L\<close> is the end of the latest bar evaluated, \<open>gs\<close> are the signals so far.
\<close>

inductive b_trace :: "b_config \<Rightarrow> b_input list \<Rightarrow> timestamp \<Rightarrow> strategy_signal list \<Rightarrow> b_state \<Rightarrow> bool" for C where
  start: "b_trace C [] L [] b_init"
| evaluate: "b_trace C es L gs s \<Longrightarrow> L \<le> mf_timestamp f \<Longrightarrow> L' = (if unusable f bars then L else ca_end_time (last bars)) \<Longrightarrow> L \<le> L'
    \<Longrightarrow> b_evaluate C ov f bars s = (s', d)
    \<Longrightarrow> b_trace C ((ov, f, bars) # es) L' (gs @ (case bo_signal d of None \<Rightarrow> [] | Some g \<Rightarrow> [g])) s'"
| reset: "b_trace C es L gs s \<Longrightarrow> L \<le> t \<Longrightarrow> b_trace C es L gs (b_reset (Some t) s)"
| restart: "b_trace C es L gs s \<Longrightarrow> b_trace C es L gs (b_restore (b_export s) b_init)"

definition spent :: "timestamp \<Rightarrow> strategy_signal list \<Rightarrow> b_state \<Rightarrow> bool" where
  "spent L gs s \<longleftrightarrow> (\<forall>g \<in> set gs. sg_timestamp g \<le> L \<and> (\<exists>t. bs_after s = Some t \<and> sg_timestamp g \<le> t))"

definition box_new :: "timestamp \<Rightarrow> strategy_signal list \<Rightarrow> b_state \<Rightarrow> bool" where
  "box_new L gs s \<longleftrightarrow> (\<forall>b. bs_box s = Some b \<longrightarrow> bx_created b \<le> L \<and> (\<forall>g \<in> set gs. sg_timestamp g \<le> bx_created b))"

lemma box_new_none [simp]: "bs_box s = None \<Longrightarrow> box_new L gs s" by (simp add: box_new_def)

lemma box_new_same: "box_new L gs s \<Longrightarrow> L \<le> L' \<Longrightarrow> bs_box s' = bs_box s \<Longrightarrow> box_new L' gs s'"
  by (force simp: box_new_def)

lemma spent_reset: "spent L gs s \<Longrightarrow> L \<le> t \<Longrightarrow> L \<le> L' \<Longrightarrow> spent L' gs (b_reset (Some t) s)"
  by (force simp: spent_def b_reset_def)

lemma spent_same: "spent L gs s \<Longrightarrow> L \<le> L' \<Longrightarrow> bs_after s' = bs_after s \<Longrightarrow> spent L' gs s'"
  by (force simp: spent_def)

lemma seek_new:
  assumes "\<not> unusable f bars" "bs_box s = None" "spent L gs s" "L \<le> ca_end_time (last bars)"
  shows "box_new (ca_end_time (last bars)) gs (fst (seek_box C T f bars s))"
    "spent (ca_end_time (last bars)) gs (fst (seek_box C T f bars s))"
proof -
  let ?tm = "ca_end_time (last bars)"
  have early: "sg_timestamp g \<le> ?tm" if "g \<in> set gs" for g using assms(3,4) that by (force simp: spent_def)
  show "box_new ?tm gs (fst (seek_box C T f bars s))" using seek_box_cases[OF assms(1,2), of C T] early by (auto simp: box_new_def)
  have "bs_after (fst (seek_box C T f bars s)) = bs_after s" by (simp add: seek_box_def Let_def)
  then show "spent ?tm gs (fst (seek_box C T f bars s))" by (rule spent_same[OF assms(3,4)])
qed

text \<open>A step of the engine without a signal keeps both.\<close>

definition fits :: "timestamp \<Rightarrow> strategy_signal list \<Rightarrow> b_state \<Rightarrow> bool" where
  "fits L gs s \<longleftrightarrow> spent L gs s \<and> box_new L gs s"

lemma fits_reset: "fits L gs s \<Longrightarrow> L \<le> t \<Longrightarrow> L \<le> L' \<Longrightarrow> fits L' gs (b_reset (Some t) s)"
  unfolding fits_def using spent_reset[of L gs s t L'] by simp

lemma fits_same: "fits L gs s \<Longrightarrow> L \<le> L' \<Longrightarrow> bs_after s' = bs_after s \<Longrightarrow> bs_box s' = bs_box s \<Longrightarrow> fits L' gs s'"
  unfolding fits_def using spent_same[of L gs s L' s'] box_new_same[of L gs s L' s'] by simp

lemma fits_drop: "fits L gs s \<Longrightarrow> L \<le> L' \<Longrightarrow> bs_after s' = bs_after s \<Longrightarrow> bs_box s' = None \<Longrightarrow> fits L' gs s'"
  unfolding fits_def using spent_same[of L gs s L' s'] by simp

lemma fits_aged: "fits L gs s \<Longrightarrow> bs_box s = Some b \<Longrightarrow> fits L gs (s\<lparr>bs_box := Some (b\<lparr>bx_bars_active := n\<rparr>)\<rparr>)"
  by (simp add: fits_def spent_def box_new_def framed_def)

lemma break_out_fits:
  assumes "fits L gs s" "L \<le> ca_end_time c"
  shows "fits (ca_end_time c) gs (fst (break_out T ov f c b s))"
proof -
  let ?P = "fits (ca_end_time c) gs"
  have S: "?P s0" if "bs_after s0 = bs_after s" "bs_box s0 = bs_box s" for s0 by (rule fits_same[OF assms that])
  have R: "?P (b_reset (Some (ca_end_time c)) s0)" if "bs_after s0 = bs_after s" "bs_box s0 = bs_box s" for s0
    by (rule fits_reset[OF S[OF that]]) simp_all
  show ?thesis unfolding break_out_def Let_def by (intro if_either[where P = "\<lambda>r. ?P (fst r)"]) (simp_all add: S R)
qed

lemma new_bar_fits:
  assumes "\<not> unusable f bars" "fits L gs s" "L \<le> ca_end_time (last bars)"
  shows "fits (ca_end_time (last bars)) gs (fst (on_new_bar C ov f bars s))"
proof (cases "bs_box s")
  case None
  then show ?thesis using seek_new[OF assms(1) None _ assms(3)] assms(2) by (simp add: on_new_bar_def fits_def)
next
  case (Some b)
  have "fits (ca_end_time (last bars)) gs (b_reset (Some (ca_end_time (last bars))) s')" if "fits L gs s'" for s'
    by (rule fits_reset[OF that assms(3,3)])
  then show ?thesis using Some assms(2) fits_aged[OF assms(2) Some] break_out_fits[OF _ assms(3)]
    by (simp add: on_new_bar_def Let_def)
qed

lemma evaluate_fits:
  assumes "fits L gs s" "L \<le> mf_timestamp f" "\<not> unusable f bars \<Longrightarrow> L \<le> ca_end_time (last bars)"
  shows "fits (if unusable f bars then L else ca_end_time (last bars)) gs (fst (b_evaluate C ov f bars s))"
proof (cases "unusable f bars")
  case True
  then show ?thesis using fits_reset[OF assms(1,2)] by (simp add: b_evaluate_def)
next
  case False
  let ?tm = "ca_end_time (last bars)"
  let ?s = "take_settings (fingerprint_of C ov) ?tm (enter_session (ist_date ?tm) s)"
  have le: "L \<le> ?tm" by (rule assms(3)[OF False])
  have e: "fits L gs (enter_session (ist_date ?tm) s)"
    using assms(1) fits_drop[OF assms(1)] by (simp add: enter_session_def)
  have "fits ?tm gs (b_reset (Some ?tm) (enter_session (ist_date ?tm) s))" by (rule fits_reset[OF e le le])
  then have s: "fits ?tm gs ?s" using fits_same[OF e le] by (auto simp: take_settings_def intro: fits_same[OF _ order_refl])
  have r: "fits ?tm gs (b_reset (Some ?tm) ?s)" by (rule fits_reset[OF s]) simp_all
  have l: "fits ?tm gs (?s\<lparr>bs_last_bar := Some ?tm\<rparr>)" by (rule fits_same[OF s]) simp_all
  show ?thesis using False s r new_bar_fits[OF False l] by (simp add: b_evaluate_def Let_def)
qed

lemma box_before:
  assumes "box_ok C es s" "b_evaluate C ov f bars s = (s', d)" "bo_signal d = Some g"
  obtains b where "bs_box s = Some b" "bx_created b < sg_timestamp g" "sg_timestamp g = ca_end_time (last bars)"
    "bs_box s' = None" "bs_after s' = Some (sg_timestamp g)"
proof -
  from signal_box[OF assms(2,3)] obtain b bull where b: "bs_box s = Some b" "\<not> seen_bar (ca_end_time (last bars)) s"
    "g = b_signal bull b (last bars)" "bs_box s' = None" "bs_after s' = Some (ca_end_time (last bars))" by metis
  have "\<exists>t. bs_last_bar s = Some t \<and> bx_created b \<le> t" using assms(1) b(1) by (auto simp: box_ok_def)
  then have "bx_created b < ca_end_time (last bars)" using b(2) by (auto simp: seen_bar_def)
  then show ?thesis using that b by (simp add: b_signal_def)
qed

lemma trace_ok: "b_trace C es L gs s \<Longrightarrow> box_ok C es s \<and> fits L gs s \<and> sorted_wrt (<) (map sg_timestamp gs)"
proof (induction rule: b_trace.induct)
  case (start L)
  then show ?case by (simp add: fits_def spent_def b_init_def)
next
  case (evaluate es L gs s f L' bars ov s' d)
  have b: "box_ok C ((ov, f, bars) # es) s'" using evaluate_ok[where C = C and es = es and s = s and ov = ov and f = f and bars = bars] evaluate.IH evaluate.hyps(5) by simp
  have f: "fits L' gs s'"
    using evaluate_fits[of L gs s f bars C ov] evaluate.IH evaluate.hyps(2-5) by (auto split: if_splits)
  show ?case
  proof (cases "bo_signal d")
    case None
    then show ?thesis using b f evaluate.IH by simp
  next
    case (Some g)
    have "box_ok C es s" using evaluate.IH by simp
    from box_before[OF this evaluate.hyps(5) Some] obtain x where x: "bs_box s = Some x" "bx_created x < sg_timestamp g"
      "sg_timestamp g = ca_end_time (last bars)" "bs_box s' = None" "bs_after s' = Some (sg_timestamp g)" by blast
    have "\<forall>g' \<in> set gs. sg_timestamp g' \<le> bx_created x" using evaluate.IH x(1) by (auto simp: fits_def box_new_def)
    then have lt: "\<forall>g' \<in> set gs. sg_timestamp g' < sg_timestamp g" using x(2) by force
    have "L' = sg_timestamp g" using b_evaluate_signal(1)[OF evaluate.hyps(5) Some] evaluate.hyps(3) x(3) by simp
    then have "fits L' (gs @ [g]) s'" using x(4,5) lt by (force simp: fits_def spent_def)
    then show ?thesis using b Some evaluate.IH lt by (auto simp: sorted_wrt_append)
  qed
next
  case (reset es L gs s t)
  then show ?case using fits_reset[of L gs s t L] by simp
next
  case (restart es L gs s)
  then show ?case by (simp add: b_restore_def b_export_def)
qed

text \<open>
  No bar serves two boxes of strategy B across a signal: on data that does not go back, through any
  resets and restarts, the signals are strictly ordered in time, and every bar of the box a signal comes
  from ended after every earlier signal.
\<close>

theorem b_bars_used_once:
  assumes "b_trace C es L gs s" "b_evaluate C ov f bars s = (s', d)" "bo_signal d = Some g"
  shows "sorted_wrt (<) (map sg_timestamp (gs @ [g]))
    \<and> (\<exists>b w. bs_box s = Some b \<and> framed C es s b w \<and> (\<forall>g' \<in> set gs. \<forall>c \<in> set w. sg_timestamp g' < ca_end_time c))"
proof -
  note t = trace_ok[OF assms(1)]
  then have ok: "box_ok C es s" by simp
  from box_before[OF ok assms(2,3)] obtain b where b: "bs_box s = Some b" "bx_created b < sg_timestamp g" by blast
  obtain w where w: "framed C es s b w" using ok b(1) by (auto simp: box_ok_def)
  have e: "\<forall>g' \<in> set gs. sg_timestamp g' \<le> bx_created b" using t b(1) by (auto simp: fits_def box_new_def)
  obtain T f0 bars0 where f: "framed_by C T (bs_after s) b w f0 bars0" using w by (auto simp: framed_def)
  have sp: "spent L gs s" using t by (simp add: fits_def)
  have "sg_timestamp g' < ca_end_time c" if m: "g' \<in> set gs" "c \<in> set w" for g' c
  proof -
    obtain u where u: "bs_after s = Some u" "sg_timestamp g' \<le> u" using sp m(1) by (auto simp: spent_def)
    have "u < ca_end_time c" using f m(2) u(1) by (auto simp: framed_by_def box_window_def lastn_def dest!: in_set_dropD)
    then show ?thesis using u(2) by simp
  qed
  moreover have "sorted_wrt (<) (map sg_timestamp (gs @ [g]))" using t e b(2) by (force simp: sorted_wrt_append)
  ultimately show ?thesis using b(1) w by blast
qed

section \<open>A breakout\<close>

text \<open>Six quiet bars between 100 and 110, and one that closes at 112.\<close>

definition b_bars :: "candle list" where
  "b_bars = map (\<lambda>i. five 1 (600 + 5 * i) (Fin 105) (Fin 110) (Fin 100) (Fin 105)) [0, 1, 2, 3, 4, 5]"

definition b_breakout_bar :: candle where
  "b_breakout_bar = five 1 630 (Fin 110) (Fin 112) (Fin 110) (Fin 112)"

definition b_features_at :: "timestamp \<Rightarrow> b_features" where
  "b_features_at tm = \<lparr>mf_breakout_bull_derivatives_score = Fin 3, mf_breakout_bear_derivatives_score = Fin 0,
     mf_timestamp = tm, mf_spot_price = Fin 112, mf_closed_5m_price = None, mf_closed_5m_time = None,
     mf_plus_di_5m = Fin 0, mf_minus_di_5m = Fin 0, mf_swing_low_5m = None, mf_swing_high_5m = None,
     mf_ema9_5m = Fin 110, mf_ema20_5m = Fin 105, mf_rsi_5m = Fin 60, mf_atr_5m = Fin 16,
     mf_supertrend_direction = ''BULLISH'', mf_futures_price = Fin 112, mf_futures_vwap = Fin 105,
     mf_futures_buildup = ''LONG_BUILDUP'', mf_bull_derivatives_score = Fin 3, mf_bear_derivatives_score = Fin 0,
     bf_breakout_data_ready = True, bf_bb_width_percentile = Fin 15, bf_rvol_5m = Fin 2, bf_bullish_oi_wall = False,
     bf_bearish_oi_wall = False\<rparr>"

definition demo_b_config :: b_config where
  "demo_b_config = \<lparr>bc_rvol_threshold = Fin 1, bc_min_confirmation_score = 3, bc_min_available_confirmations = 3,
     bc_bb_width_threshold = Fin 25, bc_box_max_height_atr = Fin 1, bc_lookback_bars = 6, bc_max_age_bars = 8,
     bc_breakout_buffer_atr = Fin (1 / 16), bc_max_extension_atr = Fin 1, bc_entry_start = (9, 25), bc_entry_end = (14, 45)\<rparr>"

definition no_overrides :: overrides where
  "no_overrides = \<lparr>ov_bb_width_percentile = None, ov_box_max_height_atr = None, ov_min_confirmation = None, ov_min_available = None,
     ov_rvol_threshold = None, ov_max_age_bars = None, ov_b_buffer_atr = None, ov_buffer_atr = None, ov_max_extension_atr = None,
     ov_bull_score = None, ov_bear_score = None, ov_bypass_entry_window = False\<rparr>"

definition b_lock_time :: timestamp where "b_lock_time = seconds (86400 + 630 * 60 - 19800)"
definition b_break_time :: timestamp where "b_break_time = seconds (86400 + 635 * 60 - 19800)"

lemma demo_b_targets: "targets demo_b_config no_overrides = \<lparr>bt_bb = Fin 25, bt_height = Fin 1, bt_required = 3, bt_available = 3,
    bt_rvol = Fin 1, bt_max_age = 8, bt_buffer = Fin (1 / 16), bt_extension = Fin 1\<rparr>"
  by (simp add: targets_def demo_b_config_def no_overrides_def setting_def)

lemma demo_b_bars:
  "ca_end_time (last b_bars) = b_lock_time"
  "ca_end_time b_breakout_bar = b_break_time" "box_window demo_b_config (ist_date b_lock_time) None b_bars = b_bars"
  "max_of (map ca_high b_bars) = Fin 110" "min_of (map ca_low b_bars) = Fin 100" "length b_bars = 6"
  "in_window b_lock_time (9, 25) (14, 45)" "in_window b_break_time (9, 25) (14, 45)" "ist_date b_break_time = ist_date b_lock_time"
  by code_simp+

lemma b_feature: "mf_atr_5m (b_features_at tm) = Fin 16" "bf_bb_width_percentile (b_features_at tm) = Fin 15"
  by (simp_all add: b_features_at_def)

lemma five_bar: "ca_high (five dd m a h l x) = h" "ca_low (five dd m a h l x) = l" "ca_open (five dd m a h l x) = a"
  "ca_close (five dd m a h l x) = x" "ca_source (five dd m a h l x) = ''BREEZE''" "ca_interval (five dd m a h l x) = ''5m''"
  "ca_start_time (five dd m a h l x) = seconds (dd * 86400 + m * 60 - 19800)"
  "ca_end_time (five dd m a h l x) = seconds (dd * 86400 + m * 60 - 19500)"
  by (simp_all add: five_def Let_def)

lemma on_beat: "\<not> off_beat 300000000"
  by (simp add: off_beat_def total_seconds_def flit_def float_eval)

lemma tolerance_small: obtains t where "Breakout.tolerance = Fin t" "0 \<le> t"
proof -
  have b: "fle (Fin 0) Breakout.tolerance" "fle Breakout.tolerance (Fin 1)"
    using rnd_nonneg[of "1 / 1000000000"] rnd_mono[of "1 / 1000000000" 1] by (simp_all add: Breakout.tolerance_def flit_def rnd_numeral)
  obtain t where e: "Breakout.tolerance = Fin t" using b by (cases Breakout.tolerance) (simp_all add: fle_def feq_def)
  have "0 \<le> t" using b(1) unfolding e by simp
  then show ?thesis using that e by blast
qed

text \<open>A bound holds with the tolerance added when it holds without.\<close>

lemma tolerant: "fle (Fin 16) y \<Longrightarrow> fle y (Fin 32) \<Longrightarrow> x \<le> 16 \<Longrightarrow> fle (Fin x) (fadd y Breakout.tolerance)"
proof -
  assume y: "fle (Fin 16) y" "fle y (Fin 32)" and x: "x \<le> 16"
  obtain z where e: "y = Fin z" using y by (cases y) (simp_all add: fle_def feq_def)
  have z: "16 \<le> z" using y(1) unfolding e by simp
  obtain t where t: "Breakout.tolerance = Fin t" "0 \<le> t" by (rule tolerance_small)
  have "fle (rnd 16) (rnd (z + t))" by (rule rnd_mono) (use t z in simp)
  then have "fle (Fin 16) (fadd y Breakout.tolerance)" by (simp add: e t rnd_numeral)
  then show ?thesis using x by (auto intro: fle_trans[of "Fin x" "Fin 16"])
qed

lemma demo_b_usable: "\<not> unusable (b_features_at b_lock_time) b_bars" "\<not> unusable (b_features_at b_break_time) (b_bars @ [b_breakout_bar])"
  by (simp_all add: unusable_def b_features_at_def b_bars_def b_breakout_bar_def broken_bar_def five_bar neighbours_def on_beat
      b_lock_time_def b_break_time_def pmin_def pmax_def total_seconds_def flit_def Let_def)

definition demo_box :: compression_box where
  "demo_box = new_box (targets demo_b_config no_overrides) (b_features_at b_lock_time) b_lock_time b_bars"

lemma demo_box: "bx_high demo_box = Fin 110" "bx_low demo_box = Fin 100" "bx_atr_at_lock demo_box = Fin 16" "bx_max_bars demo_box = 8"
  "bx_created demo_box = b_lock_time"
  by (simp_all add: demo_box_def new_box_def demo_b_targets demo_b_bars b_feature)

definition locked_state :: b_state where
  "locked_state = fst (b_evaluate demo_b_config no_overrides (b_features_at b_lock_time) b_bars b_init)"

lemma locked: "bs_box locked_state = Some demo_box" "bs_session locked_state = Some (ist_date b_lock_time)"
  "bs_last_bar locked_state = Some b_lock_time" "bs_fingerprint locked_state = Some (fingerprint_of demo_b_config no_overrides)"
  "bs_consumed locked_state = None"
proof -
  have c: "contiguous b_bars" by (simp add: contiguous_def neighbours_def b_bars_def five_bar on_beat)
  have q: "\<not> list_ex (suspicious (Fin 16)) b_bars" by (simp add: b_bars_def suspicious_def five_bar float_eval)
  have h: "height_of b_bars = Fin 10" by (simp add: height_of_def demo_b_bars float_eval)
  have "height_ok (targets demo_b_config no_overrides) (Fin 16) (Fin 10)"
    using tolerant[of "Fin 16" 10] by (simp add: height_ok_def demo_b_targets float_eval)
  moreover have "fle (Fin 15) (fadd (Fin 25) Breakout.tolerance)" using tolerant[of "Fin 25" 15] by simp
  ultimately have "seek_box demo_b_config (targets demo_b_config no_overrides) (b_features_at b_lock_time) b_bars s
      = (s\<lparr>bs_box := Some demo_box, bs_confirm_count := 0, bs_confirm_direction := None\<rparr>, waiting ''BOX_LOCKED'' ''BOX_LOCKED'')"
    if "bs_after s = None" for s
    using c q h that by (simp add: seek_box_def demo_b_bars demo_box_def demo_b_targets b_feature demo_b_config_def[THEN arg_cong[where f = bc_lookback_bars]] Let_def)
  then show "bs_box locked_state = Some demo_box" "bs_session locked_state = Some (ist_date b_lock_time)"
    "bs_last_bar locked_state = Some b_lock_time" "bs_fingerprint locked_state = Some (fingerprint_of demo_b_config no_overrides)"
    "bs_consumed locked_state = None"
    using demo_b_usable(1)
    by (simp_all add: locked_state_def b_evaluate_def demo_b_bars(2) seen_bar_def on_new_bar_def take_settings_def enter_session_def b_init_def
        Let_def demo_b_config_def[THEN arg_cong[where f = bc_entry_start]] demo_b_config_def[THEN arg_cong[where f = bc_entry_end]] demo_b_bars)
qed

lemma literals: "fle (flit (9 / 20)) (Fin 1)" "fle (flit (7 / 10)) (Fin 1)" "flt (flit (1 / 1000000000000)) (Fin 2)" "fle (Fin 1) (flit (6 / 5))"
  "fle (flit (6 / 5)) (Fin 2)"
proof -
  have u: "fle (flit x) (Fin 1)" if "x \<le> 1" for x using rnd_mono[OF that] by (simp add: flit_def rnd_numeral)
  show "fle (flit (9 / 20)) (Fin 1)" "fle (flit (7 / 10)) (Fin 1)" by (rule u; simp)+
  have "fle (flit (1 / 1000000000000)) (Fin 1)" by (rule u) simp
  then show "flt (flit (1 / 1000000000000)) (Fin 2)" by (rule fle_flt_trans) simp
  show "fle (Fin 1) (flit (6 / 5))" "fle (flit (6 / 5)) (Fin 2)"
    using rnd_mono[of 1 "6 / 5"] rnd_mono[of "6 / 5" 2] by (simp_all add: flit_def rnd_numeral)
qed

lemma demo_b_good:
  "flt (call_trigger (targets demo_b_config no_overrides) demo_box) (ca_close b_breakout_bar)"
  "\<not> suspicious (Fin 16) b_breakout_bar" "extension_ok (targets demo_b_config no_overrides) True demo_box b_breakout_bar"
  "confirmations (targets demo_b_config no_overrides) no_overrides (b_features_at b_break_time) b_breakout_bar True = replicate 6 (Some True)"
  "risk_ok True demo_box b_breakout_bar"
proof -
  show "flt (call_trigger (targets demo_b_config no_overrides) demo_box) (ca_close b_breakout_bar)"
    by (simp add: call_trigger_def demo_box demo_b_targets b_breakout_bar_def five_bar float_eval)
  show "\<not> suspicious (Fin 16) b_breakout_bar" by (simp add: suspicious_def b_breakout_bar_def five_bar float_eval)
  show "extension_ok (targets demo_b_config no_overrides) True demo_box b_breakout_bar" using tolerant[of "Fin 16" 2]
    by (simp add: extension_ok_def demo_box demo_b_targets b_breakout_bar_def five_bar float_eval signed_def edge_def)
  have s: "pmax (Fin 2) (flit (1 / 1000000000000)) = Fin 2" using literals(3) flt_asym by (auto simp: pmax_def)
  have "ov_bull_score no_overrides = None" by (simp add: no_overrides_def)
  moreover have "over (Fin 2) (Fin 2) = Fin 1" by (simp add: over_def float_eval)
  ultimately show "confirmations (targets demo_b_config no_overrides) no_overrides (b_features_at b_break_time) b_breakout_bar True = replicate 6 (Some True)"
    using s literals(1,2)
    by (simp add: confirmations_def demo_b_targets b_breakout_bar_def five_bar b_features_at_def setting_def
        oi_evidence_def signed_def float_eval numeral_eq_Suc Let_def)
  obtain a where a: "flit (6 / 5) = Fin a" using literals(4,5) by (cases "flit (6 / 5)") (simp_all add: fle_def feq_def)
  then have "1 \<le> a" "a \<le> 2" using literals(4,5) by simp_all
  then have cap: "fle (Fin 16) (fmul (flit (6 / 5)) (Fin 16))" "fle (fmul (flit (6 / 5)) (Fin 16)) (Fin 32)"
    using rnd_mono[of 16 "a * 16"] rnd_mono[of "a * 16" 32] by (simp_all add: a rnd_numeral)
  have r: "b_risk True demo_box b_breakout_bar = Fin 6"
    by (simp add: b_risk_def b_stop_def demo_box b_breakout_bar_def five_bar float_eval signed_def edge_def)
  have "fle (Fin 6) (fadd (fmul (flit (6 / 5)) (Fin 16)) Breakout.tolerance)" by (rule tolerant[OF cap]) simp
  then show "risk_ok True demo_box b_breakout_bar" by (simp add: risk_ok_def r demo_box)
qed

lemma demo_since: "bars_since demo_box (b_bars @ [b_breakout_bar]) = [b_breakout_bar]" "\<not> gap_since demo_box (b_bars @ [b_breakout_bar])"
proof -
  show b: "bars_since demo_box (b_bars @ [b_breakout_bar]) = [b_breakout_bar]"
    by (simp add: bars_since_def demo_box b_bars_def b_breakout_bar_def five_bar b_lock_time_def)
  show "\<not> gap_since demo_box (b_bars @ [b_breakout_bar])"
    unfolding gap_since_def b Let_def
    by (simp add: demo_box b_breakout_bar_def five_bar b_lock_time_def total_seconds_def flit_def contiguous_def neighbours_def)
qed

lemma demo_breaks_out:
  "bo_signal (snd (b_evaluate demo_b_config no_overrides (b_features_at b_break_time) (b_bars @ [b_breakout_bar]) locked_state))
    = Some (b_signal True demo_box b_breakout_bar)"
proof -
  let ?T = "targets demo_b_config no_overrides" and ?f = "b_features_at b_break_time" and ?bars = "b_bars @ [b_breakout_bar]"
  let ?b = "demo_box\<lparr>bx_bars_active := 1\<rparr>"
  have w: "bf_bullish_oi_wall ?f = False" by (simp add: b_features_at_def)
  have n: "available (replicate 6 (Some True)) = 6" "effective (replicate 6 (Some True)) False = 6" by code_simp+
  have t: "bt_available ?T = 3" "bt_required ?T = 3" by (simp_all add: demo_b_targets)
  have x: "bo_signal (snd (break_out ?T no_overrides ?f b_breakout_bar ?b s)) = Some (b_signal True demo_box b_breakout_bar)"
    if "bs_consumed s = None" for s
    using demo_b_good w n t that by (simp add: break_out_def same_box demo_box(3) Let_def)
  have l: "b_lock_time < b_break_time" by (simp add: b_lock_time_def b_break_time_def)
  have "bo_signal (snd (on_new_bar demo_b_config no_overrides ?f ?bars s)) = Some (b_signal True demo_box b_breakout_bar)"
    if "bs_box s = Some demo_box" "bs_consumed s = None" for s
    using x[of "s\<lparr>bs_box := Some ?b\<rparr>"] that by (simp add: on_new_bar_def demo_since Let_def demo_box(4))
  then show ?thesis
    using demo_b_usable(2) l
    by (simp add: b_evaluate_def demo_b_bars locked take_settings_def enter_session_def seen_bar_def Let_def
        demo_b_config_def[THEN arg_cong[where f = bc_entry_start]] demo_b_config_def[THEN arg_cong[where f = bc_entry_end]])
qed

definition lock_inputs :: "b_input list" where "lock_inputs = [(no_overrides, b_features_at b_lock_time, b_bars)]"

lemma locked_run: "b_run demo_b_config lock_inputs locked_state" "b_trace demo_b_config lock_inputs b_lock_time [] locked_state"
proof -
  show "b_run demo_b_config lock_inputs locked_state" unfolding locked_state_def lock_inputs_def by (intro b_run.intros)
  let ?r = "b_evaluate demo_b_config no_overrides (b_features_at b_lock_time) b_bars b_init"
  have d: "bo_signal (snd ?r) = None"
  proof (rule ccontr)
    assume "bo_signal (snd ?r) \<noteq> None"
    then obtain g where "bo_signal (snd ?r) = Some g" by blast
    from signal_box[OF prod.collapse[symmetric] this] show False by (simp add: b_init_def)
  qed
  have "b_trace demo_b_config [] b_lock_time [] b_init" by (rule b_trace.start)
  from b_trace.evaluate[OF this, of "b_features_at b_lock_time" b_lock_time b_bars no_overrides "fst ?r" "snd ?r"] d demo_b_usable(1)
  show "b_trace demo_b_config lock_inputs b_lock_time [] locked_state"
    by (simp add: demo_b_bars locked_state_def b_features_at_def lock_inputs_def)
qed

theorem b_signal_sound_witness:
  "\<exists>s' d w after. b_evaluate demo_b_config no_overrides (b_features_at b_break_time) (b_bars @ [b_breakout_bar]) locked_state = (s', d)
    \<and> framed_by demo_b_config (targets demo_b_config no_overrides) after demo_box w (b_features_at b_lock_time) b_bars
    \<and> good_break (targets demo_b_config no_overrides) no_overrides (b_features_at b_break_time) True demo_box b_breakout_bar
    \<and> bs_box s' = None"
proof -
  let ?r = "b_evaluate demo_b_config no_overrides (b_features_at b_break_time) (b_bars @ [b_breakout_bar]) locked_state"
  from b_signal_sound[OF locked_run(1) prod.collapse[symmetric] demo_breaks_out]
  obtain b w bull where b: "bs_box locked_state = Some b"
    "framed_by demo_b_config (targets demo_b_config no_overrides) (bs_after locked_state) b w (b_features_at b_lock_time) b_bars"
    "good_break (targets demo_b_config no_overrides) no_overrides (b_features_at b_break_time) bull b b_breakout_bar"
    "b_signal True demo_box b_breakout_bar = b_signal bull b b_breakout_bar" "bs_box (fst ?r) = None"
    by (auto simp: lock_inputs_def)
  have "b = demo_box" "bull" using b(1,4) locked(1) by (auto simp: b_signal_def split: if_splits)
  then show ?thesis using b(2,3,5) by (intro exI[of _ "fst ?r"] exI[of _ "snd ?r"] exI[of _ w] exI[of _ "bs_after locked_state"]) simp
qed

theorem b_bars_used_once_witness:
  "\<exists>w. framed demo_b_config lock_inputs locked_state demo_box w \<and> sorted_wrt (<) (map sg_timestamp [b_signal True demo_box b_breakout_bar])"
  using b_bars_used_once[OF locked_run(2) prod.collapse[symmetric] demo_breaks_out] locked(1) by simp

end
