(* ===== verification/Spec2Isabelle.thy ===== *)
theory Spec2Isabelle imports Bus PaperTrading BrokerLedger PositionManager Idempotency Candles RateLimits Intrabar FuturesSignal ContractSelection EngineRuns Controls Breakout begin

text \<open>
  A verification development of the trading platform under \<^verbatim>\<open>src/\<close>: the path of an order from the
  API through risk, order management and execution to a broker and back into the portfolio, the
  limits and gates around it, and the position rules of the option strategies.  Every theory opens
  with the files it models; the definitions keep the names of the methods they translate.

  \<^bold>\<open>The program's parts.\<close>  A command enters through the API gateway, which throttles the client and
  replays commands it has already answered.  An order intent is stored by the OMS, which asks the risk
  service for a decision; an approved order is commanded to the execution service, which checks it
  again, journals a reservation, and calls the broker through the gateway service (a paper broker, or
  a LIVE adapter behind the write ledger and the live gate).  What the broker answers comes back on
  the event bus as status reports, which the OMS applies to the order under the order state machine,
  and fills, which the portfolio books once each.  Services share no state: each has a SQLite
  database and an outbox, and they exchange envelopes.

  \<^bold>\<open>Theories.\<close>
  \<^item> \<^verbatim>\<open>PyFloat\<close>: Python floats as exact rationals rounded to binary64 after every operation, with the
    infinities and NaN; \<^verbatim>\<open>round\<close>, \<^verbatim>\<open>max\<close>, \<^verbatim>\<open>min\<close>, compensated \<^verbatim>\<open>sum\<close>.  Contracts \<open>rounding\<close> (binary
    and decimal rounding) and \<open>ratchet\<close> (a stop that only tightens).
  \<^item> \<^verbatim>\<open>Prelude\<close>: clock and identifier readings of one handler call, ASCII strings, tables with a primary
    key and their contract \<open>keyed_table\<close>, which every database and dictionary below interprets.
  \<^item> \<^verbatim>\<open>Contracts\<close>: \<^verbatim>\<open>libs/contracts/models.py\<close>, \<^verbatim>\<open>libs/broker_models/adapter.py\<close>, the topics and
    envelopes of \<^verbatim>\<open>libs/events/bus.py\<close>, exceptions as values.
  \<^item> \<^verbatim>\<open>Bus\<close>: \<open>InMemoryEventBus\<close>; \<^verbatim>\<open>Sqlite\<close>: outbox and inbox of \<^verbatim>\<open>libs/database/sqlite.py\<close>, with the
    contract \<open>outbox\<close> from which draining is proved.
  \<^item> \<^verbatim>\<open>OrderStateMachine\<close>: \<^verbatim>\<open>services/oms/state_machine.py\<close> and the contract \<open>ranked_machine\<close>;
    \<^verbatim>\<open>Oms\<close>: \<^verbatim>\<open>services/oms/repository.py\<close> and \<^verbatim>\<open>service.py\<close>, one definition per transaction and
    per handler, and reachable OMS databases.
  \<^item> \<^verbatim>\<open>LiveGate\<close> and \<^verbatim>\<open>Risk\<close>: \<^verbatim>\<open>services/risk/live_gate.py\<close>, \<^verbatim>\<open>repository.py\<close>, \<^verbatim>\<open>service.py\<close>; each
    check of \<open>evaluate_intent\<close> is a definition, in the order of the code.
  \<^item> \<^verbatim>\<open>Portfolio\<close>: \<^verbatim>\<open>services/portfolio\<close>, with the contracts \<open>fill_store\<close> and \<open>cumulative_reporter\<close>
    that reconciliation needs.
  \<^item> \<^verbatim>\<open>Execution\<close>: \<^verbatim>\<open>services/execution/service.py\<close> in its phases (check, reserve, submit, report),
    restart recovery and reconciliation.
  \<^item> \<^verbatim>\<open>BrokerLedger\<close>: the idempotent write ledger and guard of the broker gateway, with the contract
    \<open>request_ledger\<close> the guard relies on.
  \<^item> \<^verbatim>\<open>PaperBroker\<close>, \<^verbatim>\<open>BrokerGateway\<close>, \<^verbatim>\<open>PaperTrading\<close>: \<^verbatim>\<open>paper_adapter.py\<close>, the adapter selection of
    \<^verbatim>\<open>services/broker_gateway/service.py\<close>, and the composition of execution, gateway, paper broker, OMS
    and portfolio.
  \<^item> \<^verbatim>\<open>StrategyState\<close>, \<^verbatim>\<open>StrategyModels\<close>, \<^verbatim>\<open>PositionManager\<close>: setups, snapshots and the trade record of
    \<^verbatim>\<open>services/strategy/models.py\<close>, and sizing, stops, partial exits and the exit rules of
    \<^verbatim>\<open>services/strategy/position_manager.py\<close>.
  \<^item> \<^verbatim>\<open>Idempotency\<close>, \<^verbatim>\<open>RateLimits\<close>: the command store and the throttling of \<^verbatim>\<open>services/api_gateway\<close>, and
    the token buckets of the broker gateway.  \<^verbatim>\<open>Candles\<close>: \<^verbatim>\<open>services/market_data/candle_builder.py\<close>.
  \<^item> \<^verbatim>\<open>Intrabar\<close>: the order of touches inside a minute bar (\<^verbatim>\<open>replay_intrabar.py\<close>, \<^verbatim>\<open>replay_stops.py\<close>)
    against price paths.  \<^verbatim>\<open>Calendar\<close> (proleptic Gregorian dates, ISO texts), \<^verbatim>\<open>FuturesSignal\<close>
    (\<^verbatim>\<open>futures_signal.py\<close>) and \<^verbatim>\<open>ContractSelection\<close> (\<^verbatim>\<open>contract_selector.py\<close>).
  \<^item> \<^verbatim>\<open>LiveOrders\<close>, \<^verbatim>\<open>TradeManagement\<close>: the management of open trades by \<^verbatim>\<open>services/strategy/service.py\<close>,
    one definition per order the service keeps (protective stop, partial exit, final exit) and per
    phase of \<^verbatim>\<open>_evaluate_active_trade\<close>.  \<^verbatim>\<open>TradeSafety\<close>: their interplay with the OMS over any run,
    under the contract \<open>sale_book\<close> of the order book.
  \<^item> \<^verbatim>\<open>EntryCycle\<close>: \<^verbatim>\<open>_evaluate_cycle\<close> of the same service, the gates of \<^verbatim>\<open>risk_gates.py\<close>, the policy of
    \<^verbatim>\<open>execution_policy.py\<close> and the adapters of \<^verbatim>\<open>strategies/candidate_runtime.py\<close>.  \<^verbatim>\<open>EntrySafety\<close>: the
    gates behind an entry and what it stores; \<^verbatim>\<open>EngineRuns\<close>: the limits over any run of the engine.
  \<^item> \<^verbatim>\<open>TrendPullback\<close>: strategy A, \<^verbatim>\<open>strategies/trend_pullback.py\<close>, as a machine over the snapshots of
    \<^verbatim>\<open>StrategyState\<close> and the features of \<^verbatim>\<open>FuturesSignal\<close>; a run of it refines the setup lifecycle.
  \<^item> \<^verbatim>\<open>PivotScalp\<close>: the signal engine of strategy E, \<^verbatim>\<open>strategies/pivot_vwap_scalp.py\<close>; the lifecycle of its
    open positions is in \<^verbatim>\<open>TradeManagement\<close>.  \<^verbatim>\<open>Breakout\<close>: strategy B,
    \<^verbatim>\<open>strategies/volatility_breakout.py\<close>, with the life of its compression box.
  \<^item> \<^verbatim>\<open>Authority\<close>: what a disarmed service can still do.  \<^verbatim>\<open>Controls\<close>: the operator's side of the same
    service (\<^verbatim>\<open>arm_system\<close>, \<^verbatim>\<open>toggle_kill_switch\<close>, \<^verbatim>\<open>set_execution_mode\<close>, \<^verbatim>\<open>update_config\<close>, \<^verbatim>\<open>initialize\<close>,
    \<^verbatim>\<open>force_entry\<close>) and the runs under all of its commands.

  \<^bold>\<open>What the lemmas show.\<close>  Per component: invariants of every reachable state (the journal of an
  order is a path of the machine; a position is the sum of its fills; the paper book is its trades),
  the effect of each handler on every branch, errors included, and what it leaves alone.  Across
  components: at most one submission of an order however executions, restarts and reports follow each
  other; an approval satisfies every limit; a paper order settles in all books (\<open>paper_order_settles\<close>,
  a refinement of the one-line specification by the five services); a completed command is replayed.
  Where the code is an optimised routine it is proved equal to a reference: the candle builder
  (grouping, then aggregating) and the sliding window (a limiter with a full log).  A definite verdict
  of the intrabar routines holds on every price path the bars allow; the futures features read no bar
  that was not known yet, and a known bar never changes; a selected option contract is within every
  limit of the selector.  An update of a position loosens its stop by no more than the rounding of the
  stop to two decimals (\<open>position_stop_ratchets\<close>).  A trade never has two working sales while the strategy desk and the OMS take
  their steps in any order (\<open>one_sale_at_a_time\<close>), unless it is exited by hand while an exit order works.  A
  trade is opened only behind the gates of the cycle, as the signal, the contract and the size it was
  computed for (\<open>entry_gated\<close>), and over any run the open positions and the trades of a day
  stay within the limits (\<open>limits_hold\<close>), since management touches the row of its own trade only.
  After the kill switch, a disarming or a restart nothing but an operator's arming leads to another
  purchase (\<open>no_purchase_unarmed\<close>).
  A signal of strategy A comes from a setup it holds on an unseen bar inside every limit of its own
  (\<open>a_signal_sound\<close>), and can be confirmed only within the setup's life (\<open>a_confirm_window\<close>); each call of
  the strategy is a step the setup lifecycle allows (\<open>a_refines_lifecycle\<close>).  One of strategy B comes from a
  box an evaluation of the run has framed of contiguous bars of its session, and that has not expired (\<open>b_signal_sound\<close>), and no bar
  frames two boxes across a signal (\<open>b_bars_used_once\<close>); one of strategy E comes from a fresh bar with its
  stop and reward inside the configured limits (\<open>e_signal_sound\<close>).  The lemmas named by
  the findings are concrete runs on which the code does not do what its documentation says.

  \<^bold>\<open>Errors, time and concurrency.\<close>  A raise is a value of a sum or an option, and the state returned
  with it is the state the code leaves behind.  Clocks and generated identifiers are arguments
  (microseconds since the epoch).  A handler is one step where the code holds a lock or a transaction;
  where it awaits in between, its phases are separate definitions and the interleavings are stated
  (\<open>exec_interleaving_submits_twice\<close>, \<open>reservation_not_exclusive\<close>, \<open>claim_race\<close>).  Polling loops are
  one pass, repeated in the statements; recursions are structural, so no fuel is needed.

  \<^bold>\<open>Assumptions.\<close>  CPython 3.12 or later (\<^verbatim>\<open>sum\<close> of floats); ASCII text for upper and lower case;
  integers of mixed float expressions within the float range and of the databases within 64 bits;
  timezone-aware timestamps; SQLite transactions are atomic.  Code outside \<^verbatim>\<open>src/\<close> (broker SDKs, JWT
  decoding, the SHA-256 digest) is an argument of the definitions that call it.

  \<^bold>\<open>Not modelled.\<close>  The HTTP routes and request validation, the LIVE adapters' network code, credential
  storage and login flows, the user interface and the migrations are I/O around the modelled core.
  Of the strategy service quote resolution, overrides and reports, the diagnostics of the strategies
  and the setups of strategies C and D are left out (their signals are inputs of the cycle, and a call
  into a strategy is recorded as one that returns), as are the replay and simulation around it and the
  historical research pipelines, which run the same strategies offline on data frames, and the lookups
  of the option chain and the instrument master.  Log messages and the wording of error texts
  that no code inspects are left out.
\<close>

end
